(* ===== verification/Prelude.thy ===== *)
theory Prelude
  imports Main "HOL-Library.Word" "HOL-Library.Multiset"
begin

text \<open>
  Shared vocabulary of the development: the three-valued result of a Go call (value, error,
  panic), and the parts of the Go standard library (\<^verbatim>\<open>strings\<close>,
  \<^verbatim>\<open>strconv\<close>, \<^verbatim>\<open>path/filepath\<close>) that the modelled
  packages call. A Go string is a byte sequence and so is \<open>string\<close>
  (a list of 8-bit \<open>char\<close>). Case folding and white space are those of ASCII; bytes
  above 127 are left alone.
\<close>

named_theorems res_simps "evaluation rules of the result type"
named_theorems go_simps "evaluation rules of the library functions"

section \<open>Results\<close>

text \<open>
  \<open>errors.New\<close> and \<open>errors.Errorf\<close> give \<open>Err\<close> and \<open>Errf\<close> (a format with the
  arguments it is applied to), \<open>errors.Wrap\<close> gives \<open>Wrap\<close>; \<open>NumError\<close> is what
  \<open>strconv\<close> returns, \<open>NotFound\<close> the error type of \<open>pkg/types\<close>, \<open>LibErr\<close> an error handed
  back by code outside the repository.
\<close>

datatype go_error =
    Err string
  | Errf string "string list"
  | Wrap string go_error
  | NumError string string
  | NotFound string
  | LibErr string

datatype 'a res = Ok 'a | Fail go_error | Panic string

fun bind_res :: "'a res \<Rightarrow> ('a \<Rightarrow> 'b res) \<Rightarrow> 'b res" where
  "bind_res (Ok x) f = f x"
| "bind_res (Fail e) f = Fail e"
| "bind_res (Panic m) f = Panic m"

fun wrap_res :: "string \<Rightarrow> 'a res \<Rightarrow> 'a res" where
  "wrap_res msg (Ok x) = Ok x"
| "wrap_res msg (Fail e) = Fail (Wrap msg e)"
| "wrap_res msg (Panic m) = Panic m"

fun map_res :: "('a \<Rightarrow> 'b) \<Rightarrow> 'a res \<Rightarrow> 'b res" where
  "map_res f (Ok x) = Ok (f x)"
| "map_res f (Fail e) = Fail e"
| "map_res f (Panic m) = Panic m"

fun is_ok :: "'a res \<Rightarrow> bool" where
  "is_ok (Ok x) = True"
| "is_ok (Fail e) = False"
| "is_ok (Panic m) = False"

fun is_panic :: "'a res \<Rightarrow> bool" where
  "is_panic (Panic m) = True"
| "is_panic (Ok x) = False"
| "is_panic (Fail e) = False"

lemma bind_res_Ok_iff [res_simps]:
  "bind_res m f = Ok y \<longleftrightarrow> (\<exists>x. m = Ok x \<and> f x = Ok y)"
  by (cases m) auto

lemma bind_res_Fail_iff [res_simps]:
  "bind_res m f = Fail e \<longleftrightarrow> m = Fail e \<or> (\<exists>x. m = Ok x \<and> f x = Fail e)"
  by (cases m) auto

lemma wrap_res_Ok_iff [res_simps]: "wrap_res msg m = Ok y \<longleftrightarrow> m = Ok y"
  by (cases m) auto

lemma map_res_Ok_iff [res_simps]: "map_res f m = Ok y \<longleftrightarrow> (\<exists>x. m = Ok x \<and> y = f x)"
  by (cases m) auto

lemma map_res_option_Some_iff:
  "map_res (map_option f) m = Ok (Some r) \<longleftrightarrow> (\<exists>x. m = Ok (Some x) \<and> r = f x)"
  by (cases m) auto

lemma map_res_option_None_iff: "map_res (map_option f) m = Ok None \<longleftrightarrow> m = Ok None"
  by (cases m) auto

lemma is_panic_wrap [simp]: "is_panic (wrap_res msg m) = is_panic m"
  by (cases m) auto

lemma is_panic_map [simp]: "is_panic (map_res f m) = is_panic m"
  by (cases m) auto

lemma is_ok_wrap [simp]: "is_ok (wrap_res msg m) = is_ok m"
  by (cases m) auto

lemma is_panic_bind:
  "is_panic (bind_res m f) \<longleftrightarrow> is_panic m \<or> (\<exists>x. m = Ok x \<and> is_panic (f x))"
  by (cases m) auto

lemma bind_res_Ok [simp]: "bind_res m Ok = m"
  by (cases m) auto

lemma bind_res_assoc: "bind_res (bind_res m f) g = bind_res m (\<lambda>x. bind_res (f x) g)"
  by (cases m) auto

text \<open>A loop that runs a fallible body on each element and collects the values.\<close>

fun map_m :: "('a \<Rightarrow> 'b res) \<Rightarrow> 'a list \<Rightarrow> 'b list res" where
  "map_m f [] = Ok []"
| "map_m f (x # xs) = bind_res (f x) (\<lambda>y. bind_res (map_m f xs) (\<lambda>ys. Ok (y # ys)))"

lemma map_m_Ok: "map_m (\<lambda>x. Ok (f x)) xs = Ok (map f xs)"
  by (induction xs) auto

lemma map_m_Ok_cong: "(\<And>x. x \<in> set xs \<Longrightarrow> f x = Ok (g x)) \<Longrightarrow> map_m f xs = Ok (map g xs)"
  by (induction xs) auto

lemma map_m_Ok_length: "map_m f xs = Ok ys \<Longrightarrow> length ys = length xs"
  by (induction xs arbitrary: ys) (auto simp: res_simps)

lemma map_m_append:
  "map_m f (xs @ ys) =
     bind_res (map_m f xs) (\<lambda>as. bind_res (map_m f ys) (\<lambda>bs. Ok (as @ bs)))"
proof (induction xs)
  case Nil
  show ?case by (cases "map_m f ys") auto
next
  case (Cons x xs)
  then show ?case by (cases "f x"; cases "map_m f xs"; cases "map_m f ys") auto
qed

text \<open>
  The first element that is not skipped is a hit: the shape of every loop that returns from its
  body.
\<close>

definition first_such :: "('a \<Rightarrow> bool) \<Rightarrow> ('a \<Rightarrow> bool) \<Rightarrow> 'a list \<Rightarrow> bool" where
  "first_such skip hit xs \<longleftrightarrow>
     (\<exists>pre y post. xs = pre @ y # post \<and> (\<forall>x\<in>set pre. skip x) \<and> hit y)"

lemma first_such_Nil [simp]: "\<not> first_such skip hit []"
  by (simp add: first_such_def)

lemma first_such_Cons [simp]:
  "first_such skip hit (x # xs) \<longleftrightarrow> hit x \<or> skip x \<and> first_such skip hit xs"
proof
  assume "first_such skip hit (x # xs)"
  then obtain pre y post where xs: "x # xs = pre @ y # post" and "\<forall>x\<in>set pre. skip x" "hit y"
    by (auto simp: first_such_def)
  then show "hit x \<or> skip x \<and> first_such skip hit xs"
    by (cases pre) (auto simp: first_such_def)
next
  assume "hit x \<or> skip x \<and> first_such skip hit xs"
  then show "first_such skip hit (x # xs)"
  proof
    assume "hit x"
    then show ?thesis unfolding first_such_def
      by (intro exI [of _ "[]"] exI [of _ x] exI [of _ xs]) simp
  next
    assume "skip x \<and> first_such skip hit xs"
    then obtain pre y post where "skip x" "xs = pre @ y # post" "\<forall>x\<in>set pre. skip x" "hit y"
      by (auto simp: first_such_def)
    then show ?thesis unfolding first_such_def
      by (intro exI [of _ "x # pre"] exI [of _ y] exI [of _ post]) simp
  qed
qed

section \<open>Characters and strings\<close>

definition is_space :: "char \<Rightarrow> bool" where
  "is_space c \<longleftrightarrow>
     c = CHR 0x09 \<or> c = CHR 0x0A \<or> c = CHR 0x0B \<or> c = CHR 0x0C \<or> c = CHR 0x0D \<or> c = CHR '' ''"

definition lower_char :: "char \<Rightarrow> char" where
  "lower_char c = (let n = (of_char c :: nat) in if 65 \<le> n \<and> n \<le> 90 then char_of (n + 32) else c)"

definition upper_char :: "char \<Rightarrow> char" where
  "upper_char c = (let n = (of_char c :: nat) in if 97 \<le> n \<and> n \<le> 122 then char_of (n - 32) else c)"

definition to_lower :: "string \<Rightarrow> string" where
  "to_lower s = map lower_char s"

definition to_upper :: "string \<Rightarrow> string" where
  "to_upper s = map upper_char s"

definition trim_space :: "string \<Rightarrow> string" where
  "trim_space s = rev (dropWhile is_space (rev (dropWhile is_space s)))"

definition has_prefix :: "'a list \<Rightarrow> 'a list \<Rightarrow> bool" where
  "has_prefix p s \<longleftrightarrow> take (length p) s = p"

definition has_suffix :: "'a list \<Rightarrow> 'a list \<Rightarrow> bool" where
  "has_suffix p s \<longleftrightarrow> has_prefix (rev p) (rev s)"

definition trim_prefix :: "'a list \<Rightarrow> 'a list \<Rightarrow> 'a list" where
  "trim_prefix p s = (if has_prefix p s then drop (length p) s else s)"

definition trim_suffix :: "'a list \<Rightarrow> 'a list \<Rightarrow> 'a list" where
  "trim_suffix p s = (if has_suffix p s then take (length s - length p) s else s)"

fun contains_sub :: "'a list \<Rightarrow> 'a list \<Rightarrow> bool" where
  "contains_sub p [] = (p = [])"
| "contains_sub p (c # s) = (has_prefix p (c # s) \<or> contains_sub p s)"

text \<open>\<open>strings.Split\<close> with a separator of one byte, \<open>strings.Join\<close>, \<open>strings.Fields\<close>.\<close>

fun split_on :: "char \<Rightarrow> string \<Rightarrow> string list" where
  "split_on sep [] = [[]]"
| "split_on sep (c # s) =
     (if c = sep then [] # split_on sep s
      else (case split_on sep s of [] \<Rightarrow> [[c]] | w # ws \<Rightarrow> (c # w) # ws))"

fun join_with :: "string \<Rightarrow> string list \<Rightarrow> string" where
  "join_with sep [] = []"
| "join_with sep [w] = w"
| "join_with sep (w # v # ws) = w @ sep @ join_with sep (v # ws)"

lemma length_dropWhile_less [termination_simp]: "length (dropWhile P s) < Suc (length s)"
  by (simp add: le_imp_less_Suc length_dropWhile_le)

fun split_fields :: "string \<Rightarrow> string list" where
  "split_fields [] = []"
| "split_fields (c # s) =
     (if is_space c then split_fields s
      else (c # takeWhile (\<lambda>d. \<not> is_space d) s)
             # split_fields (dropWhile (\<lambda>d. \<not> is_space d) s))"

text \<open>\<open>strings.ReplaceAll\<close> for a non-empty pattern.\<close>

fun replace_nonempty :: "'a list \<Rightarrow> 'a list \<Rightarrow> 'a list \<Rightarrow> 'a list" where
  "replace_nonempty old new [] = []"
| "replace_nonempty old new (c # s) =
     (if old \<noteq> [] \<and> has_prefix old (c # s)
      then new @ replace_nonempty old new (drop (length old) (c # s))
      else c # replace_nonempty old new s)"

text \<open>The empty pattern matches before every byte and at the end.\<close>

definition replace_all :: "'a list \<Rightarrow> 'a list \<Rightarrow> 'a list \<Rightarrow> 'a list" where
  "replace_all old new s =
     (if old = [] then concat (map (\<lambda>c. new @ [c]) s) @ new else replace_nonempty old new s)"

lemma has_prefix_Nil [simp]: "has_prefix [] s"
  by (simp add: has_prefix_def)

lemma has_prefix_Cons [simp]: "has_prefix (p # ps) (c # s) \<longleftrightarrow> p = c \<and> has_prefix ps s"
  by (auto simp: has_prefix_def)

lemma has_prefix_Cons_Nil [simp]: "\<not> has_prefix (p # ps) []"
  by (simp add: has_prefix_def)

lemma has_prefix_iff: "has_prefix p s \<longleftrightarrow> (\<exists>t. s = p @ t)"
  by (metis append_eq_conv_conj has_prefix_def append_take_drop_id)

lemma has_prefix_append [simp]: "has_prefix p (p @ s)"
  by (auto simp: has_prefix_iff)

lemma has_suffix_iff: "has_suffix p s \<longleftrightarrow> (\<exists>t. s = t @ p)"
proof
  assume "has_suffix p s"
  then obtain t where "rev s = rev p @ t" by (auto simp: has_suffix_def has_prefix_iff)
  then have "s = rev t @ p" by (metis rev_append rev_rev_ident)
  then show "\<exists>t. s = t @ p" by blast
qed (auto simp: has_suffix_def has_prefix_iff)

lemma contains_sub_iff: "contains_sub p s \<longleftrightarrow> (\<exists>a b. s = a @ p @ b)"
proof (induction s)
  case (Cons c s)
  have "(\<exists>a b. c # s = a @ p @ b) \<longleftrightarrow> has_prefix p (c # s) \<or> (\<exists>a b. s = a @ p @ b)"
    by (auto simp: has_prefix_iff Cons_eq_append_conv)
  with Cons show ?case by simp
qed auto

lemma replace_nonempty_Cons:
  "old \<noteq> [] \<Longrightarrow> \<not> has_prefix old (c # s) \<Longrightarrow>
   replace_nonempty old new (c # s) = c # replace_nonempty old new s"
  by simp

text \<open>Replacing by a text that shares no character with the pattern removes the pattern.\<close>

lemma contains_sub_skip:
  assumes "p \<noteq> []" and "set p \<inter> set new = {}" and "contains_sub p (new @ t)"
  shows "contains_sub p t"
  using assms(2,3)
proof (induction new)
  case (Cons c new)
  have "\<not> has_prefix p ((c # new) @ t)" using assms(1) Cons.prems(1) by (cases p) auto
  with Cons show ?case by auto
qed simp

lemma prefix_of_replaced:
  assumes "new \<noteq> []" and "set q \<inter> set new = {}" and "has_prefix q (replace_nonempty old new s)"
  shows "has_prefix q s"
  using assms(2,3)
proof (induction s arbitrary: q)
  case (Cons c s)
  show ?case
  proof (cases q)
    case (Cons d q')
    show ?thesis
    proof (cases "old \<noteq> [] \<and> has_prefix old (c # s)")
      case True
      with Cons.prems Cons assms(1) show ?thesis by (cases new) auto
    next
      case False
      with Cons.prems Cons Cons.IH [of q'] show ?thesis by auto
    qed
  qed simp
qed simp

lemma replace_removes:
  assumes "old \<noteq> []" and "new \<noteq> []" and "set old \<inter> set new = {}"
  shows "\<not> contains_sub old (replace_nonempty old new s)"
proof (induction s rule: length_induct)
  case (1 s)
  show ?case
  proof (cases s)
    case (Cons c t)
    show ?thesis
    proof (cases "has_prefix old (c # t)")
      case True
      have "length (drop (length old) (c # t)) < length s" using assms(1) Cons by (cases old) auto
      with 1 have "\<not> contains_sub old (replace_nonempty old new (drop (length old) (c # t)))" by blast
      with contains_sub_skip [OF assms(1,3)] True assms(1) Cons show ?thesis by auto
    next
      case False
      then have eq: "replace_nonempty old new s = c # replace_nonempty old new t" by (simp add: Cons)
      have "\<not> has_prefix old (c # replace_nonempty old new t)"
      proof
        assume pre: "has_prefix old (c # replace_nonempty old new t)"
        then obtain q where q: "old = c # q" "has_prefix q (replace_nonempty old new t)"
          using assms(1) by (cases old) auto
        have "has_prefix q t" by (rule prefix_of_replaced [OF assms(2) _ q(2)]) (use assms(3) q(1) in auto)
        with False q(1) show False by simp
      qed
      moreover have "\<not> contains_sub old (replace_nonempty old new t)" using 1 Cons by simp
      ultimately show ?thesis unfolding eq by simp
    qed
  qed (use assms(1) in simp)
qed

section \<open>Splitting\<close>

lemma split_on_not_Nil [simp]: "split_on sep s \<noteq> []"
  by (cases s) (auto split: list.splits)

lemma split_on_no_sep: "sep \<notin> set s \<Longrightarrow> split_on sep s = [s]"
  by (induction s) auto

lemma split_on_append:
  "sep \<notin> set w \<Longrightarrow> split_on sep (w @ sep # s) = w # split_on sep s"
  by (induction w) auto

lemma split_on_elem: "w \<in> set (split_on sep s) \<Longrightarrow> sep \<notin> set w"
  by (induction s arbitrary: w) (fastforce split: if_splits list.splits)+

lemma split_on_two:
  "sep \<notin> set a \<Longrightarrow> sep \<notin> set b \<Longrightarrow> split_on sep (a @ sep # b) = [a, b]"
  by (simp add: split_on_append split_on_no_sep)

lemma split_on_three:
  "sep \<notin> set a \<Longrightarrow> sep \<notin> set b \<Longrightarrow> sep \<notin> set c \<Longrightarrow>
   split_on sep (a @ sep # b @ sep # c) = [a, b, c]"
  by (simp add: split_on_append split_on_no_sep)

lemma join_split_on: "join_with [sep] (split_on sep s) = s"
proof (induction s)
  case (Cons c s)
  show ?case
  proof (cases "split_on sep s")
    case Nil
    then show ?thesis by simp
  next
    case (Cons w ws)
    with Cons.IH show ?thesis by (cases ws) auto
  qed
qed simp

text \<open>A condition is a few words with one blank between them.\<close>

definition sentence :: "string list \<Rightarrow> string" where
  "sentence ws = join_with '' '' ws"

lemma split_join:
  "ws \<noteq> [] \<Longrightarrow> \<forall>w\<in>set ws. sep \<notin> set w \<Longrightarrow> split_on sep (join_with [sep] ws) = ws"
proof (induction ws rule: induct_list012)
  case (3 w v ws)
  then show ?case by (simp add: split_on_append)
qed (simp_all add: split_on_no_sep)

lemma split_sentence:
  "ws \<noteq> [] \<Longrightarrow> \<forall>w\<in>set ws. CHR '' '' \<notin> set w \<Longrightarrow> split_on (CHR '' '') (sentence ws) = ws"
  by (simp add: sentence_def split_join)

lemma set_join_with: "set (join_with sep ws) \<subseteq> set sep \<union> \<Union> (set ` set ws)"
  by (induction ws rule: induct_list012) auto

lemma trim_space_id:
  assumes "s = [] \<or> (\<not> is_space (hd s) \<and> \<not> is_space (last s))"
  shows "trim_space s = s"
proof (cases "s = []")
  case False
  with assms have "dropWhile is_space s = s" and "dropWhile is_space (rev s) = rev s"
    by (metis dropWhile_eq_self_iff, metis dropWhile_eq_self_iff hd_rev)
  then show ?thesis by (simp add: trim_space_def)
qed (simp add: trim_space_def)

text \<open>A word of a condition: no white space in it.\<close>

definition is_word :: "string \<Rightarrow> bool" where
  "is_word w \<longleftrightarrow> w \<noteq> [] \<and> (\<forall>c\<in>set w. \<not> is_space c)"

lemma trim_sentence: "is_word a \<Longrightarrow> is_word c \<Longrightarrow> trim_space (sentence [a, b, c]) = sentence [a, b, c]"
  by (intro trim_space_id disjI2) (auto simp: sentence_def is_word_def hd_append)

lemma split_words:
  "\<forall>w\<in>set ws. is_word w \<Longrightarrow> ws \<noteq> [] \<Longrightarrow> split_on (CHR '' '') (sentence ws) = ws"
  by (rule split_sentence) (auto simp: is_word_def is_space_def)

section \<open>Numbers\<close>

text \<open>
  \<^verbatim>\<open>strconv.Atoi\<close> and \<^verbatim>\<open>strconv.ParseInt(s, 10, 64)\<close> on a
  64-bit platform: an optional sign, at least one digit, the range of \<^verbatim>\<open>int64\<close>.
\<close>

definition is_digit :: "char \<Rightarrow> bool" where
  "is_digit c \<longleftrightarrow> 48 \<le> (of_char c :: nat) \<and> (of_char c :: nat) \<le> 57"

definition digit_val :: "char \<Rightarrow> nat" where
  "digit_val c = of_char c - 48"

definition digit_char :: "nat \<Rightarrow> char" where
  "digit_char d = char_of (48 + d)"

fun digits_val :: "nat \<Rightarrow> string \<Rightarrow> nat option" where
  "digits_val acc [] = Some acc"
| "digits_val acc (c # s) =
     (if is_digit c then digits_val (10 * acc + digit_val c) s else None)"

definition in_int64 :: "int \<Rightarrow> bool" where
  "in_int64 v \<longleftrightarrow> - (2 ^ 63) \<le> v \<and> v < 2 ^ 63"

definition split_sign :: "string \<Rightarrow> bool \<times> string" where
  "split_sign s =
     (case s of [] \<Rightarrow> (False, [])
      | c # t \<Rightarrow> if c = CHR ''-'' then (True, t) else if c = CHR ''+'' then (False, t) else (False, s))"

definition parse_int64 :: "string \<Rightarrow> string \<Rightarrow> int res" where
  "parse_int64 fn s =
     (let (neg, ds) = split_sign s
      in if ds = [] then Fail (NumError fn s)
         else case digits_val 0 ds of
                None \<Rightarrow> Fail (NumError fn s)
              | Some n \<Rightarrow> (let v = (if neg then - int n else int n)
                          in if in_int64 v then Ok v else Fail (NumError fn s)))"

definition atoi :: "string \<Rightarrow> int res" where
  "atoi s = parse_int64 ''Atoi'' s"

definition parse_int :: "string \<Rightarrow> int res" where
  "parse_int s = parse_int64 ''ParseInt'' s"

text \<open>The verb \<^verbatim>\<open>%d\<close>.\<close>

fun show_nat :: "nat \<Rightarrow> string" where
  "show_nat n = (if n < 10 then [digit_char n] else show_nat (n div 10) @ [digit_char (n mod 10)])"

declare show_nat.simps [simp del]

definition show_int :: "int \<Rightarrow> string" where
  "show_int v = (if v < 0 then CHR ''-'' # show_nat (nat (- v)) else show_nat (nat v))"

text \<open>\<^verbatim>\<open>strconv.ParseBool\<close>.\<close>

definition parse_bool :: "string \<Rightarrow> bool res" where
  "parse_bool s =
     (if s \<in> {''1'', ''t'', ''T'', ''TRUE'', ''true'', ''True''} then Ok True
      else if s \<in> {''0'', ''f'', ''F'', ''FALSE'', ''false'', ''False''} then Ok False
      else Fail (NumError ''ParseBool'' s))"

lemma digit_char_simps [simp]:
  assumes "d < 10"
  shows "is_digit (digit_char d)" and "digit_val (digit_char d) = d"
  using assms by (auto simp: is_digit_def digit_val_def digit_char_def)

lemma digit_chars:
  "digit_char 0 = CHR ''0''" "digit_char 1 = CHR ''1''" "digit_char (Suc 0) = CHR ''1''"
  "digit_char 2 = CHR ''2''" "digit_char 3 = CHR ''3''" "digit_char 4 = CHR ''4''"
  "digit_char 5 = CHR ''5''" "digit_char 6 = CHR ''6''" "digit_char 7 = CHR ''7''"
  "digit_char 8 = CHR ''8''" "digit_char 9 = CHR ''9''"
  by code_simp+

lemmas show_number = show_int_def show_nat.simps digit_chars

lemma digits_val_append:
  "digits_val acc (s @ t) = (case digits_val acc s of None \<Rightarrow> None | Some n \<Rightarrow> digits_val n t)"
  by (induction s arbitrary: acc) auto

lemma digits_val_show_nat: "digits_val 0 (show_nat n) = Some n"
proof (induction n rule: show_nat.induct)
  case (1 n)
  then show ?case
    by (cases "n < 10") (simp_all add: show_nat.simps [of n] digits_val_append)
qed

lemma show_nat_inject [simp]: "show_nat m = show_nat n \<longleftrightarrow> m = n"
  by (metis digits_val_show_nat option.inject)

lemma show_nat_digits: "c \<in> set (show_nat n) \<Longrightarrow> is_digit c"
proof (induction n rule: show_nat.induct)
  case (1 n)
  then show ?case by (cases "n < 10") (auto simp: show_nat.simps [of n])
qed

lemma show_nat_not_Nil [simp]: "show_nat n \<noteq> []"
  by (subst show_nat.simps) simp

lemma show_nat_no_sign: "split_sign (show_nat n) = (False, show_nat n)"
proof -
  obtain c t where ct: "show_nat n = c # t" by (cases "show_nat n") auto
  then have "is_digit c" using show_nat_digits [of c n] by simp
  then have "c \<noteq> CHR ''-''" and "c \<noteq> CHR ''+''" by (auto simp: is_digit_def)
  with ct show ?thesis by (simp add: split_sign_def)
qed

lemma parse_int64_show_int [go_simps]: "in_int64 v \<Longrightarrow> parse_int64 fn (show_int v) = Ok v"
  by (auto simp: parse_int64_def show_int_def show_nat_no_sign digits_val_show_nat)
    (auto simp: split_sign_def digits_val_show_nat)

lemma atoi_show_int [go_simps]: "in_int64 v \<Longrightarrow> atoi (show_int v) = Ok v"
  by (simp add: atoi_def go_simps)

lemma parse_int_show_int [go_simps]: "in_int64 v \<Longrightarrow> parse_int (show_int v) = Ok v"
  by (simp add: parse_int_def go_simps)

lemma show_int_inject: "in_int64 a \<Longrightarrow> in_int64 v \<Longrightarrow> show_int a = show_int v \<longleftrightarrow> a = v"
  by (metis atoi_show_int res.inject(1))

lemma show_int_not_Nil [simp]: "show_int v \<noteq> []"
  by (simp add: show_int_def)

lemma space_not_digit: "is_digit c \<Longrightarrow> \<not> is_space c"
  by (auto simp: is_digit_def is_space_def)

lemma show_int_no_space: "c \<in> set (show_int v) \<Longrightarrow> \<not> is_space c"
  by (auto simp: show_int_def is_space_def [of "CHR ''-''"] dest: show_nat_digits space_not_digit
      split: if_splits)

lemma show_int_no_blank [simp]: "CHR '' '' \<notin> set (show_int v)"
  using show_int_no_space [of "CHR '' ''" v] by (auto simp: is_space_def)

lemma trim_show_int [simp]: "trim_space (show_int n) = show_int n"
  using show_int_no_space [of "hd (show_int n)" n] show_int_no_space [of "last (show_int n)" n]
  by (intro trim_space_id) auto

section \<open>Quoting and paths\<close>

definition hex_char :: "nat \<Rightarrow> char" where
  "hex_char d = (if d < 10 then char_of (48 + d) else char_of (87 + d))"

text \<open>The verb \<^verbatim>\<open>%q\<close>.\<close>

definition quote_char :: "char \<Rightarrow> string" where
  "quote_char c =
     (let n = (of_char c :: nat); esc = (\<lambda>d. [CHR 0x5C, d]) in
      if c = CHR 0x22 \<or> c = CHR 0x5C then esc c
      else if n = 7 then esc (CHR ''a'') else if n = 8 then esc (CHR ''b'')
      else if n = 12 then esc (CHR ''f'') else if n = 10 then esc (CHR ''n'')
      else if n = 13 then esc (CHR ''r'') else if n = 9 then esc (CHR ''t'')
      else if n = 11 then esc (CHR ''v'')
      else if n < 32 \<or> n = 127 then [CHR 0x5C, CHR ''x'', hex_char (n div 16), hex_char (n mod 16)]
      else [c])"

definition quoted :: "string \<Rightarrow> string" where
  "quoted s = [CHR 0x22] @ concat (map quote_char s) @ [CHR 0x22]"

text \<open>
  \<^verbatim>\<open>filepath.Clean\<close> and \<^verbatim>\<open>filepath.Join\<close> on a Unix host: empty and
  \<^verbatim>\<open>.\<close> elements vanish, \<^verbatim>\<open>..\<close> removes the element before it (and itself at the
  root), \<^verbatim>\<open>Join\<close> ignores empty arguments.
\<close>

definition clean_step :: "bool \<Rightarrow> string list \<Rightarrow> string \<Rightarrow> string list" where
  "clean_step rooted acc w =
     (if w = [] \<or> w = ''.'' then acc
      else if w = ''..'' then
        (case acc of
           [] \<Rightarrow> (if rooted then [] else [w])
         | e # rest \<Rightarrow> (if e = ''..'' then w # acc else rest))
      else w # acc)"

definition path_clean :: "string \<Rightarrow> string" where
  "path_clean p =
     (let rooted = has_prefix ''/'' p;
          elems = rev (foldl (clean_step rooted) [] (split_on (CHR ''/'') p));
          body = join_with ''/'' elems
      in if rooted then CHR ''/'' # body else if body = [] then ''.'' else body)"

definition path_join :: "string list \<Rightarrow> string" where
  "path_join elems =
     (let ne = filter (\<lambda>w. w \<noteq> []) elems
      in if ne = [] then [] else path_clean (join_with ''/'' ne))"

section \<open>Duplicates\<close>

text \<open>Removing duplicates by the text an entry marshals to; an entry that does not marshal is kept.\<close>

fun dedup_from :: "('a \<Rightarrow> string res) \<Rightarrow> string list \<Rightarrow> 'a list \<Rightarrow> 'a list" where
  "dedup_from marshal seen [] = []"
| "dedup_from marshal seen (s # ss) =
     (case marshal s of
        Ok d \<Rightarrow> if d \<in> set seen then dedup_from marshal seen ss else s # dedup_from marshal (d # seen) ss
      | _ \<Rightarrow> s # dedup_from marshal seen ss)"

lemma dedup_from_subset: "set (dedup_from marshal seen specs) \<subseteq> set specs"
  by (induction specs arbitrary: seen) (auto split: res.splits if_splits)

lemma dedup_from_distinct:
  assumes "\<forall>s\<in>set specs. marshal s = Ok (key s)"
  shows "distinct (map key (dedup_from marshal seen specs)) \<and> set (map key (dedup_from marshal seen specs)) = set (map key specs) - set seen"
  using assms by (induction specs arbitrary: seen) auto

lemma dedup_from_id:
  assumes "\<forall>s\<in>set specs. marshal s = Ok (key s)" and "distinct (map key specs)" and "set (map key specs) \<inter> set seen = {}"
  shows "dedup_from marshal seen specs = specs"
  using assms
proof (induction specs arbitrary: seen)
  case (Cons s specs)
  then have "dedup_from marshal (key s # seen) specs = specs" by auto
  with Cons.prems show ?case by auto
qed simp

end
