(* ===== verification/Multitype.thy ===== *)
theory Multitype
  imports Prelude
begin

text \<open>
  \<^verbatim>\<open>pkg/multitype\<close>: the fields of a spec that may be written as a boolean or as a
  string. A pointer to a \<^verbatim>\<open>BoolOrString\<close> is an \<open>option\<close>. The JSON codec of the host
  is a parameter of the two marshalling methods.
\<close>

datatype bos_type = BStr | BBool

record bool_or_string =
  bos_kind :: bos_type
  bool_val :: bool
  str_val :: string

definition from_bool :: "bool \<Rightarrow> bool_or_string option" where
  "from_bool v = Some \<lparr>bos_kind = BBool, bool_val = v, str_val = []\<rparr>"

definition from_string :: "string \<Rightarrow> bool_or_string option" where
  "from_string v = Some \<lparr>bos_kind = BStr, bool_val = False, str_val = v\<rparr>"

definition bos_parse :: "string \<Rightarrow> bool_or_string option" where
  "bos_parse v = from_string v"

text \<open>
  \<open>UnmarshalJSON\<close> writes only the field its input selects; the other one keeps its old value. The
  decoders take the value the field held before, as \<^verbatim>\<open>json.Unmarshal\<close> does through its pointer.
  An empty input indexes out of range.
\<close>

definition bos_unmarshal_json ::
  "(string \<Rightarrow> string \<Rightarrow> string res) \<Rightarrow> (bool \<Rightarrow> string \<Rightarrow> bool res) \<Rightarrow> string \<Rightarrow>
   bool_or_string option \<Rightarrow> bool_or_string option res" where
  "bos_unmarshal_json dec_str dec_bool v b =
     (case b of
        None \<Rightarrow> Ok None
      | Some x \<Rightarrow>
          (case v of
             [] \<Rightarrow> Panic ''index out of range''
           | c # _ \<Rightarrow>
               if c = CHR 0x22
               then map_res (\<lambda>s. Some (x\<lparr>bos_kind := BStr, str_val := s\<rparr>)) (dec_str (str_val x) v)
               else map_res (\<lambda>t. Some (x\<lparr>bos_kind := BBool, bool_val := t\<rparr>)) (dec_bool (bool_val x) v)))"

definition bos_String :: "bool_or_string option \<Rightarrow> string" where
  "bos_String b =
     (case b of
        None \<Rightarrow> ''0''
      | Some x \<Rightarrow>
          (case bos_kind x of
             BStr \<Rightarrow> str_val x
           | BBool \<Rightarrow> (if bool_val x then ''1'' else ''0'')))"

definition bos_marshal_json ::
  "(string \<Rightarrow> string) \<Rightarrow> (bool \<Rightarrow> string) \<Rightarrow> bool_or_string option \<Rightarrow> string" where
  "bos_marshal_json enc_str enc_bool b =
     (case b of
        None \<Rightarrow> []
      | Some x \<Rightarrow>
          (case bos_kind x of BBool \<Rightarrow> enc_bool (bool_val x) | BStr \<Rightarrow> enc_str (str_val x)))"

text \<open>\<open>MarshalYAML\<close> hands the encoder a boolean, a string or (for nil) an empty byte slice.\<close>

datatype yaml_scalar = YamlBool bool | YamlString string | YamlBytes string

definition bos_marshal_yaml :: "bool_or_string option \<Rightarrow> yaml_scalar" where
  "bos_marshal_yaml b =
     (case b of
        None \<Rightarrow> YamlBytes []
      | Some x \<Rightarrow>
          (case bos_kind x of BBool \<Rightarrow> YamlBool (bool_val x) | BStr \<Rightarrow> YamlString (str_val x)))"

definition bos_Bool :: "bool_or_string option \<Rightarrow> bool res" where
  "bos_Bool b =
     (case b of
        None \<Rightarrow> Ok False
      | Some x \<Rightarrow>
          (case bos_kind x of
             BBool \<Rightarrow> Ok (bool_val x)
           | BStr \<Rightarrow>
               (case parse_bool (str_val x) of
                  Ok v \<Rightarrow> Ok v
                | Fail e \<Rightarrow> Fail (Wrap ''failed to parse bool string'' e)
                | Panic m \<Rightarrow> Panic m)))"

definition bool_or_default_false :: "bool_or_string option \<Rightarrow> bool" where
  "bool_or_default_false b =
     (case b of
        None \<Rightarrow> False
      | Some x \<Rightarrow> (case bos_Bool (Some x) of Ok v \<Rightarrow> v | Fail _ \<Rightarrow> False | Panic _ \<Rightarrow> False))"

text \<open>
  \<open>isExcluded\<close> of \<^verbatim>\<open>pkg/analyze/analyzer.go\<close> reads the same type with one more rule: an empty
  string is not an error.
\<close>

definition is_excluded :: "bool_or_string option \<Rightarrow> bool res" where
  "is_excluded v =
     (case v of
        None \<Rightarrow> Ok False
      | Some x \<Rightarrow>
          if bos_kind x = BBool then Ok (bool_val x)
          else if str_val x = [] then Ok False
          else wrap_res ''failed to parse bool string'' (parse_bool (str_val x)))"

section \<open>QuotedBool\<close>

definition true_values :: "string list" where
  "true_values = [''y'', ''Y'', ''yes'', ''Yes'', ''YES'', ''true'', ''True'', ''TRUE'', ''on'',
     ''On'', ''ON'', ''1'']"

definition false_values :: "string list" where
  "false_values = [''n'', ''N'', ''no'', ''No'', ''NO'', ''false'', ''False'', ''FALSE'', ''off'',
     ''Off'', ''OFF'', ''0'']"

definition qb_unmarshal_json :: "(string \<Rightarrow> string res) \<Rightarrow> string \<Rightarrow> string res" where
  "qb_unmarshal_json dec_str v =
     (if v \<in> set true_values then Ok ''true''
      else if v \<in> set false_values then Ok ''false''
      else (case dec_str v of
              Ok s \<Rightarrow> Ok s
            | Fail e \<Rightarrow> Fail (Wrap (''unable to unmarshal '' @ quoted v @ '' as bool or string'') e)
            | Panic m \<Rightarrow> Panic m))"

text \<open>The YAML decoder is tried on a boolean, an integer and a string variable, in this order.\<close>

definition qb_unmarshal_yaml :: "bool res \<Rightarrow> int res \<Rightarrow> string res \<Rightarrow> string res" where
  "qb_unmarshal_yaml bool_try int_try string_try =
     (case bool_try of
        Ok b \<Rightarrow> Ok (if b then ''true'' else ''false'')
      | Panic m \<Rightarrow> Panic m
      | Fail _ \<Rightarrow>
          (case int_try of
             Ok i \<Rightarrow> Ok (if i = 0 then ''false'' else ''true'')
           | Panic m \<Rightarrow> Panic m
           | Fail _ \<Rightarrow> wrap_res ''unable to unmarshal as bool, int or string'' string_try))"

section \<open>Lemmas\<close>

lemma parse_bool_no_panic [simp]: "\<not> is_panic (parse_bool s)"
  by (simp add: parse_bool_def)

lemma parse_bool_shape:
  "parse_bool s = Ok True \<or> parse_bool s = Ok False \<or> parse_bool s = Fail (NumError ''ParseBool'' s)"
  by (simp add: parse_bool_def)

lemma parse_bool_cases:
  obtains v where "parse_bool s = Ok v" | "parse_bool s = Fail (NumError ''ParseBool'' s)"
  using parse_bool_shape [of s] by blast

lemma bos_Bool_no_panic [simp]: "\<not> is_panic (bos_Bool b)"
  by (cases "parse_bool (str_val (the b))" rule: res.exhaust)
    (auto simp: bos_Bool_def parse_bool_def split: option.splits bos_type.splits)

lemma is_excluded_no_panic [simp]: "\<not> is_panic (is_excluded b)"
  by (auto simp: is_excluded_def split: option.splits)

lemma is_excluded_agrees: "is_excluded b = Ok v \<Longrightarrow> bool_or_default_false b = v"
  by (auto simp: is_excluded_def bool_or_default_false_def bos_Bool_def parse_bool_def res_simps
      split: option.splits bos_type.splits if_splits)

lemma is_excluded_Fail_iff:
  "(\<exists>e. is_excluded b = Fail e) \<longleftrightarrow>
     (\<exists>x. b = Some x \<and> bos_kind x = BStr \<and> str_val x \<noteq> [] \<and> \<not> is_ok (parse_bool (str_val x)))"
  by (cases b; cases "bos_kind (the b)"; cases "str_val (the b)" rule: parse_bool_cases)
    (auto simp: is_excluded_def)

text \<open>
  A strict or exclude flag reads the same through both readers of the code: whenever
  \<^verbatim>\<open>isExcluded\<close> accepts a flag, \<^verbatim>\<open>BoolOrDefaultFalse\<close> gives the same boolean; when it rejects
  the flag, \<^verbatim>\<open>BoolOrDefaultFalse\<close> falls back to false; and the two differ in one case only,
  the empty string, which \<^verbatim>\<open>Bool\<close> rejects and \<^verbatim>\<open>isExcluded\<close> accepts.
\<close>

theorem flag_readers_agree:
  "(case is_excluded b of
      Ok v \<Rightarrow> bool_or_default_false b = v
    | Fail _ \<Rightarrow> \<not> bool_or_default_false b
    | Panic _ \<Rightarrow> False) \<and>
   (is_ok (is_excluded b) \<noteq> is_ok (bos_Bool b) \<longleftrightarrow> b = Some (the b) \<and> bos_kind (the b) = BStr \<and> str_val (the b) = [])"
  by (cases b; cases "bos_kind (the b)"; cases "str_val (the b)" rule: parse_bool_cases)
    (auto simp: is_excluded_def bool_or_default_false_def bos_Bool_def parse_bool_def)

text \<open>
  Writing a flag as JSON and reading it back gives the same kind and the same value, for every
  JSON codec that inverts itself on booleans and strings, quotes strings and does not quote
  booleans.
\<close>

theorem bos_json_roundtrip:
  assumes str: "\<And>old s. dec_str old (enc_str s) = Ok s"
    and bool: "\<And>old v. dec_bool old (enc_bool v) = Ok v"
    and quotes: "\<And>s. \<exists>t. enc_str s = CHR 0x22 # t"
    and bare: "\<And>v. \<exists>c t. enc_bool v = c # t \<and> c \<noteq> CHR 0x22"
  shows "\<exists>y. bos_unmarshal_json dec_str dec_bool (bos_marshal_json enc_str enc_bool (Some x)) (Some old)
             = Ok (Some y) \<and> bos_kind y = bos_kind x \<and>
           (case bos_kind x of BBool \<Rightarrow> bool_val y = bool_val x | BStr \<Rightarrow> str_val y = str_val x) \<and>
           bos_marshal_json enc_str enc_bool (Some y) = bos_marshal_json enc_str enc_bool (Some x)"
proof (cases "bos_kind x")
  case BStr
  then show ?thesis using quotes [of "str_val x"] str [of "str_val old" "str_val x"]
    by (auto simp: bos_unmarshal_json_def bos_marshal_json_def)
next
  case BBool
  then show ?thesis using bare [of "bool_val x"] bool [of "bool_val old" "bool_val x"]
    by (auto simp: bos_unmarshal_json_def bos_marshal_json_def)
qed

theorem bos_json_roundtrip_witness:
  "\<exists>y. bos_unmarshal_json (\<lambda>_ v. Ok (butlast (tl v))) (\<lambda>_ v. Ok (v = ''true''))
          (bos_marshal_json (\<lambda>s. CHR 0x22 # s @ [CHR 0x22]) (\<lambda>v. if v then ''true'' else ''false'')
             (from_string ''yes'')) (from_bool True) = Ok (Some y) \<and>
       bos_kind y = BStr \<and> str_val y = ''yes''"
proof -
  have "\<exists>y. bos_unmarshal_json (\<lambda>_ v. Ok (butlast (tl v))) (\<lambda>_ v. Ok (v = ''true''))
      (bos_marshal_json (\<lambda>s. CHR 0x22 # s @ [CHR 0x22]) (\<lambda>v. if v then ''true'' else ''false'')
         (Some \<lparr>bos_kind = BStr, bool_val = False, str_val = ''yes''\<rparr>))
      (Some \<lparr>bos_kind = BBool, bool_val = True, str_val = []\<rparr>) = Ok (Some y) \<and>
      bos_kind y = BStr \<and> str_val y = ''yes''"
    using bos_json_roundtrip [of "\<lambda>_ v. Ok (butlast (tl v))" "\<lambda>s. CHR 0x22 # s @ [CHR 0x22]"
        "\<lambda>_ v. Ok (v = ''true'')" "\<lambda>v. if v then ''true'' else ''false''"
        "\<lparr>bos_kind = BStr, bool_val = False, str_val = ''yes''\<rparr>"
        "\<lparr>bos_kind = BBool, bool_val = True, str_val = []\<rparr>"]
    by fastforce
  then show ?thesis by (simp add: from_string_def from_bool_def)
qed

end
