(* ===== verification/Outcomes.thy ===== *)
theory Outcomes
  imports Multitype
begin

text \<open>
  What every analyzer shares: the outcomes of a spec (\<^verbatim>\<open>v1beta2/outcome.go\<close>), the result of an
  analysis (\<^verbatim>\<open>analyzer.go\<close>), the rule "the first outcome that matches returns" as an interface, and
  the driver of the host analyzers (\<^verbatim>\<open>host_analyzer.go\<close>, \<^verbatim>\<open>collected_contents.go\<close>). Pointers in
  a slice of outcomes are taken to be non-nil; \<^verbatim>\<open>InvolvedObject\<close>, which no modelled analyzer
  sets, is left out of the result.
\<close>

section \<open>Outcomes and results\<close>

record single_outcome =
  so_when :: string
  so_message :: string
  so_uri :: string

record outcome =
  o_fail :: "single_outcome option"
  o_warn :: "single_outcome option"
  o_pass :: "single_outcome option"

record analyze_result =
  is_pass :: bool
  is_fail :: bool
  is_warn :: bool
  strict :: bool
  title :: string
  message :: string
  uri :: string
  icon_key :: string
  icon_uri :: string

datatype severity = SFail | SWarn | SPass

text \<open>A composite literal that names only the title leaves every other field at its zero value.\<close>

definition new_result :: "string \<Rightarrow> analyze_result" where
  "new_result t = \<lparr>is_pass = False, is_fail = False, is_warn = False, strict = False, title = t,
     message = [], uri = [], icon_key = [], icon_uri = []\<rparr>"

definition icon_result :: "string \<Rightarrow> string \<Rightarrow> string \<Rightarrow> analyze_result" where
  "icon_result t key icon = (new_result t)\<lparr>icon_key := key, icon_uri := icon\<rparr>"

text \<open>
  The chain \<^verbatim>\<open>if Fail != nil ... else if Warn != nil ... else if Pass != nil\<close>: which branch of an
  outcome is read.
\<close>

definition select_outcome :: "outcome \<Rightarrow> (severity \<times> single_outcome) option" where
  "select_outcome o' =
     (case o_fail o' of
        Some f \<Rightarrow> Some (SFail, f)
      | None \<Rightarrow>
          (case o_warn o' of
             Some w \<Rightarrow> Some (SWarn, w)
           | None \<Rightarrow> (case o_pass o' of Some p \<Rightarrow> Some (SPass, p) | None \<Rightarrow> None)))"

definition set_severity :: "severity \<Rightarrow> analyze_result \<Rightarrow> analyze_result" where
  "set_severity sev r =
     (case sev of
        SFail \<Rightarrow> r\<lparr>is_fail := True\<rparr>
      | SWarn \<Rightarrow> r\<lparr>is_warn := True\<rparr>
      | SPass \<Rightarrow> r\<lparr>is_pass := True\<rparr>)"

definition conclude :: "severity \<Rightarrow> single_outcome \<Rightarrow> analyze_result \<Rightarrow> analyze_result" where
  "conclude sev so r = (set_severity sev r)\<lparr>message := so_message so, uri := so_uri so\<rparr>"

definition sev_name :: "severity \<Rightarrow> string" where
  "sev_name sev = (case sev of SFail \<Rightarrow> ''fail'' | SWarn \<Rightarrow> ''warn'' | SPass \<Rightarrow> ''pass'')"

text \<open>A verdict is a result with exactly one of the three flags set.\<close>

definition is_verdict :: "analyze_result \<Rightarrow> bool" where
  "is_verdict r \<longleftrightarrow>
     (is_pass r \<or> is_warn r \<or> is_fail r) \<and> \<not> (is_pass r \<and> is_warn r) \<and>
     \<not> (is_pass r \<and> is_fail r) \<and> \<not> (is_warn r \<and> is_fail r)"

lemma is_verdict_update [simp]:
  "is_verdict (r\<lparr>message := m\<rparr>) = is_verdict r" "is_verdict (r\<lparr>uri := u\<rparr>) = is_verdict r"
  "is_verdict (r\<lparr>title := t\<rparr>) = is_verdict r" "is_verdict (r\<lparr>strict := b\<rparr>) = is_verdict r"
  by (simp_all add: is_verdict_def)

definition has_severity :: "severity \<Rightarrow> analyze_result \<Rightarrow> bool" where
  "has_severity sev r =
     (case sev of SFail \<Rightarrow> is_fail r | SWarn \<Rightarrow> is_warn r | SPass \<Rightarrow> is_pass r)"

definition undecided :: "analyze_result \<Rightarrow> bool" where
  "undecided r \<longleftrightarrow> \<not> is_pass r \<and> \<not> is_warn r \<and> \<not> is_fail r"

lemma undecided_new [simp]: "undecided (new_result t)" "undecided (icon_result t k i)"
  by (simp_all add: undecided_def new_result_def icon_result_def)

lemma conclude_verdict: "undecided r \<Longrightarrow> is_verdict (conclude sev so r)"
  by (cases sev) (auto simp: undecided_def is_verdict_def conclude_def set_severity_def)

lemma conclude_fields [simp]:
  "title (conclude sev so r) = title r" "message (conclude sev so r) = so_message so"
  "uri (conclude sev so r) = so_uri so" "strict (conclude sev so r) = strict r"
  "icon_key (conclude sev so r) = icon_key r" "icon_uri (conclude sev so r) = icon_uri r"
  by (cases sev; simp add: conclude_def set_severity_def)+

lemma new_result_fields [simp]:
  "title (new_result t) = t" "title (icon_result t k i) = t" "strict (new_result t) = False"
  by (simp_all add: new_result_def icon_result_def)

lemma conclude_severity: "undecided r \<Longrightarrow> has_severity sev' (conclude sev so r) \<longleftrightarrow> sev' = sev"
  by (cases sev; cases sev')
    (auto simp: undecided_def conclude_def set_severity_def has_severity_def)

section \<open>The first outcome that matches returns\<close>

text \<open>
  Every analyzer walks its outcomes in the order of the spec. One step of the walk goes on
  (\<open>Ok None\<close>), returns a result (\<open>Ok (Some r)\<close>) or stops with an error; after the last outcome
  the walk gives its fallback. The laws below are all an analyzer has to show of its loop.
\<close>

locale outcome_loop =
  fixes loop :: "'o list \<Rightarrow> 'r res"
    and step :: "'o \<Rightarrow> 'r option res"
    and fallback :: "'r res"
  assumes loop_Nil: "loop [] = fallback"
    and loop_Cons: "loop (x # xs) =
          bind_res (step x) (\<lambda>d. case d of None \<Rightarrow> loop xs | Some r \<Rightarrow> Ok r)"
begin

lemma loop_skip: "\<forall>x\<in>set xs. step x = Ok None \<Longrightarrow> loop (xs @ ys) = loop ys"
  by (induction xs) (auto simp: loop_Cons)

lemma loop_all_skip: "\<forall>x\<in>set xs. step x = Ok None \<Longrightarrow> loop xs = fallback"
  using loop_skip [of xs "[]"] by (simp add: loop_Nil)

lemma loop_first:
  "\<forall>x\<in>set xs. step x = Ok None \<Longrightarrow> step y = Ok (Some r) \<Longrightarrow> loop (xs @ y # ys) = Ok r"
  by (simp add: loop_skip loop_Cons)

lemma loop_error:
  "\<forall>x\<in>set xs. step x = Ok None \<Longrightarrow> step y = Fail e \<Longrightarrow> loop (xs @ y # ys) = Fail e"
  by (simp add: loop_skip loop_Cons)

lemma loop_Ok_iff:
  "loop xs = Ok r \<longleftrightarrow>
     first_such (\<lambda>x. step x = Ok None) (\<lambda>x. step x = Ok (Some r)) xs \<or>
     (\<forall>x\<in>set xs. step x = Ok None) \<and> fallback = Ok r"
proof (induction xs)
  case (Cons x xs)
  show ?case using Cons.IH by (cases "step x") (auto simp: loop_Cons split: option.splits)
qed (simp add: loop_Nil)

lemma loop_Fail_iff:
  "loop xs = Fail e \<longleftrightarrow>
     first_such (\<lambda>x. step x = Ok None) (\<lambda>x. step x = Fail e) xs \<or>
     (\<forall>x\<in>set xs. step x = Ok None) \<and> fallback = Fail e"
proof (induction xs)
  case (Cons x xs)
  show ?case using Cons.IH by (cases "step x") (auto simp: loop_Cons split: option.splits)
qed (simp add: loop_Nil)

lemma loop_panic_iff:
  "is_panic (loop xs) \<longleftrightarrow>
     first_such (\<lambda>x. step x = Ok None) (\<lambda>x. is_panic (step x)) xs \<or>
     (\<forall>x\<in>set xs. step x = Ok None) \<and> is_panic fallback"
proof (induction xs)
  case (Cons x xs)
  show ?case using Cons.IH by (cases "step x") (auto simp: loop_Cons split: option.splits)
qed (simp add: loop_Nil)

text \<open>What follows the outcome that returns has no influence.\<close>

lemma loop_tail_irrelevant:
  "loop (pre @ [y]) = Ok r \<Longrightarrow> step y = Ok (Some r) \<Longrightarrow> \<forall>x\<in>set pre. step x = Ok None \<Longrightarrow>
   loop (pre @ y # post) = loop (pre @ y # post')"
  by (simp add: loop_first)

lemma loop_no_panic:
  assumes "\<And>x. \<not> is_panic (step x)" and "\<not> is_panic fallback"
  shows "\<not> is_panic (loop xs)"
  using assms by (induction xs) (auto simp: loop_Nil loop_Cons is_panic_bind split: option.splits)

lemma loop_holds:
  assumes "\<And>x r. step x = Ok (Some r) \<Longrightarrow> P r" and "\<And>r. fallback = Ok r \<Longrightarrow> P r"
    and "loop xs = Ok r"
  shows "P r"
  using assms by (auto simp: loop_Ok_iff first_such_def)

end

text \<open>
  The step most analyzers share: an empty \<^verbatim>\<open>when\<close> always matches, an error of the condition is
  wrapped with the branch it belongs to.
\<close>

definition when_step ::
  "(string \<Rightarrow> bool res) \<Rightarrow> (severity \<Rightarrow> single_outcome \<Rightarrow> string) \<Rightarrow> analyze_result \<Rightarrow> outcome \<Rightarrow>
   analyze_result option res" where
  "when_step check errmsg result o' =
     (case select_outcome o' of
        None \<Rightarrow> Ok None
      | Some (sev, so) \<Rightarrow>
          if so_when so = [] then Ok (Some (conclude sev so result))
          else bind_res (wrap_res (errmsg sev so) (check (so_when so)))
                 (\<lambda>m. Ok (if m then Some (conclude sev so result) else None)))"

lemma when_step_no_panic:
  "(\<And>w. \<not> is_panic (check w)) \<Longrightarrow> \<not> is_panic (when_step check errmsg result o')"
  by (auto simp: when_step_def is_panic_bind split: option.splits)

lemma when_step_Some_iff:
  "when_step check errmsg result o' = Ok (Some r) \<longleftrightarrow>
     (\<exists>sev so. select_outcome o' = Some (sev, so) \<and> r = conclude sev so result \<and>
        (so_when so = [] \<or> check (so_when so) = Ok True))"
  by (auto simp: when_step_def res_simps split: option.splits if_splits)

lemma when_step_None_iff:
  "when_step check errmsg result o' = Ok None \<longleftrightarrow>
     (case select_outcome o' of
        None \<Rightarrow> True
      | Some (sev, so) \<Rightarrow> so_when so \<noteq> [] \<and> check (so_when so) = Ok False)"
  by (auto simp: when_step_def res_simps split: option.splits if_splits)

lemma when_step_verdict:
  "undecided result \<Longrightarrow> when_step check errmsg result o' = Ok (Some r) \<Longrightarrow>
   is_verdict r \<and> title r = title result"
  by (auto simp: when_step_Some_iff conclude_verdict)

section \<open>Host analyzers\<close>

definition host_analyzer_title_or_default :: "string \<Rightarrow> string \<Rightarrow> string" where
  "host_analyzer_title_or_default check_name default_title =
     (if check_name \<noteq> [] then check_name else default_title)"

type_synonym result_collector = "analyze_result list"

definition rc_push :: "result_collector \<Rightarrow> analyze_result \<Rightarrow> result_collector" where
  "rc_push c r = c @ [r]"

definition rc_get :: "result_collector \<Rightarrow> string \<Rightarrow> analyze_result list" where
  "rc_get c t =
     (if length c > 0 then c
      else [(new_result t)\<lparr>is_warn := True, message := ''no results''\<rparr>])"

record collected_content =
  node_name :: string
  content_data :: string

definition NODE_LIST_FILE :: string where
  "NODE_LIST_FILE = ''host-collectors/system/node_list.json''"

text \<open>
  \<open>unmarshal\<close> is the JSON decoder applied to the node list; \<open>get\<close> reads a collected file.
\<close>

definition retrieve_collected_contents ::
  "(string \<Rightarrow> string list res) \<Rightarrow> (string \<Rightarrow> string res) \<Rightarrow> string \<Rightarrow> string \<Rightarrow> string \<Rightarrow>
   collected_content list res" where
  "retrieve_collected_contents unmarshal get local_path remote_dir remote_file =
     (case get local_path of
        Ok contents \<Rightarrow> Ok [\<lparr>node_name = [], content_data = contents\<rparr>]
      | Panic m \<Rightarrow> Panic m
      | Fail _ \<Rightarrow>
          (case get NODE_LIST_FILE of
             Panic m \<Rightarrow> Panic m
           | Fail e \<Rightarrow>
               (case e of NotFound _ \<Rightarrow> Ok [] | _ \<Rightarrow> Fail (Wrap ''failed to get node list'' e))
           | Ok listing \<Rightarrow>
               bind_res (wrap_res ''failed to unmarshal node names'' (unmarshal listing)) (\<lambda>nodes.
                 map_m (\<lambda>node.
                   bind_res
                     (wrap_res (''failed to retrieve content for node '' @ node)
                        (get (remote_dir @ ''/'' @ node @ ''/'' @ remote_file)))
                     (\<lambda>c. Ok \<lparr>node_name = node, content_data = c\<rparr>)) nodes)))"

text \<open>
  \<open>evaluateOutcomes\<close>: the slice it returns holds one result or is nil, and its callers drop it
  when there is an error.
\<close>

definition evaluate_step ::
  "(string \<Rightarrow> string \<Rightarrow> bool res) \<Rightarrow> string \<Rightarrow> string \<Rightarrow> outcome \<Rightarrow> analyze_result list option res" where
  "evaluate_step check data t o' =
     map_res (map_option (\<lambda>r. [r]))
       (when_step (\<lambda>w. check w data) (\<lambda>_ so. ''failed to compare '' @ so_when so) (new_result t) o')"

fun evaluate_outcomes ::
  "(string \<Rightarrow> string \<Rightarrow> bool res) \<Rightarrow> string \<Rightarrow> string \<Rightarrow> outcome list \<Rightarrow> analyze_result list res" where
  "evaluate_outcomes check data t [] = Ok []"
| "evaluate_outcomes check data t (o' # os) =
     (case evaluate_step check data t o' of
        Ok None \<Rightarrow> evaluate_outcomes check data t os
      | Ok (Some rs) \<Rightarrow> Ok rs
      | Fail e \<Rightarrow> Fail e
      | Panic m \<Rightarrow> Panic m)"

definition node_title :: "string \<Rightarrow> collected_content \<Rightarrow> string" where
  "node_title t c = (if node_name c \<noteq> [] then t @ '' - Node '' @ node_name c else t)"

fun analyze_host_collector_results ::
  "collected_content list \<Rightarrow> outcome list \<Rightarrow> (string \<Rightarrow> string \<Rightarrow> bool res) \<Rightarrow> string \<Rightarrow>
   analyze_result list res" where
  "analyze_host_collector_results [] outcomes check t = Ok []"
| "analyze_host_collector_results (c # cs) outcomes check t =
     bind_res
       (wrap_res ''failed to evaluate outcomes''
          (evaluate_outcomes check (content_data c) (node_title t c) outcomes))
       (\<lambda>rs. bind_res (analyze_host_collector_results cs outcomes check t) (\<lambda>rest. Ok (rs @ rest)))"

interpretation host_loop: outcome_loop
  "evaluate_outcomes check data t" "evaluate_step check data t" "Ok []"
  for check data t
proof
  show "evaluate_outcomes check data t [] = Ok []" by simp
next
  fix x xs
  show "evaluate_outcomes check data t (x # xs) =
      bind_res (evaluate_step check data t x)
        (\<lambda>d. case d of None \<Rightarrow> evaluate_outcomes check data t xs | Some r \<Rightarrow> Ok r)"
    by (cases "evaluate_step check data t x") (auto split: option.splits)
qed

lemma evaluate_step_Some_iff:
  "evaluate_step check data t o' = Ok (Some rs) \<longleftrightarrow>
     (\<exists>sev so. select_outcome o' = Some (sev, so) \<and> rs = [conclude sev so (new_result t)] \<and>
        (so_when so = [] \<or> check (so_when so) data = Ok True))"
  by (simp only: evaluate_step_def map_res_option_Some_iff when_step_Some_iff) blast

lemma evaluate_step_None_iff:
  "evaluate_step check data t o' = Ok None \<longleftrightarrow>
     (case select_outcome o' of
        None \<Rightarrow> True
      | Some (sev, so) \<Rightarrow> so_when so \<noteq> [] \<and> check (so_when so) data = Ok False)"
  by (simp only: evaluate_step_def map_res_option_None_iff when_step_None_iff)

lemma evaluate_outcomes_shape:
  assumes "evaluate_outcomes check data t os = Ok rs"
  shows "length rs \<le> 1 \<and> (\<forall>r\<in>set rs. is_verdict r \<and> title r = t)"
  by (rule host_loop.loop_holds [OF _ _ assms])
    (auto simp: evaluate_step_Some_iff conclude_verdict)

lemma host_results_append:
  "analyze_host_collector_results (cs @ ds) os check t =
     bind_res (analyze_host_collector_results cs os check t) (\<lambda>xs.
       bind_res (analyze_host_collector_results ds os check t) (\<lambda>ys. Ok (xs @ ys)))"
proof (induction cs)
  case Nil
  show ?case by (cases "analyze_host_collector_results ds os check t") auto
next
  case (Cons c cs)
  then show ?case
    by (cases "evaluate_outcomes check (content_data c) (node_title t c) os";
        cases "analyze_host_collector_results cs os check t";
        cases "analyze_host_collector_results ds os check t") auto
qed

lemma host_results_shape:
  "analyze_host_collector_results cs os check t = Ok rs \<Longrightarrow>
     length rs \<le> length cs \<and> (\<forall>r\<in>set rs. is_verdict r \<and> title r \<in> node_title t ` set cs)"
proof (induction cs arbitrary: rs)
  case (Cons c cs)
  from Cons.prems obtain xs ys where
    xs: "evaluate_outcomes check (content_data c) (node_title t c) os = Ok xs" and
    ys: "analyze_host_collector_results cs os check t = Ok ys" and rs: "rs = xs @ ys"
    by (auto simp: res_simps)
  from evaluate_outcomes_shape [OF xs] Cons.IH [OF ys] rs show ?case
    by fastforce
qed simp

lemma retrieve_remote_nodes:
  assumes "map_m (\<lambda>node. bind_res (wrap_res (msg node) (get (path node)))
             (\<lambda>c. Ok \<lparr>node_name = node, content_data = c\<rparr>)) nodes = Ok cs"
  shows "map node_name cs = nodes \<and> (\<forall>c\<in>set cs. get (path (node_name c)) = Ok (content_data c))"
  using assms by (induction nodes arbitrary: cs) (auto simp: res_simps)

section \<open>Properties\<close>

text \<open>
  The evaluation of the outcomes of a host analyzer is the one the spec promises: a result is
  returned exactly when some outcome is reached whose branch has an empty condition or one that
  holds of the data, every outcome before it being empty or having a condition that is false; the
  result is then that outcome's, and no later outcome has any influence. Nothing is returned when
  no outcome matches.
\<close>

theorem evaluate_outcomes_first_match:
  "evaluate_outcomes check data t os = Ok rs \<longleftrightarrow>
     (let skips = (\<lambda>o'. case select_outcome o' of None \<Rightarrow> True
                       | Some (_, so) \<Rightarrow> so_when so \<noteq> [] \<and> check (so_when so) data = Ok False);
          hits = (\<lambda>o'. \<exists>sev so. select_outcome o' = Some (sev, so) \<and>
                       rs = [conclude sev so (new_result t)] \<and>
                       (so_when so = [] \<or> check (so_when so) data = Ok True))
      in first_such skips hits os \<or> list_all skips os \<and> rs = [])"
  by (auto simp: host_loop.loop_Ok_iff evaluate_step_Some_iff evaluate_step_None_iff list_all_iff)

text \<open>
  A host analyzer gives at most one result per collected file, every result is a verdict (exactly
  one of pass, warn and fail) and carries the title of its file's node.
\<close>

theorem host_results_are_verdicts:
  assumes "analyze_host_collector_results cs os check t = Ok rs"
  shows "length rs \<le> length cs \<and> (\<forall>r\<in>set rs. is_verdict r \<and> title r \<in> node_title t ` set cs)"
  using assms by (rule host_results_shape)

theorem host_results_are_verdicts_witness:
  "analyze_host_collector_results
     [\<lparr>node_name = ''n1'', content_data = ''x''\<rparr>, \<lparr>node_name = ''n2'', content_data = ''y''\<rparr>]
     [\<lparr>o_fail = Some \<lparr>so_when = ''w'', so_message = ''bad'', so_uri = []\<rparr>, o_warn = None, o_pass = None\<rparr>]
     (\<lambda>w d. Ok (d = ''y'')) ''T''
   = Ok [(new_result ''T - Node n2'')\<lparr>is_fail := True, message := ''bad''\<rparr>] \<and>
   is_verdict ((new_result ''T - Node n2'')\<lparr>is_fail := True, message := ''bad''\<rparr>)"
proof -
  let ?cs = "[\<lparr>node_name = ''n1'', content_data = ''x''\<rparr>, \<lparr>node_name = ''n2'', content_data = ''y''\<rparr>]"
  let ?os = "[\<lparr>o_fail = Some \<lparr>so_when = ''w'', so_message = ''bad'', so_uri = []\<rparr>,
               o_warn = None, o_pass = None\<rparr>]"
  have run: "analyze_host_collector_results ?cs ?os (\<lambda>w d. Ok (d = ''y'')) ''T''
     = Ok [(new_result ''T - Node n2'')\<lparr>is_fail := True, message := ''bad''\<rparr>]"
    by code_simp
  from host_results_are_verdicts [OF run] run show ?thesis by simp
qed

text \<open>
  Reading what a host collector left behind: local data wins and nothing else is read; without it
  the result lists every node of the node list, in its order, each with the content of its own file;
  one unreadable node file fails the whole read; no node list at all gives no content.
\<close>

theorem retrieve_collected_contents_spec:
  "(case get local_path of
      Ok c \<Rightarrow> retrieve_collected_contents um get local_path dir file = Ok [\<lparr>node_name = [], content_data = c\<rparr>]
    | Panic m \<Rightarrow> retrieve_collected_contents um get local_path dir file = Panic m
    | Fail e \<Rightarrow>
        (\<forall>cs. retrieve_collected_contents um get local_path dir file = Ok cs \<longrightarrow>
           (\<exists>n. get NODE_LIST_FILE = Fail (NotFound n) \<and> cs = []) \<or>
           (\<exists>listing nodes. get NODE_LIST_FILE = Ok listing \<and> um listing = Ok nodes \<and>
              map node_name cs = nodes \<and>
              (\<forall>c\<in>set cs. get (dir @ ''/'' @ node_name c @ ''/'' @ file) = Ok (content_data c)))))"
proof (cases "get local_path")
  case (Fail e)
  show ?thesis
  proof (cases "get NODE_LIST_FILE")
    case (Ok listing)
    with Fail show ?thesis
      using retrieve_remote_nodes [of "\<lambda>n. ''failed to retrieve content for node '' @ n" get
          "\<lambda>n. dir @ ''/'' @ n @ ''/'' @ file"]
      by (auto simp: retrieve_collected_contents_def res_simps)
  next
    case (Fail e')
    with \<open>get local_path = Fail e\<close> show ?thesis
      by (cases e') (auto simp: retrieve_collected_contents_def)
  next
    case (Panic m)
    with Fail show ?thesis by (auto simp: retrieve_collected_contents_def)
  qed
qed (simp_all add: retrieve_collected_contents_def)

theorem retrieve_collected_contents_spec_witness:
  "\<exists>cs. retrieve_collected_contents (\<lambda>_. Ok [''n1'', ''n2''])
      (\<lambda>f. if f = NODE_LIST_FILE then Ok ''list'' else if f = ''d/n1/f'' then Ok ''a''
           else if f = ''d/n2/f'' then Ok ''b'' else Fail (NotFound f)) ''local'' ''d'' ''f'' = Ok cs \<and>
     map node_name cs = [''n1'', ''n2'']"
proof -
  define get :: "string \<Rightarrow> string res" where
    "get = (\<lambda>f. if f = NODE_LIST_FILE then Ok ''list'' else if f = ''d/n1/f'' then Ok ''a''
           else if f = ''d/n2/f'' then Ok ''b'' else Fail (NotFound f))"
  have local: "get ''local'' = Fail (NotFound ''local'')" and nodes: "get NODE_LIST_FILE = Ok ''list''"
    by (simp_all add: get_def NODE_LIST_FILE_def)
  have "is_ok (retrieve_collected_contents (\<lambda>_. Ok [''n1'', ''n2'']) get ''local'' ''d'' ''f'')"
    unfolding get_def by code_simp
  then obtain cs where run: "retrieve_collected_contents (\<lambda>_. Ok [''n1'', ''n2'']) get ''local'' ''d'' ''f'' = Ok cs"
    by (cases "retrieve_collected_contents (\<lambda>_. Ok [''n1'', ''n2'']) get ''local'' ''d'' ''f''") auto
  have "(\<exists>n. get NODE_LIST_FILE = Fail (NotFound n) \<and> cs = []) \<or>
      (\<exists>listing nodes. get NODE_LIST_FILE = Ok listing \<and> Ok [''n1'', ''n2''] = (Ok nodes :: string list res) \<and>
         map node_name cs = nodes \<and>
         (\<forall>c\<in>set cs. get (''d'' @ ''/'' @ node_name c @ ''/'' @ ''f'') = Ok (content_data c)))"
    using retrieve_collected_contents_spec [of "\<lambda>_. Ok [''n1'', ''n2'']" get "''local''" "''d''" "''f''",
        unfolded local res.case] run by blast
  then have "map node_name cs = [''n1'', ''n2'']"
  proof (elim disjE exE conjE)
    fix n
    assume "get NODE_LIST_FILE = Fail (NotFound n)"
    then show ?thesis unfolding nodes by simp
  next
    fix listing :: string and names :: "string list"
    assume "Ok [''n1'', ''n2''] = (Ok names :: string list res)" and cs: "map node_name cs = names"
    then have "names = [''n1'', ''n2'']" by simp
    then show ?thesis unfolding cs .
  qed
  with run have "\<exists>cs. retrieve_collected_contents (\<lambda>_. Ok [''n1'', ''n2'']) get ''local'' ''d'' ''f'' = Ok cs \<and>
     map node_name cs = [''n1'', ''n2'']"
    by (intro exI conjI)
  then show ?thesis unfolding get_def .
qed

end
