(* ===== verification/Comparisons.thy ===== *)
theory Comparisons
  imports Outcomes
begin

text \<open>
  The conditions \<^verbatim>\<open>"< 3"\<close>, \<^verbatim>\<open>"ready >= 2"\<close>, \<^verbatim>\<open>"count = 4"\<close> of the integer analyzers: the switch on
  the comparator that the analyzers repeat, \<^verbatim>\<open>compareActualToWhen\<close> of \<^verbatim>\<open>common_status.go\<close>, and
  the contract these little languages share.
\<close>

text \<open>The switch of \<^verbatim>\<open>compareActualToWhen\<close>; \<open>None\<close> is the fall out of the switch.\<close>

definition switch_op :: "string \<Rightarrow> int \<Rightarrow> int \<Rightarrow> bool option" where
  "switch_op cmp actual v =
     (if cmp = ''='' \<or> cmp = ''=='' \<or> cmp = ''==='' then Some (actual = v)
      else if cmp = ''<'' then Some (actual < v)
      else if cmp = ''>'' then Some (actual > v)
      else if cmp = ''<='' then Some (actual \<le> v)
      else if cmp = ''>='' then Some (actual \<ge> v)
      else None)"

definition compare_actual_to_when :: "string \<Rightarrow> int \<Rightarrow> bool res" where
  "compare_actual_to_when w actual =
     (case split_on (CHR '' '') (trim_space w) of
        [cmp, val] \<Rightarrow>
          bind_res (wrap_res ''failed to parse when value'' (atoi val)) (\<lambda>v.
            case switch_op cmp actual v of
              Some b \<Rightarrow> Ok b
            | None \<Rightarrow> Fail (Errf ''unknown comparator: %q'' [cmp]))
      | _ \<Rightarrow> Fail (Err ''unable to parse when range''))"

section \<open>The contract of an integer condition\<close>

text \<open>
  A condition language renders a comparator and a number as text and judges an object by one of its
  numbers. The laws say that every comparator means what it looks like, for numbers in range.
\<close>

locale when_language =
  fixes check :: "string \<Rightarrow> 'a \<Rightarrow> bool res"
    and render :: "string \<Rightarrow> int \<Rightarrow> string"
    and measured :: "'a \<Rightarrow> int"
    and in_range :: "int \<Rightarrow> bool"
  assumes check_lt: "in_range v \<Longrightarrow> check (render ''<'' v) a = Ok (measured a < v)"
    and check_gt: "in_range v \<Longrightarrow> check (render ''>'' v) a = Ok (measured a > v)"
    and check_le: "in_range v \<Longrightarrow> check (render ''<='' v) a = Ok (measured a \<le> v)"
    and check_ge: "in_range v \<Longrightarrow> check (render ''>='' v) a = Ok (measured a \<ge> v)"
    and check_eq: "in_range v \<Longrightarrow> cmp \<in> {''='', ''=='', ''===''} \<Longrightarrow>
                     check (render cmp v) a = Ok (measured a = v)"
begin

lemmas check_laws = check_lt check_gt check_le check_ge check_eq

lemma trichotomy:
  assumes "in_range v"
  shows "(check (render ''<'' v) a = Ok True \<longrightarrow> check (render ''='' v) a = Ok False \<and> check (render ''>'' v) a = Ok False) \<and>
         (check (render ''='' v) a = Ok True \<longrightarrow> check (render ''>'' v) a = Ok False) \<and>
         (check (render ''<'' v) a = Ok True \<or> check (render ''='' v) a = Ok True \<or> check (render ''>'' v) a = Ok True)"
  using assms by (auto simp: check_laws)

lemma complement:
  assumes "in_range v"
  shows "check (render ''>='' v) a = map_res Not (check (render ''<'' v) a)"
    and "check (render ''<='' v) a = map_res Not (check (render ''>'' v) a)"
  using assms by (auto simp: check_laws)

lemma interval:
  assumes "in_range v" and "in_range u"
  shows "check (render ''>='' v) a = Ok True \<and> check (render ''<='' u) a = Ok True
         \<longleftrightarrow> v \<le> measured a \<and> measured a \<le> u"
  using assms by (auto simp: check_laws)

text \<open>
  The three outcomes every example of the documentation ends with, one per side of a threshold,
  always decide, and each on its own side.
\<close>

lemma threshold_decides:
  assumes v: "in_range v" and nonempty: "\<And>op. render op v \<noteq> []"
  shows "evaluate_outcomes (\<lambda>w _. check w a) d t
           [\<lparr>o_fail = Some \<lparr>so_when = render ''<'' v, so_message = m1, so_uri = u1\<rparr>, o_warn = None, o_pass = None\<rparr>,
            \<lparr>o_fail = None, o_warn = Some \<lparr>so_when = render ''='' v, so_message = m2, so_uri = u2\<rparr>, o_pass = None\<rparr>,
            \<lparr>o_fail = None, o_warn = None, o_pass = Some \<lparr>so_when = render ''>'' v, so_message = m3, so_uri = u3\<rparr>\<rparr>]
         = Ok [if measured a < v then (new_result t)\<lparr>is_fail := True, message := m1, uri := u1\<rparr>
               else if measured a = v then (new_result t)\<lparr>is_warn := True, message := m2, uri := u2\<rparr>
               else (new_result t)\<lparr>is_pass := True, message := m3, uri := u3\<rparr>]"
  using v nonempty
  by (simp add: evaluate_step_def when_step_def select_outcome_def check_laws conclude_def
      set_severity_def)

end

section \<open>compareActualToWhen meets the contract\<close>

definition render_when :: "string \<Rightarrow> int \<Rightarrow> string" where
  "render_when cmp v = cmp @ '' '' @ show_int v"

lemma last_show_int_no_space: "\<not> is_space (last (show_int v))"
  by (rule show_int_no_space [of _ v]) simp

lemma trim_render:
  "cmp \<noteq> [] \<Longrightarrow> \<not> is_space (hd cmp) \<Longrightarrow> trim_space (cmp @ CHR '' '' # show_int v) = cmp @ CHR '' '' # show_int v"
  by (rule trim_space_id) (simp add: last_show_int_no_space)

lemma compare_actual_rendered:
  assumes "cmp \<noteq> []" "\<not> is_space (hd cmp)" "CHR '' '' \<notin> set cmp" "in_int64 v"
  shows "compare_actual_to_when (render_when cmp v) a =
     (case switch_op cmp a v of Some b \<Rightarrow> Ok b
      | None \<Rightarrow> Fail (Errf ''unknown comparator: %q'' [cmp]))"
  using assms
  by (simp add: compare_actual_to_when_def render_when_def trim_render split_on_two go_simps)

interpretation actual_when: when_language
  compare_actual_to_when render_when "\<lambda>a. a" in_int64
  by unfold_locales
    (auto simp: compare_actual_rendered is_space_def switch_op_def)

lemma compare_actual_no_panic [simp]: "\<not> is_panic (compare_actual_to_when w a)"
  by (auto simp: compare_actual_to_when_def atoi_def parse_int64_def is_panic_bind Let_def
      split: list.splits option.splits prod.splits)

lemma compare_actual_Ok_shape:
  assumes "compare_actual_to_when w a = Ok b"
  shows "\<exists>cmp val v. split_on (CHR '' '') (trim_space w) = [cmp, val] \<and> atoi val = Ok v \<and>
           switch_op cmp a v = Some b"
  using assms
  by (auto simp: compare_actual_to_when_def res_simps split: list.splits option.splits)

text \<open>
  A replica condition means what it says: for each of the seven comparators and every number a
  64-bit \<^verbatim>\<open>int\<close> holds, \<^verbatim>\<open>compareActualToWhen\<close> on the text "comparator, blank, decimal number"
  answers the integer comparison, and a condition it accepts at all has exactly that shape.
\<close>

theorem compare_actual_to_when_spec:
  assumes "in_int64 v"
  shows "compare_actual_to_when (''<'' @ '' '' @ show_int v) a = Ok (a < v) \<and>
         compare_actual_to_when (''>'' @ '' '' @ show_int v) a = Ok (a > v) \<and>
         compare_actual_to_when (''<='' @ '' '' @ show_int v) a = Ok (a \<le> v) \<and>
         compare_actual_to_when (''>='' @ '' '' @ show_int v) a = Ok (a \<ge> v) \<and>
         compare_actual_to_when (''='' @ '' '' @ show_int v) a = Ok (a = v) \<and>
         compare_actual_to_when (''=='' @ '' '' @ show_int v) a = Ok (a = v) \<and>
         compare_actual_to_when (''==='' @ '' '' @ show_int v) a = Ok (a = v) \<and>
         (compare_actual_to_when w a = Ok b \<longrightarrow>
            (\<exists>cmp val u. split_on (CHR '' '') (trim_space w) = [cmp, val] \<and> atoi val = Ok u \<and>
               switch_op cmp a u = Some b))"
proof -
  note laws = actual_when.check_laws [OF assms, where a = a, unfolded render_when_def]
  have eqs: "compare_actual_to_when (cmp @ '' '' @ show_int v) a = Ok (a = v)"
    if "cmp \<in> {''='', ''=='', ''==='' }" for cmp
    using that by (rule laws(5))
  show ?thesis
    by (intro conjI laws(1-4) impI compare_actual_Ok_shape eqs) auto
qed

theorem compare_actual_to_when_spec_witness:
  "compare_actual_to_when ''>= 3'' 5 = Ok True \<and> compare_actual_to_when ''< -2'' 5 = Ok False"
proof -
  have r: "in_int64 3" "in_int64 (-2)" by (simp_all add: in_int64_def)
  have s: "show_int 3 = ''3''" "show_int (-2) = ''-2''" by code_simp+
  from compare_actual_to_when_spec [OF r(1), of 5] compare_actual_to_when_spec [OF r(2), of 5]
  show ?thesis by (simp add: s)
qed

end
