(* ===== verification/Workloads.thy ===== *)
theory Workloads
  imports Comparisons
begin

text \<open>
  The analyzers of deployments and stateful sets: \<^verbatim>\<open>common_status.go\<close>,
  \<^verbatim>\<open>deployment_status.go\<close>, \<^verbatim>\<open>statefulset_status.go\<close>. A collected file decodes to a list of
  resources (the JSON decoder is a parameter); \<open>find_files\<close> returns the matching files as a list, in
  the order in which the loop over the Go map visits them. Replica counts are 32-bit words.
\<close>

type_synonym i32 = "32 word"
type_synonym find_files = "string \<Rightarrow> string list \<Rightarrow> (string \<times> string) list res"

text \<open>The four status specs have the same fields; only replica sets use the selector.\<close>

record status_spec =
  ss_check_name :: string
  ss_exclude :: "bool_or_string option"
  ss_strict :: "bool_or_string option"
  ss_outcomes :: "outcome list"
  ss_namespace :: string
  ss_namespaces :: "string list"
  ss_name :: string
  ss_selector :: "string list"

record deployment =
  dp_name :: string
  dp_namespace :: string
  dp_replicas :: i32
  dp_ready :: i32
  dp_available :: i32

record stateful_set =
  sf_name :: string
  sf_namespace :: string
  sf_replicas :: i32
  sf_ready :: i32

definition CLUSTER_RESOURCES_DIR :: string where
  "CLUSTER_RESOURCES_DIR = ''cluster-resources''"

definition resource_file :: "string \<Rightarrow> string \<Rightarrow> string" where
  "resource_file kind ns = path_join [CLUSTER_RESOURCES_DIR, kind, ns @ ''.json'']"

definition resource_glob :: "string \<Rightarrow> string" where
  "resource_glob kind = path_join [CLUSTER_RESOURCES_DIR, kind, ''*.json'']"

text \<open>The four \<open>Title\<close> methods differ only in the words they end with.\<close>

definition status_title :: "string \<Rightarrow> status_spec \<Rightarrow> string" where
  "status_title kind a =
     (if ss_check_name a \<noteq> [] then ss_check_name a
      else if ss_name a \<noteq> [] \<and> ss_namespace a \<noteq> []
      then ss_namespace a @ ''/'' @ ss_name a @ '' '' @ kind @ '' Status''
      else if ss_name a \<noteq> [] then ss_name a @ '' '' @ kind @ '' Status''
      else if ss_namespace a \<noteq> [] then ss_namespace a @ '' '' @ kind @ '' Status''
      else kind @ '' Status'')"

section \<open>commonStatus\<close>

definition not_found_result :: "string \<Rightarrow> string \<Rightarrow> single_outcome \<Rightarrow> analyze_result \<Rightarrow> analyze_result" where
  "not_found_result rtype name so r = r\<lparr>is_fail := True,
     message := ''The '' @ rtype @ '' '' @ quoted name @ '' was not found'', uri := so_uri so\<rparr>"

definition common_step ::
  "string \<Rightarrow> int \<Rightarrow> bool \<Rightarrow> string \<Rightarrow> analyze_result \<Rightarrow> outcome \<Rightarrow> analyze_result option res" where
  "common_step name ready exists rtype result o' =
     (case select_outcome o' of
        None \<Rightarrow> Ok None
      | Some (sev, so) \<Rightarrow>
          if \<not> exists \<and> so_when so \<noteq> ''absent''
          then Ok (Some (not_found_result rtype name so result))
          else if so_when so = [] then Ok (Some (conclude sev so result))
          else if so_when so = ''absent''
          then (if \<not> exists then Ok (Some (conclude sev so result)) else Ok None)
          else bind_res
                 (wrap_res (''failed to parse '' @ sev_name sev @ '' range'')
                    (compare_actual_to_when (so_when so) ready))
                 (\<lambda>m. Ok (if m then Some (conclude sev so result) else None)))"

fun common_loop ::
  "string \<Rightarrow> int \<Rightarrow> bool \<Rightarrow> string \<Rightarrow> analyze_result \<Rightarrow> outcome list \<Rightarrow> analyze_result res" where
  "common_loop name ready exists rtype result [] = Ok result"
| "common_loop name ready exists rtype result (o' # os) =
     (case common_step name ready exists rtype result o' of
        Ok None \<Rightarrow> common_loop name ready exists rtype result os
      | Ok (Some r) \<Rightarrow> Ok r
      | Fail e \<Rightarrow> Fail e
      | Panic m \<Rightarrow> Panic m)"

definition common_status ::
  "outcome list \<Rightarrow> string \<Rightarrow> string \<Rightarrow> string \<Rightarrow> int \<Rightarrow> bool \<Rightarrow> string \<Rightarrow> analyze_result res" where
  "common_status outcomes name key icon ready exists rtype =
     common_loop name ready exists rtype (icon_result (name @ '' Status'') key icon) outcomes"

interpretation common: outcome_loop
  "common_loop name ready exists rtype result" "common_step name ready exists rtype result" "Ok result"
  for name ready exists rtype result
proof
  show "common_loop name ready exists rtype result [] = Ok result" by simp
next
  fix x xs
  show "common_loop name ready exists rtype result (x # xs) =
      bind_res (common_step name ready exists rtype result x)
        (\<lambda>d. case d of None \<Rightarrow> common_loop name ready exists rtype result xs | Some r \<Rightarrow> Ok r)"
    by (cases "common_step name ready exists rtype result x") (auto split: option.splits)
qed

section \<open>Files of a status analyzer\<close>

text \<open>The list of files an analyzer without a name reads; an empty list becomes the wildcard.\<close>

definition namespace_files :: "string \<Rightarrow> status_spec \<Rightarrow> string list" where
  "namespace_files kind a =
     (if ss_namespace a \<noteq> [] then [resource_file kind (ss_namespace a)] else []) @
     map (resource_file kind) (ss_namespaces a)"

definition all_status_files :: "string \<Rightarrow> status_spec \<Rightarrow> string list" where
  "all_status_files kind a =
     (let fs = namespace_files kind a in if fs = [] then [resource_glob kind] else fs)"

text \<open>The two nested loops over the files and over what they hold.\<close>

definition scan_files ::
  "find_files \<Rightarrow> string \<Rightarrow> (string \<Rightarrow> 'r list res) \<Rightarrow> string list \<Rightarrow> 'r list res" where
  "scan_files find_f errmsg body names =
     map_res concat (map_m (\<lambda>fn.
       bind_res (wrap_res errmsg (find_f fn [])) (\<lambda>files.
         map_res concat (map_m (\<lambda>(_, c). body c) files))) names)"

text \<open>The loop of the single-resource analyzers: every file overwrites the result.\<close>

fun last_result :: "(string \<Rightarrow> 'r option res) \<Rightarrow> 'r option \<Rightarrow> (string \<times> string) list \<Rightarrow> 'r option res" where
  "last_result body acc [] = Ok acc"
| "last_result body acc ((_, c) # fs) = bind_res (body c) (\<lambda>r. last_result body r fs)"

definition option_results :: "'r option \<Rightarrow> 'r list" where
  "option_results r = (case r of None \<Rightarrow> [] | Some x \<Rightarrow> [x])"

definition with_strict :: "bool_or_string option \<Rightarrow> analyze_result list res \<Rightarrow> analyze_result list res" where
  "with_strict s rs = map_res (map (\<lambda>r. r\<lparr>strict := bool_or_default_false s\<rparr>)) rs"

section \<open>Deployments\<close>

definition DEPLOYMENT_ICON :: string where
  "DEPLOYMENT_ICON = ''https://troubleshoot.sh/images/analyzer-icons/deployment-status.svg?w=17&h=17''"

text \<open>The search for the named deployment has no \<^verbatim>\<open>break\<close>: the last one wins.\<close>

definition find_deployment :: "string \<Rightarrow> deployment list \<Rightarrow> deployment option" where
  "find_deployment name ds = foldl (\<lambda>acc d. if dp_name d = name then Some d else acc) None ds"

definition one_deployment_file ::
  "(string \<Rightarrow> deployment list res) \<Rightarrow> status_spec \<Rightarrow> string \<Rightarrow> analyze_result option res" where
  "one_deployment_file unmarshal a collected =
     bind_res (wrap_res ''failed to unmarshal deployment list'' (unmarshal collected)) (\<lambda>ds.
       let status = find_deployment (ss_name a) ds;
           exists = (status \<noteq> None);
           ready = (case status of None \<Rightarrow> 0 | Some d \<Rightarrow> sint (dp_ready d))
       in map_res Some (wrap_res ''failed to process status''
            (common_status (ss_outcomes a) (ss_name a) ''kubernetes_deployment_status'' DEPLOYMENT_ICON
               ready exists ''deployment'')))"

definition analyze_one_deployment ::
  "(string \<Rightarrow> deployment list res) \<Rightarrow> find_files \<Rightarrow> status_spec \<Rightarrow> analyze_result list res" where
  "analyze_one_deployment unmarshal find_f a =
     bind_res
       (wrap_res ''failed to read collected deployments from namespace''
          (find_f (resource_file ''deployments'' (ss_namespace a)) []))
       (\<lambda>files. map_res option_results (last_result (one_deployment_file unmarshal a) None files))"

definition unavailable_result :: "deployment \<Rightarrow> analyze_result" where
  "unavailable_result d =
     (icon_result (dp_namespace d @ ''/'' @ dp_name d @ '' Deployment Status'')
        ''kubernetes_deployment_status'' DEPLOYMENT_ICON)
     \<lparr>is_fail := True,
      message := ''The deployment '' @ dp_namespace d @ ''/'' @ dp_name d @ '' has '' @
        show_int (sint (dp_ready d)) @ ''/'' @ show_int (sint (dp_replicas d)) @ '' replicas''\<rparr>"

definition all_deployments_file ::
  "(string \<Rightarrow> deployment list res) \<Rightarrow> string \<Rightarrow> analyze_result list res" where
  "all_deployments_file unmarshal collected =
     map_res (\<lambda>ds. map unavailable_result (filter (\<lambda>d. dp_replicas d \<noteq> dp_available d) ds))
       (wrap_res ''failed to unmarshal deployment list'' (unmarshal collected))"

definition analyze_all_deployments ::
  "(string \<Rightarrow> deployment list res) \<Rightarrow> find_files \<Rightarrow> status_spec \<Rightarrow> analyze_result list res" where
  "analyze_all_deployments unmarshal find_f a =
     scan_files find_f ''failed to read collected deployments from file'' (all_deployments_file unmarshal)
       (all_status_files ''deployments'' a)"

definition analyze_deployment_status ::
  "(string \<Rightarrow> deployment list res) \<Rightarrow> find_files \<Rightarrow> status_spec \<Rightarrow> analyze_result list res" where
  "analyze_deployment_status unmarshal find_f a =
     (if ss_name a = [] then analyze_all_deployments unmarshal find_f a
      else analyze_one_deployment unmarshal find_f a)"

definition deployment_Analyze ::
  "(string \<Rightarrow> deployment list res) \<Rightarrow> find_files \<Rightarrow> status_spec \<Rightarrow> analyze_result list res" where
  "deployment_Analyze unmarshal find_f a = with_strict (ss_strict a) (analyze_deployment_status unmarshal find_f a)"

section \<open>Stateful sets\<close>

definition STATEFULSET_ICON :: string where
  "STATEFULSET_ICON = ''https://troubleshoot.sh/images/analyzer-icons/statefulset-status.svg?w=23&h=14''"

text \<open>The argument is a pointer: dereferencing nil panics.\<close>

definition default_statefulset_result :: "stateful_set option \<Rightarrow> analyze_result option res" where
  "default_statefulset_result s =
     (case s of
        None \<Rightarrow> Panic ''nil pointer dereference''
      | Some f \<Rightarrow>
          if sf_replicas f = sf_ready f then Ok None
          else Ok (Some ((icon_result (sf_namespace f @ ''/'' @ sf_name f @ '' Statefulset Status'')
                  ''kubernetes_statefulset_status'' STATEFULSET_ICON)
               \<lparr>is_fail := True,
                message := ''The statefulset '' @ sf_namespace f @ ''/'' @ sf_name f @ '' has '' @
                  show_int (sint (sf_ready f)) @ ''/'' @ show_int (sint (sf_replicas f)) @ '' replicas''\<rparr>)))"

definition one_statefulset_file ::
  "(string \<Rightarrow> stateful_set list res) \<Rightarrow> status_spec \<Rightarrow> string \<Rightarrow> analyze_result option res" where
  "one_statefulset_file unmarshal a collected =
     bind_res (wrap_res ''failed to unmarshal statefulset list'' (unmarshal collected)) (\<lambda>fs.
       let sts = find (\<lambda>f. sf_name f = ss_name a) fs;
           exists = (sts \<noteq> None);
           ready = (case sts of None \<Rightarrow> 0 | Some f \<Rightarrow> sint (sf_ready f))
       in if ss_outcomes a \<noteq> []
          then map_res Some (wrap_res ''failed to process status''
                 (common_status (ss_outcomes a) (ss_name a) ''kubernetes_statefulset_status''
                    STATEFULSET_ICON ready exists ''statefulset''))
          else default_statefulset_result sts)"

definition analyze_one_statefulset ::
  "(string \<Rightarrow> stateful_set list res) \<Rightarrow> find_files \<Rightarrow> status_spec \<Rightarrow> analyze_result list res" where
  "analyze_one_statefulset unmarshal find_f a =
     bind_res
       (wrap_res ''failed to read collected statefulsets from namespace''
          (find_f (resource_file ''statefulsets'' (ss_namespace a)) []))
       (\<lambda>files. map_res option_results (last_result (one_statefulset_file unmarshal a) None files))"

definition all_statefulsets_file ::
  "(string \<Rightarrow> stateful_set list res) \<Rightarrow> string \<Rightarrow> analyze_result list res" where
  "all_statefulsets_file unmarshal collected =
     bind_res (wrap_res ''failed to unmarshal statefulset list'' (unmarshal collected)) (\<lambda>fs.
       map_res (\<lambda>rs. concat (map option_results rs))
         (map_m (\<lambda>f. default_statefulset_result (Some f)) fs))"

definition analyze_all_statefulsets ::
  "(string \<Rightarrow> stateful_set list res) \<Rightarrow> find_files \<Rightarrow> status_spec \<Rightarrow> analyze_result list res" where
  "analyze_all_statefulsets unmarshal find_f a =
     scan_files find_f ''failed to read collected statefulsets from namespace''
       (all_statefulsets_file unmarshal) (all_status_files ''statefulsets'' a)"

definition analyze_statefulset_status ::
  "(string \<Rightarrow> stateful_set list res) \<Rightarrow> find_files \<Rightarrow> status_spec \<Rightarrow> analyze_result list res" where
  "analyze_statefulset_status unmarshal find_f a =
     (if ss_name a = [] then analyze_all_statefulsets unmarshal find_f a
      else analyze_one_statefulset unmarshal find_f a)"

definition statefulset_Analyze ::
  "(string \<Rightarrow> stateful_set list res) \<Rightarrow> find_files \<Rightarrow> status_spec \<Rightarrow> analyze_result list res" where
  "statefulset_Analyze unmarshal find_f a =
     with_strict (ss_strict a) (analyze_statefulset_status unmarshal find_f a)"

section \<open>Lemmas\<close>

lemma common_step_Some_iff:
  "common_step name ready exists rtype result o' = Ok (Some r) \<longleftrightarrow>
     (\<exists>sev so. select_outcome o' = Some (sev, so) \<and>
        (if exists
         then (so_when so = [] \<or> so_when so \<noteq> ''absent'' \<and> compare_actual_to_when (so_when so) ready = Ok True)
              \<and> r = conclude sev so result
         else r = (if so_when so = ''absent'' then conclude sev so result
                   else not_found_result rtype name so result)))"
  by (auto simp: common_step_def res_simps split: option.splits if_splits)

lemma common_step_None_iff:
  "common_step name ready exists rtype result o' = Ok None \<longleftrightarrow>
     (case select_outcome o' of
        None \<Rightarrow> True
      | Some (sev, so) \<Rightarrow> exists \<and> so_when so \<noteq> [] \<and>
          (so_when so = ''absent'' \<or> compare_actual_to_when (so_when so) ready = Ok False))"
  by (auto simp: common_step_def res_simps split: option.splits if_splits)

lemma common_step_present_None:
  "common_step name ready True rtype result o' = Ok None \<longleftrightarrow>
     (case select_outcome o' of
        None \<Rightarrow> True
      | Some (_, so) \<Rightarrow> so_when so \<noteq> [] \<and>
          (so_when so = ''absent'' \<or> compare_actual_to_when (so_when so) ready = Ok False))"
  unfolding common_step_None_iff by (auto split: option.splits)

lemma common_step_present_Some:
  "common_step name ready True rtype result o' = Ok (Some r) \<longleftrightarrow>
     (\<exists>sev so. select_outcome o' = Some (sev, so) \<and>
        (so_when so = [] \<or> so_when so \<noteq> ''absent'' \<and>
           compare_actual_to_when (so_when so) ready = Ok True) \<and> r = conclude sev so result)"
  unfolding common_step_Some_iff by auto

lemma common_step_no_panic: "\<not> is_panic (common_step name ready exists rtype result o')"
  by (auto simp: common_step_def is_panic_bind split: option.splits)

lemma common_status_no_panic [simp]:
  "\<not> is_panic (common_status outcomes name key icon ready exists rtype)"
  unfolding common_status_def by (rule common.loop_no_panic) (simp_all add: common_step_no_panic)

lemma not_found_fields [simp]:
  "title (not_found_result rtype name so r) = title r" "is_fail (not_found_result rtype name so r)"
  "uri (not_found_result rtype name so r) = so_uri so"
  by (simp_all add: not_found_result_def)

lemma not_found_verdict: "undecided r \<Longrightarrow> is_verdict (not_found_result rtype name so r)"
  by (simp add: undecided_def is_verdict_def not_found_result_def)

lemma all_statefulsets_file_eq:
  "all_statefulsets_file unmarshal c =
     bind_res (wrap_res ''failed to unmarshal statefulset list'' (unmarshal c)) (\<lambda>fs.
       Ok (concat (map (\<lambda>f. case default_statefulset_result (Some f) of Ok r \<Rightarrow> option_results r | _ \<Rightarrow> []) fs)))"
proof -
  have "map_m (\<lambda>f. default_statefulset_result (Some f)) fs =
      Ok (map (\<lambda>f. case default_statefulset_result (Some f) of Ok r \<Rightarrow> r | _ \<Rightarrow> None) fs)" for fs
    by (induction fs) (auto simp: default_statefulset_result_def)
  then show ?thesis
    by (cases "unmarshal c")
      (auto simp: all_statefulsets_file_def comp_def default_statefulset_result_def option_results_def
        intro!: arg_cong [where f = concat])
qed

text \<open>What a scan returns, when everything can be read and decoded.\<close>

lemma scan_files_Ok:
  assumes "\<And>fn. fn \<in> set names \<Longrightarrow> find_f fn [] = Ok (files fn)"
    and "\<And>fn n c. fn \<in> set names \<Longrightarrow> (n, c) \<in> set (files fn) \<Longrightarrow> body c = Ok (out c)"
  shows "scan_files find_f msg body names =
     Ok (concat (map (\<lambda>fn. concat (map (\<lambda>(_, c). out c) (files fn))) names))"
proof -
  have "map_m (\<lambda>fn. bind_res (wrap_res msg (find_f fn [])) (\<lambda>files.
          map_res concat (map_m (\<lambda>(_, c). body c) files))) names
        = Ok (map (\<lambda>fn. concat (map (\<lambda>(_, c). out c) (files fn))) names)"
  proof (rule map_m_Ok_cong)
    fix fn
    assume fn: "fn \<in> set names"
    have "map_m (\<lambda>(_, c). body c) (files fn) = Ok (map (\<lambda>(_, c). out c) (files fn))"
      by (rule map_m_Ok_cong) (use assms(2) [OF fn] in auto)
    with assms(1) [OF fn] show "bind_res (wrap_res msg (find_f fn [])) (\<lambda>files.
          map_res concat (map_m (\<lambda>(_, c). body c) files)) =
        Ok (concat (map (\<lambda>(_, c). out c) (files fn)))"
      by simp
  qed
  then show ?thesis by (simp add: scan_files_def)
qed

lemma last_result_single [simp]: "last_result body acc [(n, c)] = body c"
  by (cases "body c") auto

lemma find_deployment_eq: "find_deployment name ds = find (\<lambda>d. dp_name d = name) (rev ds)"
  by (induction ds rule: rev_induct) (auto simp: find_deployment_def)

section \<open>Properties\<close>

text \<open>
  A resource that is there: \<^verbatim>\<open>commonStatus\<close> returns the verdict of the first outcome whose
  condition is empty or holds of the number of ready replicas; an \<^verbatim>\<open>absent\<close> outcome never decides,
  and if no outcome decides the result carries no verdict.
\<close>

theorem common_status_present:
  "common_status outcomes name key icon ready True rtype = Ok r \<longleftrightarrow>
     (let base = icon_result (name @ '' Status'') key icon;
          skips = (\<lambda>o'. case select_outcome o' of None \<Rightarrow> True
                   | Some (_, so) \<Rightarrow> so_when so \<noteq> [] \<and>
                       (so_when so = ''absent'' \<or> compare_actual_to_when (so_when so) ready = Ok False));
          hits = (\<lambda>o'. \<exists>sev so. select_outcome o' = Some (sev, so) \<and>
                   (so_when so = [] \<or> so_when so \<noteq> ''absent'' \<and>
                      compare_actual_to_when (so_when so) ready = Ok True) \<and>
                   r = conclude sev so base)
      in first_such skips hits outcomes \<or> list_all skips outcomes \<and> r = base)"
  unfolding common_status_def common.loop_Ok_iff common_step_present_Some common_step_present_None
    Let_def list_all_iff
  by (auto simp only: res.inject)

text \<open>
  A resource that is missing: the first outcome that has a branch decides alone. If its condition
  is \<^verbatim>\<open>absent\<close> its own verdict is returned, otherwise the result is a failure that says the resource was
  not found; so an \<^verbatim>\<open>absent\<close> outcome behind any other outcome is never reached. The call never fails.
\<close>

theorem common_status_missing:
  "common_status outcomes name key icon ready False rtype =
     (let base = icon_result (name @ '' Status'') key icon in
      case List.map_filter select_outcome outcomes of
        [] \<Rightarrow> Ok base
      | (sev, so) # _ \<Rightarrow>
          Ok (if so_when so = ''absent'' then conclude sev so base
              else not_found_result rtype name so base))"
proof -
  have "common_loop name ready False rtype base outcomes =
      (case List.map_filter select_outcome outcomes of [] \<Rightarrow> Ok base
       | (sev, so) # _ \<Rightarrow> Ok (if so_when so = ''absent'' then conclude sev so base
                            else not_found_result rtype name so base))" for base
    by (induction outcomes)
      (auto simp: common_step_def List.map_filter_simps split: option.splits)
  then show ?thesis by (simp add: common_status_def Let_def)
qed

text \<open>
  Without a name the deployment analyzer reports exactly the deployments whose replicas are not all
  available, once per occurrence, file by file in the order read and in the order of each list; every
  report is a failing verdict with the strictness of the spec.
\<close>

theorem all_deployments_reported:
  assumes "ss_name a = []"
    and "\<And>fn. fn \<in> set (all_status_files ''deployments'' a) \<Longrightarrow> find_f fn [] = Ok (files fn)"
    and "\<And>fn n c. fn \<in> set (all_status_files ''deployments'' a) \<Longrightarrow> (n, c) \<in> set (files fn) \<Longrightarrow>
           unmarshal c = Ok (decoded c)"
  shows "deployment_Analyze unmarshal find_f a =
     Ok [(unavailable_result d)\<lparr>strict := bool_or_default_false (ss_strict a)\<rparr>.
           fn \<leftarrow> all_status_files ''deployments'' a, (n, c) \<leftarrow> files fn, d \<leftarrow> decoded c,
           dp_replicas d \<noteq> dp_available d]"
proof -
  have "analyze_all_deployments unmarshal find_f a =
      Ok (concat (map (\<lambda>fn. concat (map (\<lambda>(_, c).
           map unavailable_result (filter (\<lambda>d. dp_replicas d \<noteq> dp_available d) (decoded c)))
           (files fn))) (all_status_files ''deployments'' a)))"
    unfolding analyze_all_deployments_def
    by (rule scan_files_Ok) (use assms(2,3) in \<open>auto simp: all_deployments_file_def\<close>)
  moreover have "concat (map (\<lambda>d. if P d then [f d] else []) ds) = map f (filter P ds)"
    for P and f :: "deployment \<Rightarrow> analyze_result" and ds
    by (induction ds) auto
  ultimately show ?thesis
    using assms(1)
    by (simp add: deployment_Analyze_def with_strict_def analyze_deployment_status_def map_concat
        comp_def case_prod_unfold)
qed

theorem all_deployments_reported_witness:
  "deployment_Analyze (\<lambda>c. Ok [\<lparr>dp_name = c, dp_namespace = ''n'', dp_replicas = 2, dp_ready = 1, dp_available = 1\<rparr>])
     (\<lambda>fn ex. Ok [(fn, ''web'')])
     \<lparr>ss_check_name = [], ss_exclude = None, ss_strict = from_bool True, ss_outcomes = [],
      ss_namespace = [], ss_namespaces = [], ss_name = [], ss_selector = []\<rparr>
   = Ok [(unavailable_result \<lparr>dp_name = ''web'', dp_namespace = ''n'', dp_replicas = 2, dp_ready = 1,
            dp_available = 1\<rparr>)\<lparr>strict := True\<rparr>]"
proof -
  let ?a = "\<lparr>ss_check_name = [], ss_exclude = None, ss_strict = from_bool True, ss_outcomes = [],
      ss_namespace = [], ss_namespaces = [], ss_name = [], ss_selector = []\<rparr>"
  let ?um = "\<lambda>c. Ok [\<lparr>dp_name = c, dp_namespace = ''n'', dp_replicas = 2, dp_ready = 1, dp_available = 1\<rparr>]"
  have "deployment_Analyze ?um (\<lambda>fn ex. Ok [(fn, ''web'')]) ?a = Ok
     [(unavailable_result d)\<lparr>strict := bool_or_default_false (ss_strict ?a)\<rparr>.
           fn \<leftarrow> all_status_files ''deployments'' ?a, (n, c) \<leftarrow> [(fn, ''web'')],
           d \<leftarrow> [\<lparr>dp_name = c, dp_namespace = ''n'', dp_replicas = 2, dp_ready = 1, dp_available = 1\<rparr>],
           dp_replicas d \<noteq> dp_available d]"
    by (rule all_deployments_reported) simp_all
  then show ?thesis
    by (simp add: all_status_files_def namespace_files_def from_bool_def bool_or_default_false_def
        bos_Bool_def)
qed

text \<open>
  The analyzer of one stateful set crashes on a spec without outcomes whose stateful set was not
  collected: it dereferences the nil pointer the search left. With outcomes, or when the set is there,
  it never does.
\<close>

theorem statefulset_nil_dereference:
  assumes "ss_name a \<noteq> []"
    and "find_f (resource_file ''statefulsets'' (ss_namespace a)) [] = Ok [(fn, c)]"
    and "unmarshal c = Ok sets"
  shows "is_panic (statefulset_Analyze unmarshal find_f a) \<longleftrightarrow>
     ss_outcomes a = [] \<and> ss_name a \<notin> sf_name ` set sets"
proof -
  have miss: "find (\<lambda>f. sf_name f = ss_name a) sets = None \<longleftrightarrow> ss_name a \<notin> sf_name ` set sets"
    by (force simp: find_None_iff)
  have "is_panic (one_statefulset_file unmarshal a c) \<longleftrightarrow>
      ss_outcomes a = [] \<and> find (\<lambda>f. sf_name f = ss_name a) sets = None"
    unfolding one_statefulset_file_def assms(3) wrap_res.simps bind_res.simps Let_def
    by (simp add: default_statefulset_result_def split: option.split)
  with assms(1,2) miss show ?thesis
    by (simp add: statefulset_Analyze_def with_strict_def analyze_statefulset_status_def
        analyze_one_statefulset_def)
qed

theorem statefulset_nil_dereference_witness:
  "is_panic (statefulset_Analyze (\<lambda>_. Ok []) (\<lambda>_ _. Ok [(''f'', ''c'')])
     \<lparr>ss_check_name = [], ss_exclude = None, ss_strict = None, ss_outcomes = [],
      ss_namespace = ''ns'', ss_namespaces = [], ss_name = ''db'', ss_selector = []\<rparr>)"
proof -
  let ?a = "\<lparr>ss_check_name = [], ss_exclude = None, ss_strict = None, ss_outcomes = [],
      ss_namespace = ''ns'', ss_namespaces = [], ss_name = ''db'', ss_selector = []\<rparr> :: status_spec"
  have "is_panic (statefulset_Analyze (\<lambda>_. Ok []) (\<lambda>_ _. Ok [(''f'', ''c'')]) ?a) \<longleftrightarrow>
      ss_outcomes ?a = [] \<and> ss_name ?a \<notin> sf_name ` set ([] :: stateful_set list)"
    by (rule statefulset_nil_dereference [where fn = "''f''" and c = "''c''"]) simp_all
  then show ?thesis by simp
qed

end
