(* ===== verification/Sets_And_Jobs.thy ===== *)
theory Sets_And_Jobs
  imports Workloads
begin

text \<open>
  The analyzers of replica sets and jobs: \<^verbatim>\<open>replicaset_status.go\<close>, \<^verbatim>\<open>job_status.go\<close>. Their
  conditions name a counter of 32 bits and convert the number of the condition to \<^verbatim>\<open>int32\<close>, which
  wraps. The label selector is code outside the repository: \<open>parse_selector\<close> and \<open>sel_matches\<close>.
\<close>

record replica_set =
  rs_name :: string
  rs_namespace :: string
  rs_labels :: "(string \<times> string) list"
  rs_spec_replicas :: "i32 option"
  rs_ready :: i32
  rs_available :: i32

record job =
  jb_name :: string
  jb_namespace :: string
  jb_completions :: "i32 option"
  jb_succeeded :: i32
  jb_failed :: i32

definition to_int32 :: "int \<Rightarrow> i32" where
  "to_int32 v = word_of_int v"

definition in_int32 :: "int \<Rightarrow> bool" where
  "in_int32 v \<longleftrightarrow> - (2 ^ 31) \<le> v \<and> v < 2 ^ 31"

text \<open>
  The tail both conditions share: three words, the number first, then the counter, then the
  comparator.
\<close>

definition compare_counter ::
  "(string \<Rightarrow> i32 option) \<Rightarrow> string \<Rightarrow> bool res" where
  "compare_counter counter w =
     (case split_on (CHR '' '') (trim_space w) of
        [what, cmp, val] \<Rightarrow>
          bind_res (wrap_res (''failed to parse when value: '' @ val) (atoi val)) (\<lambda>v.
            case counter what of
              None \<Rightarrow> Fail (Errf ''unknown when value: %s'' [what])
            | Some actual \<Rightarrow>
                (case switch_op cmp (sint actual) (sint (to_int32 v)) of
                   Some b \<Rightarrow> Ok b
                 | None \<Rightarrow> Fail (Errf ''unknown comparator: %q'' [cmp])))
      | _ \<Rightarrow> Fail (Errf ''unable to parse when range: %s'' [w]))"

section \<open>Replica sets\<close>

definition replicaset_counter :: "replica_set \<Rightarrow> string \<Rightarrow> i32 option" where
  "replicaset_counter rs what =
     (if what = ''ready'' then Some (rs_ready rs)
      else if what = ''available'' then Some (rs_available rs) else None)"

definition compare_replicaset_status_to_when :: "string \<Rightarrow> replica_set \<Rightarrow> bool res" where
  "compare_replicaset_status_to_when w rs = compare_counter (replicaset_counter rs) w"

definition range_error :: "severity \<Rightarrow> single_outcome \<Rightarrow> string" where
  "range_error sev so = ''failed to parse '' @ sev_name sev @ '' range''"

fun replicaset_loop :: "replica_set \<Rightarrow> analyze_result \<Rightarrow> outcome list \<Rightarrow> analyze_result res" where
  "replicaset_loop rs result [] = Ok result"
| "replicaset_loop rs result (o' # os) =
     (case when_step (\<lambda>w. compare_replicaset_status_to_when w rs) range_error result o' of
        Ok None \<Rightarrow> replicaset_loop rs result os
      | Ok (Some r) \<Rightarrow> Ok r
      | Fail e \<Rightarrow> Fail e
      | Panic m \<Rightarrow> Panic m)"

definition replicaset_status :: "outcome list \<Rightarrow> replica_set \<Rightarrow> analyze_result res" where
  "replicaset_status outcomes rs =
     replicaset_loop rs
       (icon_result (rs_name rs @ '' Status'') ''kubernetes_deployment_status'' DEPLOYMENT_ICON) outcomes"

definition default_replicaset_result :: "replica_set \<Rightarrow> analyze_result option" where
  "default_replicaset_result rs =
     (if rs_spec_replicas rs = None \<and> rs_available rs = 1 then None
      else if rs_spec_replicas rs = Some (rs_available rs) then None
      else Some ((icon_result (rs_namespace rs @ ''/'' @ rs_name rs @ '' ReplicaSet Status'')
                    ''kubernetes_deployment_status'' DEPLOYMENT_ICON)
                 \<lparr>is_fail := True,
                  message := ''The replicaset '' @ rs_namespace rs @ ''/'' @ rs_name rs @ '' is not ready''\<rparr>))"

definition missing_result :: "string \<Rightarrow> string \<Rightarrow> string \<Rightarrow> analyze_result" where
  "missing_result kind rtype name =
     (icon_result (name @ '' '' @ kind @ '' Status'') ''kubernetes_deployment_status'' DEPLOYMENT_ICON)
     \<lparr>is_fail := True, message := ''The '' @ rtype @ '' '' @ quoted name @ '' was not found''\<rparr>"

definition one_replicaset_file ::
  "(string \<Rightarrow> replica_set list res) \<Rightarrow> status_spec \<Rightarrow> string \<Rightarrow> analyze_result option res" where
  "one_replicaset_file unmarshal a collected =
     bind_res (wrap_res ''failed to unmarshal deployment list'' (unmarshal collected)) (\<lambda>sets.
       case find (\<lambda>r. rs_name r = ss_name a) sets of
         None \<Rightarrow> Ok (Some (missing_result ''ReplicaSet'' ''replicaset'' (ss_name a)))
       | Some rs \<Rightarrow>
           if ss_outcomes a \<noteq> []
           then map_res Some (wrap_res ''failed to process status'' (replicaset_status (ss_outcomes a) rs))
           else Ok (default_replicaset_result rs))"

definition analyze_one_replicaset ::
  "(string \<Rightarrow> replica_set list res) \<Rightarrow> find_files \<Rightarrow> status_spec \<Rightarrow> analyze_result list res" where
  "analyze_one_replicaset unmarshal find_f a =
     bind_res
       (wrap_res ''failed to read collected replicasets from namespace''
          (find_f (resource_file ''replicasets'' (ss_namespace a)) []))
       (\<lambda>files. map_res option_results (last_result (one_replicaset_file unmarshal a) None files))"

definition replicaset_item ::
  "status_spec \<Rightarrow> replica_set \<Rightarrow> analyze_result option res" where
  "replicaset_item a rs =
     (if ss_outcomes a \<noteq> []
      then map_res Some (wrap_res ''failed to process status'' (replicaset_status (ss_outcomes a) rs))
      else Ok (default_replicaset_result rs))"

definition all_replicasets_file ::
  "(string \<Rightarrow> replica_set list res) \<Rightarrow> status_spec \<Rightarrow> (replica_set \<Rightarrow> bool) \<Rightarrow> string \<Rightarrow>
   analyze_result list res" where
  "all_replicasets_file unmarshal a selected collected =
     bind_res (wrap_res ''failed to unmarshal replicaset list'' (unmarshal collected)) (\<lambda>sets.
       map_res (\<lambda>rs. concat (map option_results rs))
         (map_m (replicaset_item a) (filter selected sets)))"

text \<open>The selector is parsed anew for every file name, after the files were read.\<close>

definition analyze_all_replicasets ::
  "(string \<Rightarrow> replica_set list res) \<Rightarrow> (string \<Rightarrow> 'sel res) \<Rightarrow>
   ('sel \<Rightarrow> (string \<times> string) list \<Rightarrow> bool) \<Rightarrow> find_files \<Rightarrow> status_spec \<Rightarrow> analyze_result list res" where
  "analyze_all_replicasets unmarshal parse_selector sel_matches find_f a =
     map_res concat (map_m (\<lambda>fn.
       bind_res (wrap_res ''failed to read collected replicaset from file'' (find_f fn [])) (\<lambda>files.
       bind_res (wrap_res ''failed to parse selector'' (parse_selector (join_with '','' (ss_selector a)))) (\<lambda>sel.
         map_res concat (map_m (\<lambda>(_, c).
           all_replicasets_file unmarshal a (\<lambda>rs. sel_matches sel (rs_labels rs)) c) files))))
       (all_status_files ''replicasets'' a))"

definition analyze_replicaset_status ::
  "(string \<Rightarrow> replica_set list res) \<Rightarrow> (string \<Rightarrow> 'sel res) \<Rightarrow>
   ('sel \<Rightarrow> (string \<times> string) list \<Rightarrow> bool) \<Rightarrow> find_files \<Rightarrow> status_spec \<Rightarrow> analyze_result list res" where
  "analyze_replicaset_status unmarshal parse_selector sel_matches find_f a =
     (if ss_name a = [] then analyze_all_replicasets unmarshal parse_selector sel_matches find_f a
      else analyze_one_replicaset unmarshal find_f a)"

definition replicaset_Analyze ::
  "(string \<Rightarrow> replica_set list res) \<Rightarrow> (string \<Rightarrow> 'sel res) \<Rightarrow>
   ('sel \<Rightarrow> (string \<times> string) list \<Rightarrow> bool) \<Rightarrow> find_files \<Rightarrow> status_spec \<Rightarrow> analyze_result list res" where
  "replicaset_Analyze unmarshal parse_selector sel_matches find_f a =
     with_strict (ss_strict a) (analyze_replicaset_status unmarshal parse_selector sel_matches find_f a)"

section \<open>Jobs\<close>

definition job_counter :: "job \<Rightarrow> string \<Rightarrow> i32 option" where
  "job_counter j what =
     (if what = ''succeeded'' then Some (jb_succeeded j)
      else if what = ''failed'' then Some (jb_failed j) else None)"

definition compare_job_status_to_when :: "string \<Rightarrow> job \<Rightarrow> bool res" where
  "compare_job_status_to_when w j = compare_counter (job_counter j) w"

fun job_loop :: "job \<Rightarrow> analyze_result \<Rightarrow> outcome list \<Rightarrow> analyze_result res" where
  "job_loop j result [] = Ok result"
| "job_loop j result (o' # os) =
     (case when_step (\<lambda>w. compare_job_status_to_when w j) range_error result o' of
        Ok None \<Rightarrow> job_loop j result os
      | Ok (Some r) \<Rightarrow> Ok r
      | Fail e \<Rightarrow> Fail e
      | Panic m \<Rightarrow> Panic m)"

definition job_status :: "outcome list \<Rightarrow> job \<Rightarrow> analyze_result res" where
  "job_status outcomes j =
     job_loop j
       (icon_result (jb_name j @ '' Status'') ''kubernetes_deployment_status'' DEPLOYMENT_ICON) outcomes"

definition default_job_result :: "job \<Rightarrow> analyze_result option" where
  "default_job_result j =
     (if jb_completions j = None \<and> sint (jb_succeeded j) > 1 then None
      else if jb_completions j = Some (jb_succeeded j) then None
      else if jb_failed j = 0 then None
      else Some ((icon_result (jb_namespace j @ ''/'' @ jb_name j @ '' Job Status'')
                    ''kubernetes_deployment_status'' DEPLOYMENT_ICON)
                 \<lparr>is_fail := True,
                  message := ''The job '' @ jb_namespace j @ ''/'' @ jb_name j @ '' is not complete''\<rparr>))"

definition one_job_file ::
  "(string \<Rightarrow> job list res) \<Rightarrow> status_spec \<Rightarrow> string \<Rightarrow> analyze_result option res" where
  "one_job_file unmarshal a collected =
     bind_res (wrap_res ''failed to unmarshal job list'' (unmarshal collected)) (\<lambda>jobs.
       case find (\<lambda>j. jb_name j = ss_name a) jobs of
         None \<Rightarrow> Ok (Some (missing_result ''Job'' ''job'' (ss_name a)))
       | Some j \<Rightarrow>
           if ss_outcomes a \<noteq> []
           then map_res Some (wrap_res ''failed to process status'' (job_status (ss_outcomes a) j))
           else Ok (default_job_result j))"

definition analyze_one_job ::
  "(string \<Rightarrow> job list res) \<Rightarrow> find_files \<Rightarrow> status_spec \<Rightarrow> analyze_result list res" where
  "analyze_one_job unmarshal find_f a =
     bind_res
       (wrap_res ''failed to read collected jobs from namespace''
          (find_f (resource_file ''jobs'' (ss_namespace a)) []))
       (\<lambda>files. map_res option_results (last_result (one_job_file unmarshal a) None files))"

text \<open>
  Unlike the other analyzers this one adds the wildcard whenever the list \<^verbatim>\<open>namespaces\<close> is empty, also
  next to the file of \<^verbatim>\<open>namespace\<close>.
\<close>

definition all_job_files :: "status_spec \<Rightarrow> string list" where
  "all_job_files a =
     namespace_files ''jobs'' a @ (if ss_namespaces a = [] then [resource_glob ''jobs''] else [])"

definition all_jobs_file :: "(string \<Rightarrow> job list res) \<Rightarrow> string \<Rightarrow> analyze_result list res" where
  "all_jobs_file unmarshal collected =
     map_res (\<lambda>js. concat (map (\<lambda>j. option_results (default_job_result j)) js))
       (wrap_res ''failed to unmarshal job list'' (unmarshal collected))"

definition analyze_all_jobs ::
  "(string \<Rightarrow> job list res) \<Rightarrow> find_files \<Rightarrow> status_spec \<Rightarrow> analyze_result list res" where
  "analyze_all_jobs unmarshal find_f a =
     scan_files find_f ''failed to read collected jobs from file'' (all_jobs_file unmarshal) (all_job_files a)"

definition analyze_job_status ::
  "(string \<Rightarrow> job list res) \<Rightarrow> find_files \<Rightarrow> status_spec \<Rightarrow> analyze_result list res" where
  "analyze_job_status unmarshal find_f a =
     (if ss_name a = [] then analyze_all_jobs unmarshal find_f a else analyze_one_job unmarshal find_f a)"

definition job_Analyze ::
  "(string \<Rightarrow> job list res) \<Rightarrow> find_files \<Rightarrow> status_spec \<Rightarrow> analyze_result list res" where
  "job_Analyze unmarshal find_f a = with_strict (ss_strict a) (analyze_job_status unmarshal find_f a)"

section \<open>Lemmas\<close>

lemma sint_to_int32: "in_int32 v \<Longrightarrow> sint (to_int32 v) = v"
  by (simp add: to_int32_def in_int32_def sint_sbintrunc' signed_take_bit_int_eq_self)

lemma to_int32_period: "to_int32 (v + k * 2 ^ 32) = to_int32 v"
  by (simp add: to_int32_def word_of_int_eq_iff take_bit_eq_mod del: of_int_add of_int_mult)

lemma int32_in_int64: "in_int32 v \<Longrightarrow> in_int64 v"
  by (simp add: in_int32_def in_int64_def)

lemma compare_counter_no_panic [simp]: "\<not> is_panic (compare_counter counter w)"
  by (auto simp: compare_counter_def atoi_def parse_int64_def is_panic_bind Let_def
      split: list.splits option.splits prod.splits)

definition render_counter :: "string \<Rightarrow> string \<Rightarrow> int \<Rightarrow> string" where
  "render_counter what cmp v = what @ '' '' @ cmp @ '' '' @ show_int v"

lemma compare_counter_rendered:
  assumes "what \<noteq> []" "\<not> is_space (hd what)" "CHR '' '' \<notin> set what" "CHR '' '' \<notin> set cmp"
    and "counter what = Some actual" "in_int64 v"
  shows "compare_counter counter (render_counter what cmp v) =
     (case switch_op cmp (sint actual) (sint (to_int32 v)) of Some b \<Rightarrow> Ok b
      | None \<Rightarrow> Fail (Errf ''unknown comparator: %q'' [cmp]))"
proof -
  have "trim_space (render_counter what cmp v) = render_counter what cmp v"
    by (rule trim_space_id) (use assms(1,2) in \<open>simp add: render_counter_def last_show_int_no_space\<close>)
  with assms show ?thesis
    by (simp add: compare_counter_def render_counter_def split_on_three go_simps)
qed

lemma replicaset_rendered:
  assumes "what \<in> {''ready'', ''available''}" "CHR '' '' \<notin> set cmp" "in_int64 v"
  shows "compare_replicaset_status_to_when (render_counter what cmp v) rs =
     (case switch_op cmp (sint (if what = ''ready'' then rs_ready rs else rs_available rs))
             (sint (to_int32 v)) of Some b \<Rightarrow> Ok b
      | None \<Rightarrow> Fail (Errf ''unknown comparator: %q'' [cmp]))"
  unfolding compare_replicaset_status_to_when_def
  by (rule compare_counter_rendered) (use assms in \<open>auto simp: replicaset_counter_def is_space_def\<close>)

lemma job_rendered:
  assumes "what \<in> {''succeeded'', ''failed''}" "CHR '' '' \<notin> set cmp" "in_int64 v"
  shows "compare_job_status_to_when (render_counter what cmp v) j =
     (case switch_op cmp (sint (if what = ''succeeded'' then jb_succeeded j else jb_failed j))
             (sint (to_int32 v)) of Some b \<Rightarrow> Ok b
      | None \<Rightarrow> Fail (Errf ''unknown comparator: %q'' [cmp]))"
  unfolding compare_job_status_to_when_def
  by (rule compare_counter_rendered) (use assms in \<open>auto simp: job_counter_def is_space_def\<close>)

lemmas counter_rendered = replicaset_rendered job_rendered

interpretation ready_when: when_language
  compare_replicaset_status_to_when "render_counter ''ready''" "\<lambda>rs. sint (rs_ready rs)" in_int32
  by unfold_locales
    (auto simp: counter_rendered switch_op_def sint_to_int32 int32_in_int64)

interpretation available_when: when_language
  compare_replicaset_status_to_when "render_counter ''available''" "\<lambda>rs. sint (rs_available rs)" in_int32
  by unfold_locales
    (auto simp: counter_rendered switch_op_def sint_to_int32 int32_in_int64)

interpretation succeeded_when: when_language
  compare_job_status_to_when "render_counter ''succeeded''" "\<lambda>j. sint (jb_succeeded j)" in_int32
  by unfold_locales
    (auto simp: counter_rendered switch_op_def sint_to_int32 int32_in_int64)

interpretation failed_when: when_language
  compare_job_status_to_when "render_counter ''failed''" "\<lambda>j. sint (jb_failed j)" in_int32
  by unfold_locales
    (auto simp: counter_rendered switch_op_def sint_to_int32 int32_in_int64)

interpretation replicasets: outcome_loop
  "replicaset_loop rs result"
  "when_step (\<lambda>w. compare_replicaset_status_to_when w rs) range_error result" "Ok result"
  for rs result
proof
  show "replicaset_loop rs result [] = Ok result" by simp
next
  fix x xs
  show "replicaset_loop rs result (x # xs) =
      bind_res (when_step (\<lambda>w. compare_replicaset_status_to_when w rs) range_error result x)
        (\<lambda>d. case d of None \<Rightarrow> replicaset_loop rs result xs | Some r \<Rightarrow> Ok r)"
    by (cases "when_step (\<lambda>w. compare_replicaset_status_to_when w rs) range_error result x")
      (auto split: option.splits)
qed

interpretation jobs: outcome_loop
  "job_loop j result" "when_step (\<lambda>w. compare_job_status_to_when w j) range_error result" "Ok result"
  for j result
proof
  show "job_loop j result [] = Ok result" by simp
next
  fix x xs
  show "job_loop j result (x # xs) =
      bind_res (when_step (\<lambda>w. compare_job_status_to_when w j) range_error result x)
        (\<lambda>d. case d of None \<Rightarrow> job_loop j result xs | Some r \<Rightarrow> Ok r)"
    by (cases "when_step (\<lambda>w. compare_job_status_to_when w j) range_error result x")
      (auto split: option.splits)
qed

lemma replicaset_status_no_panic [simp]: "\<not> is_panic (replicaset_status outcomes rs)"
  unfolding replicaset_status_def
  by (rule replicasets.loop_no_panic)
    (simp_all add: when_step_no_panic compare_replicaset_status_to_when_def)

lemma job_status_no_panic [simp]: "\<not> is_panic (job_status outcomes j)"
  unfolding job_status_def
  by (rule jobs.loop_no_panic) (simp_all add: when_step_no_panic compare_job_status_to_when_def)

section \<open>Properties\<close>

text \<open>
  A replica-set condition means what it says while its number fits 32 bits: the condition rendered
  from \<^verbatim>\<open>ready\<close> or \<^verbatim>\<open>available\<close>, a comparator and the number answers the integer comparison of that
  counter; in particular one and only one of the conditions with \<^verbatim>\<open><\<close>, \<^verbatim>\<open>=\<close> and \<^verbatim>\<open>>\<close> holds.
\<close>

theorem replicaset_condition_meaning:
  assumes "in_int32 v" and "what = ''ready'' \<or> what = ''available''"
  shows "let n = sint (if what = ''ready'' then rs_ready rs else rs_available rs) in
         compare_replicaset_status_to_when (what @ '' < '' @ show_int v) rs = Ok (n < v) \<and>
         compare_replicaset_status_to_when (what @ '' <= '' @ show_int v) rs = Ok (n \<le> v) \<and>
         compare_replicaset_status_to_when (what @ '' = '' @ show_int v) rs = Ok (n = v) \<and>
         compare_replicaset_status_to_when (what @ '' >= '' @ show_int v) rs = Ok (n \<ge> v) \<and>
         compare_replicaset_status_to_when (what @ '' > '' @ show_int v) rs = Ok (n > v)"
  using assms(2)
proof
  assume "what = ''ready''"
  then show ?thesis
    using ready_when.check_laws [OF assms(1), where a = rs] ready_when.check_eq [OF assms(1), of "''=''"]
    by (simp add: Let_def render_counter_def)
next
  assume "what = ''available''"
  then show ?thesis
    using available_when.check_laws [OF assms(1), where a = rs] available_when.check_eq [OF assms(1), of "''=''"]
    by (simp add: Let_def render_counter_def)
qed

theorem replicaset_condition_meaning_witness:
  "compare_replicaset_status_to_when ''ready >= 2''
     \<lparr>rs_name = ''r'', rs_namespace = ''n'', rs_labels = [], rs_spec_replicas = Some 3, rs_ready = 2,
      rs_available = 1\<rparr> = Ok True"
proof -
  let ?rs = "\<lparr>rs_name = ''r'', rs_namespace = ''n'', rs_labels = [], rs_spec_replicas = Some 3,
      rs_ready = 2, rs_available = 1\<rparr>"
  have "in_int32 2" by (simp add: in_int32_def)
  moreover have "show_int 2 = ''2''" by code_simp
  ultimately show ?thesis
    using replicaset_condition_meaning [of 2 "''ready''" ?rs] by simp
qed

text \<open>
  Beyond 32 bits the number of a replica-set or job condition wraps: adding any multiple of
  \<^verbatim>\<open>2^32\<close> to it leaves every answer as it was, for every counter and comparator.
\<close>

theorem counter_condition_wraps:
  assumes "in_int64 v" and "in_int64 (v + k * 2 ^ 32)" and "CHR '' '' \<notin> set cmp"
  shows "(what \<in> {''ready'', ''available''} \<longrightarrow>
            compare_replicaset_status_to_when (render_counter what cmp (v + k * 2 ^ 32)) rs =
            compare_replicaset_status_to_when (render_counter what cmp v) rs) \<and>
         (what \<in> {''succeeded'', ''failed''} \<longrightarrow>
            compare_job_status_to_when (render_counter what cmp (v + k * 2 ^ 32)) j =
            compare_job_status_to_when (render_counter what cmp v) j)"
  by (intro conjI impI;
      simp only: counter_rendered [OF _ assms(3) assms(1)] counter_rendered [OF _ assms(3) assms(2)]
      to_int32_period)

theorem counter_condition_wraps_witness:
  "compare_replicaset_status_to_when ''ready >= 4294967297''
     \<lparr>rs_name = ''r'', rs_namespace = ''n'', rs_labels = [], rs_spec_replicas = None, rs_ready = 1,
      rs_available = 1\<rparr> = Ok True"
proof -
  let ?rs = "\<lparr>rs_name = ''r'', rs_namespace = ''n'', rs_labels = [], rs_spec_replicas = None,
      rs_ready = 1, rs_available = 1\<rparr>"
  have "compare_replicaset_status_to_when (render_counter ''ready'' ''>='' (1 + 1 * 2 ^ 32)) ?rs =
      compare_replicaset_status_to_when (render_counter ''ready'' ''>='' 1) ?rs"
    using counter_condition_wraps [of 1 1 "''>=''" "''ready''" ?rs] by (simp add: in_int64_def)
  also have "\<dots> = Ok True"
    by (simp add: ready_when.check_ge in_int32_def)
  finally have "compare_replicaset_status_to_when (render_counter ''ready'' ''>='' (1 + 1 * 2 ^ 32)) ?rs = Ok True" .
  moreover have "render_counter ''ready'' ''>='' (1 + 1 * 2 ^ 32) = ''ready >= 4294967297''"
    by (simp add: render_counter_def show_number)
  ultimately show ?thesis by (simp only:)
qed

text \<open>
  A job analyzer with a namespace and neither a name nor a list of namespaces reads that namespace's
  file and, after it, every file: each unfinished failed job of the namespace is reported at least twice,
  and the jobs of all other namespaces are reported as well.
\<close>

theorem job_namespace_reported_twice:
  assumes spec: "ss_name a = []" "ss_namespaces a = []" "ss_namespace a \<noteq> []"
    and ns: "find_f (resource_file ''jobs'' (ss_namespace a)) [] = Ok [(f, c)]"
    and all: "find_f (resource_glob ''jobs'') [] = Ok files" "(f, c) \<in> set files"
    and dec: "\<And>n x. (n, x) \<in> set files \<Longrightarrow> unmarshal x = Ok (decoded x)"
    and job: "(n, x) \<in> set files" "j \<in> set (decoded x)" "default_job_result j = Some r"
  shows "\<exists>rs. job_Analyze unmarshal find_f a = Ok rs \<and>
           count_list rs (r\<lparr>strict := bool_or_default_false (ss_strict a)\<rparr>) \<ge>
             (if x = c then 2 else 1)"
proof -
  define out where "out x = concat (map (\<lambda>j. option_results (default_job_result j)) (decoded x))" for x
  define st where "st = (\<lambda>r::analyze_result. r\<lparr>strict := bool_or_default_false (ss_strict a)\<rparr>)"
  have body: "all_jobs_file unmarshal y = Ok (out y)" if "(m, y) \<in> set files" for m y
    using dec [OF that] by (simp add: all_jobs_file_def out_def)
  have names: "all_job_files a = [resource_file ''jobs'' (ss_namespace a), resource_glob ''jobs'']"
    using spec by (simp add: all_job_files_def namespace_files_def)
  have globbed: "map_m (\<lambda>(_, c). all_jobs_file unmarshal c) files = Ok (map (\<lambda>(_, c). out c) files)"
    by (rule map_m_Ok_cong) (auto simp: body)
  have run: "job_Analyze unmarshal find_f a = Ok (map st (out c) @ map st (concat (map (\<lambda>(_, c). out c) files)))"
    using spec(1) ns all body [OF all(2)] globbed
    by (simp add: job_Analyze_def with_strict_def analyze_job_status_def analyze_all_jobs_def
        scan_files_def names st_def)
  have r: "r \<in> set (out x)"
    using job(2,3) by (auto simp: out_def option_results_def intro!: bexI [of _ j])
  then have "st r \<in> set (map st (concat (map (\<lambda>(_, c). out c) files)))"
    using job(1) by (force intro!: imageI)
  then have one: "count_list (map st (concat (map (\<lambda>(_, c). out c) files))) (st r) \<ge> 1"
    by (metis count_list_0_iff less_one linorder_not_le)
  moreover have "count_list (map st (out c)) (st r) \<ge> 1" if "x = c"
    using r that by (metis count_list_0_iff imageI less_one linorder_not_le list.set_map)
  ultimately have "count_list (map st (out c) @ map st (concat (map (\<lambda>(_, c). out c) files))) (st r)
      \<ge> (if x = c then 2 else 1)"
    by (auto simp: count_list_append)
  then show ?thesis by (simp only: run res.inject st_def) auto
qed

theorem job_namespace_reported_twice_witness:
  "\<exists>rs. job_Analyze
      (\<lambda>c. Ok [\<lparr>jb_name = c, jb_namespace = ''n'', jb_completions = None, jb_succeeded = 0, jb_failed = 1\<rparr>])
      (\<lambda>_ _. Ok [(''f'', ''m'')])
      \<lparr>ss_check_name = [], ss_exclude = None, ss_strict = None, ss_outcomes = [],
       ss_namespace = ''n'', ss_namespaces = [], ss_name = [], ss_selector = []\<rparr> = Ok rs \<and> length rs \<ge> 2"
proof -
  let ?a = "\<lparr>ss_check_name = [], ss_exclude = None, ss_strict = None, ss_outcomes = [],
       ss_namespace = ''n'', ss_namespaces = [], ss_name = [], ss_selector = []\<rparr> :: status_spec"
  let ?dec = "\<lambda>c. [\<lparr>jb_name = c, jb_namespace = ''n'', jb_completions = None, jb_succeeded = 0, jb_failed = 1\<rparr>] :: job list"
  let ?r = "the (default_job_result (hd (?dec ''m'')))"
  have r: "default_job_result (hd (?dec ''m'')) = Some ?r"
    by (simp add: default_job_result_def)
  have "\<exists>rs. job_Analyze (\<lambda>c. Ok (?dec c)) (\<lambda>_ _. Ok [(''f'', ''m'')]) ?a = Ok rs \<and>
      count_list rs (?r\<lparr>strict := bool_or_default_false (ss_strict ?a)\<rparr>) \<ge> (if ''m'' = ''m'' then 2 else 1)"
    by (rule job_namespace_reported_twice [where files = "[(''f'', ''m'')]" and f = "''f''" and
          j = "hd (?dec ''m'')" and n = "''f''" and decoded = ?dec, OF _ _ _ _ _ _ _ _ _ r]) simp_all
  then obtain rs where "job_Analyze (\<lambda>c. Ok (?dec c)) (\<lambda>_ _. Ok [(''f'', ''m'')]) ?a = Ok rs"
    and "2 \<le> count_list rs (?r\<lparr>strict := bool_or_default_false (ss_strict ?a)\<rparr>)"
    by (auto simp only: refl if_True)
  with count_le_length [of rs] show ?thesis by (blast intro: le_trans)
qed

end
