(* ===== verification/Host_Resources.thy ===== *)
theory Host_Resources
  imports Comparisons
begin

text \<open>
  The host analyzers of machine resources: \<^verbatim>\<open>host_cpu.go\<close>, \<^verbatim>\<open>host_memory.go\<close>,
  \<^verbatim>\<open>host_disk_usage.go\<close>, \<^verbatim>\<open>host_time.go\<close>, \<^verbatim>\<open>host_ipv4interfaces.go\<close>. The JSON
  decoder of the collected data, Kubernetes quantities (\<open>parse_quantity\<close> is
  \<^verbatim>\<open>resource.ParseQuantity\<close>, \<open>as_int64\<close> its \<^verbatim>\<open>AsInt64\<close>) and the floating point
  arithmetic of the disk ratios are parameters. Sizes are 64-bit words.
\<close>

type_synonym u64 = "64 word"
type_synonym get_file = "string \<Rightarrow> string res"

definition NodeInfoBaseDir :: string where "NodeInfoBaseDir = ''host-collectors/system''"

text \<open>
  The \<open>Analyze\<close> method shared by the host analyzers: read the collected files, evaluate the outcomes on
  each.
\<close>

definition host_Analyze ::
  "(string \<Rightarrow> string list res) \<Rightarrow> get_file \<Rightarrow> string \<Rightarrow> string \<Rightarrow> string \<Rightarrow> outcome list \<Rightarrow>
   (string \<Rightarrow> string \<Rightarrow> bool res) \<Rightarrow> string \<Rightarrow> string \<Rightarrow> analyze_result list res" where
  "host_Analyze um_nodes get local_path dir file outcomes check t errmsg =
     bind_res (retrieve_collected_contents um_nodes get local_path dir file) (\<lambda>contents.
       wrap_res errmsg (analyze_host_collector_results contents outcomes check t))"

section \<open>CPU\<close>

record cpu_info =
  logical_count :: int
  physical_count :: int
  cpu_flags :: "string list"
  machine_arch :: string

definition microarchs :: "string \<Rightarrow> string list" where
  "microarchs m =
     (if m = ''x86-64'' then [''cmov'', ''cx8'', ''fpu'', ''fxsr'', ''mmx'', ''syscall'', ''sse'', ''sse2'']
      else if m = ''x86-64-v2'' then [''cx16'', ''lahf_lm'', ''popcnt'', ''ssse3'', ''sse4_1'', ''sse4_2'', ''ssse3'']
      else if m = ''x86-64-v3'' then [''avx'', ''avx2'', ''bmi1'', ''bmi2'', ''f16c'', ''fma'', ''lzcnt'', ''movbe'', ''xsave'']
      else if m = ''x86-64-v4'' then [''avx512f'', ''avx512bw'', ''avx512cd'', ''avx512dq'', ''avx512vl'']
      else [])"

text \<open>The switch falls through from a level to all levels below it.\<close>

definition microarch_specifics :: "string \<Rightarrow> string list option" where
  "microarch_specifics m =
     (let v1 = microarchs ''x86-64'';
          v2 = microarchs ''x86-64-v2'' @ v1;
          v3 = microarchs ''x86-64-v3'' @ v2;
          v4 = microarchs ''x86-64-v4'' @ v3
      in if m = ''x86-64-v4'' then Some v4
         else if m = ''x86-64-v3'' then Some v3
         else if m = ''x86-64-v2'' then Some v2
         else if m = ''x86-64'' then Some v1
         else None)"

definition do_compare_host_cpu_microarchitecture :: "string \<Rightarrow> string list \<Rightarrow> bool res" where
  "do_compare_host_cpu_microarchitecture m flags =
     (case microarch_specifics m of
        None \<Rightarrow> Fail (Errf ''troubleshoot does not yet support microarchitecture %q'' [m])
      | Some specifics \<Rightarrow> Ok (list_all (\<lambda>f. f \<in> set flags) specifics))"

definition do_compare_host_cpu_flags :: "string \<Rightarrow> string list \<Rightarrow> bool res" where
  "do_compare_host_cpu_flags expected flags =
     (let fs = split_on (CHR '','') expected
      in if fs = [] then Fail (Err ''expected flags cannot be empty'')
         else Ok (list_all (\<lambda>f. f \<in> set flags) fs))"

definition do_compare_machine_arch :: "string \<Rightarrow> string \<Rightarrow> string \<Rightarrow> bool res" where
  "do_compare_machine_arch operator desired actual =
     (if operator \<in> {''='', ''=='', ''===''} then Ok (actual = desired)
      else if operator \<in> {''!='', ''!==''} then Ok (actual \<noteq> desired)
      else Fail (Err ''unknown operator''))"

definition do_compare_host_cpu :: "string \<Rightarrow> string \<Rightarrow> int \<Rightarrow> bool res" where
  "do_compare_host_cpu operator desired actual =
     bind_res (wrap_res ''failed to parse'' (parse_int desired)) (\<lambda>v.
       case switch_op operator actual v of
         Some b \<Rightarrow> Ok b
       | None \<Rightarrow> if operator \<in> {''!='', ''!==''} then Ok (actual \<noteq> v)
                else Fail (Err ''unknown operator''))"

datatype cpu_subject = CpuLogical | CpuPhysical | CpuUnspecified | CpuMachineArch

definition cpu_subject_of :: "string \<Rightarrow> cpu_subject option" where
  "cpu_subject_of w =
     (let l = to_lower w in
      if l = ''logical'' then Some CpuLogical
      else if l = ''physical'' then Some CpuPhysical
      else if l = ''count'' then Some CpuUnspecified
      else if l = ''machinearch'' then Some CpuMachineArch
      else None)"

definition parse_cpu_conditional :: "string \<Rightarrow> cpu_subject option \<times> string \<times> string" where
  "parse_cpu_conditional conditional =
     (case split_on (CHR '' '') conditional of
        [subject, cmp, desired] \<Rightarrow> (cpu_subject_of subject, cmp, desired)
      | [cmp, desired] \<Rightarrow> (Some CpuUnspecified, cmp, desired)
      | _ \<Rightarrow> (None, [], []))"

definition compare_host_cpu_conditional_to_actual ::
  "string \<Rightarrow> int \<Rightarrow> int \<Rightarrow> string list \<Rightarrow> string \<Rightarrow> bool res" where
  "compare_host_cpu_conditional_to_actual conditional logical physical flags arch =
     (case parse_cpu_conditional conditional of (subject, cmp, desired) \<Rightarrow>
        if to_lower cmp = ''supports'' then do_compare_host_cpu_microarchitecture desired flags
        else if to_lower cmp = ''hasflags'' then do_compare_host_cpu_flags desired flags
        else case subject of
               None \<Rightarrow> Fail (Err ''unable to parse conditional'')
             | Some CpuLogical \<Rightarrow> do_compare_host_cpu cmp desired logical
             | Some CpuPhysical \<Rightarrow> do_compare_host_cpu cmp desired physical
             | Some CpuMachineArch \<Rightarrow> do_compare_machine_arch cmp desired arch
             | Some CpuUnspecified \<Rightarrow>
                 do_compare_host_cpu cmp desired (if physical > logical then physical else logical))"

definition cpu_check_condition :: "(string \<Rightarrow> cpu_info res) \<Rightarrow> string \<Rightarrow> string \<Rightarrow> bool res" where
  "cpu_check_condition unmarshal w data =
     bind_res (wrap_res ''failed to unmarshal data into CPUInfo'' (unmarshal data)) (\<lambda>c.
       compare_host_cpu_conditional_to_actual w (logical_count c) (physical_count c) (cpu_flags c)
         (machine_arch c))"

definition host_cpu_Analyze ::
  "(string \<Rightarrow> cpu_info res) \<Rightarrow> (string \<Rightarrow> string list res) \<Rightarrow> get_file \<Rightarrow> string \<Rightarrow> outcome list \<Rightarrow>
   analyze_result list res" where
  "host_cpu_Analyze unmarshal um_nodes get check_name outcomes =
     host_Analyze um_nodes get ''host-collectors/system/cpu.json'' NodeInfoBaseDir ''cpu.json'' outcomes
       (cpu_check_condition unmarshal) (host_analyzer_title_or_default check_name ''Number of CPUs'')
       ''failed to analyze OS version''"

section \<open>Memory\<close>

text \<open>The switch over unsigned 64-bit values; \<open>None\<close> is its default branch.\<close>

definition switch_u64 :: "string \<Rightarrow> u64 \<Rightarrow> u64 \<Rightarrow> bool option" where
  "switch_u64 operator actual v =
     (if operator = ''<'' then Some (actual < v)
      else if operator = ''<='' then Some (actual \<le> v)
      else if operator = ''>'' then Some (actual > v)
      else if operator = ''>='' then Some (actual \<ge> v)
      else if operator \<in> {''='', ''=='', ''===''} then Some (actual = v)
      else None)"

definition to_u64 :: "int \<Rightarrow> u64" where
  "to_u64 v = word_of_int v"

definition parse_size :: "(string \<Rightarrow> 'q res) \<Rightarrow> ('q \<Rightarrow> int option) \<Rightarrow> string \<Rightarrow> int res" where
  "parse_size parse_quantity as_int64 desired =
     (case parse_quantity desired of
        Ok q \<Rightarrow>
          (case as_int64 q of
             Some v \<Rightarrow> Ok v
           | None \<Rightarrow> Fail (Errf ''could not parse quantity %q'' [desired]))
      | Fail _ \<Rightarrow> Fail (Errf ''could not parse quantity %q'' [desired])
      | Panic m \<Rightarrow> Panic m)"

definition memory_check_condition ::
  "(string \<Rightarrow> u64 res) \<Rightarrow> (string \<Rightarrow> 'q res) \<Rightarrow> ('q \<Rightarrow> int option) \<Rightarrow> string \<Rightarrow> string \<Rightarrow> bool res" where
  "memory_check_condition unmarshal parse_quantity as_int64 w data =
     bind_res (wrap_res ''failed to unmarshal data into MemoryInfo'' (unmarshal data)) (\<lambda>total.
       case split_on (CHR '' '') w of
         [operator, desired] \<Rightarrow>
           bind_res (parse_size parse_quantity as_int64 desired) (\<lambda>v.
             if v < 0 then Fail (Errf ''desired value must be a positive integer, got %d'' [show_int v])
             else case switch_u64 operator total (to_u64 v) of
                    Some b \<Rightarrow> Ok b
                  | None \<Rightarrow> Fail (Errf ''unsupported operator: %q'' [operator]))
       | parts \<Rightarrow> Fail (Errf ''Expected 2 parts in conditional, got %d'' [show_nat (length parts)]))"

definition host_memory_Analyze ::
  "(string \<Rightarrow> u64 res) \<Rightarrow> (string \<Rightarrow> 'q res) \<Rightarrow> ('q \<Rightarrow> int option) \<Rightarrow> (string \<Rightarrow> string list res) \<Rightarrow> get_file \<Rightarrow>
   string \<Rightarrow> outcome list \<Rightarrow> analyze_result list res" where
  "host_memory_Analyze unmarshal parse_quantity as_int64 um_nodes get check_name outcomes =
     host_Analyze um_nodes get ''host-collectors/system/memory.json'' NodeInfoBaseDir ''memory.json'' outcomes
       (memory_check_condition unmarshal parse_quantity as_int64)
       (host_analyzer_title_or_default check_name ''Amount of Memory'') ''failed to analyze OS version''"

section \<open>Disk usage\<close>

text \<open>The floating point operations of the two ratios.\<close>

record 'f float_ops =
  f_of_u64 :: "u64 \<Rightarrow> 'f"
  f_div :: "'f \<Rightarrow> 'f \<Rightarrow> 'f"
  f_lt :: "'f \<Rightarrow> 'f \<Rightarrow> bool"
  f_le :: "'f \<Rightarrow> 'f \<Rightarrow> bool"
  f_eq :: "'f \<Rightarrow> 'f \<Rightarrow> bool"
  f_parse :: "string \<Rightarrow> 'f res"
  f_hundred :: 'f

definition do_compare_host_disk_usage ::
  "(string \<Rightarrow> 'q res) \<Rightarrow> ('q \<Rightarrow> int option) \<Rightarrow> string \<Rightarrow> string \<Rightarrow> u64 \<Rightarrow> bool res" where
  "do_compare_host_disk_usage parse_quantity as_int64 operator desired actual =
     bind_res (parse_size parse_quantity as_int64 desired) (\<lambda>v.
       case switch_u64 operator actual (to_u64 v) of
         Some b \<Rightarrow> Ok b
       | None \<Rightarrow> Fail (Err ''unknown operator''))"

definition do_compare_host_disk_usage_percent ::
  "'f float_ops \<Rightarrow> string \<Rightarrow> string \<Rightarrow> 'f \<Rightarrow> bool res" where
  "do_compare_host_disk_usage_percent ops operator desired actual =
     (let is_percent = has_suffix ''%'' desired;
          text' = (if is_percent then trim_suffix ''%'' desired else desired)
      in bind_res (wrap_res ''parsed desired quantity'' (f_parse ops text')) (\<lambda>p.
           let v = (if is_percent then f_div ops p (f_hundred ops) else p) in
           if operator = ''<'' then Ok (f_lt ops actual v)
           else if operator = ''<='' then Ok (f_le ops actual v)
           else if operator = ''>'' then Ok (f_lt ops v actual)
           else if operator = ''>='' then Ok (f_le ops v actual)
           else if operator \<in> {''='', ''=='', ''===''} then Ok (f_eq ops actual v)
           else Fail (Err ''unknown operator'')))"

definition compare_host_disk_usage_conditional_to_actual ::
  "'f float_ops \<Rightarrow> (string \<Rightarrow> 'q res) \<Rightarrow> ('q \<Rightarrow> int option) \<Rightarrow> string \<Rightarrow> u64 \<Rightarrow> u64 \<Rightarrow> bool res" where
  "compare_host_disk_usage_conditional_to_actual ops parse_quantity as_int64 conditional totalB usedB =
     (case split_on (CHR '' '') conditional of
        [subject, cmp, desired] \<Rightarrow>
          (let stat = to_lower subject in
           if stat = ''total'' then do_compare_host_disk_usage parse_quantity as_int64 cmp desired totalB
           else if stat = ''used'' then do_compare_host_disk_usage parse_quantity as_int64 cmp desired usedB
           else if stat = ''available''
           then do_compare_host_disk_usage parse_quantity as_int64 cmp desired (totalB - usedB)
           else if stat = ''used/total''
           then do_compare_host_disk_usage_percent ops cmp desired
                  (f_div ops (f_of_u64 ops usedB) (f_of_u64 ops totalB))
           else if stat = ''available/total''
           then do_compare_host_disk_usage_percent ops cmp desired
                  (f_div ops (f_of_u64 ops (totalB - usedB)) (f_of_u64 ops totalB))
           else Fail (Errf ''unknown disk usage statistic %q'' [stat]))
      | parts \<Rightarrow> Fail (Errf ''conditional must have exactly 3 parts, got %d'' [show_nat (length parts)]))"

record disk_usage_info =
  total_bytes :: u64
  used_bytes :: u64

definition disk_check_condition ::
  "'f float_ops \<Rightarrow> (string \<Rightarrow> disk_usage_info res) \<Rightarrow> (string \<Rightarrow> 'q res) \<Rightarrow> ('q \<Rightarrow> int option) \<Rightarrow>
   string \<Rightarrow> string \<Rightarrow> bool res" where
  "disk_check_condition ops unmarshal parse_quantity as_int64 w data =
     bind_res (wrap_res ''failed to unmarshal data into DiskUsageInfo'' (unmarshal data)) (\<lambda>d.
       compare_host_disk_usage_conditional_to_actual ops parse_quantity as_int64 w (total_bytes d) (used_bytes d))"

definition host_disk_usage_Analyze ::
  "'f float_ops \<Rightarrow> (string \<Rightarrow> disk_usage_info res) \<Rightarrow> (string \<Rightarrow> 'q res) \<Rightarrow> ('q \<Rightarrow> int option) \<Rightarrow>
   (string \<Rightarrow> string list res) \<Rightarrow> get_file \<Rightarrow> string \<Rightarrow> string \<Rightarrow> outcome list \<Rightarrow> analyze_result list res" where
  "host_disk_usage_Analyze ops unmarshal parse_quantity as_int64 um_nodes get check_name collector_name outcomes =
     (let name = (if collector_name = [] then ''diskUsage'' else collector_name)
      in host_Analyze um_nodes get (''host-collectors/diskUsage/'' @ name @ ''.json'') ''host-collectors/diskUsage''
           (name @ ''.json'') outcomes (disk_check_condition ops unmarshal parse_quantity as_int64)
           (host_analyzer_title_or_default check_name (''Disk Usage '' @ collector_name))
           ''failed to analyze disk usage'')"

section \<open>Time\<close>

record time_info =
  timezone :: string
  ntp_synchronized :: bool
  ntp_active :: bool

definition SynchronizedActive :: string where "SynchronizedActive = ''synchronized+active''"
definition SynchronizedInactive :: string where "SynchronizedInactive = ''synchronized+inactive''"
definition UnsynchronizedActive :: string where "UnsynchronizedActive = ''unsynchronized+active''"
definition UnsynchronizedInactive :: string where "UnsynchronizedInactive = ''unsynchronized+inactive''"

definition compare_host_time_status_to_actual :: "string \<Rightarrow> time_info \<Rightarrow> bool res" where
  "compare_host_time_status_to_actual status info =
     (case split_on (CHR '' '') status of
        [subject, operator, value] \<Rightarrow>
          if subject = ''timezone'' then
            (if operator \<notin> {''='', ''=='', ''==='', ''!=''}
             then Fail (Err ''Only supported operators are \"==\" and \"!=\"'')
             else if operator = ''!='' then Ok (value \<noteq> timezone info)
             else Ok (value = timezone info))
          else if subject = ''ntp'' then
            (if operator \<notin> {''='', ''=='', ''===''} then Fail (Err ''Only supported operator is \"==\"'')
             else if value = SynchronizedActive then Ok (ntp_synchronized info \<and> ntp_active info)
             else if value = SynchronizedInactive then Ok (ntp_synchronized info \<and> \<not> ntp_active info)
             else if value = UnsynchronizedActive then Ok (\<not> ntp_synchronized info \<and> ntp_active info)
             else if value = UnsynchronizedInactive then Ok (\<not> ntp_synchronized info \<and> \<not> ntp_active info)
             else Fail (Errf ''Unknown status %q. Allowed values are %q, %q, %q, or %q''
                    [value, SynchronizedActive, SynchronizedInactive, UnsynchronizedActive,
                     UnsynchronizedInactive]))
          else Fail (Errf ''Unknown keyword: %s'' [subject])
      | parts \<Rightarrow> Fail (Errf ''Expected exactly 3 parts, got %d'' [show_nat (length parts)]))"

definition time_check_condition :: "(string \<Rightarrow> time_info res) \<Rightarrow> string \<Rightarrow> string \<Rightarrow> bool res" where
  "time_check_condition unmarshal w data =
     bind_res (wrap_res ''failed to unmarshal data into TimeInfo'' (unmarshal data))
       (compare_host_time_status_to_actual w)"

definition host_time_Analyze ::
  "(string \<Rightarrow> time_info res) \<Rightarrow> (string \<Rightarrow> string list res) \<Rightarrow> get_file \<Rightarrow> string \<Rightarrow> outcome list \<Rightarrow>
   analyze_result list res" where
  "host_time_Analyze unmarshal um_nodes get check_name outcomes =
     host_Analyze um_nodes get ''host-collectors/system/time.json'' NodeInfoBaseDir ''time.json'' outcomes
       (time_check_condition unmarshal) (host_analyzer_title_or_default check_name ''Time'')
       ''failed to analyze OS version''"

section \<open>Network interfaces\<close>

definition compare_host_ipv4_interfaces_conditional_to_actual :: "string \<Rightarrow> 'if list \<Rightarrow> bool res" where
  "compare_host_ipv4_interfaces_conditional_to_actual conditional interfaces =
     (case split_on (CHR '' '') conditional of
        [keyword, operator, desired] \<Rightarrow>
          if keyword \<noteq> ''count'' then Fail (Errf ''Only supported keyword is \"count\", got %q'' [keyword])
          else bind_res (wrap_res (''failed to parse '' @ quoted desired @ '' as int'') (parse_int desired)) (\<lambda>v.
                 case switch_op operator (int (length interfaces)) v of
                   Some b \<Rightarrow> Ok b
                 | None \<Rightarrow> Fail (Errf ''Unknown operator %q. Supported operators are: <, <=, ==, >=, >'' [operator]))
      | parts \<Rightarrow> Fail (Errf ''Expected exactly 3 parts in conditional, got %d'' [show_nat (length parts)]))"

definition ipv4_check_condition :: "(string \<Rightarrow> 'if list res) \<Rightarrow> string \<Rightarrow> string \<Rightarrow> bool res" where
  "ipv4_check_condition unmarshal w data =
     bind_res (wrap_res ''failed to unmarshal data into []net.Interface'' (unmarshal data))
       (compare_host_ipv4_interfaces_conditional_to_actual w)"

section \<open>Lemmas\<close>

lemma do_compare_host_cpu_rendered:
  assumes "in_int64 v"
  shows "do_compare_host_cpu cmp (show_int v) a =
     (case switch_op cmp a v of Some b \<Rightarrow> Ok b
      | None \<Rightarrow> if cmp \<in> {''!='', ''!==''} then Ok (a \<noteq> v) else Fail (Err ''unknown operator''))"
  by (simp add: do_compare_host_cpu_def go_simps assms)

definition render_cpu :: "string \<Rightarrow> string \<Rightarrow> int \<Rightarrow> string" where
  "render_cpu subject cmp v = subject @ '' '' @ cmp @ '' '' @ show_int v"

lemma cpu_conditional_rendered:
  assumes "in_int64 v" "CHR '' '' \<notin> set subject" "CHR '' '' \<notin> set cmp"
    and "to_lower cmp \<noteq> ''supports''" "to_lower cmp \<noteq> ''hasflags''"
  shows "compare_host_cpu_conditional_to_actual (render_cpu subject cmp v) l p flags arch =
     (case cpu_subject_of subject of
        None \<Rightarrow> Fail (Err ''unable to parse conditional'')
      | Some CpuLogical \<Rightarrow> do_compare_host_cpu cmp (show_int v) l
      | Some CpuPhysical \<Rightarrow> do_compare_host_cpu cmp (show_int v) p
      | Some CpuMachineArch \<Rightarrow> do_compare_machine_arch cmp (show_int v) arch
      | Some CpuUnspecified \<Rightarrow> do_compare_host_cpu cmp (show_int v) (max l p))"
  using assms
  by (simp add: compare_host_cpu_conditional_to_actual_def parse_cpu_conditional_def render_cpu_def
      split_on_three max_def split: option.splits cpu_subject.splits)

lemma cpu_subjects:
  "cpu_subject_of ''count'' = Some CpuUnspecified" "cpu_subject_of ''logical'' = Some CpuLogical"
  "cpu_subject_of ''physical'' = Some CpuPhysical"
  by code_simp+

lemma comparator_words:
  "cmp \<in> {''<'', ''>'', ''<='', ''>='', ''='', ''=='', ''==='', ''!='', ''!==''} \<Longrightarrow>
     CHR '' '' \<notin> set cmp \<and> to_lower cmp \<noteq> ''supports'' \<and> to_lower cmp \<noteq> ''hasflags''"
  by (auto simp: to_lower_def)

lemma cpu_count_rendered:
  assumes "in_int64 v"
    and "cmp \<in> {''<'', ''>'', ''<='', ''>='', ''='', ''=='', ''==='', ''!='', ''!==''}"
  shows "compare_host_cpu_conditional_to_actual (render_cpu ''count'' cmp v) l p flags arch =
           do_compare_host_cpu cmp (show_int v) (max l p)"
    and "compare_host_cpu_conditional_to_actual (render_cpu ''logical'' cmp v) l p flags arch =
           do_compare_host_cpu cmp (show_int v) l"
    and "compare_host_cpu_conditional_to_actual (render_cpu ''physical'' cmp v) l p flags arch =
           do_compare_host_cpu cmp (show_int v) p"
  using comparator_words [OF assms(2)] assms(1)
  by (simp_all add: cpu_conditional_rendered cpu_subjects)

definition cpu_check :: "string \<Rightarrow> cpu_info \<Rightarrow> bool res" where
  "cpu_check w c = compare_host_cpu_conditional_to_actual w (logical_count c) (physical_count c)
     (cpu_flags c) (machine_arch c)"

interpretation cpu_count: when_language
  cpu_check "render_cpu ''count''" "\<lambda>c. max (logical_count c) (physical_count c)" in_int64
  by unfold_locales
    (auto simp: cpu_check_def cpu_count_rendered do_compare_host_cpu_rendered switch_op_def)

interpretation cpu_logical: when_language
  cpu_check "render_cpu ''logical''" logical_count in_int64
  by unfold_locales
    (auto simp: cpu_check_def cpu_count_rendered do_compare_host_cpu_rendered switch_op_def)

interpretation cpu_physical: when_language
  cpu_check "render_cpu ''physical''" physical_count in_int64
  by unfold_locales
    (auto simp: cpu_check_def cpu_count_rendered do_compare_host_cpu_rendered switch_op_def)

text \<open>Unsigned words compare as the numbers they hold.\<close>

lemma switch_u64_switch_op: "switch_u64 cmp a v = switch_op cmp (uint a) (uint v)"
  by (simp add: switch_u64_def switch_op_def word_less_def word_le_def word_uint_eq_iff)

lemma uint_to_u64: "uint (to_u64 v) = v mod 2 ^ 64"
  by (simp add: to_u64_def uint_word_of_int)

lemma uint_u64_minus:
  "uint (a - b :: u64) = (if uint b \<le> uint a then uint a - uint b else 2 ^ 64 + uint a - uint b)"
proof -
  have "uint a < 2 ^ 64" "uint b < 2 ^ 64" "0 \<le> uint a" "0 \<le> uint b"
    using uint_bounded [of a] uint_bounded [of b] by simp_all
  then show ?thesis
    by (simp add: uint_sub_if')
qed

lemma switch_op_known:
  "cmp \<in> {''<'', ''>'', ''<='', ''>='', ''='', ''=='', ''===''} \<Longrightarrow> \<exists>b. switch_op cmp a v = Some b"
  by (auto simp: switch_op_def)

lemma disk_available_rendered:
  assumes "CHR '' '' \<notin> set cmp" "CHR '' '' \<notin> set desired"
  shows "compare_host_disk_usage_conditional_to_actual ops pq ai
           (sentence [''available'', cmp, desired]) tot usd =
         do_compare_host_disk_usage pq ai cmp desired (tot - usd)"
proof -
  have "to_lower ''available'' = ''available''" by code_simp
  with assms show ?thesis
    by (simp add: compare_host_disk_usage_conditional_to_actual_def split_sentence)
qed

lemma disk_available_condition:
  assumes pq: "pq desired = Ok q" and ai: "ai q = Some v"
    and cmp: "cmp \<in> {''<'', ''>'', ''<='', ''>='', ''='', ''=='', ''===''}" and "CHR '' '' \<notin> set desired"
  shows "\<exists>b. compare_host_disk_usage_conditional_to_actual ops pq ai
                 (sentence [''available'', cmp, desired]) tot usd = Ok b \<and>
            switch_op cmp (uint (tot - usd)) (uint (to_u64 v)) = Some b"
proof -
  have "CHR '' '' \<notin> set cmp" using cmp by auto
  with assms switch_op_known [OF cmp, of "uint (tot - usd)" "uint (to_u64 v)"] show ?thesis
    by (auto simp: disk_available_rendered do_compare_host_disk_usage_def parse_size_def
        switch_u64_switch_op)
qed

lemma memory_negative:
  assumes "pq desired = Ok q" "ai q = Some v" "v < 0" "CHR '' '' \<notin> set cmp" "CHR '' '' \<notin> set desired"
  shows "\<not> is_ok (memory_check_condition um pq ai (sentence [cmp, desired]) data)"
  using assms by (cases "um data") (auto simp: memory_check_condition_def parse_size_def split_sentence)

definition clock_states :: "string list" where
  "clock_states = [SynchronizedActive, SynchronizedInactive, UnsynchronizedActive, UnsynchronizedInactive]"

lemma clock_states_distinct: "distinct clock_states" "\<forall>st\<in>set clock_states. CHR '' '' \<notin> set st"
  by code_simp+

lemma ntp_condition:
  assumes "CHR '' '' \<notin> set st"
  shows "compare_host_time_status_to_actual (sentence [''ntp'', ''=='', st]) info =
      (if st = SynchronizedActive then Ok (ntp_synchronized info \<and> ntp_active info)
       else if st = SynchronizedInactive then Ok (ntp_synchronized info \<and> \<not> ntp_active info)
       else if st = UnsynchronizedActive then Ok (\<not> ntp_synchronized info \<and> ntp_active info)
       else if st = UnsynchronizedInactive then Ok (\<not> ntp_synchronized info \<and> \<not> ntp_active info)
       else Fail (Errf ''Unknown status %q. Allowed values are %q, %q, %q, or %q''
              [st, SynchronizedActive, SynchronizedInactive, UnsynchronizedActive, UnsynchronizedInactive]))"
  using assms by (simp add: compare_host_time_status_to_actual_def split_sentence)

lemma ntp_condition_ok:
  assumes "CHR '' '' \<notin> set st"
  shows "is_ok (compare_host_time_status_to_actual (sentence [''ntp'', ''=='', st]) info) \<longleftrightarrow>
     st \<in> set clock_states"
  by (simp add: ntp_condition [OF assms] clock_states_def)

lemma ntp_exactly_one:
  "length (filter (\<lambda>st. compare_host_time_status_to_actual (sentence [''ntp'', ''=='', st]) info = Ok True)
     clock_states) = 1"
proof -
  have "filter (\<lambda>st. compare_host_time_status_to_actual (sentence [''ntp'', ''=='', st]) info = Ok True) clock_states =
    [if ntp_synchronized info then if ntp_active info then SynchronizedActive else SynchronizedInactive
     else if ntp_active info then UnsynchronizedActive else UnsynchronizedInactive]"
    by (simp add: clock_states_def ntp_condition SynchronizedActive_def SynchronizedInactive_def
        UnsynchronizedActive_def UnsynchronizedInactive_def)
  then show ?thesis by simp
qed

lemma timezone_condition:
  assumes "CHR '' '' \<notin> set st"
  shows "compare_host_time_status_to_actual (sentence [''timezone'', ''=='', st]) info = Ok (st = timezone info)"
    and "compare_host_time_status_to_actual (sentence [''timezone'', ''!='', st]) info = Ok (st \<noteq> timezone info)"
  using assms by (simp_all add: compare_host_time_status_to_actual_def split_sentence)

section \<open>Properties\<close>

text \<open>
  The CPU feature levels are nested: a host that supports a level supports every lower one; a level
  is supported exactly when all flags of the level and of the levels below it are present, so more flags
  never lose a level; any other name is an error.
\<close>

theorem microarchitecture_levels:
  "do_compare_host_cpu_microarchitecture ''x86-64'' flags = Ok (set (microarchs ''x86-64'') \<subseteq> set flags) \<and>
   (do_compare_host_cpu_microarchitecture ''x86-64-v2'' flags = Ok True \<longleftrightarrow>
      set (microarchs ''x86-64-v2'') \<subseteq> set flags \<and> do_compare_host_cpu_microarchitecture ''x86-64'' flags = Ok True) \<and>
   (do_compare_host_cpu_microarchitecture ''x86-64-v3'' flags = Ok True \<longleftrightarrow>
      set (microarchs ''x86-64-v3'') \<subseteq> set flags \<and> do_compare_host_cpu_microarchitecture ''x86-64-v2'' flags = Ok True) \<and>
   (do_compare_host_cpu_microarchitecture ''x86-64-v4'' flags = Ok True \<longleftrightarrow>
      set (microarchs ''x86-64-v4'') \<subseteq> set flags \<and> do_compare_host_cpu_microarchitecture ''x86-64-v3'' flags = Ok True) \<and>
   (is_ok (do_compare_host_cpu_microarchitecture m flags) \<longleftrightarrow>
      m \<in> {''x86-64'', ''x86-64-v2'', ''x86-64-v3'', ''x86-64-v4''})"
  by (auto simp: do_compare_host_cpu_microarchitecture_def microarch_specifics_def Let_def
      list_all_iff subset_iff)

text \<open>
  A CPU condition on \<^verbatim>\<open>count\<close> compares the larger of the logical and the physical number of CPUs,
  the two other subjects compare their own number: a host passes a lower and an upper bound together
  exactly when the number lies between them, and the condition with \<^verbatim>\<open>>=\<close> is the negation of the one
  with \<^verbatim>\<open><\<close>.
\<close>

theorem cpu_count_conditions:
  assumes "in_int64 v" and "in_int64 u"
  shows "(cpu_check (render_cpu ''count'' ''>='' v) c = Ok True \<and> cpu_check (render_cpu ''count'' ''<='' u) c = Ok True
            \<longleftrightarrow> v \<le> max (logical_count c) (physical_count c) \<and> max (logical_count c) (physical_count c) \<le> u) \<and>
         (cpu_check (render_cpu ''logical'' ''>='' v) c = Ok True \<and> cpu_check (render_cpu ''logical'' ''<='' u) c = Ok True
            \<longleftrightarrow> v \<le> logical_count c \<and> logical_count c \<le> u) \<and>
         (cpu_check (render_cpu ''physical'' ''>='' v) c = Ok True \<and> cpu_check (render_cpu ''physical'' ''<='' u) c = Ok True
            \<longleftrightarrow> v \<le> physical_count c \<and> physical_count c \<le> u) \<and>
         cpu_check (render_cpu ''count'' ''>='' v) c = map_res Not (cpu_check (render_cpu ''count'' ''<'' v) c)"
  using cpu_count.interval [OF assms] cpu_logical.interval [OF assms] cpu_physical.interval [OF assms]
    cpu_count.complement(1) [OF assms(1)]
  by blast

theorem cpu_count_conditions_witness:
  "cpu_check ''count >= 4'' \<lparr>logical_count = 4, physical_count = 2, cpu_flags = [], machine_arch = []\<rparr> = Ok True"
proof -
  let ?c = "\<lparr>logical_count = 4, physical_count = 2, cpu_flags = [], machine_arch = []\<rparr>"
  have r: "in_int64 4" "in_int64 8" by (simp_all add: in_int64_def)
  from cpu_count_conditions [OF r, of ?c]
  have "cpu_check (render_cpu ''count'' ''>='' 4) ?c = Ok True" by simp
  then show ?thesis by (simp add: render_cpu_def show_number)
qed

text \<open>
  C40. The disk analyzer subtracts unsigned numbers: while the used bytes do not exceed the total,
  \<^verbatim>\<open>available\<close> compares their difference; when they do (a file system with reserved blocks), it compares
  the difference plus \<^verbatim>\<open>2^64\<close>. The number of the condition is taken modulo \<^verbatim>\<open>2^64\<close> as well, so a
  negative one is accepted and stands for a huge one, where the memory analyzer rejects it.
\<close>

theorem disk_available_wraps:
  assumes "pq desired = Ok q" and "ai q = Some v"
    and "cmp \<in> {''<'', ''>'', ''<='', ''>='', ''='', ''=='', ''===''}" and "CHR '' '' \<notin> set desired"
  shows "(\<exists>b. compare_host_disk_usage_conditional_to_actual ops pq ai
                 (sentence [''available'', cmp, desired]) tot usd = Ok b \<and>
            switch_op cmp
              (if uint usd \<le> uint tot then uint tot - uint usd else 2 ^ 64 + uint tot - uint usd)
              (v mod 2 ^ 64) = Some b) \<and>
         (v < 0 \<longrightarrow> \<not> is_ok (memory_check_condition um pq ai (sentence [cmp, desired]) data))"
proof -
  have "CHR '' '' \<notin> set cmp" using assms(3) by auto
  then show ?thesis
    using disk_available_condition [where pq = pq and ai = ai and desired = desired and q = q and v = v and cmp = cmp and ops = ops and tot = tot and usd = usd, OF assms] memory_negative [of pq desired q ai v cmp um data]
      assms
    by (auto simp only: uint_u64_minus uint_to_u64)
qed

theorem disk_available_wraps_witness:
  "compare_host_disk_usage_conditional_to_actual
     \<lparr>f_of_u64 = (\<lambda>_. ()), f_div = (\<lambda>_ _. ()), f_lt = (\<lambda>_ _. False), f_le = (\<lambda>_ _. False),
      f_eq = (\<lambda>_ _. True), f_parse = (\<lambda>_. Ok ()), f_hundred = ()\<rparr>
     (\<lambda>_. Ok (1000::int)) Some (sentence [''available'', ''>='', ''1k'']) 10 11 = Ok True"
proof -
  let ?ops = "\<lparr>f_of_u64 = (\<lambda>_. ()), f_div = (\<lambda>_ _. ()), f_lt = (\<lambda>_ _. False), f_le = (\<lambda>_ _. False),
      f_eq = (\<lambda>_ _. True), f_parse = (\<lambda>_. Ok ()), f_hundred = ()\<rparr>"
  obtain b where run: "compare_host_disk_usage_conditional_to_actual ?ops (\<lambda>_. Ok (1000::int)) Some
      (sentence [''available'', ''>='', ''1k'']) 10 11 = Ok b" and
      b: "switch_op ''>='' (if uint (11::u64) \<le> uint (10::u64) then uint (10::u64) - uint (11::u64)
        else 2 ^ 64 + uint (10::u64) - uint (11::u64)) (1000 mod 2 ^ 64) = Some b"
    using disk_available_wraps [where pq = "\<lambda>_. Ok (1000::int)" and desired = "''1k''" and q = 1000 and ai = Some
        and v = 1000 and cmp = "''>=''" and ops = ?ops and tot = 10 and usd = 11]
    by auto
  from b have b by (simp add: switch_op_def)
  with run show ?thesis by simp
qed

text \<open>
  The four clock conditions split all hosts: on every host exactly one of the four
  \<^verbatim>\<open>ntp\<close> states holds, any other state is an error, and the two timezone comparators negate each other.
\<close>

theorem time_conditions_partition:
  assumes "CHR '' '' \<notin> set st"
  shows "length (filter (\<lambda>s. compare_host_time_status_to_actual (sentence [''ntp'', ''=='', s]) info = Ok True)
             clock_states) = 1 \<and>
         (is_ok (compare_host_time_status_to_actual (sentence [''ntp'', ''=='', st]) info) \<longleftrightarrow>
            st \<in> set clock_states) \<and>
         compare_host_time_status_to_actual (sentence [''timezone'', ''!='', st]) info =
           map_res Not (compare_host_time_status_to_actual (sentence [''timezone'', ''=='', st]) info)"
  using ntp_exactly_one ntp_condition_ok [OF assms] by (simp add: timezone_condition [OF assms])

theorem time_conditions_partition_witness:
  "is_ok (compare_host_time_status_to_actual (sentence [''ntp'', ''=='', ''synchronized+active''])
     \<lparr>timezone = ''UTC'', ntp_synchronized = True, ntp_active = False\<rparr>) \<and>
   \<not> is_ok (compare_host_time_status_to_actual (sentence [''ntp'', ''=='', ''x''])
     \<lparr>timezone = ''UTC'', ntp_synchronized = True, ntp_active = False\<rparr>)"
proof -
  have "CHR '' '' \<notin> set ''synchronized+active''" "CHR '' '' \<notin> set ''x''"
    "''synchronized+active'' \<in> set clock_states" "''x'' \<notin> set clock_states"
    by code_simp+
  with time_conditions_partition show ?thesis by blast
qed

end
