(* ===== verification/Lines.thy ===== *)
theory Lines
  imports Prelude
begin

text \<open>
  Reading a byte stream line by line. \<open>scan_lines\<close> is \<^verbatim>\<open>bufio.Scanner\<close> with the split function
  \<^verbatim>\<open>ScanLines\<close> and a limit on the size of its buffer: a line ends at a newline or at the end of the
  input, loses one trailing carriage return, and the scan stops with an error at a line as long as the
  buffer. Base names of paths are \<^verbatim>\<open>filepath.Base\<close>.
\<close>

abbreviation newline :: char where "newline \<equiv> CHR 0x0A"
abbreviation cr :: char where "cr \<equiv> CHR 0x0D"

definition MaxScanTokenSize :: nat where "MaxScanTokenSize = 65536"

definition drop_cr :: "string \<Rightarrow> string" where
  "drop_cr l = (if l \<noteq> [] \<and> last l = cr then butlast l else l)"

text \<open>The segments of the input: the text after the last newline counts when it is not empty.\<close>

definition raw_segments :: "string \<Rightarrow> string list" where
  "raw_segments s = (let ps = split_on newline s in if last ps = [] then butlast ps else ps)"

definition scan_lines :: "nat \<Rightarrow> string \<Rightarrow> string list \<times> bool" where
  "scan_lines limit s =
     (let raws = raw_segments s;
          fits = takeWhile (\<lambda>l. length l < limit) raws
      in (map drop_cr fits, length fits < length raws))"

definition unlines :: "string list \<Rightarrow> string" where
  "unlines ls = concat (map (\<lambda>l. l @ [newline]) ls)"

text \<open>The class \<^verbatim>\<open>\s\<close> of the regexp package has no vertical tab.\<close>

definition re_space :: "char \<Rightarrow> bool" where
  "re_space c \<longleftrightarrow> c = CHR 0x09 \<or> c = CHR 0x0A \<or> c = CHR 0x0C \<or> c = CHR 0x0D \<or> c = CHR '' ''"

definition path_base :: "string \<Rightarrow> string" where
  "path_base p =
     (let q = rev (dropWhile (\<lambda>c. c = CHR ''/'') (rev p))
      in if p = [] then ''.'' else if q = [] then ''/'' else last (split_on (CHR ''/'') q))"

section \<open>Lemmas\<close>

lemma split_unlines:
  "\<forall>l\<in>set ls. newline \<notin> set l \<Longrightarrow> split_on newline (unlines ls @ s) = ls @ split_on newline s"
  by (induction ls) (auto simp: unlines_def split_on_append)

lemma raw_segments_unlines:
  assumes "\<forall>l\<in>set ls. newline \<notin> set l"
  shows "raw_segments (unlines ls) = ls"
  using split_unlines [OF assms, of "[]"] by (simp add: raw_segments_def)

lemma drop_cr_id: "cr \<notin> set l \<Longrightarrow> drop_cr l = l"
  by (metis drop_cr_def last_in_set)

lemma takeWhile_all: "\<forall>x\<in>set xs. P x \<Longrightarrow> takeWhile P xs = xs"
  by (simp add: takeWhile_eq_all_conv)

lemma scan_unlines:
  assumes "\<forall>l\<in>set ls. newline \<notin> set l \<and> cr \<notin> set l \<and> length l < limit"
  shows "scan_lines limit (unlines ls) = (ls, False)"
proof -
  have "raw_segments (unlines ls) = ls" using assms by (auto intro: raw_segments_unlines)
  moreover have "map drop_cr ls = ls" using assms by (auto intro: map_idI drop_cr_id)
  ultimately show ?thesis using assms by (simp add: scan_lines_def takeWhile_all)
qed

lemma scan_lines_no_newline:
  assumes "l \<in> set (fst (scan_lines limit s))"
  shows "newline \<notin> set l"
proof -
  from assms obtain r where r: "r \<in> set (raw_segments s)" and l: "l = drop_cr r"
    by (auto simp: scan_lines_def Let_def dest: set_takeWhileD)
  from r have "r \<in> set (split_on newline s)"
    by (auto simp: raw_segments_def Let_def split: if_splits dest: in_set_butlastD)
  then have "newline \<notin> set r" by (rule split_on_elem)
  with l show ?thesis by (auto simp: drop_cr_def dest: in_set_butlastD)
qed

end
