(* ===== verification/Sysctl.thy ===== *)
theory Sysctl
  imports Comparisons Lines "HOL-Library.AList" "HOL-Library.Char_ord" "HOL-Library.List_Lexorder"
begin

text \<open>
  The analyzers of kernel parameters: \<^verbatim>\<open>sysctl.go\<close> (the nodes of a cluster), \<^verbatim>\<open>host_sysctl.go\<close> (a
  host) and the operators of \<^verbatim>\<open>comparison.go\<close>. A Go map of collected files or of nodes is an
  association list in the order the runtime happens to iterate it. The two regular expressions are
  modelled by the deterministic matchers they denote.
\<close>

type_synonym params = "string \<Rightarrow> string option"
type_synonym node_params = "(string \<times> params) list"

section \<open>Regular expressions\<close>

definition re_word :: "string \<Rightarrow> string \<times> string" where
  "re_word s = (takeWhile (\<lambda>c. \<not> re_space c) s, dropWhile (\<lambda>c. \<not> re_space c) s)"

text \<open>
  The tail \<^verbatim>\<open>\s+(.+)\<close>: the blanks are taken greedily and given back one by one until the rest starts
  with a character other than a newline.
\<close>

definition re_blanks_rest :: "string \<Rightarrow> string option" where
  "re_blanks_rest s =
     (let n = length (takeWhile re_space s);
          starts = filter (\<lambda>k. drop k s \<noteq> [] \<and> hd (drop k s) \<noteq> newline) (rev [1..<Suc n])
      in case starts of
           [] \<Rightarrow> None
         | k # _ \<Rightarrow> Some (takeWhile (\<lambda>c. c \<noteq> newline) (drop k s)))"

text \<open>
  \<^verbatim>\<open>([^\s]+)\s+([><=]=*)\s+(.+)\<close>: a match attempt at one position, then the leftmost position that
  matches.
\<close>

definition sysctl_when_at :: "string \<Rightarrow> (string \<times> string \<times> string) option" where
  "sysctl_when_at s =
     (case re_word s of (param, rest) \<Rightarrow>
        if param = [] \<or> takeWhile re_space rest = [] then None
        else case dropWhile re_space rest of
               [] \<Rightarrow> None
             | c # t \<Rightarrow>
                 if c \<notin> {CHR ''>'', CHR ''<'', CHR ''=''} then None
                 else map_option (\<lambda>v. (param, c # takeWhile (\<lambda>d. d = CHR ''='') t, v))
                        (re_blanks_rest (dropWhile (\<lambda>d. d = CHR ''='') t)))"

fun sysctl_when_rx :: "string \<Rightarrow> (string \<times> string \<times> string) option" where
  "sysctl_when_rx [] = None"
| "sysctl_when_rx (c # s) =
     (case sysctl_when_at (c # s) of Some m \<Rightarrow> Some m | None \<Rightarrow> sysctl_when_rx s)"

text \<open>\<^verbatim>\<open>(^[^\s]+)\s=\s(.+)\<close>, on one line.\<close>

definition sysctl_param_rx :: "string \<Rightarrow> (string \<times> string) option" where
  "sysctl_param_rx s =
     (case re_word s of (param, rest) \<Rightarrow>
        if param = [] then None
        else case rest of
               a # b # c # v \<Rightarrow>
                 let val = takeWhile (\<lambda>d. d \<noteq> newline) v in
                 if re_space a \<and> b = CHR ''='' \<and> re_space c \<and> val \<noteq> [] then Some (param, val) else None
             | _ \<Rightarrow> None)"

section \<open>The analyzer of a cluster\<close>

definition param_key :: "string \<Rightarrow> string" where
  "param_key path = join_with ''.'' (split_on (CHR ''/'') (trim_prefix ''/proc/sys/'' path))"

definition parse_line :: "params \<Rightarrow> string \<Rightarrow> params" where
  "parse_line parsed l =
     (case sysctl_param_rx l of None \<Rightarrow> parsed | Some (k, v) \<Rightarrow> parsed(param_key k \<mapsto> v))"

text \<open>A line the scanner cannot hold ends the scan without an error.\<close>

definition parse_sysctl_parameters :: "string \<Rightarrow> params" where
  "parse_sysctl_parameters parameters =
     foldl parse_line Map.empty (fst (scan_lines MaxScanTokenSize parameters))"

definition int_switch :: "string \<Rightarrow> int \<Rightarrow> int \<Rightarrow> bool" where
  "int_switch operator a v =
     (if operator = ''<'' then a < v else if operator = ''<='' then a \<le> v
      else if operator = ''>'' then a > v else a \<ge> v)"

text \<open>One round of the loop over the nodes: a map read with a missing key gives the empty string.\<close>

definition sysctl_node_holds :: "string \<Rightarrow> string \<Rightarrow> string \<Rightarrow> string \<Rightarrow> params \<Rightarrow> bool res" where
  "sysctl_node_holds w param operator val ps =
     (if operator \<in> {''='', ''=='', ''===''}
      then Ok (case ps param of None \<Rightarrow> False | Some nv \<Rightarrow> nv = trim_space val)
      else case parse_int (case ps param of None \<Rightarrow> [] | Some nv \<Rightarrow> nv) of
             Ok nv \<Rightarrow>
               (case parse_int (trim_space val) of
                  Ok v \<Rightarrow> Ok (int_switch operator nv v)
                | _ \<Rightarrow> Fail (Errf ''Failed to parse when %q'' [w]))
           | _ \<Rightarrow> Fail (Errf ''Failed to parse when %q'' [w]))"

fun sysctl_nodes :: "(params \<Rightarrow> bool res) \<Rightarrow> node_params \<Rightarrow> string list res" where
  "sysctl_nodes holds [] = Ok []"
| "sysctl_nodes holds ((n, ps) # np) =
     bind_res (holds ps) (\<lambda>b. bind_res (sysctl_nodes holds np) (\<lambda>ns. Ok (if b then n # ns else ns)))"

definition eval_sysctl_when :: "node_params \<Rightarrow> string \<Rightarrow> string list res" where
  "eval_sysctl_when np w =
     (case sysctl_when_rx w of
        None \<Rightarrow> Fail (Errf ''Failed to parse when %q'' [w])
      | Some (param, operator, val) \<Rightarrow>
          if operator \<in> {''='', ''=='', ''==='', ''<'', ''<='', ''>'', ''>=''}
          then map_res sort (sysctl_nodes (sysctl_node_holds w param operator val) np)
          else Fail (Errf ''Unknown operator %q'' [operator]))"

text \<open>Three independent tests set the flags; the last branch that is present is read.\<close>

definition sysctl_flags :: "outcome \<Rightarrow> analyze_result" where
  "sysctl_flags o' = (new_result [])\<lparr>is_pass := o_pass o' \<noteq> None, is_warn := o_warn o' \<noteq> None,
     is_fail := o_fail o' \<noteq> None\<rparr>"

definition sysctl_message :: "string list \<Rightarrow> string \<Rightarrow> string" where
  "sysctl_message nodes msg =
     (case nodes of
        [n] \<Rightarrow> ''Node '' @ n @ '': '' @ msg
      | _ \<Rightarrow> ''Nodes '' @ join_with '', '' nodes @ '': '' @ msg)"

definition eval_sysctl_outcome :: "node_params \<Rightarrow> outcome \<Rightarrow> analyze_result option res" where
  "eval_sysctl_outcome np o' =
     (case select_outcome o' of
        None \<Rightarrow> Panic ''nil pointer dereference''
      | Some (_, so) \<Rightarrow>
          if so_when so = [] then Ok (Some ((sysctl_flags o')\<lparr>message := so_message so\<rparr>))
          else bind_res (eval_sysctl_when np (so_when so)) (\<lambda>nodes.
            if nodes = [] then Ok None
            else Ok (Some ((sysctl_flags o')\<lparr>message := sysctl_message nodes (so_message so),
                             uri := so_uri so\<rparr>))))"

fun sysctl_loop :: "node_params \<Rightarrow> string \<Rightarrow> outcome list \<Rightarrow> analyze_result option res" where
  "sysctl_loop np check_name [] = Ok None"
| "sysctl_loop np check_name (o' # os) =
     bind_res (eval_sysctl_outcome np o') (\<lambda>r. case r of
       None \<Rightarrow> sysctl_loop np check_name os
     | Some r \<Rightarrow> Ok (Some (r\<lparr>title := (if check_name = [] then ''Sysctl'' else check_name)\<rparr>)))"

definition node_params_of :: "(string \<times> string) list \<Rightarrow> node_params" where
  "node_params_of files =
     foldl (\<lambda>np (f, c). AList.update (path_base f) (parse_sysctl_parameters c) np) [] files"

text \<open>
  \<^verbatim>\<open>errors.Wrap(err, ...)\<close> of a nil error is nil: when nothing was collected there is neither a result
  nor an error.
\<close>

definition analyze_sysctl ::
  "(string \<Rightarrow> string list \<Rightarrow> (string \<times> string) list res) \<Rightarrow> string \<Rightarrow> outcome list \<Rightarrow>
   analyze_result option res" where
  "analyze_sysctl find_files check_name outcomes =
     bind_res (wrap_res ''failed to find collected sysctl parameters'' (find_files ''sysctl/*'' []))
       (\<lambda>files. if files = [] then Ok None
                else sysctl_loop (node_params_of files) check_name outcomes)"

definition sysctl_Analyze ::
  "(string \<Rightarrow> string list \<Rightarrow> (string \<times> string) list res) \<Rightarrow> string \<Rightarrow> bool \<Rightarrow> outcome list \<Rightarrow>
   analyze_result list res" where
  "sysctl_Analyze find_files check_name is_strict outcomes =
     map_res (\<lambda>r. case r of None \<Rightarrow> [] | Some r \<Rightarrow> [r\<lparr>strict := is_strict\<rparr>])
       (analyze_sysctl find_files check_name outcomes)"

section \<open>The analyzer of a host\<close>

datatype comparison_operator =
  Unknown | Equal | NotEqual | GreaterThan | GreaterThanOrEqual | LessThan | LessThanOrEqual

definition parse_comparison_operator :: "string \<Rightarrow> comparison_operator res" where
  "parse_comparison_operator s =
     (if s \<in> {''='', ''=='', ''===''} then Ok Equal
      else if s \<in> {''!='', ''!==''} then Ok NotEqual
      else if s = ''<'' then Ok LessThan
      else if s = ''>'' then Ok GreaterThan
      else if s = ''<='' then Ok LessThanOrEqual
      else if s = ''>='' then Ok GreaterThanOrEqual
      else Fail (Errf ''unknown operator: %s'' [s]))"

definition compare_host_sysctl :: "string \<Rightarrow> params \<Rightarrow> bool res" where
  "compare_host_sysctl w sysctl =
     (case sysctl_when_rx w of
        None \<Rightarrow> Fail (Errf ''expected 3 parts in when %q'' [w])
      | Some (param, op_string, expected) \<Rightarrow>
          bind_res (wrap_res (''failed to parse comparison operator '' @ quoted op_string)
                      (parse_comparison_operator op_string)) (\<lambda>operator.
            case sysctl param of
              None \<Rightarrow> Fail (Errf ''kernel parameter %q does not exist on collected sysctl output'' [param])
            | Some actual \<Rightarrow>
                if operator = Equal then Ok (expected = actual)
                else case atoi actual of
                       Panic m \<Rightarrow> Panic m
                     | Fail _ \<Rightarrow> Fail (Errf ''collected sysctl param %q has value %q, cannot be used with provided operator %q''
                                        [param, actual, op_string])
                     | Ok a \<Rightarrow>
                         (case atoi expected of
                            Panic m \<Rightarrow> Panic m
                          | Fail _ \<Rightarrow> Fail (Errf ''expected value for sysctl param %q has value %q, cannot be used with provided operator %q''
                                             [param, expected, op_string])
                          | Ok v \<Rightarrow>
                              (case operator of
                                 LessThan \<Rightarrow> Ok (a < v)
                               | LessThanOrEqual \<Rightarrow> Ok (a \<le> v)
                               | GreaterThan \<Rightarrow> Ok (a > v)
                               | GreaterThanOrEqual \<Rightarrow> Ok (a \<ge> v)
                               | _ \<Rightarrow> Fail (Errf ''unsupported operator %q'' [op_string])))))"

definition host_sysctl_check_condition :: "(string \<Rightarrow> params res) \<Rightarrow> string \<Rightarrow> string \<Rightarrow> bool res" where
  "host_sysctl_check_condition unmarshal w data =
     bind_res (wrap_res ''failed to unmarshal data'' (unmarshal data)) (compare_host_sysctl w)"

definition host_sysctl_Analyze ::
  "(string \<Rightarrow> params res) \<Rightarrow> (string \<Rightarrow> string list res) \<Rightarrow> (string \<Rightarrow> string res) \<Rightarrow> string \<Rightarrow>
   outcome list \<Rightarrow> analyze_result list res" where
  "host_sysctl_Analyze unmarshal um_nodes get check_name outcomes =
     bind_res (retrieve_collected_contents um_nodes get ''host-collectors/system/sysctl.json''
                 ''host-collectors/system'' ''sysctl.json'') (\<lambda>contents.
       wrap_res ''failed to analyze sysctl output''
         (analyze_host_collector_results contents outcomes (host_sysctl_check_condition unmarshal)
            (host_analyzer_title_or_default check_name ''Sysctl'')))"

section \<open>Lemmas\<close>

abbreviation plain_word :: "string \<Rightarrow> bool" where
  "plain_word w \<equiv> w \<noteq> [] \<and> (\<forall>c\<in>set w. \<not> re_space c)"

lemma re_space_blank [simp]: "re_space (CHR '' '')"
  by (simp add: re_space_def)

lemma re_word_append:
  assumes "\<forall>c\<in>set w. \<not> re_space c" and "re_space b"
  shows "re_word (w @ b # s) = (w, b # s)"
  using assms by (induction w) (auto simp: re_word_def)

lemma re_blanks_rest_word:
  assumes "v \<noteq> []" "\<not> re_space (hd v)" "newline \<notin> set v"
  shows "re_blanks_rest (CHR '' '' # v) = Some v"
proof -
  obtain c t where v: "v = c # t" using assms(1) by (cases v) auto
  with assms have c: "\<not> re_space c" "c \<noteq> newline" by auto
  have "takeWhile (\<lambda>c. c \<noteq> newline) v = v" using assms(3) by (induction v) auto
  then show ?thesis using c by (simp add: re_blanks_rest_def v)
qed

definition sysctl_operators :: "string set" where
  "sysctl_operators = {''='', ''=='', ''==='', ''<'', ''<='', ''>'', ''>=''}"

lemma sysctl_operator_shape:
  "operator \<in> sysctl_operators \<Longrightarrow>
   \<exists>c t. operator = c # t \<and> c \<in> {CHR ''>'', CHR ''<'', CHR ''=''} \<and> (\<forall>d\<in>set t. d = CHR ''='')"
  unfolding sysctl_operators_def by (elim insertE emptyE; hypsubst; simp)

lemma sysctl_when_at_sentence:
  assumes "plain_word param" "c \<in> {CHR ''>'', CHR ''<'', CHR ''=''}" "\<forall>d\<in>set t. d = CHR ''=''"
    and v: "v \<noteq> []" "\<not> re_space (hd v)" "newline \<notin> set v"
  shows "sysctl_when_at (param @ CHR '' '' # (c # t) @ CHR '' '' # v) = Some (param, c # t, v)"
proof -
  have w: "re_word (param @ CHR '' '' # (c # t) @ CHR '' '' # v) = (param, CHR '' '' # (c # t) @ CHR '' '' # v)"
    using assms(1) by (simp add: re_word_append)
  have c: "\<not> re_space c" using assms(2) by (auto simp: re_space_def)
  have t: "takeWhile (\<lambda>d. d = CHR ''='') (t @ CHR '' '' # v) = t"
    "dropWhile (\<lambda>d. d = CHR ''='') (t @ CHR '' '' # v) = CHR '' '' # v"
    using assms(3) by (induction t) auto
  show ?thesis
    unfolding sysctl_when_at_def w
    using assms(1,2) c t re_blanks_rest_word [OF v] by simp
qed

lemma sysctl_when_rx_first: "s \<noteq> [] \<Longrightarrow> sysctl_when_at s = Some m \<Longrightarrow> sysctl_when_rx s = Some m"
  by (cases s) simp_all

lemma sysctl_when_sentence:
  assumes "plain_word param" "operator \<in> sysctl_operators"
    and v: "v \<noteq> []" "\<not> re_space (hd v)" "newline \<notin> set v"
  shows "sysctl_when_rx (sentence [param, operator, v]) = Some (param, operator, v)"
proof -
  obtain c t where op: "operator = c # t" "c \<in> {CHR ''>'', CHR ''<'', CHR ''=''}" "\<forall>d\<in>set t. d = CHR ''=''"
    using sysctl_operator_shape [OF assms(2)] by blast
  have s: "sentence [param, operator, v] = param @ CHR '' '' # (c # t) @ CHR '' '' # v"
    by (simp add: sentence_def op(1))
  show ?thesis
    unfolding op(1) s [unfolded op(1)] using sysctl_when_at_sentence [OF assms(1) op(2,3) v]
    by (intro sysctl_when_rx_first) simp_all
qed

lemma int_switch_switch_op:
  "operator \<in> sysctl_operators \<Longrightarrow> operator \<notin> {''='', ''=='', ''===''} \<Longrightarrow>
   switch_op operator a v = Some (int_switch operator a v)"
  by (auto simp: sysctl_operators_def switch_op_def int_switch_def)

lemma sysctl_operator_known: "operator \<in> sysctl_operators \<Longrightarrow> \<exists>b. switch_op operator a v = Some b"
  unfolding sysctl_operators_def by (elim insertE emptyE; hypsubst; simp add: switch_op_def)

lemma show_int_value:
  "\<not> re_space (hd (show_int v))" "newline \<notin> set (show_int v)"
proof -
  have "\<not> is_space (hd (show_int v))" by (rule show_int_no_space [of _ v]) simp
  then show "\<not> re_space (hd (show_int v))" by (auto simp: re_space_def is_space_def)
  show "newline \<notin> set (show_int v)"
    using show_int_no_space [of newline v] by (auto simp: is_space_def)
qed

lemma node_holds_int:
  assumes "ps param = Some (show_int a)" "in_int64 a" "in_int64 v" "operator \<in> sysctl_operators"
  shows "sysctl_node_holds w param operator (show_int v) ps = Ok (the (switch_op operator a v))"
proof (cases "operator \<in> {''='', ''=='', ''===''}")
  case True
  with assms show ?thesis
    by (auto simp: sysctl_node_holds_def show_int_inject switch_op_def)
next
  case False
  with assms int_switch_switch_op [OF assms(4) False] show ?thesis
    by (simp add: sysctl_node_holds_def go_simps)
qed

lemma host_holds_int:
  assumes "ps param = Some (show_int a)" "in_int64 a" "in_int64 v" "operator \<in> sysctl_operators"
    and "plain_word param"
  shows "compare_host_sysctl (sentence [param, operator, show_int v]) ps = Ok (the (switch_op operator a v))"
proof -
  note rx = sysctl_when_sentence [OF assms(5,4) show_int_not_Nil show_int_value]
  from assms(4) show ?thesis
    using show_int_inject [OF assms(2,3)] show_int_inject [OF assms(3,2)]
    by (auto simp: compare_host_sysctl_def rx sysctl_operators_def parse_comparison_operator_def assms go_simps
        switch_op_def)
qed

text \<open>A round of the node loop fails, if it fails, with an error that does not depend on the node.\<close>

lemma node_holds_fail:
  "sysctl_node_holds w param operator val ps = Fail e \<Longrightarrow> e = Errf ''Failed to parse when %q'' [w]"
  by (auto simp: sysctl_node_holds_def split: if_splits res.splits)

lemma node_holds_no_panic: "sysctl_node_holds w param operator val ps \<noteq> Panic m"
  by (auto simp: sysctl_node_holds_def split: res.splits)

lemma sysctl_nodes_eq:
  assumes "\<And>ps e'. holds ps = Fail e' \<Longrightarrow> e' = e" and "\<And>ps m. holds ps \<noteq> Panic m"
  shows "sysctl_nodes holds np =
    (if \<forall>x\<in>set np. is_ok (holds (snd x)) then Ok (map fst (filter (\<lambda>x. holds (snd x) = Ok True) np))
     else Fail e)"
proof (induction np)
  case (Cons x np)
  obtain n ps where x: "x = (n, ps)" by force
  show ?case
  proof (cases "holds ps")
    case (Ok b)
    then show ?thesis using Cons.IH by (auto simp: x)
  next
    case (Fail e')
    with assms(1) show ?thesis by (simp add: x)
  next
    case (Panic m)
    with assms(2) show ?thesis by simp
  qed
qed simp

lemma sort_mset_eq: "mset (xs :: string list) = mset ys \<Longrightarrow> sort xs = sort ys"
  by (metis mset_sort properties_for_sort sorted_sort)

lemma sysctl_nodes_perm:
  assumes "mset np = mset np'"
  shows "map_res sort (sysctl_nodes (sysctl_node_holds w param operator val) np) =
         map_res sort (sysctl_nodes (sysctl_node_holds w param operator val) np')"
proof -
  let ?h = "sysctl_node_holds w param operator val"
  have eq: "sysctl_nodes ?h xs =
    (if \<forall>x\<in>set xs. is_ok (?h (snd x)) then Ok (map fst (filter (\<lambda>x. ?h (snd x) = Ok True) xs))
     else Fail (Errf ''Failed to parse when %q'' [w]))" for xs
    by (rule sysctl_nodes_eq) (auto dest: node_holds_fail simp: node_holds_no_panic)
  have sets: "set np = set np'" using assms by (metis set_mset_mset)
  have "mset (map fst (filter (\<lambda>x. ?h (snd x) = Ok True) np)) =
      mset (map fst (filter (\<lambda>x. ?h (snd x) = Ok True) np'))"
    by (simp add: assms)
  then have sorted: "sort (map fst (filter (\<lambda>x. ?h (snd x) = Ok True) np)) =
      sort (map fst (filter (\<lambda>x. ?h (snd x) = Ok True) np'))"
    by (rule sort_mset_eq)
  show ?thesis
    unfolding eq sets by (simp only: sorted if_distrib [of "map_res sort"] map_res.simps)
qed

lemma eval_sysctl_when_perm:
  assumes "mset np = mset np'"
  shows "eval_sysctl_when np w = eval_sysctl_when np' w"
  unfolding eval_sysctl_when_def
  by (simp add: sysctl_nodes_perm [OF assms] split: option.split prod.split)

lemma sysctl_loop_perm:
  assumes "mset np = mset np'"
  shows "sysctl_loop np check_name os = sysctl_loop np' check_name os"
proof -
  have "eval_sysctl_outcome np o' = eval_sysctl_outcome np' o'" for o'
    by (simp only: eval_sysctl_outcome_def eval_sysctl_when_perm [OF assms])
  then show ?thesis by (induction os) (simp_all cong: option.case_cong)
qed

lemma update_fresh: "n \<notin> fst ` set np \<Longrightarrow> AList.update n ps np = np @ [(n, ps)]"
  by (induction np) auto

lemma node_params_distinct:
  assumes "distinct (map (path_base \<circ> fst) files)"
  shows "node_params_of files = map (\<lambda>(f, c). (path_base f, parse_sysctl_parameters c)) files"
proof -
  have "foldl (\<lambda>np (f, c). AList.update (path_base f) (parse_sysctl_parameters c) np) np files =
      np @ map (\<lambda>(f, c). (path_base f, parse_sysctl_parameters c)) files"
    if "distinct (map (path_base \<circ> fst) files)" "fst ` set np \<inter> (path_base \<circ> fst) ` set files = {}" for np
    using that
  proof (induction files arbitrary: np)
    case (Cons fc files)
    obtain f c where fc: "fc = (f, c)" by force
    have "AList.update (path_base f) (parse_sysctl_parameters c) np = np @ [(path_base f, parse_sysctl_parameters c)]"
      using Cons.prems by (auto simp: fc update_fresh)
    with Cons show ?case by (auto simp: fc)
  qed simp
  from this [of "[]"] assms show ?thesis by (simp add: node_params_of_def)
qed

interpretation sysctl_outcomes: outcome_loop
  "sysctl_loop np check_name"
  "\<lambda>o'. map_res (map_option (\<lambda>r. Some (r\<lparr>title := (if check_name = [] then ''Sysctl'' else check_name)\<rparr>)))
     (eval_sysctl_outcome np o')" "Ok None"
  for np check_name
proof
  fix x xs
  show "sysctl_loop np check_name (x # xs) =
    bind_res (map_res (map_option (\<lambda>r. Some (r\<lparr>title := (if check_name = [] then ''Sysctl'' else check_name)\<rparr>)))
       (eval_sysctl_outcome np x))
      (\<lambda>d. case d of None \<Rightarrow> sysctl_loop np check_name xs | Some r \<Rightarrow> Ok r)"
    by (cases "eval_sysctl_outcome np x") (auto split: option.splits)
qed simp

section \<open>The lines of a node\<close>

lemma sysctl_param_line:
  assumes "plain_word path" "v \<noteq> []" "newline \<notin> set v"
  shows "sysctl_param_rx (path @ CHR '' '' # CHR ''='' # CHR '' '' # v) = Some (path, v)"
proof -
  have "\<forall>c\<in>set v. c \<noteq> newline" using assms(3) by auto
  with assms show ?thesis by (simp add: sysctl_param_rx_def re_word_append takeWhile_all Let_def)
qed

definition sysctl_path :: "string list \<Rightarrow> string" where
  "sysctl_path segs = ''/proc/sys/'' @ join_with ''/'' segs"

definition sysctl_line :: "string list \<times> string \<Rightarrow> string" where
  "sysctl_line e = sysctl_path (fst e) @ '' = '' @ snd e"

definition sysctl_entry :: "string list \<times> string \<Rightarrow> bool" where
  "sysctl_entry e \<longleftrightarrow> fst e \<noteq> [] \<and> (\<forall>seg\<in>set (fst e). CHR ''/'' \<notin> set seg \<and> (\<forall>c\<in>set seg. \<not> re_space c)) \<and>
     snd e \<noteq> [] \<and> newline \<notin> set (snd e) \<and> cr \<notin> set (snd e) \<and> length (sysctl_line e) < MaxScanTokenSize"

lemma sysctl_path_word:
  assumes "\<forall>seg\<in>set segs. \<forall>c\<in>set seg. \<not> re_space c"
  shows "plain_word (sysctl_path segs)"
proof -
  have "\<forall>c\<in>set (join_with ''/'' segs). \<not> re_space c"
    using set_join_with [of "''/''" segs] assms by (fastforce simp: re_space_def)
  then show ?thesis by (auto simp: sysctl_path_def re_space_def)
qed

lemma param_key_path:
  "segs \<noteq> [] \<Longrightarrow> \<forall>seg\<in>set segs. CHR ''/'' \<notin> set seg \<Longrightarrow>
   param_key (sysctl_path segs) = join_with ''.'' segs"
  by (simp add: param_key_def sysctl_path_def trim_prefix_def split_join)

lemma parse_sysctl_line:
  assumes "sysctl_entry e"
  shows "parse_line m (sysctl_line e) = m(join_with ''.'' (fst e) \<mapsto> snd e)"
  using assms sysctl_path_word [of "fst e"]
  by (simp add: parse_line_def sysctl_line_def sysctl_entry_def sysctl_param_line param_key_path)

lemma sysctl_line_plain:
  assumes "sysctl_entry e"
  shows "newline \<notin> set (sysctl_line e)" "cr \<notin> set (sysctl_line e)"
  using assms sysctl_path_word [of "fst e"]
  by (auto simp: sysctl_line_def sysctl_entry_def re_space_def)

definition one_branch :: "outcome \<Rightarrow> bool" where
  "one_branch o' \<longleftrightarrow> (\<exists>so. o' \<in> {\<lparr>o_fail = Some so, o_warn = None, o_pass = None\<rparr>,
      \<lparr>o_fail = None, o_warn = Some so, o_pass = None\<rparr>, \<lparr>o_fail = None, o_warn = None, o_pass = Some so\<rparr>})"

lemma sysctl_flags_one_branch: "one_branch o' \<Longrightarrow> is_verdict (sysctl_flags o')"
  by (auto simp: one_branch_def sysctl_flags_def new_result_def is_verdict_def)

lemma eval_sysctl_verdict:
  assumes "one_branch o'" and "eval_sysctl_outcome np o' = Ok (Some r)"
  shows "is_verdict r"
  using assms(2) sysctl_flags_one_branch [OF assms(1)]
  by (auto simp: eval_sysctl_outcome_def res_simps split: option.splits if_splits)

lemma sysctl_loop_verdict:
  assumes "\<forall>o'\<in>set os. one_branch o'" and "sysctl_loop np check_name os = Ok (Some r)"
  shows "is_verdict r"
  using assms
proof (induction os)
  case (Cons o' os)
  then obtain d where d: "eval_sysctl_outcome np o' = Ok d" by (auto simp: res_simps)
  show ?case
  proof (cases d)
    case None
    with d Cons show ?thesis by simp
  next
    case (Some r')
    with d Cons.prems eval_sysctl_verdict [of o' np r'] show ?thesis by auto
  qed
qed simp

section \<open>Properties\<close>

text \<open>
  The two analyzers of kernel parameters agree on integers: for a parameter that holds the decimal
  number \<open>a\<close> and a condition with one of the seven operators and the number \<open>v\<close>, the host analyzer answers
  the integer comparison and the cluster analyzer lists the node exactly when it holds.
\<close>

theorem sysctl_analyzers_agree:
  assumes "ps param = Some (show_int a)" and "in_int64 a" and "in_int64 v"
    and "operator \<in> sysctl_operators" and "plain_word param"
  shows "\<exists>b. switch_op operator a v = Some b \<and>
           compare_host_sysctl (sentence [param, operator, show_int v]) ps = Ok b \<and>
           eval_sysctl_when [(n, ps)] (sentence [param, operator, show_int v]) = Ok (if b then [n] else [])"
proof -
  note rx = sysctl_when_sentence [OF assms(5,4) show_int_not_Nil show_int_value]
  obtain b where known: "switch_op operator a v = Some b"
    using sysctl_operator_known [OF assms(4)] by blast
  have ops: "operator \<in> {''='', ''=='', ''==='', ''<'', ''<='', ''>'', ''>=''}"
    using assms(4) unfolding sysctl_operators_def .
  have "eval_sysctl_when [(n, ps)] (sentence [param, operator, show_int v]) =
      Ok (if the (switch_op operator a v) then [n] else [])"
    unfolding eval_sysctl_when_def rx using ops node_holds_int [where ps = ps, OF assms(1-4)] by simp
  then show ?thesis
    using host_holds_int [where ps = ps, OF assms] unfolding known option.sel by blast
qed

theorem sysctl_analyzers_agree_witness:
  "compare_host_sysctl ''vm.max >= 7'' [''vm.max'' \<mapsto> ''12''] = Ok True \<and>
   eval_sysctl_when [(''n1'', [''vm.max'' \<mapsto> ''12''])] ''vm.max >= 7'' = Ok [''n1'']"
proof -
  have s: "show_int 12 = ''12''" "show_int 7 = ''7''" by (simp_all add: show_number)
  have "\<exists>b. switch_op ''>='' 12 7 = Some b \<and>
     compare_host_sysctl (sentence [''vm.max'', ''>='', show_int 7]) [''vm.max'' \<mapsto> ''12''] = Ok b \<and>
     eval_sysctl_when [(''n1'', [''vm.max'' \<mapsto> ''12''])] (sentence [''vm.max'', ''>='', show_int 7]) =
       Ok (if b then [''n1''] else [])"
    by (rule sysctl_analyzers_agree) (simp_all add: s in_int64_def sysctl_operators_def re_space_def)
  then show ?thesis by (auto simp: switch_op_def s sentence_def)
qed

text \<open>
  The answer of the cluster analyzer does not depend on the order in which Go iterates its maps:
  any two orders of the same collected files, of nodes with different names, give the same results, errors
  included.
\<close>

theorem sysctl_order_irrelevant:
  assumes "mset files = mset files'" and "distinct (map (path_base \<circ> fst) files)"
  shows "sysctl_Analyze (\<lambda>_ _. Ok files) check_name st os = sysctl_Analyze (\<lambda>_ _. Ok files') check_name st os"
proof -
  have "mset (map (path_base \<circ> fst) files') = mset (map (path_base \<circ> fst) files)" using assms(1) by simp
  then have d: "distinct (map (path_base \<circ> fst) files')" using assms(2) by (metis mset_eq_imp_distinct_iff)
  have "mset (node_params_of files) = mset (node_params_of files')"
    unfolding node_params_distinct [OF assms(2)] node_params_distinct [OF d] using assms(1) by simp
  from sysctl_loop_perm [OF this] have "sysctl_loop (node_params_of files) check_name os =
      sysctl_loop (node_params_of files') check_name os" .
  moreover have "files = [] \<longleftrightarrow> files' = []" using assms(1) by (metis mset_zero_iff)
  ultimately show ?thesis by (simp add: sysctl_Analyze_def analyze_sysctl_def)
qed

theorem sysctl_order_irrelevant_witness:
  "\<forall>os. sysctl_Analyze (\<lambda>_ _. Ok [(''sysctl/a'', ''x = 1''), (''sysctl/b'', ''x = 1'')]) [] False os =
   sysctl_Analyze (\<lambda>_ _. Ok [(''sysctl/b'', ''x = 1''), (''sysctl/a'', ''x = 1'')]) [] False os"
proof
  have d: "distinct (map (path_base \<circ> fst) [(''sysctl/a'', ''x = 1''), (''sysctl/b'', ''x = 1'')])"
    by code_simp
  show "sysctl_Analyze (\<lambda>_ _. Ok [(''sysctl/a'', ''x = 1''), (''sysctl/b'', ''x = 1'')]) [] False os =
   sysctl_Analyze (\<lambda>_ _. Ok [(''sysctl/b'', ''x = 1''), (''sysctl/a'', ''x = 1'')]) [] False os" for os
    by (rule sysctl_order_irrelevant [OF _ d]) simp
qed

text \<open>
  Reading back what the collector wrote: the lines \<^verbatim>\<open>/proc/sys/a/b/c = value\<close> of a node give the map from
  the dotted names to the values, the last line of a name winning.
\<close>

theorem sysctl_parameters_roundtrip:
  assumes "\<forall>e\<in>set es. sysctl_entry e"
  shows "parse_sysctl_parameters (unlines (map sysctl_line es)) =
         map_of (rev (map (\<lambda>e. (join_with ''.'' (fst e), snd e)) es))"
proof -
  have "scan_lines MaxScanTokenSize (unlines (map sysctl_line es)) = (map sysctl_line es, False)"
    by (rule scan_unlines) (use assms sysctl_line_plain in \<open>auto simp: sysctl_entry_def\<close>)
  moreover have "foldl parse_line m (map sysctl_line es) =
      m ++ map_of (rev (map (\<lambda>e. (join_with ''.'' (fst e), snd e)) es))" for m
    using assms by (induction es arbitrary: m) (auto simp: parse_sysctl_line fun_eq_iff map_add_def split: option.splits)
  ultimately show ?thesis by (simp add: parse_sysctl_parameters_def)
qed

theorem sysctl_parameters_roundtrip_witness:
  "parse_sysctl_parameters (unlines [''/proc/sys/net/ipv4/ip_forward = 1'', ''/proc/sys/vm/x = 2 3'']) ''vm.x'' = Some ''2 3''"
proof -
  let ?es = "[([''net'', ''ipv4'', ''ip_forward''], ''1''), ([''vm'', ''x''], ''2 3'')]"
  have "\<forall>e\<in>set ?es. sysctl_entry e"
    by (simp add: sysctl_entry_def sysctl_line_def sysctl_path_def MaxScanTokenSize_def re_space_def)
  from sysctl_parameters_roundtrip [OF this] show ?thesis
    by (simp add: sysctl_line_def sysctl_path_def)
qed

text \<open>
  When every outcome has exactly one branch the analyzer gives at most one result, a verdict with the
  strictness of the spec, and does not panic. When no parameters were collected it gives no result and no
  error: the error it wraps for that case is nil.
\<close>

theorem sysctl_verdict_or_silence:
  assumes "\<forall>o'\<in>set os. one_branch o'"
  shows "(sysctl_Analyze ff check_name st os = Ok rs \<longrightarrow>
            rs = [] \<or> (\<exists>r. rs = [r] \<and> is_verdict r \<and> strict r = st)) \<and>
         (ff ''sysctl/*'' [] = Ok [] \<longrightarrow> sysctl_Analyze ff check_name st os = Ok [])"
proof (intro conjI impI)
  assume "sysctl_Analyze ff check_name st os = Ok rs"
  then obtain d where d: "analyze_sysctl ff check_name os = Ok d"
    and rs: "rs = (case d of None \<Rightarrow> [] | Some r \<Rightarrow> [r\<lparr>strict := st\<rparr>])"
    by (auto simp: sysctl_Analyze_def res_simps)
  show "rs = [] \<or> (\<exists>r. rs = [r] \<and> is_verdict r \<and> strict r = st)"
  proof (cases d)
    case (Some r)
    with d obtain np where "sysctl_loop np check_name os = Ok (Some r)"
      by (auto simp: analyze_sysctl_def res_simps split: if_splits)
    with sysctl_loop_verdict [OF assms] rs Some show ?thesis by simp
  qed (simp add: rs)
next
  assume "ff ''sysctl/*'' [] = Ok []"
  then show "sysctl_Analyze ff check_name st os = Ok []"
    by (simp add: sysctl_Analyze_def analyze_sysctl_def)
qed

theorem sysctl_verdict_or_silence_witness:
  "sysctl_Analyze (\<lambda>_ _. Ok []) [] False
     [\<lparr>o_fail = None, o_warn = None, o_pass = Some \<lparr>so_when = [], so_message = ''ok'', so_uri = []\<rparr>\<rparr>] = Ok []"
  by (rule sysctl_verdict_or_silence [THEN conjunct2, rule_format]) (simp_all add: one_branch_def)

end
