(* ===== verification/Host_Devices.thy ===== *)
theory Host_Devices
  imports Host_Resources
begin

text \<open>
  The host analyzers of services (\<^verbatim>\<open>host_services.go\<close>), kernel modules (\<^verbatim>\<open>host_kernel_modules.go\<close>), block
  devices (\<^verbatim>\<open>host_block_devices.go\<close>) and of the two collectors whose status is compared as text
  (\<^verbatim>\<open>host_tcp_connect.go\<close>, \<^verbatim>\<open>host_subnetavailable.go\<close>). The JSON decoder and the regular expression of a
  block device condition are parameters.
\<close>

section \<open>Services\<close>

record service_info =
  unit_name :: string
  load_state :: string
  active_state :: string
  sub_state :: string

definition is_service_match :: "string \<Rightarrow> string \<Rightarrow> bool" where
  "is_service_match service_name match_name \<longleftrightarrow>
     service_name = match_name \<or> has_prefix match_name service_name"

definition wildcard :: "string \<Rightarrow> bool" where
  "wildcard m \<longleftrightarrow> m = [] \<or> m = ''*''"

definition service_params :: "string \<Rightarrow> string \<times> string \<times> string" where
  "service_params desired =
     (case split_on (CHR '','') desired of
        [] \<Rightarrow> ([], [], [])
      | [a] \<Rightarrow> (a, [], [])
      | [a, s] \<Rightarrow> (a, s, [])
      | a # s # l # _ \<Rightarrow> (a, s, l))"

definition service_equal :: "string \<times> string \<times> string \<Rightarrow> service_info \<Rightarrow> bool" where
  "service_equal m s =
     (case m of (a, b, l) \<Rightarrow>
        (wildcard a \<or> a = active_state s) \<and> (wildcard b \<or> b = sub_state s) \<and> (wildcard l \<or> l = load_state s))"

definition service_differs :: "string \<times> string \<times> string \<Rightarrow> service_info \<Rightarrow> bool" where
  "service_differs m s =
     (case m of (a, b, l) \<Rightarrow>
        (\<not> wildcard a \<and> a \<noteq> active_state s) \<or> (\<not> wildcard b \<and> b \<noteq> sub_state s) \<or>
        (\<not> wildcard l \<and> l \<noteq> load_state s))"

text \<open>The loop returns at the first service whose name matches.\<close>

fun service_loop :: "(service_info \<Rightarrow> bool) \<Rightarrow> string \<Rightarrow> service_info list \<Rightarrow> bool" where
  "service_loop judge name [] = False"
| "service_loop judge name (s # ss) =
     (if is_service_match (unit_name s) name then judge s else service_loop judge name ss)"

definition compare_host_services_conditional_to_actual :: "string \<Rightarrow> service_info list \<Rightarrow> bool res" where
  "compare_host_services_conditional_to_actual conditional services =
     (case split_on (CHR '' '') conditional of
        [name, operator, desired] \<Rightarrow>
          if operator \<in> {''='', ''==''}
          then Ok (service_loop (service_equal (service_params desired)) name services)
          else if operator \<in> {''!='', ''<>''}
          then Ok (service_loop (service_differs (service_params desired)) name services)
          else Fail (Errf ''unexpected operator %q'' [operator])
      | parts \<Rightarrow> Fail (Errf ''expected exactly 3 parts, got %d'' [show_nat (length parts)]))"

definition services_check_condition :: "(string \<Rightarrow> service_info list res) \<Rightarrow> string \<Rightarrow> string \<Rightarrow> bool res" where
  "services_check_condition unmarshal w data =
     bind_res (wrap_res ''failed to unmarshal data into ServiceInfo'' (unmarshal data))
       (compare_host_services_conditional_to_actual w)"

definition host_services_Analyze ::
  "(string \<Rightarrow> service_info list res) \<Rightarrow> (string \<Rightarrow> string list res) \<Rightarrow> get_file \<Rightarrow> string \<Rightarrow> outcome list \<Rightarrow>
   analyze_result list res" where
  "host_services_Analyze unmarshal um_nodes get check_name outcomes =
     host_Analyze um_nodes get ''host-collectors/system/systemctl_services.json'' NodeInfoBaseDir
       ''systemctl_services.json'' outcomes (services_check_condition unmarshal)
       (host_analyzer_title_or_default check_name ''Host Services'') ''failed to analyze host services''"

section \<open>Kernel modules\<close>

text \<open>The collected map from module names to their status.\<close>

type_synonym kernel_modules = "string \<Rightarrow> string option"

fun modules_equal :: "kernel_modules \<Rightarrow> string list \<Rightarrow> string list \<Rightarrow> bool" where
  "modules_equal modules statuses [] = True"
| "modules_equal modules statuses (n # ns) =
     (case modules n of
        None \<Rightarrow> False
      | Some st \<Rightarrow> if st \<in> set statuses then modules_equal modules statuses ns else False)"

fun modules_differ :: "kernel_modules \<Rightarrow> string list \<Rightarrow> string list \<Rightarrow> bool" where
  "modules_differ modules statuses [] = True"
| "modules_differ modules statuses (n # ns) =
     (case modules n of
        None \<Rightarrow> True
      | Some st \<Rightarrow> if st \<in> set statuses then False else modules_differ modules statuses ns)"

definition compare_kernel_module_conditional_to_actual :: "string \<Rightarrow> kernel_modules \<Rightarrow> bool res" where
  "compare_kernel_module_conditional_to_actual conditional modules =
     (case split_on (CHR '' '') conditional of
        [names, operator, statuses] \<Rightarrow>
          let ns = split_on (CHR '','') names; sts = split_on (CHR '','') statuses in
          if operator \<in> {''='', ''==''} then Ok (modules_equal modules sts ns)
          else if operator \<in> {''!='', ''<>''} then Ok (modules_differ modules sts ns)
          else Fail (Errf ''unexpected operator %q'' [operator])
      | parts \<Rightarrow> Fail (Errf ''Expected exactly 3 parts in conditional, got %d'' [show_nat (length parts)]))"

text \<open>
  The chain \<^verbatim>\<open>if Fail != nil && ... else if Warn != nil && ... else if Pass != nil && ...\<close>: the first branch
  that is present and meets its guard.
\<close>

definition branches :: "outcome \<Rightarrow> (severity \<times> single_outcome) list" where
  "branches o' =
     (case o_fail o' of None \<Rightarrow> [] | Some f \<Rightarrow> [(SFail, f)]) @
     (case o_warn o' of None \<Rightarrow> [] | Some w \<Rightarrow> [(SWarn, w)]) @
     (case o_pass o' of None \<Rightarrow> [] | Some p \<Rightarrow> [(SPass, p)])"

definition conditional_branch :: "outcome \<Rightarrow> (severity \<times> single_outcome) option" where
  "conditional_branch o' = List.find (\<lambda>(_, so). so_when so \<noteq> []) (branches o')"

definition default_allowed :: "bool \<Rightarrow> bool \<Rightarrow> severity \<Rightarrow> bool" where
  "default_allowed psd fld sev =
     (case sev of SFail \<Rightarrow> \<not> psd | SWarn \<Rightarrow> \<not> psd \<and> \<not> fld | SPass \<Rightarrow> \<not> fld)"

definition default_branch :: "bool \<Rightarrow> bool \<Rightarrow> outcome \<Rightarrow> (severity \<times> single_outcome) option" where
  "default_branch psd fld o' =
     List.find (\<lambda>(sev, so). so_when so = [] \<and> default_allowed psd fld sev) (branches o')"

text \<open>The first loop: all outcomes with a condition that holds are pushed.\<close>

record module_state =
  coll :: result_collector
  passed :: bool
  failed :: bool

definition push_outcome :: "string \<Rightarrow> severity \<Rightarrow> single_outcome \<Rightarrow> module_state \<Rightarrow> module_state" where
  "push_outcome t sev so s =
     s\<lparr>coll := rc_push (coll s) (conclude sev so (new_result t)),
       passed := passed s \<or> sev = SPass, failed := failed s \<or> sev = SFail\<rparr>"

fun module_conditionals ::
  "(string \<Rightarrow> bool res) \<Rightarrow> string \<Rightarrow> outcome list \<Rightarrow> module_state \<Rightarrow> module_state res" where
  "module_conditionals check t [] s = Ok s"
| "module_conditionals check t (o' # os) s =
     (case conditional_branch o' of
        None \<Rightarrow> module_conditionals check t os s
      | Some (sev, so) \<Rightarrow>
          bind_res (wrap_res (''failed to compare '' @ so_when so) (check (so_when so))) (\<lambda>m.
            module_conditionals check t os (if m then push_outcome t sev so s else s)))"

text \<open>The second loop: the first default the flags allow is pushed, then the loop breaks.\<close>

fun module_defaults :: "string \<Rightarrow> outcome list \<Rightarrow> module_state \<Rightarrow> module_state" where
  "module_defaults t [] s = s"
| "module_defaults t (o' # os) s =
     (case default_branch (passed s) (failed s) o' of
        None \<Rightarrow> module_defaults t os s
      | Some (sev, so) \<Rightarrow> s\<lparr>coll := rc_push (coll s) (conclude sev so (new_result t))\<rparr>)"

definition kernel_modules_Analyze ::
  "(string \<Rightarrow> kernel_modules res) \<Rightarrow> get_file \<Rightarrow> string \<Rightarrow> outcome list \<Rightarrow> analyze_result list res" where
  "kernel_modules_Analyze unmarshal get check_name outcomes =
     (let t = host_analyzer_title_or_default check_name ''Kernel Modules'' in
      bind_res (wrap_res ''failed to get collected file'' (get ''host-collectors/system/kernel_modules.json''))
        (\<lambda>contents.
          bind_res (wrap_res ''failed to unmarshal kernel modules'' (unmarshal contents)) (\<lambda>modules.
            bind_res (module_conditionals
                 (\<lambda>w. compare_kernel_module_conditional_to_actual w modules) t outcomes
                 \<lparr>coll = [], passed = False, failed = False\<rparr>)
              (\<lambda>s. Ok (rc_get (coll (module_defaults t outcomes s)) t)))))"

section \<open>Block devices\<close>

record block_device_info =
  device_name :: string
  kernel_name :: string
  parent_kernel_name :: string
  device_type :: string
  device_size :: u64
  filesystem_type :: string
  mountpoint :: string
  read_only :: bool
  removable :: bool

definition is_eligible_block_device ::
  "(string \<Rightarrow> bool) \<Rightarrow> u64 \<Rightarrow> bool \<Rightarrow> block_device_info \<Rightarrow> block_device_info list \<Rightarrow> bool" where
  "is_eligible_block_device matches minimum include_unmounted d devices \<longleftrightarrow>
     (if \<not> matches (device_name d) then False
      else if include_unmounted \<and> device_type d \<noteq> ''disk'' \<and> device_type d \<noteq> ''part'' then False
      else if \<not> include_unmounted \<and> device_type d \<noteq> ''disk'' then False
      else if minimum \<noteq> 0 \<and> device_size d < minimum then False
      else if mountpoint d \<noteq> [] then False
      else if filesystem_type d \<noteq> [] then False
      else if read_only d then False
      else if removable d then False
      else \<not> list_ex (\<lambda>e. parent_kernel_name e = kernel_name d) devices)"

definition count_eligible_block_devices ::
  "(string \<Rightarrow> bool) \<Rightarrow> u64 \<Rightarrow> bool \<Rightarrow> block_device_info list \<Rightarrow> int" where
  "count_eligible_block_devices matches minimum include_unmounted devices =
     foldl (\<lambda>n d. if is_eligible_block_device matches minimum include_unmounted d devices then n + 1 else n)
       0 devices"

definition compare_host_block_devices_conditional_to_actual ::
  "(string \<Rightarrow> (string \<Rightarrow> bool) res) \<Rightarrow> string \<Rightarrow> u64 \<Rightarrow> bool \<Rightarrow> block_device_info list \<Rightarrow> bool res" where
  "compare_host_block_devices_conditional_to_actual compile conditional minimum include_unmounted devices =
     (case split_on (CHR '' '') conditional of
        [rx, operator, desired] \<Rightarrow>
          bind_res (wrap_res (''failed to compile regex '' @ quoted rx) (compile rx)) (\<lambda>matches.
            bind_res (wrap_res (''failed to parse desired quantity '' @ quoted desired) (atoi desired)) (\<lambda>v.
              case switch_op operator
                     (count_eligible_block_devices matches minimum include_unmounted devices) v of
                Some b \<Rightarrow> Ok b
              | None \<Rightarrow> Fail (Errf ''Unexpected operator %q'' [operator])))
      | parts \<Rightarrow> Fail (Errf ''Expected exactly 3 parts, got %d'' [show_nat (length parts)]))"

definition block_devices_check_condition ::
  "(string \<Rightarrow> (string \<Rightarrow> bool) res) \<Rightarrow> (string \<Rightarrow> block_device_info list res) \<Rightarrow> u64 \<Rightarrow> bool \<Rightarrow>
   string \<Rightarrow> string \<Rightarrow> bool res" where
  "block_devices_check_condition compile unmarshal minimum include_unmounted w data =
     bind_res (wrap_res ''failed to unmarshal block devices info'' (unmarshal data))
       (compare_host_block_devices_conditional_to_actual compile w minimum include_unmounted)"

definition host_block_devices_Analyze ::
  "(string \<Rightarrow> (string \<Rightarrow> bool) res) \<Rightarrow> (string \<Rightarrow> block_device_info list res) \<Rightarrow> u64 \<Rightarrow> bool \<Rightarrow>
   (string \<Rightarrow> string list res) \<Rightarrow> get_file \<Rightarrow> string \<Rightarrow> outcome list \<Rightarrow> analyze_result list res" where
  "host_block_devices_Analyze compile unmarshal minimum include_unmounted um_nodes get check_name outcomes =
     host_Analyze um_nodes get ''host-collectors/system/block_devices.json'' NodeInfoBaseDir
       ''block_devices.json'' outcomes
       (block_devices_check_condition compile unmarshal minimum include_unmounted)
       (host_analyzer_title_or_default check_name ''Block Devices'') ''failed to analyze block devices''"

section \<open>Statuses compared as text\<close>

definition tcp_connect_check_condition :: "(string \<Rightarrow> string res) \<Rightarrow> string \<Rightarrow> string \<Rightarrow> bool res" where
  "tcp_connect_check_condition unmarshal w data =
     bind_res (wrap_res ''failed to unmarshal data into NetworkStatusResult'' (unmarshal data))
       (\<lambda>st. Ok (st = w))"

definition host_tcp_connect_Analyze ::
  "(string \<Rightarrow> string res) \<Rightarrow> (string \<Rightarrow> string list res) \<Rightarrow> get_file \<Rightarrow> string \<Rightarrow> string \<Rightarrow> outcome list \<Rightarrow>
   analyze_result list res" where
  "host_tcp_connect_Analyze unmarshal um_nodes get check_name collector_name outcomes =
     (let name = (if collector_name = [] then ''connect'' else collector_name)
      in host_Analyze um_nodes get (''host-collectors/connect/'' @ name @ ''.json'') ''host-collectors/connect''
           (name @ ''.json'') outcomes (tcp_connect_check_condition unmarshal)
           (host_analyzer_title_or_default check_name ''TCP Connection Attempt'')
           ''failed to analyze tcp connect'')"

definition subnet_available_check_condition :: "(string \<Rightarrow> string res) \<Rightarrow> string \<Rightarrow> string \<Rightarrow> bool res" where
  "subnet_available_check_condition unmarshal w data =
     bind_res (wrap_res ''failed to unmarshal subnetAvailable result'' (unmarshal data)) (\<lambda>st. Ok (st = w))"

definition host_subnet_available_Analyze ::
  "(string \<Rightarrow> string res) \<Rightarrow> (string \<Rightarrow> string list res) \<Rightarrow> get_file \<Rightarrow> string \<Rightarrow> string \<Rightarrow> outcome list \<Rightarrow>
   analyze_result list res" where
  "host_subnet_available_Analyze unmarshal um_nodes get check_name collector_name outcomes =
     (let name = (if collector_name = [] then ''result'' else collector_name)
      in host_Analyze um_nodes get (''host-collectors/subnetAvailable/'' @ name @ ''.json'')
           ''host-collectors/subnetAvailable'' (name @ ''.json'') outcomes
           (subnet_available_check_condition unmarshal)
           (host_analyzer_title_or_default check_name ''Subnet Available'')
           ''failed to analyze HTTP Load Balancer'')"

section \<open>Lemmas\<close>

lemma service_differs_not_equal: "service_differs m = (\<lambda>s. \<not> service_equal m s)"
  by (cases m) (auto simp: service_differs_def service_equal_def fun_eq_iff)

lemma service_loop_found:
  "\<exists>s\<in>set ss. is_service_match (unit_name s) name \<Longrightarrow>
   service_loop (\<lambda>s. \<not> judge s) name ss \<longleftrightarrow> \<not> service_loop judge name ss"
  by (induction ss) auto

lemma service_loop_missing:
  "\<not> (\<exists>s\<in>set ss. is_service_match (unit_name s) name) \<Longrightarrow> \<not> service_loop judge name ss"
  by (induction ss) auto

lemma services_sentence:
  assumes "CHR '' '' \<notin> set name" "CHR '' '' \<notin> set desired"
  shows "compare_host_services_conditional_to_actual (sentence [name, ''='', desired]) ss =
           Ok (service_loop (service_equal (service_params desired)) name ss)"
    and "compare_host_services_conditional_to_actual (sentence [name, ''!='', desired]) ss =
           Ok (service_loop (service_differs (service_params desired)) name ss)"
  using assms by (simp_all add: compare_host_services_conditional_to_actual_def split_sentence)

lemma modules_equal_iff:
  "modules_equal modules sts ns \<longleftrightarrow> (\<forall>n\<in>set ns. \<exists>st\<in>set sts. modules n = Some st)"
  by (induction ns) (auto split: option.splits)

lemma modules_differ_iff:
  "modules_differ modules sts ns \<longleftrightarrow>
     (\<forall>n\<in>set (takeWhile (\<lambda>n. modules n \<noteq> None) ns). \<forall>st\<in>set sts. modules n \<noteq> Some st)"
  by (induction ns) (auto split: option.splits)

lemma modules_sentence:
  assumes "CHR '' '' \<notin> set names" "CHR '' '' \<notin> set sts"
  shows "compare_kernel_module_conditional_to_actual (sentence [names, ''='', sts]) m =
           Ok (modules_equal m (split_on (CHR '','') sts) (split_on (CHR '','') names))"
    and "compare_kernel_module_conditional_to_actual (sentence [names, ''!='', sts]) m =
           Ok (modules_differ m (split_on (CHR '','') sts) (split_on (CHR '','') names))"
  using assms by (simp_all add: compare_kernel_module_conditional_to_actual_def split_sentence Let_def)

lemma count_eligible_length:
  "count_eligible_block_devices rx m i devices =
     int (length (filter (\<lambda>d. is_eligible_block_device rx m i d devices) devices))"
proof -
  have "foldl (\<lambda>n d. if P d then n + 1 else n) (k::int) ds = k + int (length (filter P ds))"
    for P k and ds :: "block_device_info list"
    by (induction ds arbitrary: k) auto
  then show ?thesis by (simp add: count_eligible_block_devices_def)
qed

lemma word_size_test: "(k \<noteq> (0::u64) \<and> x < k) \<longleftrightarrow> x < k"
  by auto

lemma is_eligible_antimono:
  assumes "m \<le> m'" and "is_eligible_block_device matches m' i d ds"
  shows "is_eligible_block_device matches m i d ds"
proof -
  have "device_size d < m \<Longrightarrow> device_size d < m'" using assms(1) by (rule order.strict_trans2 [rotated])
  with assms(2) show ?thesis
    unfolding is_eligible_block_device_def word_size_test by (auto split: if_splits)
qed

text \<open>What the second loop may add, and what the first has pushed.\<close>

definition modules_inv :: "string \<Rightarrow> module_state \<Rightarrow> bool" where
  "modules_inv t s \<longleftrightarrow> (\<forall>r\<in>set (coll s). is_verdict r \<and> title r = t) \<and>
     (passed s \<longleftrightarrow> (\<exists>r\<in>set (coll s). is_pass r)) \<and> (failed s \<longleftrightarrow> (\<exists>r\<in>set (coll s). is_fail r))"

lemma push_outcome_inv: "modules_inv t s \<Longrightarrow> modules_inv t (push_outcome t sev so s)"
  using conclude_severity [of "new_result t" SPass sev so] conclude_severity [of "new_result t" SFail sev so]
  by (cases sev) (auto simp: modules_inv_def push_outcome_def rc_push_def conclude_verdict has_severity_def)

lemma module_conditionals_inv:
  "module_conditionals check t os s = Ok s' \<Longrightarrow> modules_inv t s \<Longrightarrow> modules_inv t s'"
proof (induction os arbitrary: s)
  case (Cons o' os)
  show ?case
  proof (cases "conditional_branch o'")
    case None
    with Cons show ?thesis by simp
  next
    case (Some b)
    obtain sev so where b: "b = (sev, so)" by force
    from Cons.prems(1) Some b obtain m where
      run: "module_conditionals check t os (if m then push_outcome t sev so s else s) = Ok s'"
      by (auto simp: res_simps)
    have "modules_inv t (if m then push_outcome t sev so s else s)"
      using Cons.prems(2) push_outcome_inv by simp
    with Cons.IH [OF run] show ?thesis .
  qed
qed simp

lemma default_branch_allowed:
  "default_branch psd fld o' = Some (sev, so) \<Longrightarrow> default_allowed psd fld sev \<and> so_when so = []"
  by (auto simp: default_branch_def find_Some_iff)

lemma module_defaults_shape:
  "module_defaults t os s = s \<or>
   (\<exists>sev so. module_defaults t os s = s\<lparr>coll := coll s @ [conclude sev so (new_result t)]\<rparr> \<and>
      default_allowed (passed s) (failed s) sev)"
  by (induction os) (auto split: option.splits simp: rc_push_def dest: default_branch_allowed)

interpretation block_device_count: when_language
  "\<lambda>w ds. compare_host_block_devices_conditional_to_actual (\<lambda>_. Ok matches) w m i ds"
  "\<lambda>op v. sentence [''sd'', op, show_int v]"
  "\<lambda>ds. int (length (filter (\<lambda>d. is_eligible_block_device matches m i d ds) ds))" in_int64
  for matches m i
  by unfold_locales
    (auto simp: compare_host_block_devices_conditional_to_actual_def split_sentence go_simps
      count_eligible_length switch_op_def)

lemma kernel_modules_results:
  assumes "kernel_modules_Analyze unmarshal get check_name os = Ok rs"
  shows "rs \<noteq> [] \<and>
    (\<forall>r\<in>set rs. is_verdict r \<and> title r = host_analyzer_title_or_default check_name ''Kernel Modules'') \<and>
    (\<exists>pushed ds. (rs = pushed @ ds \<or> pushed @ ds = []) \<and> length ds \<le> 1 \<and>
       (\<forall>r\<in>set ds. (is_fail r \<longrightarrow> list_all (\<lambda>p. \<not> is_pass p) pushed) \<and>
          (is_warn r \<longrightarrow> list_all (\<lambda>p. \<not> is_pass p \<and> \<not> is_fail p) pushed) \<and>
          (is_pass r \<longrightarrow> list_all (\<lambda>p. \<not> is_fail p) pushed)))"
proof -
  define t where "t = host_analyzer_title_or_default check_name ''Kernel Modules''"
  obtain modules s where
    run: "module_conditionals (\<lambda>w. compare_kernel_module_conditional_to_actual w modules) t os
        \<lparr>coll = [], passed = False, failed = False\<rparr> = Ok s"
    and rs: "rs = rc_get (coll (module_defaults t os s)) t"
    using assms by (auto simp: kernel_modules_Analyze_def res_simps Let_def t_def)
  have inv: "modules_inv t s"
    by (rule module_conditionals_inv [OF run]) (simp add: modules_inv_def)
  obtain ds where ds: "coll (module_defaults t os s) = coll s @ ds" and
    shape: "ds = [] \<or> (\<exists>sev so. ds = [conclude sev so (new_result t)] \<and> default_allowed (passed s) (failed s) sev)"
    using module_defaults_shape [of t os s] by (metis append_Nil2 module_state.select_convs(1)
        module_state.surjective module_state.update_convs(1))
  have warn: "is_verdict ((new_result t)\<lparr>is_warn := True, message := ''no results''\<rparr>)"
    by (simp add: is_verdict_def new_result_def)
  have verdicts: "\<forall>r\<in>set (coll s @ ds). is_verdict r \<and> title r = t"
    using inv shape by (auto simp: modules_inv_def conclude_verdict)
  have guard: "\<forall>r\<in>set ds. (is_fail r \<longrightarrow> list_all (\<lambda>p. \<not> is_pass p) (coll s)) \<and>
          (is_warn r \<longrightarrow> list_all (\<lambda>p. \<not> is_pass p \<and> \<not> is_fail p) (coll s)) \<and>
          (is_pass r \<longrightarrow> list_all (\<lambda>p. \<not> is_fail p) (coll s))"
  proof (cases "ds = []")
    case False
    with shape obtain sev so where d: "ds = [conclude sev so (new_result t)]"
      "default_allowed (passed s) (failed s) sev" by blast
    then show ?thesis
      using inv by (cases sev)
        (auto simp: modules_inv_def default_allowed_def list_all_iff conclude_def set_severity_def new_result_def)
  qed simp
  have "rs \<noteq> [] \<and> (\<forall>r\<in>set rs. is_verdict r \<and> title r = t)"
    using verdicts warn by (auto simp: rs rc_get_def ds)
  moreover have "rs = coll s @ ds \<or> coll s @ ds = []" by (auto simp: rs rc_get_def ds)
  moreover have "length ds \<le> 1" using shape by auto
  ultimately show ?thesis using guard unfolding t_def by blast
qed

section \<open>Properties\<close>

text \<open>
  In a service condition \<^verbatim>\<open>!=\<close> is the negation of \<^verbatim>\<open>=\<close> when some service has the name or a name
  that it is a prefix of, whatever states and wildcards are listed; when there is none, both are false.
\<close>

theorem services_negation:
  assumes "CHR '' '' \<notin> set name" and "CHR '' '' \<notin> set desired"
  shows "compare_host_services_conditional_to_actual (sentence [name, ''!='', desired]) ss =
     (if list_ex (\<lambda>s. is_service_match (unit_name s) name) ss
      then map_res Not (compare_host_services_conditional_to_actual (sentence [name, ''='', desired]) ss)
      else Ok False) \<and>
     (compare_host_services_conditional_to_actual (sentence [name, ''='', desired]) ss = Ok True \<longrightarrow>
        list_ex (\<lambda>s. is_service_match (unit_name s) name \<and> service_equal (service_params desired) s) ss)"
proof -
  let ?m = "service_params desired"
  have "service_loop (service_differs ?m) name ss = service_loop (\<lambda>s. \<not> service_equal ?m s) name ss"
    unfolding service_differs_not_equal ..
  moreover have "service_loop (service_equal ?m) name ss \<Longrightarrow>
      list_ex (\<lambda>s. is_service_match (unit_name s) name \<and> service_equal ?m s) ss"
    by (induction ss) (auto split: if_splits)
  ultimately show ?thesis
    using service_loop_found [of ss name "service_equal ?m"] service_loop_missing [of ss name]
    by (auto simp: services_sentence [OF assms] list_ex_iff)
qed

theorem services_negation_witness:
  "compare_host_services_conditional_to_actual (sentence [''ufw'', ''!='', ''active,*,loaded''])
     [\<lparr>unit_name = ''ufw.service'', load_state = ''masked'', active_state = ''active'', sub_state = ''x''\<rparr>] =
   map_res Not (compare_host_services_conditional_to_actual (sentence [''ufw'', ''='', ''active,*,loaded''])
     [\<lparr>unit_name = ''ufw.service'', load_state = ''masked'', active_state = ''active'', sub_state = ''x''\<rparr>])"
proof -
  have "CHR '' '' \<notin> set ''ufw''" "CHR '' '' \<notin> set ''active,*,loaded''" by simp_all
  from services_negation [OF this, of "[\<lparr>unit_name = ''ufw.service'', load_state = ''masked'',
      active_state = ''active'', sub_state = ''x''\<rparr>]"]
  show ?thesis by (simp add: is_service_match_def)
qed

text \<open>
  The results of the kernel module analyzer: never empty, all of them verdicts under its title; first
  one per outcome whose condition holds, then at most one default, and a default fail only if nothing
  passed, a default warning only if nothing passed or failed, a default pass only if nothing failed.
\<close>

theorem kernel_module_defaults:
  assumes "kernel_modules_Analyze unmarshal get check_name os = Ok rs"
  shows "rs \<noteq> [] \<and>
    (\<forall>r\<in>set rs. is_verdict r \<and> title r = host_analyzer_title_or_default check_name ''Kernel Modules'') \<and>
    (\<exists>pushed ds. (rs = pushed @ ds \<or> pushed @ ds = []) \<and> length ds \<le> 1 \<and>
       (\<forall>r\<in>set ds. (is_fail r \<longrightarrow> list_all (\<lambda>p. \<not> is_pass p) pushed) \<and>
          (is_warn r \<longrightarrow> list_all (\<lambda>p. \<not> is_pass p \<and> \<not> is_fail p) pushed) \<and>
          (is_pass r \<longrightarrow> list_all (\<lambda>p. \<not> is_fail p) pushed)))"
  using assms by (rule kernel_modules_results)

theorem kernel_module_defaults_witness:
  "\<exists>rs. kernel_modules_Analyze (\<lambda>_. Ok [''a'' \<mapsto> ''loaded'']) (\<lambda>_. Ok []) []
     [\<lparr>o_fail = None, o_warn = None, o_pass = Some \<lparr>so_when = ''a = loaded'', so_message = ''ok'', so_uri = []\<rparr>\<rparr>,
      \<lparr>o_fail = Some \<lparr>so_when = [], so_message = ''bad'', so_uri = []\<rparr>, o_warn = None, o_pass = None\<rparr>] = Ok rs \<and> rs \<noteq> []"
  (is "\<exists>rs. ?run = Ok rs \<and> _")
proof -
  have "is_ok ?run" by code_simp
  then obtain rs where rs: "?run = Ok rs" by (cases ?run) simp_all
  from kernel_module_defaults [OF this] have "rs \<noteq> []" by (rule conjunct1)
  with rs show ?thesis by blast
qed

text \<open>
  A kernel module condition with \<^verbatim>\<open>=\<close> holds exactly when every module listed has one of the states
  listed, in any order. With \<^verbatim>\<open>!=\<close> the first module that is not in the collected map ends the test with
  true: the modules after it are not looked at, so the answer depends on the order of the names.
\<close>

theorem kernel_module_order:
  assumes "CHR '' '' \<notin> set (join_with '','' ns)" and "CHR '' '' \<notin> set st" and "CHR '','' \<notin> set st"
    and "ns \<noteq> []" and "\<forall>n\<in>set ns. CHR '','' \<notin> set n"
  shows "compare_kernel_module_conditional_to_actual (sentence [join_with '','' ns, ''='', st]) m =
           Ok (list_all (\<lambda>n. m n = Some st) ns) \<and>
         compare_kernel_module_conditional_to_actual (sentence [join_with '','' ns, ''!='', st]) m =
           Ok (list_all (\<lambda>n. m n \<noteq> Some st) (takeWhile (\<lambda>n. m n \<noteq> None) ns))"
proof -
  have "split_on (CHR '','') (join_with '','' ns) = ns" using assms(4,5) by (rule split_join)
  moreover have "split_on (CHR '','') st = [st]" using assms(3) by (rule split_on_no_sep)
  ultimately show ?thesis
    by (simp add: modules_sentence [OF assms(1,2)] modules_equal_iff modules_differ_iff list_all_iff)
qed

theorem kernel_module_order_witness:
  "compare_kernel_module_conditional_to_actual (sentence [''a,b'', ''!='', ''loaded'']) [''b'' \<mapsto> ''loaded''] = Ok True \<and>
   compare_kernel_module_conditional_to_actual (sentence [''b,a'', ''!='', ''loaded'']) [''b'' \<mapsto> ''loaded''] = Ok False"
  using kernel_module_order [of "[''a'', ''b'']" "''loaded''" "[''b'' \<mapsto> ''loaded'']"]
    kernel_module_order [of "[''b'', ''a'']" "''loaded''" "[''b'' \<mapsto> ''loaded'']"]
  by simp

text \<open>
  A block device condition compares the number of devices that are eligible; every device counted is a
  disk (or a partition, when unmounted partitions are included) of at least the minimum size, unmounted,
  without a file system, writable, not removable and not the parent of any device; a larger minimum never
  counts more.
\<close>

theorem block_devices_counted:
  assumes "in_int64 v"
  shows "compare_host_block_devices_conditional_to_actual (\<lambda>_. Ok matches) (sentence [''sd'', ''>='', show_int v]) m i ds =
           Ok (v \<le> int (length (filter (\<lambda>d. is_eligible_block_device matches m i d ds) ds))) \<and>
         list_all (\<lambda>d. is_eligible_block_device matches m i d ds \<longrightarrow>
            (device_type d = ''disk'' \<or> i \<and> device_type d = ''part'') \<and> m \<le> device_size d \<and> mountpoint d = [] \<and>
            filesystem_type d = [] \<and> \<not> read_only d \<and> \<not> removable d \<and>
            list_all (\<lambda>e. parent_kernel_name e \<noteq> kernel_name d) ds) ds \<and>
         (m \<le> m' \<longrightarrow> count_eligible_block_devices matches m' i ds \<le> count_eligible_block_devices matches m i ds)"
proof (intro conjI impI)
  show "compare_host_block_devices_conditional_to_actual (\<lambda>_. Ok matches) (sentence [''sd'', ''>='', show_int v]) m i ds =
           Ok (v \<le> int (length (filter (\<lambda>d. is_eligible_block_device matches m i d ds) ds)))"
    by (rule block_device_count.check_ge [OF assms])
next
  show "list_all (\<lambda>d. is_eligible_block_device matches m i d ds \<longrightarrow>
            (device_type d = ''disk'' \<or> i \<and> device_type d = ''part'') \<and> m \<le> device_size d \<and> mountpoint d = [] \<and>
            filesystem_type d = [] \<and> \<not> read_only d \<and> \<not> removable d \<and>
            list_all (\<lambda>e. parent_kernel_name e \<noteq> kernel_name d) ds) ds"
    by (auto simp: list_all_iff is_eligible_block_device_def list_ex_iff not_less split: if_splits)
next
  assume le: "m \<le> m'"
  have "is_eligible_block_device matches m' i d ds \<Longrightarrow> is_eligible_block_device matches m i d ds" for d
    using le is_eligible_antimono by blast
  then have "length (filter (\<lambda>d. is_eligible_block_device matches m' i d ds) es) \<le>
      length (filter (\<lambda>d. is_eligible_block_device matches m i d ds) es)" for es
    by (induction es) auto
  then show "count_eligible_block_devices matches m' i ds \<le> count_eligible_block_devices matches m i ds"
    by (simp add: count_eligible_length)
qed

theorem block_devices_counted_witness:
  "compare_host_block_devices_conditional_to_actual (\<lambda>_. Ok (\<lambda>_. True)) (sentence [''sd'', ''>='', ''1'']) 0 False
     [\<lparr>device_name = ''sdb'', kernel_name = ''sdb'', parent_kernel_name = [], device_type = ''disk'', device_size = 5,
       filesystem_type = [], mountpoint = [], read_only = False, removable = False\<rparr>] = Ok True"
proof -
  have v: "in_int64 1" "show_int 1 = ''1''" by (simp_all add: in_int64_def show_number)
  from block_devices_counted [OF v(1), of "\<lambda>_. True" 0 False "[\<lparr>device_name = ''sdb'', kernel_name = ''sdb'',
      parent_kernel_name = [], device_type = ''disk'', device_size = 5, filesystem_type = [], mountpoint = [],
      read_only = False, removable = False\<rparr>]"]
  show ?thesis by (simp add: v is_eligible_block_device_def)
qed

end
