(* ===== verification/Regex.thy ===== *)
theory Regex
  imports Lines
begin

text \<open>
  The part of the regexp package that the redactors use: an ordered matcher for expressions over byte
  classes, leftmost-first search, \<^verbatim>\<open>ReplaceAll\<close> and the expansion of templates (\<^verbatim>\<open>$1\<close>, \<^verbatim>\<open>${name}\<close>). In all
  expressions of the repository a repetition repeats one class of characters, so repetition is over
  classes, greedy or lazy. The alternatives of a match are listed in order of preference: the first one is the
  leftmost-first match of the package.
\<close>

section \<open>Expressions and matching\<close>

datatype rx =
    Cls "char \<Rightarrow> bool"
  | Rep "char \<Rightarrow> bool" nat "nat option"
  | Emp
  | Seq rx rx
  | Alt rx rx
  | Grp nat rx
  | WordB
  | BeginText
  | EndText
  | Lazy "char \<Rightarrow> bool" nat

text \<open>The text before the current position (reversed), the text after it, and the groups so far.\<close>

record match_state =
  behind :: string
  ahead :: string
  groups :: "(nat \<times> string) list"

definition eat :: "nat \<Rightarrow> match_state \<Rightarrow> match_state" where
  "eat n m = m\<lparr>behind := rev (take n (ahead m)) @ behind m, ahead := drop n (ahead m)\<rparr>"

definition word_char :: "char \<Rightarrow> bool" where
  "word_char c \<longleftrightarrow>
     (let n = (of_char c :: nat) in (48 \<le> n \<and> n \<le> 57) \<or> (65 \<le> n \<and> n \<le> 90) \<or> (97 \<le> n \<and> n \<le> 122) \<or> n = 95)"

definition at_word_boundary :: "match_state \<Rightarrow> bool" where
  "at_word_boundary m \<longleftrightarrow>
     (case behind m of [] \<Rightarrow> False | c # _ \<Rightarrow> word_char c) \<noteq>
     (case ahead m of [] \<Rightarrow> False | c # _ \<Rightarrow> word_char c)"

text \<open>How many characters a greedy repetition can take, most first.\<close>

definition run_lengths :: "(char \<Rightarrow> bool) \<Rightarrow> nat \<Rightarrow> nat option \<Rightarrow> string \<Rightarrow> nat list" where
  "run_lengths P lo hi s =
     (let n = length (takeWhile P s);
          top_n = (case hi of None \<Rightarrow> n | Some h \<Rightarrow> min h n)
      in rev [lo..<Suc top_n])"

definition consumed :: "match_state \<Rightarrow> match_state \<Rightarrow> string" where
  "consumed m m' = rev (take (length (behind m') - length (behind m)) (behind m'))"

primrec rxm :: "rx \<Rightarrow> match_state \<Rightarrow> match_state list" where
  "rxm (Cls P) m = (case ahead m of [] \<Rightarrow> [] | c # _ \<Rightarrow> if P c then [eat 1 m] else [])"
| "rxm (Rep P lo hi) m = map (\<lambda>n. eat n m) (run_lengths P lo hi (ahead m))"
| "rxm Emp m = [m]"
| "rxm (Seq r q) m = concat (map (rxm q) (rxm r m))"
| "rxm (Alt r q) m = rxm r m @ rxm q m"
| "rxm (Grp i r) m = map (\<lambda>m'. m'\<lparr>groups := (i, consumed m m') # groups m'\<rparr>) (rxm r m)"
| "rxm WordB m = (if at_word_boundary m then [m] else [])"
| "rxm BeginText m = (if behind m = [] then [m] else [])"
| "rxm EndText m = (if ahead m = [] then [m] else [])"
| "rxm (Lazy P lo) m = map (\<lambda>n. eat n m) [lo..<Suc (length (takeWhile P (ahead m)))]"

definition start_at :: "string \<Rightarrow> nat \<Rightarrow> match_state" where
  "start_at s p = \<lparr>behind = rev (take p s), ahead = drop p s, groups = []\<rparr>"

text \<open>The leftmost match from a position on: its first and last position and its groups.\<close>

definition match_at :: "rx \<Rightarrow> string \<Rightarrow> nat \<Rightarrow> (nat \<times> (nat \<times> string) list) option" where
  "match_at r s p =
     (case rxm r (start_at s p) of [] \<Rightarrow> None | m # _ \<Rightarrow> Some (length (behind m), groups m))"

fun search_from :: "rx \<Rightarrow> string \<Rightarrow> nat list \<Rightarrow> (nat \<times> nat \<times> (nat \<times> string) list) option" where
  "search_from r s [] = None"
| "search_from r s (p # ps) =
     (case match_at r s p of
        Some (e, gs) \<Rightarrow> Some (p, e, gs)
      | None \<Rightarrow> search_from r s ps)"

definition rx_search :: "rx \<Rightarrow> string \<Rightarrow> nat \<Rightarrow> (nat \<times> nat \<times> (nat \<times> string) list) option" where
  "rx_search r s p = search_from r s [p..<Suc (length s)]"

definition rx_matches :: "rx \<Rightarrow> string \<Rightarrow> bool" where
  "rx_matches r s \<longleftrightarrow> rx_search r s 0 \<noteq> None"

section \<open>Templates\<close>

text \<open>\<open>extract\<close> of the package: the name after a dollar sign, with or without braces.\<close>

definition group_number :: "string \<Rightarrow> nat option" where
  "group_number name =
     (if name = [] \<or> (hd name = CHR ''0'' \<and> length name > 1) \<or> length name > 9 then None
      else digits_val 0 name)"

definition extract_name :: "string \<Rightarrow> (string \<times> string) option" where
  "extract_name s =
     (case s of
        [] \<Rightarrow> None
      | c # t \<Rightarrow>
          if c = CHR ''{'' then
            let name = takeWhile word_char t; rest = dropWhile word_char t in
            if name = [] then None
            else (case rest of d # rest' \<Rightarrow> if d = CHR ''}'' then Some (name, rest') else None | [] \<Rightarrow> None)
          else
            let name = takeWhile word_char s in
            if name = [] then None else Some (name, dropWhile word_char s))"

lemma extract_name_shorter:
  "extract_name s = Some (name, rest) \<Longrightarrow> length rest \<le> length s"
  using length_dropWhile_le [of word_char s] length_dropWhile_le [of word_char "tl s"]
  by (auto simp: extract_name_def Let_def split: list.splits if_splits)

definition group_text :: "(nat \<times> string) list \<Rightarrow> nat \<Rightarrow> string" where
  "group_text gs i = (case map_of gs i of None \<Rightarrow> [] | Some t \<Rightarrow> t)"

text \<open>A name refers to the first group of that name which took part in the match.\<close>

definition named_text :: "string list \<Rightarrow> (nat \<times> string) list \<Rightarrow> string \<Rightarrow> string" where
  "named_text names gs name =
     (case filter (\<lambda>i. names ! i = name \<and> map_of gs i \<noteq> None) [0..<length names] of
        [] \<Rightarrow> [] | i # _ \<Rightarrow> group_text gs i)"

function expand :: "string list \<Rightarrow> (nat \<times> string) list \<Rightarrow> string \<Rightarrow> string" where
  "expand names gs [] = []"
| "expand names gs (c # t) =
     (if c \<noteq> CHR ''$'' then c # expand names gs t
      else if t \<noteq> [] \<and> hd t = CHR ''$'' then CHR ''$'' # expand names gs (tl t)
      else case extract_name t of
             None \<Rightarrow> CHR ''$'' # expand names gs t
           | Some (name, rest) \<Rightarrow>
               (case group_number name of
                  Some i \<Rightarrow> group_text gs i
                | None \<Rightarrow> named_text names gs name) @ expand names gs rest)"
  by pat_completeness auto
termination
  by (relation "measure (\<lambda>(_, _, t). length t)")
    (auto dest: extract_name_shorter simp: le_imp_less_Suc)

section \<open>ReplaceAll\<close>

text \<open>
  The loop of \<^verbatim>\<open>replaceAll\<close>: \<open>last\<close> is the end of the last match, \<open>pos\<close> where the next search starts. An
  empty match right after a match is not replaced.
\<close>

lemma search_from_elem: "search_from r s ps = Some (a, e, gs) \<Longrightarrow> a \<in> set ps"
  by (induction ps) (auto split: option.splits)

function replace_loop ::
  "rx \<Rightarrow> string \<Rightarrow> ((nat \<times> string) list \<Rightarrow> string) \<Rightarrow> nat \<Rightarrow> nat \<Rightarrow> string" where
  "replace_loop r s repl last_end p =
     (if p > length s then drop last_end s
      else case rx_search r s p of
             None \<Rightarrow> drop last_end s
           | Some (a, e, gs) \<Rightarrow>
               drop last_end (take a s) @ (if e > last_end \<or> a = 0 then repl gs else []) @
               replace_loop r s repl e (if p + 1 > e then p + 1 else e))"
  by pat_completeness auto
termination
  by (relation "measure (\<lambda>(r, s, repl, last_end, p). Suc (length s) - p)") auto

declare replace_loop.simps [simp del]

text \<open>\<open>names\<close> is \<^verbatim>\<open>SubexpNames\<close>, its entry 0 being the whole expression.\<close>

record regexp =
  rx_prog :: rx
  subexp_names :: "string list"

definition replace_all_rx :: "regexp \<Rightarrow> string \<Rightarrow> string \<Rightarrow> string" where
  "replace_all_rx re s template =
     replace_loop (rx_prog re) s
       (\<lambda>gs. expand (subexp_names re) gs template) 0 0"

definition re_match :: "regexp \<Rightarrow> string \<Rightarrow> bool" where
  "re_match re s = rx_matches (rx_prog re) s"

text \<open>\<^verbatim>\<open>FindSubmatch\<close>: the whole match and its groups, empty for those that took no part.\<close>

definition find_submatch :: "regexp \<Rightarrow> string \<Rightarrow> string list option" where
  "find_submatch re s =
     map_option (\<lambda>(a, e, gs). drop a (take e s) # map (group_text gs) [1..<length (subexp_names re)])
       (rx_search (rx_prog re) s 0)"

section \<open>Building expressions\<close>

definition rx_seq :: "rx list \<Rightarrow> rx" where
  "rx_seq rs = foldr Seq rs Emp"

definition rx_alt :: "rx list \<Rightarrow> rx" where
  "rx_alt rs = foldr Alt (butlast rs) (last rs)"

definition lit_char :: "char \<Rightarrow> rx" where "lit_char c = Cls (\<lambda>d. d = c)"

definition ci_char :: "char \<Rightarrow> rx" where "ci_char c = Cls (\<lambda>d. lower_char d = lower_char c)"

definition lit :: "string \<Rightarrow> rx" where "lit w = rx_seq (map lit_char w)"

definition ci :: "string \<Rightarrow> rx" where "ci w = rx_seq (map ci_char w)"

definition not_in :: "string \<Rightarrow> char \<Rightarrow> bool" where "not_in w c \<longleftrightarrow> c \<notin> set w"

abbreviation star :: "(char \<Rightarrow> bool) \<Rightarrow> rx" where "star P \<equiv> Rep P 0 None"
abbreviation plus_of :: "(char \<Rightarrow> bool) \<Rightarrow> rx" where "plus_of P \<equiv> Rep P 1 None"
abbreviation opt_of :: "(char \<Rightarrow> bool) \<Rightarrow> rx" where "opt_of P \<equiv> Rep P 0 (Some 1)"

definition any_char :: "char \<Rightarrow> bool" where "any_char c \<longleftrightarrow> c \<noteq> newline"

section \<open>Lemmas\<close>

definition whole :: "match_state \<Rightarrow> string" where
  "whole m = rev (behind m) @ ahead m"

lemma eat_simps [simp]:
  "ahead (eat n m) = drop n (ahead m)" "behind (eat n m) = rev (take n (ahead m)) @ behind m"
  "groups (eat n m) = groups m" "whole (eat n m) = whole m"
  by (simp_all add: eat_def whole_def)

lemma start_at_simps [simp]:
  "behind (start_at s p) = rev (take p s)" "ahead (start_at s p) = drop p s" "groups (start_at s p) = []"
  "whole (start_at s p) = s"
  by (simp_all add: start_at_def whole_def)

text \<open>Matching only moves the position forward.\<close>

lemma rxm_forward:
  "m' \<in> set (rxm r m) \<Longrightarrow> whole m' = whole m \<and> (\<exists>w. behind m' = w @ behind m)"
proof (induction r arbitrary: m m')
  case (Cls P)
  then show ?case by (auto split: list.splits if_splits)
next
  case (Seq r q)
  then obtain m1 where m1: "m1 \<in> set (rxm r m)" "m' \<in> set (rxm q m1)" by auto
  from Seq.IH(1) [OF m1(1)] Seq.IH(2) [OF m1(2)] show ?case by auto
next
  case (Grp i r)
  then obtain m1 where "m1 \<in> set (rxm r m)" "m' = m1\<lparr>groups := (i, consumed m m1) # groups m1\<rparr>" by auto
  with Grp.IH [of m1 m] show ?case by (auto simp: whole_def)
qed (auto split: if_splits)

lemma match_at_bounds:
  assumes "match_at r s p = Some (e, gs)" and "p \<le> length s"
  shows "p \<le> e \<and> e \<le> length s"
proof -
  obtain m ms where m: "rxm r (start_at s p) = m # ms" "e = length (behind m)"
    using assms(1) by (auto simp: match_at_def split: list.splits)
  then have "m \<in> set (rxm r (start_at s p))" by simp
  from rxm_forward [OF this] obtain w where w: "whole m = s" "behind m = w @ rev (take p s)" by auto
  then have "length (behind m) \<le> length s" by (metis le_add1 length_append length_rev whole_def)
  with w(2) m(2) assms(2) show ?thesis by auto
qed

lemma search_from_Some_iff:
  "(\<exists>m. search_from r s ps = Some m) \<longleftrightarrow> (\<exists>p\<in>set ps. rxm r (start_at s p) \<noteq> [])"
  by (induction ps) (auto simp: match_at_def split: list.splits option.splits)

lemma rx_matches_iff: "rx_matches r s \<longleftrightarrow> (\<exists>p\<le>length s. rxm r (start_at s p) \<noteq> [])"
  using search_from_Some_iff [of r s "[0..<Suc (length s)]"]
  by (auto simp: rx_matches_def rx_search_def less_Suc_eq_le simp del: upt_Suc)

lemma rxm_lit: "rxm (lit w) m = (if has_prefix w (ahead m) then [eat (length w) m] else [])"
proof (induction w arbitrary: m)
  case Nil
  show ?case by (simp add: lit_def rx_seq_def eat_def)
next
  case (Cons c w)
  have l: "lit (c # w) = Seq (lit_char c) (lit w)" by (simp add: lit_def rx_seq_def)
  show ?case
  proof (cases "ahead m")
    case Nil
    then show ?thesis by (simp add: l lit_char_def)
  next
    case (Cons d t)
    then show ?thesis
      using Cons.IH [of "eat 1 m"] by (auto simp: l lit_char_def eat_def)
  qed
qed

lemma rx_seq_simps [simp]: "rxm (rx_seq []) m = [m]" "rxm (rx_seq (r # rs)) m = concat (map (rxm (rx_seq rs)) (rxm r m))"
  by (simp_all add: rx_seq_def)

text \<open>A greedy run over a class that is followed by something else.\<close>

lemma rep_full:
  assumes "\<forall>c\<in>set w. P c" and "s = [] \<or> \<not> P (hd s)" and "lo \<le> length w" and "ahead m = w @ s"
  shows "eat (length w) m \<in> set (rxm (Rep P lo None) m)"
proof -
  have "takeWhile P (w @ s) = w" using assms(1,2) by (cases s) (auto simp: takeWhile_append)
  with assms(3,4) show ?thesis by (auto simp: run_lengths_def Let_def)
qed

lemma rx_match_path:
  "m' \<in> set (rxm r m) \<Longrightarrow> rxm (rx_seq rs) m' \<noteq> [] \<Longrightarrow> rxm (rx_seq (r # rs)) m \<noteq> []"
  by auto

section \<open>The preferred match\<close>

definition rx_first :: "rx \<Rightarrow> match_state \<Rightarrow> match_state option" where
  "rx_first r m = (case rxm r m of [] \<Rightarrow> None | m' # _ \<Rightarrow> Some m')"

definition advance :: "string \<Rightarrow> match_state \<Rightarrow> match_state" where
  "advance u m = m\<lparr>behind := rev u @ behind m, ahead := drop (length u) (ahead m)\<rparr>"

lemma advance_simps [simp]:
  "behind (advance u m) = rev u @ behind m" "ahead (advance u m) = drop (length u) (ahead m)"
  "groups (advance u m) = groups m"
  by (simp_all add: advance_def)

lemma eat_advance: "ahead m = u @ s \<Longrightarrow> eat (length u) m = advance u m"
  by (simp add: eat_def advance_def)

lemma consumed_advance: "behind m' = rev u @ behind m \<Longrightarrow> consumed m m' = u"
  by (simp add: consumed_def)

lemma rx_first_seq:
  assumes "rx_first r m = Some m1" and "rx_first (rx_seq rs) m1 = Some m2"
  shows "rx_first (rx_seq (r # rs)) m = Some m2"
proof -
  obtain ms where "rxm r m = m1 # ms" using assms(1) by (auto simp: rx_first_def split: list.splits)
  moreover obtain ms' where "rxm (rx_seq rs) m1 = m2 # ms'" using assms(2) by (auto simp: rx_first_def split: list.splits)
  ultimately show ?thesis by (simp add: rx_first_def)
qed

lemma rx_first_seq_Nil: "rx_first (rx_seq []) m = Some m"
  by (simp add: rx_first_def)

lemma rx_first_grp:
  assumes "rx_first r m = Some m1"
  shows "rx_first (Grp i r) m = Some (m1\<lparr>groups := (i, consumed m m1) # groups m1\<rparr>)"
  using assms by (auto simp: rx_first_def split: list.splits)

lemma rx_first_rep:
  assumes "\<forall>c\<in>set u. P c" and "s = [] \<or> \<not> P (hd s)" and "lo \<le> length u" and "ahead m = u @ s"
  shows "rx_first (Rep P lo None) m = Some (advance u m)"
proof -
  have "takeWhile P (u @ s) = u" using assms(1,2) by (cases s) (auto simp: takeWhile_append)
  with assms(3,4) eat_advance [OF assms(4)] show ?thesis by (simp add: rx_first_def run_lengths_def Let_def)
qed

lemma rx_first_lit: "ahead m = w @ s \<Longrightarrow> rx_first (lit w) m = Some (advance w m)"
  by (simp add: rx_first_def rxm_lit eat_advance)

lemma rx_first_ci:
  assumes "ahead m = u @ s" and "to_lower u = to_lower w"
  shows "rx_first (ci w) m = Some (advance u m)"
  using assms
proof (induction w arbitrary: u m)
  case Nil
  then show ?case by (simp add: ci_def rx_seq_def rx_first_def to_lower_def advance_def)
next
  case (Cons c w)
  then obtain d v where u: "u = d # v" "lower_char d = lower_char c" "to_lower v = to_lower w"
    by (cases u) (auto simp: to_lower_def)
  have one: "rx_first (ci_char c) m = Some (advance [d] m)"
    using Cons.prems(1) u by (simp add: rx_first_def ci_char_def eat_def advance_def)
  have "ahead (advance [d] m) = v @ s" using Cons.prems(1) u by simp
  from Cons.IH [OF this u(3)] have "rx_first (rx_seq (map ci_char w)) (advance [d] m) = Some (advance v (advance [d] m))"
    by (simp add: ci_def)
  from rx_first_seq [OF one this] show ?case
    using Cons.prems(1) by (simp add: ci_def u(1) advance_def)
qed

lemma rxm_ci_other:
  assumes "w \<noteq> []" and "ahead m = [] \<or> lower_char (hd (ahead m)) \<noteq> lower_char (hd w)"
  shows "rxm (ci w) m = []"
  using assms by (cases w; cases "ahead m") (auto simp: ci_def ci_char_def rx_seq_def)

lemma search_from_first:
  assumes "\<forall>p<a. rxm r (start_at s p) = []" and "rx_first r (start_at s a) = Some m" and "a \<le> length s"
  shows "rx_search r s 0 = Some (a, length (behind m), groups m)"
proof -
  have at: "match_at r s a = Some (length (behind m), groups m)"
    using assms(2) by (auto simp: rx_first_def match_at_def split: list.splits)
  have skip: "search_from r s (ps @ a # qs) = Some (a, length (behind m), groups m)" if "\<forall>p\<in>set ps. p < a" for ps qs
    using that
  proof (induction ps)
    case (Cons p ps)
    then have "rxm r (start_at s p) = []" using assms(1) by simp
    then have "match_at r s p = None" by (simp add: match_at_def)
    with Cons show ?case by simp
  qed (simp add: at)
  have "[0..<Suc (length s)] = [0..<a] @ a # [Suc a..<Suc (length s)]"
    using assms(3) upt_add_eq_append [of 0 a "Suc (length s) - a"] upt_conv_Cons [of a "Suc (length s)"]
    by (simp del: upt_Suc)
  with skip [of "[0..<a]" "[Suc a..<Suc (length s)]"] show ?thesis by (simp add: rx_search_def del: upt_Suc)
qed

end
