(* ===== verification/Tokenizer.thy ===== *)
theory Tokenizer
  imports Regex "HOL-Library.AList"
begin

text \<open>
  The tokenizer of the redaction engine (\<^verbatim>\<open>pkg/redact/tokenizer.go\<close>): deterministic tokens for secrets, their
  maps in both directions, the tracking of duplicates, files and correlations, and the encrypted redaction
  map. A Go map is an association list with distinct keys, in the order the runtime happens to iterate it.
  Parameters are HMAC-SHA256 (\<open>hmac key message\<close>, the raw bytes), the clock, the random nonces, and the
  sealing and opening of AES-GCM. The mutex is not modelled: every operation holds it from its start to its
  end, so operations are steps on the state.
\<close>

section \<open>State\<close>

definition MASK_TEXT :: string where "MASK_TEXT = ''***HIDDEN***''"

record tokenizer_config =
  enabled :: bool
  salt :: string
  default_prefix :: string
  token_format :: "string \<Rightarrow> string \<Rightarrow> string"
  hash_length :: nat

record file_stats =
  fs_path :: string
  secrets_found :: nat
  tokens_used :: nat
  secret_types :: "(string \<times> nat) list"
  processed_at :: int

record duplicate_group =
  dg_hash :: string
  dg_token :: string
  dg_type :: string
  dg_locations :: "string list"
  dg_count :: nat
  first_seen :: int
  last_seen :: int

record correlation_group =
  cg_pattern :: string
  cg_tokens :: "string list"
  cg_files :: "string list"

record cache_stats =
  cache_hits :: nat
  cache_misses :: nat
  cache_total :: nat

record tokenizer =
  config :: tokenizer_config
  token_map :: "(string \<times> string) list"
  reverse_map :: "(string \<times> string) list"
  secret_refs :: "(string \<times> string list) list"
  duplicate_groups :: "(string \<times> duplicate_group) list"
  correlations :: "correlation_group list"
  stats_of_files :: "(string \<times> file_stats) list"
  cache :: cache_stats
  normalized_secrets :: "(string \<times> string) list"
  secret_hashes :: "(string \<times> string) list"

definition default_token_format :: "string \<Rightarrow> string \<Rightarrow> string" where
  "default_token_format prefix hash = ''***TOKEN_'' @ prefix @ ''_'' @ hash @ ''***''"

text \<open>\<open>NewTokenizer\<close>, with the salt it has been given or has drawn.\<close>

definition new_tokenizer :: "bool \<Rightarrow> string \<Rightarrow> string \<Rightarrow> nat \<Rightarrow> tokenizer" where
  "new_tokenizer en slt prefix hl =
     \<lparr>config = \<lparr>enabled = en, salt = slt, default_prefix = (if prefix = [] then ''GENERIC'' else prefix),
        token_format = default_token_format, hash_length = (if hl = 0 then 6 else hl)\<rparr>,
      token_map = [], reverse_map = [], secret_refs = [], duplicate_groups = [], correlations = [],
      stats_of_files = [], cache = \<lparr>cache_hits = 0, cache_misses = 0, cache_total = 0\<rparr>,
      normalized_secrets = [], secret_hashes = []\<rparr>"

text \<open>\<open>Reset\<close> keeps the configuration.\<close>

definition reset_tokenizer :: "tokenizer \<Rightarrow> tokenizer" where
  "reset_tokenizer t =
     t\<lparr>token_map := [], reverse_map := [], secret_refs := [], duplicate_groups := [], correlations := [],
       stats_of_files := [], cache := \<lparr>cache_hits = 0, cache_misses = 0, cache_total = 0\<rparr>,
       normalized_secrets := [], secret_hashes := []\<rparr>"

section \<open>Classification\<close>

definition email_char :: "char \<Rightarrow> bool" where
  "email_char c \<longleftrightarrow> (word_char c \<or> c \<in> {CHR ''.'', CHR ''%'', CHR ''+'', CHR ''-''})"

definition host_char :: "char \<Rightarrow> bool" where
  "host_char c \<longleftrightarrow> (word_char c \<and> c \<noteq> CHR ''_'') \<or> c \<in> {CHR ''.'', CHR ''-''}"

definition letter :: "char \<Rightarrow> bool" where
  "letter c \<longleftrightarrow> (let n = (of_char c :: nat) in (65 \<le> n \<and> n \<le> 90) \<or> (97 \<le> n \<and> n \<le> 122))"

definition type_pattern :: "string \<Rightarrow> rx" where
  "type_pattern prefix =
     (if prefix = ''PASSWORD'' then rx_alt [ci ''password'', ci ''passwd'', ci ''pwd'']
      else if prefix = ''APIKEY''
      then rx_alt [rx_seq [ci ''api'', opt_of any_char, ci ''key''], ci ''apikey'',
                   rx_seq [ci ''access'', opt_of any_char, ci ''key'']]
      else if prefix = ''DATABASE''
      then rx_alt [ci ''database'', rx_seq [ci ''db'', opt_of any_char,
             Grp 1 (rx_alt [ci ''url'', ci ''uri'', ci ''host'', ci ''pass'', ci ''connection''])]]
      else if prefix = ''EMAIL''
      then rx_seq [plus_of email_char, lit ''@'', plus_of host_char, lit ''.'', Rep letter 2 None]
      else if prefix = ''IP''
      then rx_seq [WordB, Rep is_digit 1 (Some 3), lit ''.'', Rep is_digit 1 (Some 3), lit ''.'',
                   Rep is_digit 1 (Some 3), lit ''.'', Rep is_digit 1 (Some 3), WordB]
      else if prefix = ''TOKEN'' then rx_alt [ci ''token'', ci ''bearer'', ci ''jwt'', ci ''oauth'']
      else if prefix = ''SECRET'' then rx_alt [ci ''secret'', rx_seq [ci ''private'', opt_of any_char, ci ''key'']]
      else if prefix = ''CREDENTIAL'' then rx_alt [ci ''credential'', ci ''cred'', ci ''auth'']
      else rx_alt [ci ''key'', ci ''cert'', ci ''certificate''])"

definition specific_prefixes :: "string list" where
  "specific_prefixes =
     [''APIKEY'', ''PASSWORD'', ''DATABASE'', ''CREDENTIAL'', ''SECRET'', ''TOKEN'', ''KEY'']"

definition classify_secret :: "tokenizer_config \<Rightarrow> string \<Rightarrow> string \<Rightarrow> string" where
  "classify_secret cfg context val =
     (case List.find (\<lambda>p. rx_matches (type_pattern p) (to_lower context)) specific_prefixes of
        Some p \<Rightarrow> p
      | None \<Rightarrow>
          if rx_matches (type_pattern ''EMAIL'') val then ''EMAIL''
          else if rx_matches (type_pattern ''IP'') val then ''IP''
          else case List.find (\<lambda>p. contains_sub (to_lower p) (to_lower val)) specific_prefixes of
                 Some p \<Rightarrow> p
               | None \<Rightarrow> default_prefix cfg)"

section \<open>Tokens\<close>

definition hex_byte :: "char \<Rightarrow> string" where
  "hex_byte c = (let n = (of_char c :: nat) in [hex_char (n div 16), hex_char (n mod 16)])"

definition hex_encode :: "string \<Rightarrow> string" where
  "hex_encode bs = concat (map hex_byte bs)"

definition token_free :: "(string \<times> string) list \<Rightarrow> string \<Rightarrow> string \<Rightarrow> bool" where
  "token_free rev_map val tok \<longleftrightarrow>
     (case map_of rev_map tok of None \<Rightarrow> True | Some v \<Rightarrow> v = val)"

definition numbered :: "string \<Rightarrow> nat \<Rightarrow> string" where
  "numbered base counter = base @ ''_'' @ show_nat counter"

definition resolve_collision :: "(string \<times> string) list \<Rightarrow> int \<Rightarrow> string \<Rightarrow> string \<Rightarrow> string" where
  "resolve_collision rev_map now base val =
     (if token_free rev_map val base then base
      else case List.find (\<lambda>c. token_free rev_map val (numbered base c)) [1..<101] of
             Some c \<Rightarrow> numbered base c
           | None \<Rightarrow>
               if has_suffix ''***'' base
               then trim_suffix ''***'' base @ ''_'' @ show_int (now mod 10000) @ ''***''
               else base @ ''_'' @ show_int (now mod 10000))"

definition base_token :: "(string \<Rightarrow> string \<Rightarrow> string) \<Rightarrow> tokenizer_config \<Rightarrow> string \<Rightarrow> string \<Rightarrow> string" where
  "base_token hmac cfg val context =
     (let hash = hex_encode (hmac (salt cfg) (val @ context))
      in token_format cfg (classify_secret cfg context val) (to_upper (take (hash_length cfg) hash)))"

definition generate_token ::
  "(string \<Rightarrow> string \<Rightarrow> string) \<Rightarrow> int \<Rightarrow> tokenizer \<Rightarrow> string \<Rightarrow> string \<Rightarrow> string" where
  "generate_token hmac now t val context =
     resolve_collision (reverse_map t) now (base_token hmac (config t) val context) val"

definition validate_token_rx :: rx where
  "validate_token_rx =
     rx_seq [BeginText, lit ''***TOKEN_'', plus_of (\<lambda>c. 65 \<le> (of_char c :: nat) \<and> (of_char c :: nat) \<le> 90), lit ''_'',
       plus_of (\<lambda>c. is_digit c \<or> (65 \<le> (of_char c :: nat) \<and> (of_char c :: nat) \<le> 70)),
       Grp 1 (Alt (lit ''***'') (rx_seq [lit ''_'', plus_of is_digit, lit ''***''])), EndText]"

definition validate_token :: "string \<Rightarrow> bool" where
  "validate_token tok = rx_matches validate_token_rx tok"

section \<open>Normalization\<close>

definition lower_short :: "string \<Rightarrow> string" where
  "lower_short v = (if length v < 8 \<and> v \<noteq> [] \<and> list_all letter v then to_lower v else v)"

definition strip_prefixes :: "string \<Rightarrow> string" where
  "strip_prefixes v =
     (case List.find (\<lambda>p. has_prefix p v)
         [''Bearer '', ''Basic '', ''Token '', ''API_KEY='', ''PASSWORD='', ''SECRET=''] of
        None \<Rightarrow> v | Some p \<Rightarrow> trim_prefix p v)"

text \<open>The slice \<^verbatim>\<open>value[1 : len(value)-1]\<close> of a value of one character is out of range.\<close>

definition strip_quotes :: "string \<Rightarrow> string res" where
  "strip_quotes v =
     (if (has_prefix [CHR 0x22] v \<and> has_suffix [CHR 0x22] v) \<or> (has_prefix [CHR 0x27] v \<and> has_suffix [CHR 0x27] v)
      then if length v < 2 then Panic ''slice bounds out of range [1:0]'' else Ok (butlast (tl v))
      else Ok v)"

definition around :: "char \<Rightarrow> regexp" where
  "around c = \<lparr>rx_prog = rx_seq [star re_space, lit [c], star re_space], subexp_names = [[]]\<rparr>"

definition normalize_value :: "string \<Rightarrow> string res" where
  "normalize_value original =
     map_res (\<lambda>v. replace_all_rx (around (CHR ''@'')) (replace_all_rx (around (CHR '':'')) v '':'') ''@'')
       (strip_quotes (strip_prefixes (lower_short (trim_space original))))"

definition normalize_secret :: "tokenizer \<Rightarrow> string \<Rightarrow> (string \<times> tokenizer) res" where
  "normalize_secret t original =
     map_res (\<lambda>v. (v, if v \<noteq> original
        then t\<lparr>cache := (cache t)\<lparr>cache_total := cache_total (cache t) + 1\<rparr>,
               normalized_secrets := AList.update v original (normalized_secrets t)\<rparr>
        else t))
       (normalize_value original)"

section \<open>Tracking\<close>

definition lookup_list :: "(string \<times> 'a list) list \<Rightarrow> string \<Rightarrow> 'a list" where
  "lookup_list m k = (case map_of m k of None \<Rightarrow> [] | Some xs \<Rightarrow> xs)"

definition add_secret_reference :: "string \<Rightarrow> string \<Rightarrow> tokenizer \<Rightarrow> tokenizer" where
  "add_secret_reference tok path t =
     (let files = lookup_list (secret_refs t) tok in
      if path \<in> set files then t
      else t\<lparr>secret_refs := AList.update tok (files @ [path]) (secret_refs t)\<rparr>)"

definition track_duplicate_secret ::
  "int \<Rightarrow> string \<Rightarrow> string \<Rightarrow> string \<Rightarrow> string \<Rightarrow> tokenizer \<Rightarrow> tokenizer" where
  "track_duplicate_secret now hash tok ty path t =
     (let g' = (case map_of (duplicate_groups t) hash of
                  Some g \<Rightarrow> g\<lparr>dg_count := dg_count g + 1, last_seen := now,
                              dg_locations := (if path \<in> set (dg_locations g) then dg_locations g
                                               else dg_locations g @ [path])\<rparr>
                | None \<Rightarrow> \<lparr>dg_hash = hash, dg_token = tok, dg_type = ty, dg_locations = [path],
                           dg_count = 1, first_seen = now, last_seen = now\<rparr>)
      in t\<lparr>duplicate_groups := AList.update hash g' (duplicate_groups t)\<rparr>)"

definition lookup_nat :: "(string \<times> nat) list \<Rightarrow> string \<Rightarrow> nat" where
  "lookup_nat m k = (case map_of m k of None \<Rightarrow> 0 | Some n \<Rightarrow> n)"

definition update_file_stats :: "int \<Rightarrow> string \<Rightarrow> string \<Rightarrow> tokenizer \<Rightarrow> tokenizer" where
  "update_file_stats now path ty t =
     (let st = (case map_of (stats_of_files t) path of
                  Some st \<Rightarrow> st
                | None \<Rightarrow> \<lparr>fs_path = path, secrets_found = 0, tokens_used = 0, secret_types = [],
                           processed_at = now\<rparr>)
      in t\<lparr>stats_of_files := AList.update path
             (st\<lparr>secrets_found := secrets_found st + 1, tokens_used := tokens_used st + 1,
                 secret_types := AList.update ty (lookup_nat (secret_types st) ty + 1) (secret_types st),
                 processed_at := now\<rparr>)
             (stats_of_files t)\<rparr>)"

definition generate_secret_hash :: "(string \<Rightarrow> string \<Rightarrow> string) \<Rightarrow> string \<Rightarrow> string" where
  "generate_secret_hash hmac val = hex_encode (take 16 (hmac ''secret-hash-salt'' val))"

text \<open>What both branches of \<open>TokenizeValueWithPath\<close> do when a path is given.\<close>

definition track_use ::
  "(string \<Rightarrow> string \<Rightarrow> string) \<Rightarrow> int \<Rightarrow> string \<Rightarrow> string \<Rightarrow> string \<Rightarrow> string \<Rightarrow> string \<Rightarrow> tokenizer \<Rightarrow> tokenizer" where
  "track_use hmac now tok val normalized context path t =
     (if path = [] then t
      else let ty = classify_secret (config t) context val in
           track_duplicate_secret now (generate_secret_hash hmac normalized) tok ty path
             (update_file_stats now path ty (add_secret_reference tok path t)))"

definition tokenize_value_with_path ::
  "(string \<Rightarrow> string \<Rightarrow> string) \<Rightarrow> int \<Rightarrow> string \<Rightarrow> string \<Rightarrow> string \<Rightarrow> tokenizer \<Rightarrow> (string \<times> tokenizer) res" where
  "tokenize_value_with_path hmac now val context path t =
     (if \<not> enabled (config t) \<or> val = [] then Ok (MASK_TEXT, t)
      else bind_res (normalize_secret t val) (\<lambda>(nv, t1).
        let c = cache t1; t2 = t1\<lparr>cache := c\<lparr>cache_total := cache_total c + 1\<rparr>\<rparr> in
        case map_of (token_map t2) nv of
          Some tok \<Rightarrow>
            Ok (tok, track_use hmac now tok val nv context path
                       (t2\<lparr>cache := (cache t2)\<lparr>cache_hits := cache_hits (cache t2) + 1\<rparr>\<rparr>))
        | None \<Rightarrow>
            let t3 = t2\<lparr>cache := (cache t2)\<lparr>cache_misses := cache_misses (cache t2) + 1\<rparr>\<rparr>;
                tok = generate_token hmac now t3 nv context;
                t4 = t3\<lparr>token_map := AList.update nv tok (token_map t3),
                        reverse_map := AList.update tok val (reverse_map t3),
                        secret_hashes := AList.update nv (generate_secret_hash hmac nv) (secret_hashes t3)\<rparr>
            in Ok (tok, track_use hmac now tok val nv context path t4)))"

definition tokenize_value ::
  "(string \<Rightarrow> string \<Rightarrow> string) \<Rightarrow> int \<Rightarrow> string \<Rightarrow> string \<Rightarrow> tokenizer \<Rightarrow> (string \<times> tokenizer) res" where
  "tokenize_value hmac now val context t = tokenize_value_with_path hmac now val context [] t"

section \<open>Correlations and the redaction map\<close>

definition add_missing :: "string list \<Rightarrow> string \<Rightarrow> string list" where
  "add_missing files f = (if f \<in> set files then files else files @ [f])"

definition correlate ::
  "string \<Rightarrow> (string \<Rightarrow> bool) \<Rightarrow> (string \<times> string list) list \<Rightarrow> correlation_group list" where
  "correlate pat relevant refs =
     (let rel = filter (\<lambda>(tok, _). relevant tok) refs;
          toks = map fst rel;
          files = foldl (\<lambda>fs (_, new). foldl add_missing fs new) [] rel
      in if 2 \<le> length toks \<and> 1 \<le> length files
         then [\<lparr>cg_pattern = pat, cg_tokens = toks, cg_files = files\<rparr>] else [])"

definition analyze_correlations :: "tokenizer \<Rightarrow> tokenizer" where
  "analyze_correlations t =
     t\<lparr>correlations :=
        correlate ''database_credentials'' (\<lambda>k. contains_sub ''DATABASE'' k \<or> contains_sub ''PASSWORD'' k) (secret_refs t) @
        correlate ''aws_credentials'' (\<lambda>k. contains_sub ''APIKEY'' k \<or> contains_sub ''SECRET'' k) (secret_refs t) @
        correlate ''api_authentication'' (\<lambda>k. contains_sub ''APIKEY'' k \<or> contains_sub ''TOKEN'' k) (secret_refs t)\<rparr>"

record redaction_map =
  rm_tokens :: "(string \<times> string) list"
  total_secrets :: nat
  tokens_generated :: nat
  secrets_by_type :: "(string \<times> nat) list"
  files_covered :: nat
  duplicate_count :: nat
  correlation_count :: nat
  normalization_hits :: nat
  rm_cache_hits :: nat
  rm_cache_misses :: nat
  file_coverage :: "(string \<times> file_stats) list"
  rm_profile :: string
  rm_secret_refs :: "(string \<times> string list) list"
  rm_duplicates :: "duplicate_group list"
  rm_correlations :: "correlation_group list"
  is_encrypted :: bool

definition token_type :: "string \<Rightarrow> string option" where
  "token_type tok =
     (case split_on (CHR ''_'') tok of
        _ # _ # ty # _ \<Rightarrow> if has_prefix ''***TOKEN_'' tok then Some ty else None
      | _ \<Rightarrow> None)"

definition count_type :: "(string \<times> nat) list \<Rightarrow> string \<Rightarrow> (string \<times> nat) list" where
  "count_type m tok =
     (case token_type tok of None \<Rightarrow> m | Some ty \<Rightarrow> AList.update ty (lookup_nat m ty + 1) m)"

definition get_redaction_map :: "string \<Rightarrow> tokenizer \<Rightarrow> redaction_map \<times> tokenizer" where
  "get_redaction_map profile t =
     (let t' = analyze_correlations t in
      (\<lparr>rm_tokens = reverse_map t', total_secrets = length (token_map t'),
        tokens_generated = length (reverse_map t'),
        secrets_by_type = foldl count_type [] (map fst (reverse_map t')),
        files_covered = length (stats_of_files t'),
        duplicate_count = length (filter (\<lambda>(_, g). dg_count g > 1) (duplicate_groups t')),
        correlation_count = length (correlations t'),
        normalization_hits = length (normalized_secrets t'),
        rm_cache_hits = cache_hits (cache t'), rm_cache_misses = cache_misses (cache t'),
        file_coverage = stats_of_files t', rm_profile = profile, rm_secret_refs = secret_refs t',
        rm_duplicates = map snd (duplicate_groups t'), rm_correlations = correlations t',
        is_encrypted = False\<rparr>, t'))"

definition get_duplicate_groups :: "tokenizer \<Rightarrow> duplicate_group list" where
  "get_duplicate_groups t = filter (\<lambda>g. dg_count g > 1) (map snd (duplicate_groups t))"

definition get_token_count :: "tokenizer \<Rightarrow> nat" where
  "get_token_count t = length (token_map t)"

text \<open>\<open>hex.DecodeString\<close>: pairs of hexadecimal digits of either case, nothing else.\<close>

definition hex_digit :: "char \<Rightarrow> nat option" where
  "hex_digit c = (let n = (of_char c :: nat) in
     if 48 \<le> n \<and> n \<le> 57 then Some (n - 48)
     else if 97 \<le> n \<and> n \<le> 102 then Some (n - 87)
     else if 65 \<le> n \<and> n \<le> 70 then Some (n - 55) else None)"

fun hex_decode :: "string \<Rightarrow> string option" where
  "hex_decode [] = Some []"
| "hex_decode [c] = None"
| "hex_decode (c # d # s) =
     (case (hex_digit c, hex_digit d) of
        (Some a, Some b) \<Rightarrow> map_option (\<lambda>bs. char_of (16 * a + b) # bs) (hex_decode s)
      | _ \<Rightarrow> None)"

definition encrypt_redaction_map ::
  "(string \<Rightarrow> string \<Rightarrow> string) \<Rightarrow> (string \<Rightarrow> string) \<Rightarrow> redaction_map \<Rightarrow> redaction_map" where
  "encrypt_redaction_map seal nonce_of m =
     m\<lparr>rm_tokens := map (\<lambda>(tok, orig). (tok, hex_encode (nonce_of tok @ seal (nonce_of tok) orig))) (rm_tokens m),
       is_encrypted := True\<rparr>"

text \<open>Entries that do not decode, are too short or do not open are skipped.\<close>

definition decrypt_entry ::
  "nat \<Rightarrow> (string \<Rightarrow> string \<Rightarrow> string option) \<Rightarrow> string \<Rightarrow> string option" where
  "decrypt_entry nonce_size opn enc =
     (case hex_decode enc of
        None \<Rightarrow> None
      | Some bs \<Rightarrow> if length bs < nonce_size then None else opn (take nonce_size bs) (drop nonce_size bs))"

definition decrypt_redaction_map ::
  "nat \<Rightarrow> (string \<Rightarrow> string \<Rightarrow> string option) \<Rightarrow> redaction_map \<Rightarrow> redaction_map" where
  "decrypt_redaction_map nonce_size opn m =
     (if \<not> is_encrypted m then m
      else m\<lparr>rm_tokens := List.map_filter
               (\<lambda>(tok, enc). map_option (Pair tok) (decrypt_entry nonce_size opn enc)) (rm_tokens m),
             is_encrypted := False\<rparr>)"

section \<open>Lemmas\<close>

lemma add_secret_reference_fields [simp]:
  "token_map (add_secret_reference tok path t) = token_map t"
  "reverse_map (add_secret_reference tok path t) = reverse_map t"
  "config (add_secret_reference tok path t) = config t"
  by (simp_all add: add_secret_reference_def Let_def)

lemma track_duplicate_fields [simp]:
  "token_map (track_duplicate_secret now h tok ty path t) = token_map t"
  "reverse_map (track_duplicate_secret now h tok ty path t) = reverse_map t"
  "config (track_duplicate_secret now h tok ty path t) = config t"
  by (simp_all add: track_duplicate_secret_def Let_def)

lemma update_file_stats_fields [simp]:
  "token_map (update_file_stats now path ty t) = token_map t"
  "reverse_map (update_file_stats now path ty t) = reverse_map t"
  "config (update_file_stats now path ty t) = config t"
  by (simp_all add: update_file_stats_def Let_def)

lemma track_use_fields [simp]:
  "token_map (track_use hmac now tok val nv context path t) = token_map t"
  "reverse_map (track_use hmac now tok val nv context path t) = reverse_map t"
  "config (track_use hmac now tok val nv context path t) = config t"
  by (simp_all add: track_use_def Let_def)

lemma normalize_secret_Ok:
  assumes "normalize_secret t val = Ok (nv, t')"
  shows "normalize_value val = Ok nv" "token_map t' = token_map t" "reverse_map t' = reverse_map t" "config t' = config t"
  using assms by (auto simp: normalize_secret_def res_simps)

text \<open>A tokenization, seen through the two maps.\<close>

lemma tokenize_cases:
  assumes "tokenize_value_with_path hmac now val context path t = Ok (tok, t')" "enabled (config t)" "val \<noteq> []"
  obtains (hit) nv where "normalize_value val = Ok nv" "map_of (token_map t) nv = Some tok"
      "token_map t' = token_map t" "reverse_map t' = reverse_map t" "config t' = config t"
    | (miss) nv where "normalize_value val = Ok nv" "map_of (token_map t) nv = None"
      "tok = resolve_collision (reverse_map t) now (base_token hmac (config t) nv context) nv"
      "token_map t' = AList.update nv tok (token_map t)" "reverse_map t' = AList.update tok val (reverse_map t)"
      "config t' = config t"
proof -
  from assms obtain nv t1 where n: "normalize_secret t val = Ok (nv, t1)"
    by (auto simp: tokenize_value_with_path_def res_simps)
  note f = normalize_secret_Ok [OF n]
  show thesis
  proof (cases "map_of (token_map t) nv")
    case (Some tok')
    with assms n f have "tok' = tok" "token_map t' = token_map t" "reverse_map t' = reverse_map t" "config t' = config t"
      by (auto simp: tokenize_value_with_path_def Let_def)
    with Some f(1) show thesis by (intro hit) simp_all
  next
    case None
    with assms n f show thesis
      by (intro miss [of nv]) (auto simp: tokenize_value_with_path_def Let_def generate_token_def)
  qed
qed

lemma tokenize_config:
  "tokenize_value_with_path hmac now val context path t = Ok (tok, t') \<Longrightarrow> config t' = config t"
proof (cases "enabled (config t) \<and> val \<noteq> []")
  case True
  assume "tokenize_value_with_path hmac now val context path t = Ok (tok, t')"
  then show ?thesis using True by (elim tokenize_cases) auto
qed (auto simp: tokenize_value_with_path_def)

lemma tokenize_keeps:
  assumes "tokenize_value_with_path hmac now val context path t = Ok (tok, t')"
    and "map_of (token_map t) nv = Some tok'"
  shows "map_of (token_map t') nv = Some tok'"
proof (cases "enabled (config t) \<and> val \<noteq> []")
  case True
  with assms(1) show ?thesis
  proof (elim tokenize_cases, simp, simp)
    fix nv' assume "map_of (token_map t) nv' = None" "token_map t' = AList.update nv' tok (token_map t)"
    then show ?thesis using assms(2) by (auto simp: update_conv')
  qed (use assms(2) in simp)
qed (use assms in \<open>auto simp: tokenize_value_with_path_def\<close>)

record secret_use =
  use_time :: int
  use_value :: string
  use_context :: string
  use_path :: string

fun tokenize_all ::
  "(string \<Rightarrow> string \<Rightarrow> string) \<Rightarrow> secret_use list \<Rightarrow> tokenizer \<Rightarrow> (string list \<times> tokenizer) res" where
  "tokenize_all hmac [] t = Ok ([], t)"
| "tokenize_all hmac (u # us) t =
     bind_res (tokenize_value_with_path hmac (use_time u) (use_value u) (use_context u) (use_path u) t)
       (\<lambda>(tok, t'). bind_res (tokenize_all hmac us t') (\<lambda>(toks, t''). Ok (tok # toks, t'')))"

lemma tokenize_all_Cons:
  assumes "tokenize_all hmac (u # us) t = Ok (toks, t'')"
  obtains tok t' rest where
    "tokenize_value_with_path hmac (use_time u) (use_value u) (use_context u) (use_path u) t = Ok (tok, t')"
    "tokenize_all hmac us t' = Ok (rest, t'')" "toks = tok # rest"
  using assms by (auto simp: res_simps split: prod.splits)

lemma tokenize_all_keeps:
  "tokenize_all hmac us t = Ok (toks, t') \<Longrightarrow>
   config t' = config t \<and> (map_of (token_map t) nv = Some tok \<longrightarrow> map_of (token_map t') nv = Some tok)"
proof (induction us arbitrary: t toks)
  case (Cons u us)
  from Cons.prems obtain tk t1 rest where
    u: "tokenize_value_with_path hmac (use_time u) (use_value u) (use_context u) (use_path u) t = Ok (tk, t1)"
    and us: "tokenize_all hmac us t1 = Ok (rest, t')" by (rule tokenize_all_Cons)
  from Cons.IH [OF us] tokenize_config [OF u] tokenize_keeps [OF u] show ?case by auto
qed simp

lemma tokenize_known:
  assumes "enabled (config t)" "val \<noteq> []" "normalize_value val = Ok nv" "map_of (token_map t) nv = Some tok"
  shows "\<exists>t'. tokenize_value_with_path hmac now val context path t = Ok (tok, t')"
  using assms by (auto simp: tokenize_value_with_path_def normalize_secret_def Let_def)

lemma tokenize_stored:
  assumes "tokenize_value_with_path hmac now val context path t = Ok (tok, t')" "enabled (config t)" "val \<noteq> []"
    and "normalize_value val = Ok nv"
  shows "map_of (token_map t') nv = Some tok"
  using assms(1-3)
proof (cases rule: tokenize_cases)
  case (miss nv')
  with assms(4) show ?thesis by (simp add: update_conv')
qed (use assms(4) in auto)

section \<open>Collisions\<close>

lemma numbered_inject [simp]: "numbered base c = numbered base d \<longleftrightarrow> c = d"
  by (simp add: numbered_def)

lemma numbered_not_base [simp]: "numbered base c \<noteq> base" "base \<noteq> numbered base c"
  by (simp_all add: numbered_def)

text \<open>Among the base token and its hundred variations one is free while fewer tokens are in use.\<close>

lemma some_candidate_free:
  assumes "length rev_map < n"
  shows "\<exists>k. (k = base \<or> (\<exists>c\<in>{1..<n}. k = numbered base c)) \<and> map_of rev_map k = None"
proof (rule ccontr)
  assume none: "\<not> ?thesis"
  let ?C = "insert base (numbered base ` {1..<n})"
  have "?C \<subseteq> fst ` set rev_map"
  proof
    fix k
    assume "k \<in> ?C"
    then have "k = base \<or> (\<exists>c\<in>{1..<n}. k = numbered base c)" by (simp add: image_iff)
    with none have "map_of rev_map k \<noteq> None" by (intro notI) (elim notE, intro exI conjI)
    then show "k \<in> fst ` set rev_map" by (simp add: map_of_eq_None_iff)
  qed
  then have "card ?C \<le> card (fst ` set rev_map)" by (rule card_mono [rotated]) simp
  also have "\<dots> \<le> length rev_map" by (metis card_length length_map set_map)
  also have "\<dots> < n" by (rule assms)
  moreover have "card ?C = Suc (n - 1)"
    by (simp add: card_image inj_on_def image_iff)
  ultimately show False by simp
qed

lemma resolve_collision_free:
  assumes "length rev_map \<le> 100"
  shows "token_free rev_map val (resolve_collision rev_map now base val)"
proof (cases "token_free rev_map val base")
  case False
  obtain k where k: "k = base \<or> (\<exists>c\<in>{1..<101}. k = numbered base c)" "map_of rev_map k = None"
    using some_candidate_free [of rev_map 101 base] assms by auto
  from k(2) have free: "token_free rev_map val k" by (simp add: token_free_def)
  with False k(1) obtain c where c: "c \<in> {1..<101}" "token_free rev_map val (numbered base c)" by blast
  from c(1) have "c \<in> set [1..<101]" unfolding set_upt .
  with c(2) have "List.find (\<lambda>c. token_free rev_map val (numbered base c)) [1..<101] \<noteq> None"
    unfolding find_None_iff by blast
  then obtain d where d: "List.find (\<lambda>c. token_free rev_map val (numbered base c)) [1..<101] = Some d"
    by blast
  then have "token_free rev_map val (numbered base d)" unfolding find_Some_iff by blast
  with False d show ?thesis by (simp add: resolve_collision_def del: upt_rec_numeral)
qed (simp add: resolve_collision_def)

lemma length_update: "length (AList.update k v al) \<le> Suc (length al)"
  by (induction al) auto

text \<open>For values that are their own normal form the two maps are inverse to each other.\<close>

definition tokens_inv :: "tokenizer \<Rightarrow> bool" where
  "tokens_inv t \<longleftrightarrow> (\<forall>v tok. map_of (token_map t) v = Some tok \<longrightarrow> map_of (reverse_map t) tok = Some v)"

lemma tokenize_inv:
  assumes run: "tokenize_value_with_path hmac now val context path t = Ok (tok, t')"
    and "enabled (config t)" "val \<noteq> []" "normalize_value val = Ok val"
    and inv: "tokens_inv t" and len: "length (reverse_map t) \<le> 100"
  shows "tokens_inv t' \<and> length (reverse_map t') \<le> Suc (length (reverse_map t)) \<and>
         map_of (token_map t') val = Some tok"
  using run assms(2,3)
proof (cases rule: tokenize_cases)
  case (hit nv)
  with assms show ?thesis by (simp add: tokens_inv_def)
next
  case (miss nv)
  then have nv: "nv = val" using assms(4) by simp
  have "token_free (reverse_map t) val tok" unfolding miss(3) nv by (rule resolve_collision_free [OF len])
  then have free: "map_of (reverse_map t) tok = None \<or> map_of (reverse_map t) tok = Some val"
    by (simp add: token_free_def split: option.splits)
  have "tokens_inv t'"
    unfolding tokens_inv_def miss(4,5) nv update_conv'
  proof (intro allI impI)
    fix v tok'
    assume v: "((map_of (token_map t))(val \<mapsto> tok)) v = Some tok'"
    show "((map_of (reverse_map t))(tok \<mapsto> val)) tok' = Some v"
    proof (cases "v = val")
      case False
      with v inv have "map_of (reverse_map t) tok' = Some v" by (simp add: tokens_inv_def)
      with free False show ?thesis by auto
    qed (use v in simp)
  qed
  with length_update show ?thesis by (simp add: miss(4,5) nv update_conv')
qed

lemma tokenize_all_inv:
  assumes "tokenize_all hmac us t = Ok (toks, t')" "enabled (config t)"
    and "\<forall>u\<in>set us. use_value u \<noteq> [] \<and> normalize_value (use_value u) = Ok (use_value u)"
    and "tokens_inv t" "length (reverse_map t) + length us \<le> 101"
  shows "tokens_inv t' \<and> length toks = length us \<and>
    (\<forall>i<length us. map_of (token_map t') (use_value (us ! i)) = Some (toks ! i))"
  using assms
proof (induction us arbitrary: t toks)
  case (Cons u us)
  from Cons.prems(1) obtain tok t1 rest where
    u: "tokenize_value_with_path hmac (use_time u) (use_value u) (use_context u) (use_path u) t = Ok (tok, t1)"
    and us: "tokenize_all hmac us t1 = Ok (rest, t')" and toks: "toks = tok # rest" by (rule tokenize_all_Cons)
  have one: "tokens_inv t1 \<and> length (reverse_map t1) \<le> Suc (length (reverse_map t)) \<and>
      map_of (token_map t1) (use_value u) = Some tok"
    by (rule tokenize_inv [OF u]) (use Cons.prems in auto)
  have rest: "tokens_inv t' \<and> length rest = length us \<and>
      (\<forall>i<length us. map_of (token_map t') (use_value (us ! i)) = Some (rest ! i))"
    by (rule Cons.IH [OF us]) (use Cons.prems one tokenize_config [OF u] in auto)
  have "map_of (token_map t') (use_value u) = Some tok"
    using tokenize_all_keeps [OF us] one by blast
  with rest show ?case by (auto simp: toks nth_Cons split: nat.splits)
qed simp

lemma tokens_inv_new: "tokens_inv (new_tokenizer en slt prefix hl)"
  by (simp add: tokens_inv_def new_tokenizer_def)

section \<open>The format of tokens\<close>

abbreviation upper_letter :: "char \<Rightarrow> bool" where
  "upper_letter c \<equiv> 65 \<le> (of_char c :: nat) \<and> (of_char c :: nat) \<le> 90"

abbreviation upper_hex :: "char \<Rightarrow> bool" where
  "upper_hex c \<equiv> is_digit c \<or> (65 \<le> (of_char c :: nat) \<and> (of_char c :: nat) \<le> 70)"

lemma rxm_seq_elem:
  "m' \<in> set (rxm (rx_seq (r # rs)) m) \<longleftrightarrow> (\<exists>m1\<in>set (rxm r m). m' \<in> set (rxm (rx_seq rs) m1))"
  by auto

lemma rxm_lit_elem:
  "m' \<in> set (rxm (lit w) m) \<longleftrightarrow> has_prefix w (ahead m) \<and> m' = eat (length w) m"
  by (auto simp: rxm_lit)

lemma rxm_grp_elem:
  "m' \<in> set (rxm (Grp i r) m) \<longleftrightarrow> (\<exists>m1\<in>set (rxm r m). m' = m1\<lparr>groups := (i, consumed m m1) # groups m1\<rparr>)"
  by auto

text \<open>A validated token ends with three asterisks.\<close>

lemma lit_behind: "m' \<in> set (rxm (lit w) m) \<Longrightarrow> \<exists>b. behind m' = rev w @ b"
  by (auto simp: rxm_lit_elem has_prefix_iff)

lemma validate_token_end:
  assumes "validate_token tok"
  shows "has_suffix ''***'' tok"
proof -
  obtain p m' where m': "m' \<in> set (rxm validate_token_rx (start_at tok p))"
    using assms by (auto simp: validate_token_def rx_matches_iff neq_Nil_conv) (metis list.set_intros(1))
  from rxm_forward [OF m'] have whole: "whole m' = tok" by simp
  let ?stars = "Alt (lit ''***'') (rx_seq [lit ''_'', plus_of is_digit, lit ''***''])"
  from m' obtain m1 m3 where m1: "m3 \<in> set (rxm (Grp 1 ?stars) m1)" "m' \<in> set (rxm (rx_seq [EndText]) m3)"
    unfolding validate_token_rx_def rxm_seq_elem by blast
  from m1(2) have end': "m' = m3" "ahead m3 = []" by (auto split: if_splits)
  from m1(1) obtain m2 where m2: "m2 \<in> set (rxm ?stars m1)" "m3 = m2\<lparr>groups := (1, consumed m1 m2) # groups m2\<rparr>"
    unfolding rxm_grp_elem by blast
  from m2(1) have "\<exists>ma. m2 \<in> set (rxm (lit ''***'') ma)"
  proof -
    from m2(1) have "m2 \<in> set (rxm (lit ''***'') m1) \<or>
        m2 \<in> set (rxm (rx_seq [lit ''_'', plus_of is_digit, lit ''***'']) m1)"
      unfolding rxm.simps(5) set_append by (rule UnE) blast+
    then show ?thesis unfolding rxm_seq_elem rx_seq_simps(1) list.set by blast
  qed
  then have "\<exists>b. behind m2 = rev ''***'' @ b" using lit_behind by blast
  then obtain b where "behind m2 = rev ''***'' @ b" ..
  then have "tok = rev b @ ''***''" using whole end' m2(2) by (simp add: whole_def)
  then show ?thesis by (auto simp: has_suffix_iff)
qed

text \<open>A token of the default format is accepted when its prefix and its hash are of the right letters.\<close>

lemma lit_path:
  assumes "ahead m = w @ s"
  shows "eat (length w) m \<in> set (rxm (lit w) m)"
  using assms by (simp add: rxm_lit)

lemma not_upper_underscore: "\<not> upper_letter (CHR ''_'')" "\<not> upper_hex (CHR ''*'')"
  by (simp_all add: is_digit_def)

lemma validate_default_token:
  assumes "prefix \<noteq> []" "\<forall>c\<in>set prefix. upper_letter c" "hash \<noteq> []" "\<forall>c\<in>set hash. upper_hex c"
  shows "validate_token (default_token_format prefix hash)"
proof -
  let ?tok = "default_token_format prefix hash"
  define m0 where "m0 = start_at ?tok 0"
  define m1 where "m1 = eat (length ''***TOKEN_'') m0"
  define m2 where "m2 = eat (length prefix) m1"
  define m3 where "m3 = eat (length ''_'') m2"
  define m4 where "m4 = eat (length hash) m3"
  define m5 where "m5 = eat (length ''***'') m4"
  have a0: "ahead m0 = ''***TOKEN_'' @ prefix @ ''_'' @ hash @ ''***''"
    by (simp add: m0_def default_token_format_def)
  then have a1: "ahead m1 = prefix @ ''_'' @ hash @ ''***''" by (simp add: m1_def)
  then have a2: "ahead m2 = ''_'' @ hash @ ''***''" by (simp add: m2_def)
  then have a3: "ahead m3 = hash @ ''***''" by (simp add: m3_def)
  then have a4: "ahead m4 = ''***''" by (simp add: m4_def)
  then have a5: "ahead m5 = []" by (simp add: m5_def)
  have s0: "m0 \<in> set (rxm BeginText m0)" by (simp add: m0_def)
  have s1: "m1 \<in> set (rxm (lit ''***TOKEN_'') m0)" unfolding m1_def by (rule lit_path [OF a0])
  have s2: "m2 \<in> set (rxm (plus_of upper_letter) m1)"
    unfolding m2_def by (rule rep_full [OF assms(2) _ _ a1]) (use assms(1) in \<open>auto simp: Suc_leI\<close>)
  have s3: "m3 \<in> set (rxm (lit ''_'') m2)" unfolding m3_def by (rule lit_path [OF a2])
  have s4: "m4 \<in> set (rxm (plus_of upper_hex) m3)"
    unfolding m4_def by (rule rep_full [OF assms(4) _ _ a3]) (use assms(3) in \<open>auto simp: Suc_leI is_digit_def\<close>)
  have s5: "m5 \<in> set (rxm (lit ''***'') m4)" unfolding m5_def by (rule lit_path) (simp add: a4)
  let ?g = "m5\<lparr>groups := (1, consumed m4 m5) # groups m5\<rparr>"
  have s6: "?g \<in> set (rxm (Grp 1 (Alt (lit ''***'') (rx_seq [lit ''_'', plus_of is_digit, lit ''***'']))) m4)"
    unfolding rxm_grp_elem rxm.simps(5) set_append using s5 by blast
  have "rxm (rx_seq [EndText]) ?g \<noteq> []" by (simp add: a5)
  note path = rx_match_path [OF s0 rx_match_path [OF s1 rx_match_path [OF s2 rx_match_path [OF s3
    rx_match_path [OF s4 rx_match_path [OF s6 this]]]]]]
  have "rxm validate_token_rx m0 \<noteq> []"
    unfolding validate_token_rx_def by (rule path)
  then show ?thesis
    unfolding validate_token_def rx_matches_iff m0_def by (intro exI [of _ 0]) simp
qed

lemma split_token:
  assumes "CHR ''_'' \<notin> set prefix" "CHR ''_'' \<notin> set hash"
  shows "split_on (CHR ''_'') (default_token_format prefix hash) = [''***TOKEN'', prefix, hash @ ''***'']"
proof -
  have "split_on (CHR ''_'') (''***TOKEN'' @ CHR ''_'' # prefix @ CHR ''_'' # (hash @ ''***'')) =
      [''***TOKEN'', prefix, hash @ ''***'']"
    by (rule split_on_three) (use assms in auto)
  then show ?thesis by (simp add: default_token_format_def)
qed

section \<open>Encryption\<close>

lemma hex_byte_decode: "hex_decode (hex_byte c @ s) = map_option (Cons c) (hex_decode s)"
proof -
  define n where "n = (of_char c :: nat)"
  have n: "n < 256" by (simp add: n_def)
  have digit: "hex_digit (hex_char d) = Some d" if "d < 16" for d
    using that by (auto simp: hex_digit_def hex_char_def)
  have "char_of (16 * (n div 16) + n mod 16) = c" by (simp add: n_def)
  moreover have "n div 16 < 16" "n mod 16 < 16" using n by auto
  ultimately show ?thesis
    by (simp add: hex_byte_def Let_def digit n_def [symmetric])
qed

lemma hex_decode_encode: "hex_decode (hex_encode bs) = Some bs"
proof (induction bs)
  case (Cons c bs)
  then show ?case using hex_byte_decode [of c "hex_encode bs"] by (simp add: hex_encode_def)
qed (simp add: hex_encode_def)

lemma map_filter_inverse:
  assumes "\<And>x. x \<in> set xs \<Longrightarrow> g (f x) = Some x"
  shows "List.map_filter g (map f xs) = xs"
  using assms by (induction xs) (auto simp: List.map_filter_def)

section \<open>Generated tokens\<close>

lemma upper_hex_hash: "\<forall>c\<in>set (to_upper (take n (hex_encode bs))). upper_hex c"
proof -
  have digit: "upper_hex (upper_char (hex_char d))" if "d < 16" for d
    using that by (auto simp: upper_char_def hex_char_def is_digit_def Let_def)
  have bound: "(of_char c :: nat) div 16 < 16 \<and> (of_char c :: nat) mod 16 < 16" for c :: char
  proof -
    have "(of_char c :: nat) < 256" by simp
    then show ?thesis by linarith
  qed
  have "set (hex_encode bs) \<subseteq> hex_char ` {..<16}"
    using bound by (auto simp: hex_encode_def hex_byte_def Let_def)
  then have "set (take n (hex_encode bs)) \<subseteq> hex_char ` {..<16}" by (blast dest: in_set_takeD)
  then show ?thesis using digit by (fastforce simp: to_upper_def)
qed

lemma specific_prefixes_upper: "\<forall>p\<in>set specific_prefixes. p \<noteq> [] \<and> (\<forall>c\<in>set p. upper_letter c)"
  by code_simp

lemma classify_upper:
  assumes "default_prefix cfg \<noteq> []" "\<forall>c\<in>set (default_prefix cfg). upper_letter c"
  shows "classify_secret cfg context val \<noteq> [] \<and> (\<forall>c\<in>set (classify_secret cfg context val). upper_letter c)"
proof -
  have found: "p \<noteq> [] \<and> (\<forall>c\<in>set p. upper_letter c)" if "List.find P specific_prefixes = Some p" for P p
  proof -
    from that have "p \<in> set specific_prefixes" unfolding find_Some_iff by auto
    with specific_prefixes_upper show ?thesis by blast
  qed
  have "''EMAIL'' \<noteq> [] \<and> (\<forall>c\<in>set ''EMAIL''. upper_letter c)" "''IP'' \<noteq> [] \<and> (\<forall>c\<in>set ''IP''. upper_letter c)"
    by simp_all
  with assms found show ?thesis
    unfolding classify_secret_def by (simp only: split: option.split if_split) blast
qed

definition default_config :: "tokenizer_config \<Rightarrow> bool" where
  "default_config cfg \<longleftrightarrow> token_format cfg = default_token_format \<and> hash_length cfg \<noteq> 0 \<and>
     default_prefix cfg \<noteq> [] \<and> list_all (\<lambda>c. upper_letter c) (default_prefix cfg)"

lemma base_token_valid:
  assumes "default_config cfg" and "hmac (salt cfg) (val @ context) \<noteq> []"
  shows "validate_token (base_token hmac cfg val context)"
proof -
  let ?hash = "to_upper (take (hash_length cfg) (hex_encode (hmac (salt cfg) (val @ context))))"
  have "hex_encode (hmac (salt cfg) (val @ context)) \<noteq> []"
    using assms(2) by (cases "hmac (salt cfg) (val @ context)") (simp_all add: hex_encode_def hex_byte_def Let_def)
  then have ne: "?hash \<noteq> []" using assms(1) by (simp add: default_config_def to_upper_def)
  have f: "token_format cfg = default_token_format" using assms(1) by (simp add: default_config_def)
  have prefix: "default_prefix cfg \<noteq> []" "\<forall>c\<in>set (default_prefix cfg). upper_letter c"
    using assms(1) by (simp_all add: default_config_def list_all_iff)
  note upper = classify_upper [OF prefix]
  have "validate_token (default_token_format (classify_secret cfg context val) ?hash)"
    by (rule validate_default_token [OF conjunct1 [OF upper] conjunct2 [OF upper] ne upper_hex_hash])
  then show ?thesis by (simp add: base_token_def Let_def f)
qed

lemma numbered_not_valid: "\<not> validate_token (numbered base c)"
proof
  assume "validate_token (numbered base c)"
  from validate_token_end [OF this] obtain u where "numbered base c = u @ ''***''"
    by (auto simp: has_suffix_iff)
  then have "last (numbered base c) = CHR ''*''" by simp
  moreover have "is_digit (last (numbered base c))"
    using show_nat_digits [of "last (show_nat c)" c] by (simp add: numbered_def)
  ultimately show False by (simp add: is_digit_def)
qed

lemma resolve_collision_cases:
  assumes "length rev_map \<le> 100" "\<not> token_free rev_map val base"
  shows "\<exists>c. resolve_collision rev_map now base val = numbered base c"
proof -
  obtain k where k: "k = base \<or> (\<exists>c\<in>{1..<101}. k = numbered base c)" "map_of rev_map k = None"
    using some_candidate_free [of rev_map 101 base] assms by auto
  from k(2) have "token_free rev_map val k" by (simp add: token_free_def)
  with assms(2) k(1) obtain c where c: "c \<in> {1..<101}" "token_free rev_map val (numbered base c)" by blast
  from c(1) have "c \<in> set [1..<101]" unfolding set_upt .
  with c(2) have "List.find (\<lambda>c. token_free rev_map val (numbered base c)) [1..<101] \<noteq> None"
    unfolding find_None_iff by blast
  then obtain d where "List.find (\<lambda>c. token_free rev_map val (numbered base c)) [1..<101] = Some d" by blast
  with assms(2) show ?thesis by (auto simp: resolve_collision_def simp del: upt_rec_numeral)
qed

section \<open>Properties\<close>

text \<open>
  One secret, one token: once a value has been tokenized, every later use of a value with the same
  normal form gets the same token, whatever was tokenized in between and whatever the context and the file.
\<close>

theorem same_secret_same_token:
  assumes "tokenize_value_with_path hmac now val context path t = Ok (tok, t1)"
    and "enabled (config t)" and "val \<noteq> []" and "val' \<noteq> []"
    and "tokenize_all hmac us t1 = Ok (toks, t2)"
    and "normalize_value val' = normalize_value val"
  shows "\<exists>t3. tokenize_value_with_path hmac now' val' context' path' t2 = Ok (tok, t3)"
proof -
  obtain nv where nv: "normalize_value val = Ok nv"
    using assms(1-3) by (cases rule: tokenize_cases) auto
  have "map_of (token_map t1) nv = Some tok" by (rule tokenize_stored [OF assms(1-3) nv])
  then have "map_of (token_map t2) nv = Some tok" using tokenize_all_keeps [OF assms(5)] by blast
  moreover have "enabled (config t2)"
    using tokenize_all_keeps [OF assms(5)] tokenize_config [OF assms(1)] assms(2) by simp
  ultimately show ?thesis using assms(4,6) nv by (intro tokenize_known) simp_all
qed

theorem same_secret_same_token_witness:
  "\<exists>t1 t2 tok toks. tokenize_value_with_path (\<lambda>k m. take 4 m) 0 ''hunter2!'' ''password'' ''a.txt''
       (new_tokenizer True ''s'' [] 0) = Ok (tok, t1) \<and>
     tokenize_all (\<lambda>k m. take 4 m) [] t1 = Ok (toks, t2) \<and>
     (\<exists>t3. tokenize_value_with_path (\<lambda>k m. take 4 m) 9 '' hunter2! '' ''other'' ''b.txt'' t2 = Ok (tok, t3))"
proof -
  let ?run = "tokenize_value_with_path (\<lambda>k m. take 4 m) 0 ''hunter2!'' ''password'' ''a.txt'' (new_tokenizer True ''s'' [] 0)"
  have "is_ok ?run" by code_simp
  then obtain tok t1 where run: "?run = Ok (tok, t1)" by (cases ?run) auto
  have "\<exists>t3. tokenize_value_with_path (\<lambda>k m. take 4 m) 9 '' hunter2! '' ''other'' ''b.txt'' t1 = Ok (tok, t3)"
  proof (rule same_secret_same_token [OF run])
    show "enabled (config (new_tokenizer True ''s'' [] 0))" by (simp add: new_tokenizer_def)
    show "tokenize_all (\<lambda>k m. take 4 m) [] t1 = Ok ([], t1)" by simp
    show "normalize_value '' hunter2! '' = normalize_value ''hunter2!''" by code_simp
  qed simp_all
  with run show ?thesis by auto
qed

text \<open>
  C24. Different secrets, different tokens: for up to 101 uses of values that are their own normal form, two
  uses have the same token exactly when they have the same value, whatever the hash function does, and the
  redaction map leads from each token back to its value.
\<close>

theorem distinct_secrets_distinct_tokens:
  assumes "tokenize_all hmac us (new_tokenizer True slt prefix hl) = Ok (toks, t)"
    and "\<forall>u\<in>set us. use_value u \<noteq> [] \<and> normalize_value (use_value u) = Ok (use_value u)"
    and "length us \<le> 101" and "i < length us" and "j < length us"
  shows "(toks ! i = toks ! j \<longleftrightarrow> use_value (us ! i) = use_value (us ! j)) \<and>
         map_of (reverse_map t) (toks ! i) = Some (use_value (us ! i))"
proof -
  have "enabled (config (new_tokenizer True slt prefix hl))" "length (reverse_map (new_tokenizer True slt prefix hl)) = 0"
    by (simp_all add: new_tokenizer_def)
  with tokenize_all_inv [OF assms(1) _ assms(2) tokens_inv_new] assms(3)
  have inv: "tokens_inv t" and map: "\<forall>i<length us. map_of (token_map t) (use_value (us ! i)) = Some (toks ! i)"
    by auto
  from map assms(4,5) have "map_of (token_map t) (use_value (us ! i)) = Some (toks ! i)"
    "map_of (token_map t) (use_value (us ! j)) = Some (toks ! j)" by auto
  with inv have "map_of (reverse_map t) (toks ! i) = Some (use_value (us ! i))"
    "map_of (reverse_map t) (toks ! j) = Some (use_value (us ! j))" by (auto simp: tokens_inv_def)
  then show ?thesis
    using \<open>map_of (token_map t) (use_value (us ! i)) = Some (toks ! i)\<close>
      \<open>map_of (token_map t) (use_value (us ! j)) = Some (toks ! j)\<close> by auto
qed

theorem distinct_secrets_distinct_tokens_witness:
  "\<exists>toks t. tokenize_all (\<lambda>k m. take 4 m)
     [\<lparr>use_time = 0, use_value = ''one-secret'', use_context = ''pwd'', use_path = []\<rparr>,
      \<lparr>use_time = 1, use_value = ''two-secret'', use_context = ''pwd'', use_path = []\<rparr>]
     (new_tokenizer True ''s'' [] 0) = Ok (toks, t) \<and> toks ! 0 \<noteq> toks ! 1"
proof -
  let ?us = "[\<lparr>use_time = 0, use_value = ''one-secret'', use_context = ''pwd'', use_path = []\<rparr>,
      \<lparr>use_time = 1, use_value = ''two-secret'', use_context = ''pwd'', use_path = []\<rparr>]"
  let ?run = "tokenize_all (\<lambda>k m. take 4 m) ?us (new_tokenizer True ''s'' [] 0)"
  have "is_ok ?run" by code_simp
  then obtain toks t where run: "?run = Ok (toks, t)" by (cases ?run) auto
  have n: "normalize_value ''one-secret'' = Ok ''one-secret''" "normalize_value ''two-secret'' = Ok ''two-secret''"
    by code_simp+
  from distinct_secrets_distinct_tokens [OF run, of 0 1] n have "toks ! 0 \<noteq> toks ! 1" by simp
  with run show ?thesis by blast
qed

text \<open>
  A new token passes \<open>ValidateToken\<close> exactly when its base token was free: the suffix that resolves a
  collision is put after the closing asterisks, where the expected format does not allow it.
\<close>

theorem collided_tokens_invalid:
  assumes "default_config (config t)" and "hmac (salt (config t)) (val @ context) \<noteq> []"
    and "length (reverse_map t) \<le> 100"
  shows "validate_token (generate_token hmac now t val context) \<longleftrightarrow>
         token_free (reverse_map t) val (base_token hmac (config t) val context)"
proof (cases "token_free (reverse_map t) val (base_token hmac (config t) val context)")
  case True
  then show ?thesis
    using base_token_valid [where hmac = hmac and cfg = "config t" and val = val, OF assms(1,2)] by (simp add: generate_token_def resolve_collision_def)
next
  case False
  from resolve_collision_cases [OF assms(3) False, of now] numbered_not_valid False show ?thesis
    by (auto simp: generate_token_def)
qed

theorem collided_tokens_invalid_witness:
  "\<not> validate_token (generate_token (\<lambda>_ _. ''x'') 0
       ((new_tokenizer True ''s'' [] 0)\<lparr>reverse_map := [(base_token (\<lambda>_ _. ''x'')
          (config (new_tokenizer True ''s'' [] 0)) ''b'' ''c'', ''a'')]\<rparr>) ''b'' ''c'')"
proof -
  let ?t = "(new_tokenizer True ''s'' [] 0)\<lparr>reverse_map := [(base_token (\<lambda>_ _. ''x'')
          (config (new_tokenizer True ''s'' [] 0)) ''b'' ''c'', ''a'')]\<rparr>"
  have "default_config (config ?t)" "length (reverse_map ?t) \<le> 100"
    by (simp_all add: new_tokenizer_def default_config_def)
  from collided_tokens_invalid [OF this(1) _ this(2), of "\<lambda>_ _. ''x''" "''b''" "''c''" 0]
  show ?thesis by (simp add: token_free_def)
qed

text \<open>
  The statistics of a redaction map count tokens by type, but read the hash: for a token of the default
  format the third part of the split at underscores is the hash with the closing asterisks.
\<close>

theorem secrets_by_type_counts_hashes:
  assumes "CHR ''_'' \<notin> set prefix" and "CHR ''_'' \<notin> set hash"
    and "reverse_map t = [(default_token_format prefix hash, val)]"
  shows "token_type (default_token_format prefix hash) = Some (hash @ ''***'') \<and>
         secrets_by_type (fst (get_redaction_map profile t)) = [(hash @ ''***'', 1)]"
proof -
  have p: "has_prefix ''***TOKEN_'' (default_token_format prefix hash)"
    unfolding default_token_format_def by (rule has_prefix_append)
  have ty: "token_type (default_token_format prefix hash) = Some (hash @ ''***'')"
    using p by (simp add: token_type_def split_token [OF assms(1,2)])
  moreover have "reverse_map (analyze_correlations t) = [(default_token_format prefix hash, val)]"
    using assms(3) by (simp add: analyze_correlations_def)
  ultimately show ?thesis by (simp add: get_redaction_map_def count_type_def lookup_nat_def Let_def)
qed

theorem secrets_by_type_counts_hashes_witness:
  "secrets_by_type (fst (get_redaction_map []
     ((new_tokenizer True ''s'' [] 0)\<lparr>reverse_map := [(default_token_format ''PASSWORD'' ''0A1B2C'', ''v'')]\<rparr>)))
   = [(''0A1B2C***'', 1)]"
proof -
  have "CHR ''_'' \<notin> set ''PASSWORD''" "CHR ''_'' \<notin> set ''0A1B2C''" by simp_all
  from secrets_by_type_counts_hashes [OF this, of "(new_tokenizer True ''s'' [] 0)\<lparr>reverse_map :=
      [(default_token_format ''PASSWORD'' ''0A1B2C'', ''v'')]\<rparr>" "''v''" "[]"]
  show ?thesis by simp
qed

text \<open>
  Tokenizing panics exactly on a value that is reduced to one quote character by trimming, lower-casing
  and removing a known prefix: the slice between the quotes is out of range. No other value panics.
\<close>

theorem tokenize_panics_on_quote:
  "is_panic (tokenize_value_with_path hmac now val context path t) \<longleftrightarrow>
     enabled (config t) \<and> val \<noteq> [] \<and>
     strip_prefixes (lower_short (trim_space val)) \<in> {[CHR 0x22], [CHR 0x27]}"
proof -
  have quotes: "is_panic (strip_quotes v) \<longleftrightarrow> v \<in> {[CHR 0x22], [CHR 0x27]}" for v
  proof (cases v)
    case (Cons c w)
    then show ?thesis by (cases w) (auto simp: strip_quotes_def has_suffix_def)
  qed (simp add: strip_quotes_def)
  have "is_panic (normalize_secret t val) \<longleftrightarrow> is_panic (strip_quotes (strip_prefixes (lower_short (trim_space val))))"
    by (simp add: normalize_secret_def normalize_value_def)
  then show ?thesis
    unfolding quotes [symmetric] tokenize_value_with_path_def
    by (auto simp: is_panic_bind Let_def split: option.splits)
qed

text \<open>
  Decrypting an encrypted redaction map with the same key gives the map back: for any sealing that opens
  again and nonces of the expected size, no entry is lost or changed.
\<close>

theorem redaction_map_encryption_roundtrip:
  assumes "\<And>n p. opn n (seal n p) = Some p" and "\<And>tok. length (nonce_of tok) = nonce_size"
    and "\<not> is_encrypted m"
  shows "decrypt_redaction_map nonce_size opn (encrypt_redaction_map seal nonce_of m) = m"
proof -
  have "List.map_filter (\<lambda>(tok, enc). map_option (Pair tok) (decrypt_entry nonce_size opn enc))
      (map (\<lambda>(tok, orig). (tok, hex_encode (nonce_of tok @ seal (nonce_of tok) orig))) (rm_tokens m)) = rm_tokens m"
    by (rule map_filter_inverse) (auto simp: decrypt_entry_def hex_decode_encode assms(1,2))
  with assms(3) show ?thesis by (simp add: decrypt_redaction_map_def encrypt_redaction_map_def)
qed

theorem redaction_map_encryption_roundtrip_witness:
  "decrypt_redaction_map 2 (\<lambda>n c. Some (rev c)) (encrypt_redaction_map (\<lambda>n p. rev p) (\<lambda>_. ''ab'')
     (fst (get_redaction_map [] (new_tokenizer True ''s'' [] 0)))) =
   fst (get_redaction_map [] (new_tokenizer True ''s'' [] 0))"
  by (rule redaction_map_encryption_roundtrip) (simp_all add: get_redaction_map_def Let_def)

text \<open>
  Every token of the default format contains the word \<^verbatim>\<open>TOKEN\<close>, so any two secrets that occur in a file
  are reported as a correlated API key and token, whatever their types.
\<close>

theorem any_two_tokens_correlate:
  assumes "\<forall>r\<in>set (secret_refs t). has_prefix ''***TOKEN_'' (fst r) \<and> snd r \<noteq> []"
    and "length (secret_refs t) \<ge> 2"
  shows "\<exists>g\<in>set (rm_correlations (fst (get_redaction_map profile t))).
           cg_pattern g = ''api_authentication'' \<and> cg_tokens g = map fst (secret_refs t)"
proof -
  let ?rel = "\<lambda>k. contains_sub ''APIKEY'' k \<or> contains_sub ''TOKEN'' k"
  have "?rel k" if "has_prefix ''***TOKEN_'' k" for k :: string
  proof -
    from that obtain u where "k = ''***'' @ ''TOKEN'' @ (''_'' @ u)" by (auto simp: has_prefix_iff)
    then have "contains_sub ''TOKEN'' k" unfolding contains_sub_iff by blast
    then show ?thesis by simp
  qed
  then have "\<forall>r\<in>set (secret_refs t). ?rel (fst r)" using assms(1) by blast
  then have all: "filter (\<lambda>(tok, _). ?rel tok) (secret_refs t) = secret_refs t"
    by (intro filter_True) (simp add: case_prod_beta)
  have keep: "fs \<noteq> [] \<Longrightarrow> foldl add_missing fs new \<noteq> []" for fs new
    by (induction new arbitrary: fs) (auto simp: add_missing_def)
  have grow: "foldl (\<lambda>fs (_, new). foldl add_missing fs new) fs (refs :: (string \<times> string list) list) \<noteq> []"
    if "fs \<noteq> []" for fs refs
    using that keep by (induction refs arbitrary: fs) auto
  obtain r refs where r: "secret_refs t = r # refs" using assms(2) by (cases "secret_refs t") auto
  obtain f new where "snd r = f # new" using assms(1) r by (cases "snd r") auto
  then have "foldl (\<lambda>fs (_, new). foldl add_missing fs new) [] (secret_refs t) \<noteq> []"
    using grow keep by (auto simp: r add_missing_def split: prod.split)
  then have "correlate ''api_authentication'' ?rel (secret_refs t) =
      [\<lparr>cg_pattern = ''api_authentication'', cg_tokens = map fst (secret_refs t),
        cg_files = foldl (\<lambda>fs (_, new). foldl add_missing fs new) [] (secret_refs t)\<rparr>]"
    using assms(2) by (simp add: correlate_def Let_def all Suc_le_eq)
  then show ?thesis by (simp add: get_redaction_map_def Let_def analyze_correlations_def)
qed

theorem any_two_tokens_correlate_witness:
  "\<exists>g\<in>set (rm_correlations (fst (get_redaction_map [] ((new_tokenizer True ''s'' [] 0)\<lparr>secret_refs :=
      [(''***TOKEN_EMAIL_1***'', [''f'']), (''***TOKEN_IP_2***'', [''g''])]\<rparr>)))). cg_pattern g = ''api_authentication''"
proof -
  let ?t = "(new_tokenizer True ''s'' [] 0)\<lparr>secret_refs := [(''***TOKEN_EMAIL_1***'', [''f'']), (''***TOKEN_IP_2***'', [''g''])]\<rparr>"
  have "\<forall>r\<in>set (secret_refs ?t). has_prefix ''***TOKEN_'' (fst r) \<and> snd r \<noteq> []" "length (secret_refs ?t) \<ge> 2"
    by simp_all
  from any_two_tokens_correlate [OF this, of "[]"] show ?thesis by blast
qed

end
