(* ===== verification/Line_Redactors.thy ===== *)
theory Line_Redactors
  imports Tokenizer
begin

text \<open>
  The redactors that work line by line: \<^verbatim>\<open>literal.go\<close>, \<^verbatim>\<open>single_line.go\<close>, \<^verbatim>\<open>multi_line.go\<close> and the parts of
  \<^verbatim>\<open>redact.go\<close> they use. A reader is the bytes it delivers and the error it ends with (none for the end of the
  file). A redactor reads its input to the end in a goroutine of its own; its steps are taken in one run, and
  the steps of several redactors one after the other, which is one of the schedules of the program. The log
  of redactions is a list in the order of the calls of \<open>addRedaction\<close>.
\<close>

section \<open>Streams and the redaction log\<close>

record stream =
  stream_data :: string
  stream_err :: "go_error option"

record redaction =
  redactor_name :: string
  characters_removed :: int
  redacted_line :: nat
  redacted_file :: string
  is_default_redactor :: bool

record world =
  tokens :: tokenizer
  redactions :: "redaction list"

definition SCANNER_MAX_SIZE :: nat where "SCANNER_MAX_SIZE = 10 * 1024 * 1024"

definition ErrTooLong :: go_error where "ErrTooLong = Err ''bufio.Scanner: token too long''"

definition add_redaction :: "redaction \<Rightarrow> world \<Rightarrow> world" where
  "add_redaction r w = w\<lparr>redactions := redactions w @ [r]\<rparr>"

definition tokenization :: "world \<Rightarrow> bool" where
  "tokenization w = enabled (config (tokens w))"

definition tokenize_w ::
  "(string \<Rightarrow> string \<Rightarrow> string) \<Rightarrow> int \<Rightarrow> string \<Rightarrow> string \<Rightarrow> string \<Rightarrow> world \<Rightarrow> (string \<times> world) res" where
  "tokenize_w hmac now val context path w =
     map_res (\<lambda>(tok, t). (tok, w\<lparr>tokens := t\<rparr>))
       (tokenize_value_with_path hmac now val context path (tokens w))"

text \<open>What every redactor knows about itself.\<close>

record redactor_info =
  file_path :: string
  redact_name :: string
  is_default :: bool

text \<open>The record is added when the cleaned line differs from the line.\<close>

definition log_change :: "redactor_info \<Rightarrow> nat \<Rightarrow> string \<Rightarrow> string \<Rightarrow> world \<Rightarrow> world" where
  "log_change info n line clean w =
     (if clean = line then w
      else add_redaction \<lparr>redactor_name = redact_name info,
             characters_removed = int (length line) - int (length clean), redacted_line = n,
             redacted_file = file_path info, is_default_redactor = is_default info\<rparr> w)"

text \<open>The scan loop: every line is cleaned and written with a newline.\<close>

fun redact_lines ::
  "(string \<Rightarrow> world \<Rightarrow> (string \<times> world) res) \<Rightarrow> redactor_info \<Rightarrow> nat \<Rightarrow> string list \<Rightarrow> world \<Rightarrow>
   (string list \<times> world) res" where
  "redact_lines clean info n [] w = Ok ([], w)"
| "redact_lines clean info n (l # ls) w =
     bind_res (clean l w) (\<lambda>(c, w').
       bind_res (redact_lines clean info (n + 1) ls (log_change info n l c w')) (\<lambda>(cs, w'').
         Ok (c # cs, w'')))"

definition scan_redact ::
  "(string \<Rightarrow> world \<Rightarrow> (string \<times> world) res) \<Rightarrow> redactor_info \<Rightarrow> stream \<Rightarrow> world \<Rightarrow> (stream \<times> world) res" where
  "scan_redact clean info input w =
     (case scan_lines SCANNER_MAX_SIZE (stream_data input) of (ls, too_long) \<Rightarrow>
        map_res (\<lambda>(cs, w'). (\<lparr>stream_data = unlines cs,
            stream_err = (if too_long then Some ErrTooLong else stream_err input)\<rparr>, w'))
          (redact_lines clean info 1 ls w))"

section \<open>Literals\<close>

definition literal_clean ::
  "(string \<Rightarrow> string \<Rightarrow> string) \<Rightarrow> int \<Rightarrow> string \<Rightarrow> redactor_info \<Rightarrow> string \<Rightarrow> world \<Rightarrow> (string \<times> world) res" where
  "literal_clean hmac now match info line w =
     (if tokenization w
      then bind_res (tokenize_w hmac now match (redact_name info) (file_path info) w) (\<lambda>(tok, w').
             Ok (replace_all match tok line, w'))
      else Ok (replace_all match MASK_TEXT line, w))"

definition literal_redact ::
  "(string \<Rightarrow> string \<Rightarrow> string) \<Rightarrow> int \<Rightarrow> string \<Rightarrow> redactor_info \<Rightarrow> stream \<Rightarrow> world \<Rightarrow> (stream \<times> world) res" where
  "literal_redact hmac now match info = scan_redact (literal_clean hmac now match info) info"

section \<open>Replacement patterns\<close>

fun replacement_from :: "nat \<Rightarrow> string list \<Rightarrow> string \<Rightarrow> string" where
  "replacement_from i [] mask_text = []"
| "replacement_from i (name # names) mask_text =
     (if name = [] then ''$'' @ show_nat i
      else if name = ''mask'' then mask_text
      else if name = ''drop'' then []
      else ''${'' @ name @ ''}'') @ replacement_from (i + 1) names mask_text"

definition get_replacement_pattern :: "regexp \<Rightarrow> string \<Rightarrow> string" where
  "get_replacement_pattern re mask_text = replacement_from 1 (tl (subexp_names re)) mask_text"

text \<open>\<open>matches\<close> are the groups of the first match, from group 1 on.\<close>

fun tokenized_from ::
  "(string \<Rightarrow> string \<Rightarrow> string) \<Rightarrow> int \<Rightarrow> string \<Rightarrow> string \<Rightarrow> nat \<Rightarrow> string list \<Rightarrow> string list \<Rightarrow> world \<Rightarrow>
   (string \<times> world) res" where
  "tokenized_from hmac now context path i [] ms w = Ok ([], w)"
| "tokenized_from hmac now context path i (name # names) [] w = Ok ([], w)"
| "tokenized_from hmac now context path i (name # names) (m # ms) w =
     bind_res
       (if name = [] then Ok (''$'' @ show_nat i, w)
        else if name = ''mask''
        then (if m \<noteq> [] then tokenize_w hmac now m context path w else Ok (MASK_TEXT, w))
        else if name = ''drop'' then Ok ([], w)
        else Ok (''${'' @ name @ ''}'', w))
       (\<lambda>(part, w'). bind_res (tokenized_from hmac now context path (i + 1) names ms w') (\<lambda>(rest, w'').
          Ok (part @ rest, w'')))"

definition get_tokenized_replacement_pattern_with_path ::
  "(string \<Rightarrow> string \<Rightarrow> string) \<Rightarrow> int \<Rightarrow> regexp \<Rightarrow> string \<Rightarrow> string \<Rightarrow> string \<Rightarrow> world \<Rightarrow> (string \<times> world) res" where
  "get_tokenized_replacement_pattern_with_path hmac now re line context path w =
     (if \<not> tokenization w then Ok (get_replacement_pattern re MASK_TEXT, w)
      else case find_submatch re line of
             None \<Rightarrow> Ok (line, w)
           | Some ms \<Rightarrow>
               bind_res (tokenized_from hmac now context path 1 (tl (subexp_names re)) (tl ms) w)
                 (\<lambda>(template, w'). Ok (replace_all_rx re line template, w')))"

definition regex_clean ::
  "(string \<Rightarrow> string \<Rightarrow> string) \<Rightarrow> int \<Rightarrow> regexp \<Rightarrow> string \<Rightarrow> redactor_info \<Rightarrow> string \<Rightarrow> world \<Rightarrow> (string \<times> world) res" where
  "regex_clean hmac now re mask_text info line w =
     (if tokenization w
      then get_tokenized_replacement_pattern_with_path hmac now re line (redact_name info) (file_path info) w
      else Ok (replace_all_rx re line (get_replacement_pattern re mask_text), w))"

section \<open>Single lines\<close>

record line_redactor =
  lr_scan :: "regexp option"
  lr_re :: regexp
  lr_mask :: string
  lr_info :: redactor_info

definition scan_passes :: "regexp option \<Rightarrow> string \<Rightarrow> bool" where
  "scan_passes scan line = (case scan of None \<Rightarrow> True | Some re \<Rightarrow> re_match re (to_lower line))"

definition single_line_clean ::
  "(string \<Rightarrow> string \<Rightarrow> string) \<Rightarrow> int \<Rightarrow> line_redactor \<Rightarrow> string \<Rightarrow> world \<Rightarrow> (string \<times> world) res" where
  "single_line_clean hmac now r line w =
     (if \<not> scan_passes (lr_scan r) line then Ok (line, w)
      else if \<not> re_match (lr_re r) line then Ok (line, w)
      else regex_clean hmac now (lr_re r) (lr_mask r) (lr_info r) line w)"

definition single_line_redact ::
  "(string \<Rightarrow> string \<Rightarrow> string) \<Rightarrow> int \<Rightarrow> line_redactor \<Rightarrow> stream \<Rightarrow> world \<Rightarrow> (stream \<times> world) res" where
  "single_line_redact hmac now r = scan_redact (single_line_clean hmac now r) (lr_info r)"

section \<open>Pairs of lines\<close>

text \<open>
  \<open>readLine\<close> over \<^verbatim>\<open>bufio.Reader.ReadLine\<close>: a carriage return is dropped only before a newline, and there is
  no limit on the length.
\<close>

definition read_lines :: "string \<Rightarrow> string list" where
  "read_lines s =
     (let ps = split_on newline s
      in map drop_cr (butlast ps) @ (if last ps = [] then [] else [last ps]))"

definition get_next_two_lines ::
  "string list \<Rightarrow> string option \<Rightarrow> string \<times> string \<times> string list \<times> bool" where
  "get_next_two_lines ls cur =
     (case cur of
        None \<Rightarrow>
          (case ls of
             [] \<Rightarrow> ([], [], [], False)
           | [a] \<Rightarrow> (a, [], [], False)
           | a # b # rest \<Rightarrow> (a, b, rest, True))
      | Some line2 \<Rightarrow>
          (case ls of
             [] \<Rightarrow> (line2, [], [], False)
           | b # rest \<Rightarrow> (line2, b, rest, True)))"

record multi_line_redactor =
  ml_scan :: "regexp option"
  ml_re1 :: regexp
  ml_re2 :: regexp
  ml_mask :: string
  ml_info :: redactor_info

lemma get_next_two_lines_shorter:
  "get_next_two_lines ls cur = (a, b, rest, True) \<Longrightarrow> length rest < length ls"
  by (auto simp: get_next_two_lines_def split: option.splits list.splits)

text \<open>
  The loop. It returns the lines written, the flag \<^verbatim>\<open>flushLastLine\<close> and the last \<^verbatim>\<open>line1\<close> when there are no two
  lines any more.
\<close>

function multi_loop ::
  "(string \<Rightarrow> string \<Rightarrow> string) \<Rightarrow> int \<Rightarrow> multi_line_redactor \<Rightarrow> string \<Rightarrow> string \<Rightarrow> string list \<Rightarrow> nat \<Rightarrow> world \<Rightarrow>
   (string list \<times> bool \<times> string \<times> world) res" where
  "multi_loop hmac now r line1 line2 rest n w =
     (if \<not> scan_passes (ml_scan r) line1 \<or> \<not> re_match (ml_re1 r) line1
      then (case get_next_two_lines rest (Some line2) of
              (a, b, rest', False) \<Rightarrow> Ok ([line1], True, a, w)
            | (a, b, rest', True) \<Rightarrow>
                map_res (\<lambda>(out, fl, lst, w'). (line1 # out, fl, lst, w'))
                  (multi_loop hmac now r a b rest' (n + 1) w))
      else bind_res (regex_clean hmac now (ml_re2 r) (ml_mask r) (ml_info r) line2 w) (\<lambda>(clean, w1).
             let w2 = log_change (ml_info r) (n + 1) line2 clean w1 in
             case get_next_two_lines rest None of
               (a, b, rest', False) \<Rightarrow> Ok ([line1, clean], False, a, w2)
             | (a, b, rest', True) \<Rightarrow>
                 map_res (\<lambda>(out, fl, lst, w'). (line1 # clean # out, fl, lst, w'))
                   (multi_loop hmac now r a b rest' (n + 1) w2)))"
  by pat_completeness auto
termination
  by (relation "measure (\<lambda>(_, _, _, _, _, rest, _, _). length rest)")
    (auto dest: get_next_two_lines_shorter [OF sym] get_next_two_lines_shorter)

declare multi_loop.simps [simp del]

text \<open>
  After the loop the error of the reader is overwritten when the last line is flushed, and before it when
  there are no two lines at all.
\<close>

definition multi_line_redact ::
  "(string \<Rightarrow> string \<Rightarrow> string) \<Rightarrow> int \<Rightarrow> multi_line_redactor \<Rightarrow> stream \<Rightarrow> world \<Rightarrow> (stream \<times> world) res" where
  "multi_line_redact hmac now r input w =
     (case get_next_two_lines (read_lines (stream_data input)) None of
        (line1, line2, rest, False) \<Rightarrow>
          Ok (\<lparr>stream_data = unlines [line1, line2], stream_err = None\<rparr>, w)
      | (line1, line2, rest, True) \<Rightarrow>
          map_res (\<lambda>(out, fl, lst, w').
              (if fl then \<lparr>stream_data = unlines (out @ [lst]), stream_err = None\<rparr>
               else \<lparr>stream_data = unlines out, stream_err = stream_err input\<rparr>, w'))
            (multi_loop hmac now r line1 line2 rest 1 w))"

section \<open>Lemmas\<close>

lemma log_change_fields [simp]: "tokens (log_change info n l c w) = tokens w"
  by (simp add: log_change_def add_redaction_def)

lemma tokenization_log [simp]: "tokenization (log_change info n l c w) = tokenization w"
  by (simp add: tokenization_def)

text \<open>Without tokenization a cleaning function is a function of the line, and the log follows the changes.\<close>

definition change_record :: "redactor_info \<Rightarrow> (string \<Rightarrow> string) \<Rightarrow> nat \<times> string \<Rightarrow> redaction" where
  "change_record info f nl =
     \<lparr>redactor_name = redact_name info, characters_removed = int (length (snd nl)) - int (length (f (snd nl))),
      redacted_line = fst nl, redacted_file = file_path info, is_default_redactor = is_default info\<rparr>"

lemma redact_lines_masking:
  assumes "\<And>l w. \<not> tokenization w \<Longrightarrow> clean l w = Ok (f l, w)" and "\<not> tokenization w"
  shows "redact_lines clean info n ls w =
     Ok (map f ls, w\<lparr>redactions := redactions w @
        map (change_record info f) (filter (\<lambda>(_, l). f l \<noteq> l) (zip [n..<n + length ls] ls))\<rparr>)"
  using assms(2)
proof (induction ls arbitrary: n w)
  case (Cons l ls)
  have "[n..<n + length (l # ls)] = n # [Suc n..<Suc n + length ls]"
    by (subst upt_conv_Cons) simp_all
  moreover have "\<not> tokenization (log_change info n l (f l) w)" using Cons.prems by simp
  note Cons.IH [OF this, of "Suc n"]
  ultimately show ?case
    using Cons.prems
    by (cases "f l = l") (simp_all add: assms(1) log_change_def add_redaction_def change_record_def)
qed simp

lemma scan_redact_masking:
  assumes "\<And>l w. \<not> tokenization w \<Longrightarrow> clean l w = Ok (f l, w)" and "\<not> tokenization w"
    and "scan_lines SCANNER_MAX_SIZE (stream_data input) = (ls, too_long)"
  shows "scan_redact clean info input w =
     Ok (\<lparr>stream_data = unlines (map f ls),
          stream_err = (if too_long then Some ErrTooLong else stream_err input)\<rparr>,
         w\<lparr>redactions := redactions w @
           map (change_record info f) (filter (\<lambda>(_, l). f l \<noteq> l) (zip [1..<1 + length ls] ls))\<rparr>)"
  using redact_lines_masking [where clean = clean and f = f, OF assms(1,2)] assms(3)
  by (simp add: scan_redact_def)

lemma literal_masking:
  "\<not> tokenization w \<Longrightarrow> literal_clean hmac now match info l w = Ok (replace_all match MASK_TEXT l, w)"
  by (simp add: literal_clean_def)

definition masked :: "line_redactor \<Rightarrow> string \<Rightarrow> string" where
  "masked r l = (if scan_passes (lr_scan r) l \<and> re_match (lr_re r) l
     then replace_all_rx (lr_re r) l (get_replacement_pattern (lr_re r) (lr_mask r)) else l)"

lemma single_line_masking:
  "\<not> tokenization w \<Longrightarrow> single_line_clean hmac now r l w = Ok (masked r l, w)"
  by (simp add: single_line_clean_def regex_clean_def masked_def)

lemma contains_across_newline:
  assumes "p \<noteq> []" "newline \<notin> set p" "contains_sub p (l @ newline # s)"
  shows "contains_sub p l \<or> contains_sub p s"
proof -
  obtain a b where ab: "a @ (p @ b) = l @ newline # s"
    using assms(3) unfolding contains_sub_iff by (metis append.assoc)
  then consider us where "a = l @ us" "us @ p @ b = newline # s"
    | us where "l = a @ us" "p @ b = us @ newline # s"
    unfolding append_eq_append_conv2 by metis
  then show ?thesis
  proof cases
    case (1 us)
    show ?thesis
    proof (cases us)
      case Nil
      with 1(2) assms(1) have "newline \<in> set p" by (cases p) auto
      with assms(2) show ?thesis by simp
    next
      case (Cons c u)
      with 1(2) have "u @ p @ b = s" by simp
      then have "contains_sub p s" unfolding contains_sub_iff by metis
      then show ?thesis ..
    qed
  next
    case (2 us)
    from 2(2) consider vs where "p = us @ vs" "vs @ b = newline # s" | vs where "us = p @ vs"
      unfolding append_eq_append_conv2 by metis
    then have "\<exists>vs. us = p @ vs"
    proof cases
      case (1 vs)
      show ?thesis
      proof (cases vs)
        case (Cons c v)
        with 1 have "newline \<in> set p" by simp
        with assms(2) show ?thesis by simp
      qed (use 1(1) in simp)
    qed blast
    then have "contains_sub p l" using 2(1) unfolding contains_sub_iff by metis
    then show ?thesis ..
  qed
qed

lemma contains_unlines:
  assumes "p \<noteq> []" "newline \<notin> set p" "\<forall>l\<in>set ls. \<not> contains_sub p l"
  shows "\<not> contains_sub p (unlines ls)"
  using assms(3)
proof (induction ls)
  case Nil
  show ?case using assms(1) by (simp add: unlines_def)
next
  case (Cons l ls)
  then show ?case
    using contains_across_newline [OF assms(1,2), of l "unlines ls"] by (auto simp: unlines_def)
qed

definition ml_selected :: "multi_line_redactor \<Rightarrow> string \<Rightarrow> bool" where
  "ml_selected r l \<longleftrightarrow> scan_passes (ml_scan r) l \<and> re_match (ml_re1 r) l"

definition ml_masked :: "multi_line_redactor \<Rightarrow> string \<Rightarrow> string" where
  "ml_masked r l = replace_all_rx (ml_re2 r) l (get_replacement_pattern (ml_re2 r) (ml_mask r))"

text \<open>The lines written for a list of lines, the flag, and the last line when it is flushed.\<close>

fun ml_lines :: "(string \<Rightarrow> bool) \<Rightarrow> (string \<Rightarrow> string) \<Rightarrow> string list \<Rightarrow> string list \<times> bool" where
  "ml_lines sel f (a # b # ls) =
     (if sel a then (case ml_lines sel f ls of (out, fl) \<Rightarrow>
         (case ls of
            c # d # _ \<Rightarrow> (a # f b # out, fl)
          | _ \<Rightarrow> ([a, f b], False)))
      else (case ls of
              [] \<Rightarrow> ([a, b], True)
            | _ \<Rightarrow> (case ml_lines sel f (b # ls) of (out, fl) \<Rightarrow> (a # out, fl))))"
| "ml_lines sel f ls = (ls, False)"

lemma multi_loop_masking:
  assumes "\<not> tokenization w"
  shows "\<exists>out fl lst w'. multi_loop hmac now r a b rest n w = Ok (out, fl, lst, w') \<and>
     ml_lines (ml_selected r) (ml_masked r) (a # b # rest) = (if fl then out @ [lst] else out, fl)"
  using assms
proof (induction "length rest" arbitrary: a b rest n w rule: less_induct)
  case less
  have clean: "regex_clean hmac now (ml_re2 r) (ml_mask r) (ml_info r) b w = Ok (ml_masked r b, w)"
    using less.prems by (simp add: regex_clean_def ml_masked_def)
  show ?case
  proof (cases "ml_selected r a")
    case False
    show ?thesis
    proof (cases rest)
      case Nil
      with False show ?thesis
        by (subst multi_loop.simps) (auto simp: ml_selected_def get_next_two_lines_def)
    next
      case (Cons c rest')
      from less(1) [of rest' w b c "n + 1"] less.prems Cons
      obtain out fl lst w' where ih: "multi_loop hmac now r b c rest' (n + 1) w = Ok (out, fl, lst, w')"
        "ml_lines (ml_selected r) (ml_masked r) (b # c # rest') = (if fl then out @ [lst] else out, fl)" by auto
      have "multi_loop hmac now r a b rest n w = Ok (a # out, fl, lst, w')"
        using False Cons ih(1) by (subst multi_loop.simps) (auto simp: ml_selected_def get_next_two_lines_def)
      moreover have "ml_lines (ml_selected r) (ml_masked r) (a # b # rest) =
          (if fl then (a # out) @ [lst] else a # out, fl)"
        using False Cons ih(2) by simp
      ultimately show ?thesis by blast
    qed
  next
    case True
    let ?w = "log_change (ml_info r) (n + 1) b (ml_masked r b) w"
    show ?thesis
    proof (cases "\<exists>c d rest'. rest = c # d # rest'")
      case False
      then consider "rest = []" | c where "rest = [c]" by (metis neq_Nil_conv)
      then have "\<exists>lst. multi_loop hmac now r a b rest n w = Ok ([a, ml_masked r b], False, lst, ?w)"
        using True clean
        by cases (subst multi_loop.simps, simp add: ml_selected_def get_next_two_lines_def Let_def)+
      then obtain lst where "multi_loop hmac now r a b rest n w = Ok ([a, ml_masked r b], False, lst, ?w)" ..
      moreover have "ml_lines (ml_selected r) (ml_masked r) (a # b # rest) = ([a, ml_masked r b], False)"
        using True False by (auto split: list.splits prod.splits)
      ultimately show ?thesis by fastforce
    next
      case True': True
      then obtain c d rest' where rest: "rest = c # d # rest'" by blast
      have "length rest' < length rest" "\<not> tokenization ?w" using rest less.prems by simp_all
      from less(1) [OF this, of c d "n + 1"]
      obtain out fl lst w' where ih: "multi_loop hmac now r c d rest' (n + 1) ?w = Ok (out, fl, lst, w')"
        "ml_lines (ml_selected r) (ml_masked r) (c # d # rest') = (if fl then out @ [lst] else out, fl)" by blast
      have "multi_loop hmac now r a b rest n w = Ok (a # ml_masked r b # out, fl, lst, w')"
        using True clean rest ih(1) by (subst multi_loop.simps) (auto simp: ml_selected_def get_next_two_lines_def Let_def)
      moreover have "ml_lines (ml_selected r) (ml_masked r) (a # b # rest) =
          (if fl then (a # ml_masked r b # out) @ [lst] else a # ml_masked r b # out, fl)"
        using True rest ih(2) by simp
      ultimately show ?thesis by blast
    qed
  qed
qed

lemma multi_line_masking:
  assumes "\<not> tokenization w" and "read_lines (stream_data input) = ls" and "2 \<le> length ls"
    and "ml_lines (ml_selected r) (ml_masked r) ls = (out, fl)"
  shows "\<exists>w'. multi_line_redact hmac now r input w =
     Ok (\<lparr>stream_data = unlines out, stream_err = (if fl then None else stream_err input)\<rparr>, w')"
proof -
  obtain a b rest where ls: "ls = a # b # rest"
    using assms(3) by (metis One_nat_def Suc_1 Suc_le_length_iff)
  obtain out' fl' lst w' where run: "multi_loop hmac now r a b rest 1 w = Ok (out', fl', lst, w')"
    "ml_lines (ml_selected r) (ml_masked r) (a # b # rest) = (if fl' then out' @ [lst] else out', fl')"
    using multi_loop_masking [OF assms(1)] by blast
  from run(2) assms(4) have "fl' = fl" "out = (if fl then out' @ [lst] else out')" by (auto simp: ls)
  with run(1) assms(2) show ?thesis
    by (simp add: multi_line_redact_def get_next_two_lines_def ls)
qed

lemma ml_lines_unselected:
  "\<not> sel a \<Longrightarrow> ls \<noteq> [] \<Longrightarrow> \<forall>l\<in>set ls. \<not> sel l \<Longrightarrow> ml_lines sel f (a # ls) = (a # ls, True)"
proof (induction ls arbitrary: a)
  case (Cons b ls)
  show ?case
  proof (cases ls)
    case (Cons c ls')
    with Cons.IH [of b] Cons.prems show ?thesis by simp
  qed (use Cons.prems in simp)
qed simp

lemma ml_lines_skip:
  "\<not> sel p \<Longrightarrow> ls \<noteq> [] \<Longrightarrow>
   ml_lines sel f (p # q # ls) = (case ml_lines sel f (q # ls) of (out, fl) \<Rightarrow> (p # out, fl))"
  by (cases ls) simp_all

lemma ml_lines_dropped:
  "sel a \<Longrightarrow> \<forall>l\<in>set pre. \<not> sel l \<Longrightarrow> ml_lines sel f (pre @ [a, b, c]) = (pre @ [a, f b], False)"
proof (induction pre)
  case (Cons p pre)
  then have "ml_lines sel f (pre @ [a, b, c]) = (pre @ [a, f b], False)" "\<not> sel p" by simp_all
  then show ?case
    using ml_lines_skip [of sel p "tl (pre @ [a, b, c])" f "hd (pre @ [a, b, c])"] by (cases pre) simp_all
qed simp

lemma ml_lines_positions:
  "ml_lines sel f ls = (out, fl) \<Longrightarrow>
     length out \<le> length ls \<and> length ls \<le> Suc (length out) \<and>
     (\<forall>i<length out. out ! i = ls ! i \<or> (\<exists>j. i = Suc j \<and> sel (ls ! j) \<and> out ! i = f (ls ! i)))"
proof (induction sel f ls arbitrary: out fl rule: ml_lines.induct)
  case (1 sel f a b ls)
  show ?case
  proof (cases "sel a")
    case sel: True
    show ?thesis
    proof (cases "\<exists>c d r. ls = c # d # r")
      case True
      then obtain c d r where ls: "ls = c # d # r" by blast
      obtain out' fl' where rec: "ml_lines sel f ls = (out', fl')" by force
      with sel 1(3) have out: "out = a # f b # out'" by (simp add: ls)
      from 1(1) [OF sel rec] show ?thesis
        by (auto simp: out sel nth_Cons split: nat.splits)
    next
      case False
      then have "out = [a, f b]" "ls = [] \<or> (\<exists>c. ls = [c])"
        using sel 1(3) by (auto split: list.splits prod.splits)
      with sel show ?thesis by (auto simp: nth_Cons split: nat.splits)
    qed
  next
    case unsel: False
    show ?thesis
    proof (cases ls)
      case Nil
      with unsel 1(3) have "out = [a, b]" by simp
      then show ?thesis by (auto simp: Nil)
    next
      case (Cons c r)
      obtain out' fl' where rec: "ml_lines sel f (b # ls) = (out', fl')" by force
      with unsel Cons 1(3) have out: "out = a # out'" by simp
      from 1(2) [OF unsel Cons] rec Cons have "length out' \<le> length (b # ls) \<and> length (b # ls) \<le> Suc (length out') \<and>
         (\<forall>i<length out'. out' ! i = (b # ls) ! i \<or>
            (\<exists>j. i = Suc j \<and> sel ((b # ls) ! j) \<and> out' ! i = f ((b # ls) ! i)))" by blast
      note ih = this
      show ?thesis
      proof (intro conjI allI impI)
        fix i
        assume i: "i < length out"
        show "out ! i = (a # b # ls) ! i \<or>
            (\<exists>j. i = Suc j \<and> sel ((a # b # ls) ! j) \<and> out ! i = f ((a # b # ls) ! i))"
        proof (cases i)
          case (Suc k)
          with i ih have "out' ! k = (b # ls) ! k \<or>
            (\<exists>j. k = Suc j \<and> sel ((b # ls) ! j) \<and> out' ! k = f ((b # ls) ! k))" by (simp add: out)
          then show ?thesis unfolding Suc out nth_Cons_Suc by (metis nth_Cons_Suc)
        qed (simp add: out)
      qed (use ih in \<open>simp_all add: out\<close>)
    qed
  qed
qed auto

section \<open>Properties\<close>

text \<open>
  Redacting a literal without tokenization: when the literal is not empty and shares no byte with the
  mask or the newline, it does not occur in the output; there is one output line per line read, lines without
  it are unchanged, each changed line is logged once under its number, and the error at the end is the one of
  the reader, or a line that is too long.
\<close>

theorem literal_redaction:
  assumes "\<not> tokenization w" and "match \<noteq> []" and "set match \<inter> set MASK_TEXT = {}" and "newline \<notin> set match"
    and "scan_lines SCANNER_MAX_SIZE (stream_data input) = (ls, too_long)"
  shows "\<exists>out w'. literal_redact hmac now match info input w = Ok (out, w') \<and>
    \<not> contains_sub match (stream_data out) \<and>
    stream_data out = unlines (map (replace_all match MASK_TEXT) ls) \<and>
    stream_err out = (if too_long then Some ErrTooLong else stream_err input) \<and>
    map redacted_line (drop (length (redactions w)) (redactions w')) =
      map fst (filter (\<lambda>(_, l). replace_all match MASK_TEXT l \<noteq> l) (zip [1..<1 + length ls] ls))"
proof -
  let ?f = "replace_all match MASK_TEXT"
  note run = scan_redact_masking [where clean = "literal_clean hmac now match info" and f = ?f,
      OF literal_masking assms(1,5), of info]
  have "\<not> contains_sub match (?f l)" for l
    using replace_removes [OF assms(2) _ assms(3)] assms(2) by (simp add: replace_all_def MASK_TEXT_def)
  then have "\<not> contains_sub match (unlines (map ?f ls))"
    by (intro contains_unlines [OF assms(2,4)]) auto
  then show ?thesis
    by (simp add: literal_redact_def run change_record_def comp_def case_prod_beta)
qed

theorem literal_redaction_witness:
  "\<exists>out w'. literal_redact (\<lambda>_ _. []) 0 ''s3cret'' \<lparr>file_path = ''f'', redact_name = ''r'', is_default = False\<rparr>
      \<lparr>stream_data = ''pw s3cret'', stream_err = None\<rparr> \<lparr>tokens = new_tokenizer False ''s'' [] 0, redactions = []\<rparr> = Ok (out, w') \<and>
    \<not> contains_sub ''s3cret'' (stream_data out)"
proof -
  let ?w = "\<lparr>tokens = new_tokenizer False ''s'' [] 0, redactions = []\<rparr>"
  have "\<not> tokenization ?w" by (simp add: tokenization_def new_tokenizer_def)
  moreover have "set ''s3cret'' \<inter> set MASK_TEXT = {}" "newline \<notin> set ''s3cret''" by (simp_all add: MASK_TEXT_def)
  moreover obtain ls tl where "scan_lines SCANNER_MAX_SIZE (stream_data \<lparr>stream_data = ''pw s3cret'', stream_err = None\<rparr>) = (ls, tl)"
    by force
  ultimately show ?thesis using literal_redaction [of ?w "''s3cret''"] by blast
qed

text \<open>
  A single-line redactor without tokenization never fails: it writes one line per line read, leaves every
  line alone that its scan or its expression does not match, and passes on the error of its reader or reports
  a line that is too long.
\<close>

theorem single_line_redaction:
  assumes "\<not> tokenization w" and "scan_lines SCANNER_MAX_SIZE (stream_data input) = (ls, too_long)"
  shows "\<exists>out w' cs. single_line_redact hmac now r input w = Ok (out, w') \<and> stream_data out = unlines cs \<and>
    length cs = length ls \<and>
    (\<forall>i<length ls. \<not> (scan_passes (lr_scan r) (ls ! i) \<and> re_match (lr_re r) (ls ! i)) \<longrightarrow> cs ! i = ls ! i) \<and>
    stream_err out = (if too_long then Some ErrTooLong else stream_err input) \<and>
    tokens w' = tokens w \<and> length (redactions w') \<le> length (redactions w) + length ls"
proof -
  note run = scan_redact_masking [where clean = "single_line_clean hmac now r" and f = "masked r",
      OF single_line_masking assms, of "lr_info r"]
  let ?log = "map (change_record (lr_info r) (masked r)) (filter (\<lambda>(_, l). masked r l \<noteq> l) (zip [1..<1 + length ls] ls))"
  have eq: "single_line_redact hmac now r input w =
     Ok (\<lparr>stream_data = unlines (map (masked r) ls),
          stream_err = (if too_long then Some ErrTooLong else stream_err input)\<rparr>,
         w\<lparr>redactions := redactions w @ ?log\<rparr>)"
    unfolding single_line_redact_def by (rule run)
  have "length ?log \<le> length (zip [1..<1 + length ls] ls)" unfolding length_map by (rule length_filter_le)
  then have bound: "length ?log \<le> length ls" unfolding length_zip by simp
  show ?thesis
    by (rule exI, rule exI, rule exI [of _ "map (masked r) ls"], rule conjI, rule eq)
      (use bound in \<open>simp add: masked_def del: One_nat_def length_map\<close>, simp)
qed

theorem single_line_redaction_witness:
  "\<exists>out w'. single_line_redact (\<lambda>_ _. []) 0
      \<lparr>lr_scan = Some \<lparr>rx_prog = lit ''pwd'', subexp_names = [[]]\<rparr>, lr_re = \<lparr>rx_prog = ci ''pwd'', subexp_names = [[]]\<rparr>,
        lr_mask = MASK_TEXT, lr_info = \<lparr>file_path = ''f'', redact_name = ''r'', is_default = True\<rparr>\<rparr>
      \<lparr>stream_data = ''abc'', stream_err = None\<rparr> \<lparr>tokens = new_tokenizer False ''s'' [] 0, redactions = []\<rparr> = Ok (out, w') \<and>
    stream_err out = None"
proof -
  let ?w = "\<lparr>tokens = new_tokenizer False ''s'' [] 0, redactions = []\<rparr>"
  let ?in = "\<lparr>stream_data = ''abc'', stream_err = None\<rparr>"
  have w: "\<not> tokenization ?w" by (simp add: tokenization_def new_tokenizer_def)
  have "scan_lines SCANNER_MAX_SIZE (stream_data ?in) = ([''abc''], False)"
    by (simp add: scan_lines_def raw_segments_def SCANNER_MAX_SIZE_def drop_cr_def)
  from single_line_redaction [OF w this] show ?thesis by fastforce
qed

text \<open>
  A multi-line redactor without tokenization on at least two lines: line by line the output is the input,
  except that a line after a selected one may be masked; at most one line is missing at the end, and none
  when no line is selected.
\<close>

theorem multi_line_redaction:
  assumes "\<not> tokenization w" and "read_lines (stream_data input) = ls" and "2 \<le> length ls"
  shows "\<exists>out w' outs. multi_line_redact hmac now r input w = Ok (out, w') \<and> stream_data out = unlines outs \<and>
    length outs \<le> length ls \<and> length ls \<le> Suc (length outs) \<and>
    (\<forall>i<length outs. outs ! i = ls ! i \<or>
       (\<exists>j. i = Suc j \<and> ml_selected r (ls ! j) \<and> outs ! i = ml_masked r (ls ! i))) \<and>
    (list_all (\<lambda>l. \<not> ml_selected r l) ls \<longrightarrow> outs = ls)"
proof -
  obtain a b rest where ls: "ls = a # b # rest"
    using assms(3) by (metis One_nat_def Suc_1 Suc_le_length_iff)
  obtain outs fl where out: "ml_lines (ml_selected r) (ml_masked r) ls = (outs, fl)" by force
  from multi_line_masking [OF assms out, of hmac now] obtain w' where
    "multi_line_redact hmac now r input w =
       Ok (\<lparr>stream_data = unlines outs, stream_err = (if fl then None else stream_err input)\<rparr>, w')" ..
  moreover have "list_all (\<lambda>l. \<not> ml_selected r l) ls \<Longrightarrow> outs = ls"
    using ml_lines_unselected [of "ml_selected r" a "b # rest" "ml_masked r"] out by (simp add: ls list_all_iff)
  ultimately show ?thesis using ml_lines_positions [OF out] by auto
qed

theorem multi_line_redaction_witness:
  "\<exists>out w'. multi_line_redact (\<lambda>_ _. []) 0 \<lparr>ml_scan = None, ml_re1 = \<lparr>rx_prog = lit ''x'', subexp_names = [[]]\<rparr>,
       ml_re2 = \<lparr>rx_prog = lit ''y'', subexp_names = [[]]\<rparr>, ml_mask = MASK_TEXT,
       ml_info = \<lparr>file_path = [], redact_name = [], is_default = True\<rparr>\<rparr>
     \<lparr>stream_data = unlines [''a'', ''b''], stream_err = None\<rparr> \<lparr>tokens = new_tokenizer False ''s'' [] 0, redactions = []\<rparr> = Ok (out, w')"
proof -
  let ?w = "\<lparr>tokens = new_tokenizer False ''s'' [] 0, redactions = []\<rparr>"
  let ?in = "\<lparr>stream_data = unlines [''a'', ''b''], stream_err = None\<rparr>"
  have w: "\<not> tokenization ?w" by (simp add: tokenization_def new_tokenizer_def)
  have "read_lines (stream_data ?in) = [''a'', ''b'']"
    by (simp add: read_lines_def unlines_def drop_cr_def)
  from multi_line_redaction [OF w this] show ?thesis by fastforce
qed

text \<open>
  After a pair that was redacted a multi-line redactor asks for two new lines; when only one is left it
  is lost: the last line of the input does not reach the output.
\<close>

theorem multi_line_drops_last_line:
  assumes "\<not> tokenization w" and "read_lines (stream_data input) = pre @ [a, b, c]"
    and "\<forall>l\<in>set pre. \<not> ml_selected r l" and "ml_selected r a"
  shows "\<exists>out w'. multi_line_redact hmac now r input w = Ok (out, w') \<and>
           stream_data out = unlines (pre @ [a, ml_masked r b])"
proof -
  have "2 \<le> length (pre @ [a, b, c])" by simp
  from multi_line_masking [OF assms(1,2) this ml_lines_dropped [where sel = "ml_selected r", OF assms(4,3)], of hmac now]
  show ?thesis by auto
qed

theorem multi_line_drops_last_line_witness:
  "\<exists>out w'. multi_line_redact (\<lambda>_ _. []) 0 \<lparr>ml_scan = None, ml_re1 = \<lparr>rx_prog = lit ''name'', subexp_names = [[]]\<rparr>,
       ml_re2 = \<lparr>rx_prog = Seq (lit ''value'') Emp, subexp_names = [[]]\<rparr>, ml_mask = MASK_TEXT,
       ml_info = \<lparr>file_path = [], redact_name = [], is_default = True\<rparr>\<rparr>
     \<lparr>stream_data = unlines [''name'', ''v'', ''last''], stream_err = None\<rparr>
     \<lparr>tokens = new_tokenizer False ''s'' [] 0, redactions = []\<rparr> = Ok (out, w') \<and>
     stream_data out = unlines [''name'', ''v'']"
proof -
  let ?w = "\<lparr>tokens = new_tokenizer False ''s'' [] 0, redactions = []\<rparr>"
  let ?in = "\<lparr>stream_data = unlines [''name'', ''v'', ''last''], stream_err = None\<rparr>"
  let ?r = "\<lparr>ml_scan = None, ml_re1 = \<lparr>rx_prog = lit ''name'', subexp_names = [[]]\<rparr>,
       ml_re2 = \<lparr>rx_prog = Seq (lit ''value'') Emp, subexp_names = [[]]\<rparr>, ml_mask = MASK_TEXT,
       ml_info = \<lparr>file_path = [], redact_name = [], is_default = True\<rparr>\<rparr>"
  have w: "\<not> tokenization ?w" by (simp add: tokenization_def new_tokenizer_def)
  have ls: "read_lines (stream_data ?in) = [] @ [''name'', ''v'', ''last'']"
    by (simp add: read_lines_def unlines_def drop_cr_def)
  have sel: "ml_selected ?r ''name''" "ml_masked ?r ''v'' = ''v''" by code_simp+
  from multi_line_drops_last_line [OF w ls _ sel(1)] show ?thesis by (simp add: sel(2))
qed

text \<open>
  A multi-line redactor that selects no line ends without an error, whatever its reader ended with: the
  error of a redactor before it, such as a line that is too long, is lost and the truncated output looks
  complete. The single-line redactors pass the error on.
\<close>

theorem multi_line_swallows_error:
  assumes "\<not> tokenization w" and "\<forall>l\<in>set (read_lines (stream_data input)). \<not> ml_selected r l"
    and "stream_err input = Some e"
  shows "(\<exists>out w'. multi_line_redact hmac now r input w = Ok (out, w') \<and> stream_err out = None) \<and>
         (\<exists>out w'. single_line_redact hmac now r' input w = Ok (out, w') \<and> stream_err out \<noteq> None)"
proof
  show "\<exists>out w'. multi_line_redact hmac now r input w = Ok (out, w') \<and> stream_err out = None"
  proof (cases "\<exists>a b rest. read_lines (stream_data input) = a # b # rest")
    case True
    then obtain a b rest where ls: "read_lines (stream_data input) = a # b # rest" by blast
    with assms(2) have "ml_lines (ml_selected r) (ml_masked r) (a # b # rest) = (a # b # rest, True)"
      by (intro ml_lines_unselected) auto
    with multi_line_masking [OF assms(1) ls, of r "a # b # rest" True hmac now] show ?thesis by auto
  next
    case False
    then have "read_lines (stream_data input) = [] \<or> (\<exists>a. read_lines (stream_data input) = [a])"
      by (metis neq_Nil_conv)
    then show ?thesis by (auto simp: multi_line_redact_def get_next_two_lines_def)
  qed
next
  obtain ls tl where "scan_lines SCANNER_MAX_SIZE (stream_data input) = (ls, tl)" by force
  from single_line_redaction [OF assms(1) this, of hmac now r'] assms(3)
  show "\<exists>out w'. single_line_redact hmac now r' input w = Ok (out, w') \<and> stream_err out \<noteq> None"
    by (auto split: if_splits)
qed

theorem multi_line_swallows_error_witness:
  "\<exists>out w'. multi_line_redact (\<lambda>_ _. []) 0 \<lparr>ml_scan = None, ml_re1 = \<lparr>rx_prog = lit ''name'', subexp_names = [[]]\<rparr>,
       ml_re2 = \<lparr>rx_prog = lit ''value'', subexp_names = [[]]\<rparr>, ml_mask = MASK_TEXT,
       ml_info = \<lparr>file_path = [], redact_name = [], is_default = True\<rparr>\<rparr>
     \<lparr>stream_data = unlines [''a'', ''b''], stream_err = Some ErrTooLong\<rparr>
     \<lparr>tokens = new_tokenizer False ''s'' [] 0, redactions = []\<rparr> = Ok (out, w') \<and> stream_err out = None"
proof -
  let ?w = "\<lparr>tokens = new_tokenizer False ''s'' [] 0, redactions = []\<rparr>"
  let ?in = "\<lparr>stream_data = unlines [''a'', ''b''], stream_err = Some ErrTooLong\<rparr>"
  let ?r = "\<lparr>ml_scan = None, ml_re1 = \<lparr>rx_prog = lit ''name'', subexp_names = [[]]\<rparr>,
       ml_re2 = \<lparr>rx_prog = lit ''value'', subexp_names = [[]]\<rparr>, ml_mask = MASK_TEXT,
       ml_info = \<lparr>file_path = [], redact_name = [], is_default = True\<rparr>\<rparr>"
  have w: "\<not> tokenization ?w" by (simp add: tokenization_def new_tokenizer_def)
  have ls: "read_lines (stream_data ?in) = [''a'', ''b'']"
    by (simp add: read_lines_def unlines_def drop_cr_def)
  have "\<not> ml_selected ?r ''a''" "\<not> ml_selected ?r ''b''" by code_simp+
  then have "\<forall>l\<in>set (read_lines (stream_data ?in)). \<not> ml_selected ?r l" unfolding ls by simp
  from multi_line_swallows_error [OF w this, of ErrTooLong "\<lambda>_ _. []" 0
      "\<lparr>lr_scan = None, lr_re = \<lparr>rx_prog = Emp, subexp_names = []\<rparr>, lr_mask = [],
        lr_info = \<lparr>file_path = [], redact_name = [], is_default = True\<rparr>\<rparr>"]
  show ?thesis by simp
qed

end
