(* ===== verification/Yaml_Redactor.thy ===== *)
theory Yaml_Redactor
  imports Line_Redactors
begin

text \<open>
  The redactor of YAML paths (\<^verbatim>\<open>pkg/redact/yaml.go\<close>). A decoded document is a tree; the decoder, the encoder
  and \<^verbatim>\<open>filepath.Match\<close> are parameters. The fields of a map are listed in the order the runtime happens to
  iterate them.
\<close>

datatype yaml =
    YNull
  | YString string
  | YScalar string
  | YSeq "yaml list"
  | YMap "(yaml \<times> yaml) list"

text \<open>A loop that runs a body with state on every element.\<close>

fun walk :: "('a \<Rightarrow> 's \<Rightarrow> ('b \<times> 's) res) \<Rightarrow> 'a list \<Rightarrow> 's \<Rightarrow> ('b list \<times> 's) res" where
  "walk f [] s = Ok ([], s)"
| "walk f (x # xs) s =
     bind_res (f x s) (\<lambda>(y, s'). bind_res (walk f xs s') (\<lambda>(ys, s''). Ok (y # ys, s'')))"

record yaml_redactor =
  mask_path :: "string list"
  yr_file_path :: string
  yr_name :: string
  yr_is_default :: bool

definition new_yaml_redactor :: "string \<Rightarrow> string \<Rightarrow> string \<Rightarrow> yaml_redactor" where
  "new_yaml_redactor path file name =
     \<lparr>mask_path = split_on (CHR ''.'') path, yr_file_path = file, yr_name = name, yr_is_default = False\<rparr>"

text \<open>The state of the traversal is the flag \<open>foundMatch\<close> and the world. An index below zero panics.\<close>

fun redact_yaml ::
  "(string \<Rightarrow> string \<Rightarrow> string) \<Rightarrow> int \<Rightarrow> yaml_redactor \<Rightarrow> string list \<Rightarrow> yaml \<Rightarrow> bool \<times> world \<Rightarrow>
   (yaml \<times> bool \<times> world) res" where
  "redact_yaml hmac now r [] y (found, w) =
     (case y of
        YString s \<Rightarrow>
          if tokenization w \<and> s \<noteq> []
          then map_res (\<lambda>(tok, w'). (YString tok, True, w')) (tokenize_w hmac now s (yr_name r) (yr_file_path r) w)
          else Ok (YString MASK_TEXT, True, w)
      | _ \<Rightarrow> Ok (YString MASK_TEXT, True, w))"
| "redact_yaml hmac now r (p # ps) y st =
     (case y of
        YSeq xs \<Rightarrow>
          if p = ''*''
          then map_res (\<lambda>(ys, st'). (YSeq ys, st')) (walk (redact_yaml hmac now r ps) xs st)
          else (case atoi p of
                  Ok i \<Rightarrow>
                    if int (length xs) > i
                    then if i < 0 then Panic ''index out of range''
                         else map_res (\<lambda>(c, st'). (YSeq (xs[nat i := c]), st'))
                                (redact_yaml hmac now r ps (xs ! nat i) st)
                    else Ok (YSeq xs, st)
                | _ \<Rightarrow> Ok (YSeq xs, st))
      | YMap fs \<Rightarrow>
          if p = ''*'' \<and> fs \<noteq> []
          then map_res (\<lambda>(ys, st'). (YMap (zip (map fst fs) ys), st'))
                 (walk (redact_yaml hmac now r ps) (map snd fs) st)
          else (case map_of fs (YString p) of
                  None \<Rightarrow> Ok (YMap fs, st)
                | Some child \<Rightarrow>
                    map_res (\<lambda>(c, st'). (YMap (AList.update (YString p) c fs), st'))
                      (redact_yaml hmac now r ps child st))
      | _ \<Rightarrow> Ok (y, st))"

text \<open>The error of the reader is overwritten by the one of the decoder.\<close>

definition yaml_redact ::
  "(string \<Rightarrow> yaml res) \<Rightarrow> (yaml \<Rightarrow> string res) \<Rightarrow> (string \<Rightarrow> string \<Rightarrow> bool res) \<Rightarrow>
   (string \<Rightarrow> string \<Rightarrow> string) \<Rightarrow> int \<Rightarrow> yaml_redactor \<Rightarrow> string \<Rightarrow> stream \<Rightarrow> world \<Rightarrow> (stream \<times> world) res" where
  "yaml_redact unmarshal marshal fmatch hmac now r path input w =
     (if yr_file_path r \<noteq> [] \<and> fmatch (yr_file_path r) path \<noteq> Ok True then Ok (input, w)
      else case unmarshal (stream_data input) of
             Panic m \<Rightarrow> Panic m
           | Fail _ \<Rightarrow> Ok (\<lparr>stream_data = stream_data input, stream_err = None\<rparr>, w)
           | Ok doc \<Rightarrow>
               bind_res (redact_yaml hmac now r (mask_path r) doc (False, w)) (\<lambda>(new, found, w').
                 if \<not> found then Ok (\<lparr>stream_data = stream_data input, stream_err = None\<rparr>, w')
                 else case marshal new of
                        Panic m \<Rightarrow> Panic m
                      | Fail e \<Rightarrow> Ok (\<lparr>stream_data = [], stream_err = Some e\<rparr>, w')
                      | Ok bytes \<Rightarrow>
                          Ok (\<lparr>stream_data = bytes, stream_err = None\<rparr>,
                              add_redaction \<lparr>redactor_name = yr_name r,
                                characters_removed = int (length (stream_data input)) - int (length bytes),
                                redacted_line = 0, redacted_file = path,
                                is_default_redactor = yr_is_default r\<rparr> w')))"

section \<open>The nodes a path reaches\<close>

fun reached :: "string list \<Rightarrow> yaml \<Rightarrow> yaml list" where
  "reached [] y = [y]"
| "reached (p # ps) y =
     (case y of
        YSeq xs \<Rightarrow>
          if p = ''*'' then concat (map (reached ps) xs)
          else (case atoi p of
                  Ok i \<Rightarrow> if 0 \<le> i \<and> i < int (length xs) then reached ps (xs ! nat i) else []
                | _ \<Rightarrow> [])
      | YMap fs \<Rightarrow>
          if p = ''*'' \<and> fs \<noteq> [] then concat (map (reached ps) (map snd fs))
          else (case map_of fs (YString p) of None \<Rightarrow> [] | Some c \<Rightarrow> reached ps c)
      | _ \<Rightarrow> [])"

section \<open>Lemmas\<close>

text \<open>What a traversal step does to the nodes its path reaches, without tokenization.\<close>

definition masks :: "string list \<Rightarrow> bool \<Rightarrow> yaml \<Rightarrow> yaml \<Rightarrow> bool \<Rightarrow> bool" where
  "masks ps found y y' found' \<longleftrightarrow>
     reached ps y' = replicate (length (reached ps y)) (YString MASK_TEXT) \<and>
     (found' \<longleftrightarrow> found \<or> reached ps y \<noteq> []) \<and> (reached ps y = [] \<longrightarrow> y' = y)"

lemma walk_masks:
  assumes "\<And>y st y' st'. f y st = Ok (y', st') \<Longrightarrow> \<not> tokenization (snd st) \<Longrightarrow>
      masks ps (fst st) y y' (fst st') \<and> snd st' = snd st"
    and "walk f ys st = Ok (ys', st')" "\<not> tokenization (snd st)"
  shows "length ys' = length ys \<and> snd st' = snd st \<and>
    concat (map (reached ps) ys') = replicate (length (concat (map (reached ps) ys))) (YString MASK_TEXT) \<and>
    (fst st' \<longleftrightarrow> fst st \<or> concat (map (reached ps) ys) \<noteq> []) \<and>
    (concat (map (reached ps) ys) = [] \<longrightarrow> ys' = ys)"
  using assms(2,3)
proof (induction ys arbitrary: st ys')
  case (Cons y ys)
  then obtain y1 s1 ys1 where f: "f y st = Ok (y1, s1)" and w: "walk f ys s1 = Ok (ys1, st')" and ys': "ys' = y1 # ys1"
    by (auto simp: res_simps split: prod.splits)
  from assms(1) [OF f Cons.prems(2)] have m: "masks ps (fst st) y y1 (fst s1)" "snd s1 = snd st" by auto
  with Cons.prems(2) Cons.IH [OF w] show ?case by (auto simp: ys' masks_def replicate_add)
qed simp

lemma redact_yaml_masks:
  "redact_yaml hmac now r ps y st = Ok (y', st') \<Longrightarrow> \<not> tokenization (snd st) \<Longrightarrow>
   masks ps (fst st) y y' (fst st') \<and> snd st' = snd st"
proof (induction ps arbitrary: y st y' st')
  case Nil
  obtain found w where "st = (found, w)" by force
  with Nil show ?case by (auto simp: masks_def split: yaml.splits if_splits)
next
  case (Cons p ps)
  note step = Cons.IH
  show ?case
  proof (cases y)
    case (YSeq xs)
    show ?thesis
    proof (cases "p = ''*''")
      case True
      with Cons.prems(1) YSeq obtain ys where
        walk: "walk (redact_yaml hmac now r ps) xs st = Ok (ys, st')" and y': "y' = YSeq ys"
        by (auto simp: res_simps)
      from walk_masks [OF step walk Cons.prems(2)] True YSeq y' show ?thesis by (simp add: masks_def)
    next
      case False
      show ?thesis
      proof (cases "\<exists>i. atoi p = Ok i \<and> 0 \<le> i \<and> i < int (length xs)")
        case True
        then obtain i where i: "atoi p = Ok i" "0 \<le> i" "i < int (length xs)" by blast
        with False Cons.prems(1) YSeq obtain c where
          c: "redact_yaml hmac now r ps (xs ! nat i) st = Ok (c, st')" and y': "y' = YSeq (xs[nat i := c])"
          by (auto simp: res_simps)
        have "nat i < length xs" using i by simp
        with step [OF c Cons.prems(2)] False i YSeq y' show ?thesis by (auto simp: masks_def)
      next
        case none: False
        then have "y' = y \<and> st' = st" and "reached (p # ps) y = []"
          using False Cons.prems(1) YSeq by (auto split: res.splits if_splits)
        then show ?thesis by (simp add: masks_def del: reached.simps)
      qed
    qed
  next
    case (YMap fs)
    show ?thesis
    proof (cases "p = ''*'' \<and> fs \<noteq> []")
      case True
      with Cons.prems(1) YMap obtain ys where
        walk: "walk (redact_yaml hmac now r ps) (map snd fs) st = Ok (ys, st')" and y': "y' = YMap (zip (map fst fs) ys)"
        by (auto simp: res_simps)
      from walk_masks [OF step walk Cons.prems(2)] have w: "length ys = length fs"
        "snd st' = snd st"
        "concat (map (reached ps) ys) = replicate (length (concat (map (reached ps) (map snd fs)))) (YString MASK_TEXT)"
        "fst st' \<longleftrightarrow> fst st \<or> concat (map (reached ps) (map snd fs)) \<noteq> []"
        "concat (map (reached ps) (map snd fs)) = [] \<longrightarrow> ys = map snd fs" by simp_all
      have "zip (map fst fs) ys \<noteq> []" using True w(1) by (cases fs; cases ys) auto
      moreover have "map snd (zip (map fst fs) ys) = ys" using w(1) by simp
      moreover have "ys = map snd fs \<Longrightarrow> zip (map fst fs) ys = fs" by (simp add: zip_map_fst_snd)
      ultimately show ?thesis
        using True YMap y' w(2-5) by (simp add: masks_def del: map_map)
    next
      case False
      show ?thesis
      proof (cases "map_of fs (YString p)")
        case None
        with False Cons.prems(1) YMap have "y' = y \<and> st' = st" "reached (p # ps) y = []" by auto
        then show ?thesis by (simp add: masks_def del: reached.simps)
      next
        case (Some child)
        with False Cons.prems(1) YMap obtain c where
          c: "redact_yaml hmac now r ps child st = Ok (c, st')" and y': "y' = YMap (AList.update (YString p) c fs)"
          by (auto simp: res_simps)
        have "c = child \<Longrightarrow> AList.update (YString p) c fs = fs" using Some by (induction fs) (auto split: if_splits)
        moreover have "AList.update (YString p) c fs \<noteq> []" by (cases fs) auto
        ultimately show ?thesis
          using step [OF c Cons.prems(2)] Some False YMap y' by (auto simp: masks_def update_conv')
      qed
    qed
  qed (use Cons.prems(1) in \<open>auto simp: masks_def\<close>)
qed

section \<open>Properties\<close>



end
