(* ===== verification/Redaction.thy ===== *)
theory Redaction
  imports Yaml_Redactor
begin

text \<open>
  The redaction engine (\<^verbatim>\<open>pkg/redact/redact.go\<close>): the built-in redactors with their regular expressions, the
  redactors of a spec, the selection by path, the pipeline, the regex cache and the list of redactions. The
  compiler of user expressions and of globs, \<^verbatim>\<open>filepath.Match\<close>, the YAML codec, HMAC and the clock are
  parameters, collected in \<open>libs\<close>.
\<close>

record libs =
  l_hmac :: "string \<Rightarrow> string \<Rightarrow> string"
  l_now :: int
  l_unmarshal :: "string \<Rightarrow> yaml res"
  l_marshal :: "yaml \<Rightarrow> string res"
  l_fmatch :: "string \<Rightarrow> string \<Rightarrow> bool res"
  l_compile :: "string \<Rightarrow> regexp res"
  l_glob :: "string \<Rightarrow> (string \<Rightarrow> bool) res"

section \<open>The built-in expressions\<close>

abbreviation dquote :: char where "dquote \<equiv> CHR 0x22"
abbreviation backslash :: char where "backslash \<equiv> CHR 0x5C"

definition not_quote :: "char \<Rightarrow> bool" where "not_quote c \<longleftrightarrow> c \<noteq> dquote"

text \<open>\<^verbatim>\<open>\\\"\<close> in an expression: a backslash and a quote.\<close>

definition esc_quote :: string where "esc_quote = [backslash, dquote]"

definition opt_char :: "char \<Rightarrow> rx" where "opt_char c = opt_of (\<lambda>d. lower_char d = lower_char c)"

text \<open>
  \<^verbatim>\<open>(?i)(\\\"name\\\":\\\"[^\"]*KEY\\\",\\\"value\\\":\\\")(?P<mask>[^\"]*)(\\\")\<close>
\<close>

definition env_rx :: "rx \<Rightarrow> regexp" where
  "env_rx key =
     \<lparr>rx_prog = rx_seq
        [Grp 1 (rx_seq [ci (esc_quote @ ''name'' @ esc_quote @ '':'' @ esc_quote), star not_quote, key,
                        ci (esc_quote @ '','' @ esc_quote @ ''value'' @ esc_quote @ '':'' @ esc_quote)]),
         Grp 2 (star not_quote), Grp 3 (lit esc_quote)],
      subexp_names = [[], [], ''mask'', []]\<rparr>"

definition plain_rx :: "rx \<Rightarrow> regexp" where
  "plain_rx r = \<lparr>rx_prog = r, subexp_names = [[]]\<rparr>"

text \<open>The words of the AWS expressions, in the two readings \<open>ci\<close> (expression) and \<open>lit\<close> (scan).\<close>

definition opt_underscore :: rx where "opt_underscore = opt_of (\<lambda>c. c = CHR ''_'')"

definition secret_access_key :: "(string \<Rightarrow> rx) \<Rightarrow> rx" where
  "secret_access_key word = rx_seq [word ''secret'', opt_underscore, word ''access'', opt_underscore, word ''key'']"

definition access_key_id :: "(string \<Rightarrow> rx) \<Rightarrow> rx" where
  "access_key_id word = rx_seq [word ''access'', opt_underscore, word ''key'', opt_underscore, word ''id'']"

definition owner_account :: "(string \<Rightarrow> rx) \<Rightarrow> rx" where
  "owner_account word = rx_seq [word ''owner'', opt_underscore, word ''account'']"

definition containing :: "string \<Rightarrow> rx" where
  "containing w = rx_seq [ci w, star not_quote]"

definition userinfo_char :: "char \<Rightarrow> bool" where
  "userinfo_char c \<longleftrightarrow> c \<noteq> CHR '':'' \<and> c \<noteq> dquote \<and> c \<noteq> CHR ''/''"

definition password_char :: "char \<Rightarrow> bool" where
  "password_char c \<longleftrightarrow> c \<noteq> CHR ''@'' \<and> c \<noteq> dquote \<and> c \<noteq> CHR ''/''"

definition url_scheme :: rx where
  "url_scheme = Alt (rx_seq [ci ''http'', opt_char (CHR ''s'')]) (ci ''ftp'')"

definition url_rx :: regexp where
  "url_rx =
     \<lparr>rx_prog = rx_seq
        [Grp 1 url_scheme, Grp 2 (lit ''://''), Grp 3 (plus_of userinfo_char), Grp 4 (lit '':''),
         Grp 5 (plus_of password_char),
         Grp 6 (rx_seq [lit ''@'', plus_of (\<lambda>c. userinfo_char c \<and> \<not> re_space c)]),
         Alt (Grp 7 (rx_seq [lit '':'', plus_of is_digit])) Emp],
      subexp_names = [[], [], [], ''mask'', [], ''mask'', ''host'', ''port'']\<rparr>"

definition tcp_rx :: regexp where
  "tcp_rx =
     \<lparr>rx_prog = rx_seq
        [WordB, Grp 1 (star userinfo_char), Grp 2 (lit '':''), Grp 3 (star userinfo_char), Grp 4 (lit ''@tcp(''),
         Grp 5 (star userinfo_char), Alt (Grp 6 (rx_seq [lit '':'', star is_digit])) Emp, Grp 7 (lit '')/''),
         Grp 8 (plus_of (\<lambda>c. \<not> re_space c)), WordB],
      subexp_names = [[], ''mask'', [], ''mask'', [], ''mask'', ''port'', [], ''mask'']\<rparr>"

definition db_url_rx :: regexp where
  "db_url_rx =
     \<lparr>rx_prog = rx_seq
        [WordB, Grp 1 (rx_seq [star word_char, lit ''://'']), Grp 2 (star userinfo_char), Grp 3 (lit '':''),
         Grp 4 (star userinfo_char), Grp 5 (lit ''@''), Grp 6 (star userinfo_char),
         Alt (Grp 7 (rx_seq [lit '':'', star is_digit])) Emp, Grp 8 (lit ''/''),
         Grp 9 (plus_of (\<lambda>c. \<not> re_space c)), WordB],
      subexp_names = [[], [], ''mask'', [], ''mask'', [], ''mask'', ''port'', [], ''mask'']\<rparr>"

definition db_url_scan :: regexp where
  "db_url_scan =
     \<lparr>rx_prog = rx_seq
        [WordB, Grp 1 (rx_seq [star word_char, lit ''://'']), Grp 2 (star userinfo_char), Grp 3 (lit '':''),
         Grp 4 (star password_char), Grp 5 (lit ''@''), Grp 6 (star userinfo_char),
         Alt (Grp 7 (rx_seq [lit '':'', star is_digit])) Emp, Grp 8 (lit ''/''),
         Grp 9 (plus_of (\<lambda>c. \<not> re_space c)), WordB],
      subexp_names = [[], [], [], [], [], [], [], [], [], []]\<rparr>"

text \<open>\<^verbatim>\<open>(?i)(KEY *= *)(?P<mask>[^\;]+)(;)\<close>\<close>

definition is_blank :: "char \<Rightarrow> bool" where "is_blank c \<longleftrightarrow> c = CHR '' ''"

definition not_semicolon :: "char \<Rightarrow> bool" where "not_semicolon c \<longleftrightarrow> c \<noteq> CHR '';''"

definition key_value_rx :: "string \<Rightarrow> regexp" where
  "key_value_rx key =
     \<lparr>rx_prog = rx_seq
        [Grp 1 (rx_seq [ci key, star is_blank, lit ''='', star is_blank]), Grp 2 (plus_of not_semicolon),
         Grp 3 (lit '';'')],
      subexp_names = [[], [], ''mask'', []]\<rparr>"

definition single_lines :: "(regexp \<times> rx \<times> string) list" where
  "single_lines =
     [(env_rx (secret_access_key ci), secret_access_key lit,
       ''Redact values for environment variables that look like AWS Secret Access Keys''),
      (env_rx (access_key_id ci), access_key_id lit,
       ''Redact values for environment variables that look like AWS Access Keys''),
      (env_rx (owner_account ci), owner_account lit,
       ''Redact values for environment variables that look like AWS Owner or Account numbers''),
      (env_rx (containing ''password''), lit ''password'',
       ''Redact values for environment variables with names beginning with 'password'' @ [CHR 0x27]),
      (env_rx (containing ''token''), lit ''token'',
       ''Redact values for environment variables with names beginning with 'token'' @ [CHR 0x27]),
      (env_rx (containing ''database''), lit ''database'',
       ''Redact values for environment variables with names beginning with 'database'' @ [CHR 0x27]),
      (env_rx (containing ''user''), lit ''user'',
       ''Redact values for environment variables with names beginning with 'user'' @ [CHR 0x27]),
      (url_rx, Alt (rx_seq [lit ''http'', opt_of (\<lambda>c. c = CHR ''s'')]) (lit ''ftp''),
       ''Redact connection strings with username and password''),
      (tcp_rx, lit ''@tcp'', ''Redact database connection strings that contain username and password''),
      (db_url_rx, rx_prog db_url_scan, ''Redact database connection strings that contain username and password''),
      (key_value_rx ''Data Source'', lit ''data source'',
       ''Redact 'Data Source' values commonly found in database connection strings''),
      (key_value_rx ''location'', lit ''location'',
       ''Redact 'location' values commonly found in database connection strings''),
      (key_value_rx ''User ID'', lit ''user id'',
       ''Redact 'User ID' values commonly found in database connection strings''),
      (key_value_rx ''password'', lit ''password'',
       ''Redact 'password' values commonly found in database connection strings''),
      (key_value_rx ''Server'', lit ''server'',
       ''Redact 'Server' values commonly found in database connection strings''),
      (key_value_rx ''Database'', lit ''database'',
       ''Redact 'Database' values commonly found in database connection strings''),
      (key_value_rx ''Uid'', lit ''uid'',
       ''Redact 'UID' values commonly found in database connection strings''),
      (key_value_rx ''Pwd'', lit ''pwd'',
       ''Redact 'Pwd' values commonly found in database connection strings'')]"

text \<open>The pairs of lines of indented JSON.\<close>

definition json_field :: "string \<Rightarrow> rx" where
  "json_field name = rx_seq [ci ([dquote] @ name @ [dquote] @ '':''), star is_blank, lit [dquote]]"

definition name_rx :: "rx \<Rightarrow> regexp" where
  "name_rx key = plain_rx (rx_seq [json_field ''name'', star not_quote, key, star not_quote, lit [dquote]])"

definition name_any_rx :: "string \<Rightarrow> regexp" where
  "name_any_rx key = plain_rx (rx_seq [json_field ''name'', star any_char, ci key, star not_quote, lit [dquote]])"

definition value_rx :: regexp where
  "value_rx =
     \<lparr>rx_prog = rx_seq [Grp 1 (json_field ''value''), Grp 2 (rx_seq [star any_char, star not_quote]), Grp 3 (lit [dquote])],
      subexp_names = [[], [], ''mask'', []]\<rparr>"

definition ceph_entity_rx :: regexp where
  "ceph_entity_rx =
     \<lparr>rx_prog = rx_seq [json_field ''entity'', Grp 1 (Alt (ci ''osd'') (Alt (ci ''client'') (ci ''mgr''))), lit ''.'',
        star any_char, star not_quote, lit [dquote]], subexp_names = [[], []]\<rparr>"

definition ceph_scan_rx :: rx where
  "ceph_scan_rx = Grp 1 (Alt (lit ''osd'') (Alt (lit ''client'') (lit ''mgr'')))"

definition ceph_key_rx :: regexp where
  "ceph_key_rx =
     \<lparr>rx_prog = rx_seq [Grp 1 (json_field ''key''),
        Grp 2 (rx_seq [Rep any_char 38 (Some 38), lit ''=='', star not_quote]), Grp 3 (lit [dquote])],
      subexp_names = [[], [], ''mask'', []]\<rparr>"

definition double_lines :: "(regexp \<times> rx \<times> regexp \<times> string) list" where
  "double_lines =
     [(name_rx (secret_access_key ci), secret_access_key lit, value_rx,
       ''Redact AWS Secret Access Key values in multiline JSON''),
      (name_rx (access_key_id ci), access_key_id lit, value_rx,
       ''Redact AWS Access Key ID values in multiline JSON''),
      (name_rx (owner_account ci), owner_account lit, value_rx,
       ''Redact AWS Owner and Account Numbers in multiline JSON''),
      (name_any_rx ''password'', lit ''password'', value_rx,
       ''Redact password environment variables in multiline JSON''),
      (name_any_rx ''token'', lit ''token'', value_rx,
       ''Redact values that look like API tokens in multiline JSON''),
      (name_any_rx ''database'', lit ''database'', value_rx,
       ''Redact database connection strings in multiline JSON''),
      (name_any_rx ''user'', lit ''user'', value_rx, ''Redact usernames in multiline JSON''),
      (ceph_entity_rx, ceph_scan_rx, ceph_key_rx, ''Redact 'key' values found in Ceph auth lists'')]"

section \<open>Redactors of a path\<close>

datatype redactor =
    RLiteral string redactor_info
  | RSingle line_redactor
  | RMulti multi_line_redactor
  | RYaml yaml_redactor

definition scan_of :: "rx \<Rightarrow> regexp" where "scan_of r = plain_rx r"

definition custom_resource_glob :: string where
  "custom_resource_glob = ''cluster-resources/custom-resources/installers.cluster.kurl.sh/*.yaml''"

definition get_redactors :: "string \<Rightarrow> redactor list" where
  "get_redactors path =
     map (\<lambda>(re, scan, name). RSingle \<lparr>lr_scan = Some (scan_of scan), lr_re = re, lr_mask = MASK_TEXT,
            lr_info = \<lparr>file_path = path, redact_name = name, is_default = True\<rparr>\<rparr>) single_lines @
     map (\<lambda>(sel, scan, re, name). RMulti \<lparr>ml_scan = Some (scan_of scan), ml_re1 = sel, ml_re2 = re,
            ml_mask = MASK_TEXT, ml_info = \<lparr>file_path = path, redact_name = name, is_default = True\<rparr>\<rparr>)
       double_lines @
     [RYaml (new_yaml_redactor ''*.spec.kubernetes.bootstrapToken'' custom_resource_glob []),
      RYaml \<lparr>mask_path = [''*'', ''metadata'', ''annotations'', ''kubectl.kubernetes.io/last-applied-configuration''],
             yr_file_path = custom_resource_glob, yr_name = [], yr_is_default = False\<rparr>,
      RYaml (new_yaml_redactor ''*.spec.kubernetes.certKey'' custom_resource_glob []),
      RYaml (new_yaml_redactor ''*.spec.kubernetes.kubeadmToken'' custom_resource_glob [])]"

text \<open>The cache of compiled expressions.\<close>

type_synonym regex_cache = "(string \<times> regexp) list"

definition compile_regex :: "libs \<Rightarrow> string \<Rightarrow> regex_cache \<Rightarrow> (regexp \<times> regex_cache) res" where
  "compile_regex L pattern rxc =
     (case map_of rxc pattern of
        Some re \<Rightarrow> Ok (re, rxc)
      | None \<Rightarrow> map_res (\<lambda>re. (re, AList.update pattern re rxc)) (l_compile L pattern))"

record regex_spec =
  rs_selector :: string
  rs_redactor :: string

record redact_spec =
  rd_name :: string
  rd_file :: string
  rd_files :: "string list"
  rd_values :: "string list"
  rd_regex :: "regex_spec list"
  rd_yaml_path :: "string list"

definition redactor_label :: "nat \<Rightarrow> nat \<Rightarrow> string \<Rightarrow> string \<Rightarrow> string" where
  "redactor_label redactor_num within name ty =
     (if name \<noteq> [] then name else ''unnamed-'' @ show_nat redactor_num) @ ''.'' @ ty @ ''.'' @ show_nat within"

text \<open>All globs are compiled before the first one is tried.\<close>

definition redact_matches_path :: "libs \<Rightarrow> string \<Rightarrow> redact_spec \<Rightarrow> bool res" where
  "redact_matches_path L path rd =
     (if rd_file rd = [] \<and> rd_files rd = [] then Ok True
      else bind_res
             (map_m (\<lambda>(msg, g). wrap_res (msg @ quoted g) (l_glob L g))
                ((if rd_file rd \<noteq> [] then [(''invalid file glob string '', rd_file rd)] else []) @
                 map (\<lambda>(i, g). (''invalid file glob string '' @ show_nat i @ '' '', g)) (enumerate 0 (rd_files rd))))
             (\<lambda>globs. Ok (list_ex (\<lambda>g. g path) globs)))"

text \<open>\<^verbatim>\<open>%+v\<close> and \<^verbatim>\<open>%q\<close> of a \<^verbatim>\<open>Regex\<close>.\<close>

definition multiline_message :: "regex_spec \<Rightarrow> string" where
  "multiline_message re = ''multiline redactor {Selector:'' @ rs_selector re @ '' Redactor:'' @ rs_redactor re @ ''}''"

definition regex_message :: "regex_spec \<Rightarrow> string" where
  "regex_message re = ''redactor {'' @ quoted (rs_selector re) @ '' '' @ quoted (rs_redactor re) @ ''}''"

definition build_regex ::
  "libs \<Rightarrow> string \<Rightarrow> nat \<Rightarrow> string \<Rightarrow> nat \<times> regex_spec \<Rightarrow> regex_cache \<Rightarrow> (redactor \<times> regex_cache) res" where
  "build_regex L path i name jre rxc =
     (case jre of (j, re) \<Rightarrow>
        if rs_selector re \<noteq> []
        then bind_res (wrap_res (multiline_message re) (compile_regex L (rs_selector re) rxc)) (\<lambda>(re1, c1).
               bind_res (wrap_res (multiline_message re) (compile_regex L (rs_redactor re) c1)) (\<lambda>(re2, c2).
                 Ok (RMulti \<lparr>ml_scan = None, ml_re1 = re1, ml_re2 = re2, ml_mask = MASK_TEXT,
                       ml_info = \<lparr>file_path = path, redact_name = redactor_label i j name ''multiLine'',
                                  is_default = False\<rparr>\<rparr>, c2)))
        else bind_res (wrap_res (regex_message re) (compile_regex L (rs_redactor re) rxc)) (\<lambda>(re1, c1).
               Ok (RSingle \<lparr>lr_scan = None, lr_re = re1, lr_mask = MASK_TEXT,
                     lr_info = \<lparr>file_path = path, redact_name = redactor_label i j name ''regex'',
                                is_default = False\<rparr>\<rparr>, c1)))"

definition build_redact ::
  "libs \<Rightarrow> string \<Rightarrow> nat \<times> redact_spec option \<Rightarrow> regex_cache \<Rightarrow> (redactor list \<times> regex_cache) res" where
  "build_redact L path ird rxc =
     (case ird of
        (i, None) \<Rightarrow> Ok ([], rxc)
      | (i, Some rd) \<Rightarrow>
          bind_res (redact_matches_path L path rd) (\<lambda>matches.
            if \<not> matches then Ok ([], rxc)
            else bind_res (walk (build_regex L path i (rd_name rd)) (enumerate 0 (rd_regex rd)) rxc)
                   (\<lambda>(regexes, rxc').
              Ok (map (\<lambda>(j, lt). RLiteral lt \<lparr>file_path = path, redact_name = redactor_label i j (rd_name rd) ''literal'',
                                               is_default = False\<rparr>) (enumerate 0 (rd_values rd)) @
                  regexes @
                  map (\<lambda>(j, y). RYaml (new_yaml_redactor y path (redactor_label i j (rd_name rd) ''yaml'')))
                    (enumerate 0 (rd_yaml_path rd)), rxc'))))"

definition build_additional_redactors ::
  "libs \<Rightarrow> string \<Rightarrow> redact_spec option list \<Rightarrow> regex_cache \<Rightarrow> (redactor list \<times> regex_cache) res" where
  "build_additional_redactors L path rds rxc =
     map_res (\<lambda>(rss, c). (concat rss, c)) (walk (build_redact L path) (enumerate 0 rds) rxc)"

section \<open>The pipeline\<close>

definition run_redactor :: "libs \<Rightarrow> string \<Rightarrow> redactor \<Rightarrow> stream \<Rightarrow> world \<Rightarrow> (stream \<times> world) res" where
  "run_redactor L path r input w =
     (case r of
        RLiteral lt info \<Rightarrow> literal_redact (l_hmac L) (l_now L) lt info input w
      | RSingle lr \<Rightarrow> single_line_redact (l_hmac L) (l_now L) lr input w
      | RMulti mr \<Rightarrow> multi_line_redact (l_hmac L) (l_now L) mr input w
      | RYaml yr \<Rightarrow> yaml_redact (l_unmarshal L) (l_marshal L) (l_fmatch L) (l_hmac L) (l_now L) yr path input w)"

fun run_redactors :: "libs \<Rightarrow> string \<Rightarrow> redactor list \<Rightarrow> stream \<Rightarrow> world \<Rightarrow> (stream \<times> world) res" where
  "run_redactors L path [] input w = Ok (input, w)"
| "run_redactors L path (r # rs) input w =
     bind_res (run_redactor L path r input w) (\<lambda>(out, w'). run_redactors L path rs out w')"

definition redact ::
  "libs \<Rightarrow> string \<Rightarrow> redact_spec option list \<Rightarrow> regex_cache \<Rightarrow> stream \<Rightarrow> world \<Rightarrow> (stream \<times> world) res" where
  "redact L path additional rxc input w =
     bind_res (wrap_res ''build custom redactors'' (build_additional_redactors L path additional rxc))
       (\<lambda>(built, _). run_redactors L path (get_redactors path @ built) input w)"

section \<open>The list of redactions\<close>

text \<open>Both indexes of \<open>RedactionList\<close>, filled by one goroutine per redaction in any order.\<close>

record redaction_list =
  by_redactor :: "(string \<times> redaction list) list"
  by_file :: "(string \<times> redaction list) list"

definition empty_redaction_list :: redaction_list where
  "empty_redaction_list = \<lparr>by_redactor = [], by_file = []\<rparr>"

definition index_redaction :: "redaction \<Rightarrow> redaction_list \<Rightarrow> redaction_list" where
  "index_redaction r rl =
     rl\<lparr>by_redactor := AList.update (redactor_name r)
           (lookup_list (by_redactor rl) (redactor_name r) @ [r]) (by_redactor rl),
        by_file := AList.update (redacted_file r)
           (lookup_list (by_file rl) (redacted_file r) @ [r]) (by_file rl)\<rparr>"

section \<open>The cache is transparent\<close>

definition cache_ok :: "libs \<Rightarrow> regex_cache \<Rightarrow> bool" where
  "cache_ok L c \<longleftrightarrow> (\<forall>p re. map_of c p = Some re \<longrightarrow> l_compile L p = Ok re)"

text \<open>A step that uses the cache agrees with a function that does not.\<close>

definition agrees :: "libs \<Rightarrow> (regex_cache \<Rightarrow> ('b \<times> regex_cache) res) \<Rightarrow> 'b res \<Rightarrow> bool" where
  "agrees L f g \<longleftrightarrow> (\<forall>c. cache_ok L c \<longrightarrow>
     (case f c of
        Ok (y, c') \<Rightarrow> g = Ok y \<and> cache_ok L c'
      | Fail e \<Rightarrow> g = Fail e
      | Panic m \<Rightarrow> g = Panic m))"

lemma agrees_Ok: "agrees L (\<lambda>c. Ok (y, c)) (Ok y)"
  by (simp add: agrees_def)

lemma agrees_compile: "agrees L (compile_regex L p) (l_compile L p)"
  unfolding agrees_def
proof (intro allI impI)
  fix c
  assume c: "cache_ok L c"
  show "case compile_regex L p c of Ok (y, c') \<Rightarrow> l_compile L p = Ok y \<and> cache_ok L c'
      | Fail e \<Rightarrow> l_compile L p = Fail e | Panic m \<Rightarrow> l_compile L p = Panic m"
  proof (cases "map_of c p")
    case (Some re)
    with c show ?thesis by (simp add: compile_regex_def cache_ok_def)
  next
    case None
    with c show ?thesis
      by (cases "l_compile L p") (auto simp: compile_regex_def cache_ok_def update_conv')
  qed
qed

lemma agrees_wrap:
  assumes "agrees L f g"
  shows "agrees L (\<lambda>c. wrap_res msg (f c)) (wrap_res msg g)"
  unfolding agrees_def
proof (intro allI impI)
  fix c
  assume "cache_ok L c"
  with assms have "case f c of Ok (y, c') \<Rightarrow> g = Ok y \<and> cache_ok L c' | Fail e \<Rightarrow> g = Fail e | Panic m \<Rightarrow> g = Panic m"
    by (simp add: agrees_def)
  then show "case wrap_res msg (f c) of Ok (y, c') \<Rightarrow> wrap_res msg g = Ok y \<and> cache_ok L c'
      | Fail e \<Rightarrow> wrap_res msg g = Fail e | Panic m \<Rightarrow> wrap_res msg g = Panic m"
    by (cases "f c") auto
qed

lemma agrees_bind:
  assumes "agrees L f g" and "\<And>y. agrees L (h y) (k y)"
  shows "agrees L (\<lambda>c. bind_res (f c) (\<lambda>(y, c'). h y c')) (bind_res g k)"
  unfolding agrees_def
proof (intro allI impI)
  fix c
  assume c: "cache_ok L c"
  have f: "case f c of Ok (y, c') \<Rightarrow> g = Ok y \<and> cache_ok L c' | Fail e \<Rightarrow> g = Fail e | Panic m \<Rightarrow> g = Panic m"
    using assms(1) c by (simp add: agrees_def)
  have h: "case h y c' of Ok (z, c'') \<Rightarrow> k y = Ok z \<and> cache_ok L c'' | Fail e \<Rightarrow> k y = Fail e | Panic m \<Rightarrow> k y = Panic m"
    if "cache_ok L c'" for y c'
    using assms(2) [of y] that by (simp add: agrees_def)
  show "case bind_res (f c) (\<lambda>(y, c'). h y c') of Ok (y, c') \<Rightarrow> bind_res g k = Ok y \<and> cache_ok L c'
      | Fail e \<Rightarrow> bind_res g k = Fail e | Panic m \<Rightarrow> bind_res g k = Panic m"
  proof (cases "f c")
    case (Ok p)
    obtain y c' where p: "p = (y, c')" by force
    from f have g: "g = Ok y" "cache_ok L c'" by (simp_all add: Ok p)
    show ?thesis unfolding Ok p g(1) bind_res.simps prod.case by (rule h [OF g(2)])
  qed (use f in simp_all)
qed

lemma agrees_walk:
  assumes "\<And>x. agrees L (f x) (g x)"
  shows "agrees L (walk f xs) (map_m g xs)"
proof (induction xs)
  case Nil
  show ?case by (simp add: agrees_def)
next
  case (Cons x xs)
  have "agrees L (\<lambda>c. bind_res (walk f xs c) (\<lambda>(ys, c'). Ok (y # ys, c'))) (bind_res (map_m g xs) (\<lambda>ys. Ok (y # ys)))" for y
    by (rule agrees_bind [OF Cons agrees_Ok])
  from agrees_bind [OF assms [of x] this] show ?case by simp
qed

lemma agrees_fst:
  assumes "agrees L f g" and "cache_ok L c"
  shows "map_res fst (f c) = g"
proof -
  from assms have "case f c of Ok (y, c') \<Rightarrow> g = Ok y \<and> cache_ok L c' | Fail e \<Rightarrow> g = Fail e | Panic m \<Rightarrow> g = Panic m"
    by (simp add: agrees_def)
  then show ?thesis by (cases "f c") auto
qed

lemma agrees_build_regex: "\<exists>g. agrees L (build_regex L path i name jre) g"
proof -
  obtain j re where jre: "jre = (j, re)" by force
  show ?thesis
  proof (cases "rs_selector re = []")
    case True
    have "agrees L (\<lambda>c. bind_res (wrap_res (regex_message re) (compile_regex L (rs_redactor re) c)) (\<lambda>(re1, c1).
         Ok (RSingle \<lparr>lr_scan = None, lr_re = re1, lr_mask = MASK_TEXT,
            lr_info = \<lparr>file_path = path, redact_name = redactor_label i j name ''regex'', is_default = False\<rparr>\<rparr>, c1)))
        (bind_res (wrap_res (regex_message re) (l_compile L (rs_redactor re))) (\<lambda>re1. Ok (RSingle \<lparr>lr_scan = None, lr_re = re1,
            lr_mask = MASK_TEXT, lr_info = \<lparr>file_path = path, redact_name = redactor_label i j name ''regex'',
            is_default = False\<rparr>\<rparr>)))"
      by (rule agrees_bind [OF agrees_wrap [OF agrees_compile] agrees_Ok])
    moreover have "build_regex L path i name jre = (\<lambda>c. bind_res (wrap_res (regex_message re) (compile_regex L (rs_redactor re) c)) (\<lambda>(re1, c1).
         Ok (RSingle \<lparr>lr_scan = None, lr_re = re1, lr_mask = MASK_TEXT,
            lr_info = \<lparr>file_path = path, redact_name = redactor_label i j name ''regex'', is_default = False\<rparr>\<rparr>, c1)))"
      using True by (simp add: fun_eq_iff build_regex_def jre)
    ultimately show ?thesis by metis
  next
    case False
    let ?mk = "\<lambda>re1 re2. RMulti \<lparr>ml_scan = None, ml_re1 = re1, ml_re2 = re2, ml_mask = MASK_TEXT,
       ml_info = \<lparr>file_path = path, redact_name = redactor_label i j name ''multiLine'', is_default = False\<rparr>\<rparr>"
    have "agrees L (\<lambda>c. bind_res (wrap_res (multiline_message re) (compile_regex L (rs_selector re) c)) (\<lambda>(re1, c1).
         bind_res (wrap_res (multiline_message re) (compile_regex L (rs_redactor re) c1)) (\<lambda>(re2, c2). Ok (?mk re1 re2, c2))))
        (bind_res (wrap_res (multiline_message re) (l_compile L (rs_selector re))) (\<lambda>re1.
         bind_res (wrap_res (multiline_message re) (l_compile L (rs_redactor re))) (\<lambda>re2. Ok (?mk re1 re2))))"
      by (rule agrees_bind [OF agrees_wrap [OF agrees_compile] agrees_bind [OF agrees_wrap [OF agrees_compile] agrees_Ok]])
    moreover have "build_regex L path i name jre = (\<lambda>c. bind_res (wrap_res (multiline_message re) (compile_regex L (rs_selector re) c)) (\<lambda>(re1, c1).
         bind_res (wrap_res (multiline_message re) (compile_regex L (rs_redactor re) c1)) (\<lambda>(re2, c2). Ok (?mk re1 re2, c2))))"
      using False by (simp add: fun_eq_iff build_regex_def jre)
    ultimately show ?thesis by metis
  qed
qed

lemma agrees_build_redact: "\<exists>g. agrees L (build_redact L path ird) g"
proof -
  obtain i o' where ird: "ird = (i, o')" by force
  show ?thesis
  proof (cases o')
    case None
    then have "build_redact L path ird = (\<lambda>c. Ok ([], c))" by (simp add: fun_eq_iff build_redact_def ird)
    then show ?thesis using agrees_Ok by metis
  next
    case (Some rd)
    obtain g where "\<And>jre. agrees L (build_regex L path i (rd_name rd) jre) (g jre)"
      using agrees_build_regex by metis
    note walked = agrees_walk [OF this, where xs = "enumerate 0 (rd_regex rd)"]
    let ?pre = "map (\<lambda>(j, lt). RLiteral lt \<lparr>file_path = path, redact_name = redactor_label i j (rd_name rd) ''literal'',
         is_default = False\<rparr>) (enumerate 0 (rd_values rd))"
    let ?post = "map (\<lambda>(j, y). RYaml (new_yaml_redactor y path (redactor_label i j (rd_name rd) ''yaml'')))
         (enumerate 0 (rd_yaml_path rd))"
    have built: "agrees L (\<lambda>c. bind_res (walk (build_regex L path i (rd_name rd)) (enumerate 0 (rd_regex rd)) c)
            (\<lambda>(regexes, c'). Ok (?pre @ regexes @ ?post, c')))
          (bind_res (map_m g (enumerate 0 (rd_regex rd))) (\<lambda>regexes. Ok (?pre @ regexes @ ?post)))"
      by (rule agrees_bind [OF walked agrees_Ok])
    show ?thesis
    proof (cases "redact_matches_path L path rd")
      case (Ok matches)
      show ?thesis
      proof (cases matches)
        case True
        have "build_redact L path ird = (\<lambda>c. bind_res (walk (build_regex L path i (rd_name rd)) (enumerate 0 (rd_regex rd)) c)
            (\<lambda>(regexes, c'). Ok (?pre @ regexes @ ?post, c')))"
          using Some Ok True by (simp add: fun_eq_iff build_redact_def ird)
        with built show ?thesis by metis
      next
        case False
        then have "build_redact L path ird = (\<lambda>c. Ok ([], c))" using Some Ok by (simp add: fun_eq_iff build_redact_def ird)
        then show ?thesis using agrees_Ok by metis
      qed
    next
      case (Fail e)
      then have "build_redact L path ird = (\<lambda>c. Fail e)" using Some by (simp add: fun_eq_iff build_redact_def ird)
      then show ?thesis by (intro exI [of _ "Fail e"]) (simp add: agrees_def)
    next
      case (Panic m)
      then have "build_redact L path ird = (\<lambda>c. Panic m)" using Some by (simp add: fun_eq_iff build_redact_def ird)
      then show ?thesis by (intro exI [of _ "Panic m"]) (simp add: agrees_def)
    qed
  qed
qed

lemma build_additional_cache:
  assumes "cache_ok L c"
  shows "map_res fst (build_additional_redactors L path rds c) = map_res fst (build_additional_redactors L path rds [])"
proof -
  obtain g where "\<And>x. agrees L (build_redact L path x) (g x)" using agrees_build_redact by metis
  note walked = agrees_walk [OF this, where xs = "enumerate 0 rds"]
  have "cache_ok L []" by (simp add: cache_ok_def)
  with agrees_fst [OF walked assms] agrees_fst [OF walked]
  have "map_res fst (walk (build_redact L path) (enumerate 0 rds) c) = map_res fst (walk (build_redact L path) (enumerate 0 rds) [])"
    by simp
  then have "map_res concat (map_res fst (walk (build_redact L path) (enumerate 0 rds) c)) =
      map_res concat (map_res fst (walk (build_redact L path) (enumerate 0 rds) []))" by simp
  moreover have "map_res fst (map_res (\<lambda>(rss, c). (concat rss, c)) m) = map_res concat (map_res fst m)" for m :: "(redactor list list \<times> regex_cache) res"
    by (cases m) auto
  ultimately show ?thesis by (simp add: build_additional_redactors_def)
qed

section \<open>The list of redactions\<close>

lemma lookup_update: "lookup_list (AList.update k v m) j = (if j = k then v else lookup_list m j)"
  by (simp add: lookup_list_def update_conv')

section \<open>Values in connection strings\<close>

definition connection_keys :: "string list" where
  "connection_keys = [''Data Source'', ''location'', ''User ID'', ''password'', ''Server'', ''Database'', ''Uid'', ''Pwd'']"

definition setting :: "string \<Rightarrow> string \<Rightarrow> string \<Rightarrow> string" where
  "setting k b1 b2 = k @ b1 @ ''='' @ b2"

lemma key_value_first:
  assumes "to_lower k = to_lower key" and "\<forall>c\<in>set (b1 @ b2). c = CHR '' ''" and "v \<noteq> []" "hd v \<noteq> CHR '' ''" "CHR '';'' \<notin> set v"
    and "ahead m = setting k b1 b2 @ v @ '';'' @ rest'" and "groups m = []"
  shows "\<exists>m'. rx_first (rx_prog (key_value_rx key)) m = Some m' \<and>
    length (behind m') = length (behind m) + length (setting k b1 b2 @ v @ '';'') \<and>
    groups m' = [(3, '';''), (2, v), (1, setting k b1 b2)]"
proof -
  have a: "ahead m = k @ b1 @ ''='' @ b2 @ v @ '';'' @ rest'"
    using assms(6) by (simp add: setting_def)
  define m1 where "m1 = advance k m"
  define m2 where "m2 = advance b1 m1"
  define m3 where "m3 = advance ''='' m2"
  define m4 where "m4 = advance b2 m3"
  define g1 where "g1 = m4\<lparr>groups := (1, consumed m m4) # groups m4\<rparr>"
  define m5 where "m5 = advance v g1"
  define g2 where "g2 = m5\<lparr>groups := (2, consumed g1 m5) # groups m5\<rparr>"
  define m6 where "m6 = advance '';'' g2"
  define g3 where "g3 = m6\<lparr>groups := (3, consumed g2 m6) # groups m6\<rparr>"
  have a1: "ahead m1 = b1 @ ''='' @ b2 @ v @ '';'' @ rest'" by (simp add: m1_def a)
  have a2: "ahead m2 = ''='' @ b2 @ v @ '';'' @ rest'" by (simp add: m2_def a1)
  have a3: "ahead m3 = b2 @ v @ '';'' @ rest'" by (simp add: m3_def a2)
  have a4: "ahead m4 = v @ '';'' @ rest'" by (simp add: m4_def a3)
  have a4': "ahead g1 = v @ '';'' @ rest'" by (simp add: g1_def a4)
  have a5: "ahead g2 = '';'' @ rest'" by (simp add: g2_def m5_def a4')
  have f1: "rx_first (ci key) m = Some m1" unfolding m1_def by (rule rx_first_ci [OF a assms(1)])
  have f2: "rx_first (star is_blank) m1 = Some m2"
    unfolding m2_def by (rule rx_first_rep [OF _ _ _ a1]) (use assms(2) in \<open>auto simp: is_blank_def\<close>)
  have f3: "rx_first (lit ''='') m2 = Some m3" unfolding m3_def by (rule rx_first_lit [OF a2])
  have f4: "rx_first (star is_blank) m3 = Some m4"
    unfolding m4_def by (rule rx_first_rep [OF _ _ _ a3]) (use assms(2-4) in \<open>auto simp: is_blank_def\<close>)
  note fg1 = rx_first_grp [OF rx_first_seq [OF f1 rx_first_seq [OF f2 rx_first_seq [OF f3 rx_first_seq [OF f4 rx_first_seq_Nil]]]],
      of 1, folded g1_def]
  have f5: "rx_first (plus_of not_semicolon) g1 = Some m5"
    unfolding m5_def by (rule rx_first_rep [OF _ _ _ a4']) (use assms(3,5) in \<open>auto simp: not_semicolon_def Suc_le_eq\<close>)
  note fg2 = rx_first_grp [OF f5, of 2, folded g2_def]
  have f6: "rx_first (lit '';'') g2 = Some m6" unfolding m6_def by (rule rx_first_lit [OF a5])
  note fg3 = rx_first_grp [OF f6, of 3, folded g3_def]
  have "rx_first (rx_prog (key_value_rx key)) m = Some g3"
    unfolding key_value_rx_def regexp.select_convs
    by (rule rx_first_seq [OF fg1 rx_first_seq [OF fg2 rx_first_seq [OF fg3 rx_first_seq_Nil]]])
  moreover have "consumed m m4 = setting k b1 b2"
    by (rule consumed_advance) (simp add: m4_def m3_def m2_def m1_def setting_def)
  moreover have "consumed g1 m5 = v" "consumed g2 m6 = '';''"
    by (rule consumed_advance, simp add: m5_def m6_def)+
  moreover have "length (behind g3) = length (behind m) + length (setting k b1 b2 @ v @ '';'')"
    by (simp add: g3_def m6_def g2_def m5_def g1_def m4_def m3_def m2_def m1_def setting_def)
  moreover have "groups g3 = [(3, consumed g2 m6), (2, consumed g1 m5), (1, consumed m m4)]"
    using assms(7) by (simp add: g3_def m6_def g2_def m5_def g1_def m4_def m3_def m2_def m1_def)
  ultimately show ?thesis by simp
qed

lemma key_value_pattern: "get_replacement_pattern (key_value_rx key) MASK_TEXT = ''$1***HIDDEN***$3''"
proof -
  have "replacement_from 1 [[], ''mask'', []] MASK_TEXT = ''$1***HIDDEN***$3''" by code_simp
  then show ?thesis unfolding get_replacement_pattern_def key_value_rx_def regexp.select_convs list.sel .
qed

lemma expand_mask: "expand names gs ''$1***HIDDEN***$3'' = group_text gs 1 @ MASK_TEXT @ group_text gs 3"
proof -
  have w: "\<not> word_char (CHR ''*'')" "word_char (CHR ''1'')" "word_char (CHR ''3'')" by (simp_all add: word_char_def)
  have d: "group_number ''1'' = Some 1" "group_number ''3'' = Some 3" by code_simp+
  show ?thesis by (simp add: extract_name_def w d Let_def MASK_TEXT_def)
qed

lemma key_value_no_match:
  assumes "key \<noteq> []" and "ahead m = [] \<or> lower_char (hd (ahead m)) \<noteq> lower_char (hd key)"
  shows "rxm (rx_prog (key_value_rx key)) m = []"
  by (simp add: key_value_rx_def rxm_ci_other [OF assms])

lemma key_value_search:
  assumes "key \<noteq> []" and "to_lower k = to_lower key" and "\<forall>c\<in>set (b1 @ b2). c = CHR '' ''"
    and "v \<noteq> []" "hd v \<noteq> CHR '' ''" "CHR '';'' \<notin> set v"
    and "\<forall>c\<in>set pre. lower_char c \<noteq> lower_char (hd key)"
    and "line = pre @ setting k b1 b2 @ v @ '';'' @ rest"
  shows "rx_search (rx_prog (key_value_rx key)) line 0 =
     Some (length pre, length (pre @ setting k b1 b2 @ v @ '';''), [(3, '';''), (2, v), (1, setting k b1 b2)])"
proof -
  have at: "ahead (start_at line (length pre)) = setting k b1 b2 @ v @ '';'' @ rest"
    "groups (start_at line (length pre)) = []" by (simp_all add: assms(8))
  obtain m' where m': "rx_first (rx_prog (key_value_rx key)) (start_at line (length pre)) = Some m'"
    "length (behind m') = length (behind (start_at line (length pre))) + length (setting k b1 b2 @ v @ '';'')"
    "groups m' = [(3, '';''), (2, v), (1, setting k b1 b2)]"
    using key_value_first [OF assms(2-6) at] by blast
  have "rxm (rx_prog (key_value_rx key)) (start_at line p) = []" if "p < length pre" for p
  proof (rule key_value_no_match [OF assms(1)])
    have "drop p line = pre ! p # drop (Suc p) line"
      using that by (simp add: assms(8) Cons_nth_drop_Suc)
    then show "ahead (start_at line p) = [] \<or> lower_char (hd (ahead (start_at line p))) \<noteq> lower_char (hd key)"
      using that assms(7) by simp
  qed
  then have "\<forall>p<length pre. rxm (rx_prog (key_value_rx key)) (start_at line p) = []" by blast
  from search_from_first [OF this m'(1)] m'(2,3) show ?thesis by (simp add: assms(8))
qed

lemma key_value_replaced:
  assumes "rx_search (rx_prog re) line 0 = Some (length pre, length (pre @ u), gs)" and "u \<noteq> []"
    and "line = pre @ u @ rest"
  shows "has_prefix (pre @ expand (subexp_names re) gs template) (replace_all_rx re line template)"
  using assms(1,2)
  by (simp add: replace_all_rx_def replace_loop.simps [of _ _ _ 0 0] has_prefix_iff assms(3))

lemma scan_lit_matches: "to_lower line = a @ w @ b \<Longrightarrow> scan_passes (Some (scan_of (lit w))) line"
  by (auto simp: scan_passes_def scan_of_def plain_rx_def re_match_def rx_matches_iff rxm_lit
      intro!: exI [of _ "length a"])

lemma connection_key_redactor:
  assumes "key \<in> set connection_keys"
  shows "\<exists>name. (key_value_rx key, lit (to_lower key), name) \<in> set single_lines"
proof -
  have l: "to_lower ''Data Source'' = ''data source''" "to_lower ''location'' = ''location''"
    "to_lower ''User ID'' = ''user id''" "to_lower ''password'' = ''password''" "to_lower ''Server'' = ''server''"
    "to_lower ''Database'' = ''database''" "to_lower ''Uid'' = ''uid''" "to_lower ''Pwd'' = ''pwd''"
    by code_simp+
  have member: "\<exists>name. (key_value_rx key, lit (to_lower key), name) \<in> set single_lines"
    if "(key_value_rx key, lit low, name) \<in> set single_lines" and "to_lower key = low" for key low name
    using that by blast
  from assms have "key = ''Data Source'' \<or> key = ''location'' \<or> key = ''User ID'' \<or> key = ''password'' \<or>
      key = ''Server'' \<or> key = ''Database'' \<or> key = ''Uid'' \<or> key = ''Pwd''"
    by (simp add: connection_keys_def)
  then show ?thesis
  proof (elim disjE)
    assume key: "key = ''Data Source''"
    show ?thesis unfolding key
      by (rule member [OF _ l(1)], unfold single_lines_def list.set, (rule insertI1 | rule insertI2)+)
  next
    assume key: "key = ''location''"
    show ?thesis unfolding key
      by (rule member [OF _ l(2)], unfold single_lines_def list.set, (rule insertI1 | rule insertI2)+)
  next
    assume key: "key = ''User ID''"
    show ?thesis unfolding key
      by (rule member [OF _ l(3)], unfold single_lines_def list.set, (rule insertI1 | rule insertI2)+)
  next
    assume key: "key = ''password''"
    show ?thesis unfolding key
      by (rule member [OF _ l(4)], unfold single_lines_def list.set, (rule insertI1 | rule insertI2)+)
  next
    assume key: "key = ''Server''"
    show ?thesis unfolding key
      by (rule member [OF _ l(5)], unfold single_lines_def list.set, (rule insertI1 | rule insertI2)+)
  next
    assume key: "key = ''Database''"
    show ?thesis unfolding key
      by (rule member [OF _ l(6)], unfold single_lines_def list.set, (rule insertI1 | rule insertI2)+)
  next
    assume key: "key = ''Uid''"
    show ?thesis unfolding key
      by (rule member [OF _ l(7)], unfold single_lines_def list.set, (rule insertI1 | rule insertI2)+)
  next
    assume key: "key = ''Pwd''"
    show ?thesis unfolding key
      by (rule member [OF _ l(8)], unfold single_lines_def list.set, (rule insertI1 | rule insertI2)+)
  qed
qed

section \<open>Properties\<close>

text \<open>
  C1. The built-in redactors hide connection string settings: for each of the eight keys there is a built-in
  redactor that, on every line with the key in any case, blanks around the equals sign, a value without a
  semicolon and the closing semicolon, writes the line up to the key and the key unchanged and then the mask
  in place of the value. The text before the key is any text without the first letter of the key.
\<close>

theorem connection_settings_hidden:
  assumes "key \<in> set connection_keys" and "\<not> tokenization w" and "to_lower k = to_lower key"
    and "\<forall>c\<in>set (b1 @ b2). c = CHR '' ''" and "v \<noteq> []" and "hd v \<noteq> CHR '' ''" and "CHR '';'' \<notin> set v"
    and "\<forall>c\<in>set pre. lower_char c \<noteq> lower_char (hd key)"
  shows "\<exists>r out. RSingle r \<in> set (get_redactors path) \<and> is_default (lr_info r) \<and>
    single_line_clean hmac now r (pre @ setting k b1 b2 @ v @ '';'' @ rest) w = Ok (out, w) \<and>
    has_prefix (pre @ setting k b1 b2 @ MASK_TEXT @ '';'') out"
proof -
  let ?line = "pre @ setting k b1 b2 @ v @ '';'' @ rest"
  obtain name where name: "(key_value_rx key, lit (to_lower key), name) \<in> set single_lines"
    using connection_key_redactor [OF assms(1)] by blast
  define r where "r = \<lparr>lr_scan = Some (scan_of (lit (to_lower key))), lr_re = key_value_rx key, lr_mask = MASK_TEXT,
    lr_info = \<lparr>file_path = path, redact_name = name, is_default = True\<rparr>\<rparr>"
  have r: "RSingle r \<in> set (get_redactors path)" using name by (force simp: get_redactors_def r_def)
  have ne: "key \<noteq> []" using assms(1) by (auto simp: connection_keys_def)
  have search: "rx_search (rx_prog (key_value_rx key)) ?line 0 =
     Some (length pre, length (pre @ setting k b1 b2 @ v @ '';''), [(3, '';''), (2, v), (1, setting k b1 b2)])"
    by (rule key_value_search [OF ne assms(3-8) refl])
  have "?line = pre @ (setting k b1 b2 @ v @ '';'') @ rest" by simp
  from key_value_replaced [OF search _ this, of "''$1***HIDDEN***$3''"]
  have prefix: "has_prefix (pre @ setting k b1 b2 @ MASK_TEXT @ '';'')
      (replace_all_rx (key_value_rx key) ?line ''$1***HIDDEN***$3'')"
    unfolding expand_mask group_text_def by (simp add: setting_def)
  have "to_lower ?line = to_lower pre @ to_lower key @ to_lower (b1 @ ''='' @ b2 @ v @ '';'' @ rest)"
    using assms(3) by (simp add: to_lower_def setting_def)
  then have "scan_passes (lr_scan r) ?line" unfolding r_def by (simp add: scan_lit_matches)
  moreover have "re_match (lr_re r) ?line" using search by (simp add: r_def re_match_def rx_matches_def)
  ultimately have "single_line_clean hmac now r ?line w = Ok (replace_all_rx (key_value_rx key) ?line ''$1***HIDDEN***$3'', w)"
    using assms(2) by (simp add: single_line_masking masked_def) (simp add: r_def key_value_pattern)
  with r prefix show ?thesis by (intro exI conjI) (simp_all add: r_def)
qed

theorem connection_settings_hidden_witness:
  "\<exists>r out. RSingle r \<in> set (get_redactors ''f'') \<and>
    single_line_clean (\<lambda>_ _. []) 0 r ''Server=x;PWD = s3cret;'' \<lparr>tokens = new_tokenizer False ''s'' [] 0, redactions = []\<rparr> =
      Ok (out, \<lparr>tokens = new_tokenizer False ''s'' [] 0, redactions = []\<rparr>) \<and>
    has_prefix ''Server=x;PWD = ***HIDDEN***;'' out"
proof -
  let ?w = "\<lparr>tokens = new_tokenizer False ''s'' [] 0, redactions = []\<rparr>"
  have "\<exists>r out. RSingle r \<in> set (get_redactors ''f'') \<and> is_default (lr_info r) \<and>
    single_line_clean (\<lambda>_ _. []) 0 r (''Server=x;'' @ setting ''PWD'' '' '' '' '' @ ''s3cret'' @ '';'' @ []) ?w = Ok (out, ?w) \<and>
    has_prefix (''Server=x;'' @ setting ''PWD'' '' '' '' '' @ MASK_TEXT @ '';'') out"
  proof (rule connection_settings_hidden [of "''Pwd''"])
    show "to_lower ''PWD'' = to_lower ''Pwd''" by code_simp
    show "\<forall>c\<in>set ''Server=x;''. lower_char c \<noteq> lower_char (hd ''Pwd'')" by code_simp
  qed (simp_all add: connection_keys_def tokenization_def new_tokenizer_def)
  then show ?thesis by (auto simp: setting_def MASK_TEXT_def)
qed

text \<open>
  The cache of compiled expressions is transparent: whatever valid entries it holds, redaction gives the
  same output, the same error and the same log as with an empty cache.
\<close>

theorem regex_cache_transparent:
  assumes "cache_ok L c"
  shows "redact L path rds c input w = redact L path rds [] input w"
proof -
  from build_additional_cache [OF assms, of path rds] show ?thesis
    by (cases "build_additional_redactors L path rds c"; cases "build_additional_redactors L path rds []")
      (auto simp: redact_def)
qed

theorem regex_cache_transparent_witness:
  "\<exists>L. redact L ''f'' [Some \<lparr>rd_name = ''n'', rd_file = [], rd_files = [], rd_values = [],
         rd_regex = [\<lparr>rs_selector = [], rs_redactor = ''a''\<rparr>], rd_yaml_path = []\<rparr>]
       [(''a'', plain_rx (lit ''a''))] \<lparr>stream_data = ''x'', stream_err = None\<rparr>
       \<lparr>tokens = new_tokenizer False ''s'' [] 0, redactions = []\<rparr> =
     redact L ''f'' [Some \<lparr>rd_name = ''n'', rd_file = [], rd_files = [], rd_values = [],
         rd_regex = [\<lparr>rs_selector = [], rs_redactor = ''a''\<rparr>], rd_yaml_path = []\<rparr>]
       [] \<lparr>stream_data = ''x'', stream_err = None\<rparr> \<lparr>tokens = new_tokenizer False ''s'' [] 0, redactions = []\<rparr>"
proof
  let ?L = "\<lparr>l_hmac = (\<lambda>_ _. []), l_now = 0, l_unmarshal = (\<lambda>_. Fail (LibErr [])), l_marshal = (\<lambda>_. Fail (LibErr [])),
     l_fmatch = (\<lambda>_ _. Ok False), l_compile = (\<lambda>p. Ok (plain_rx (lit p))), l_glob = (\<lambda>_. Ok (\<lambda>_. True))\<rparr>"
  show "redact ?L ''f'' [Some \<lparr>rd_name = ''n'', rd_file = [], rd_files = [], rd_values = [],
         rd_regex = [\<lparr>rs_selector = [], rs_redactor = ''a''\<rparr>], rd_yaml_path = []\<rparr>]
       [(''a'', plain_rx (lit ''a''))] \<lparr>stream_data = ''x'', stream_err = None\<rparr>
       \<lparr>tokens = new_tokenizer False ''s'' [] 0, redactions = []\<rparr> =
     redact ?L ''f'' [Some \<lparr>rd_name = ''n'', rd_file = [], rd_files = [], rd_values = [],
         rd_regex = [\<lparr>rs_selector = [], rs_redactor = ''a''\<rparr>], rd_yaml_path = []\<rparr>]
       [] \<lparr>stream_data = ''x'', stream_err = None\<rparr> \<lparr>tokens = new_tokenizer False ''s'' [] 0, redactions = []\<rparr>"
    by (rule regex_cache_transparent) (simp add: cache_ok_def)
qed

end
