(* ===== verification/Redaction_Ledger.thy ===== *)
theory Redaction_Ledger
  imports Redaction
begin

text \<open>
  The list of redactions under concurrency (\<^verbatim>\<open>addRedaction\<close>, \<^verbatim>\<open>GetRedactionList\<close>, \<^verbatim>\<open>ResetRedactionList\<close> in
  \<^verbatim>\<open>pkg/redact/redact.go\<close>): every redaction is added by a goroutine of its own, counted by a wait group; the
  list is read when no goroutine is pending; a reset replaces the list and the cache without waiting.
\<close>

record ledger =
  recorded :: redaction_list
  in_flight :: "redaction list"
  compiled :: regex_cache

datatype ledger_event = Add redaction | Commit redaction | Reset

inductive ledger_step :: "ledger \<Rightarrow> ledger_event \<Rightarrow> ledger \<Rightarrow> bool" where
  add: "ledger_step s (Add r) (s\<lparr>in_flight := r # in_flight s\<rparr>)"
| commit: "r \<in> set (in_flight s) \<Longrightarrow>
    ledger_step s (Commit r) (s\<lparr>recorded := index_redaction r (recorded s), in_flight := remove1 r (in_flight s)\<rparr>)"
| reset: "ledger_step s Reset (s\<lparr>recorded := empty_redaction_list, compiled := []\<rparr>)"

inductive ledger_run :: "ledger \<Rightarrow> ledger_event list \<Rightarrow> ledger \<Rightarrow> bool" where
  ledger_stop: "ledger_run s [] s"
| ledger_more: "ledger_step s e s1 \<Longrightarrow> ledger_run s1 es s2 \<Longrightarrow> ledger_run s (e # es) s2"

inductive_simps ledger_step_simps [simp]:
  "ledger_step s (Add r) s'" "ledger_step s (Commit r) s'" "ledger_step s Reset s'"

inductive_simps ledger_run_simps [simp]: "ledger_run s [] s'" "ledger_run s (e # es) s'"

text \<open>\<^verbatim>\<open>GetRedactionList\<close> blocks while a goroutine is pending.\<close>

definition get_redaction_list :: "ledger \<Rightarrow> redaction_list option" where
  "get_redaction_list s = (if in_flight s = [] then Some (recorded s) else None)"

fun added :: "ledger_event list \<Rightarrow> redaction list" where
  "added [] = []"
| "added (Add r # es) = r # added es"
| "added (_ # es) = added es"

text \<open>What the two indexes hold, as multisets of redactions per name and per file.\<close>

definition holds :: "redaction_list \<Rightarrow> redaction multiset \<Rightarrow> bool" where
  "holds rl R \<longleftrightarrow>
     (\<forall>n. mset (lookup_list (by_redactor rl) n) = filter_mset (\<lambda>r. redactor_name r = n) R) \<and>
     (\<forall>f. mset (lookup_list (by_file rl) f) = filter_mset (\<lambda>r. redacted_file r = f) R)"

lemma holds_empty: "holds empty_redaction_list {#}"
  by (simp add: holds_def empty_redaction_list_def lookup_list_def)

lemma holds_index: "holds rl R \<Longrightarrow> holds (index_redaction r rl) (add_mset r R)"
  by (auto simp: holds_def index_redaction_def lookup_update)

text \<open>Without a reset, what is recorded and what is in flight together are all the redactions added.\<close>

lemma ledger_conserves:
  assumes "ledger_run s es s'" and "Reset \<notin> set es" and "holds (recorded s) R"
  shows "\<exists>R'. holds (recorded s') R' \<and> R' + mset (in_flight s') = R + mset (in_flight s) + mset (added es)"
  using assms
proof (induction arbitrary: R rule: ledger_run.induct)
  case (ledger_more s e s1 es s2)
  show ?case
  proof (cases e)
    case (Add r)
    with ledger_more.hyps(1) ledger_more.IH [of R] ledger_more.prems show ?thesis by (auto simp: ac_simps)
  next
    case (Commit r)
    with ledger_more.hyps(1) have r: "r \<in># mset (in_flight s)" "in_flight s1 = remove1 r (in_flight s)"
      "recorded s1 = index_redaction r (recorded s)" by auto
    obtain R' where R': "holds (recorded s2) R'"
      "R' + mset (in_flight s2) = add_mset r R + mset (in_flight s1) + mset (added es)"
      using ledger_more.IH [of "add_mset r R"] ledger_more.prems r(3) holds_index by auto
    have "add_mset r (mset (in_flight s1)) = mset (in_flight s)" using r by simp
    then have "add_mset r R + mset (in_flight s1) = R + mset (in_flight s)" by (metis union_mset_add_mset_left union_mset_add_mset_right)
    with R' Commit show ?thesis by (intro exI [of _ R']) simp
  qed (use ledger_more.prems in simp)
qed auto

section \<open>Properties\<close>

text \<open>
  The list of redactions is complete whatever the order of the goroutines: when the wait is over after any
  interleaving without a reset, each name and each file has exactly the redactions that were added under it.
\<close>

theorem redaction_list_complete:
  assumes "ledger_run \<lparr>recorded = empty_redaction_list, in_flight = [], compiled = c\<rparr> es s" and "Reset \<notin> set es"
    and "get_redaction_list s = Some rl"
  shows "mset (lookup_list (by_redactor rl) n) = filter_mset (\<lambda>r. redactor_name r = n) (mset (added es)) \<and>
    mset (lookup_list (by_file rl) f) = filter_mset (\<lambda>r. redacted_file r = f) (mset (added es))"
proof -
  have "holds (recorded \<lparr>recorded = empty_redaction_list, in_flight = [], compiled = c\<rparr>) {#}" by (simp add: holds_empty)
  from ledger_conserves [OF assms(1,2) this] assms(3) show ?thesis
    by (auto simp: get_redaction_list_def holds_def split: if_splits)
qed

theorem redaction_list_complete_witness:
  "\<exists>a b (rl :: redaction_list). a \<noteq> b \<and> mset (lookup_list (by_file rl) ''f'') = {#a, b#}"
proof -
  let ?a = "\<lparr>redactor_name = ''x'', characters_removed = 1, redacted_line = 3, redacted_file = ''f'', is_default_redactor = True\<rparr>"
  let ?b = "\<lparr>redactor_name = ''y'', characters_removed = 2, redacted_line = 7, redacted_file = ''f'', is_default_redactor = True\<rparr>"
  have "ledger_run \<lparr>recorded = empty_redaction_list, in_flight = [], compiled = []\<rparr> [Add ?a, Add ?b, Commit ?a, Commit ?b]
    \<lparr>recorded = index_redaction ?b (index_redaction ?a empty_redaction_list), in_flight = [], compiled = []\<rparr>" by simp
  from redaction_list_complete [OF this, where n = "''x''" and f = "''f''"]
  have "mset (lookup_list (by_file (index_redaction ?b (index_redaction ?a empty_redaction_list))) ''f'') = {#?a, ?b#}"
    by (simp add: get_redaction_list_def)
  then have "\<exists>rl :: redaction_list. ?a \<noteq> ?b \<and> mset (lookup_list (by_file rl) ''f'') = {#?a, ?b#}" by - (rule exI, rule conjI, simp, assumption)
  then show ?thesis by - (rule exI [where x = ?a], rule exI [where x = ?b], assumption)
qed

text \<open>
  A reset does not separate two runs: a redaction that is in flight when the list is reset is recorded in
  the new list, under its name and its file.
\<close>

theorem reset_keeps_pending:
  assumes "r \<in> set (in_flight s)"
  shows "\<exists>s'. ledger_run s [Reset, Commit r] s' \<and>
    lookup_list (by_redactor (recorded s')) (redactor_name r) = [r] \<and>
    lookup_list (by_file (recorded s')) (redacted_file r) = [r]"
  using assms
  by (auto simp: index_redaction_def empty_redaction_list_def lookup_update) (simp_all add: lookup_list_def)

theorem reset_keeps_pending_witness:
  "\<exists>r s'. ledger_run \<lparr>recorded = empty_redaction_list, in_flight = [r], compiled = []\<rparr> [Reset, Commit r] s' \<and>
    lookup_list (by_file (recorded s')) ''old'' = [r]"
proof -
  let ?r = "\<lparr>redactor_name = ''x'', characters_removed = 1, redacted_line = 3, redacted_file = ''old'', is_default_redactor = True\<rparr>"
  have "?r \<in> set (in_flight \<lparr>recorded = empty_redaction_list, in_flight = [?r], compiled = []\<rparr>)" by simp
  from reset_keeps_pending [OF this] show ?thesis by (metis redaction.select_convs(4))
qed

end
