(* ===== verification/Cron.thy ===== *)
theory Cron
  imports Prelude
begin

text \<open>
  Cron schedules (\<^verbatim>\<open>pkg/schedule/job.go\<close>, \<^verbatim>\<open>pkg/schedule/daemon.go\<close>): the validation of a schedule when
  a job is created, the test of a schedule against the clock, and the cooldown after a run. A \<open>wall_time\<close>
  is what the code reads off a \<^verbatim>\<open>time.Time\<close>: the instant in nanoseconds and the calendar fields.
\<close>

record wall_time =
  instant :: int
  wt_minute :: int
  wt_hour :: int
  wt_day :: int
  wt_month :: int
  wt_weekday :: int

text \<open>\<open>last_run\<close> is \<open>None\<close> for the zero time.\<close>

record job =
  job_id :: string
  job_name :: string
  schedule :: string
  namespace :: string
  auto_discover :: bool
  upload :: string
  job_enabled :: bool
  run_count :: int
  last_run :: "int option"
  created :: int

section \<open>Fields\<close>

definition matches_cron_field :: "string \<Rightarrow> int \<Rightarrow> bool" where
  "matches_cron_field field v =
     (if field = ''*'' then True
      else if has_prefix ''*/'' field
      then (case atoi (trim_prefix ''*/'' field) of
              Ok n \<Rightarrow> n > 0 \<and> v mod n = 0
            | _ \<Rightarrow> False)
      else list_ex (\<lambda>w. case atoi (trim_space w) of Ok n \<Rightarrow> v = n | _ \<Rightarrow> False) (split_on (CHR '','') field))"

fun validate_values :: "int \<Rightarrow> int \<Rightarrow> string \<Rightarrow> string list \<Rightarrow> unit res" where
  "validate_values lo hi name [] = Ok ()"
| "validate_values lo hi name (w # ws) =
     (case atoi (trim_space w) of
        Ok n \<Rightarrow>
          if n < lo \<or> n > hi
          then Fail (Err (name @ '' value '' @ show_int n @ '' out of range ['' @ show_int lo @ ''-'' @ show_int hi @ '']''))
          else validate_values lo hi name ws
      | _ \<Rightarrow> Fail (Err (''invalid '' @ name @ '' value: '' @ trim_space w)))"

definition validate_cron_field :: "string \<Rightarrow> int \<Rightarrow> int \<Rightarrow> string \<Rightarrow> unit res" where
  "validate_cron_field field lo hi name =
     (if field = ''*'' then Ok ()
      else if has_prefix ''*/'' field
      then (case atoi (trim_prefix ''*/'' field) of
              Ok n \<Rightarrow> if n \<le> 0
                      then Fail (Err (''invalid '' @ name @ '' interval: '' @ trim_prefix ''*/'' field)) else Ok ()
            | _ \<Rightarrow> Fail (Err (''invalid '' @ name @ '' interval: '' @ trim_prefix ''*/'' field)))
      else validate_values lo hi name (split_on (CHR '','') field))"

definition cron_ranges :: "(int \<times> int \<times> string) list" where
  "cron_ranges =
     [(0, 59, ''minute''), (0, 23, ''hour''), (1, 31, ''day-of-month''), (1, 12, ''month''), (0, 6, ''day-of-week'')]"

fun validate_fields :: "string list \<Rightarrow> (int \<times> int \<times> string) list \<Rightarrow> unit res" where
  "validate_fields (f # fs) ((lo, hi, name) # rs) =
     bind_res (validate_cron_field f lo hi name) (\<lambda>_. validate_fields fs rs)"
| "validate_fields _ _ = Ok ()"

definition validate_cron_schedule :: "string \<Rightarrow> unit res" where
  "validate_cron_schedule s =
     (let parts = split_fields s in
      if length parts \<noteq> 5
      then Fail (Err (''expected 5 fields (minute hour day-of-month month day-of-week), got '' @
                      show_nat (length parts)))
      else validate_fields parts cron_ranges)"

section \<open>The test of the daemon\<close>

definition cooldown :: int where "cooldown = 90 * 1000000000"

definition should_job_run :: "job \<Rightarrow> wall_time \<Rightarrow> bool" where
  "should_job_run j now =
     (if (case last_run j of None \<Rightarrow> False | Some t \<Rightarrow> instant now - t < cooldown) then False
      else case split_fields (schedule j) of
             [mi, ho, dm, mo, dw] \<Rightarrow>
               matches_cron_field mi (wt_minute now) \<and> matches_cron_field ho (wt_hour now) \<and>
               matches_cron_field dm (wt_day now) \<and> matches_cron_field mo (wt_month now) \<and>
               matches_cron_field dw (wt_weekday now)
           | _ \<Rightarrow> False)"

section \<open>What a field denotes\<close>

text \<open>The abstract field: every value, every multiple of an interval, or one of a list of values.\<close>

datatype cron_term = Every | EveryNth int | OneOf "int list"

fun cron_holds :: "cron_term \<Rightarrow> int \<Rightarrow> bool" where
  "cron_holds Every v = True"
| "cron_holds (EveryNth n) v = (v mod n = 0)"
| "cron_holds (OneOf ns) v = (v \<in> set ns)"

fun term_in_range :: "int \<Rightarrow> int \<Rightarrow> cron_term \<Rightarrow> bool" where
  "term_in_range lo hi Every = True"
| "term_in_range lo hi (EveryNth n) = (n > 0)"
| "term_in_range lo hi (OneOf ns) = (ns \<noteq> [] \<and> (\<forall>n\<in>set ns. lo \<le> n \<and> n \<le> hi))"

fun render_cron :: "cron_term \<Rightarrow> string" where
  "render_cron Every = ''*''"
| "render_cron (EveryNth n) = ''*/'' @ show_int n"
| "render_cron (OneOf ns) = join_with '','' (map show_int ns)"

fun term_int64 :: "cron_term \<Rightarrow> bool" where
  "term_int64 Every = True"
| "term_int64 (EveryNth n) = in_int64 n"
| "term_int64 (OneOf ns) = (\<forall>n\<in>set ns. in_int64 n)"

definition value_of :: "string \<Rightarrow> int" where
  "value_of w = (case atoi (trim_space w) of Ok n \<Rightarrow> n | _ \<Rightarrow> 0)"

lemma validate_values_iff:
  "validate_values lo hi name ws = Ok () \<longleftrightarrow>
   (\<forall>w\<in>set ws. atoi (trim_space w) = Ok (value_of w) \<and> lo \<le> value_of w \<and> value_of w \<le> hi)"
  by (induction ws) (auto simp: value_of_def split: res.splits)

lemma list_ex_values:
  assumes "\<forall>w\<in>set ws. atoi (trim_space w) = Ok (value_of w)"
  shows "list_ex (\<lambda>w. case atoi (trim_space w) of Ok n \<Rightarrow> v = n | _ \<Rightarrow> False) ws \<longleftrightarrow> v \<in> value_of ` set ws"
  using assms by (induction ws) auto

lemma show_int_chars: "c \<in> set (show_int n) \<Longrightarrow> is_digit c \<or> c = CHR ''-''"
  by (auto simp: show_int_def dest: show_nat_digits split: if_splits)

lemma show_int_comma: "CHR '','' \<notin> set (show_int n)"
  using show_int_chars [of "CHR '',''" n] by (auto simp: is_digit_def)

lemma rendered_list_first:
  assumes "ns \<noteq> []"
  shows "\<exists>c t. join_with '','' (map show_int ns) = c # t \<and> c \<noteq> CHR ''*''"
proof -
  obtain n ns' where ns: "ns = n # ns'" using assms by (cases ns) auto
  obtain c t where ct: "show_int n = c # t" by (cases "show_int n") auto
  then have "c \<noteq> CHR ''*''" using show_int_chars [of c n] by (auto simp: is_digit_def)
  with ct show ?thesis by (cases ns') (auto simp: ns)
qed

lemma value_of_show: "in_int64 n \<Longrightarrow> value_of (show_int n) = n"
  by (simp add: value_of_def trim_show_int go_simps)

lemma split_values: "ns \<noteq> [] \<Longrightarrow> split_on (CHR '','') (join_with '','' (map show_int ns)) = map show_int ns"
  by (rule split_join) (auto simp: show_int_comma)

text \<open>A rendered term reads as itself.\<close>

lemma rendered_list:
  assumes "ns \<noteq> []" and "\<forall>n\<in>set ns. in_int64 n"
  shows "matches_cron_field (join_with '','' (map show_int ns)) v \<longleftrightarrow> v \<in> set ns"
    and "validate_cron_field (join_with '','' (map show_int ns)) lo hi name = Ok () \<longleftrightarrow> (\<forall>n\<in>set ns. lo \<le> n \<and> n \<le> hi)"
proof -
  let ?f = "join_with '','' (map show_int ns)"
  obtain c s where cs: "?f = c # s" "c \<noteq> CHR ''*''" using rendered_list_first [OF assms(1)] by blast
  then have ns: "?f \<noteq> ''*''" "\<not> has_prefix ''*/'' ?f" by auto
  have at: "\<forall>w\<in>set (map show_int ns). atoi (trim_space w) = Ok (value_of w)"
    using assms(2) by (auto simp: trim_show_int go_simps value_of_show)
  have img: "value_of ` set (map show_int ns) = set ns" using assms(2) by (force simp: value_of_show)
  show "matches_cron_field ?f v \<longleftrightarrow> v \<in> set ns"
    unfolding matches_cron_field_def using ns list_ex_values [OF at, of v] img split_values [OF assms(1)] by simp
  show "validate_cron_field ?f lo hi name = Ok () \<longleftrightarrow> (\<forall>n\<in>set ns. lo \<le> n \<and> n \<le> hi)"
    unfolding validate_cron_field_def using ns at assms(2) validate_values_iff [of lo hi name "map show_int ns"]
    by (simp add: split_values [OF assms(1)] value_of_show)
qed

lemma rendered_matches:
  assumes "term_int64 t" and "term_in_range lo hi t"
  shows "matches_cron_field (render_cron t) v \<longleftrightarrow> cron_holds t v"
    and "validate_cron_field (render_cron t) lo hi name = Ok ()"
proof (atomize (full), cases t)
  case Every
  then show "(matches_cron_field (render_cron t) v \<longleftrightarrow> cron_holds t v) \<and> validate_cron_field (render_cron t) lo hi name = Ok ()"
    by (simp add: matches_cron_field_def validate_cron_field_def)
next
  case (EveryNth n)
  then show "(matches_cron_field (render_cron t) v \<longleftrightarrow> cron_holds t v) \<and> validate_cron_field (render_cron t) lo hi name = Ok ()"
    using assms by (simp add: matches_cron_field_def validate_cron_field_def trim_prefix_def go_simps)
next
  case (OneOf ns)
  then show "(matches_cron_field (render_cron t) v \<longleftrightarrow> cron_holds t v) \<and> validate_cron_field (render_cron t) lo hi name = Ok ()"
    using assms by (simp add: rendered_list)
qed

text \<open>Every accepted field denotes a term in range.\<close>

definition interval_of :: "string \<Rightarrow> int option" where
  "interval_of f =
     (if has_prefix ''*/'' f then (case atoi (trim_prefix ''*/'' f) of Ok n \<Rightarrow> Some n | _ \<Rightarrow> None) else None)"

lemma accepted_term:
  assumes "validate_cron_field f lo hi name = Ok ()"
  shows "\<exists>t. term_in_range lo hi t \<and> (\<forall>v. matches_cron_field f v \<longleftrightarrow> cron_holds t v) \<and>
    (\<forall>n. t = EveryNth n \<longrightarrow> interval_of f = Some n)"
proof (cases "f = ''*''")
  case True
  then show ?thesis by (intro exI [of _ Every]) (simp add: matches_cron_field_def)
next
  case no_star: False
  show ?thesis
  proof (cases "has_prefix ''*/'' f")
    case True
    with assms no_star obtain n where "atoi (trim_prefix ''*/'' f) = Ok n" "n > 0"
      by (auto simp: validate_cron_field_def split: res.splits if_splits)
    with True no_star show ?thesis
      by (intro exI [of _ "EveryNth n"]) (simp add: matches_cron_field_def interval_of_def)
  next
    case False
    let ?ws = "split_on (CHR '','') f"
    have ok: "\<forall>w\<in>set ?ws. atoi (trim_space w) = Ok (value_of w) \<and> lo \<le> value_of w \<and> value_of w \<le> hi"
      using assms no_star False by (simp add: validate_cron_field_def validate_values_iff)
    then have at: "\<forall>w\<in>set ?ws. atoi (trim_space w) = Ok (value_of w)" by blast
    with ok False no_star list_ex_values [OF at] show ?thesis
      by (intro exI [of _ "OneOf (map value_of ?ws)"]) (simp add: matches_cron_field_def)
  qed
qed

lemma term_fires:
  assumes "term_in_range lo hi t" and "lo = 0 \<or> lo = 1" and "lo \<le> hi" and "\<And>n. t = EveryNth n \<Longrightarrow> lo = 0 \<or> n \<le> hi"
  shows "\<exists>v. lo \<le> v \<and> v \<le> hi \<and> cron_holds t v"
proof (cases t)
  case (EveryNth n)
  then show ?thesis
    using assms by (cases "lo = 0") (auto intro: exI [of _ 0] exI [of _ n])
next
  case (OneOf ns)
  with assms(1) show ?thesis by (cases ns) auto
qed (use assms(3) in auto)

lemma validate_five:
  assumes "validate_cron_schedule s = Ok ()"
  shows "\<exists>mi ho dm mo dw. split_fields s = [mi, ho, dm, mo, dw] \<and>
     validate_cron_field mi 0 59 ''minute'' = Ok () \<and> validate_cron_field ho 0 23 ''hour'' = Ok () \<and>
     validate_cron_field dm 1 31 ''day-of-month'' = Ok () \<and> validate_cron_field mo 1 12 ''month'' = Ok () \<and>
     validate_cron_field dw 0 6 ''day-of-week'' = Ok ()"
proof -
  from assms have "length (split_fields s) = 5" by (auto simp: validate_cron_schedule_def Let_def split: if_splits)
  then obtain mi ho dm mo dw where f: "split_fields s = [mi, ho, dm, mo, dw]"
    by (auto simp: length_Suc_conv numeral_eq_Suc)
  with assms show ?thesis
    by (auto simp: validate_cron_schedule_def cron_ranges_def res_simps)
qed

lemma accepted_fires:
  assumes "validate_cron_field f lo hi name = Ok ()" and "lo = 0 \<or> lo = 1" and "lo \<le> hi"
    and "\<And>n. interval_of f = Some n \<Longrightarrow> lo = 0 \<or> n \<le> hi"
  shows "\<exists>v. lo \<le> v \<and> v \<le> hi \<and> matches_cron_field f v"
proof -
  obtain t where t: "term_in_range lo hi t" "\<forall>v. matches_cron_field f v \<longleftrightarrow> cron_holds t v"
    "\<forall>n. t = EveryNth n \<longrightarrow> interval_of f = Some n"
    using accepted_term [OF assms(1)] by blast
  have "\<exists>v. lo \<le> v \<and> v \<le> hi \<and> cron_holds t v"
    by (rule term_fires [OF t(1) assms(2,3)]) (use t(3) assms(4) in blast)
  with t(2) show ?thesis by simp
qed

lemma interval_matches:
  assumes "interval_of f = Some n" and "matches_cron_field f v"
  shows "n > 0 \<and> v mod n = 0"
  using assms by (auto simp: interval_of_def matches_cron_field_def split: if_splits res.splits)

section \<open>Properties\<close>

text \<open>
  C22. The fields the validator accepts are exactly texts of abstract cron terms in range: an accepted field
  matches the values of a term whose values lie in the range, and every term in range, written as a field, is
  accepted and matches its values.
\<close>

theorem cron_fields_refine_terms:
  "(validate_cron_field f lo hi name = Ok () \<longrightarrow>
     (\<exists>t. term_in_range lo hi t \<and> (\<forall>v. matches_cron_field f v \<longleftrightarrow> cron_holds t v))) \<and>
   (term_in_range lo hi u \<and> term_int64 u \<longrightarrow>
     validate_cron_field (render_cron u) lo hi name = Ok () \<and>
     (\<forall>v. matches_cron_field (render_cron u) v \<longleftrightarrow> cron_holds u v))"
  using accepted_term [of f lo hi name] rendered_matches [of u lo hi] by blast

theorem cron_fields_refine_terms_witness:
  "(\<exists>t. term_in_range 0 59 t \<and> (\<forall>v. matches_cron_field ''0,30'' v \<longleftrightarrow> cron_holds t v)) \<and>
   validate_cron_field (render_cron (OneOf [0, 30])) 0 59 ''minute'' = Ok ()"
proof -
  have "validate_cron_field ''0,30'' 0 59 ''minute'' = Ok ()" by code_simp
  moreover have "term_in_range 0 59 (OneOf [0, 30])" "term_int64 (OneOf [0, 30])" by (simp_all add: in_int64_def)
  ultimately show ?thesis
    using cron_fields_refine_terms [of "''0,30''" 0 59 "''minute''" "OneOf [0, 30]"] by blast
qed



text \<open>
  Some accepted schedules never run: with an interval above 31 in the day field no day of any month
  matches.
\<close>

theorem large_day_interval_never_runs:
  assumes "validate_cron_schedule (schedule j) = Ok ()" and "interval_of (split_fields (schedule j) ! 2) = Some n"
    and "31 < n" and "1 \<le> wt_day now" and "wt_day now \<le> 31"
  shows "\<not> should_job_run j now"
proof
  assume "should_job_run j now"
  then obtain mi ho dm mo dw where f: "split_fields (schedule j) = [mi, ho, dm, mo, dw]" "matches_cron_field dm (wt_day now)"
    by (auto simp: should_job_run_def split: if_splits list.splits)
  with assms(2) have "wt_day now mod n = 0" using interval_matches by fastforce
  with assms(3-5) show False by simp
qed

theorem large_day_interval_never_runs_witness:
  "validate_cron_schedule ''0 0 */40 * *'' = Ok () \<and>
   (\<forall>k d i. \<not> (should_job_run \<lparr>job_id = ''a'', job_name = ''n'', schedule = ''0 0 */40 * *'', namespace = [],
      auto_discover = False, upload = [], job_enabled = True, run_count = 0, last_run = None, created = 0\<rparr>
      \<lparr>instant = i, wt_minute = 0, wt_hour = 0, wt_day = 1 + d mod 31, wt_month = 2, wt_weekday = k\<rparr>))"
proof (intro conjI allI)
  show ok: "validate_cron_schedule ''0 0 */40 * *'' = Ok ()" by code_simp
  fix k d i :: int
  have "interval_of (split_fields ''0 0 */40 * *'' ! 2) = Some 40" by code_simp
  moreover have "0 \<le> d mod 31" "d mod 31 < 31" by simp_all
  ultimately show "\<not> (should_job_run \<lparr>job_id = ''a'', job_name = ''n'', schedule = ''0 0 */40 * *'', namespace = [],
      auto_discover = False, upload = [], job_enabled = True, run_count = 0, last_run = None, created = 0\<rparr>
      \<lparr>instant = i, wt_minute = 0, wt_hour = 0, wt_day = 1 + d mod 31, wt_month = 2, wt_weekday = k\<rparr>)"
    by (intro large_day_interval_never_runs [where n = 40]) (use ok in \<open>simp_all del: split_fields.simps\<close>)
qed

end
