(* ===== verification/Scheduler.thy ===== *)
theory Scheduler
  imports Cron "HOL-Library.AList" "HOL-Library.Char_ord" "HOL-Library.List_Lexorder"
begin

text \<open>
  The scheduler (\<^verbatim>\<open>pkg/schedule\<close>): the manager that keeps one JSON file per job, and the daemon that looks at
  the jobs every minute and runs those that are due in goroutines. The files are an association list from file
  names to jobs, \<open>None\<close> for a file that does not read as a job; the process that is run, the clock and the
  outcome of writes are events. The daemon is a step relation over ticks, ends of executions and commands of the
  user that change the files.
\<close>

type_synonym job_files = "(string \<times> job option) list"

section \<open>The manager\<close>

definition job_file :: "job \<Rightarrow> string" where
  "job_file j = job_id j @ ''.json''"

text \<open>A write that fails leaves the file alone or truncated.\<close>

datatype write_outcome = Written | Untouched | Truncated

definition save_job :: "write_outcome \<Rightarrow> job \<Rightarrow> job_files \<Rightarrow> unit res \<times> job_files" where
  "save_job wo j fs =
     (case wo of
        Written \<Rightarrow> (Ok (), AList.update (job_file j) (Some j) fs)
      | Untouched \<Rightarrow> (Fail (LibErr ''write''), fs)
      | Truncated \<Rightarrow> (Fail (LibErr ''write''), AList.update (job_file j) None fs))"

text \<open>\<^verbatim>\<open>filepath.Glob\<close> lists the names in order; files that do not load are skipped.\<close>

definition list_jobs :: "job_files \<Rightarrow> job list" where
  "list_jobs fs = List.map_filter snd (sort_key fst (filter (\<lambda>(f, _). has_suffix ''.json'' f) fs))"

definition get_job :: "string \<Rightarrow> job_files \<Rightarrow> job res" where
  "get_job name_or_id fs =
     (case List.find (\<lambda>j. job_name j = name_or_id \<or> job_id j = name_or_id) (list_jobs fs) of
        Some j \<Rightarrow> Ok j
      | None \<Rightarrow> Fail (Err (''job not found: '' @ name_or_id)))"

definition delete_job :: "string \<Rightarrow> job_files \<Rightarrow> job_files res" where
  "delete_job name_or_id fs =
     bind_res (get_job name_or_id fs) (\<lambda>j.
       if map_of fs (job_file j) = None then Fail (LibErr ''remove'')
       else Ok (AList.delete (job_file j) fs))"

definition invalid_chars :: "string list" where
  "invalid_chars = [''/'', [CHR 0x5C], '':'', ''*'', ''?'', [CHR 0x22], ''<'', ''>'', ''|'', [CHR 0x00]]"

definition check_name :: "string \<Rightarrow> string res" where
  "check_name name =
     (let n = trim_space name in
      if n = [] then Fail (Err ''job name cannot be empty'')
      else if length n > 100 then Fail (Err ''job name too long, maximum 100 characters'')
      else case List.find (\<lambda>c. contains_sub c n) invalid_chars of
             Some c \<Rightarrow> Fail (Err (''job name contains invalid character: '' @ c))
           | None \<Rightarrow> Ok n)"

text \<open>The clock is read twice, for the identifier and for the time of creation.\<close>

definition create_job ::
  "string \<Rightarrow> string \<Rightarrow> string \<Rightarrow> bool \<Rightarrow> string \<Rightarrow> int \<Rightarrow> int \<Rightarrow> write_outcome \<Rightarrow> job_files \<Rightarrow> job res \<times> job_files" where
  "create_job name sched ns auto upl t1 t2 wo fs =
     (case bind_res (check_name name) (\<lambda>n.
             bind_res (wrap_res ''invalid cron schedule'' (validate_cron_schedule sched)) (\<lambda>_. Ok n)) of
        Ok n \<Rightarrow>
          (let j = \<lparr>job_id = ''job-'' @ show_int t1, job_name = n, schedule = sched, namespace = ns,
                    auto_discover = auto, upload = upl, job_enabled = True, run_count = 0,
                    last_run = None, created = t2\<rparr>
           in case save_job wo j fs of (r, fs') \<Rightarrow> (map_res (\<lambda>_. j) r, fs'))
      | Fail e \<Rightarrow> (Fail e, fs)
      | Panic m \<Rightarrow> (Panic m, fs))"

section \<open>The daemon\<close>

text \<open>The arguments of the process that an execution starts.\<close>

definition job_args :: "job \<Rightarrow> string list" where
  "job_args j =
     (if namespace j \<noteq> [] then [''--namespace'', namespace j] else []) @
     (if auto_discover j then [''--auto''] else []) @
     (if upload j \<noteq> [] then [''--auto-upload''] else []) @ [''--auto-update=false'']"

text \<open>
  \<open>running_jobs\<close> are the keys of the map of the daemon. An execution is a goroutine with its copy of the job;
  when its process has ended it still has to give its key back, which is what \<open>releasing\<close> holds.
\<close>

record daemon =
  job_store :: job_files
  running_jobs :: "string list"
  executing :: "job list"
  releasing :: "string list"
  active :: bool

fun launch_jobs :: "wall_time \<Rightarrow> job list \<Rightarrow> daemon \<Rightarrow> daemon" where
  "launch_jobs now [] d = d"
| "launch_jobs now (j # js) d =
     (if job_enabled j \<and> should_job_run j now
      then if job_id j \<in> set (running_jobs d) then launch_jobs now js d
           else launch_jobs now js (d\<lparr>running_jobs := job_id j # running_jobs d, executing := executing d @ [j]\<rparr>)
      else launch_jobs now js d)"

definition check_and_execute_jobs :: "wall_time \<Rightarrow> daemon \<Rightarrow> daemon" where
  "check_and_execute_jobs now d = launch_jobs now (list_jobs (job_store d)) d"

text \<open>The job of an execution that succeeded, as it is saved.\<close>

definition completed :: "int \<Rightarrow> job \<Rightarrow> job" where
  "completed t j = j\<lparr>run_count := run_count j + 1, last_run := Some t\<rparr>"

definition end_execution :: "job \<Rightarrow> daemon \<Rightarrow> daemon" where
  "end_execution j d = d\<lparr>executing := remove1 j (executing d), releasing := job_id j # releasing d\<rparr>"

definition succeed_job :: "job \<Rightarrow> int \<Rightarrow> write_outcome \<Rightarrow> daemon \<Rightarrow> daemon" where
  "succeed_job j t wo d =
     end_execution j (d\<lparr>job_store := snd (save_job wo (completed t j) (job_store d))\<rparr>)"

definition release_job :: "string \<Rightarrow> daemon \<Rightarrow> daemon" where
  "release_job i d = d\<lparr>releasing := remove1 i (releasing d), running_jobs := removeAll i (running_jobs d)\<rparr>"

datatype event =
    Tick wall_time
  | Succeed job int write_outcome
  | GiveUp job
  | Release string
  | UserCreate string string string bool string int int write_outcome
  | UserDelete string
  | Signal

inductive daemon_step :: "daemon \<Rightarrow> event \<Rightarrow> daemon \<Rightarrow> bool" where
  tick: "active d \<Longrightarrow> daemon_step d (Tick now) (check_and_execute_jobs now d)"
| succeed: "j \<in> set (executing d) \<Longrightarrow> daemon_step d (Succeed j t wo) (succeed_job j t wo d)"
| give_up: "j \<in> set (executing d) \<Longrightarrow> daemon_step d (GiveUp j) (end_execution j d)"
| release: "i \<in> set (releasing d) \<Longrightarrow> daemon_step d (Release i) (release_job i d)"
| user_create: "create_job name sched ns auto upl t1 t2 wo (job_store d) = (r, fs) \<Longrightarrow>
    daemon_step d (UserCreate name sched ns auto upl t1 t2 wo) (d\<lparr>job_store := fs\<rparr>)"
| user_delete: "delete_job n (job_store d) = Ok fs \<Longrightarrow> daemon_step d (UserDelete n) (d\<lparr>job_store := fs\<rparr>)"
| signal: "daemon_step d Signal (d\<lparr>active := False\<rparr>)"

definition new_daemon :: "job_files \<Rightarrow> daemon" where
  "new_daemon fs = \<lparr>job_store = fs, running_jobs = [], executing = [], releasing = [], active = True\<rparr>"

inductive daemon_run :: "daemon \<Rightarrow> event list \<Rightarrow> daemon \<Rightarrow> bool" where
  stop: "daemon_run d [] d"
| more: "daemon_step d e d1 \<Longrightarrow> daemon_run d1 es d2 \<Longrightarrow> daemon_run d (e # es) d2"

inductive_cases daemon_tickE: "daemon_step d (Tick now) d'"
inductive_cases daemon_succeedE: "daemon_step d (Succeed j t wo) d'"
inductive_cases daemon_releaseE: "daemon_step d (Release i) d'"
inductive_simps daemon_run_simps [simp]: "daemon_run d [] d'" "daemon_run d (e # es) d'"

section \<open>The invariant of the running jobs\<close>

definition running_inv :: "daemon \<Rightarrow> bool" where
  "running_inv d \<longleftrightarrow> distinct (running_jobs d) \<and> mset (running_jobs d) = mset (map job_id (executing d) @ releasing d)"

lemma launch_jobs_inv: "running_inv d \<Longrightarrow> running_inv (launch_jobs now js d)"
proof (induction js arbitrary: d)
  case (Cons j js)
  have "running_inv (d\<lparr>running_jobs := job_id j # running_jobs d, executing := executing d @ [j]\<rparr>)"
    if "job_id j \<notin> set (running_jobs d)"
    using Cons.prems that by (simp add: running_inv_def)
  with Cons show ?case by simp
qed simp

lemma mset_map_remove1: "x \<in> set xs \<Longrightarrow> mset (map f xs) = add_mset (f x) (mset (map f (remove1 x xs)))"
  by (induction xs) auto

lemma end_execution_inv: "running_inv d \<Longrightarrow> j \<in> set (executing d) \<Longrightarrow> running_inv (end_execution j d)"
  using mset_map_remove1 [of j "executing d" job_id] by (simp add: running_inv_def end_execution_def)

lemma release_inv: "running_inv d \<Longrightarrow> i \<in> set (releasing d) \<Longrightarrow> running_inv (release_job i d)"
  by (simp add: running_inv_def release_job_def distinct_remove1_removeAll [symmetric])

lemma step_inv: "daemon_step d e d' \<Longrightarrow> running_inv d \<Longrightarrow> running_inv d'"
proof (induction rule: daemon_step.induct)
  case (succeed j d t wo)
  have "running_inv (d\<lparr>job_store := snd (save_job wo (completed t j) (job_store d))\<rparr>)"
    using succeed by (simp add: running_inv_def)
  with succeed show ?case by (simp add: succeed_job_def end_execution_inv)
qed (simp_all add: check_and_execute_jobs_def launch_jobs_inv end_execution_inv release_inv, simp_all add: running_inv_def)

lemma run_inv: "daemon_run d es d' \<Longrightarrow> running_inv d \<Longrightarrow> running_inv d'"
  by (induction rule: daemon_run.induct) (auto dest: step_inv)

lemma new_daemon_inv: "running_inv (new_daemon fs)"
  by (simp add: running_inv_def new_daemon_def)

text \<open>With different identifiers in the list, a tick starts exactly the jobs that are due and not running.\<close>

lemma launch_jobs_started:
  assumes "distinct (map job_id js)"
  shows "executing (launch_jobs now js d) =
           executing d @ filter (\<lambda>j. job_enabled j \<and> should_job_run j now \<and> job_id j \<notin> set (running_jobs d)) js"
  using assms
proof (induction js arbitrary: d)
  case (Cons j js)
  have "filter (\<lambda>k. job_enabled k \<and> should_job_run k now \<and> job_id k \<noteq> job_id j \<and> job_id k \<notin> set (running_jobs d)) js =
      filter (\<lambda>k. job_enabled k \<and> should_job_run k now \<and> job_id k \<notin> set (running_jobs d)) js"
    by (rule filter_cong) (use Cons.prems in \<open>auto simp: image_iff\<close>)
  with Cons show ?case by simp
qed simp

lemma launch_jobs_from:
  "j \<in> set (executing (launch_jobs now js d)) \<Longrightarrow>
   j \<in> set (executing d) \<or> (j \<in> set js \<and> should_job_run j now \<and> job_id j \<notin> set (running_jobs d))"
proof (induction js arbitrary: d)
  case (Cons k js)
  then show ?case by (fastforce split: if_splits)
qed simp

section \<open>The files\<close>

text \<open>Every file that reads as a job has the name of that job, and names are unique.\<close>

definition files_inv :: "job_files \<Rightarrow> bool" where
  "files_inv fs \<longleftrightarrow> distinct (map fst fs) \<and> (\<forall>f j. (f, Some j) \<in> set fs \<longrightarrow> f = job_file j)"

lemma completed_file [simp]: "job_file (completed t j) = job_file j" "job_id (completed t j) = job_id j"
  by (simp_all add: completed_def job_file_def)

lemma job_file_inject [simp]: "job_file j = job_file k \<longleftrightarrow> job_id j = job_id k"
  by (simp add: job_file_def)

lemma has_suffix_append [simp]: "has_suffix p (s @ p)"
  by (auto simp: has_suffix_iff)

lemma list_jobs_set: "j \<in> set (list_jobs fs) \<longleftrightarrow> (\<exists>f. (f, Some j) \<in> set fs \<and> has_suffix ''.json'' f)"
  by (force simp: list_jobs_def map_filter_def)

lemma set_alist_update:
  "distinct (map fst m) \<Longrightarrow> (k, v) \<in> set (AList.update a b m) \<longleftrightarrow> (if k = a then v = b else (k, v) \<in> set m)"
  using map_of_eq_Some_iff [of m k v] map_of_eq_Some_iff [of "AList.update a b m" k v]
  by (auto simp: distinct_update update_conv')

lemma set_alist_delete:
  "distinct (map fst m) \<Longrightarrow> (k, v) \<in> set (AList.delete a m) \<longleftrightarrow> k \<noteq> a \<and> (k, v) \<in> set m"
  by (auto simp: AList.delete_eq)

lemma save_job_inv: "files_inv fs \<Longrightarrow> files_inv (snd (save_job wo j fs))"
  by (cases wo) (auto simp: save_job_def files_inv_def set_alist_update distinct_update split: if_splits)

lemma delete_job_inv: "files_inv fs \<Longrightarrow> delete_job n fs = Ok fs' \<Longrightarrow> files_inv fs'"
  by (auto simp: delete_job_def res_simps files_inv_def set_alist_delete distinct_delete split: if_splits)

lemma create_job_store: "create_job name sched ns auto upl t1 t2 wo fs = (r, fs') \<Longrightarrow> fs' = fs \<or> (\<exists>j. fs' = snd (save_job wo j fs))"
  by (auto simp: create_job_def Let_def split: res.splits prod.splits) (metis snd_conv)

lemma launch_jobs_store [simp]: "job_store (launch_jobs now js d) = job_store d"
  by (induction js arbitrary: d) auto

lemma step_files_inv: "daemon_step d e d' \<Longrightarrow> files_inv (job_store d) \<Longrightarrow> files_inv (job_store d')"
proof (induction rule: daemon_step.induct)
  case (user_create name sched ns auto upl t1 t2 wo d r fs)
  with create_job_store save_job_inv show ?case by fastforce
qed (auto simp: check_and_execute_jobs_def succeed_job_def end_execution_def release_job_def save_job_inv delete_job_inv)

lemma run_files_inv: "daemon_run d es d' \<Longrightarrow> files_inv (job_store d) \<Longrightarrow> files_inv (job_store d')"
  by (induction rule: daemon_run.induct) (auto dest: step_files_inv)

lemma distinct_ids:
  assumes "distinct (map fst gs)" and "\<And>f j. (f, Some j) \<in> set gs \<Longrightarrow> f = job_file j"
  shows "distinct (map job_id (List.map_filter snd gs))"
  using assms
proof (induction gs)
  case (Cons g gs)
  obtain f o' where g: "g = (f, o')" by force
  show ?case
  proof (cases o')
    case (Some j)
    have "job_id k \<noteq> job_id j" if "k \<in> set (List.map_filter snd gs)" for k
    proof -
      from that obtain h where h: "(h, Some k) \<in> set gs" by (force simp: map_filter_def)
      then have "h \<noteq> f" using Cons.prems(1) g by force
      moreover have "h = job_file k" "f = job_file j" using Cons.prems(2) h g Some by auto
      ultimately show ?thesis by auto
    qed
    then have "job_id j \<notin> set (map job_id (List.map_filter snd gs))" by (metis imageE list.set_map)
    with Cons g Some show ?thesis by (simp add: map_filter_simps)
  qed (use Cons g in \<open>simp add: map_filter_simps\<close>)
qed (simp add: map_filter_simps)

lemma files_inv_distinct_ids:
  assumes "files_inv fs"
  shows "distinct (map job_id (list_jobs fs))"
  unfolding list_jobs_def
proof (rule distinct_ids)
  have "distinct (map fst (filter (\<lambda>(f, _). has_suffix ''.json'' f) fs))"
    using assms by (simp add: files_inv_def distinct_map_filter)
  moreover have "mset (map fst (sort_key fst gs)) = mset (map fst gs)" for gs :: job_files by simp
  ultimately show "distinct (map fst (sort_key fst (filter (\<lambda>(f, _). has_suffix ''.json'' f) fs)))"
    by (metis mset_eq_imp_distinct_iff)
qed (use assms in \<open>auto simp: files_inv_def\<close>)

section \<open>Work left\<close>

text \<open>The events that executions make on their own, and a bound on how many are left.\<close>

fun own_event :: "event \<Rightarrow> bool" where
  "own_event (Succeed j t wo) = True"
| "own_event (GiveUp j) = True"
| "own_event (Release i) = True"
| "own_event _ = False"

definition pending_work :: "daemon \<Rightarrow> nat" where
  "pending_work d = 2 * length (executing d) + length (releasing d)"

lemma end_execution_pending: "j \<in> set (executing d) \<Longrightarrow> pending_work (end_execution j d) < pending_work d"
  by (cases "length (executing d)") (auto simp: pending_work_def end_execution_def length_remove1)

lemma own_event_less: "daemon_step d e d' \<Longrightarrow> own_event e \<Longrightarrow> pending_work d' < pending_work d"
proof (induction rule: daemon_step.induct)
  case (succeed j d t wo)
  have "pending_work (d\<lparr>job_store := fs\<rparr>) = pending_work d" for fs by (simp add: pending_work_def)
  with succeed end_execution_pending [of j "d\<lparr>job_store := snd (save_job wo (completed t j) (job_store d))\<rparr>"]
  show ?case by (simp add: succeed_job_def)
next
  case (release i d)
  then show ?case
    using length_pos_if_in_set [of i "releasing d"] by (simp add: pending_work_def release_job_def length_remove1)
qed (simp_all add: end_execution_pending)

section \<open>An example\<close>

definition nightly :: job where
  "nightly = \<lparr>job_id = ''job-1'', job_name = ''nightly'', schedule = ''* * * * *'', namespace = [],
     auto_discover = True, upload = [], job_enabled = True, run_count = 0, last_run = None, created = 0\<rparr>"

definition nightly_files :: job_files where
  "nightly_files = [(''job-1.json'', Some nightly)]"

definition at_minute :: "int \<Rightarrow> wall_time" where
  "at_minute m = \<lparr>instant = m * 60000000000, wt_minute = m mod 60, wt_hour = 2, wt_day = 1, wt_month = 1, wt_weekday = 3\<rparr>"

definition nightly_daemon :: daemon where
  "nightly_daemon = \<lparr>job_store = nightly_files, running_jobs = [''job-1''], executing = [nightly], releasing = [],
     active = True\<rparr>"

lemma nightly_listed: "list_jobs nightly_files = [nightly]"
  by code_simp

lemma nightly_files_inv: "files_inv nightly_files"
  by (auto simp: files_inv_def nightly_files_def nightly_def job_file_def)

lemma nightly_due: "should_job_run nightly (at_minute 0)"
  by code_simp

lemma nightly_started: "daemon_run (new_daemon nightly_files) [Tick (at_minute 0)] nightly_daemon"
proof -
  have "check_and_execute_jobs (at_minute 0) (new_daemon nightly_files) = nightly_daemon"
    by (simp add: check_and_execute_jobs_def new_daemon_def nightly_listed nightly_due nightly_daemon_def)
      (simp add: nightly_def)
  with tick [of "new_daemon nightly_files" "at_minute 0"] show ?thesis by (simp add: new_daemon_def)
qed

lemma nightly_daemon_inv: "running_inv nightly_daemon"
  by (simp add: running_inv_def nightly_daemon_def nightly_def)

section \<open>Properties\<close>

text \<open>
  C19. No job runs twice at the same time: in every state the daemon can reach, the identifiers of the
  executions and of those about to give their key back are pairwise different, and they are exactly the keys
  of the map of running jobs.
\<close>

theorem no_concurrent_runs:
  assumes "daemon_run (new_daemon fs) es d"
  shows "distinct (map job_id (executing d) @ releasing d) \<and>
    set (map job_id (executing d) @ releasing d) = set (running_jobs d)"
proof -
  have inv: "running_inv d" by (rule run_inv [OF assms new_daemon_inv])
  then have "mset (running_jobs d) = mset (map job_id (executing d) @ releasing d)" by (simp add: running_inv_def)
  with inv show ?thesis unfolding running_inv_def by (metis mset_eq_imp_distinct_iff mset_eq_setD)
qed

theorem no_concurrent_runs_witness:
  "\<exists>d. daemon_run (new_daemon nightly_files) [Tick (at_minute 0)] d \<and> executing d = [nightly] \<and>
     distinct (map job_id (executing d) @ releasing d)"
  using no_concurrent_runs [OF nightly_started] nightly_started by (auto simp: nightly_daemon_def)

text \<open>
  C21. A tick starts exactly the jobs that are enabled, due and not running, in the order of their files, when
  every file has the name of its job.
\<close>

theorem tick_starts_due_jobs:
  assumes "files_inv (job_store d)"
  shows "executing (check_and_execute_jobs now d) =
    executing d @ filter (\<lambda>j. job_enabled j \<and> should_job_run j now \<and> job_id j \<notin> set (running_jobs d))
      (list_jobs (job_store d))"
  unfolding check_and_execute_jobs_def by (rule launch_jobs_started [OF files_inv_distinct_ids [OF assms]])

theorem tick_starts_due_jobs_witness:
  "executing (check_and_execute_jobs (at_minute 0) (new_daemon nightly_files)) = [nightly]"
  using tick_starts_due_jobs [of "new_daemon nightly_files" "at_minute 0"] nightly_files_inv nightly_due
  by (simp add: new_daemon_def nightly_listed) (simp add: nightly_def)

text \<open>
  The files keep their form: from files that have the names of their jobs, every run of the daemon with
  every sequence of commands and failed writes leads to such files.
\<close>

theorem files_keep_names:
  assumes "daemon_run (new_daemon fs) es d" and "files_inv fs"
  shows "files_inv (job_store d)"
  using run_files_inv [OF assms(1)] assms(2) by (simp add: new_daemon_def)

theorem files_keep_names_witness: "files_inv (job_store nightly_daemon)"
  by (rule files_keep_names [OF nightly_started nightly_files_inv])

text \<open>
  A schedule of every minute skips a minute: an execution that started at some instant and was saved is not
  started again by a tick one minute after that instant, whatever the schedule says.
\<close>

theorem every_minute_skips:
  assumes "running_inv d" and "files_inv (job_store d)" and "start \<le> t"
    and "daemon_run d [Succeed j t Written, Release (job_id j), Tick now] d'"
    and "instant now = start + 60 * 1000000000"
  shows "job_id j \<notin> job_id ` set (executing d')"
proof -
  from assms(4) obtain d1 d2 where s1: "daemon_step d (Succeed j t Written) d1" and s2: "daemon_step d1 (Release (job_id j)) d2"
    and s3: "daemon_step d2 (Tick now) d'"
    unfolding daemon_run_simps by blast
  have d1: "d1 = succeed_job j t Written d" and d2: "d2 = release_job (job_id j) d1" and d': "d' = check_and_execute_jobs now d2"
    using s1 s2 s3 by (auto elim: daemon_succeedE daemon_releaseE daemon_tickE)
  have inv2: "running_inv d2" using assms(1) s1 s2 step_inv by blast
  have files: "files_inv (job_store d2)" using assms(2) s1 s2 step_files_inv by blast
  have "job_id j \<notin> set (running_jobs d2)" by (simp add: d2 release_job_def)
  moreover have "set (running_jobs d2) = set (map job_id (executing d2) @ releasing d2)"
    using inv2 by (metis mset_eq_setD running_inv_def)
  ultimately have idle: "job_id j \<notin> job_id ` set (executing d2)" by auto
  have "(job_file j, Some (completed t j)) \<in> set (job_store d2)"
    using assms(2) by (simp add: d2 d1 release_job_def succeed_job_def end_execution_def save_job_def files_inv_def set_alist_update)
  then have same: "k = completed t j" if "k \<in> set (list_jobs (job_store d2))" "job_id k = job_id j" for k
    using that files unfolding list_jobs_set files_inv_def
    by (metis eq_key_imp_eq_value job_file_def option.inject)
  have "\<not> should_job_run (completed t j) now"
    using assms(3,5) by (simp add: should_job_run_def completed_def cooldown_def)
  show ?thesis
  proof
    assume "job_id j \<in> job_id ` set (executing d')"
    then obtain k where k: "k \<in> set (executing d')" "job_id k = job_id j" by auto
    then have "k \<notin> set (executing d2)" using idle by (metis imageI)
    with launch_jobs_from [of k now "list_jobs (job_store d2)" d2] k(1)
    have "k \<in> set (list_jobs (job_store d2))" "should_job_run k now"
      by (simp_all add: d' check_and_execute_jobs_def)
    with same k(2) \<open>\<not> should_job_run (completed t j) now\<close> show False by metis
  qed
qed

theorem every_minute_skips_witness:
  "\<exists>d'. daemon_run nightly_daemon [Succeed nightly 5 Written, Release ''job-1'', Tick (at_minute 1)] d' \<and>
     ''job-1'' \<notin> job_id ` set (executing d')"
proof -
  let ?d1 = "succeed_job nightly 5 Written nightly_daemon" and ?d2 = "release_job ''job-1'' (succeed_job nightly 5 Written nightly_daemon)"
  have id: "job_id nightly = ''job-1''" by (simp add: nightly_def)
  have "daemon_step nightly_daemon (Succeed nightly 5 Written) ?d1" by (rule succeed) (simp add: nightly_daemon_def)
  moreover have "daemon_step ?d1 (Release ''job-1'') ?d2"
    by (rule release) (simp add: succeed_job_def end_execution_def nightly_def)
  moreover have "daemon_step ?d2 (Tick (at_minute 1)) (check_and_execute_jobs (at_minute 1) ?d2)"
    by (rule tick) (simp add: release_job_def succeed_job_def end_execution_def nightly_daemon_def)
  ultimately have run: "daemon_run nightly_daemon [Succeed nightly 5 Written, Release (job_id nightly), Tick (at_minute 1)]
      (check_and_execute_jobs (at_minute 1) ?d2)" unfolding id daemon_run_simps by blast
  have "files_inv (job_store nightly_daemon)" by (simp add: nightly_daemon_def nightly_files_inv)
  from every_minute_skips [OF nightly_daemon_inv this _ run, of 0] run show ?thesis
    unfolding id by (auto simp: at_minute_def)
qed

text \<open>
  A job that is deleted while it runs comes back: when the execution succeeds it writes the file that the
  user has deleted, with the job as it was when it was started.
\<close>

theorem deleted_job_returns:
  assumes "j \<in> set (executing d)" and "files_inv (job_store d)" and "delete_job (job_id j) (job_store d) = Ok fs"
  shows "\<exists>d'. daemon_run d [UserDelete (job_id j), Succeed j t Written] d' \<and>
    completed t j \<in> set (list_jobs (job_store d'))"
proof -
  let ?d1 = "d\<lparr>job_store := fs\<rparr>"
  have s1: "daemon_step d (UserDelete (job_id j)) ?d1" by (rule user_delete [OF assms(3)])
  have s2: "daemon_step ?d1 (Succeed j t Written) (succeed_job j t Written ?d1)"
    by (rule succeed) (simp add: assms(1))
  have "distinct (map fst fs)" using delete_job_inv [OF assms(2,3)] by (simp add: files_inv_def)
  then have "completed t j \<in> set (list_jobs (job_store (succeed_job j t Written ?d1)))"
    unfolding list_jobs_set by (intro exI [of _ "job_file j"])
      (simp add: succeed_job_def end_execution_def save_job_def set_alist_update, simp add: job_file_def)
  with s1 s2 show ?thesis unfolding daemon_run_simps by blast
qed

theorem deleted_job_returns_witness:
  "\<exists>d'. daemon_run nightly_daemon [UserDelete ''job-1'', Succeed nightly 5 Written] d' \<and>
    completed 5 nightly \<in> set (list_jobs (job_store d'))"
proof -
  have "delete_job (job_id nightly) (job_store nightly_daemon) = Ok []" by code_simp
  from deleted_job_returns [OF _ _ this] show ?thesis
    by (simp add: nightly_daemon_def nightly_files_inv del: daemon_run_simps) (simp add: nightly_def del: daemon_run_simps)
qed

text \<open>
  C20. Executions end: in every reachable state the work left is a natural number that every event of an
  execution decreases, as long as it is positive such an event is possible, and when it is zero no key is
  left in the map of running jobs, so every job can run again.
\<close>

theorem executions_end:
  assumes "daemon_run (new_daemon fs) es d"
  shows "(\<forall>e d'. daemon_step d e d' \<and> own_event e \<longrightarrow> pending_work d' < pending_work d) \<and>
    (pending_work d > 0 \<longrightarrow> (\<exists>e d'. daemon_step d e d' \<and> own_event e)) \<and>
    (pending_work d = 0 \<longleftrightarrow> running_jobs d = [])"
proof (intro conjI allI impI)
  show "pending_work d' < pending_work d" if "daemon_step d e d' \<and> own_event e" for e d'
    using that own_event_less by blast
  show "\<exists>e d'. daemon_step d e d' \<and> own_event e" if "pending_work d > 0"
  proof (cases "executing d")
    case Nil
    with that have "hd (releasing d) \<in> set (releasing d)" by (simp add: pending_work_def)
    then show ?thesis using release own_event.simps(3) by blast
  next
    case (Cons j js)
    then have "j \<in> set (executing d)" by simp
    then show ?thesis using give_up own_event.simps(2) by blast
  qed
  have "set (map job_id (executing d) @ releasing d) = set (running_jobs d)"
    using run_inv [OF assms new_daemon_inv] unfolding running_inv_def by (metis mset_eq_setD)
  then show "pending_work d = 0 \<longleftrightarrow> running_jobs d = []"
    by (auto simp: pending_work_def)
qed

theorem executions_end_witness:
  "(\<exists>e d'. daemon_step nightly_daemon e d' \<and> own_event e) \<and> running_jobs nightly_daemon \<noteq> []"
  using executions_end [OF nightly_started] by (simp add: pending_work_def nightly_daemon_def)

end
