(* ===== verification/Collectors.thy ===== *)
theory Collectors
  imports Multitype "HOL-Library.Char_ord" "HOL-Library.List_Lexorder"
begin

text \<open>
  Collectors of a cluster (\<^verbatim>\<open>pkg/collect/collector.go\<close>, \<^verbatim>\<open>rbac.go\<close>, \<^verbatim>\<open>cluster_resources.go\<close>): from the entries of a
  spec to collectors, their titles and exclusion, and the operations on lists of entries and collectors that the
  drivers use before they collect. An entry holds the collectors it has a configuration for; of the
  configuration the model keeps what these operations read and the rest as text.
\<close>

datatype kind =
    KClusterInfo | KClusterResources | KCustomMetrics | KSecret | KConfigMap | KLogs | KRun | KRunPod
  | KRunDaemonSet | KExec | KData | KCopy | KCopyFromHost | KHTTP | KPostgres | KMssql | KMysql | KRedis
  | KCollectd | KCeph | KLonghorn | KRegistryImages | KSysctl | KCertificates | KHelm | KGoldpinger
  | KSonobuoy | KNodeMetrics | KDNS | KEtcd

text \<open>
  \<open>namespaces\<close> is \<open>None\<close> for a nil slice, \<open>object_name\<close> the name of the secret or config map,
  \<open>pull_secret\<close> the name of an image pull secret and whether it has no data.
\<close>

record collect_config =
  collector_name :: string
  selector :: "string list"
  exclude :: "bool_or_string option"
  namespaces :: "string list option"
  coll_namespace :: string
  object_name :: string
  pull_secret :: "(string \<times> bool) option"
  payload :: string

definition empty_config :: collect_config where
  "empty_config =
     \<lparr>collector_name = [], selector = [], exclude = None, namespaces = None, coll_namespace = [],
      object_name = [], pull_secret = None, payload = []\<rparr>"

type_synonym collect_spec = "(kind \<times> collect_config) list"

record collector =
  ckind :: kind
  cconfig :: collect_config
  rbac_errors :: "go_error list"

section \<open>From specs to collectors\<close>

text \<open>The cases of \<open>GetCollector\<close>, in their order.\<close>

definition switch_order :: "kind list" where
  "switch_order =
     [KClusterInfo, KClusterResources, KCustomMetrics, KSecret, KConfigMap, KLogs, KRun, KRunPod, KRunDaemonSet,
      KExec, KData, KCopy, KCopyFromHost, KHTTP, KPostgres, KMssql, KMysql, KRedis, KCollectd, KCeph, KLonghorn,
      KRegistryImages, KSysctl, KCertificates, KHelm, KGoldpinger, KSonobuoy, KNodeMetrics, KDNS, KEtcd]"

definition has_kind :: "collect_spec \<Rightarrow> kind \<Rightarrow> bool" where
  "has_kind s k \<longleftrightarrow> map_of s k \<noteq> None"

definition get_collector :: "collect_spec \<Rightarrow> collector option" where
  "get_collector s =
     map_option (\<lambda>k. \<lparr>ckind = k, cconfig = the (map_of s k), rbac_errors = []\<rparr>)
       (List.find (has_kind s) switch_order)"

fun kind_label :: "kind \<Rightarrow> string" where
  "kind_label KClusterInfo = ''cluster-info''"
| "kind_label KClusterResources = ''cluster-resources''"
| "kind_label KCustomMetrics = ''custom-metrics''"
| "kind_label KSecret = ''secret''"
| "kind_label KConfigMap = ''configmap''"
| "kind_label KLogs = ''logs''"
| "kind_label KRun = ''run''"
| "kind_label KRunPod = ''run-pod''"
| "kind_label KRunDaemonSet = ''run-daemonset''"
| "kind_label KExec = ''exec''"
| "kind_label KData = ''data''"
| "kind_label KCopy = ''copy''"
| "kind_label KCopyFromHost = ''copy-from-host''"
| "kind_label KHTTP = ''http''"
| "kind_label KPostgres = ''postgres''"
| "kind_label KMssql = ''mssql''"
| "kind_label KMysql = ''mysql''"
| "kind_label KRedis = ''redis''"
| "kind_label KCollectd = ''collectd''"
| "kind_label KCeph = ''ceph''"
| "kind_label KLonghorn = ''longhorn''"
| "kind_label KRegistryImages = ''registry-images''"
| "kind_label KSysctl = ''sysctl''"
| "kind_label KCertificates = ''certificates''"
| "kind_label KHelm = ''helm''"
| "kind_label KGoldpinger = ''goldpinger''"
| "kind_label KSonobuoy = ''sonobuoy''"
| "kind_label KNodeMetrics = ''node-metrics''"
| "kind_label KDNS = ''dns''"
| "kind_label KEtcd = ''etcd''"

definition unnamed_kinds :: "kind list" where
  "unnamed_kinds =
     [KClusterInfo, KClusterResources, KCertificates, KHelm, KGoldpinger, KSonobuoy, KNodeMetrics, KDNS, KEtcd]"

definition selector_kinds :: "kind list" where
  "selector_kinds = [KSecret, KConfigMap, KLogs, KExec, KCopy]"

definition get_collector_name :: "collector \<Rightarrow> string" where
  "get_collector_name c =
     (let name = (if ckind c \<in> set unnamed_kinds then [] else collector_name (cconfig c));
          sel = (if ckind c \<in> set selector_kinds then join_with '','' (selector (cconfig c)) else [])
      in if name \<noteq> [] then kind_label (ckind c) @ ''/'' @ name
         else if sel \<noteq> [] then kind_label (ckind c) @ ''/'' @ sel
         else kind_label (ckind c))"

definition collect_is_excluded :: "bool_or_string option \<Rightarrow> bool res" where
  "collect_is_excluded v =
     (case v of
        None \<Rightarrow> Ok False
      | Some b \<Rightarrow>
          (case bos_kind b of
             BBool \<Rightarrow> Ok (bool_val b)
           | BStr \<Rightarrow> if str_val b = [] then Ok False
                     else wrap_res ''failed to parse bool string'' (parse_bool (str_val b))))"

section \<open>Lists\<close>

definition ensure_collector_in_list :: "collect_spec list \<Rightarrow> collect_spec \<Rightarrow> collect_spec list" where
  "ensure_collector_in_list specs c =
     (if list_ex (\<lambda>s. (has_kind c KClusterResources \<and> has_kind s KClusterResources) \<or>
                      (has_kind c KClusterInfo \<and> has_kind s KClusterInfo)) specs
      then specs else specs @ [c])"

definition ensure_cluster_resources_first :: "collect_spec list \<Rightarrow> collect_spec list" where
  "ensure_cluster_resources_first specs =
     filter (\<lambda>s. has_kind s KClusterResources) specs @ filter (\<lambda>s. \<not> has_kind s KClusterResources) specs"

definition dedup_collectors :: "(collect_spec \<Rightarrow> string res) \<Rightarrow> collect_spec list \<Rightarrow> collect_spec list" where
  "dedup_collectors marshal specs = dedup_from marshal [] specs"

definition ensure_copy_last :: "collector list \<Rightarrow> collector list" where
  "ensure_copy_last cs = filter (\<lambda>c. ckind c \<noteq> KCopy) cs @ filter (\<lambda>c. ckind c = KCopy) cs"

section \<open>Merging\<close>

text \<open>The loop over the namespaces: whether an unrestricted collector was met, and the names before it.\<close>

fun merge_names :: "string list \<Rightarrow> string list \<Rightarrow> bool \<times> string list" where
  "merge_names [] seen = (False, seen)"
| "merge_names (n # ns) seen = (if n = [] then (True, seen) else merge_names ns (n # seen))"

fun merge_namespaces :: "collector list \<Rightarrow> string list \<Rightarrow> bool \<times> string list" where
  "merge_namespaces [] seen = (False, seen)"
| "merge_namespaces (c # cs) seen =
     (if ckind c \<noteq> KClusterResources then merge_namespaces cs seen
      else case namespaces (cconfig c) of
             None \<Rightarrow> (True, seen)
           | Some ns \<Rightarrow>
               (case merge_names ns seen of
                  (True, seen') \<Rightarrow> (True, seen')
                | (False, seen') \<Rightarrow> merge_namespaces cs seen'))"

text \<open>A slice to which nothing was appended is nil.\<close>

definition merge_cluster_resources :: "collector \<Rightarrow> collector list \<Rightarrow> collector list" where
  "merge_cluster_resources c cs =
     (case merge_namespaces cs [] of
        (True, _) \<Rightarrow> [c\<lparr>cconfig := (cconfig c)\<lparr>namespaces := None\<rparr>\<rparr>]
      | (False, seen) \<Rightarrow>
          [c\<lparr>cconfig := (cconfig c)\<lparr>namespaces := (if seen = [] then None else Some (sort (remdups seen)))\<rparr>\<rparr>])"

text \<open>Which namespaces a configuration collects: no restriction is every namespace.\<close>

definition covers :: "string list option \<Rightarrow> string \<Rightarrow> bool" where
  "covers nso n \<longleftrightarrow> (case nso of None \<Rightarrow> True | Some ns \<Rightarrow> [] \<in> set ns \<or> n \<in> set ns)"

section \<open>Lemmas\<close>

lemma has_kind_Cons [simp]: "has_kind ((k, c) # s) k' \<longleftrightarrow> k = k' \<or> has_kind s k'"
  by (simp add: has_kind_def)

lemma has_kind_Nil [simp]: "\<not> has_kind [] k"
  by (simp add: has_kind_def)

lemma ensure_in_list_has:
  assumes "k = KClusterInfo \<or> k = KClusterResources"
  shows "list_ex (\<lambda>s. has_kind s k) (ensure_collector_in_list specs [(k, c)])"
  using assms by (auto simp: ensure_collector_in_list_def list_ex_iff)

lemma ensure_in_list_mono: "set specs \<subseteq> set (ensure_collector_in_list specs c)"
  by (auto simp: ensure_collector_in_list_def)

text \<open>Deduplication keeps the first entry of every text.\<close>

lemma merge_names_spec:
  "merge_names ns seen = (b, seen') \<Longrightarrow> (b \<longleftrightarrow> [] \<in> set ns) \<and> (\<not> b \<longrightarrow> set seen' = set ns \<union> set seen)"
  by (induction ns arbitrary: seen) (auto split: if_splits)

lemma merge_namespaces_spec:
  assumes "merge_namespaces cs seen = (b, seen')" and "\<forall>c\<in>set cs. ckind c = KClusterResources"
  shows "(b \<longleftrightarrow> (\<exists>c\<in>set cs. covers (namespaces (cconfig c)) [])) \<and>
    (\<not> b \<longrightarrow> set seen' = set seen \<union> {n. \<exists>c\<in>set cs. covers (namespaces (cconfig c)) n})"
  using assms
proof (induction cs arbitrary: seen)
  case (Cons c cs)
  show ?case
  proof (cases "namespaces (cconfig c)")
    case (Some ns)
    obtain b1 seen1 where m: "merge_names ns seen = (b1, seen1)" by force
    note spec = merge_names_spec [OF m]
    show ?thesis
    proof (cases b1)
      case True
      with Cons.prems m Some spec show ?thesis by (auto simp: covers_def)
    next
      case False
      with Cons.prems m Some have "merge_namespaces cs seen1 = (b, seen')" by auto
      from Cons.IH [OF this] Cons.prems(2) have IH:
        "(b \<longleftrightarrow> (\<exists>c\<in>set cs. covers (namespaces (cconfig c)) []))"
        "\<not> b \<longrightarrow> set seen' = set seen1 \<union> {n. \<exists>c\<in>set cs. covers (namespaces (cconfig c)) n}" by auto
      have "covers (namespaces (cconfig c)) n \<longleftrightarrow> n \<in> set ns" "set seen1 = set ns \<union> set seen" for n
        using spec False Some by (auto simp: covers_def)
      with IH spec False Some show ?thesis by auto
    qed
  qed (use Cons.prems in \<open>auto simp: covers_def\<close>)
qed simp

lemma covers_sorted [simp]: "covers (Some (sort (remdups ns))) n \<longleftrightarrow> covers (Some ns) n"
  by (simp add: covers_def)

lemma merge_cluster_resources_covers:
  assumes "\<forall>c\<in>set cs. ckind c = KClusterResources" and "\<exists>c\<in>set cs. namespaces (cconfig c) \<noteq> Some []"
  shows "\<exists>ns. merge_cluster_resources m cs = [m\<lparr>cconfig := (cconfig m)\<lparr>namespaces := ns\<rparr>\<rparr>] \<and>
    (\<forall>n. covers ns n \<longleftrightarrow> (\<exists>c\<in>set cs. covers (namespaces (cconfig c)) n))"
proof -
  obtain b seen where m: "merge_namespaces cs [] = (b, seen)" by force
  note spec = merge_namespaces_spec [OF m assms(1)]
  show ?thesis
  proof (cases b)
    case True
    then have "\<exists>c\<in>set cs. \<forall>n. covers (namespaces (cconfig c)) n"
      using spec by (fastforce simp: covers_def split: option.splits)
    with True m show ?thesis
      by (intro exI [of _ None]) (auto simp: merge_cluster_resources_def covers_def [of None])
  next
    case False
    have names: "set seen = {n. \<exists>c\<in>set cs. covers (namespaces (cconfig c)) n}" using spec False by simp
    obtain c where c: "c \<in> set cs" "namespaces (cconfig c) \<noteq> Some []" using assms(2) by blast
    have "\<exists>n. covers (namespaces (cconfig c)) n"
    proof (cases "namespaces (cconfig c)")
      case (Some ns)
      with c(2) show ?thesis by (intro exI [of _ "hd ns"]) (simp add: covers_def)
    qed (simp add: covers_def)
    with c names have "seen \<noteq> []" by auto
    moreover have "covers (Some seen) n \<longleftrightarrow> n \<in> set seen" for n
      using spec False names by (auto simp: covers_def)
    ultimately show ?thesis using False m names
      by (intro exI [of _ "Some (sort (remdups seen))"]) (simp add: merge_cluster_resources_def)
  qed
qed

section \<open>Properties\<close>

text \<open>
  Merging the collectors of cluster resources keeps their namespaces: unless all of them have an empty
  list, the one collector that replaces them covers a namespace exactly when one of them does.
\<close>

theorem merged_namespaces:
  assumes "\<forall>c\<in>set cs. ckind c = KClusterResources" and "\<exists>c\<in>set cs. namespaces (cconfig c) \<noteq> Some []"
  shows "\<exists>m'. merge_cluster_resources m cs = [m'] \<and> ckind m' = ckind m \<and>
    (\<forall>n. covers (namespaces (cconfig m')) n \<longleftrightarrow> (\<exists>c\<in>set cs. covers (namespaces (cconfig c)) n))"
  using merge_cluster_resources_covers [OF assms, of m] by fastforce

theorem merged_namespaces_witness:
  "\<exists>m'. merge_cluster_resources
       \<lparr>ckind = KClusterResources, cconfig = empty_config\<lparr>namespaces := Some [''b'', ''a'']\<rparr>, rbac_errors = []\<rparr>
       [\<lparr>ckind = KClusterResources, cconfig = empty_config\<lparr>namespaces := Some [''b'', ''a'']\<rparr>, rbac_errors = []\<rparr>,
        \<lparr>ckind = KClusterResources, cconfig = empty_config\<lparr>namespaces := Some [''c'']\<rparr>, rbac_errors = []\<rparr>] = [m'] \<and>
     covers (namespaces (cconfig m')) ''c'' \<and> \<not> covers (namespaces (cconfig m')) ''d''"
proof -
  let ?c = "\<lambda>ns. \<lparr>ckind = KClusterResources, cconfig = empty_config\<lparr>namespaces := Some ns\<rparr>, rbac_errors = []\<rparr> :: collector"
  have "\<forall>c\<in>set [?c [''b'', ''a''], ?c [''c'']]. ckind c = KClusterResources"
    "\<exists>c\<in>set [?c [''b'', ''a''], ?c [''c'']]. namespaces (cconfig c) \<noteq> Some []" by simp_all
  from merged_namespaces [OF this, of "?c [''b'', ''a'']"] obtain m' where
    "merge_cluster_resources (?c [''b'', ''a'']) [?c [''b'', ''a''], ?c [''c'']] = [m']" and
    "\<forall>n. covers (namespaces (cconfig m')) n \<longleftrightarrow> (\<exists>c\<in>set [?c [''b'', ''a''], ?c [''c'']]. covers (namespaces (cconfig c)) n)"
    by blast
  then show ?thesis by (intro exI [of _ m']) (simp add: covers_def [of "Some ns" for ns])
qed

text \<open>
  Deduplication keeps one entry for every text an entry marshals to and drops nothing else; it changes no
  list without duplicates, so doing it twice is doing it once.
\<close>

theorem dedup_collectors_spec:
  assumes "\<forall>s\<in>set specs. marshal s = Ok (key s)"
  shows "distinct (map key (dedup_collectors marshal specs)) \<and>
    key ` set (dedup_collectors marshal specs) = key ` set specs \<and> set (dedup_collectors marshal specs) \<subseteq> set specs \<and>
    dedup_collectors marshal (dedup_collectors marshal specs) = dedup_collectors marshal specs"
proof -
  note d = dedup_from_distinct [OF assms, of "[]"]
  have sub: "set (dedup_from marshal [] specs) \<subseteq> set specs" by (rule dedup_from_subset)
  have "dedup_from marshal [] (dedup_from marshal [] specs) = dedup_from marshal [] specs"
    by (rule dedup_from_id [where key = key]) (use d sub assms in auto)
  with d sub show ?thesis by (simp add: dedup_collectors_def)
qed

theorem dedup_collectors_spec_witness:
  "\<exists>a b :: collect_spec. a \<noteq> b \<and>
     distinct (map kind_label (map (fst \<circ> hd) (dedup_collectors (\<lambda>s. Ok (kind_label (fst (hd s)))) [a, b, a])))"
proof -
  let ?c = "empty_config"
  have "\<forall>s\<in>set [[(KLogs, ?c)], [(KExec, ?c)], [(KLogs, ?c)]]. (\<lambda>s. Ok (kind_label (fst (hd s)))) s = Ok (kind_label (fst (hd s)))"
    by simp
  from dedup_collectors_spec [OF this] show ?thesis
    by (intro exI [of _ "[(KLogs, ?c)]"] exI [of _ "[(KExec, ?c)]"]) (simp add: comp_def)
qed

end
