(* ===== verification/Access_Reviews.thy ===== *)
theory Access_Reviews
  imports Collectors
begin

text \<open>
  Permissions of collectors: the access reviews an entry of a spec asks for (\<^verbatim>\<open>AccessReviewSpecs\<close>,
  \<^verbatim>\<open>pickNamespaceOrDefault\<close> and \<^verbatim>\<open>GetName\<close> in \<^verbatim>\<open>pkg/apis/troubleshoot/v1beta2/collector_shared.go\<close>) and the
  check that turns the answers into errors (\<^verbatim>\<open>pkg/collect/rbac.go\<close>). The answer of the API server to a review
  is a parameter.
\<close>

text \<open>The resource attributes of a review; the version is always empty.\<close>

record review_spec =
  rv_namespace :: string
  rv_verb :: string
  rv_group :: string
  rv_resource :: string
  rv_subresource :: string
  rv_name :: string

definition review_of :: "string \<Rightarrow> string \<Rightarrow> string \<Rightarrow> string \<Rightarrow> string \<Rightarrow> string \<Rightarrow> review_spec" where
  "review_of ns verb grp res sub name =
     \<lparr>rv_namespace = ns, rv_verb = verb, rv_group = grp, rv_resource = res, rv_subresource = sub, rv_name = name\<rparr>"

definition pick_namespace_or_default :: "string \<Rightarrow> string \<Rightarrow> string" where
  "pick_namespace_or_default collector_ns override_ns =
     (if override_ns \<noteq> [] then override_ns else if collector_ns \<noteq> [] then collector_ns else ''default'')"

text \<open>The reviews of a collector of one kind.\<close>

fun kind_reviews :: "string \<Rightarrow> kind \<Rightarrow> collect_config \<Rightarrow> review_spec list" where
  "kind_reviews o_ns KClusterResources c =
     [review_of [] ''list'' [] ''namespaces'' [] [],
      review_of [] ''list'' [] ''nodes'' [] [],
      review_of [] ''list'' ''apiextensions.k8s.io'' ''customresourcedefinitions'' [] [],
      review_of [] ''list'' ''storage.k8s.io'' ''storageclasses'' [] []]"
| "kind_reviews o_ns KSecret c =
     [review_of (pick_namespace_or_default (coll_namespace c) o_ns) ''get'' [] ''secrets'' [] (object_name c)]"
| "kind_reviews o_ns KConfigMap c =
     [review_of (pick_namespace_or_default (coll_namespace c) o_ns) ''get'' [] ''configmaps'' [] (object_name c)]"
| "kind_reviews o_ns KLogs c =
     [review_of (pick_namespace_or_default (coll_namespace c) o_ns) ''list'' [] ''pods'' [] [],
      review_of (pick_namespace_or_default (coll_namespace c) o_ns) ''get'' [] ''pods'' ''log'' []]"
| "kind_reviews o_ns KRun c =
     [review_of (pick_namespace_or_default (coll_namespace c) o_ns) ''create'' [] ''pods'' [] []]"
| "kind_reviews o_ns KRunPod c =
     [review_of (pick_namespace_or_default (coll_namespace c) o_ns) ''create'' [] ''pods'' [] []]"
| "kind_reviews o_ns KRunDaemonSet c =
     [review_of (pick_namespace_or_default (coll_namespace c) o_ns) ''create'' [] ''pods'' [] []]"
| "kind_reviews o_ns KExec c =
     [review_of (pick_namespace_or_default (coll_namespace c) o_ns) ''list'' [] ''pods'' [] [],
      review_of (pick_namespace_or_default (coll_namespace c) o_ns) ''get'' [] ''pods'' ''exec'' []]"
| "kind_reviews o_ns KCopy c =
     [review_of (pick_namespace_or_default (coll_namespace c) o_ns) ''list'' [] ''pods'' [] [],
      review_of (pick_namespace_or_default (coll_namespace c) o_ns) ''get'' [] ''pods'' ''exec'' []]"
| "kind_reviews o_ns KRegistryImages c =
     (case pull_secret c of
        Some (n, True) \<Rightarrow> [review_of (pick_namespace_or_default (coll_namespace c) o_ns) ''get'' [] ''secrets'' [] n]
      | _ \<Rightarrow> [])"
| "kind_reviews o_ns _ c = []"

text \<open>The chain of cases: the first kind of this list that the entry has decides.\<close>

definition review_order :: "kind list" where
  "review_order =
     [KClusterInfo, KClusterResources, KSecret, KConfigMap, KLogs, KRun, KRunPod, KRunDaemonSet, KExec, KCopy,
      KCopyFromHost, KCollectd, KHTTP, KRegistryImages, KSysctl]"

text \<open>The case of registry images is left when the pull secret is nil or has data; the case after it has no reviews.\<close>

definition access_review_specs :: "string \<Rightarrow> collect_spec \<Rightarrow> review_spec list" where
  "access_review_specs o_ns s =
     (case List.find (has_kind s) review_order of
        None \<Rightarrow> []
      | Some k \<Rightarrow> kind_reviews o_ns k (the (map_of s k)))"

definition rbac_error :: "string \<Rightarrow> review_spec \<Rightarrow> go_error" where
  "rbac_error title r =
     (if rv_namespace r = []
      then Errf ''cannot collect %s: action %q is not allowed on resource %q at the cluster scope''
             [title, rv_verb r, rv_resource r]
      else Errf ''cannot collect %s: action %q is not allowed on resource %q in the %q namespace''
             [title, rv_verb r, rv_resource r, rv_namespace r])"

fun run_reviews :: "(review_spec \<Rightarrow> bool res) \<Rightarrow> string \<Rightarrow> review_spec list \<Rightarrow> go_error list \<Rightarrow> go_error list res" where
  "run_reviews ask title [] forbidden = Ok forbidden"
| "run_reviews ask title (r # rs) forbidden =
     bind_res (wrap_res ''failed to run subject review'' (ask r)) (\<lambda>ok.
       run_reviews ask title rs (if ok then forbidden else forbidden @ [rbac_error title r]))"

definition check_rbac :: "(review_spec \<Rightarrow> bool res) \<Rightarrow> string \<Rightarrow> collect_spec \<Rightarrow> collector \<Rightarrow> collector res" where
  "check_rbac ask o_ns s c =
     (case collect_is_excluded (exclude (cconfig c)) of
        Ok False \<Rightarrow>
          map_res (\<lambda>es. c\<lparr>rbac_errors := es\<rparr>) (run_reviews ask (get_collector_name c) (access_review_specs o_ns s) [])
      | _ \<Rightarrow> Ok c)"

section \<open>Names of entries\<close>

definition name_order :: "kind list" where
  "name_order =
     [KClusterInfo, KClusterResources, KSecret, KConfigMap, KLogs, KRun, KRunPod, KRunDaemonSet, KExec, KData, KCopy,
      KCopyFromHost, KHTTP, KPostgres, KMssql, KMysql, KRedis, KCollectd, KCeph, KLonghorn, KRegistryImages, KSysctl,
      KCertificates]"

text \<open>Every kind present overwrites the label; cluster info and resources leave the name, others the selector.\<close>

fun name_parts :: "collect_spec \<Rightarrow> kind list \<Rightarrow> string \<times> string \<times> string \<Rightarrow> string \<times> string \<times> string" where
  "name_parts s [] p = p"
| "name_parts s (k # ks) (label, name, sel) =
     (case map_of s k of
        None \<Rightarrow> name_parts s ks (label, name, sel)
      | Some c \<Rightarrow>
          name_parts s ks
            (kind_label k,
             if k \<in> {KClusterInfo, KClusterResources} then name else collector_name c,
             if k \<in> set selector_kinds then join_with '','' (selector c) else sel))"

definition get_name :: "collect_spec \<Rightarrow> string" where
  "get_name s =
     (case name_parts s name_order ([], [], []) of
        (label, name, sel) \<Rightarrow>
          if label = [] then ''<none>''
          else if name \<noteq> [] then label @ ''/'' @ name
          else if sel \<noteq> [] then label @ ''/'' @ sel
          else label)"

section \<open>Lemmas\<close>

lemma run_reviews_total:
  assumes "\<forall>r\<in>set rs. ask r = Ok (ok r)"
  shows "run_reviews ask t rs fs = Ok (fs @ map (rbac_error t) (filter (\<lambda>r. \<not> ok r) rs))"
  using assms by (induction rs arbitrary: fs) auto

lemma check_rbac_errors:
  assumes "\<And>r. ask r = Ok (ok r)"
  shows "\<exists>c'. check_rbac ask o_ns s c = Ok c' \<and> ckind c' = ckind c \<and> cconfig c' = cconfig c \<and>
    rbac_errors c' = (if collect_is_excluded (exclude (cconfig c)) = Ok False
      then map (rbac_error (get_collector_name c)) (filter (\<lambda>r. \<not> ok r) (access_review_specs o_ns s))
      else rbac_errors c)"
  using run_reviews_total [of _ ask ok _ "[]"] assms
  by (auto simp: check_rbac_def split: res.split bool.split)

lemma find_takeWhileD: "List.find P xs = Some k \<Longrightarrow> P k \<and> (\<forall>y\<in>set (takeWhile ((\<noteq>) k) xs). \<not> P y)"
  by (induction xs) (auto split: if_splits)

lemma find_takeWhileI:
  "k \<in> set xs \<Longrightarrow> P k \<Longrightarrow> \<forall>y\<in>set (takeWhile ((\<noteq>) k) xs). \<not> P y \<Longrightarrow> List.find P xs = Some k"
  by (induction xs) (auto split: if_splits)

text \<open>The cases of the review come in the order of the cases of the collectors, but for the two of HTTP and collectd.\<close>

lemma review_order_compatible:
  assumes "k \<in> set review_order"
  shows "set (takeWhile ((\<noteq>) k) review_order) - set (takeWhile ((\<noteq>) k) switch_order) \<subseteq>
    (if k = KHTTP then {KCollectd} else {})"
  using assms by (auto simp: review_order_def switch_order_def)

lemma reviews_of_collectd: "kind_reviews o_ns KCollectd c = kind_reviews o_ns KHTTP c'"
  by simp

lemma get_collector_kind:
  "get_collector s = Some c \<longleftrightarrow>
     (\<exists>k. List.find (has_kind s) switch_order = Some k \<and> c = \<lparr>ckind = k, cconfig = the (map_of s k), rbac_errors = []\<rparr>)"
  by (auto simp: get_collector_def)

section \<open>Properties\<close>

text \<open>
  The permissions that are checked for an entry are those of the collector that is run for it, when the kind of
  that collector has a case in the review: an entry with several kinds is reviewed for the kind that is collected.
\<close>

theorem reviewed_kind_is_collected:
  assumes "get_collector s = Some c" and "ckind c \<in> set review_order"
  shows "access_review_specs o_ns s = kind_reviews o_ns (ckind c) (cconfig c)"
proof -
  from assms(1) have found: "List.find (has_kind s) switch_order = Some (ckind c)"
    and conf: "cconfig c = the (map_of s (ckind c))" by (auto simp: get_collector_kind)
  from find_takeWhileD [OF found] have has: "has_kind s (ckind c)"
    and absent: "\<forall>y\<in>set (takeWhile ((\<noteq>) (ckind c)) switch_order). \<not> has_kind s y" by blast+
  show ?thesis
  proof (cases "ckind c = KHTTP \<and> has_kind s KCollectd")
    case True
    with absent have "List.find (has_kind s) review_order = Some KCollectd"
      by (intro find_takeWhileI) (auto simp: review_order_def switch_order_def)
    with True show ?thesis by (simp add: access_review_specs_def)
  next
    case False
    then have "List.find (has_kind s) review_order = Some (ckind c)"
      using review_order_compatible [OF assms(2)] absent has assms(2)
      by (intro find_takeWhileI) (auto split: if_splits)
    then show ?thesis by (simp add: access_review_specs_def conf)
  qed
qed

theorem reviewed_kind_is_collected_witness:
  "access_review_specs ''ns'' [(KSecret, empty_config), (KLogs, empty_config)] =
    [review_of ''ns'' ''get'' [] ''secrets'' [] []]"
  using reviewed_kind_is_collected [of "[(KSecret, empty_config), (KLogs, empty_config)]"
      "\<lparr>ckind = KSecret, cconfig = empty_config, rbac_errors = []\<rparr>" "''ns''"]
  by (simp add: get_collector_def switch_order_def review_order_def pick_namespace_or_default_def empty_config_def)

text \<open>
  The two functions that name a collector agree: an entry of one kind has, by \<^verbatim>\<open>GetName\<close>, the title of the
  collector that is built from it, for every kind that \<^verbatim>\<open>GetName\<close> knows other than certificates, whose name is
  left out of the title.
\<close>

theorem names_agree:
  assumes "k \<in> set name_order" and "k \<noteq> KCertificates"
  shows "\<exists>c. get_collector [(k, conf)] = Some c \<and> get_name [(k, conf)] = get_collector_name c"
  using assms(1) [unfolded name_order_def, simplified] assms(2)
  by (elim disjE)
     (simp_all add: name_order_def get_collector_def switch_order_def get_name_def get_collector_name_def
       unnamed_kinds_def selector_kinds_def)

theorem names_agree_witness:
  "\<exists>c. get_collector [(KLogs, empty_config\<lparr>selector := [''app=a'', ''b'']\<rparr>)] = Some c \<and>
    get_name [(KLogs, empty_config\<lparr>selector := [''app=a'', ''b'']\<rparr>)] = get_collector_name c"
  by (rule names_agree) (simp_all add: name_order_def)

end
