(* ===== verification/Collection.thy ===== *)
theory Collection
  imports Access_Reviews "HOL-Library.AList" "HOL-Library.Multiset"
begin

text \<open>
  Running collectors: \<^verbatim>\<open>runCollectors\<close> of \<^verbatim>\<open>pkg/supportbundle/collect.go\<close> and \<^verbatim>\<open>CollectWithContext\<close> of
  \<^verbatim>\<open>pkg/preflight/collect.go\<close>. The answers of the API server, what a collector returns and the encoding of an
  error file are parameters, collected in \<open>cluster_env\<close>; so is the order in which Go ranges over the map from
  collector types to collectors, which is not specified: \<open>range_order\<close> lists all kinds. A file is \<open>None\<close> when
  its bytes are on disk.
\<close>

type_synonym collected = "(string \<times> string option) list"

datatype message = MText string | MError go_error | MStatus string string nat nat

record cluster_env =
  allowed :: "review_spec \<Rightarrow> bool res"
  override_namespace :: string
  collect_data :: "collector \<Rightarrow> collected \<times> go_error option"
  error_json :: "collector \<Rightarrow> go_error \<Rightarrow> string option"
  marshal_spec :: "collect_spec \<Rightarrow> string res"
  range_order :: "kind list"

definition insufficient_permissions :: go_error where
  "insufficient_permissions = Err ''insufficient permissions to run all collectors''"

section \<open>From the specs to the collectors to run\<close>

definition prepare_specs :: "cluster_env \<Rightarrow> collect_spec list \<Rightarrow> collect_spec list" where
  "prepare_specs env specs =
     ensure_cluster_resources_first (dedup_collectors (marshal_spec env)
       (ensure_collector_in_list (ensure_collector_in_list specs [(KClusterInfo, empty_config)])
          [(KClusterResources, empty_config)]))"

fun build_collectors :: "cluster_env \<Rightarrow> collect_spec list \<Rightarrow> collector list res" where
  "build_collectors env [] = Ok []"
| "build_collectors env (s # ss) =
     (case get_collector s of
        None \<Rightarrow> build_collectors env ss
      | Some c \<Rightarrow>
          bind_res (wrap_res ''failed to check RBAC for collectors'' (check_rbac (allowed env) (override_namespace env) s c)) (\<lambda>c'.
            bind_res (build_collectors env ss) (\<lambda>cs. Ok (c' # cs))))"

text \<open>The map from types to collectors, as the list of its values in the order of the range.\<close>

definition group_by_type :: "kind list \<Rightarrow> collector list \<Rightarrow> collector list list" where
  "group_by_type order cs = filter (\<lambda>g. g \<noteq> []) (map (\<lambda>k. filter (\<lambda>c. ckind c = k) cs) order)"

definition merge_group :: "collector list \<Rightarrow> collector list" where
  "merge_group g =
     (case g of
        [] \<Rightarrow> []
      | c # _ \<Rightarrow> if ckind c = KClusterResources then merge_cluster_resources c g else g)"

definition merged_collectors :: "collector list list \<Rightarrow> collector list" where
  "merged_collectors gs = concat (map merge_group gs)"

definition group_forbidden :: "collector list \<Rightarrow> bool" where
  "group_forbidden g = list_ex (\<lambda>c. rbac_errors c \<noteq> []) g"

text \<open>The flag of the support bundle is reset for every type, that of preflights is not.\<close>

fun bundle_forbidden :: "bool \<Rightarrow> collector list list \<Rightarrow> bool" where
  "bundle_forbidden f [] = f"
| "bundle_forbidden f (g # gs) = bundle_forbidden (group_forbidden g) gs"

fun preflight_forbidden :: "bool \<Rightarrow> collector list list \<Rightarrow> bool" where
  "preflight_forbidden f [] = f"
| "preflight_forbidden f (g # gs) = preflight_forbidden (f \<or> group_forbidden g) gs"

definition rbac_messages :: "collector list list \<Rightarrow> message list" where
  "rbac_messages gs = concat (map (\<lambda>g. concat (map (\<lambda>c. map MError (rbac_errors c)) g)) gs)"

section \<open>The loops\<close>

definition is_left_out :: "collector \<Rightarrow> bool" where
  "is_left_out c \<longleftrightarrow> collect_is_excluded (exclude (cconfig c)) = Ok True"

definition lacks_permission :: "collector \<Rightarrow> bool" where
  "lacks_permission c \<longleftrightarrow> rbac_errors c \<noteq> [] \<and> ckind c \<noteq> KClusterResources"

definition add_result :: "collected \<Rightarrow> collected \<Rightarrow> collected" where
  "add_result d other = foldl (\<lambda>m (k, v). AList.update k v m) d other"

definition error_path :: "collector \<Rightarrow> string" where
  "error_path c = ''collector-errors/'' @ get_collector_name c @ ''-error.json''"

definition save_error :: "cluster_env \<Rightarrow> collector \<Rightarrow> go_error option \<Rightarrow> collected \<Rightarrow> collected" where
  "save_error env c err d =
     (case err of
        None \<Rightarrow> d
      | Some e \<Rightarrow> (case error_json env c e of None \<Rightarrow> d | Some j \<Rightarrow> AList.update (error_path c) (Some j) d))"

definition run_failed :: "collector \<Rightarrow> go_error option \<Rightarrow> message list" where
  "run_failed c err =
     (case err of None \<Rightarrow> [] | Some e \<Rightarrow> [MError (Wrap (''failed to run collector: '' @ get_collector_name c) e)])"

fun bundle_loop :: "cluster_env \<Rightarrow> collector list \<Rightarrow> collected \<Rightarrow> message list \<Rightarrow> collected \<times> message list" where
  "bundle_loop env [] d ms = (d, ms)"
| "bundle_loop env (c # cs) d ms =
     (if is_left_out c
      then bundle_loop env cs d (ms @ [MText (''excluding '' @ quoted (get_collector_name c) @ '' collector'')])
      else if lacks_permission c
      then bundle_loop env cs d
             (ms @ [MText (''skipping collector '' @ quoted (get_collector_name c) @ '' with insufficient RBAC permissions'')])
      else case collect_data env c of
             (result, err) \<Rightarrow>
               bundle_loop env cs (add_result (save_error env c err d) result)
                 (ms @ [MText (get_collector_name c)] @ run_failed c err))"

text \<open>A preflight drops what a collector that fails has collected.\<close>

fun preflight_loop ::
  "cluster_env \<Rightarrow> nat \<Rightarrow> nat \<Rightarrow> collector list \<Rightarrow> collected \<Rightarrow> message list \<Rightarrow> collected \<times> message list" where
  "preflight_loop env i n [] d ms = (d, ms)"
| "preflight_loop env i n (c # cs) d ms =
     (let t = get_collector_name c in
      if is_left_out c then preflight_loop env (i + 1) n cs d ms
      else if lacks_permission c
      then preflight_loop env (i + 1) n cs d
             (ms @ [MText (''skipping collector '' @ t @ '' with insufficient RBAC permissions''),
                    MStatus t ''skipped'' (i + 1) n])
      else case collect_data env c of
             (result, None) \<Rightarrow>
               preflight_loop env (i + 1) n cs (add_result d result)
                 (ms @ [MStatus t ''running'' i n, MStatus t ''completed'' (i + 1) n])
           | (result, Some e) \<Rightarrow>
               preflight_loop env (i + 1) n cs d
                 (ms @ [MStatus t ''running'' i n] @ run_failed c (Some e) @ [MStatus t ''failed'' (i + 1) n]))"

definition execution_list :: "cluster_env \<Rightarrow> collector list \<Rightarrow> collector list" where
  "execution_list env cs = ensure_copy_last (merged_collectors (group_by_type (range_order env) cs))"

definition run_collectors ::
  "cluster_env \<Rightarrow> bool \<Rightarrow> collect_spec list \<Rightarrow> (collected \<times> message list) res" where
  "run_collectors env without_permissions specs =
     bind_res (build_collectors env (prepare_specs env specs)) (\<lambda>cs.
       let gs = group_by_type (range_order env) cs in
       if bundle_forbidden False gs \<and> \<not> without_permissions then Fail insufficient_permissions
       else Ok (bundle_loop env (ensure_copy_last (merged_collectors gs)) [] (rbac_messages gs)))"

definition preflight_collect ::
  "cluster_env \<Rightarrow> bool \<Rightarrow> collect_spec list \<Rightarrow> (collected \<times> message list) res" where
  "preflight_collect env ignore_permissions specs =
     bind_res (build_collectors env (prepare_specs env specs)) (\<lambda>cs.
       let gs = group_by_type (range_order env) cs; all = ensure_copy_last (merged_collectors gs) in
       if preflight_forbidden False gs \<and> \<not> ignore_permissions then Fail insufficient_permissions
       else Ok (preflight_loop env 0 (length all) all [] (rbac_messages gs)))"

section \<open>The contract of the loops\<close>

text \<open>A loop leaves out some collectors and adds the effect of each other one to the data, in order.\<close>

locale collector_loop =
  fixes effect :: "collector \<Rightarrow> collected \<Rightarrow> collected"
    and loop_data :: "collector list \<Rightarrow> collected \<Rightarrow> collected"
  assumes loop_Nil: "loop_data [] d = d"
    and loop_Cons: "loop_data (c # cs) d = loop_data cs (if is_left_out c \<or> lacks_permission c then d else effect c d)"
begin

definition runs :: "collector list \<Rightarrow> collector list" where
  "runs cs = filter (\<lambda>c. \<not> is_left_out c \<and> \<not> lacks_permission c) cs"

lemma loop_fold: "loop_data cs d = foldl (\<lambda>m c. effect c m) d (runs cs)"
  by (induction cs arbitrary: d) (simp_all add: loop_Nil loop_Cons runs_def)

lemma loop_append: "loop_data (xs @ ys) d = loop_data ys (loop_data xs d)"
  by (simp add: loop_fold runs_def)

text \<open>A file no collector that runs touches is what it was.\<close>

lemma loop_frame:
  assumes "\<forall>c\<in>set cs. \<not> is_left_out c \<and> \<not> lacks_permission c \<longrightarrow> (\<forall>m. map_of (effect c m) f = map_of m f)"
  shows "map_of (loop_data cs d) f = map_of d f"
  using assms by (induction cs arbitrary: d) (auto simp: loop_Nil loop_Cons)

lemma loop_skips:
  assumes "\<forall>c\<in>set cs. is_left_out c \<or> lacks_permission c"
  shows "loop_data cs d = d"
  using assms by (induction cs) (auto simp: loop_Nil loop_Cons)

end

definition bundle_effect :: "cluster_env \<Rightarrow> collector \<Rightarrow> collected \<Rightarrow> collected" where
  "bundle_effect env c d =
     (case collect_data env c of (result, err) \<Rightarrow> add_result (save_error env c err d) result)"

definition preflight_effect :: "cluster_env \<Rightarrow> collector \<Rightarrow> collected \<Rightarrow> collected" where
  "preflight_effect env c d =
     (case collect_data env c of (result, None) \<Rightarrow> add_result d result | (_, Some _) \<Rightarrow> d)"

lemma bundle_loop_data: "fst (bundle_loop env cs d ms) = fst (bundle_loop env cs d ms')"
  by (induction cs arbitrary: d ms ms') (auto split: prod.splits)

lemma preflight_loop_data: "fst (preflight_loop env i n cs d ms) = fst (preflight_loop env i' n' cs d ms')"
proof (induction cs arbitrary: d ms ms' i i' n n')
  case (Cons c cs)
  show ?case
    by (cases "collect_data env c"; cases "snd (collect_data env c)")
      (auto simp: Let_def intro: Cons.IH)
qed simp

interpretation sb_loop: collector_loop "bundle_effect env" "\<lambda>cs d. fst (bundle_loop env cs d [])" for env
proof
  show "fst (bundle_loop env (c # cs) d []) =
      fst (bundle_loop env cs (if is_left_out c \<or> lacks_permission c then d else bundle_effect env c d) [])" for c cs d
    by (auto simp: bundle_effect_def split: prod.splits intro: bundle_loop_data)
qed simp

interpretation pf_loop: collector_loop "preflight_effect env" "\<lambda>cs d. fst (preflight_loop env 0 0 cs d [])" for env
proof
  show "fst (preflight_loop env 0 0 (c # cs) d []) =
      fst (preflight_loop env 0 0 cs (if is_left_out c \<or> lacks_permission c then d else preflight_effect env c d) [])" for c cs d
    by (auto simp: preflight_effect_def Let_def split: prod.splits option.splits intro: preflight_loop_data)
qed simp

section \<open>Groups\<close>

text \<open>A range over the map visits every type once.\<close>

definition full_range :: "kind list \<Rightarrow> bool" where
  "full_range order \<longleftrightarrow> distinct order \<and> set order = UNIV"

lemma mset_parts: "mset (filter P xs) + mset (filter (\<lambda>x. \<not> P x) xs) = mset xs"
  using multiset_partition [of "mset xs" P] by (simp add: mset_filter)

lemma filter_Cons_holds: "filter P xs = y # ys \<Longrightarrow> P y"
  by (metis (no_types, lifting) list.set_intros(1) mem_Collect_eq set_filter)

lemma mset_by_kind:
  assumes "distinct order" and "\<forall>c\<in>set cs. ckind c \<in> set order"
  shows "mset (concat (map (\<lambda>k. filter (\<lambda>c. ckind c = k) cs) order)) = mset cs"
  using assms
proof (induction order arbitrary: cs)
  case (Cons k order)
  let ?rest = "filter (\<lambda>c. ckind c \<noteq> k) cs"
  have same: "filter (\<lambda>c. ckind c = k') ?rest = filter (\<lambda>c. ckind c = k') cs" if "k' \<in> set order" for k'
    using that Cons.prems(1) by (auto intro: filter_cong)
  have eq: "map (\<lambda>k'. filter (\<lambda>c. ckind c = k') ?rest) order = map (\<lambda>k'. filter (\<lambda>c. ckind c = k') cs) order"
    by (rule map_cong [OF refl same])
  have "mset (concat (map (\<lambda>k'. filter (\<lambda>c. ckind c = k') ?rest) order)) = mset ?rest"
    by (rule Cons.IH) (use Cons.prems in auto)
  then show ?case unfolding eq using mset_parts [of "\<lambda>c. ckind c = k" cs] by simp
qed simp

lemma concat_nonempty: "concat (filter (\<lambda>g. g \<noteq> []) gs) = concat gs"
  by (induction gs) auto

lemma mset_groups: "full_range order \<Longrightarrow> mset (concat (group_by_type order cs)) = mset cs"
  by (simp add: group_by_type_def concat_nonempty mset_by_kind full_range_def)

lemma set_groups: "full_range order \<Longrightarrow> set (concat (group_by_type order cs)) = set cs"
  using mset_groups mset_eq_setD by blast

lemma preflight_forbidden_iff: "preflight_forbidden f gs \<longleftrightarrow> f \<or> (\<exists>c\<in>set (concat gs). rbac_errors c \<noteq> [])"
  by (induction gs arbitrary: f) (auto simp: group_forbidden_def list_ex_iff)

lemma preflight_refused:
  assumes "build_collectors env (prepare_specs env specs) = Ok cs" and "full_range (range_order env)"
  shows "preflight_collect env ignore_permissions specs = Fail insufficient_permissions \<longleftrightarrow>
    \<not> ignore_permissions \<and> (\<exists>c\<in>set cs. rbac_errors c \<noteq> [])"
proof -
  have "preflight_forbidden False (group_by_type (range_order env) cs) \<longleftrightarrow> (\<exists>c\<in>set cs. rbac_errors c \<noteq> [])"
    unfolding preflight_forbidden_iff set_groups [OF assms(2)] by simp
  then show ?thesis by (simp add: preflight_collect_def assms(1) Let_def)
qed

lemma bundle_forbidden_last: "bundle_forbidden f gs = (if gs = [] then f else group_forbidden (last gs))"
  by (induction gs arbitrary: f) auto

text \<open>The types that have a collector, in the order of the range.\<close>

definition present_kinds :: "kind list \<Rightarrow> collector list \<Rightarrow> kind list" where
  "present_kinds order cs = filter (\<lambda>k. \<exists>c\<in>set cs. ckind c = k) order"

lemma group_by_type_present: "group_by_type order cs = map (\<lambda>k. filter (\<lambda>c. ckind c = k) cs) (present_kinds order cs)"
  by (induction order) (auto simp: group_by_type_def present_kinds_def filter_empty_conv)

lemma present_kinds_Nil: "full_range order \<Longrightarrow> present_kinds order cs = [] \<longleftrightarrow> cs = []"
  by (cases cs) (auto simp: present_kinds_def filter_empty_conv full_range_def)

lemma bundle_forbidden_iff:
  assumes "full_range order"
  shows "bundle_forbidden False (group_by_type order cs) \<longleftrightarrow>
    (\<exists>c\<in>set cs. ckind c = last (present_kinds order cs) \<and> rbac_errors c \<noteq> [])"
  using present_kinds_Nil [OF assms, of cs]
  by (auto simp: bundle_forbidden_last group_by_type_present last_map group_forbidden_def list_ex_iff)

section \<open>The order of execution\<close>

lemma merge_group_filter:
  "merge_group (filter (\<lambda>c. ckind c = k) cs) =
     (if k = KClusterResources then merge_group (filter (\<lambda>c. ckind c = KClusterResources) cs) else filter (\<lambda>c. ckind c = k) cs)"
proof (cases "k = KClusterResources")
  case False
  show ?thesis
  proof (cases "filter (\<lambda>c. ckind c = k) cs")
    case (Cons c rest)
    then have "ckind c = k" by (rule filter_Cons_holds)
    with Cons False show ?thesis by (simp add: merge_group_def)
  qed (use False in \<open>simp add: merge_group_def\<close>)
qed simp

lemma merge_group_kinds:
  "c \<in> set (merge_group (filter (\<lambda>c. ckind c = KClusterResources) cs)) \<Longrightarrow> ckind c = KClusterResources"
proof -
  assume c: "c \<in> set (merge_group (filter (\<lambda>c. ckind c = KClusterResources) cs))"
  show ?thesis
  proof (cases "filter (\<lambda>c. ckind c = KClusterResources) cs")
    case (Cons d rest)
    then have "ckind d = KClusterResources" by (rule filter_Cons_holds)
    with c Cons show ?thesis by (auto simp: merge_group_def merge_cluster_resources_def split: prod.splits bool.splits)
  qed (use c in \<open>simp add: merge_group_def\<close>)
qed

lemma merged_by_order:
  "merged_collectors (group_by_type order cs) = concat (map (\<lambda>k. merge_group (filter (\<lambda>c. ckind c = k) cs)) order)"
proof -
  have "concat (map merge_group (filter (\<lambda>g. g \<noteq> []) gs)) = concat (map merge_group gs)" for gs
    by (induction gs) (auto simp: merge_group_def)
  then show ?thesis by (simp add: merged_collectors_def group_by_type_def comp_def)
qed

definition cluster_part :: "collector list \<Rightarrow> collector list" where
  "cluster_part cs = merge_group (filter (\<lambda>c. ckind c = KClusterResources) cs)"

lemma mset_merged:
  assumes "distinct order" and "\<forall>c\<in>set cs. ckind c \<in> set order"
  shows "mset (concat (map (\<lambda>k. merge_group (filter (\<lambda>c. ckind c = k) cs)) order)) =
    mset (filter (\<lambda>c. ckind c \<noteq> KClusterResources) cs) + (if KClusterResources \<in> set order then mset (cluster_part cs) else {#})"
proof -
  let ?others = "filter (\<lambda>c. ckind c \<noteq> KClusterResources) cs"
  have "mset (concat (map (\<lambda>k. merge_group (filter (\<lambda>c. ckind c = k) cs)) ks)) =
      mset (concat (map (\<lambda>k. filter (\<lambda>c. ckind c = k) ?others) ks)) + (if KClusterResources \<in> set ks then mset (cluster_part cs) else {#})"
    if "distinct ks" for ks
    using that
  proof (induction ks)
    case (Cons k ks)
    have "merge_group (filter (\<lambda>c. ckind c = k) cs) = (if k = KClusterResources then cluster_part cs else filter (\<lambda>c. ckind c = k) cs)"
      unfolding cluster_part_def by (rule merge_group_filter)
    moreover have "filter (\<lambda>c. ckind c = k) ?others = (if k = KClusterResources then [] else filter (\<lambda>c. ckind c = k) cs)"
      by (auto simp: filter_empty_conv intro: filter_cong)
    ultimately show ?case using Cons by auto
  qed simp
  note this [OF assms(1)]
  moreover have "mset (concat (map (\<lambda>k. filter (\<lambda>c. ckind c = k) ?others) order)) = mset ?others"
    by (rule mset_by_kind [OF assms(1)]) (use assms(2) in auto)
  ultimately show ?thesis by (simp only:)
qed

lemma mset_execution_list:
  assumes "full_range (range_order env)"
  shows "mset (execution_list env cs) = mset (filter (\<lambda>c. ckind c \<noteq> KClusterResources) cs) + mset (cluster_part cs)"
proof -
  have "mset (execution_list env cs) = mset (merged_collectors (group_by_type (range_order env) cs))"
    using mset_parts [of "\<lambda>c. ckind c \<noteq> KCopy"] by (simp add: execution_list_def ensure_copy_last_def)
  then show ?thesis using assms mset_merged [of "range_order env" cs] by (simp add: merged_by_order full_range_def)
qed

section \<open>The data as a map\<close>

lemma add_result_map: "map_of (add_result d other) = map_of d ++ map_of (rev other)"
  by (induction other arbitrary: d rule: rev_induct)
    (auto simp: add_result_def update_conv' fun_eq_iff map_add_def split: option.splits)

definition run_files :: "cluster_env \<Rightarrow> collector \<Rightarrow> string \<rightharpoonup> string option" where
  "run_files env c =
     (case collect_data env c of (result, err) \<Rightarrow> map_of (save_error env c err []) ++ map_of (rev result))"

lemma save_error_map: "map_of (save_error env c err d) = map_of d ++ map_of (save_error env c err [])"
  by (auto simp: save_error_def update_conv' fun_eq_iff map_add_def split: option.splits)

lemma bundle_effect_map: "map_of (bundle_effect env c d) = map_of d ++ run_files env c"
  by (auto simp: bundle_effect_def run_files_def add_result_map save_error_map [of env c _ d] split: prod.splits)

lemma fold_map_add: "map_of (foldl (\<lambda>m c. bundle_effect env c m) d cs) = fold (\<lambda>c m. m ++ run_files env c) cs (map_of d)"
  by (induction cs arbitrary: d) (simp_all add: bundle_effect_map)

lemma map_add_disjoint_commute: "dom b \<inter> dom c = {} \<Longrightarrow> (m ++ b) ++ c = (m ++ c) ++ b"
  by (metis map_add_assoc map_add_comm)

lemma fold_files_permuted:
  assumes "mset cs = mset cs'"
    and "\<And>c c'. c \<in> set cs \<Longrightarrow> c' \<in> set cs \<Longrightarrow> c \<noteq> c' \<Longrightarrow> dom (run_files env c) \<inter> dom (run_files env c') = {}"
  shows "fold (\<lambda>c m. m ++ run_files env c) cs = fold (\<lambda>c m. m ++ run_files env c) cs'"
proof (rule fold_multiset_equiv [OF _ assms(1)])
  fix c c'
  assume "c \<in> set cs" "c' \<in> set cs"
  then show "(\<lambda>m. m ++ run_files env c) \<circ> (\<lambda>m. m ++ run_files env c') = (\<lambda>m. m ++ run_files env c') \<circ> (\<lambda>m. m ++ run_files env c)"
  proof (cases "c = c'")
    case False
    with assms(2) \<open>c \<in> set cs\<close> \<open>c' \<in> set cs\<close> have "dom (run_files env c') \<inter> dom (run_files env c) = {}" by blast
    then show ?thesis unfolding comp_def by - (rule ext, rule map_add_disjoint_commute, assumption)
  qed simp
qed

text \<open>When the API server answers every review, the collectors are built with one error per denied review.\<close>

lemma build_collectors_total:
  assumes "\<And>r. allowed env r = Ok (ok r)"
  shows "\<exists>cs. build_collectors env ss = Ok cs \<and>
    ((\<exists>c\<in>set cs. rbac_errors c \<noteq> []) \<longleftrightarrow>
     (\<exists>s\<in>set ss. \<exists>c. get_collector s = Some c \<and> collect_is_excluded (exclude (cconfig c)) = Ok False \<and>
        (\<exists>r\<in>set (access_review_specs (override_namespace env) s). \<not> ok r)))"
proof (induction ss)
  case (Cons s ss)
  then obtain cs where cs: "build_collectors env ss = Ok cs" "(\<exists>c\<in>set cs. rbac_errors c \<noteq> []) \<longleftrightarrow>
     (\<exists>s\<in>set ss. \<exists>c. get_collector s = Some c \<and> collect_is_excluded (exclude (cconfig c)) = Ok False \<and>
        (\<exists>r\<in>set (access_review_specs (override_namespace env) s). \<not> ok r))" by blast
  show ?case
  proof (cases "get_collector s")
    case (Some c)
    from Some have "rbac_errors c = []" by (auto simp: get_collector_kind)
    with check_rbac_errors [where ask = "allowed env" and ok = ok, OF assms, where o_ns = "override_namespace env" and s = s and c = c] obtain c' where
      "check_rbac (allowed env) (override_namespace env) s c = Ok c'" and
      "rbac_errors c' \<noteq> [] \<longleftrightarrow> collect_is_excluded (exclude (cconfig c)) = Ok False \<and>
        (\<exists>r\<in>set (access_review_specs (override_namespace env) s). \<not> ok r)"
      by (auto simp: filter_empty_conv)
    with Some cs show ?thesis by (intro exI [of _ "c' # cs"]) simp
  qed (use cs in simp)
qed simp

section \<open>An example\<close>

text \<open>Logs may not be read; every collector writes a file of its name.\<close>

definition example_env :: "kind list \<Rightarrow> cluster_env" where
  "example_env order =
     \<lparr>allowed = (\<lambda>r. Ok (rv_subresource r \<noteq> ''log'')), override_namespace = [],
      collect_data = (\<lambda>c. ([(get_collector_name c, None)], None)), error_json = (\<lambda>_ _. None),
      marshal_spec = (\<lambda>s. Ok (kind_label (fst (hd s)))), range_order = order\<rparr>"

definition logs_forbidden :: go_error where
  "logs_forbidden = rbac_error ''logs'' (review_of ''default'' ''get'' [] ''pods'' ''log'' [])"

definition example_specs :: "collect_spec list" where
  "example_specs = [[(KLogs, empty_config)], [(KSecret, empty_config)]]"

definition example_collectors :: "collector list" where
  "example_collectors =
     [\<lparr>ckind = KClusterResources, cconfig = empty_config, rbac_errors = []\<rparr>,
      \<lparr>ckind = KLogs, cconfig = empty_config, rbac_errors = [logs_forbidden]\<rparr>,
      \<lparr>ckind = KSecret, cconfig = empty_config, rbac_errors = []\<rparr>,
      \<lparr>ckind = KClusterInfo, cconfig = empty_config, rbac_errors = []\<rparr>]"

lemma full_range_switch: "full_range switch_order" "full_range (rev switch_order)"
proof -
  have "k \<in> set switch_order" for k by (cases k) (simp_all add: switch_order_def)
  moreover have "distinct switch_order" by (simp add: switch_order_def)
  ultimately show "full_range switch_order" "full_range (rev switch_order)" by (auto simp: full_range_def)
qed

lemma example_prepared:
  "prepare_specs (example_env order) example_specs =
    [[(KClusterResources, empty_config)], [(KLogs, empty_config)], [(KSecret, empty_config)], [(KClusterInfo, empty_config)]]"
  by (simp add: prepare_specs_def example_specs_def ensure_collector_in_list_def dedup_collectors_def
      ensure_cluster_resources_first_def example_env_def)

lemma example_built: "build_collectors (example_env order) (prepare_specs (example_env order) example_specs) = Ok example_collectors"
  unfolding example_prepared
  by (simp add: example_collectors_def get_collector_def switch_order_def check_rbac_def collect_is_excluded_def
      empty_config_def example_env_def access_review_specs_def review_order_def review_of_def logs_forbidden_def
      get_collector_name_def unnamed_kinds_def selector_kinds_def pick_namespace_or_default_def)

lemma example_range [simp]: "range_order (example_env order) = order"
  by (simp add: example_env_def)

lemma example_cluster_part:
  "cluster_part example_collectors = [\<lparr>ckind = KClusterResources, cconfig = empty_config, rbac_errors = []\<rparr>]"
  by (simp add: example_collectors_def cluster_part_def merge_group_def merge_cluster_resources_def empty_config_def)

section \<open>Properties\<close>

text \<open>
  A preflight is refused exactly when a collector lacks a permission: with the collectors built, and
  whatever the order of the range, it fails for permissions if and only if one of them has an RBAC error and
  errors are not ignored.
\<close>

theorem preflight_permission_check:
  assumes "build_collectors env (prepare_specs env specs) = Ok cs" and "full_range (range_order env)"
  shows "preflight_collect env ignore_permissions specs = Fail insufficient_permissions \<longleftrightarrow>
    \<not> ignore_permissions \<and> (\<exists>c\<in>set cs. rbac_errors c \<noteq> [])"
  using assms by (rule preflight_refused)

theorem preflight_permission_check_witness:
  "preflight_collect (example_env switch_order) False example_specs = Fail insufficient_permissions"
  using preflight_permission_check [OF example_built, of switch_order False] full_range_switch
  by (simp add: example_collectors_def)

text \<open>
  C7. The refusal of a preflight in terms of its spec: when the API server answers every review, a preflight is
  refused exactly when errors are not ignored and some entry, that is not excluded, asks for a permission that is
  denied.
\<close>

theorem preflight_refused_iff_denied:
  assumes "\<And>r. allowed env r = Ok (ok r)" and "full_range (range_order env)"
  shows "preflight_collect env ignore_permissions specs = Fail insufficient_permissions \<longleftrightarrow>
    \<not> ignore_permissions \<and>
    (\<exists>s\<in>set (prepare_specs env specs). \<exists>c. get_collector s = Some c \<and>
       collect_is_excluded (exclude (cconfig c)) = Ok False \<and>
       (\<exists>r\<in>set (access_review_specs (override_namespace env) s). \<not> ok r))"
proof -
  from build_collectors_total [OF assms(1), where ss = "prepare_specs env specs"]
  obtain cs where "build_collectors env (prepare_specs env specs) = Ok cs" and
    errs: "(\<exists>c\<in>set cs. rbac_errors c \<noteq> []) \<longleftrightarrow>
     (\<exists>s\<in>set (prepare_specs env specs). \<exists>c. get_collector s = Some c \<and>
        collect_is_excluded (exclude (cconfig c)) = Ok False \<and>
        (\<exists>r\<in>set (access_review_specs (override_namespace env) s). \<not> ok r))" by blast
  then show ?thesis using preflight_refused [OF _ assms(2)] by blast
qed

theorem preflight_refused_iff_denied_witness:
  "preflight_collect (example_env switch_order) False example_specs = Fail insufficient_permissions"
proof -
  have "[(KLogs, empty_config)] \<in> set (prepare_specs (example_env switch_order) example_specs)"
    by (simp add: example_prepared)
  moreover have "get_collector [(KLogs, empty_config)] = Some \<lparr>ckind = KLogs, cconfig = empty_config, rbac_errors = []\<rparr>"
    by (simp add: get_collector_def switch_order_def)
  moreover have "collect_is_excluded (exclude empty_config) = Ok False"
    by (simp add: collect_is_excluded_def empty_config_def)
  moreover have "review_of ''default'' ''get'' [] ''pods'' ''log'' [] \<in>
      set (access_review_specs (override_namespace (example_env switch_order)) [(KLogs, empty_config)])"
    by (simp add: access_review_specs_def review_order_def pick_namespace_or_default_def empty_config_def example_env_def)
  moreover have "rv_subresource (review_of ''default'' ''get'' [] ''pods'' ''log'' []) = ''log''" by (simp add: review_of_def)
  ultimately show ?thesis
    using preflight_refused_iff_denied [of "example_env switch_order" "\<lambda>r. rv_subresource r \<noteq> ''log''" False example_specs]
      full_range_switch by (fastforce simp: example_env_def)
qed

text \<open>
  A support bundle looks at one type of collector only: it is refused exactly when a collector of the type
  that the range over the map visits last has an RBAC error, whatever the other collectors lack.
\<close>

theorem bundle_permission_check:
  assumes "build_collectors env (prepare_specs env specs) = Ok cs" and "full_range (range_order env)"
  shows "run_collectors env without_permissions specs = Fail insufficient_permissions \<longleftrightarrow>
    \<not> without_permissions \<and>
    (\<exists>c\<in>set cs. ckind c = last (present_kinds (range_order env) cs) \<and> rbac_errors c \<noteq> [])"
  using bundle_forbidden_iff [OF assms(2), of cs] by (simp add: run_collectors_def assms(1) Let_def)

theorem bundle_permission_check_witness:
  "run_collectors (example_env (rev switch_order)) False example_specs \<noteq> Fail insufficient_permissions \<and>
   run_collectors (example_env switch_order) False example_specs = Fail insufficient_permissions"
proof
  have "last (present_kinds switch_order example_collectors) = KLogs"
    by (simp add: present_kinds_def switch_order_def example_collectors_def)
  then show "run_collectors (example_env switch_order) False example_specs = Fail insufficient_permissions"
    using bundle_permission_check [OF example_built, of switch_order False] full_range_switch
    by (simp add: example_collectors_def)
  have "last (present_kinds (rev switch_order) example_collectors) = KClusterInfo"
    by (simp add: present_kinds_def switch_order_def example_collectors_def)
  then show "run_collectors (example_env (rev switch_order)) False example_specs \<noteq> Fail insufficient_permissions"
    using bundle_permission_check [OF example_built, of "rev switch_order" False] full_range_switch
    by (simp add: example_collectors_def)
qed

text \<open>
  The same collectors run in every order: whatever the range, those executed are the collectors of the
  specs with the collectors of cluster resources merged into one, and the copy collectors come last.
\<close>

theorem execution_list_complete:
  assumes "full_range (range_order env)"
  shows "mset (execution_list env cs) = mset (filter (\<lambda>c. ckind c \<noteq> KClusterResources) cs) + mset (cluster_part cs) \<and>
    (\<exists>xs ys. execution_list env cs = xs @ ys \<and> (\<forall>c\<in>set xs. ckind c \<noteq> KCopy) \<and> (\<forall>c\<in>set ys. ckind c = KCopy))"
  using mset_execution_list [OF assms, of cs]
  by (intro conjI, assumption) (force simp: execution_list_def ensure_copy_last_def)

theorem execution_list_complete_witness:
  "length (execution_list (example_env switch_order) example_collectors) = 4"
proof -
  have "mset (execution_list (example_env switch_order) example_collectors) =
      mset (filter (\<lambda>c. ckind c \<noteq> KClusterResources) example_collectors) + mset (cluster_part example_collectors)"
    using execution_list_complete [of "example_env switch_order" example_collectors] full_range_switch by simp
  then have "size (mset (execution_list (example_env switch_order) example_collectors)) =
      size (mset (filter (\<lambda>c. ckind c \<noteq> KClusterResources) example_collectors) + mset (cluster_part example_collectors))"
    by (rule arg_cong)
  then show ?thesis
    by (simp add: example_collectors_def cluster_part_def merge_group_def merge_cluster_resources_def empty_config_def)
qed

text \<open>
  Cluster resources need not come first: the specs are ordered so that they are collected before other
  collectors start pods, but when the range over the map visits their type last, every collector other than a
  copy runs before them.
\<close>

theorem cluster_resources_run_last:
  assumes "range_order env = ks @ [KClusterResources]" and "full_range (range_order env)"
  shows "\<exists>xs ys. execution_list env cs = xs @ cluster_part cs @ ys \<and>
    mset xs = mset (filter (\<lambda>c. ckind c \<noteq> KClusterResources \<and> ckind c \<noteq> KCopy) cs) \<and> (\<forall>c\<in>set ys. ckind c = KCopy)"
proof -
  let ?front = "concat (map (\<lambda>k. merge_group (filter (\<lambda>c. ckind c = k) cs)) ks)"
  let ?g = "merged_collectors (group_by_type (range_order env) cs)"
  have g: "?g = ?front @ cluster_part cs" by (simp add: merged_by_order assms(1) cluster_part_def)
  have "KClusterResources \<notin> set ks" using assms by (simp add: full_range_def)
  have front: "mset ?front + mset (cluster_part cs) = mset (filter (\<lambda>c. ckind c \<noteq> KClusterResources) cs) + mset (cluster_part cs)"
    using mset_merged [of "range_order env" cs] assms(2) g by (simp add: merged_by_order full_range_def del: mset_concat)
  then have "mset ?front = mset (filter (\<lambda>c. ckind c \<noteq> KClusterResources) cs)" by simp
  then have "mset (filter (\<lambda>c. ckind c \<noteq> KCopy) ?front) = mset (filter (\<lambda>c. ckind c \<noteq> KCopy) (filter (\<lambda>c. ckind c \<noteq> KClusterResources) cs))"
    by (simp only: mset_filter)
  then have "mset (filter (\<lambda>c. ckind c \<noteq> KCopy) ?front) = mset (filter (\<lambda>c. ckind c \<noteq> KClusterResources \<and> ckind c \<noteq> KCopy) cs)"
    by (simp only: filter_filter)
  moreover have "\<forall>c\<in>set (cluster_part cs). ckind c = KClusterResources"
    using merge_group_kinds unfolding cluster_part_def by blast
  then have "filter (\<lambda>c. ckind c \<noteq> KCopy) (cluster_part cs) = cluster_part cs" by simp
  ultimately have "execution_list env cs = filter (\<lambda>c. ckind c \<noteq> KCopy) ?front @ cluster_part cs @ filter (\<lambda>c. ckind c = KCopy) ?g \<and>
      mset (filter (\<lambda>c. ckind c \<noteq> KCopy) ?front) = mset (filter (\<lambda>c. ckind c \<noteq> KClusterResources \<and> ckind c \<noteq> KCopy) cs)"
    unfolding execution_list_def ensure_copy_last_def g filter_append by simp
  moreover have "\<forall>c\<in>set (filter (\<lambda>c. ckind c = KCopy) ?g). ckind c = KCopy" by simp
  ultimately show ?thesis by blast
qed

theorem cluster_resources_run_last_witness:
  "\<exists>xs ys. execution_list (example_env (removeAll KClusterResources switch_order @ [KClusterResources])) example_collectors =
     xs @ cluster_part example_collectors @ ys \<and> length xs = 3"
proof -
  let ?order = "removeAll KClusterResources switch_order @ [KClusterResources]"
  have "full_range (range_order (example_env ?order))"
    using full_range_switch(1) by (auto simp: full_range_def distinct_removeAll)
  from cluster_resources_run_last [OF example_range this, of example_collectors] obtain xs ys where
    xs: "execution_list (example_env ?order) example_collectors = xs @ cluster_part example_collectors @ ys"
    "mset xs = mset (filter (\<lambda>c. ckind c \<noteq> KClusterResources \<and> ckind c \<noteq> KCopy) example_collectors)" by blast
  from xs(2) have "size (mset xs) = size (mset (filter (\<lambda>c. ckind c \<noteq> KClusterResources \<and> ckind c \<noteq> KCopy) example_collectors))"
    by (rule arg_cong)
  then have "length xs = 3" by (simp add: example_collectors_def)
  with xs(1) show ?thesis by blast
qed

text \<open>
  C8. A collector that is excluded or lacks a permission does not run: what it would return has no influence
  on the result, neither of a support bundle nor of a preflight.
\<close>

theorem skipped_collectors_do_not_run:
  assumes "\<And>c. \<not> is_left_out c \<Longrightarrow> \<not> lacks_permission c \<Longrightarrow> f c = collect_data env c"
  shows "run_collectors (env\<lparr>collect_data := f\<rparr>) b specs = run_collectors env b specs \<and>
    preflight_collect (env\<lparr>collect_data := f\<rparr>) b specs = preflight_collect env b specs"
proof -
  have prep: "prepare_specs (env\<lparr>collect_data := f\<rparr>) specs = prepare_specs env specs" by (simp add: prepare_specs_def)
  have build: "build_collectors (env\<lparr>collect_data := f\<rparr>) ss = build_collectors env ss" for ss
    by (induction ss) (simp_all split: option.split)
  have err: "save_error (env\<lparr>collect_data := f\<rparr>) c e d = save_error env c e d" for c e d
    by (simp add: save_error_def split: option.split)
  have "bundle_loop (env\<lparr>collect_data := f\<rparr>) cs d ms = bundle_loop env cs d ms" for cs d ms
    by (induction cs arbitrary: d ms) (simp_all add: err assms)
  moreover have "preflight_loop (env\<lparr>collect_data := f\<rparr>) i n cs d ms = preflight_loop env i n cs d ms" for i n cs d ms
    by (induction cs arbitrary: i d ms) (simp_all add: assms Let_def split: prod.split option.split)
  ultimately show ?thesis by (simp add: run_collectors_def preflight_collect_def prep build Let_def cong: if_cong)
qed

theorem skipped_collectors_do_not_run_witness:
  "\<exists>f. f \<noteq> collect_data (example_env switch_order) \<and>
     run_collectors ((example_env switch_order)\<lparr>collect_data := f\<rparr>) True example_specs =
       run_collectors (example_env switch_order) True example_specs"
proof -
  let ?c = "\<lparr>ckind = KLogs, cconfig = empty_config, rbac_errors = [logs_forbidden]\<rparr> :: collector"
  let ?f = "(collect_data (example_env switch_order)) (?c := ([(''secret'', Some ''x'')], None))"
  have "lacks_permission ?c" by (simp add: lacks_permission_def)
  then have "\<And>c. \<not> is_left_out c \<Longrightarrow> \<not> lacks_permission c \<Longrightarrow> ?f c = collect_data (example_env switch_order) c" by auto
  from skipped_collectors_do_not_run [OF this, of True example_specs]
  have "run_collectors ((example_env switch_order)\<lparr>collect_data := ?f\<rparr>) True example_specs =
      run_collectors (example_env switch_order) True example_specs" by blast
  moreover have "?f ?c \<noteq> collect_data (example_env switch_order) ?c" by (simp add: example_env_def)
  then have "?f \<noteq> collect_data (example_env switch_order)" by metis
  ultimately show ?thesis by blast
qed



end
