(* ===== verification/Analysis.thy ===== *)
theory Analysis
  imports Host_Devices Sysctl Sets_And_Jobs
begin

text \<open>
  Running analyzers: the dispatch from the entries of a spec (\<^verbatim>\<open>Analyze\<close>, \<^verbatim>\<open>HostAnalyze\<close> and their switches in
  \<^verbatim>\<open>pkg/analyze/analyzer.go\<close> and \<^verbatim>\<open>host_analyzer.go\<close>), the two drivers that run a list of them, for preflights
  (\<^verbatim>\<open>pkg/preflight/analyze.go\<close>, \<^verbatim>\<open>util.go\<close>) and for bundles on disk (\<^verbatim>\<open>AnalyzeLocal\<close> in
  \<^verbatim>\<open>pkg/analyze/download.go\<close>), with the files each driver shows to its analyzers. An entry holds the analyzers it
  has a configuration for; a nil entry is \<open>None\<close>. The text of an error, globs and JSON decoding are parameters.
\<close>

datatype akind =
    AClusterVersion | AStorageClass | ACustomResourceDefinition | AIngress | ASecret | AConfigMap
  | AImagePullSecret | ADeploymentStatus | AStatefulsetStatus | AJobStatus | AReplicaSetStatus
  | AClusterPodStatuses | AClusterContainerStatuses | AContainerRuntime | ADistribution | ANodeResources
  | ATextAnalyze | AYamlCompare | AJsonCompare | APostgres | AMssql | AMysql | ARedis | ACephStatus | AVelero
  | ALonghorn | ARegistryImages | AWeaveReport | ASysctl | AClusterResource | ACertificates | AGoldpinger
  | AEvent | ANodeMetrics | AHTTP

datatype hkind =
    HCPU | HMemory | HTCPLoadBalancer | HHTTPLoadBalancer | HDiskUsage | HTCPPortStatus | HUDPPortStatus | HHTTP
  | HTime | HBlockDevices | HSystemPackages | HKernelModules | HTCPConnect | HIPV4Interfaces | HSubnetAvailable
  | HSubnetContainsIP | HFilesystemPerformance | HCertificate | HCertificatesCollection | HHostServices | HHostOS
  | HTextAnalyze | HKernelConfigs | HJsonCompare | HNetworkNamespaceConnectivity | HSysctl

text \<open>An analyzer with its flags; a result is \<open>None\<close> for a nil pointer.\<close>

type_synonym results = "analyze_result option list"

record analyzer =
  an_title :: string
  an_exclude :: "bool_or_string option"
  an_strict :: "bool_or_string option"
  an_run :: "get_file \<Rightarrow> find_files \<Rightarrow> results res"

type_synonym analyze_spec = "(akind \<times> analyzer) list option"
type_synonym host_analyze_spec = "(hkind \<times> analyzer) list option"

section \<open>Dispatch\<close>

definition analyzer_order :: "akind list" where
  "analyzer_order =
     [AClusterVersion, AStorageClass, ACustomResourceDefinition, AIngress, ASecret, AConfigMap, AImagePullSecret,
      ADeploymentStatus, AStatefulsetStatus, AJobStatus, AReplicaSetStatus, AClusterPodStatuses,
      AClusterContainerStatuses, AContainerRuntime, ADistribution, ANodeResources, ATextAnalyze, AYamlCompare,
      AJsonCompare, APostgres, AMysql, AMssql, ARedis, ACephStatus, AVelero, ALonghorn, ARegistryImages,
      AWeaveReport, ASysctl, AClusterResource, ACertificates, AGoldpinger, AEvent, ANodeMetrics, AHTTP]"

definition host_analyzer_order :: "hkind list" where
  "host_analyzer_order =
     [HCPU, HMemory, HTCPLoadBalancer, HHTTPLoadBalancer, HDiskUsage, HTCPPortStatus, HUDPPortStatus, HHTTP,
      HTime, HBlockDevices, HSystemPackages, HKernelModules, HTCPConnect, HIPV4Interfaces, HSubnetAvailable,
      HSubnetContainsIP, HFilesystemPerformance, HCertificate, HCertificatesCollection, HHostServices, HHostOS,
      HTextAnalyze, HKernelConfigs, HJsonCompare, HNetworkNamespaceConnectivity, HSysctl]"

definition select_analyzer :: "'k list \<Rightarrow> ('k \<times> analyzer) list \<Rightarrow> analyzer option" where
  "select_analyzer order s = Option.bind (List.find (\<lambda>k. map_of s k \<noteq> None) order) (map_of s)"

definition nil_pointer :: string where "nil_pointer = ''nil pointer dereference''"

definition get_analyzer :: "analyze_spec \<Rightarrow> analyzer option res" where
  "get_analyzer spec = (case spec of None \<Rightarrow> Panic nil_pointer | Some s \<Rightarrow> Ok (select_analyzer analyzer_order s))"

definition get_host_analyzer :: "host_analyze_spec \<Rightarrow> analyzer option res" where
  "get_host_analyzer spec =
     (case spec of None \<Rightarrow> Panic nil_pointer | Some s \<Rightarrow> Ok (select_analyzer host_analyzer_order s))"

definition analyze :: "get_file \<Rightarrow> find_files \<Rightarrow> analyze_spec \<Rightarrow> results res" where
  "analyze get find_f spec =
     (if spec = None then Fail (Err ''nil analyzer'')
      else bind_res (get_analyzer spec) (\<lambda>a.
        case a of
          None \<Rightarrow> Ok []
        | Some a \<Rightarrow>
            bind_res (is_excluded (an_exclude a)) (\<lambda>ex. if ex then Ok [] else an_run a get find_f)))"

definition failed_result :: "(go_error \<Rightarrow> string) \<Rightarrow> string \<Rightarrow> go_error \<Rightarrow> analyze_result" where
  "failed_result render t e = (new_result t)\<lparr>is_fail := True, message := ''Analyzer Failed: '' @ render e\<rparr>"

text \<open>A host analyzer never returns an error: it becomes a result. An exclude flag that does not parse counts as false.\<close>

definition host_analyze :: "(go_error \<Rightarrow> string) \<Rightarrow> get_file \<Rightarrow> find_files \<Rightarrow> host_analyze_spec \<Rightarrow> results res" where
  "host_analyze render get find_f spec =
     bind_res (get_host_analyzer spec) (\<lambda>a.
       case a of
         None \<Rightarrow> Ok [Some (failed_result render ''nil analyzer'' (Err ''invalid host analyzer''))]
       | Some a \<Rightarrow>
           if is_excluded (an_exclude a) = Ok True then Ok []
           else case an_run a get find_f of
                  Fail e \<Rightarrow> Ok [Some (failed_result render (an_title a) (Wrap ''analyze'' e))]
                | r \<Rightarrow> r)"

definition dedup_analyzers :: "(analyze_spec \<Rightarrow> string res) \<Rightarrow> analyze_spec list \<Rightarrow> analyze_spec list" where
  "dedup_analyzers marshal specs = dedup_from marshal [] specs"

definition MASK :: string where "MASK = ''***HIDDEN***''"

text \<open>A line as long as the buffer of the scanner ends the loop.\<close>

definition strip_redacted_lines :: "string \<Rightarrow> string" where
  "strip_redacted_lines yaml = unlines (map (replace_all MASK ''HIDDEN'') (fst (scan_lines MaxScanTokenSize yaml)))"

section \<open>Files\<close>

text \<open>In a preflight the files are the collected data, a map listed in some order.\<close>

definition get_collected_file :: "(string \<times> string) list \<Rightarrow> get_file" where
  "get_collected_file files name =
     (case map_of files name of
        Some c \<Rightarrow> Ok c
      | None \<Rightarrow> Fail (Err (''file '' @ name @ '' was not collected'')))"

definition get_child_collected_files :: "(string \<Rightarrow> string \<Rightarrow> bool res) \<Rightarrow> (string \<times> string) list \<Rightarrow> find_files" where
  "get_child_collected_files glob files prefix exclude_files =
     (let matching = filter (\<lambda>(k, _). has_prefix prefix k \<or> glob prefix k = Ok True) files;
          kept = filter (\<lambda>(k, _). \<not> list_ex (\<lambda>ex. glob ex k = Ok True) exclude_files) matching
      in if kept = [] then Fail (Err (''File not found: '' @ prefix)) else Ok kept)"

text \<open>A bundle is read from disk, relative to its root; \<open>glob\<close> lists the paths that match.\<close>

definition VERSION_FILENAME :: string where "VERSION_FILENAME = ''version.yaml''"

definition find_bundle_root_dir :: "string list res res \<Rightarrow> string \<Rightarrow> string res" where
  "find_bundle_root_dir opened path =
     bind_res (wrap_res ''failed to open bundle dir'' opened) (\<lambda>names.
     bind_res (wrap_res ''failed to read dirnames'' names) (\<lambda>ns.
       if ns = [] then Fail (Err ''bundle directory is empty'')
       else if VERSION_FILENAME \<in> set ns then Ok path
       else Ok (path_join [path, hd ns])))"

definition get_file_contents :: "(string \<Rightarrow> string res) \<Rightarrow> string \<Rightarrow> get_file" where
  "get_file_contents disk root name =
     (case disk (path_join [root, name]) of
        Fail (NotFound _) \<Rightarrow> Fail (NotFound name)
      | r \<Rightarrow> r)"

definition exclude_file_paths :: "string list \<Rightarrow> string list \<Rightarrow> string list" where
  "exclude_file_paths files excluded = filter (\<lambda>p. p \<notin> set excluded) files"

definition get_child_file_contents ::
  "(string \<Rightarrow> string list res) \<Rightarrow> (string \<Rightarrow> string res) \<Rightarrow> string \<Rightarrow> find_files" where
  "get_child_file_contents glob disk root dir_name exclude_files =
     bind_res (wrap_res (''invalid glob '' @ quoted dir_name) (glob (path_join [root, dir_name]))) (\<lambda>files.
     bind_res (map_m (\<lambda>ex. wrap_res (''invalid glob '' @ quoted ex) (glob (path_join [root, ex]))) exclude_files) (\<lambda>exs.
       map_m (\<lambda>p. map_res (\<lambda>c. (p, c)) (wrap_res (''read '' @ quoted p) (disk p)))
         (exclude_file_paths files (concat exs))))"

section \<open>Strictness\<close>

text \<open>
  The flags are read back from the JSON of the entry, which keeps them; an excluded analyzer does not count, and
  nil marshals to an empty object.
\<close>

definition has_strict_analyzer :: "analyze_spec \<Rightarrow> bool" where
  "has_strict_analyzer spec =
     (case spec of
        None \<Rightarrow> False
      | Some s \<Rightarrow>
          list_ex (\<lambda>k. case map_of s k of
                         None \<Rightarrow> False
                       | Some a \<Rightarrow> \<not> bool_or_default_false (an_exclude a) \<and> bool_or_default_false (an_strict a))
            analyzer_order)"

definition has_strict_analyzers :: "analyze_spec list option \<Rightarrow> bool" where
  "has_strict_analyzers preflight =
     (case preflight of None \<Rightarrow> False | Some specs \<Rightarrow> list_ex has_strict_analyzer specs)"

definition has_strict_analyzers_failed :: "analyze_result list option \<Rightarrow> bool" where
  "has_strict_analyzers_failed results =
     (case results of
        None \<Rightarrow> True
      | Some rs \<Rightarrow> rs = [] \<or> list_ex (\<lambda>r. is_fail r \<and> strict r) rs)"

section \<open>The drivers\<close>

fun preflight_analyzers :: "(go_error \<Rightarrow> string) \<Rightarrow> get_file \<Rightarrow> find_files \<Rightarrow> analyze_spec list \<Rightarrow> results res" where
  "preflight_analyzers render get find_f [] = Ok []"
| "preflight_analyzers render get find_f (s # ss) =
     bind_res
       (case analyze get find_f s of
          Fail e \<Rightarrow>
            map_res (\<lambda>a. [Some ((new_result (case a of None \<Rightarrow> ''Analyzer Failed'' | Some a \<Rightarrow> an_title a))
                                  \<lparr>strict := has_strict_analyzer s, is_fail := True, message := render e\<rparr>)])
              (get_analyzer s)
        | r \<Rightarrow> r)
       (\<lambda>rs. map_res (\<lambda>rest. rs @ rest) (preflight_analyzers render get find_f ss))"

fun host_analyzers :: "(go_error \<Rightarrow> string) \<Rightarrow> get_file \<Rightarrow> find_files \<Rightarrow> host_analyze_spec list \<Rightarrow> results res" where
  "host_analyzers render get find_f [] = Ok []"
| "host_analyzers render get find_f (s # ss) =
     bind_res (host_analyze render get find_f s) (\<lambda>rs.
       map_res (\<lambda>rest. rs @ rest) (host_analyzers render get find_f ss))"

definition add_node_name :: "string \<Rightarrow> results \<Rightarrow> results res" where
  "add_node_name node rs =
     (if node = [] then Ok rs
      else map_m (\<lambda>r. case r of
                        None \<Rightarrow> Panic nil_pointer
                      | Some v \<Rightarrow> Ok (Some (v\<lparr>title := title v @ '' ('' @ node @ '')''\<rparr>))) rs)"

definition do_analyze ::
  "(go_error \<Rightarrow> string) \<Rightarrow> (string \<Rightarrow> string \<Rightarrow> bool res) \<Rightarrow> (string \<times> string) list \<Rightarrow> analyze_spec list \<Rightarrow>
   host_analyze_spec list \<Rightarrow> string \<Rightarrow> results res" where
  "do_analyze render glob files specs hosts node =
     bind_res (preflight_analyzers render (get_collected_file files) (get_child_collected_files glob files) specs) (\<lambda>rs.
     bind_res (host_analyzers render (get_collected_file files) (get_child_collected_files glob files) hosts) (\<lambda>hs.
       add_node_name node (rs @ hs)))"

text \<open>The remote results of a host preflight: the nodes in the order of the range over the map.\<close>

definition remote_analyze ::
  "(go_error \<Rightarrow> string) \<Rightarrow> (string \<Rightarrow> string \<Rightarrow> bool res) \<Rightarrow> (string \<Rightarrow> (string \<times> string) list res) \<Rightarrow>
   (string \<times> string) list \<Rightarrow> host_analyze_spec list \<Rightarrow> results res" where
  "remote_analyze render glob decode nodes hosts =
     map_res concat (map_m (\<lambda>(node, raw).
       case decode raw of
         Fail e \<Rightarrow> Ok [Some ((new_result ''Remote Result Parser Failed'')\<lparr>is_fail := True, message := render e\<rparr>)]
       | Panic m \<Rightarrow> Panic m
       | Ok files \<Rightarrow> do_analyze render glob files [] hosts node) nodes)"

text \<open>Analyzers that fail are only logged, nil results are dropped, those of host analyzers are not.\<close>

fun local_analyzers :: "get_file \<Rightarrow> find_files \<Rightarrow> analyze_spec list \<Rightarrow> results res" where
  "local_analyzers get find_f [] = Ok []"
| "local_analyzers get find_f (s # ss) =
     bind_res
       (case analyze get find_f s of
          Fail e \<Rightarrow> Ok []
        | Ok rs \<Rightarrow> Ok (filter (\<lambda>r. r \<noteq> None) rs)
        | Panic m \<Rightarrow> Panic m)
       (\<lambda>rs. map_res (\<lambda>rest. rs @ rest) (local_analyzers get find_f ss))"

definition analyze_local ::
  "(go_error \<Rightarrow> string) \<Rightarrow> (string \<Rightarrow> string list res res) \<Rightarrow> (string \<Rightarrow> string list res) \<Rightarrow> (string \<Rightarrow> string res) \<Rightarrow>
   string \<Rightarrow> analyze_spec list \<Rightarrow> host_analyze_spec list \<Rightarrow> results res" where
  "analyze_local render readdir glob disk path specs hosts =
     bind_res (wrap_res ''failed to find root dir'' (find_bundle_root_dir (readdir path) path)) (\<lambda>root.
     bind_res (local_analyzers (get_file_contents disk root) (get_child_file_contents glob disk root) specs) (\<lambda>rs.
     bind_res (host_analyzers render (get_file_contents disk root) (get_child_file_contents glob disk root) hosts) (\<lambda>hs.
       Ok (rs @ hs))))"

section \<open>Analyzers that give verdicts\<close>

definition verdict_results :: "results \<Rightarrow> bool" where
  "verdict_results rs \<longleftrightarrow> (\<forall>r\<in>set rs. \<exists>v. r = Some v \<and> is_verdict v)"

lemma verdict_results_simps [simp]:
  "verdict_results []" "verdict_results (r # rs) \<longleftrightarrow> (\<exists>v. r = Some v \<and> is_verdict v) \<and> verdict_results rs"
  "verdict_results (xs @ ys) \<longleftrightarrow> verdict_results xs \<and> verdict_results ys"
  by (auto simp: verdict_results_def)

definition analyzer_of ::
  "(get_file \<Rightarrow> find_files \<Rightarrow> analyze_result list res) \<Rightarrow> string \<Rightarrow> bool_or_string option \<Rightarrow>
   bool_or_string option \<Rightarrow> analyzer" where
  "analyzer_of run t ex st = \<lparr>an_title = t, an_exclude = ex, an_strict = st,
     an_run = (\<lambda>get find_f. map_res (map Some) (run get find_f))\<rparr>"

text \<open>The interface of an analyzer to the drivers: when it succeeds, every result is a verdict.\<close>

locale verdict_analyzer =
  fixes run :: "get_file \<Rightarrow> find_files \<Rightarrow> analyze_result list res"
  assumes run_verdicts: "run get find_f = Ok rs \<Longrightarrow> r \<in> set rs \<Longrightarrow> is_verdict r"
begin

lemma analyzer_verdicts: "an_run (analyzer_of run t ex st) get find_f = Ok rs \<Longrightarrow> verdict_results rs"
  using run_verdicts [of get find_f] by (force simp: analyzer_of_def verdict_results_def res_simps)

end

lemma host_Analyze_verdicts:
  "host_Analyze um get lp dir file os check t msg = Ok rs \<Longrightarrow> r \<in> set rs \<Longrightarrow> is_verdict r"
  by (auto simp: host_Analyze_def res_simps dest: host_results_shape)

interpretation cpu_verdicts: verdict_analyzer "\<lambda>get _. host_cpu_Analyze unmarshal um get check_name os"
  for unmarshal um check_name os
  by unfold_locales (auto simp: host_cpu_Analyze_def dest: host_Analyze_verdicts)

interpretation memory_verdicts: verdict_analyzer "\<lambda>get _. host_memory_Analyze unmarshal pq i64 um get check_name os"
  for unmarshal pq i64 um check_name os
  by unfold_locales (auto simp: host_memory_Analyze_def dest: host_Analyze_verdicts)

interpretation time_verdicts: verdict_analyzer "\<lambda>get _. host_time_Analyze unmarshal um get check_name os"
  for unmarshal um check_name os
  by unfold_locales (auto simp: host_time_Analyze_def dest: host_Analyze_verdicts)

interpretation services_verdicts: verdict_analyzer "\<lambda>get _. host_services_Analyze unmarshal um get check_name os"
  for unmarshal um check_name os
  by unfold_locales (auto simp: host_services_Analyze_def dest: host_Analyze_verdicts)

interpretation modules_verdicts: verdict_analyzer "\<lambda>get _. kernel_modules_Analyze unmarshal get check_name os"
  for unmarshal check_name os
  by unfold_locales (auto dest: kernel_modules_results)

section \<open>Lemmas\<close>

lemma preflight_analyzers_member:
  assumes "preflight_analyzers render get find_f ss = Ok rs" and "s \<in> set ss" and "analyze get find_f s = Fail e"
  shows "\<exists>r. Some r \<in> set rs \<and> is_fail r \<and> message r = render e \<and> strict r = has_strict_analyzer s"
  using assms
proof (induction ss arbitrary: rs)
  case (Cons s' ss)
  then obtain xs ys where ys: "preflight_analyzers render get find_f ss = Ok ys" and rs: "rs = xs @ ys"
    and xs: "(case analyze get find_f s' of
          Fail e \<Rightarrow>
            map_res (\<lambda>a. [Some ((new_result (case a of None \<Rightarrow> ''Analyzer Failed'' | Some a \<Rightarrow> an_title a))
                                  \<lparr>strict := has_strict_analyzer s', is_fail := True, message := render e\<rparr>)])
              (get_analyzer s')
        | r \<Rightarrow> r) = Ok xs" by (auto simp: res_simps)
  show ?case
  proof (cases "s = s'")
    case True
    with xs Cons.prems(3) rs show ?thesis by (auto simp: res_simps)
  next
    case False
    with Cons ys rs show ?thesis by fastforce
  qed
qed simp

lemma length_filter_all: "length (filter (\<lambda>r. r \<noteq> None) xs) = length xs \<longleftrightarrow> None \<notin> set xs"
proof (induction xs)
  case (Cons x xs)
  have "length (filter (\<lambda>r. r \<noteq> None) xs) \<noteq> Suc (length xs)" by (metis Suc_n_not_le_n length_filter_le)
  then show ?case using Cons by (cases x) (auto simp del: not_None_eq)
qed simp

lemma local_and_preflight:
  assumes "preflight_analyzers render get find_f ss = Ok rs"
  shows "\<exists>ls. local_analyzers get find_f ss = Ok ls \<and> length ls \<le> length rs \<and>
    (length ls = length rs \<longleftrightarrow> (\<forall>s\<in>set ss. \<exists>x. analyze get find_f s = Ok x \<and> None \<notin> set x)) \<and>
    ((\<forall>s\<in>set ss. \<exists>x. analyze get find_f s = Ok x \<and> None \<notin> set x) \<longrightarrow> ls = rs)"
  using assms
proof (induction ss arbitrary: rs)
  case (Cons s ss)
  then obtain ys where ys: "preflight_analyzers render get find_f ss = Ok ys" by (auto simp: res_simps)
  from Cons.IH [OF this] obtain ls where ls: "local_analyzers get find_f ss = Ok ls" "length ls \<le> length ys"
    "length ls = length ys \<longleftrightarrow> (\<forall>s\<in>set ss. \<exists>x. analyze get find_f s = Ok x \<and> None \<notin> set x)"
    "(\<forall>s\<in>set ss. \<exists>x. analyze get find_f s = Ok x \<and> None \<notin> set x) \<longrightarrow> ls = ys" by blast
  show ?case
  proof (cases "analyze get find_f s")
    case (Ok x)
    let ?f = "filter (\<lambda>r. r \<noteq> None) x"
    from Cons.prems ys Ok have rs: "rs = x @ ys" by simp
    from ls(1) Ok have "local_analyzers get find_f (s # ss) = Ok (?f @ ls)" by simp
    moreover have "length (?f @ ls) \<le> length rs" using ls(2) length_filter_le [of _ x] by (simp add: rs add_mono)
    moreover have "length (?f @ ls) = length rs \<longleftrightarrow> None \<notin> set x \<and> length ls = length ys"
      unfolding length_filter_all [symmetric] using ls(2) length_filter_le [of "\<lambda>r. r \<noteq> None" x]
      unfolding rs length_append by linarith
    moreover have "?f = x" if "None \<notin> set x" using that by (auto simp: filter_id_conv) (metis not_None_eq)
    ultimately show ?thesis using ls(3,4) Ok rs by (intro exI [of _ "?f @ ls"]) auto
  next
    case (Fail e)
    then obtain r where "rs = r # ys" using Cons.prems ys by (auto simp: res_simps)
    with ls Fail show ?thesis by auto
  next
    case (Panic m)
    with Cons.prems show ?thesis by simp
  qed
qed simp

definition gives_verdicts :: "analyzer \<Rightarrow> bool" where
  "gives_verdicts a \<longleftrightarrow> (\<forall>get find_f rs. an_run a get find_f = Ok rs \<longrightarrow> verdict_results rs)"

definition spec_verdicts :: "('k \<times> analyzer) list option \<Rightarrow> bool" where
  "spec_verdicts spec \<longleftrightarrow> (\<forall>s. spec = Some s \<longrightarrow> (\<forall>a\<in>snd ` set s. gives_verdicts a))"

lemma select_analyzer_verdicts:
  "spec_verdicts (Some s) \<Longrightarrow> select_analyzer order s = Some a \<Longrightarrow> gives_verdicts a"
  by (force simp: spec_verdicts_def select_analyzer_def bind_eq_Some_conv dest: map_of_SomeD)

lemma analyze_verdicts: "spec_verdicts s \<Longrightarrow> analyze get find_f s = Ok rs \<Longrightarrow> verdict_results rs"
  by (auto simp: analyze_def get_analyzer_def gives_verdicts_def res_simps dest!: select_analyzer_verdicts
      split: option.splits if_splits)

lemma host_analyze_verdicts: "spec_verdicts s \<Longrightarrow> host_analyze render get find_f s = Ok rs \<Longrightarrow> verdict_results rs"
  by (auto simp: host_analyze_def get_host_analyzer_def gives_verdicts_def res_simps failed_result_def is_verdict_def
      new_result_def dest!: select_analyzer_verdicts split: option.splits if_splits res.splits)

lemma preflight_analyzers_verdicts:
  "\<forall>s\<in>set ss. spec_verdicts s \<Longrightarrow> preflight_analyzers render get find_f ss = Ok rs \<Longrightarrow> verdict_results rs"
proof (induction ss arbitrary: rs)
  case (Cons s ss)
  then obtain xs ys where rs: "rs = xs @ ys" "preflight_analyzers render get find_f ss = Ok ys"
    and xs: "(case analyze get find_f s of
          Fail e \<Rightarrow>
            map_res (\<lambda>a. [Some ((new_result (case a of None \<Rightarrow> ''Analyzer Failed'' | Some a \<Rightarrow> an_title a))
                                  \<lparr>strict := has_strict_analyzer s, is_fail := True, message := render e\<rparr>)])
              (get_analyzer s)
        | r \<Rightarrow> r) = Ok xs" by (auto simp: res_simps)
  from xs have "verdict_results xs"
    using analyze_verdicts [of s get find_f xs] Cons.prems(1)
    by (auto simp: res_simps is_verdict_def new_result_def split: res.splits)
  with Cons rs show ?case by simp
qed simp

lemma host_analyzers_verdicts:
  "\<forall>s\<in>set ss. spec_verdicts s \<Longrightarrow> host_analyzers render get find_f ss = Ok rs \<Longrightarrow> verdict_results rs"
  by (induction ss arbitrary: rs) (auto simp: res_simps dest: host_analyze_verdicts)

lemma map_m_all:
  "map_m f xs = Ok ys \<Longrightarrow> (\<And>x y. x \<in> set xs \<Longrightarrow> f x = Ok y \<Longrightarrow> P y) \<Longrightarrow> \<forall>y\<in>set ys. P y"
proof (induction xs arbitrary: ys)
  case (Cons x xs)
  then obtain z zs where "f x = Ok z" "map_m f xs = Ok zs" "ys = z # zs" by (auto simp: res_simps)
  with Cons show ?case by (metis (no_types, lifting) list.set_intros set_ConsD)
qed simp

lemma add_node_name_verdicts:
  assumes "verdict_results rs" and "add_node_name node rs = Ok rs'"
  shows "verdict_results rs'"
proof (cases "node = []")
  case False
  with assms(2) have "map_m (\<lambda>r. case r of None \<Rightarrow> Panic nil_pointer
      | Some v \<Rightarrow> Ok (Some (v\<lparr>title := title v @ '' ('' @ node @ '')''\<rparr>))) rs = Ok rs'"
    by (simp only: add_node_name_def if_False)
  from map_m_all [OF this, of "\<lambda>r. \<exists>v. r = Some v \<and> is_verdict v"] assms(1) show ?thesis
    by (fastforce simp: verdict_results_def is_verdict_def)
qed (use assms in \<open>simp add: add_node_name_def\<close>)

section \<open>Properties\<close>

text \<open>
  C10. In a preflight a strict analyzer that cannot run blocks: every entry whose analysis fails with an error leaves
  a failed result with the text of the error and the strictness of the entry, and when that entry is strict the
  preflight counts as failed.
\<close>

theorem failing_analyzer_reported:
  assumes "do_analyze render glob files specs hosts [] = Ok (map Some rs)" and "s \<in> set specs"
    and "analyze (get_collected_file files) (get_child_collected_files glob files) s = Fail e"
  shows "(\<exists>r\<in>set rs. is_fail r \<and> message r = render e \<and> strict r = has_strict_analyzer s) \<and>
    (has_strict_analyzer s \<longrightarrow> has_strict_analyzers_failed (Some rs))"
proof -
  from assms(1) obtain xs hs where
    "preflight_analyzers render (get_collected_file files) (get_child_collected_files glob files) specs = Ok xs"
    and rs: "map Some rs = xs @ hs"
    by (auto simp: do_analyze_def add_node_name_def res_simps) metis
  from preflight_analyzers_member [OF this(1) assms(2,3)] obtain r where
    r: "Some r \<in> set xs" "is_fail r" "message r = render e" "strict r = has_strict_analyzer s" by blast
  from r(1) have "Some r \<in> set (map Some rs)" unfolding rs by simp
  then have "r \<in> set rs" by auto
  with r show ?thesis by (auto simp: has_strict_analyzers_failed_def list_ex_iff)
qed

definition broken_analyzer :: analyzer where
  "broken_analyzer = \<lparr>an_title = ''T'', an_exclude = None,
     an_strict = Some \<lparr>bos_kind = BBool, bool_val = True, str_val = []\<rparr>, an_run = (\<lambda>get _. map_res (\<lambda>_. []) (get ''f''))\<rparr>"

theorem failing_analyzer_reported_witness:
  "\<exists>rs. do_analyze (\<lambda>_. ''e'') (\<lambda>_ _. Ok False) [] [Some [(ASecret, broken_analyzer)]] [] [] = Ok (map Some rs) \<and>
    has_strict_analyzers_failed (Some rs)"
proof -
  let ?s = "Some [(ASecret, broken_analyzer)]"
  let ?r = "(new_result ''T'')\<lparr>strict := True, is_fail := True, message := ''e''\<rparr>"
  have strict: "has_strict_analyzer ?s"
    by (simp add: has_strict_analyzer_def analyzer_order_def broken_analyzer_def bool_or_default_false_def bos_Bool_def)
  have fails: "analyze (get_collected_file []) (get_child_collected_files (\<lambda>_ _. Ok False) []) ?s =
      Fail (Err ''file f was not collected'')"
    by (simp add: analyze_def get_analyzer_def select_analyzer_def analyzer_order_def broken_analyzer_def is_excluded_def
        get_collected_file_def)
  then have run: "do_analyze (\<lambda>_. ''e'') (\<lambda>_ _. Ok False) [] [?s] [] [] = Ok (map Some [?r])"
    using strict
    by (simp add: do_analyze_def add_node_name_def get_analyzer_def select_analyzer_def analyzer_order_def broken_analyzer_def)
  from failing_analyzer_reported [OF run _ fails] strict run show ?thesis by (intro exI conjI) auto
qed



text \<open>
  C17. A host analyzer that reads collected files of a host: when neither its file nor the list of nodes was
  collected, a preflight reports a failure under its title, while the analysis of a bundle is silent.
\<close>

theorem uncollected_host_data:
  assumes "select_analyzer host_analyzer_order s = Some a" and "is_excluded (an_exclude a) \<noteq> Ok True"
    and "\<And>get find_f. an_run a get find_f = map_res (map Some) (host_Analyze um get lp dir file os check t msg)"
    and "map_of files lp = None" and "map_of files NODE_LIST_FILE = None"
    and "disk (path_join [root, lp]) = Fail (NotFound p)" and "disk (path_join [root, NODE_LIST_FILE]) = Fail (NotFound q)"
  shows "(\<exists>r. host_analyze render (get_collected_file files) find_f (Some s) = Ok [Some r] \<and> is_fail r \<and> title r = an_title a) \<and>
    host_analyze render (get_file_contents disk root) find_f' (Some s) = Ok []"
proof -
  have "host_Analyze um (get_collected_file files) lp dir file os check t msg =
      Fail (Wrap ''failed to get node list'' (Err (''file '' @ NODE_LIST_FILE @ '' was not collected'')))"
    using assms(4,5) by (simp add: host_Analyze_def retrieve_collected_contents_def get_collected_file_def)
  moreover have "host_Analyze um (get_file_contents disk root) lp dir file os check t msg = Ok []"
    using assms(6,7) by (simp add: host_Analyze_def retrieve_collected_contents_def get_file_contents_def)
  ultimately show ?thesis
    using assms(1-3) by (simp add: host_analyze_def get_host_analyzer_def failed_result_def)
qed

theorem uncollected_host_data_witness:
  "\<exists>a. (\<exists>r. host_analyze (\<lambda>_. ''e'') (get_collected_file []) (\<lambda>_ _. Ok []) (Some [(HCPU, a)]) = Ok [Some r] \<and> is_fail r) \<and>
    host_analyze (\<lambda>_. ''e'') (get_file_contents (\<lambda>p. Fail (NotFound p)) ''/b'') (\<lambda>_ _. Ok []) (Some [(HCPU, a)]) = Ok []"
proof -
  define a where "a = analyzer_of (\<lambda>get _. host_cpu_Analyze (\<lambda>_. Fail (LibErr ''json'')) (\<lambda>_. Ok []) get [] []) ''CPU'' None None"
  have "select_analyzer host_analyzer_order [(HCPU, a)] = Some a"
    by (simp add: select_analyzer_def host_analyzer_order_def)
  moreover have "is_excluded (an_exclude a) \<noteq> Ok True"
    by (simp add: a_def analyzer_of_def is_excluded_def)
  moreover
  have "\<And>get find_f. an_run a get find_f = map_res (map Some)
      (host_Analyze (\<lambda>_. Ok []) get ''host-collectors/system/cpu.json'' NodeInfoBaseDir ''cpu.json'' []
       (cpu_check_condition (\<lambda>_. Fail (LibErr ''json''))) (host_analyzer_title_or_default [] ''Number of CPUs'')
       ''failed to analyze OS version'')"
    by (simp add: a_def analyzer_of_def host_cpu_Analyze_def)
  note run_eq = this
  from uncollected_host_data [where files = "[]" and disk = "\<lambda>p. Fail (NotFound p)" and root = "''/b''"
      and render = "\<lambda>_. ''e''" and find_f = "\<lambda>_ _. Ok []" and find_f' = "\<lambda>_ _. Ok []", OF calculation(1,2) run_eq _ _ refl refl]
  show ?thesis by (intro exI [of _ a]) auto
qed



text \<open>
  A nil entry among the analyzers of a preflight ends the run with a panic: the error it causes is reported
  with the title of the analyzer, for which the nil entry is dereferenced. The analysis of a bundle skips it.
\<close>

theorem nil_entry_panics:
  "do_analyze render glob files (None # specs) hosts node = Panic nil_pointer \<and>
   local_analyzers get find_f (None # specs) = local_analyzers get find_f specs"
  by (cases "local_analyzers get find_f specs")
     (simp_all add: do_analyze_def analyze_def get_analyzer_def)

text \<open>
  Replacing masks is not repeated: a mask between stars leaves a mask in the text that is parsed after it.
\<close>

theorem mask_survives: "strip_redacted_lines ''******HIDDEN******'' = MASK @ [newline]"
  by (simp add: strip_redacted_lines_def scan_lines_def raw_segments_def drop_cr_def MASK_def replace_all_def
      MaxScanTokenSize_def unlines_def has_prefix_def Let_def)

end
