(* ===== verification/Paths.thy ===== *)
theory Paths
  imports Prelude
begin

text \<open>
  Slash-separated paths of the standard library on a Unix host, beyond \<open>path_clean\<close> and \<open>path_join\<close>:
  \<^verbatim>\<open>filepath.Split\<close>, \<^verbatim>\<open>filepath.Dir\<close> and \<^verbatim>\<open>filepath.Rel\<close>, with the algebra of elements that the archives and the
  files of results rest on.
\<close>

definition path_split :: "string \<Rightarrow> string \<times> string" where
  "path_split p =
     (let f = takeWhile (\<lambda>c. c \<noteq> CHR ''/'') (rev p) in (take (length p - length f) p, rev f))"

definition path_dir :: "string \<Rightarrow> string" where
  "path_dir p = path_clean (fst (path_split p))"

definition path_elements :: "string \<Rightarrow> string list" where
  "path_elements p = filter (\<lambda>w. w \<noteq> []) (split_on (CHR ''/'') p)"

fun strip_common :: "string list \<Rightarrow> string list \<Rightarrow> string list \<times> string list" where
  "strip_common (x # xs) (y # ys) = (if x = y then strip_common xs ys else (x # xs, y # ys))"
| "strip_common xs ys = (xs, ys)"

definition path_rel :: "string \<Rightarrow> string \<Rightarrow> string res" where
  "path_rel base target =
     (let b0 = path_clean base; t = path_clean target; b = (if b0 = ''.'' then [] else b0) in
      if t = b0 then Ok ''.''
      else if has_prefix ''/'' b \<noteq> has_prefix ''/'' t
      then Fail (Err (''Rel: can't make '' @ target @ '' relative to '' @ base))
      else case strip_common (path_elements b) (path_elements t) of
             (bs, ts) \<Rightarrow>
               if bs \<noteq> [] \<and> hd bs = ''..''
               then Fail (Err (''Rel: can't make '' @ target @ '' relative to '' @ base))
               else Ok (join_with ''/'' (replicate (length bs) ''..'' @ ts)))"

section \<open>Elements\<close>

text \<open>A plain element is the name of a file or directory.\<close>

definition plain :: "string \<Rightarrow> bool" where
  "plain w \<longleftrightarrow> w \<noteq> [] \<and> w \<noteq> ''.'' \<and> w \<noteq> ''..'' \<and> CHR ''/'' \<notin> set w"

definition rooted_path :: "string list \<Rightarrow> string" where
  "rooted_path ws = CHR ''/'' # join_with ''/'' ws"

definition relative_path :: "string list \<Rightarrow> string" where
  "relative_path ws = join_with ''/'' ws"

lemma plainD: "plain w \<Longrightarrow> w \<noteq> []" "plain w \<Longrightarrow> CHR ''/'' \<notin> set w" "plain w \<Longrightarrow> w \<noteq> ''..''" "plain w \<Longrightarrow> w \<noteq> ''.''"
  by (simp_all add: plain_def)

lemma path_elements_Nil [simp]: "path_elements [] = []"
  by (simp add: path_elements_def)

lemma split_on_separated: "split_on sep (a @ sep # b) = split_on sep a @ split_on sep b"
  by (induction a) (auto split: list.splits)

lemma path_elements_append [simp]: "path_elements (p @ CHR ''/'' # q) = path_elements p @ path_elements q"
  by (simp add: path_elements_def split_on_separated)

lemma path_elements_slash [simp]: "path_elements (CHR ''/'' # q) = path_elements q"
  using path_elements_append [of "[]" q] by simp

lemma path_elements_single: "w \<noteq> [] \<Longrightarrow> CHR ''/'' \<notin> set w \<Longrightarrow> path_elements w = [w]"
  by (simp add: path_elements_def split_on_no_sep)

text \<open>A proper element is not empty and has no slash.\<close>

definition proper :: "string \<Rightarrow> bool" where
  "proper w \<longleftrightarrow> w \<noteq> [] \<and> CHR ''/'' \<notin> set w"

lemma plain_proper: "plain w \<Longrightarrow> proper w"
  by (simp add: plain_def proper_def)

lemma path_elements_join: "\<forall>w\<in>set ws. proper w \<Longrightarrow> path_elements (join_with ''/'' ws) = ws"
  by (induction "''/''" ws rule: join_with.induct) (auto simp: path_elements_single proper_def)

lemma path_elements_rooted [simp]: "\<forall>w\<in>set ws. proper w \<Longrightarrow> path_elements (rooted_path ws) = ws"
  by (simp add: rooted_path_def path_elements_join)

lemma path_elements_relative [simp]: "\<forall>w\<in>set ws. proper w \<Longrightarrow> path_elements (relative_path ws) = ws"
  by (simp add: relative_path_def path_elements_join)

lemma has_prefix_rooted [simp]: "has_prefix ''/'' (rooted_path ws)"
  by (simp add: rooted_path_def has_prefix_def)

lemma has_prefix_relative [simp]: "\<forall>w\<in>set ws. proper w \<Longrightarrow> \<not> has_prefix ''/'' (relative_path ws)"
  by (cases "(''/'', ws)" rule: join_with.cases) (auto simp: relative_path_def proper_def has_prefix_def neq_Nil_conv)

lemma relative_path_Nil_iff [simp]: "\<forall>w\<in>set ws. proper w \<Longrightarrow> relative_path ws = [] \<longleftrightarrow> ws = []"
  by (cases "(''/'', ws)" rule: join_with.cases) (auto simp: relative_path_def proper_def)

text \<open>Cleaning folds the elements; plain ones are pushed, and as many dots remove them again.\<close>

lemma foldl_clean_skip: "foldl (clean_step r) acc (filter (\<lambda>w. w \<noteq> []) ws) = foldl (clean_step r) acc ws"
  by (induction ws arbitrary: acc) (auto simp: clean_step_def)

lemma path_clean_elements:
  "path_clean p =
     (let ws = rev (foldl (clean_step (has_prefix ''/'' p)) [] (path_elements p))
      in if has_prefix ''/'' p then rooted_path ws else if relative_path ws = [] then ''.'' else relative_path ws)"
  by (simp add: path_clean_def path_elements_def foldl_clean_skip rooted_path_def relative_path_def Let_def)

lemma foldl_clean_plain [simp]: "\<forall>w\<in>set ws. plain w \<Longrightarrow> foldl (clean_step r) acc ws = rev ws @ acc"
  by (induction ws arbitrary: acc) (auto simp: clean_step_def plain_def)

lemma foldl_clean_up:
  "\<forall>w\<in>set ws. plain w \<Longrightarrow> foldl (clean_step r) (ws @ acc) (replicate (length ws) ''..'') = acc"
  by (induction ws) (auto simp: clean_step_def plain_def)

lemma path_clean_rooted_plain [simp]: "\<forall>w\<in>set ws. plain w \<Longrightarrow> path_clean (rooted_path ws) = rooted_path ws"
  by (simp add: path_clean_elements plain_proper)

lemma path_clean_relative_plain [simp]:
  "ws \<noteq> [] \<Longrightarrow> \<forall>w\<in>set ws. plain w \<Longrightarrow> path_clean (relative_path ws) = relative_path ws"
  by (simp add: path_clean_elements plain_proper)

lemma rooted_path_not_Nil [simp]: "rooted_path ws \<noteq> []"
  by (simp add: rooted_path_def)

lemma path_join_rooted:
  assumes "r \<noteq> []" and "\<forall>w\<in>set bs. plain w"
  shows "path_join [rooted_path bs, r] = rooted_path (rev (foldl (clean_step True) (rev bs) (path_elements r)))"
proof -
  have "has_prefix ''/'' (rooted_path bs @ CHR ''/'' # r)" by (simp add: rooted_path_def has_prefix_def)
  with assms show ?thesis by (simp add: path_join_def path_clean_elements plain_proper)
qed

lemma path_join_rooted_plain [simp]:
  assumes "ns \<noteq> []" and "\<forall>w\<in>set bs. plain w" and "\<forall>w\<in>set ns. plain w"
  shows "path_join [rooted_path bs, relative_path ns] = rooted_path (bs @ ns)"
  using assms path_join_rooted [of "relative_path ns" bs] by (simp add: plain_proper)

section \<open>Directories and relative paths\<close>

lemma path_split_slash: "CHR ''/'' \<notin> set w \<Longrightarrow> path_split (a @ CHR ''/'' # w) = (a @ ''/'', w)"
proof -
  assume "CHR ''/'' \<notin> set w"
  then have "takeWhile (\<lambda>c. c \<noteq> CHR ''/'') (rev w @ CHR ''/'' # rev a) = rev w"
    by (subst takeWhile_append2) auto
  then show ?thesis by (simp add: path_split_def)
qed

lemma path_split_plain: "CHR ''/'' \<notin> set w \<Longrightarrow> path_split w = ([], w)"
proof -
  assume "CHR ''/'' \<notin> set w"
  then have eq: "takeWhile (\<lambda>c. c \<noteq> CHR ''/'') (rev w) = rev w" by (auto simp: takeWhile_eq_all_conv)
  show ?thesis unfolding path_split_def Let_def eq by simp
qed

lemma join_snoc: "ws \<noteq> [] \<Longrightarrow> join_with ''/'' (ws @ [w]) = join_with ''/'' ws @ CHR ''/'' # w"
proof (induction ws)
  case (Cons v ws)
  then show ?case by (cases ws) auto
qed simp

lemma path_split_relative:
  assumes "proper w"
  shows "path_split (relative_path (ws @ [w])) = (if ws = [] then [] else relative_path ws @ ''/'', w)"
  using assms by (simp add: relative_path_def join_snoc path_split_slash path_split_plain proper_def)

lemma path_split_rooted:
  assumes "proper w"
  shows "path_split (rooted_path (ws @ [w])) = (if ws = [] then ''/'' else rooted_path ws @ ''/'', w)"
proof (cases "ws = []")
  case True
  with assms show ?thesis using path_split_slash [of w "[]"] by (simp add: rooted_path_def proper_def)
next
  case False
  have "path_split ((CHR ''/'' # join_with ''/'' ws) @ CHR ''/'' # w) = ((CHR ''/'' # join_with ''/'' ws) @ ''/'', w)"
    using assms unfolding proper_def by (intro path_split_slash) simp
  with False show ?thesis by (simp add: rooted_path_def join_snoc)
qed

lemma path_elements_trailing [simp]: "path_elements (p @ ''/'') = path_elements p"
  using path_elements_append [of p "[]"] by simp

lemma has_prefix_slash_append: "p \<noteq> [] \<Longrightarrow> has_prefix ''/'' (p @ q) = has_prefix ''/'' p"
  by (cases p) (simp_all add: has_prefix_def)

lemma path_clean_trailing: "p \<noteq> [] \<Longrightarrow> path_clean (p @ ''/'') = path_clean p"
  by (simp add: path_clean_elements has_prefix_slash_append)

lemma path_dir_rooted [simp]:
  assumes "\<forall>w\<in>set ws. plain w" and "plain w"
  shows "path_dir (rooted_path (ws @ [w])) = rooted_path ws"
proof (cases "ws = []")
  case True
  have "path_clean ''/'' = ''/''" by (simp add: path_clean_def clean_step_def has_prefix_def)
  then have "path_dir (rooted_path ([] @ [w])) = ''/''"
    unfolding path_dir_def using path_split_rooted [of w "[]"] assms(2) by (simp add: plain_proper)
  with True show ?thesis by (simp add: rooted_path_def)
next
  case False
  with assms show ?thesis by (simp add: path_dir_def path_split_rooted plain_proper path_clean_trailing)
qed

lemma path_dir_relative [simp]:
  assumes "\<forall>w\<in>set ws. plain w" and "plain w"
  shows "path_dir (relative_path (ws @ [w])) = (if ws = [] then ''.'' else relative_path ws)"
proof (cases "ws = []")
  case True
  have "path_clean [] = ''.''" by (simp add: path_clean_def clean_step_def has_prefix_def)
  then have "path_dir (relative_path ([] @ [w])) = ''.''"
    unfolding path_dir_def using path_split_relative [of w "[]"] assms(2) by (simp add: plain_proper)
  with True show ?thesis by simp
next
  case False
  with assms show ?thesis by (simp add: path_dir_def path_split_relative plain_proper path_clean_trailing)
qed

section \<open>Relative paths\<close>

lemma strip_common_spec:
  "strip_common xs ys = (xs', ys') \<Longrightarrow> \<exists>cp. xs = cp @ xs' \<and> ys = cp @ ys'"
  by (induction xs ys rule: strip_common.induct) (auto split: if_splits)

lemma strip_common_base [simp]: "strip_common (bs @ xs) (bs @ ys) = strip_common xs ys"
  by (induction bs) auto

text \<open>Going up from one list of elements and down to another ends at the other.\<close>

lemma up_and_down:
  assumes "strip_common xs ys = (xs', ys')" and "\<forall>w\<in>set xs. plain w" and "\<forall>w\<in>set ys. plain w"
  shows "foldl (clean_step r) (rev (ds @ xs)) (replicate (length xs') ''..'' @ ys') = rev (ds @ ys)"
proof -
  obtain cp where xs: "xs = cp @ xs'" and ys: "ys = cp @ ys'" using strip_common_spec [OF assms(1)] by blast
  have "foldl (clean_step r) (rev xs' @ rev (ds @ cp)) (replicate (length xs') ''..'') = rev (ds @ cp)"
    using foldl_clean_up [of "rev xs'" r "rev (ds @ cp)"] assms(2) by (simp add: xs)
  then show ?thesis using assms(3) by (simp add: xs ys)
qed

lemma proper_up [simp]: "proper ''..''" "proper ''.''"
  by (simp_all add: proper_def)

lemma rooted_path_inject [simp]:
  "\<forall>w\<in>set xs. plain w \<Longrightarrow> \<forall>w\<in>set ys. plain w \<Longrightarrow> rooted_path xs = rooted_path ys \<longleftrightarrow> xs = ys"
  by (metis path_elements_rooted plain_proper)

lemma relative_path_inject:
  "\<forall>w\<in>set xs. proper w \<Longrightarrow> \<forall>w\<in>set ys. proper w \<Longrightarrow> relative_path xs = relative_path ys \<longleftrightarrow> xs = ys"
  by (metis path_elements_relative)

lemma relative_elements:
  assumes "\<forall>w\<in>set ys. plain w" and "strip_common xs ys = (xs', ys')"
  shows "path_elements (relative_path (replicate (length xs') ''..'' @ ys')) = replicate (length xs') ''..'' @ ys'"
proof -
  obtain cp where "ys = cp @ ys'" using strip_common_spec [OF assms(2)] by blast
  with assms(1) have "\<forall>w\<in>set (replicate (length xs') ''..'' @ ys'). proper w" by (auto simp: plain_proper)
  then show ?thesis by (rule path_elements_relative)
qed

lemma strip_common_Nil: "strip_common xs ys = ([], []) \<longleftrightarrow> xs = ys"
  by (induction xs ys rule: strip_common.induct) auto

lemma relative_dots_not_Nil:
  assumes "\<forall>w\<in>set ys. plain w" and "strip_common xs ys = (xs', ys')" and "xs \<noteq> ys"
  shows "relative_path (replicate (length xs') ''..'' @ ys') \<noteq> []"
  using relative_elements [OF assms(1,2)] strip_common_Nil [of xs ys] assms(2,3) by auto

lemma dot_elements [simp]: "path_elements ''.'' = [''.'']"
  by (simp add: path_elements_single)

lemma clean_dot_step [simp]: "clean_step r acc ''.'' = acc"
  by (simp add: clean_step_def)

lemma not_dots_head: "\<forall>w\<in>set xs. plain w \<Longrightarrow> strip_common xs ys = (xs', ys') \<Longrightarrow> \<not> (xs' \<noteq> [] \<and> hd xs' = ''..'')"
proof
  assume "\<forall>w\<in>set xs. plain w" and "strip_common xs ys = (xs', ys')" and "xs' \<noteq> [] \<and> hd xs' = ''..''"
  then have "''..'' \<in> set xs" using strip_common_spec [of xs ys xs' ys'] by (metis Un_iff hd_in_set set_append)
  with \<open>\<forall>w\<in>set xs. plain w\<close> show False using plainD(3) by blast
qed

lemma path_rel_rooted:
  assumes "\<forall>w\<in>set xs. plain w" and "\<forall>w\<in>set ys. plain w"
  shows "\<exists>r. path_rel (rooted_path xs) (rooted_path ys) = Ok r \<and> r \<noteq> [] \<and>
    foldl (clean_step rt) (rev (ds @ xs)) (path_elements r) = rev (ds @ ys)"
proof (cases "xs = ys")
  case True
  with assms show ?thesis by (simp add: path_rel_def Let_def)
next
  case False
  obtain xs' ys' where sc: "strip_common xs ys = (xs', ys')" by fastforce
  have "rooted_path xs \<noteq> ''.''" by (simp add: rooted_path_def)
  with False assms sc not_dots_head [OF assms(1) sc]
  have "path_rel (rooted_path xs) (rooted_path ys) = Ok (relative_path (replicate (length xs') ''..'' @ ys'))"
    by (auto simp: path_rel_def Let_def plain_proper relative_path_def)
  with up_and_down [OF sc assms] relative_elements [OF assms(2) sc] relative_dots_not_Nil [OF assms(2) sc False]
  show ?thesis by auto
qed

lemma path_rel_relative:
  assumes "\<forall>w\<in>set xs. plain w" and "\<forall>w\<in>set ys. plain w" and "ys \<noteq> []"
  shows "\<exists>r. path_rel (if xs = [] then ''.'' else relative_path xs) (relative_path ys) = Ok r \<and> r \<noteq> [] \<and>
    foldl (clean_step rt) (rev (ds @ xs)) (path_elements r) = rev (ds @ ys)"
proof (cases "xs = ys")
  case True
  with assms show ?thesis by (simp add: path_rel_def Let_def)
next
  case False
  obtain xs' ys' where sc: "strip_common xs ys = (xs', ys')" by fastforce
  have dot: "relative_path ws \<noteq> ''.''" if "\<forall>w\<in>set ws. plain w" for ws
  proof
    assume "relative_path ws = ''.''"
    then have "path_elements (relative_path ws) = [''.'']" by simp
    with that show False by (auto simp: plain_proper plain_def)
  qed
  have clean_dot: "path_clean ''.'' = ''.''" by (simp add: path_clean_def clean_step_def has_prefix_def)
  have "path_rel (if xs = [] then ''.'' else relative_path xs) (relative_path ys) =
      Ok (relative_path (replicate (length xs') ''..'' @ ys'))"
  proof (cases "xs = []")
    case True
    with sc have "xs' = []" "ys' = ys" by auto
    with True assms dot [OF assms(2)] show ?thesis
      by (simp add: path_rel_def clean_dot plain_proper relative_path_def [symmetric] has_prefix_def [of _ "[]"] Let_def)
  next
    case xs: False
    have "relative_path xs \<noteq> relative_path ys" using relative_path_inject [of xs ys] False assms by (simp add: plain_proper)
    with xs assms sc dot [OF assms(1)] not_dots_head [OF assms(1) sc] show ?thesis
      by (auto simp: path_rel_def Let_def plain_proper relative_path_def [symmetric])
  qed
  with up_and_down [OF sc assms(1,2)] relative_elements [OF assms(2) sc] relative_dots_not_Nil [OF assms(2) sc False]
  show ?thesis by auto
qed

end
