(* ===== verification/Collector_Results.thy ===== *)
theory Collector_Results
  imports Collection Paths
begin

text \<open>
  The results of collectors (\<^verbatim>\<open>pkg/collect/result.go\<close>): a map from names to data, where nil data stands for a
  file under the path of the bundle, and an empty path for a bundle in memory. The disk is a map from clean paths
  to files, links and directories; directories that files imply are not listed. Which calls of the operating
  system fail, and how much a failing write has written, are parameters, so every error branch is one of the
  model. Links are followed as often as the kernel does.
\<close>

datatype fnode = FFile string | FLink string | FDir

type_synonym disk = "(string \<times> fnode) list"

datatype io_call = MkdirAll | Create | CreateTemp | Copy | Stat | Lstat | Symlink | Close | Remove | Rename

record io_env =
  io_fails :: "io_call \<Rightarrow> string \<Rightarrow> bool"
  io_written :: "string \<Rightarrow> nat"
  tmp_name :: string

record store =
  entries :: collected
  files :: disk

text \<open>A reader gives its data and then ends or fails.\<close>

type_synonym reader = "string \<times> go_error option"

definition max_links :: nat where "max_links = 41"

fun follow :: "nat \<Rightarrow> disk \<Rightarrow> string \<Rightarrow> string option" where
  "follow 0 d p = None"
| "follow (Suc n) d p = (case map_of d p of Some (FLink t) \<Rightarrow> follow n d t | _ \<Rightarrow> Some p)"

definition read_path :: "disk \<Rightarrow> string \<Rightarrow> string res" where
  "read_path d p =
     (case follow max_links d p of
        None \<Rightarrow> Fail (LibErr ''open'')
      | Some q \<Rightarrow>
          (case map_of d q of
             Some (FFile c) \<Rightarrow> Ok c
           | Some _ \<Rightarrow> Fail (LibErr ''read'')
           | None \<Rightarrow> Fail (NotFound q)))"

definition copied :: "io_env \<Rightarrow> string \<Rightarrow> reader \<Rightarrow> string \<times> go_error option" where
  "copied env p rd =
     (if io_fails env Copy p then (take (io_written env p) (fst rd), Some (LibErr ''write'')) else rd)"

section \<open>Operations\<close>

definition set_entry :: "string \<Rightarrow> string option \<Rightarrow> store \<Rightarrow> store" where
  "set_entry name c st = st\<lparr>entries := AList.update name c (entries st)\<rparr>"

definition set_file :: "string \<Rightarrow> fnode \<Rightarrow> store \<Rightarrow> store" where
  "set_file p nd st = st\<lparr>files := AList.update p nd (files st)\<rparr>"

definition del_file :: "string \<Rightarrow> store \<Rightarrow> store" where
  "del_file p st = st\<lparr>files := AList.delete p (files st)\<rparr>"

text \<open>\<^verbatim>\<open>os.Create\<close> truncates what the path leads to.\<close>

definition create_file :: "io_env \<Rightarrow> string \<Rightarrow> store \<Rightarrow> string option" where
  "create_file env p st =
     (if io_fails env Create p then None
      else case follow max_links (files st) p of
             None \<Rightarrow> None
           | Some q \<Rightarrow> if map_of (files st) q = Some FDir then None else Some q)"

definition save_result :: "io_env \<Rightarrow> string \<Rightarrow> string \<Rightarrow> reader option \<Rightarrow> store \<Rightarrow> unit res \<times> store" where
  "save_result env bundle_path name rd st =
     (case rd of
        None \<Rightarrow> (Ok (), st)
      | Some rd \<Rightarrow>
          if bundle_path = []
          then (case snd rd of
                  Some e \<Rightarrow> (Fail (Wrap ''failed to read data'' e), st)
                | None \<Rightarrow> (Ok (), set_entry name (Some (fst rd)) st))
          else let st1 = set_entry name None st;
                   out_path = path_join [bundle_path, fst (path_split name)];
                   p = path_join [out_path, snd (path_split name)]
               in if io_fails env MkdirAll out_path
                  then (Fail (Wrap ''failed to create output file directory'' (LibErr ''mkdir'')), st1)
                  else case create_file env p st1 of
                         None \<Rightarrow> (Fail (Wrap ''failed to create file'' (LibErr ''open'')), st1)
                       | Some q \<Rightarrow>
                           (case copied env p rd of
                              (c, Some e) \<Rightarrow> (Fail (Wrap ''failed to copy data'' e), set_file q (FFile c) st1)
                            | (c, None) \<Rightarrow>
                                (if io_fails env Stat p then Fail (Wrap ''failed to stat file'' (LibErr ''stat'')) else Ok (),
                                 set_file q (FFile c) st1)))"

text \<open>The files of a directory in the order of the walk, with the error of reading each.\<close>

fun save_walked :: "io_env \<Rightarrow> string \<Rightarrow> string \<Rightarrow> (string \<times> string res) list \<Rightarrow> store \<Rightarrow> unit res \<times> store" where
  "save_walked env bundle_path dir [] st = (Ok (), st)"
| "save_walked env bundle_path dir ((f, content) # fs) st =
     (case content of
        Ok c \<Rightarrow>
          (case save_result env bundle_path (path_join [dir, f]) (Some (c, None)) st of
             (Ok _, st') \<Rightarrow> save_walked env bundle_path dir fs st'
           | (r, st') \<Rightarrow> (wrap_res ''error from SaveResult call'' r, st'))
      | r \<Rightarrow> (map_res (\<lambda>_. ()) r, st))"

definition save_results ::
  "io_env \<Rightarrow> string \<Rightarrow> string \<Rightarrow> (string \<times> string res) list \<Rightarrow> store \<Rightarrow> unit res \<times> store" where
  "save_results env bundle_path dir walked st =
     (if io_fails env MkdirAll (path_join [bundle_path, dir])
      then (Fail (Wrap ''failed to create output file directory'' (LibErr ''mkdir'')), st)
      else case save_walked env bundle_path dir walked st of (r, st') \<Rightarrow> (wrap_res ''error from WalkDir call'' r, st'))"

definition get_reader :: "string \<Rightarrow> string \<Rightarrow> store \<Rightarrow> string res" where
  "get_reader bundle_path name st =
     (case map_of (entries st) name of
        Some (Some c) \<Rightarrow> Ok c
      | _ \<Rightarrow>
          if bundle_path = [] then Fail (Err ''cannot create reader, bundle path is empty'')
          else wrap_res ''failed to open file'' (read_path (files st) (path_join [bundle_path, name])))"

definition symlink_result :: "io_env \<Rightarrow> string \<Rightarrow> string \<Rightarrow> string \<Rightarrow> store \<Rightarrow> unit res \<times> store" where
  "symlink_result env bundle_path link target st =
     (case map_of (entries st) target of
        None \<Rightarrow> (Fail (Errf ''cannot create symlink, result in %q not found'' [target]), st)
      | Some data \<Rightarrow>
          if bundle_path = [] then (Ok (), set_entry link data st)
          else let lp = path_join [bundle_path, link]; fp = path_join [bundle_path, target]
               in if lp = fp then (Ok (), st)
                  else if io_fails env MkdirAll (path_dir lp)
                  then (Fail (Wrap ''failed to create directory'' (LibErr ''mkdir'')), st)
                  else if io_fails env Stat fp \<or>
                    (case follow max_links (files st) fp of None \<Rightarrow> True | Some q \<Rightarrow> map_of (files st) q = None)
                  then (Fail (Wrap ''failed to stat. File may not exist'' (LibErr ''stat'')), st)
                  else if map_of (files st) lp \<noteq> None \<and> \<not> io_fails env Lstat lp then (Ok (), st)
                  else if map_of (files st) lp \<noteq> None \<or> io_fails env Symlink lp
                  then (Fail (Wrap ''failed to create symlink'' (LibErr ''symlink'')), st)
                  else (Ok (), set_entry link None (set_file lp (FLink fp) st)))"

text \<open>
  The new content goes to a temporary file beside the target, the target is removed, the file is renamed. An
  error on the way leaves a best effort to remove the temporary file.
\<close>

definition drop_temp :: "io_env \<Rightarrow> string \<Rightarrow> store \<Rightarrow> store" where
  "drop_temp env tmp st = (if io_fails env Remove tmp then st else del_file tmp st)"

definition replace_result :: "io_env \<Rightarrow> string \<Rightarrow> string \<Rightarrow> reader \<Rightarrow> store \<Rightarrow> unit res \<times> store" where
  "replace_result env bundle_path name rd st =
     (if bundle_path = []
      then (case snd rd of
              Some e \<Rightarrow> (Fail (Wrap ''failed to read data'' e), st)
            | None \<Rightarrow> (Ok (), set_entry name (Some (fst rd)) st))
      else let p = path_join [bundle_path, name]; dir = path_dir p; tmp = path_join [dir, tmp_name env]
           in if io_fails env MkdirAll dir
              then (Fail (Wrap ''failed to create target directory'' (LibErr ''mkdir'')), st)
              else if io_fails env CreateTemp dir
              then (Fail (Wrap ''failed to create temp file'' (LibErr ''open'')), st)
              else case copied env tmp rd of
                     (c, Some e) \<Rightarrow>
                       (Fail (Wrap ''failed to write tmp file'' e), drop_temp env tmp (set_file tmp (FFile c) st))
                   | (c, None) \<Rightarrow>
                       (let st1 = set_file tmp (FFile c) st in
                        if io_fails env Close tmp
                        then (Fail (Wrap ''failed to close tmp file'' (LibErr ''close'')), drop_temp env tmp st1)
                        else if map_of (files st1) p \<noteq> None \<and> io_fails env Remove p
                        then (Fail (Wrap ''failed to remove existing file'' (LibErr ''remove'')), drop_temp env tmp st1)
                        else let st2 = del_file p st1 in
                             if io_fails env Rename tmp
                             then (Fail (Wrap ''failed to rename tmp file'' (LibErr ''rename'')), drop_temp env tmp st2)
                             else (Ok (), set_file p (FFile c) (del_file tmp st2))))"

datatype writer = Buffer string | FileWriter string

definition get_writer :: "io_env \<Rightarrow> string \<Rightarrow> string \<Rightarrow> store \<Rightarrow> writer res \<times> store" where
  "get_writer env bundle_path name st =
     (if bundle_path = [] then (Ok (Buffer []), st)
      else let out_path = path_join [bundle_path, fst (path_split name)]; p = path_join [bundle_path, name]
           in if io_fails env MkdirAll out_path
              then (Fail (Wrap ''failed to create output directory'' (LibErr ''mkdir'')), st)
              else case create_file env p st of
                     None \<Rightarrow> (Fail (Wrap ''failed to create file'' (LibErr ''open'')), st)
                   | Some q \<Rightarrow> (Ok (FileWriter q), set_entry name None (set_file q (FFile []) st)))"

text \<open>What a collector writes goes to the buffer or to the open file.\<close>

definition write_to :: "string \<Rightarrow> writer \<times> store \<Rightarrow> writer \<times> store" where
  "write_to s ws =
     (case ws of
        (Buffer b, st) \<Rightarrow> (Buffer (b @ s), st)
      | (FileWriter q, st) \<Rightarrow>
          (case map_of (files st) q of
             Some (FFile c) \<Rightarrow> (FileWriter q, set_file q (FFile (c @ s)) st)
           | _ \<Rightarrow> (FileWriter q, st)))"

definition close_writer :: "io_env \<Rightarrow> string \<Rightarrow> writer \<Rightarrow> store \<Rightarrow> unit res \<times> store" where
  "close_writer env name w st =
     (case w of
        FileWriter q \<Rightarrow>
          (if io_fails env Close q then Fail (Wrap ''failed to close writer'' (LibErr ''close'')) else Ok (), st)
      | Buffer b \<Rightarrow> (Ok (), set_entry name (Some b) st))"

text \<open>The names under a directory as results on disk; the walk is a parameter.\<close>

fun from_bundle :: "string \<Rightarrow> string list \<Rightarrow> collected \<Rightarrow> collected res" where
  "from_bundle dir [] r = Ok r"
| "from_bundle dir (p # ps) r = bind_res (path_rel dir p) (\<lambda>rel. from_bundle dir ps (AList.update rel None r))"

definition collector_result_from_bundle :: "string \<Rightarrow> string list res option \<Rightarrow> collected res" where
  "collector_result_from_bundle dir walk =
     (case walk of
        None \<Rightarrow> Fail (Wrap ''bundle directory does not exist'' (LibErr ''stat''))
      | Some w \<Rightarrow> wrap_res ''failed to walk bundle directory'' (bind_res w (\<lambda>ps. from_bundle dir ps [])))"

section \<open>Sequences of operations\<close>

datatype result_op = SaveOp string string | ReplaceOp string string | WriteOp string "string list"

fun op_name :: "result_op \<Rightarrow> string" where
  "op_name (SaveOp n c) = n"
| "op_name (ReplaceOp n c) = n"
| "op_name (WriteOp n cs) = n"

fun op_content :: "result_op \<Rightarrow> string" where
  "op_content (SaveOp n c) = c"
| "op_content (ReplaceOp n c) = c"
| "op_content (WriteOp n cs) = concat cs"

fun run_op :: "io_env \<Rightarrow> string \<Rightarrow> result_op \<Rightarrow> store \<Rightarrow> unit res \<times> store" where
  "run_op env b (SaveOp n c) st = save_result env b n (Some (c, None)) st"
| "run_op env b (ReplaceOp n c) st = replace_result env b n (c, None) st"
| "run_op env b (WriteOp n cs) st =
     (case get_writer env b n st of
        (Ok w, st1) \<Rightarrow> (case fold write_to cs (w, st1) of (w', st2) \<Rightarrow> close_writer env n w' st2)
      | (r, st1) \<Rightarrow> (map_res (\<lambda>_. ()) r, st1))"

fun run_all :: "('o \<Rightarrow> 's \<Rightarrow> unit res \<times> 's) \<Rightarrow> 'o list \<Rightarrow> 's \<Rightarrow> unit res \<times> 's" where
  "run_all put [] s = (Ok (), s)"
| "run_all put (x # xs) s = (case put x s of (Ok _, s') \<Rightarrow> run_all put xs s' | (r, s') \<Rightarrow> (r, s'))"

text \<open>The last content written under a name.\<close>

definition last_written :: "result_op list \<Rightarrow> string \<rightharpoonup> string" where
  "last_written xs = map_of (rev (map (\<lambda>x. (op_name x, op_content x)) xs))"

text \<open>
  The contract of a store of results: every operation on a name succeeds, keeps the invariant and changes what is
  read under this name only.
\<close>

locale result_store =
  fixes put :: "result_op \<Rightarrow> 's \<Rightarrow> unit res \<times> 's"
    and get :: "string \<Rightarrow> 's \<Rightarrow> string res"
    and inv :: "'s \<Rightarrow> bool"
    and names :: "string set"
  assumes put_ok: "inv s \<Longrightarrow> op_name x \<in> names \<Longrightarrow>
    \<exists>s'. put x s = (Ok (), s') \<and> inv s' \<and>
      (\<forall>m\<in>names. get m s' = (if m = op_name x then Ok (op_content x) else get m s))"
begin

lemma run_all_ok:
  "inv s \<Longrightarrow> \<forall>x\<in>set xs. op_name x \<in> names \<Longrightarrow>
   \<exists>s'. run_all put xs s = (Ok (), s') \<and> inv s' \<and>
     (\<forall>m\<in>names. get m s' = (case last_written xs m of Some c \<Rightarrow> Ok c | None \<Rightarrow> get m s))"
proof (induction xs arbitrary: s)
  case (Cons x xs)
  then obtain s1 where s1: "put x s = (Ok (), s1)" "inv s1"
    "\<forall>m\<in>names. get m s1 = (if m = op_name x then Ok (op_content x) else get m s)" using put_ok [of s x] by auto
  with Cons obtain s2 where "run_all put xs s1 = (Ok (), s2)" "inv s2"
    "\<forall>m\<in>names. get m s2 = (case last_written xs m of Some c \<Rightarrow> Ok c | None \<Rightarrow> get m s1)" by fastforce
  with s1 show ?case by (auto simp: last_written_def map_add_def split: option.split)
qed (simp add: last_written_def)

end

lemma map_of_files_update [simp]:
  "map_of (files (set_file p nd st)) = (map_of (files st))(p \<mapsto> nd)" "files (set_entry n c st) = files st"
  "entries (set_file p nd st) = entries st" "entries (del_file p st) = entries st"
  "map_of (entries (set_entry n c st)) = (map_of (entries st))(n \<mapsto> c)"
  by (simp_all add: set_file_def set_entry_def del_file_def update_conv')

lemma map_of_files_delete [simp]: "map_of (files (del_file p st)) = (map_of (files st))(p := None)"
  by (auto simp: del_file_def delete_conv' fun_eq_iff)

lemma fold_buffer: "fold write_to cs (Buffer b, st) = (Buffer (b @ concat cs), st)"
  by (induction cs arbitrary: b) (simp_all add: write_to_def)

interpretation memory_store: result_store "run_op env []" "get_reader []" "\<lambda>_. True" UNIV for env
proof
  fix s :: store and x
  show "\<exists>s'. run_op env [] x s = (Ok (), s') \<and> True \<and>
      (\<forall>m\<in>UNIV. get_reader [] m s' = (if m = op_name x then Ok (op_content x) else get_reader [] m s))"
    by (cases x)
       (auto simp: save_result_def replace_result_def get_writer_def close_writer_def fold_buffer get_reader_def)
qed

section \<open>Files below the path of a bundle\<close>

definition file_names :: "io_env \<Rightarrow> string set" where
  "file_names env = {relative_path ns | ns. ns \<noteq> [] \<and> (\<forall>w\<in>set ns. plain w) \<and> last ns \<noteq> tmp_name env}"

definition faultless :: "io_env \<Rightarrow> bool" where
  "faultless env \<longleftrightarrow> (\<forall>call p. \<not> io_fails env call p) \<and> plain (tmp_name env)"

definition regular_store :: "store \<Rightarrow> bool" where
  "regular_store st \<longleftrightarrow>
     (\<forall>p nd. map_of (files st) p = Some nd \<longrightarrow> (\<exists>c. nd = FFile c)) \<and> (\<forall>n c. map_of (entries st) n \<noteq> Some (Some c))"

lemma regular_store_updates [simp]:
  "regular_store st \<Longrightarrow> regular_store (set_file p (FFile c) st)" "regular_store st \<Longrightarrow> regular_store (del_file p st)"
  "regular_store st \<Longrightarrow> regular_store (set_entry n None st)"
  by (auto simp: regular_store_def)

lemma follow_no_link: "\<forall>t. map_of d p \<noteq> Some (FLink t) \<Longrightarrow> follow max_links d p = Some p"
  by (cases "map_of d p") (auto simp: max_links_def eval_nat_numeral split: fnode.split)

lemma regular_follow: "regular_store st \<Longrightarrow> follow max_links (files st) p = Some p"
  unfolding regular_store_def by (rule follow_no_link) fastforce

lemma create_regular: "faultless env \<Longrightarrow> regular_store st \<Longrightarrow> create_file env p st = Some p"
  by (auto simp: create_file_def regular_follow faultless_def regular_store_def)

lemma get_reader_regular:
  assumes "regular_store st" and "b \<noteq> []"
  shows "get_reader b n st = (case map_of (files st) (path_join [b, n]) of
    Some (FFile c) \<Rightarrow> Ok c | _ \<Rightarrow> Fail (Wrap ''failed to open file'' (NotFound (path_join [b, n]))))"
proof -
  have "read_path (files st) p = (case map_of (files st) p of Some (FFile c) \<Rightarrow> Ok c | _ \<Rightarrow> Fail (NotFound p))" for p
    using assms(1) by (auto simp: read_path_def regular_follow regular_store_def split: option.split fnode.split)
  then show ?thesis
    using assms by (auto simp: get_reader_def regular_store_def split: option.split fnode.split)
qed

text \<open>Splitting a name and joining its parts again below the path of the bundle gives the path of the file.\<close>

lemma snoc_cases: "ns \<noteq> [] \<Longrightarrow> \<exists>xs x. ns = xs @ [x]"
  by (metis rev_exhaust)

lemma path_join_no_name [simp]: "\<forall>w\<in>set bs. plain w \<Longrightarrow> path_join [rooted_path bs, []] = rooted_path bs"
  by (simp add: path_join_def)

lemma split_path:
  assumes "\<forall>w\<in>set bs. plain w" and "\<forall>w\<in>set ns. plain w" and "plain x"
  shows "path_join [path_join [rooted_path bs, fst (path_split (relative_path (ns @ [x])))],
           snd (path_split (relative_path (ns @ [x])))] = rooted_path (bs @ ns @ [x])"
proof -
  have x: "relative_path [x] = x" by (simp add: relative_path_def)
  have "path_join [rooted_path bs, relative_path ns @ ''/''] = rooted_path (bs @ ns)" if "ns \<noteq> []"
    using path_join_rooted [of "relative_path ns @ ''/''" bs] assms that by (simp add: plain_proper)
  then have "path_join [rooted_path bs, fst (path_split (relative_path (ns @ [x])))] = rooted_path (bs @ ns)"
    using assms by (simp add: path_split_relative plain_proper)
  moreover have "path_join [rooted_path (bs @ ns), x] = rooted_path (bs @ ns @ [x])"
    using path_join_rooted_plain [of "[x]" "bs @ ns"] assms by (auto simp: x)
  ultimately show ?thesis using assms by (simp add: path_split_relative plain_proper)
qed

lemma write_to_file: "write_to c (FileWriter q, set_file q (FFile b) st) = (FileWriter q, set_file q (FFile (b @ c)) st)"
proof -
  have "set_file q x (set_file q y st) = set_file q x st" for x y by (simp add: set_file_def)
  then show ?thesis by (simp add: write_to_def)
qed

lemma set_file_writes:
  "fold write_to cs (FileWriter q, set_file q (FFile b) st) = (FileWriter q, set_file q (FFile (b @ concat cs)) st)"
  by (induction cs arbitrary: b) (simp_all add: write_to_file)

lemma file_names_cases:
  assumes "n \<in> file_names env"
  obtains ns y where "n = relative_path (ns @ [y])" "\<forall>w\<in>set ns. plain w" "plain y" "y \<noteq> tmp_name env"
proof -
  from assms obtain ms where ms: "n = relative_path ms" "ms \<noteq> []" "\<forall>w\<in>set ms. plain w" "last ms \<noteq> tmp_name env"
    by (auto simp: file_names_def)
  from snoc_cases [OF ms(2)] obtain ns y where "ms = ns @ [y]" by blast
  with ms that show thesis by auto
qed

lemma file_path:
  "\<forall>w\<in>set bs. plain w \<Longrightarrow> \<forall>w\<in>set ns. plain w \<Longrightarrow> plain y \<Longrightarrow>
   path_join [rooted_path bs, relative_path (ns @ [y])] = rooted_path (bs @ ns @ [y])"
  by (rule path_join_rooted_plain) auto

lemma file_path_dir:
  "\<forall>w\<in>set bs. plain w \<Longrightarrow> \<forall>w\<in>set ns. plain w \<Longrightarrow> plain y \<Longrightarrow>
   path_dir (rooted_path (bs @ ns @ [y])) = rooted_path (bs @ ns)"
  using path_dir_rooted [of "bs @ ns" y] by auto

lemma temp_path:
  assumes "\<forall>w\<in>set bs. plain w" and "n \<in> file_names env" and "plain (tmp_name env)"
  obtains ns where "\<forall>w\<in>set ns. plain w"
    "path_join [path_dir (path_join [rooted_path bs, n]), tmp_name env] = rooted_path (bs @ ns @ [tmp_name env])"
proof -
  from assms(2) obtain ns y where n: "n = relative_path (ns @ [y])" "\<forall>w\<in>set ns. plain w" "plain y"
    by (rule file_names_cases)
  have "path_join [rooted_path (bs @ ns), relative_path [tmp_name env]] = rooted_path ((bs @ ns) @ [tmp_name env])"
    by (rule path_join_rooted_plain) (use assms n in auto)
  then have "path_join [path_dir (path_join [rooted_path bs, n]), tmp_name env] = rooted_path (bs @ ns @ [tmp_name env])"
    using n assms by (simp add: file_path file_path_dir relative_path_def [of "[tmp_name env]"])
  with n(2) that show thesis by blast
qed

lemma file_path_inject:
  assumes "\<forall>w\<in>set bs. plain w" and "m \<in> file_names env" and "n \<in> file_names env"
  shows "path_join [rooted_path bs, m] = path_join [rooted_path bs, n] \<longleftrightarrow> m = n"
proof -
  from assms(2) obtain ms x where m: "m = relative_path (ms @ [x])" "\<forall>w\<in>set ms. plain w" "plain x" by (rule file_names_cases)
  from assms(3) obtain ns y where n: "n = relative_path (ns @ [y])" "\<forall>w\<in>set ns. plain w" "plain y" by (rule file_names_cases)
  have "rooted_path (bs @ ms @ [x]) = rooted_path (bs @ ns @ [y]) \<longleftrightarrow> bs @ ms @ [x] = bs @ ns @ [y]"
    by (rule rooted_path_inject) (use assms(1) m n in auto)
  moreover have "relative_path (ms @ [x]) = relative_path (ns @ [y]) \<longleftrightarrow> ms @ [x] = ns @ [y]"
    by (rule relative_path_inject) (use m n in \<open>auto simp: plain_proper\<close>)
  ultimately show ?thesis using assms(1) m n by (simp add: file_path)
qed

lemma file_path_not_temp:
  assumes "\<forall>w\<in>set bs. plain w" and "m \<in> file_names env" and "n \<in> file_names env" and "plain (tmp_name env)"
  shows "path_join [rooted_path bs, m] \<noteq> path_join [path_dir (path_join [rooted_path bs, n]), tmp_name env]"
proof -
  from assms(2) obtain ms x where m: "m = relative_path (ms @ [x])" "\<forall>w\<in>set ms. plain w" "plain x" "x \<noteq> tmp_name env"
    by (rule file_names_cases)
  from assms(1,3,4) obtain ns where ns: "\<forall>w\<in>set ns. plain w"
    "path_join [path_dir (path_join [rooted_path bs, n]), tmp_name env] = rooted_path (bs @ ns @ [tmp_name env])"
    by (rule temp_path)
  have "rooted_path (bs @ ms @ [x]) = rooted_path (bs @ ns @ [tmp_name env]) \<longleftrightarrow> bs @ ms @ [x] = bs @ ns @ [tmp_name env]"
    by (rule rooted_path_inject) (use assms m ns in auto)
  with m assms(1) ns(2) show ?thesis by (simp add: file_path)
qed

text \<open>The three ways to write a file leave it with its content and the other paths as they were.\<close>

lemma run_op_disk:
  assumes env: "faultless env" and st: "regular_store st" and bs: "\<forall>w\<in>set bs. plain w" and x: "op_name x \<in> file_names env"
    and p: "p = path_join [rooted_path bs, op_name x]" and tmp: "tmp = path_join [path_dir p, tmp_name env]"
  shows "\<exists>st'. run_op env (rooted_path bs) x st = (Ok (), st') \<and> regular_store st' \<and>
    map_of (files st') p = Some (FFile (op_content x)) \<and>
    (\<forall>q. q \<noteq> p \<longrightarrow> q \<noteq> tmp \<longrightarrow> map_of (files st') q = map_of (files st) q)"
proof -
  from x obtain ns y where n: "op_name x = relative_path (ns @ [y])" "\<forall>w\<in>set ns. plain w" "plain y"
    by (rule file_names_cases)
  have neq: "tmp \<noteq> p" using file_path_not_temp [OF bs x x] env unfolding tmp p faultless_def by metis
  have sp: "path_join [path_join [rooted_path bs, fst (path_split (op_name x))], snd (path_split (op_name x))] = p"
    using split_path [of bs ns y] bs n by (simp add: p file_path)
  have fine: "\<not> io_fails env call q" for call q using env by (simp add: faultless_def)
  show ?thesis
  proof (cases x)
    case (SaveOp m c)
    then show ?thesis
      using sp st by (simp add: save_result_def Let_def fine create_regular [OF env] copied_def)
  next
    case (ReplaceOp m c)
    then show ?thesis
      using neq st unfolding tmp p by (simp add: replace_result_def Let_def fine copied_def)
  next
    case (WriteOp m cs)
    have "set_entry k None (set_file p (FFile []) st) = set_file p (FFile []) (set_entry k None st)" for k
      by (simp add: set_entry_def set_file_def)
    with WriteOp show ?thesis
      using st p by (simp add: get_writer_def Let_def fine create_regular [OF env] set_file_writes close_writer_def)
  qed
qed

interpretation disk_store: result_store "run_op env (rooted_path bs)" "get_reader (rooted_path bs)"
  "\<lambda>st. faultless env \<and> (\<forall>w\<in>set bs. plain w) \<and> regular_store st" "file_names env" for env bs
proof
  fix st x
  assume inv: "faultless env \<and> (\<forall>w\<in>set bs. plain w) \<and> regular_store st" and x: "op_name x \<in> file_names env"
  let ?p = "path_join [rooted_path bs, op_name x]"
  let ?tmp = "path_join [path_dir ?p, tmp_name env]"
  from run_op_disk [OF _ _ _ x refl refl, of st bs] inv obtain st' where
    run: "run_op env (rooted_path bs) x st = (Ok (), st')" and reg: "regular_store st'" and
    p: "map_of (files st') ?p = Some (FFile (op_content x))" and
    others: "\<forall>q. q \<noteq> ?p \<longrightarrow> q \<noteq> ?tmp \<longrightarrow> map_of (files st') q = map_of (files st) q" by blast
  show "\<exists>st'. run_op env (rooted_path bs) x st = (Ok (), st') \<and>
      (faultless env \<and> (\<forall>w\<in>set bs. plain w) \<and> regular_store st') \<and>
      (\<forall>m\<in>file_names env. get_reader (rooted_path bs) m st' =
        (if m = op_name x then Ok (op_content x) else get_reader (rooted_path bs) m st))"
    using run reg inv get_reader_regular [OF reg] get_reader_regular [of st] p others
      file_path_inject [of bs _ env "op_name x"] file_path_not_temp [of bs _ env "op_name x"] x
    by (intro exI [of _ st']) (auto simp: faultless_def)
qed

definition empty_store :: store where
  "empty_store = \<lparr>entries = [], files = []\<rparr>"

lemma empty_store_reads [simp]: "get_reader [] n empty_store = Fail (Err ''cannot create reader, bundle path is empty'')"
  by (simp add: get_reader_def empty_store_def)

lemma empty_store_disk: "b \<noteq> [] \<Longrightarrow> get_reader b n empty_store \<noteq> Ok c"
  using get_reader_regular [of empty_store b n] by (simp add: regular_store_def empty_store_def)

lemma copied_none: "copied env p rd = (c, None) \<Longrightarrow> c = fst rd"
  by (cases rd) (auto simp: copied_def split: if_splits)

section \<open>Properties\<close>


definition example_io :: io_env where
  "example_io = \<lparr>io_fails = (\<lambda>_ _. False), io_written = (\<lambda>_. 0), tmp_name = ''replace-1.tmp''\<rparr>"

lemma example_names: "''a'' \<in> file_names example_io" "faultless example_io"
proof -
  have "''a'' = relative_path [''a'']" by (simp add: relative_path_def)
  then show "''a'' \<in> file_names example_io"
    unfolding file_names_def by (intro CollectI exI [of _ "[''a'']"]) (simp add: plain_def example_io_def)
  show "faultless example_io" by (simp add: faultless_def example_io_def plain_def)
qed


text \<open>
  C5. Replacing a result never leaves it half written: whatever calls fail, all other files and the entries stay,
  success means the new content, and on an error the file has its old content, or is gone, which happens only
  when the rename fails after the old file was removed; the temporary file goes unless its removal fails.
\<close>

theorem replace_result_all_or_nothing:
  assumes "bundle_path \<noteq> []" and "p = path_join [bundle_path, name]" and "tmp = path_join [path_dir p, tmp_name env]"
    and "p \<noteq> tmp" and "map_of (files st) tmp = None" and "replace_result env bundle_path name rd st = (r, st')"
  shows "entries st' = entries st \<and> (\<forall>q. q \<noteq> p \<longrightarrow> q \<noteq> tmp \<longrightarrow> map_of (files st') q = map_of (files st) q) \<and>
    (r = Ok () \<longrightarrow> map_of (files st') p = Some (FFile (fst rd))) \<and>
    (r \<noteq> Ok () \<longrightarrow> map_of (files st') p = map_of (files st) p \<or>
       io_fails env Rename tmp \<and> map_of (files st') p = None) \<and>
    (map_of (files st') tmp = None \<or> io_fails env Remove tmp)"
  using assms
  by (auto simp: replace_result_def drop_temp_def Let_def split: if_splits prod.splits option.splits dest: copied_none)

theorem replace_result_all_or_nothing_witness:
  "\<exists>r st'. replace_result (example_io\<lparr>io_fails := (\<lambda>call p. call = Rename)\<rparr>) ''/b'' ''a'' (''new'', None)
      \<lparr>entries = [], files = [(''/b/a'', FFile ''old'')]\<rparr> = (r, st') \<and> r \<noteq> Ok () \<and> map_of (files st') ''/b/replace-1.tmp'' = None"
proof -
  let ?env = "example_io\<lparr>io_fails := (\<lambda>call p. call = Rename)\<rparr>"
  let ?st = "\<lparr>entries = [], files = [(''/b/a'', FFile ''old'')]\<rparr> :: store"
  have p: "path_join [''/b'', ''a''] = ''/b/a''" by code_simp
  have tmp: "path_join [path_dir ''/b/a'', tmp_name ?env] = ''/b/replace-1.tmp''" by code_simp
  obtain r st' where run: "replace_result ?env ''/b'' ''a'' (''new'', None) ?st = (r, st')" by fastforce
  have "r \<noteq> Ok ()" using run by (auto simp: replace_result_def Let_def copied_def example_io_def)
  moreover have "\<not> io_fails ?env Remove ''/b/replace-1.tmp''" by simp
  ultimately show ?thesis
    using replace_result_all_or_nothing [OF _ p [symmetric] tmp [symmetric] _ _ run] run by auto
qed

text \<open>
  A new link reads as its target: when linking a result succeeds under a path where nothing was, the link is
  recorded and reading it gives what reading the target gives, in memory and on disk.
\<close>

theorem linked_result_reads_target:
  assumes "symlink_result env bundle_path link target st = (Ok (), st')"
    and "bundle_path = [] \<or> regular_store st \<and> map_of (files st) (path_join [bundle_path, link]) = None \<and>
      path_join [bundle_path, link] \<noteq> path_join [bundle_path, target]"
  shows "map_of (entries st') link \<noteq> None \<and>
    (\<forall>c. get_reader bundle_path target st = Ok c \<longrightarrow> get_reader bundle_path link st' = Ok c)"
proof (cases "bundle_path = []")
  case True
  with assms(1) show ?thesis
    by (auto simp: symlink_result_def get_reader_def split: option.splits)
next
  case False
  let ?lp = "path_join [bundle_path, link]" and ?fp = "path_join [bundle_path, target]"
  from False assms(2) have reg: "regular_store st" and free: "map_of (files st) ?lp = None" and neq: "?lp \<noteq> ?fp" by auto
  from assms(1) False free neq have st': "st' = set_entry link None (set_file ?lp (FLink ?fp) st)"
    and ex: "map_of (files st) ?fp \<noteq> None"
    by (auto simp: symlink_result_def Let_def regular_follow [OF reg] split: option.splits if_splits)
  from ex reg obtain c where c: "map_of (files st) ?fp = Some (FFile c)" unfolding regular_store_def by blast
  have "follow max_links (files st') ?lp = follow 40 (files st') ?fp"
    by (simp add: st' max_links_def eval_nat_numeral)
  also have "\<dots> = Some ?fp" using c neq by (simp add: st' eval_nat_numeral)
  finally have "read_path (files st') ?lp = Ok c" using c neq by (simp add: read_path_def st')
  moreover have "get_reader bundle_path target st = Ok c" using get_reader_regular [OF reg False] c by simp
  moreover have "map_of (entries st') link = Some None" by (simp add: st')
  ultimately show ?thesis using False by (simp add: get_reader_def)
qed

theorem linked_result_reads_target_witness:
  "\<exists>st'. symlink_result example_io ''/b'' ''l'' ''a'' \<lparr>entries = [(''a'', None)], files = [(''/b/a'', FFile ''x'')]\<rparr> = (Ok (), st') \<and>
    get_reader ''/b'' ''l'' st' = Ok ''x''"
proof -
  let ?st = "\<lparr>entries = [(''a'', None)], files = [(''/b/a'', FFile ''x'')]\<rparr> :: store"
  have reg: "regular_store ?st" by (auto simp: regular_store_def split: if_splits)
  have p: "path_join [''/b'', ''l''] = ''/b/l''" "path_join [''/b'', ''a''] = ''/b/a''" by code_simp+
  have "\<exists>st'. symlink_result example_io ''/b'' ''l'' ''a'' ?st = (Ok (), st')"
    using regular_follow [OF reg] by (simp add: symlink_result_def p example_io_def Let_def)
  then obtain st' where run: "symlink_result example_io ''/b'' ''l'' ''a'' ?st = (Ok (), st')" by blast
  have "get_reader ''/b'' ''a'' ?st = Ok ''x''" using get_reader_regular [OF reg, of "''/b''" "''a''"] by (simp add: p)
  with linked_result_reads_target [OF run] reg p run show ?thesis by auto
qed

text \<open>
  Linking under a path that exists succeeds and does nothing: the link is neither made nor recorded, so it is
  missing from the results and from their archive.
\<close>

theorem existing_link_not_recorded:
  assumes "map_of (files st) (path_join [bundle_path, link]) \<noteq> None" and "bundle_path \<noteq> []"
    and "\<And>call p. \<not> io_fails env call p" and "symlink_result env bundle_path link target st = (Ok (), st')"
  shows "st' = st"
  using assms by (auto simp: symlink_result_def Let_def split: option.splits if_splits)

theorem existing_link_not_recorded_witness:
  "\<exists>st'. symlink_result example_io ''/b'' ''l'' ''a''
      \<lparr>entries = [(''a'', None)], files = [(''/b/a'', FFile ''x''), (''/b/l'', FFile ''y'')]\<rparr> = (Ok (), st') \<and>
    map_of (entries st') ''l'' = None"
proof -
  let ?st = "\<lparr>entries = [(''a'', None)], files = [(''/b/a'', FFile ''x''), (''/b/l'', FFile ''y'')]\<rparr> :: store"
  have reg: "regular_store ?st" by (auto simp: regular_store_def split: if_splits)
  have p: "path_join [''/b'', ''l''] = ''/b/l''" "path_join [''/b'', ''a''] = ''/b/a''" by code_simp+
  have run: "\<exists>st'. symlink_result example_io ''/b'' ''l'' ''a'' ?st = (Ok (), st')"
    using regular_follow [OF reg] by (simp add: symlink_result_def p example_io_def Let_def)
  then obtain st' where run: "symlink_result example_io ''/b'' ''l'' ''a'' ?st = (Ok (), st')" by blast
  have "\<And>call p. \<not> io_fails example_io call p" by (simp add: example_io_def)
  from existing_link_not_recorded [OF _ _ this run] p run show ?thesis by auto
qed

end
