(* ===== verification/Archives.thy ===== *)
theory Archives
  imports Collector_Results
begin

text \<open>
  The archive of a bundle and its extraction: \<^verbatim>\<open>ArchiveBundle\<close> of \<^verbatim>\<open>pkg/collect/result.go\<close> and
  \<^verbatim>\<open>ExtractTroubleshootBundle\<close> of \<^verbatim>\<open>pkg/analyze/download.go\<close>. An archive is the list of its headers with their
  contents; the encoding as tar and gzip is a parameter of no consequence here and left out, a failing write to
  the archive is \<open>Copy\<close> on its path.
\<close>

datatype tar_entry = TarFile string string | TarLink string string | TarDir string

definition archive_entry :: "io_env \<Rightarrow> string \<Rightarrow> string \<Rightarrow> disk \<Rightarrow> string \<Rightarrow> tar_entry option res" where
  "archive_entry env out bundle_path d name =
     (let p = path_join [bundle_path, name]; parent = path_dir bundle_path in
      if io_fails env Lstat p then Fail (Wrap ''failed to stat file'' (LibErr ''lstat''))
      else case map_of d p of
             None \<Rightarrow> Fail (Wrap ''failed to stat file'' (NotFound p))
           | Some FDir \<Rightarrow> Ok None
           | Some nd \<Rightarrow>
               bind_res (wrap_res ''failed to create relative file name'' (path_rel parent p)) (\<lambda>in_archive.
                 case nd of
                   FLink t \<Rightarrow>
                     bind_res (wrap_res ''failed to create relative file name'' (path_rel parent t)) (\<lambda>target.
                     bind_res (wrap_res ''failed to create relative path of symlink target file''
                         (path_rel (path_dir in_archive) target)) (\<lambda>rel.
                       if io_fails env Copy out then Fail (Wrap ''failed to write tar header'' (LibErr ''write''))
                       else Ok (Some (TarLink in_archive rel))))
                 | FFile c \<Rightarrow>
                     if io_fails env Copy out then Fail (Wrap ''failed to write tar header'' (LibErr ''write''))
                     else if io_fails env Copy p then Fail (Wrap ''failed to copy file into archive'' (LibErr ''read''))
                     else Ok (Some (TarFile in_archive c))
                 | FDir \<Rightarrow> Ok None))"

text \<open>The names in the order of the range over the map.\<close>

definition archive_bundle :: "io_env \<Rightarrow> string \<Rightarrow> string \<Rightarrow> string list \<Rightarrow> disk \<Rightarrow> tar_entry list res" where
  "archive_bundle env out bundle_path names d =
     (if io_fails env Create out then Fail (Wrap ''failed to create output file'' (LibErr ''open''))
      else map_res (List.map_filter id) (map_m (archive_entry env out bundle_path d) names))"

text \<open>A file is opened without truncation: what is longer than the new content stays behind it.\<close>

definition extract_entry :: "io_env \<Rightarrow> string \<Rightarrow> tar_entry \<Rightarrow> disk \<Rightarrow> disk res" where
  "extract_entry env dest e d =
     (case e of
        TarDir n \<Rightarrow>
          (let p = path_join [dest, n] in
           if io_fails env MkdirAll p then Fail (Wrap ''failed to mkdir'' (LibErr ''mkdir''))
           else Ok (if map_of d p = None then AList.update p FDir d else d))
      | TarFile n c \<Rightarrow>
          (let p = path_join [dest, n] in
           if io_fails env MkdirAll (path_dir p) then Fail (Wrap (''failed to mkdir for file '' @ n) (LibErr ''mkdir''))
           else case follow max_links d p of
                  None \<Rightarrow> Fail (Wrap ''failed to open tar file'' (LibErr ''open''))
                | Some q \<Rightarrow>
                    if io_fails env Create p \<or> map_of d q = Some FDir
                    then Fail (Wrap ''failed to open tar file'' (LibErr ''open''))
                    else if io_fails env Copy p then Fail (Wrap ''failed to extract file'' (LibErr ''write''))
                    else (let old = (case map_of d q of Some (FFile o') \<Rightarrow> o' | _ \<Rightarrow> [])
                          in Ok (AList.update q (FFile (c @ drop (length c) old)) d)))
      | TarLink n l \<Rightarrow>
          (let p = path_join [dest, n] in
           if io_fails env MkdirAll (path_dir p) then Fail (Wrap (''failed to mkdir for symlink '' @ n) (LibErr ''mkdir''))
           else if io_fails env Symlink p \<or> map_of d p \<noteq> None
           then Fail (Wrap ''failed to create symlink'' (LibErr ''symlink''))
           else Ok (AList.update p (FLink (path_join [path_dir p, l])) d)))"

text \<open>The headers of the archive, and whether it ends in an error of the reader.\<close>

fun extract_bundle :: "io_env \<Rightarrow> string \<Rightarrow> tar_entry list \<Rightarrow> go_error option \<Rightarrow> disk \<Rightarrow> disk res" where
  "extract_bundle env dest [] end d =
     (case end of None \<Rightarrow> Ok d | Some e \<Rightarrow> Fail (Wrap ''failed to read header from tar'' e))"
| "extract_bundle env dest (e # es) end d = bind_res (extract_entry env dest e d) (extract_bundle env dest es end)"

section \<open>Lemmas\<close>

definition no_faults :: "io_env \<Rightarrow> bool" where
  "no_faults env \<longleftrightarrow> (\<forall>call p. \<not> io_fails env call p)"

text \<open>A file, or a link to a path of the bundle; and the same node in another place.\<close>

definition bundle_node :: "string list \<Rightarrow> fnode \<Rightarrow> bool" where
  "bundle_node bs nd =
     (case nd of FFile c \<Rightarrow> True | FLink t \<Rightarrow> \<exists>ts. ts \<noteq> [] \<and> (\<forall>w\<in>set ts. plain w) \<and> t = rooted_path (bs @ ts) | FDir \<Rightarrow> False)"

definition moved_node :: "string list \<Rightarrow> string list \<Rightarrow> fnode \<Rightarrow> fnode \<Rightarrow> bool" where
  "moved_node bs ds nd nd' =
     (case nd of
        FFile c \<Rightarrow> nd' = FFile c
      | FLink t \<Rightarrow> \<exists>ts. (\<forall>w\<in>set ts. plain w) \<and> t = rooted_path (bs @ ts) \<and> nd' = FLink (rooted_path (ds @ ts))
      | FDir \<Rightarrow> False)"

lemma path_rel_below:
  assumes "\<forall>w\<in>set xs. plain w" and "\<forall>w\<in>set ys. plain w" and "ys \<noteq> []"
  shows "path_rel (rooted_path xs) (rooted_path (xs @ ys)) = Ok (relative_path ys)"
proof -
  have "strip_common (xs @ []) (xs @ ys) = ([], ys)" by (simp only: strip_common_base strip_common.simps)
  moreover have all: "\<forall>w\<in>set (xs @ ys). plain w" using assms by auto
  then have "rooted_path (xs @ ys) \<noteq> rooted_path xs" using rooted_path_inject [OF all assms(1)] assms(3) by simp
  moreover have "rooted_path xs \<noteq> ''.''" by (simp add: rooted_path_def)
  moreover note path_clean_rooted_plain [OF all]
  moreover have "path_elements (rooted_path (xs @ ys)) = xs @ ys" using all by (intro path_elements_rooted) (auto simp: plain_proper)
  ultimately show ?thesis using assms(1) by (simp add: path_rel_def Let_def plain_proper relative_path_def)
qed

lemma archived_entry:
  assumes env: "no_faults env" and bs: "\<forall>w\<in>set bs. plain w" "plain lb" and ns: "ns \<noteq> []" "\<forall>w\<in>set ns. plain w"
    and ds: "\<forall>w\<in>set ds. plain w"
    and nd: "map_of d (rooted_path (bs @ lb # ns)) = Some nd" "bundle_node (bs @ [lb]) nd"
  shows "\<exists>e. archive_entry env out (rooted_path (bs @ [lb])) d (relative_path ns) = Ok (Some e) \<and>
    (\<forall>d'. map_of d' (rooted_path (ds @ lb # ns)) = None \<longrightarrow>
      (\<exists>nd'. extract_entry env (rooted_path ds) e d' = Ok (AList.update (rooted_path (ds @ lb # ns)) nd' d') \<and>
         moved_node (bs @ [lb]) (ds @ [lb]) nd nd'))"
proof -
  have fine: "\<not> io_fails env call p" for call p using env by (simp add: no_faults_def)
  have p: "path_join [rooted_path (bs @ [lb]), relative_path ns] = rooted_path (bs @ lb # ns)"
    using path_join_rooted_plain [of ns "bs @ [lb]"] assms by auto
  have parent: "path_dir (rooted_path (bs @ [lb])) = rooted_path bs" using bs by simp
  have below: "path_rel (rooted_path bs) (rooted_path (bs @ lb # xs)) = Ok (relative_path (lb # xs))"
    if "\<forall>w\<in>set xs. plain w" for xs using path_rel_below [of bs "lb # xs"] bs that by simp
  have dest: "path_join [rooted_path ds, relative_path (lb # ns)] = rooted_path (ds @ lb # ns)"
    using path_join_rooted_plain [of "lb # ns" ds] assms by auto
  show ?thesis
  proof (cases nd)
    case (FFile c)
    have "follow max_links d' (rooted_path (ds @ lb # ns)) = Some (rooted_path (ds @ lb # ns))"
      if "map_of d' (rooted_path (ds @ lb # ns)) = None" for d'
      using that by (intro follow_no_link) simp
    with FFile nd(1) p parent below [OF ns(2)] dest show ?thesis
      by (simp add: archive_entry_def extract_entry_def fine moved_node_def Let_def)
  next
    case (FLink t)
    with nd(2) obtain ts where ts: "\<forall>w\<in>set ts. plain w" "t = rooted_path (bs @ lb # ts)" by (auto simp: bundle_node_def)
    from snoc_cases [OF ns(1)] obtain xs x where x: "ns = xs @ [x]" by blast
    have plain: "\<forall>w\<in>set (lb # xs). plain w" "plain x" "\<forall>w\<in>set (lb # ts). plain w" using bs ns ts x by auto
    have dir: "path_dir (relative_path (lb # ns)) = relative_path (lb # xs)"
      using path_dir_relative [OF plain(1,2)] by (simp add: x)
    obtain r where r: "path_rel (relative_path (lb # xs)) (relative_path (lb # ts)) = Ok r" "r \<noteq> []"
      "foldl (clean_step True) (rev (ds @ lb # xs)) (path_elements r) = rev (ds @ lb # ts)"
      using path_rel_relative [OF plain(1,3), of True ds] by auto
    have dest_dir: "path_dir (rooted_path (ds @ lb # ns)) = rooted_path (ds @ lb # xs)"
      using path_dir_rooted [of "ds @ lb # xs" x] plain ds by (auto simp: x)
    have "path_join [rooted_path (ds @ lb # xs), r] = rooted_path (ds @ lb # ts)"
      using path_join_rooted [of r "ds @ lb # xs"] r(2,3) plain ds by auto
    with FLink nd(1) p parent below [OF ns(2)] below [OF ts(1)] dest dir r(1) dest_dir ts show ?thesis
      by (auto simp: archive_entry_def extract_entry_def fine moved_node_def Let_def)
  qed (use nd(2) in \<open>simp add: bundle_node_def\<close>)
qed

lemma archive_and_extract:
  assumes env: "no_faults env" and bs: "\<forall>w\<in>set bs. plain w" "plain lb" and ds: "\<forall>w\<in>set ds. plain w"
    and nss: "distinct nss" "\<forall>ns\<in>set nss. ns \<noteq> [] \<and> (\<forall>w\<in>set ns. plain w) \<and>
      (\<exists>nd. map_of d (rooted_path (bs @ lb # ns)) = Some nd \<and> bundle_node (bs @ [lb]) nd)"
    and free: "\<forall>ns\<in>set nss. map_of d' (rooted_path (ds @ lb # ns)) = None"
  shows "\<exists>es d''. map_m (archive_entry env out (rooted_path (bs @ [lb])) d) (map relative_path nss) = Ok (map Some es) \<and>
    extract_bundle env (rooted_path ds) es None d' = Ok d'' \<and>
    (\<forall>ns\<in>set nss. \<exists>nd nd'. map_of d (rooted_path (bs @ lb # ns)) = Some nd \<and>
       map_of d'' (rooted_path (ds @ lb # ns)) = Some nd' \<and> moved_node (bs @ [lb]) (ds @ [lb]) nd nd') \<and>
    (\<forall>q. q \<notin> (\<lambda>ns. rooted_path (ds @ lb # ns)) ` set nss \<longrightarrow> map_of d'' q = map_of d' q)"
  using nss free
proof (induction nss arbitrary: d')
  case (Cons ns nss)
  let ?p = "\<lambda>ns. rooted_path (ds @ lb # ns)"
  from Cons.prems(2) obtain nd where ns: "ns \<noteq> []" "\<forall>w\<in>set ns. plain w"
    and nd: "map_of d (rooted_path (bs @ lb # ns)) = Some nd" "bundle_node (bs @ [lb]) nd" by auto
  from archived_entry [OF env bs ns ds nd, of out] obtain e where
    e: "archive_entry env out (rooted_path (bs @ [lb])) d (relative_path ns) = Ok (Some e)" and
    ext: "\<forall>d'. map_of d' (?p ns) = None \<longrightarrow>
      (\<exists>nd'. extract_entry env (rooted_path ds) e d' = Ok (AList.update (?p ns) nd' d') \<and>
         moved_node (bs @ [lb]) (ds @ [lb]) nd nd')"
    by (elim exE conjE) (erule (1) that)
  from Cons.prems(3) have "map_of d' (?p ns) = None" by simp
  with ext obtain nd' where x: "extract_entry env (rooted_path ds) e d' = Ok (AList.update (?p ns) nd' d')"
    "moved_node (bs @ [lb]) (ds @ [lb]) nd nd'" by blast
  have inj: "?p ns = ?p ms \<longleftrightarrow> ns = ms" if "ms \<in> set nss" for ms
  proof -
    have "\<forall>w\<in>set (ds @ lb # ns). plain w" "\<forall>w\<in>set (ds @ lb # ms). plain w" using Cons.prems(2) that ds bs ns by auto
    from rooted_path_inject [OF this] show ?thesis by (simp only: same_append_eq list.inject simp_thms)
  qed
  have other: "?p ms \<noteq> ?p ns" if "ms \<in> set nss" for ms
    using inj [OF that] Cons.prems(1) that by (metis distinct.simps(2))
  then have fresh: "?p ns \<notin> ?p ` set nss" by (metis (no_types, lifting) imageE)
  have free: "\<forall>ms\<in>set nss. map_of (AList.update (?p ns) nd' d') (?p ms) = None"
    using Cons.prems(3) other by (auto simp: update_conv')
  from Cons.prems(1,2) have "distinct nss" and "\<forall>ns\<in>set nss. ns \<noteq> [] \<and> (\<forall>w\<in>set ns. plain w) \<and>
      (\<exists>nd. map_of d (rooted_path (bs @ lb # ns)) = Some nd \<and> bundle_node (bs @ [lb]) nd)" by auto
  from Cons.IH [OF this free] obtain es d'' where rest:
    "map_m (archive_entry env out (rooted_path (bs @ [lb])) d) (map relative_path nss) = Ok (map Some es)"
    "extract_bundle env (rooted_path ds) es None (AList.update (?p ns) nd' d') = Ok d''"
    "\<forall>ns\<in>set nss. \<exists>nd nd'. map_of d (rooted_path (bs @ lb # ns)) = Some nd \<and>
       map_of d'' (?p ns) = Some nd' \<and> moved_node (bs @ [lb]) (ds @ [lb]) nd nd'"
    "\<forall>q. q \<notin> ?p ` set nss \<longrightarrow> map_of d'' q = map_of (AList.update (?p ns) nd' d') q"
    by (elim exE conjE) (erule (3) that)
  have "map_of d'' (?p ns) = Some nd'" using rest(4) fresh by (simp add: update_conv')
  with e x nd rest show ?case
    by (intro exI [of _ "e # es"] exI [of _ d'']) (auto simp: update_conv')
qed simp

section \<open>Properties\<close>

text \<open>
  C6. A bundle survives its archive: when every name of the results is a file of the bundle or a link to a path in
  it and no call fails, archiving and extracting elsewhere succeeds and gives every file with its content and
  every link to the moved path of its target, in a directory of the name of the bundle.
\<close>

theorem archive_extract_roundtrip:
  assumes "no_faults env" and "\<forall>w\<in>set bs. plain w" and "plain lb" and "\<forall>w\<in>set ds. plain w" and "distinct nss"
    and "\<forall>ns\<in>set nss. ns \<noteq> [] \<and> (\<forall>w\<in>set ns. plain w) \<and>
      (\<exists>nd. map_of d (rooted_path (bs @ lb # ns)) = Some nd \<and> bundle_node (bs @ [lb]) nd)"
  shows "\<exists>es d'. archive_bundle env out (rooted_path (bs @ [lb])) (map relative_path nss) d = Ok es \<and>
    extract_bundle env (rooted_path ds) es None [] = Ok d' \<and>
    (\<forall>ns\<in>set nss. \<exists>nd nd'. map_of d (rooted_path (bs @ lb # ns)) = Some nd \<and>
       map_of d' (rooted_path (ds @ lb # ns)) = Some nd' \<and> moved_node (bs @ [lb]) (ds @ [lb]) nd nd')"
proof -
  from archive_and_extract [OF assms, of "[]" out] obtain es d' where
    "map_m (archive_entry env out (rooted_path (bs @ [lb])) d) (map relative_path nss) = Ok (map Some es)"
    "extract_bundle env (rooted_path ds) es None [] = Ok d'"
    "\<forall>ns\<in>set nss. \<exists>nd nd'. map_of d (rooted_path (bs @ lb # ns)) = Some nd \<and>
       map_of d' (rooted_path (ds @ lb # ns)) = Some nd' \<and> moved_node (bs @ [lb]) (ds @ [lb]) nd nd'" by auto
  moreover have "List.map_filter id (map Some es) = es" by (simp add: List.map_filter_def comp_def)
  ultimately show ?thesis using assms(1) by (auto simp: archive_bundle_def no_faults_def)
qed

theorem archive_extract_roundtrip_witness:
  "\<exists>es d'. archive_bundle example_io ''/o'' (rooted_path [''tmp'', ''b'']) [relative_path [''x'', ''l''], relative_path [''f'']]
      [(rooted_path [''tmp'', ''b'', ''f''], FFile ''1''), (rooted_path [''tmp'', ''b'', ''x'', ''l''], FLink (rooted_path [''tmp'', ''b'', ''f'']))] = Ok es \<and>
    extract_bundle example_io (rooted_path [''d'']) es None [] = Ok d' \<and>
    map_of d' (rooted_path [''d'', ''b'', ''x'', ''l'']) = Some (FLink (rooted_path [''d'', ''b'', ''f'']))"
proof -
  let ?l = "rooted_path [''tmp'', ''b'', ''x'', ''l'']" and ?f = "rooted_path [''tmp'', ''b'', ''f'']"
  let ?d = "[(?f, FFile ''1''), (?l, FLink ?f)]"
  have neq: "?l \<noteq> ?f" by (simp add: rooted_path_def)
  have l: "map_of ?d (rooted_path ([''tmp''] @ ''b'' # [''x'', ''l''])) = Some (FLink ?f)" using neq by simp
  have f: "map_of ?d (rooted_path ([''tmp''] @ ''b'' # [''f''])) = Some (FFile ''1'')" by simp
  have "bundle_node ([''tmp''] @ [''b'']) (FLink ?f)"
    unfolding bundle_node_def by (simp, intro exI [of _ "[''f'']"]) (simp add: plain_def)
  moreover have "bundle_node ([''tmp''] @ [''b'']) (FFile ''1'')" by (simp add: bundle_node_def)
  ultimately have "\<forall>ns\<in>set [[''x'', ''l''], [''f'']]. ns \<noteq> [] \<and> (\<forall>w\<in>set ns. plain w) \<and>
      (\<exists>nd. map_of ?d (rooted_path ([''tmp''] @ ''b'' # ns)) = Some nd \<and> bundle_node ([''tmp''] @ [''b'']) nd)"
    using l f by (simp add: plain_def)
  from archive_extract_roundtrip [OF _ _ _ _ _ this, of example_io "[''d'']" "''/o''"]
  obtain es d' nd nd' where run: "archive_bundle example_io ''/o'' (rooted_path ([''tmp''] @ [''b''])) (map relative_path [[''x'', ''l''], [''f'']]) ?d = Ok es"
    "extract_bundle example_io (rooted_path [''d'']) es None [] = Ok d'" and
    "map_of ?d (rooted_path ([''tmp''] @ ''b'' # [''x'', ''l''])) = Some nd"
    "map_of d' (rooted_path ([''d''] @ ''b'' # [''x'', ''l''])) = Some nd'" "moved_node ([''tmp''] @ [''b'']) ([''d''] @ [''b'']) nd nd'"
    by (auto simp: no_faults_def example_io_def plain_def)
  then obtain ts where ts: "\<forall>w\<in>set ts. plain w" "?f = rooted_path ([''tmp'', ''b''] @ ts)"
    "map_of d' (rooted_path [''d'', ''b'', ''x'', ''l'']) = Some (FLink (rooted_path ([''d'', ''b''] @ ts)))"
    using l by (auto simp: moved_node_def)
  have "[''tmp'', ''b'', ''f''] = [''tmp'', ''b''] @ ts"
    by (rule rooted_path_inject [THEN iffD1, OF _ _ ts(2)]) (use ts(1) in \<open>auto simp: plain_def\<close>)
  with ts(3) run show ?thesis by auto
qed

text \<open>
  Extraction does not stay in its directory: a header whose name climbs out is written where it leads, here
  beside the directory the bundle is extracted to.
\<close>

theorem extraction_escapes:
  "extract_bundle example_io ''/tmp/x'' [TarFile ''../evil'' ''c''] None [] = Ok [(''/tmp/evil'', FFile ''c'')]"
  by code_simp

end
