(* ===== verification/Redact_Results.thy ===== *)
theory Redact_Results
  imports Collector_Results Redaction
begin

text \<open>
  Redacting the results of a run (\<^verbatim>\<open>RedactResult\<close> in \<^verbatim>\<open>pkg/collect/redact.go\<close>): one goroutine per entry, at most
  ten at a time, reads the file an entry leads to, redacts it with the engine of \<open>Redaction\<close> and replaces it.
  Goroutines interleave between reading and replacing; what one of them draws from the tokenizer is one step. How
  an archive inside a bundle is unpacked, redacted and packed again is the parameter \<open>repack\<close>. A panic of a
  redactor ends the process.
\<close>

definition path_ext :: "string \<Rightarrow> string" where
  "path_ext p =
     (let f = snd (path_split p)
      in if CHR ''.'' \<in> set f then CHR ''.'' # rev (takeWhile (\<lambda>c. c \<noteq> CHR ''.'') (rev f)) else [])"

definition is_archive :: "string \<Rightarrow> bool" where
  "is_archive f \<longleftrightarrow> path_ext f = ''.tar'' \<or> path_ext f = ''.tgz'' \<or> has_suffix ''.tar.gz'' f"

definition MAX_CONCURRENT_REDACTORS :: nat where "MAX_CONCURRENT_REDACTORS = 10"

text \<open>What a goroutine holds between reading and writing.\<close>

datatype pending = Replacing string string | Packing string string

record redact_env =
  env_libs :: libs
  env_specs :: "redact_spec option list"
  env_cache :: regex_cache
  env_io :: io_env
  env_repack :: "string \<Rightarrow> string \<Rightarrow> world \<Rightarrow> (string \<times> world) res"

record redact_state =
  waiting :: collected
  working :: "pending list"
  results :: store
  shared :: world
  errors :: "go_error list"

fun not_exist :: "go_error \<Rightarrow> bool" where
  "not_exist (Wrap m e) = not_exist e"
| "not_exist (NotFound n) = True"
| "not_exist e = False"

definition read_entry :: "string \<Rightarrow> string \<Rightarrow> store \<Rightarrow> (string \<times> string) option res" where
  "read_entry bundle_path f st =
     (case get_reader bundle_path f st of
        Ok c \<Rightarrow> Ok (Some (f, c))
      | Fail e \<Rightarrow> if not_exist e then Ok None else Fail (Wrap ''failed to get reader'' e)
      | Panic m \<Rightarrow> Panic m)"

text \<open>The file an entry leads to, with its content; a file that does not exist is passed over.\<close>

definition resolve_entry :: "io_env \<Rightarrow> string \<Rightarrow> store \<Rightarrow> string \<Rightarrow> string option \<Rightarrow> (string \<times> string) option res" where
  "resolve_entry io bundle_path st k v =
     (case v of
        Some c \<Rightarrow> Ok (Some (k, c))
      | None \<Rightarrow>
          let p = path_join [bundle_path, k] in
          if io_fails io Lstat p then Fail (Wrap ''failed to stat file'' (LibErr ''lstat''))
          else case map_of (files st) p of
                 None \<Rightarrow> Ok None
               | Some (FLink t) \<Rightarrow>
                   bind_res (wrap_res ''failed to get relative path'' (path_rel bundle_path t)) (\<lambda>f.
                     read_entry bundle_path f st)
               | Some _ \<Rightarrow> read_entry bundle_path k st)"

definition redact_content :: "redact_env \<Rightarrow> string \<Rightarrow> string \<Rightarrow> world \<Rightarrow> (pending \<times> world) res" where
  "redact_content re f c w =
     (if is_archive f
      then map_res (\<lambda>(c', w'). (Packing f c', w')) (env_repack re f c w)
      else case redact (env_libs re) f (env_specs re) (env_cache re) \<lparr>stream_data = c, stream_err = None\<rparr> w of
             Fail e \<Rightarrow> Fail (Wrap ''failed to redact io stream'' e)
           | Panic m \<Rightarrow> Panic m
           | Ok (out, w') \<Rightarrow>
               (case stream_err out of
                  Some e \<Rightarrow> Fail (Wrap ''failed to read redacted data'' e)
                | None \<Rightarrow> Ok (Replacing f (stream_data out), w')))"

definition start_entry :: "redact_env \<Rightarrow> string \<Rightarrow> string \<Rightarrow> string option \<Rightarrow> redact_state \<Rightarrow> redact_state res" where
  "start_entry re bundle_path k v s =
     (let s1 = s\<lparr>waiting := remove1 (k, v) (waiting s)\<rparr> in
      case resolve_entry (env_io re) bundle_path (results s) k v of
        Panic m \<Rightarrow> Panic m
      | Fail e \<Rightarrow> Ok (s1\<lparr>errors := e # errors s\<rparr>)
      | Ok None \<Rightarrow> Ok s1
      | Ok (Some (f, c)) \<Rightarrow>
          (case redact_content re f c (shared s) of
             Panic m \<Rightarrow> Panic m
           | Fail e \<Rightarrow> Ok (s1\<lparr>errors := e # errors s\<rparr>)
           | Ok (p, w) \<Rightarrow> Ok (s1\<lparr>working := p # working s, shared := w\<rparr>)))"

text \<open>The archive is written over the old one; everything else is replaced.\<close>

definition finish_entry :: "redact_env \<Rightarrow> string \<Rightarrow> pending \<Rightarrow> redact_state \<Rightarrow> redact_state" where
  "finish_entry re bundle_path p s =
     (let s1 = s\<lparr>working := remove1 p (working s)\<rparr> in
      case p of
        Replacing f c \<Rightarrow>
          (case replace_result (env_io re) bundle_path f (c, None) (results s) of
             (Ok _, st) \<Rightarrow> s1\<lparr>results := st\<rparr>
           | (Fail e, st) \<Rightarrow> s1\<lparr>results := st, errors := Wrap ''failed to create redacted result'' e # errors s\<rparr>
           | (Panic m, st) \<Rightarrow> s1\<lparr>results := st, errors := LibErr m # errors s\<rparr>)
      | Packing f c \<Rightarrow>
          (case create_file (env_io re) (path_join [bundle_path, f]) (results s) of
             None \<Rightarrow>
               s1\<lparr>errors := Wrap ''failed to re-compress file'' (Wrap ''failed to open destination file'' (LibErr ''open'')) # errors s\<rparr>
           | Some q \<Rightarrow> s1\<lparr>results := set_file q (FFile c) (results s)\<rparr>))"

inductive redact_step :: "redact_env \<Rightarrow> string \<Rightarrow> redact_state \<Rightarrow> redact_state \<Rightarrow> bool" for re bundle_path where
  start: "(k, v) \<in> set (waiting s) \<Longrightarrow> length (working s) < MAX_CONCURRENT_REDACTORS \<Longrightarrow>
    start_entry re bundle_path k v s = Ok s' \<Longrightarrow> redact_step re bundle_path s s'"
| finish: "p \<in> set (working s) \<Longrightarrow> redact_step re bundle_path s (finish_entry re bundle_path p s)"

definition begin_redaction :: "store \<Rightarrow> world \<Rightarrow> redact_state" where
  "begin_redaction st w = \<lparr>waiting = entries st, working = [], results = st, shared = w, errors = []\<rparr>"

definition redaction_over :: "redact_state \<Rightarrow> bool" where
  "redaction_over s \<longleftrightarrow> waiting s = [] \<and> working s = []"

section \<open>The invariant\<close>

definition redacted_output :: "redact_env \<Rightarrow> string \<Rightarrow> string \<Rightarrow> bool" where
  "redacted_output re f c \<longleftrightarrow>
     (\<exists>i w w' out. redact (env_libs re) f (env_specs re) (env_cache re) \<lparr>stream_data = i, stream_err = None\<rparr> w = Ok (out, w') \<and>
        stream_err out = None \<and> c = stream_data out)"

definition node_at :: "string list \<Rightarrow> store \<Rightarrow> string \<Rightarrow> fnode option" where
  "node_at bs st k = map_of (files st) (path_join [rooted_path bs, k])"

text \<open>Names with plain elements; an entry in memory is no link; a link leads to a file of the bundle.\<close>

definition redactable :: "io_env \<Rightarrow> string list \<Rightarrow> store \<Rightarrow> bool" where
  "redactable io bs st \<longleftrightarrow>
     (\<forall>w\<in>set bs. plain w) \<and> plain (tmp_name io) \<and> distinct (map fst (entries st)) \<and>
     (\<forall>(k, v)\<in>set (entries st). k \<in> file_names io \<and>
        (v \<noteq> None \<longrightarrow> (\<forall>t. node_at bs st k \<noteq> Some (FLink t))) \<and>
        (v = None \<longrightarrow> (\<forall>t. node_at bs st k = Some (FLink t) \<longrightarrow>
           (\<exists>f\<in>file_names io. t = path_join [rooted_path bs, f] \<and> (\<exists>c. node_at bs st f = Some (FFile c))))))"

definition leads_to :: "io_env \<Rightarrow> string list \<Rightarrow> store \<Rightarrow> string \<Rightarrow> string option \<Rightarrow> string \<Rightarrow> bool" where
  "leads_to io bs st k v f \<longleftrightarrow>
     f = k \<and> (v \<noteq> None \<or> (\<exists>c. node_at bs st k = Some (FFile c))) \<or>
     v = None \<and> f \<in> file_names io \<and> node_at bs st k = Some (FLink (path_join [rooted_path bs, f]))"

definition pending_ok :: "redact_env \<Rightarrow> string list \<Rightarrow> store \<Rightarrow> pending \<Rightarrow> bool" where
  "pending_ok re bs st p =
     (case p of
        Replacing f c \<Rightarrow> f \<in> file_names (env_io re) \<and> (\<forall>t. node_at bs st f \<noteq> Some (FLink t)) \<and> \<not> is_archive f \<and>
          redacted_output re f c
      | Packing f c \<Rightarrow> f \<in> file_names (env_io re) \<and> (\<forall>t. node_at bs st f \<noteq> Some (FLink t)) \<and> is_archive f)"

text \<open>The nodes keep their kind: links stay as they are, files stay files.\<close>

definition same_kinds :: "io_env \<Rightarrow> string list \<Rightarrow> store \<Rightarrow> store \<Rightarrow> bool" where
  "same_kinds io bs st st' \<longleftrightarrow>
     (\<forall>k\<in>file_names io. (\<forall>t. node_at bs st' k = Some (FLink t) \<longleftrightarrow> node_at bs st k = Some (FLink t)) \<and>
        (\<forall>c. node_at bs st k = Some (FFile c) \<longrightarrow> (\<exists>c'. node_at bs st' k = Some (FFile c'))))"

definition settled :: "redact_env \<Rightarrow> string list \<Rightarrow> redact_state \<Rightarrow> string \<Rightarrow> bool" where
  "settled re bs s f \<longleftrightarrow>
     (\<exists>c. Replacing f c \<in> set (working s)) \<or>
     (\<exists>c. node_at bs (results s) f = Some (FFile c) \<and> redacted_output re f c)"

definition covered :: "redact_env \<Rightarrow> string list \<Rightarrow> store \<Rightarrow> redact_state \<Rightarrow> bool" where
  "covered re bs st s \<longleftrightarrow>
     (\<forall>(k, v)\<in>set (entries st). (k, v) \<in> set (waiting s) \<or>
        (\<forall>f. leads_to (env_io re) bs st k v f \<longrightarrow> \<not> is_archive f \<longrightarrow> settled re bs s f))"

definition redact_inv :: "redact_env \<Rightarrow> string list \<Rightarrow> store \<Rightarrow> redact_state \<Rightarrow> bool" where
  "redact_inv re bs st s \<longleftrightarrow>
     (errors s = [] \<longrightarrow>
        entries (results s) = entries st \<and> set (waiting s) \<subseteq> set (entries st) \<and>
        same_kinds (env_io re) bs st (results s) \<and> (\<forall>p\<in>set (working s). pending_ok re bs st p) \<and>
        covered re bs st s)"

lemma path_rel_name:
  assumes "\<forall>w\<in>set bs. plain w" and "f \<in> file_names io"
  shows "path_rel (rooted_path bs) (path_join [rooted_path bs, f]) = Ok f"
proof -
  from assms(2) obtain ns y where f: "f = relative_path (ns @ [y])" "\<forall>w\<in>set ns. plain w" "plain y" by (rule file_names_cases)
  have all: "\<forall>w\<in>set (bs @ ns @ [y]). plain w" "\<forall>w\<in>set (ns @ [y]). plain w" using assms(1) f by auto
  have sc: "strip_common (bs @ []) (bs @ ns @ [y]) = ([], ns @ [y])" by (simp only: strip_common_base strip_common.simps)
  have neq: "rooted_path (bs @ ns @ [y]) \<noteq> rooted_path bs" using rooted_path_inject [OF all(1) assms(1)] by simp
  have el: "path_elements (rooted_path (bs @ ns @ [y])) = bs @ ns @ [y]" "path_elements (rooted_path bs) = bs"
    by (intro path_elements_rooted; use all assms(1) in \<open>auto simp: plain_proper\<close>)+
  have "rooted_path bs \<noteq> ''.''" by (simp add: rooted_path_def)
  with sc neq el path_clean_rooted_plain [OF all(1)] assms(1) show ?thesis
    unfolding f(1) file_path [OF assms(1) f(2,3)] by (simp add: path_rel_def Let_def relative_path_def)
qed

lemma read_file_at:
  assumes "node_at bs st f = Some (FFile c)"
  shows "\<exists>c'. read_entry (rooted_path bs) f st = Ok (Some (f, c'))"
proof -
  have "follow max_links (files st) (path_join [rooted_path bs, f]) = Some (path_join [rooted_path bs, f])"
    using assms by (intro follow_no_link) (simp add: node_at_def)
  then have "read_path (files st) (path_join [rooted_path bs, f]) = Ok c"
    using assms by (simp add: read_path_def node_at_def)
  then show ?thesis by (auto simp: read_entry_def get_reader_def split: option.split)
qed

text \<open>An entry that leads to a file is resolved to it, or fails.\<close>

lemma resolve_leads_to:
  assumes "redactable io bs st" and "same_kinds io bs st st'" and "(k, v) \<in> set (entries st)" and "leads_to io bs st k v f"
    and "resolve_entry io' (rooted_path bs) st' k v = Ok r"
  shows "\<exists>c. r = Some (f, c)"
proof (cases v)
  case (Some c)
  with assms(4,5) show ?thesis by (auto simp: leads_to_def resolve_entry_def)
next
  case None
  from assms(1,3) have k: "k \<in> file_names io" and bs: "\<forall>w\<in>set bs. plain w" by (auto simp: redactable_def)
  from assms(4) None consider c where "f = k" "node_at bs st k = Some (FFile c)"
    | "f \<in> file_names io" "node_at bs st k = Some (FLink (path_join [rooted_path bs, f]))"
    by (auto simp: leads_to_def)
  then show ?thesis
  proof cases
    case (1 c)
    with assms(2) k obtain c' where c': "node_at bs st' k = Some (FFile c')" unfolding same_kinds_def by blast
    from read_file_at [OF c'] 1 None assms(5) c' show ?thesis
      by (auto simp: resolve_entry_def Let_def node_at_def split: if_splits)
  next
    case 2
    with assms(2) k have link: "node_at bs st' k = Some (FLink (path_join [rooted_path bs, f]))" unfolding same_kinds_def by blast
    from assms(1,3) None 2 obtain f' c where "f' \<in> file_names io" "path_join [rooted_path bs, f] = path_join [rooted_path bs, f']"
      "node_at bs st f' = Some (FFile c)" unfolding redactable_def by fastforce
    with file_path_inject [OF bs] 2(1) have "node_at bs st f = Some (FFile c)" by metis
    with assms(2) 2(1) obtain c' where "node_at bs st' f = Some (FFile c')" unfolding same_kinds_def by blast
    from read_file_at [OF this] path_rel_name [OF bs 2(1)] link None assms(5) show ?thesis
      by (auto simp: resolve_entry_def Let_def node_at_def split: if_splits)
  qed
qed

text \<open>What an entry is resolved to is a file of the bundle and no link.\<close>

lemma resolve_no_link:
  assumes "redactable io bs st" and "same_kinds io bs st st'" and "(k, v) \<in> set (entries st)"
    and "resolve_entry io' (rooted_path bs) st' k v = Ok (Some (f, c))"
  shows "f \<in> file_names io \<and> (\<forall>t. node_at bs st f \<noteq> Some (FLink t))"
proof -
  from assms(1,3) have k: "k \<in> file_names io" and bs: "\<forall>w\<in>set bs. plain w" by (auto simp: redactable_def)
  have read: "read_entry b g st' = Ok (Some (f, c)) \<Longrightarrow> f = g" for b g
    by (auto simp: read_entry_def split: res.splits if_splits)
  show ?thesis
  proof (cases "\<exists>t. v = None \<and> node_at bs st' k = Some (FLink t)")
    case True
    then obtain t where v: "v = None" and link: "node_at bs st' k = Some (FLink t)" by blast
    with assms(2) k have "node_at bs st k = Some (FLink t)" unfolding same_kinds_def by blast
    with assms(1,3) v obtain g c' where g: "g \<in> file_names io" "t = path_join [rooted_path bs, g]"
      "node_at bs st g = Some (FFile c')" unfolding redactable_def by fastforce
    from assms(4) v link path_rel_name [OF bs g(1)] g(2) have "f = g"
      by (auto simp: resolve_entry_def Let_def node_at_def split: if_splits dest: read)
    with g show ?thesis by simp
  next
    case False
    have "f = k"
      using assms(4) False
      by (auto simp: resolve_entry_def Let_def node_at_def split: option.splits if_splits fnode.splits dest: read)
    moreover have "\<forall>t. node_at bs st k \<noteq> Some (FLink t)"
    proof (cases v)
      case (Some d)
      with assms(1,3) show ?thesis unfolding redactable_def by fastforce
    next
      case None
      with False assms(2) k show ?thesis unfolding same_kinds_def by blast
    qed
    ultimately show ?thesis using k by simp
  qed
qed

lemma redact_content_pending:
  assumes "redact_content re f c w = Ok (p, w')" and "f \<in> file_names (env_io re)" and "\<forall>t. node_at bs st f \<noteq> Some (FLink t)"
  shows "pending_ok re bs st p \<and> (\<not> is_archive f \<longrightarrow> (\<exists>c'. p = Replacing f c'))"
  using assms
proof (cases "is_archive f")
  case True
  with assms show ?thesis by (auto simp: redact_content_def pending_ok_def res_simps)
next
  case False
  with assms(1) obtain out where "redact (env_libs re) f (env_specs re) (env_cache re) \<lparr>stream_data = c, stream_err = None\<rparr> w = Ok (out, w')"
    "stream_err out = None" "p = Replacing f (stream_data out)"
    by (auto simp: redact_content_def split: res.splits option.splits)
  moreover from this have "redacted_output re f (stream_data out)" unfolding redacted_output_def by blast
  ultimately show ?thesis using False assms(2,3) by (simp add: pending_ok_def)
qed

text \<open>Setting a file that is no link, and dropping a temporary file, keeps the kinds of all nodes.\<close>

lemma set_file_node:
  assumes "\<forall>w\<in>set bs. plain w" and "f \<in> file_names io" and "k \<in> file_names io"
  shows "node_at bs (set_file (path_join [rooted_path bs, f]) nd st) k = (if k = f then Some nd else node_at bs st k)"
  using file_path_inject [OF assms(1,3,2)] by (auto simp: node_at_def)

lemma set_file_kinds:
  assumes "\<forall>w\<in>set bs. plain w" and "f \<in> file_names io" and "\<forall>t. node_at bs st f \<noteq> Some (FLink t)" and "same_kinds io bs st st'"
  shows "same_kinds io bs st (set_file (path_join [rooted_path bs, f]) (FFile c) st')"
  using assms(3,4) set_file_node [OF assms(1,2)] unfolding same_kinds_def by auto

lemma replaced_store:
  assumes "replace_result io (rooted_path bs) f (c, None) st = (Ok u, st')"
  shows "st' = set_file (path_join [rooted_path bs, f]) (FFile c)
    (del_file (path_join [path_dir (path_join [rooted_path bs, f]), tmp_name io])
       (del_file (path_join [rooted_path bs, f])
          (set_file (path_join [path_dir (path_join [rooted_path bs, f]), tmp_name io]) (FFile c) st)))"
  using assms by (auto simp: replace_result_def Let_def copied_def split: if_splits)

lemma replaced_node:
  assumes "replace_result io (rooted_path bs) f (c, None) st = (Ok u, st')"
    and "\<forall>w\<in>set bs. plain w" and "plain (tmp_name io)" and "f \<in> file_names io" and "k \<in> file_names io"
  shows "node_at bs st' k = (if k = f then Some (FFile c) else node_at bs st k)"
  using file_path_not_temp [OF assms(2,5,4,3)] file_path_inject [OF assms(2,5,4)]
  by (auto simp: node_at_def replaced_store [OF assms(1)])

lemma replaced_entries: "replace_result io (rooted_path bs) f (c, None) st = (Ok u, st') \<Longrightarrow> entries st' = entries st"
  by (drule replaced_store) simp

lemma covered_mono:
  assumes "covered re bs st s" and "redactable (env_io re) bs st"
    and "\<And>k v. (k, v) \<in> set (entries st) \<Longrightarrow> (k, v) \<in> set (waiting s) \<Longrightarrow> (k, v) \<in> set (waiting s') \<or>
      (\<forall>f. leads_to (env_io re) bs st k v f \<longrightarrow> \<not> is_archive f \<longrightarrow> settled re bs s' f)"
    and "\<And>g. g \<in> file_names (env_io re) \<Longrightarrow> \<not> is_archive g \<Longrightarrow> settled re bs s g \<Longrightarrow> settled re bs s' g"
  shows "covered re bs st s'"
proof -
  have "settled re bs s' f"
    if kv: "(k, v) \<in> set (entries st)" "(k, v) \<notin> set (waiting s')" and f: "leads_to (env_io re) bs st k v f" "\<not> is_archive f"
    for k v f
  proof -
  have "k \<in> file_names (env_io re)" using assms(2) kv(1) by (auto simp: redactable_def)
  with f(1) have names: "f \<in> file_names (env_io re)" by (auto simp: leads_to_def)
  show ?thesis
  proof (cases "(k, v) \<in> set (waiting s)")
    case True
    with assms(3) [OF kv(1)] kv(2) f show ?thesis by blast
  next
    case False
    with assms(1) kv(1) f have "settled re bs s f" unfolding covered_def by blast
    with assms(4) names f(2) show ?thesis by blast
  qed
  qed
  then show ?thesis unfolding covered_def by fast
qed

lemma start_keeps:
  assumes inv: "redact_inv re bs st s" and red: "redactable (env_io re) bs st"
    and kv: "(k, v) \<in> set (waiting s)" and run: "start_entry re (rooted_path bs) k v s = Ok s'"
  shows "redact_inv re bs st s'"
proof (cases "errors s' = []")
  case True
  from run True have errs: "errors s = []"
    by (auto simp: start_entry_def Let_def split: res.splits option.splits)
  let ?todo = "remove1 (k, v) (waiting s)"
  from inv errs have base: "entries (results s) = entries st" "set (waiting s) \<subseteq> set (entries st)"
    "same_kinds (env_io re) bs st (results s)" "\<forall>p\<in>set (working s). pending_ok re bs st p"
    "covered re bs st s"
    by (auto simp: redact_inv_def)
  from kv base(2) have kv0: "(k, v) \<in> set (entries st)" by blast
  from run True obtain r where r: "resolve_entry (env_io re) (rooted_path bs) (results s) k v = Ok r"
    by (auto simp: start_entry_def Let_def split: res.splits)
  have todo: "set ?todo \<subseteq> set (entries st)" using base(2) set_remove1_subset by fastforce
  have others: "(k', v') \<in> set ?todo \<or> (k', v') = (k, v)" if "(k', v') \<in> set (waiting s)" for k' v'
    using that by (metis in_set_remove1)
  show ?thesis
  proof (cases r)
    case None
    with run r have s': "s' = s\<lparr>waiting := ?todo\<rparr>" by (auto simp: start_entry_def Let_def)
    have "\<not> leads_to (env_io re) bs st k v f" for f
      using resolve_leads_to [OF red base(3) kv0 _ r] None by blast
    then have "covered re bs st s'"
      by (intro covered_mono [OF base(5) red]) (use others in \<open>auto simp: s' settled_def\<close>)
    with base(1,3,4) todo show ?thesis by (simp add: redact_inv_def s')
  next
    case (Some fc)
    obtain f c where fc: "fc = (f, c)" by fastforce
    with run r True Some obtain p w where p: "redact_content re f c (shared s) = Ok (p, w)"
      and s': "s' = s\<lparr>waiting := ?todo, working := p # working s, shared := w\<rparr>"
      by (auto simp: start_entry_def Let_def split: res.splits)
    from resolve_no_link [OF red base(3) kv0] r Some fc
    have f: "f \<in> file_names (env_io re)" "\<forall>t. node_at bs st f \<noteq> Some (FLink t)" by blast+
    from redact_content_pending [OF p f] have pend: "pending_ok re bs st p" "\<not> is_archive f \<longrightarrow> (\<exists>c'. p = Replacing f c')" by blast+
    have only: "g = f" if "leads_to (env_io re) bs st k v g" for g
      using resolve_leads_to [OF red base(3) kv0 that r] Some fc by blast
    have settled: "settled re bs s' g" if "settled re bs s g" for g
      using that by (auto simp: settled_def s')
    have "settled re bs s' f" if "\<not> is_archive f" using pend(2) that by (auto simp: settled_def s')
    with only have "leads_to (env_io re) bs st k v g \<Longrightarrow> \<not> is_archive g \<Longrightarrow> settled re bs s' g" for g by blast
    moreover have "waiting s' = ?todo" by (simp add: s')
    ultimately have "covered re bs st s'"
      using others settled by (intro covered_mono [OF base(5) red]) fastforce+
    with base(1,3,4) todo pend(1) show ?thesis by (simp add: redact_inv_def s')
  qed
qed (simp add: redact_inv_def)

lemma finish_keeps:
  assumes inv: "redact_inv re bs st s" and red: "redactable (env_io re) bs st" and p: "p \<in> set (working s)"
  shows "redact_inv re bs st (finish_entry re (rooted_path bs) p s)" (is "redact_inv _ _ _ ?s'")
proof (cases "errors ?s' = []")
  case True
  then have errs: "errors s = []"
    by (auto simp: finish_entry_def Let_def split: pending.splits prod.splits res.splits option.splits)
  from inv errs have base: "entries (results s) = entries st" "set (waiting s) \<subseteq> set (entries st)"
    "same_kinds (env_io re) bs st (results s)" "\<forall>p\<in>set (working s). pending_ok re bs st p"
    "covered re bs st s"
    by (auto simp: redact_inv_def)
  from red have bs: "\<forall>w\<in>set bs. plain w" and tmp: "plain (tmp_name (env_io re))" by (auto simp: redactable_def)
  have keys: "k \<in> file_names (env_io re)" if "(k, v) \<in> set (entries st)" for k v using red that by (auto simp: redactable_def)
  have names: "g \<in> file_names (env_io re)" if "(k, v) \<in> set (entries st)" "leads_to (env_io re) bs st k v g" for k v g
    using keys [OF that(1)] that(2) by (auto simp: leads_to_def)
  have work: "set (remove1 p (working s)) \<subseteq> set (working s)" by (rule set_remove1_subset)
  show ?thesis
  proof (cases p)
    case (Replacing f c)
    with p base(4) have f: "f \<in> file_names (env_io re)" "\<forall>t. node_at bs st f \<noteq> Some (FLink t)" "redacted_output re f c"
      by (force simp: pending_ok_def)+
    from True Replacing obtain u st1 where rep: "replace_result (env_io re) (rooted_path bs) f (c, None) (results s) = (Ok u, st1)"
      by (auto simp: finish_entry_def Let_def split: prod.splits res.splits)
    with Replacing have s': "?s' = s\<lparr>working := remove1 p (working s), results := st1\<rparr>" by (simp add: finish_entry_def Let_def)
    have node: "node_at bs st1 k = (if k = f then Some (FFile c) else node_at bs (results s) k)"
      if "k \<in> file_names (env_io re)" for k by (rule replaced_node [OF rep bs tmp f(1) that])
    have kinds: "same_kinds (env_io re) bs st st1"
      using base(3) f(2) node unfolding same_kinds_def by auto
    have settled: "settled re bs ?s' g" if "settled re bs s g" "g \<in> file_names (env_io re)" for g
    proof (cases "g = f")
      case True
      with node [OF that(2)] f(3) show ?thesis by (auto simp: settled_def s')
    next
      case False
      then have "Replacing g x \<noteq> p" for x using Replacing by simp
      with False node [OF that(2)] that(1) show ?thesis unfolding settled_def s' by (auto simp: in_set_remove1)
    qed
    have "covered re bs st ?s'"
      by (rule covered_mono [OF base(5) red]) (use settled in \<open>auto simp: s'\<close>)
    with base work kinds replaced_entries [OF rep] show ?thesis by (auto simp: redact_inv_def s')
  next
    case (Packing f c)
    with p base(4) have f: "f \<in> file_names (env_io re)" "\<forall>t. node_at bs st f \<noteq> Some (FLink t)" "is_archive f"
      by (force simp: pending_ok_def)+
    from True Packing obtain q where q: "create_file (env_io re) (path_join [rooted_path bs, f]) (results s) = Some q"
      by (auto simp: finish_entry_def Let_def split: option.splits)
    have "\<forall>t. node_at bs (results s) f \<noteq> Some (FLink t)" using base(3) f unfolding same_kinds_def by blast
    then have "follow max_links (files (results s)) (path_join [rooted_path bs, f]) = Some (path_join [rooted_path bs, f])"
      by (intro follow_no_link) (simp add: node_at_def)
    with q have "q = path_join [rooted_path bs, f]" by (auto simp: create_file_def split: if_splits)
    with Packing q have s': "?s' = s\<lparr>working := remove1 p (working s),
        results := set_file (path_join [rooted_path bs, f]) (FFile c) (results s)\<rparr>" by (simp add: finish_entry_def Let_def)
    have kinds: "same_kinds (env_io re) bs st (set_file (path_join [rooted_path bs, f]) (FFile c) (results s))"
      by (rule set_file_kinds [OF bs f(1,2) base(3)])
    have settled: "settled re bs ?s' g" if "settled re bs s g" "g \<in> file_names (env_io re)" "\<not> is_archive g" for g
    proof -
      have "Replacing g x \<noteq> p" for x using Packing by simp
      with set_file_node [OF bs f(1) that(2), of "FFile c" "results s"] that f(3) show ?thesis
        unfolding settled_def s' by (auto simp: in_set_remove1)
    qed
    have "covered re bs st ?s'"
      by (rule covered_mono [OF base(5) red]) (use settled in \<open>auto simp: s'\<close>)
    with base work kinds show ?thesis by (auto simp: redact_inv_def s')
  qed
qed (simp add: redact_inv_def)

lemma begin_inv: "redact_inv re bs st (begin_redaction st w)"
  by (auto simp: redact_inv_def begin_redaction_def same_kinds_def covered_def)

lemma reachable_inv:
  assumes "(redact_step re (rooted_path bs))\<^sup>*\<^sup>* (begin_redaction st w) s" and "redactable (env_io re) bs st"
  shows "redact_inv re bs st s"
  using assms(1)
proof (induction rule: rtranclp_induct)
  case base
  show ?case by (rule begin_inv)
next
  case (step s s')
  from step.hyps(2) show ?case
  proof cases
    case (start k v)
    with start_keeps [OF step.IH assms(2)] show ?thesis by blast
  next
    case (finish p)
    with finish_keeps [OF step.IH assms(2)] show ?thesis by blast
  qed
qed

section \<open>Termination\<close>

definition work_left :: "redact_state \<Rightarrow> nat" where
  "work_left s = 2 * length (waiting s) + length (working s)"

lemma length_remove1_less: "x \<in> set xs \<Longrightarrow> length (remove1 x xs) < length xs"
  using length_pos_if_in_set [of x xs] by (simp add: length_remove1)

lemma start_work:
  assumes "(k, v) \<in> set (waiting s)" and "start_entry re b k v s = Ok s'"
  shows "work_left s' < work_left s"
  using assms(2) length_remove1_less [OF assms(1)]
  by (auto simp: start_entry_def work_left_def Let_def split: res.splits option.splits)

lemma finish_fields:
  "waiting (finish_entry re b p s) = waiting s" "working (finish_entry re b p s) = remove1 p (working s)"
  by (auto simp: finish_entry_def Let_def split: pending.splits prod.splits res.splits option.splits)

lemma step_work: "redact_step re b s s' \<Longrightarrow> work_left s' < work_left s"
proof (induction rule: redact_step.induct)
  case (finish p s)
  with length_remove1_less [of p "working s"] show ?case by (simp add: work_left_def finish_fields)
qed (rule start_work)

text \<open>With room for one more goroutine an entry starts or panics; without room one can finish.\<close>

lemma redaction_progress:
  assumes "\<not> redaction_over s"
  shows "(\<exists>s'. redact_step re b s s') \<or> (\<exists>(k, v)\<in>set (waiting s). \<exists>m. start_entry re b k v s = Panic m)"
proof (cases "working s")
  case Nil
  with assms obtain k v where kv: "(k, v) \<in> set (waiting s)" by (cases "waiting s") (auto simp: redaction_over_def)
  have room: "length (working s) < MAX_CONCURRENT_REDACTORS" using Nil by (simp add: MAX_CONCURRENT_REDACTORS_def)
  have "\<nexists>e. start_entry re b k v s = Fail e"
    by (auto simp: start_entry_def Let_def split: res.splits option.splits)
  then consider s' where "start_entry re b k v s = Ok s'" | m where "start_entry re b k v s = Panic m"
    by (cases "start_entry re b k v s") auto
  then show ?thesis using kv redact_step.start [where re = re and bundle_path = b, OF kv room] by cases blast+
next
  case (Cons p ps)
  then have "redact_step re b s (finish_entry re b p s)" by (intro redact_step.finish) simp
  then show ?thesis by blast
qed

lemma steps_work: "(redact_step re b ^^ n) s s' \<Longrightarrow> work_left s' + n \<le> work_left s"
proof (induction n arbitrary: s')
  case (Suc n)
  then obtain s1 where "(redact_step re b ^^ n) s s1" "redact_step re b s1 s'" by auto
  with Suc.IH [of s1] step_work [of re b s1 s'] show ?case by simp
qed simp

lemma redaction_reaches_end:
  "\<exists>s'. (redact_step re b)\<^sup>*\<^sup>* s s' \<and>
     (redaction_over s' \<or> (\<exists>(k, v)\<in>set (waiting s'). \<exists>m. start_entry re b k v s' = Panic m))"
proof (induction "work_left s" arbitrary: s rule: less_induct)
  case less
  show ?case
  proof (cases "\<exists>s1. redact_step re b s s1")
    case True
    then obtain s1 where s1: "redact_step re b s s1" ..
    from less [OF step_work [OF s1]] s1 show ?thesis by (meson converse_rtranclp_into_rtranclp)
  next
    case False
    with redaction_progress [of s re b] show ?thesis by blast
  qed
qed

lemma workers_bounded: "(redact_step re b)\<^sup>*\<^sup>* (begin_redaction st w) s \<Longrightarrow> length (working s) \<le> MAX_CONCURRENT_REDACTORS"
proof (induction rule: rtranclp_induct)
  case base
  show ?case by (simp add: begin_redaction_def)
next
  case (step s s')
  from step.hyps(2) show ?case
  proof cases
    case (start k v)
    then show ?thesis by (auto simp: start_entry_def Let_def split: res.splits option.splits)
  next
    case (finish p)
    have "length (remove1 p (working s)) \<le> length (working s)" by (simp add: length_remove1)
    with finish step.IH show ?thesis by (simp add: finish_fields)
  qed
qed

section \<open>A run\<close>

text \<open>A file of empty lines stays one: no built-in expression selects an empty line.\<close>

definition blank_stream :: "nat \<Rightarrow> stream" where
  "blank_stream n = \<lparr>stream_data = unlines (replicate n []), stream_err = None\<rparr>"

lemma built_in_scans_empty:
  "list_all (\<lambda>(re, scan, name). \<not> re_match (scan_of scan) []) single_lines"
  "list_all (\<lambda>(sel, scan, re, name). \<not> re_match (scan_of scan) []) double_lines"
  by code_simp+

lemma to_lower_Nil: "to_lower [] = []"
  by (simp add: to_lower_def)

lemma redact_lines_blank:
  "clean [] w = Ok ([], w) \<Longrightarrow> redact_lines clean info k (replicate n []) w = Ok (replicate n [], w)"
  by (induction n arbitrary: k) (simp_all add: log_change_def)

lemma single_line_blank:
  assumes "\<not> scan_passes (lr_scan r) []"
  shows "single_line_redact hmac now r (blank_stream n) w = Ok (blank_stream n, w)"
proof -
  have "scan_lines SCANNER_MAX_SIZE (unlines (replicate n [])) = (replicate n [], False)"
    by (rule scan_unlines) (simp add: SCANNER_MAX_SIZE_def)
  moreover have "single_line_clean hmac now r [] w = Ok ([], w)" using assms by (simp add: single_line_clean_def)
  ultimately show ?thesis
    by (simp add: single_line_redact_def scan_redact_def blank_stream_def redact_lines_blank)
qed

lemma multi_loop_blank:
  assumes "\<not> scan_passes (ml_scan r) []"
  shows "multi_loop hmac now r [] [] (replicate n []) k w = Ok (replicate (Suc n) [], True, [], w)"
proof (induction n arbitrary: k)
  case 0
  with assms show ?case by (subst multi_loop.simps) (simp add: get_next_two_lines_def)
next
  case (Suc n)
  with assms show ?case by (subst multi_loop.simps) (simp add: get_next_two_lines_def)
qed

lemma multi_line_blank:
  assumes "\<not> scan_passes (ml_scan r) []"
  shows "\<exists>m. multi_line_redact hmac now r (blank_stream n) w = Ok (blank_stream m, w)"
proof -
  have "split_on newline (unlines (replicate n []) @ []) = replicate n [] @ split_on newline []"
    by (rule split_unlines) simp
  then have ls: "read_lines (unlines (replicate n [])) = replicate n []" by (simp add: read_lines_def drop_cr_def)
  consider "n < 2" | m where "n = Suc (Suc m)" by (metis One_nat_def less_2_cases_iff not0_implies_Suc)
  then show ?thesis
  proof cases
    case 1
    then have "get_next_two_lines (replicate n []) None = ([], [], [], False)"
      by (auto simp: get_next_two_lines_def less_2_cases_iff)
    with ls have "multi_line_redact hmac now r (blank_stream n) w = Ok (blank_stream 2, w)"
      by (simp add: multi_line_redact_def blank_stream_def numeral_2_eq_2)
    then show ?thesis by blast
  next
    case (2 m)
    with ls multi_loop_blank [OF assms] have "multi_line_redact hmac now r (blank_stream n) w = Ok (blank_stream n, w)"
      by (simp add: multi_line_redact_def get_next_two_lines_def blank_stream_def replicate_append_same)
    then show ?thesis by blast
  qed
qed

lemma run_redactor_blank:
  assumes "r \<in> set (get_redactors path)" and "l_fmatch L = (\<lambda>_ _. Ok False)"
  shows "\<exists>m. run_redactor L path r (blank_stream n) w = Ok (blank_stream m, w)"
proof -
  from assms(1) consider lr where "r = RSingle lr" "\<not> scan_passes (lr_scan lr) []"
    | mr where "r = RMulti mr" "\<not> scan_passes (ml_scan mr) []"
    | yr where "r = RYaml yr" "yr_file_path yr \<noteq> []"
    using built_in_scans_empty
    by (fastforce simp: get_redactors_def list_all_iff scan_passes_def to_lower_Nil new_yaml_redactor_def
        custom_resource_glob_def)
  then show ?thesis
    by cases (use single_line_blank multi_line_blank assms(2) in \<open>fastforce simp: run_redactor_def yaml_redact_def\<close>)+
qed

lemma run_redactors_blank:
  assumes "l_fmatch L = (\<lambda>_ _. Ok False)"
  shows "set rs \<subseteq> set (get_redactors path) \<Longrightarrow> \<exists>m. run_redactors L path rs (blank_stream n) w = Ok (blank_stream m, w)"
proof (induction rs arbitrary: n)
  case Nil
  show ?case by (simp; blast)
next
  case (Cons r rs)
  then have "r \<in> set (get_redactors path)" "set rs \<subseteq> set (get_redactors path)" by simp_all
  with run_redactor_blank [OF this(1) assms, of n w] Cons.IH show ?case by fastforce
qed

definition example_libs :: libs where
  "example_libs = \<lparr>l_hmac = (\<lambda>_ _. []), l_now = 0, l_unmarshal = (\<lambda>_. Fail (LibErr [])), l_marshal = (\<lambda>_. Fail (LibErr [])),
     l_fmatch = (\<lambda>_ _. Ok False), l_compile = (\<lambda>p. Ok (plain_rx (lit p))), l_glob = (\<lambda>_. Ok (\<lambda>_. True))\<rparr>"

definition example_env :: redact_env where
  "example_env = \<lparr>env_libs = example_libs, env_specs = [], env_cache = [], env_io = example_io,
     env_repack = (\<lambda>f c w. Ok (c, w))\<rparr>"

definition example_store :: store where
  "example_store = \<lparr>entries = [(''a'', None), (''l'', None)], files = [(''/a'', FFile []), (''/l'', FLink ''/a'')]\<rparr>"

lemma redact_blank: "\<exists>m. redact example_libs f [] [] (blank_stream n) w = Ok (blank_stream m, w)"
  using run_redactors_blank [of example_libs "get_redactors f" f n w]
  by (simp add: redact_def build_additional_redactors_def example_libs_def)

text \<open>The disk of the example: a file of empty lines and a link to it.\<close>

definition example_disk :: "nat \<Rightarrow> store \<Rightarrow> bool" where
  "example_disk n st \<longleftrightarrow> map_of (files st) ''/a'' = Some (FFile (unlines (replicate n []))) \<and>
     map_of (files st) ''/l'' = Some (FLink ''/a'') \<and> entries st = [(''a'', None), (''l'', None)]"

lemma example_paths:
  "path_join [''/'', ''a''] = ''/a''" "path_join [''/'', ''l''] = ''/l''" "path_rel ''/'' ''/a'' = Ok ''a''"
  "path_join [path_dir ''/a'', tmp_name example_io] = ''/replace-1.tmp''" "rooted_path [] = ''/''" "\<not> is_archive ''a''"
  by code_simp+

lemma example_resolves:
  assumes "example_disk n st" and "k \<in> {''a'', ''l''}"
  shows "resolve_entry example_io ''/'' st k None = Ok (Some (''a'', unlines (replicate n [])))"
proof -
  have "follow max_links (files st) ''/a'' = Some ''/a''" using assms(1) by (intro follow_no_link) (simp add: example_disk_def)
  then have "read_entry ''/'' ''a'' st = Ok (Some (''a'', unlines (replicate n [])))"
    using assms(1) by (simp add: read_entry_def get_reader_def example_disk_def example_paths read_path_def)
  with assms show ?thesis
    by (auto simp: resolve_entry_def Let_def example_paths example_disk_def example_io_def)
qed

lemma example_start:
  assumes "example_disk n (results s)" and "k \<in> {''a'', ''l''}"
  shows "\<exists>m. start_entry example_env ''/'' k None s =
    Ok (s\<lparr>waiting := remove1 (k, None) (waiting s), working := Replacing ''a'' (unlines (replicate m [])) # working s\<rparr>)"
proof -
  obtain m where "redact example_libs ''a'' [] [] (blank_stream n) (shared s) = Ok (blank_stream m, shared s)"
    using redact_blank by blast
  then have "redact_content example_env ''a'' (unlines (replicate n [])) (shared s) =
      Ok (Replacing ''a'' (unlines (replicate m [])), shared s)"
    by (simp add: redact_content_def example_paths example_env_def blank_stream_def)
  with example_resolves [OF assms] have "start_entry example_env ''/'' k None s =
    Ok (s\<lparr>waiting := remove1 (k, None) (waiting s), working := Replacing ''a'' (unlines (replicate m [])) # working s\<rparr>)"
    by (simp add: start_entry_def example_env_def Let_def)
  then show ?thesis ..
qed

lemma example_finish:
  assumes "example_disk n (results s)"
  shows "\<exists>st'. example_disk m st' \<and>
    finish_entry example_env ''/'' (Replacing ''a'' (unlines (replicate m []))) s =
      s\<lparr>working := remove1 (Replacing ''a'' (unlines (replicate m []))) (working s), results := st'\<rparr>"
proof -
  let ?c = "unlines (replicate m [])"
  define st' where "st' = set_file ''/a'' (FFile ?c)
    (del_file ''/replace-1.tmp'' (del_file ''/a'' (set_file ''/replace-1.tmp'' (FFile ?c) (results s))))"
  have "path_join [path_dir ''/a'', ''replace-1.tmp''] = ''/replace-1.tmp''"
    using example_paths(4) by (simp add: example_io_def)
  then have "replace_result example_io ''/'' ''a'' (?c, None) (results s) = (Ok (), st')"
    by (simp add: replace_result_def example_paths(1) Let_def copied_def example_io_def st'_def)
  moreover have "example_disk m st'" using assms by (simp add: example_disk_def st'_def)
  ultimately show ?thesis by (intro exI [of _ st']) (simp add: finish_entry_def example_env_def Let_def)
qed

lemma example_step:
  assumes "example_disk n (results s)" and "(k, None) \<in> set (waiting s)" and "k \<in> {''a'', ''l''}" and "working s = []"
  shows "\<exists>m s'. (redact_step example_env ''/'' ^^ 2) s s' \<and> example_disk m (results s') \<and> working s' = [] \<and>
    waiting s' = remove1 (k, None) (waiting s) \<and> errors s' = errors s"
proof -
  obtain m where start: "start_entry example_env ''/'' k None s =
    Ok (s\<lparr>waiting := remove1 (k, None) (waiting s), working := Replacing ''a'' (unlines (replicate m [])) # working s\<rparr>)"
    (is "_ = Ok ?s1") using example_start [OF assms(1,3)] by blast
  have room: "length (working s) < MAX_CONCURRENT_REDACTORS" using assms(4) by (simp add: MAX_CONCURRENT_REDACTORS_def)
  have one: "redact_step example_env ''/'' s ?s1" by (rule redact_step.start [OF assms(2) room start])
  have disk: "example_disk n (results ?s1)" using assms(1) by simp
  obtain st' where st': "example_disk m st'"
    "finish_entry example_env ''/'' (Replacing ''a'' (unlines (replicate m []))) ?s1 =
      ?s1\<lparr>working := remove1 (Replacing ''a'' (unlines (replicate m []))) (working ?s1), results := st'\<rparr>"
    using example_finish [OF disk, of m] by blast
  have "redact_step example_env ''/'' ?s1 (finish_entry example_env ''/'' (Replacing ''a'' (unlines (replicate m []))) ?s1)"
    by (rule redact_step.finish) simp
  with one have "(redact_step example_env ''/'' ^^ 2) s
      (finish_entry example_env ''/'' (Replacing ''a'' (unlines (replicate m []))) ?s1)"
    unfolding numeral_2_eq_2 relpowp.simps by blast
  with st' assms(4) show ?thesis
    by (intro exI [of _ m] exI [of _ "finish_entry example_env ''/'' (Replacing ''a'' (unlines (replicate m []))) ?s1"]) simp
qed

lemma example_run:
  "\<exists>m s. (redact_step example_env (rooted_path []) ^^ 4) (begin_redaction example_store w) s \<and> redaction_over s \<and>
    errors s = [] \<and> example_disk m (results s)"
proof -
  let ?s = "begin_redaction example_store w"
  have disk: "example_disk 0 (results ?s)"
    by (simp add: begin_redaction_def example_disk_def example_store_def unlines_def)
  have todo: "waiting ?s = [(''a'', None), (''l'', None)]" "working ?s = []" "errors ?s = []"
    by (simp_all add: begin_redaction_def example_store_def)
  obtain m s1 where s1: "(redact_step example_env ''/'' ^^ 2) ?s s1" "example_disk m (results s1)" "working s1 = []"
    "waiting s1 = [(''l'', None)]" "errors s1 = []"
    using example_step [OF disk, of "''a''"] todo by auto
  obtain m' s2 where s2: "(redact_step example_env ''/'' ^^ 2) s1 s2" "example_disk m' (results s2)" "working s2 = []"
    "waiting s2 = []" "errors s2 = []"
    using example_step [OF s1(2), of "''l''"] s1(3-5) by auto
  have "(redact_step example_env ''/'' ^^ (2 + 2)) ?s s2"
    unfolding relpowp_add using s1(1) s2(1) by blast
  with s2(2-5) show ?thesis by (auto simp: example_paths(5) redaction_over_def)
qed

section \<open>Properties\<close>



text \<open>
  C3. Redaction ends: a run over n entries takes at most two steps per entry, never has more than ten goroutines, and from every state
  it reaches it can go on until all entries are done, or until a redactor panics.
\<close>

theorem redaction_ends:
  assumes "(redact_step re b ^^ n) (begin_redaction st w) s"
  shows "n \<le> 2 * length (entries st) \<and> length (working s) \<le> MAX_CONCURRENT_REDACTORS \<and>
    (\<exists>s'. (redact_step re b)\<^sup>*\<^sup>* s s' \<and>
       (redaction_over s' \<or> (\<exists>(k, v)\<in>set (waiting s'). \<exists>m. start_entry re b k v s' = Panic m)))"
proof (intro conjI)
  have "work_left s + n \<le> work_left (begin_redaction st w)" using assms by (rule steps_work)
  then show "n \<le> 2 * length (entries st)" by (simp add: work_left_def begin_redaction_def)
  show "length (working s) \<le> MAX_CONCURRENT_REDACTORS" using relpowp_imp_rtranclp [OF assms] by (rule workers_bounded)
qed (rule redaction_reaches_end)

theorem redaction_ends_witness:
  "\<exists>s. (redact_step example_env (rooted_path []) ^^ 4)
      (begin_redaction example_store \<lparr>tokens = new_tokenizer False ''s'' [] 0, redactions = []\<rparr>) s \<and>
    (4::nat) \<le> 2 * length (entries example_store) \<and> length (working s) \<le> 10"
proof -
  let ?w = "\<lparr>tokens = new_tokenizer False ''s'' [] 0, redactions = []\<rparr>"
  obtain s where run: "(redact_step example_env (rooted_path []) ^^ 4) (begin_redaction example_store ?w) s"
    using example_run by blast
  from redaction_ends [OF run] run show ?thesis by (auto simp: MAX_CONCURRENT_REDACTORS_def)
qed

end
