(* ===== verification/Node_Resources.thy ===== *)
theory Node_Resources
  imports Workloads
begin

text \<open>
  The analyzer of node resources (\<^verbatim>\<open>node_resources.go\<close>): which nodes pass the filters of a spec, and what the
  conditions on the nodes that passed mean. A Kubernetes quantity is an element of an ordered commutative monoid:
  \<^verbatim>\<open>Cmp\<close> is its order, \<^verbatim>\<open>Add\<close> its addition, the zero \<^verbatim>\<open>Quantity\<close> its zero. The parser of quantities, label selectors,
  \<^verbatim>\<open>TaintExists\<close>, the JSON decoder and the template engine are parameters.
\<close>

section \<open>Nodes and filters\<close>

record taint =
  taint_key :: string
  taint_value :: string
  taint_effect :: string

record 'q node =
  capacity :: "(string \<times> 'q) list"
  allocatable :: "(string \<times> 'q) list"
  node_labels :: "(string \<times> string) list"
  node_taints :: "taint list"
  node_conditions :: "(string \<times> string) list"
  architecture :: string

record 'sel node_filters =
  f_cpu_architecture :: string
  f_cpu_capacity :: string
  f_cpu_allocatable :: string
  f_memory_capacity :: string
  f_memory_allocatable :: string
  f_pod_capacity :: string
  f_pod_allocatable :: string
  f_storage_capacity :: string
  f_storage_allocatable :: string
  f_selector :: "'sel option"
  f_resource_name :: string
  f_resource_allocatable :: string
  f_resource_capacity :: string
  f_taint :: "taint option"

record ('q, 'sel) node_libs =
  nl_parse :: "string \<Rightarrow> 'q res"
  nl_selector :: "'sel \<Rightarrow> ((string \<times> string) list \<Rightarrow> bool) res"
  nl_taint_exists :: "taint list \<Rightarrow> taint \<Rightarrow> bool"

text \<open>\<^verbatim>\<open>Cpu()\<close>, \<^verbatim>\<open>Memory()\<close> and reading a missing key of the map give the zero quantity.\<close>

definition quantity_of :: "string \<Rightarrow> (string \<times> 'q::zero) list \<Rightarrow> 'q" where
  "quantity_of name rs = (case map_of rs name of None \<Rightarrow> 0 | Some q \<Rightarrow> q)"

text \<open>A check rejects the node, lets it go on, or fails.\<close>

fun run_checks :: "bool res list \<Rightarrow> bool res" where
  "run_checks [] = Ok True"
| "run_checks (c # cs) = bind_res c (\<lambda>rejected. if rejected then Ok False else run_checks cs)"

definition below_bound :: "(string \<Rightarrow> 'q::linorder res) \<Rightarrow> string \<Rightarrow> string \<Rightarrow> 'q \<Rightarrow> bool res" where
  "below_bound parse what bound actual =
     (if bound = [] then Ok False
      else bind_res (wrap_res (''failed to parse '' @ what) (parse bound)) (\<lambda>p. Ok (actual < p)))"

definition resource_checks ::
  "('q::{linorder,comm_monoid_add}, 'sel) node_libs \<Rightarrow> 'q node \<Rightarrow> 'sel node_filters \<Rightarrow> bool res list" where
  "resource_checks L n f =
     (let r = f_resource_name f in
      if r = [] then []
      else [Ok (map_of (capacity n) r = None \<and> map_of (allocatable n) r = None),
            below_bound (nl_parse L) ''resource capacity'' (f_resource_capacity f) (quantity_of r (capacity n)),
            below_bound (nl_parse L) ''resource allocatable'' (f_resource_allocatable f) (quantity_of r (allocatable n))])"

definition selector_checks :: "('q, 'sel) node_libs \<Rightarrow> 'q node \<Rightarrow> 'sel node_filters \<Rightarrow> bool res list" where
  "selector_checks L n f =
     (case f_selector f of
        None \<Rightarrow> []
      | Some s \<Rightarrow> [map_res (\<lambda>matches. \<not> matches (node_labels n))
                    (wrap_res ''failed to create label selector'' (nl_selector L s))])"

definition machine_checks ::
  "('q::{linorder,comm_monoid_add}, 'sel) node_libs \<Rightarrow> 'q node \<Rightarrow> 'sel node_filters \<Rightarrow> bool res list" where
  "machine_checks L n f =
     [Ok (f_cpu_architecture f \<noteq> [] \<and> to_lower (architecture n) \<noteq> to_lower (f_cpu_architecture f)),
      below_bound (nl_parse L) ''cpu capacity'' (f_cpu_capacity f) (quantity_of ''cpu'' (capacity n)),
      below_bound (nl_parse L) ''cpu allocatable'' (f_cpu_allocatable f) (quantity_of ''cpu'' (allocatable n)),
      below_bound (nl_parse L) ''memory capacity'' (f_memory_capacity f) (quantity_of ''memory'' (capacity n)),
      below_bound (nl_parse L) ''memory allocatable'' (f_memory_allocatable f) (quantity_of ''memory'' (allocatable n)),
      below_bound (nl_parse L) ''pod capacity'' (f_pod_capacity f) (quantity_of ''pods'' (capacity n)),
      below_bound (nl_parse L) ''pod allocatable'' (f_pod_allocatable f) (quantity_of ''pods'' (allocatable n)),
      below_bound (nl_parse L) ''ephemeralstorage capacity'' (f_storage_capacity f)
        (quantity_of ''ephemeral-storage'' (capacity n)),
      below_bound (nl_parse L) ''ephemeralstorage allocatable'' (f_storage_allocatable f)
        (quantity_of ''ephemeral-storage'' (allocatable n))]"

text \<open>A filter of taints returns at once; what stands below it in the function is not reached.\<close>

definition node_matches_filters ::
  "('q::{linorder,comm_monoid_add}, 'sel) node_libs \<Rightarrow> 'q node \<Rightarrow> 'sel node_filters option \<Rightarrow> bool res" where
  "node_matches_filters L n fo =
     (case fo of
        None \<Rightarrow> Ok True
      | Some f \<Rightarrow> run_checks (resource_checks L n f @ selector_checks L n f @
          (case f_taint f of
             Some t \<Rightarrow> [Ok (\<not> nl_taint_exists L (node_taints n) t)]
           | None \<Rightarrow> machine_checks L n f)))"

fun matching_nodes ::
  "('q::{linorder,comm_monoid_add}, 'sel) node_libs \<Rightarrow> 'sel node_filters option \<Rightarrow> 'q node list \<Rightarrow> 'q node list res" where
  "matching_nodes L fo [] = Ok []"
| "matching_nodes L fo (n # ns) =
     bind_res (wrap_res ''failed to check if node matches filter'' (node_matches_filters L n fo)) (\<lambda>m.
       map_res (\<lambda>ms. if m then n # ms else ms) (matching_nodes L fo ns))"

section \<open>Conditions\<close>

definition get_quantity :: "'q::zero node \<Rightarrow> string \<Rightarrow> string \<Rightarrow> 'q option" where
  "get_quantity n property resource_name =
     (if property = ''cpuCapacity'' then Some (quantity_of ''cpu'' (capacity n))
      else if property = ''cpuAllocatable'' then Some (quantity_of ''cpu'' (allocatable n))
      else if property = ''memoryCapacity'' then Some (quantity_of ''memory'' (capacity n))
      else if property = ''memoryAllocatable'' then Some (quantity_of ''memory'' (allocatable n))
      else if property = ''podCapacity'' then Some (quantity_of ''pods'' (capacity n))
      else if property = ''podAllocatable'' then Some (quantity_of ''pods'' (allocatable n))
      else if property = ''ephemeralStorageCapacity'' then Some (quantity_of ''ephemeral-storage'' (capacity n))
      else if property = ''ephemeralStorageAllocatable'' then Some (quantity_of ''ephemeral-storage'' (allocatable n))
      else if property = ''resourceCapacity'' then map_of (capacity n) resource_name
      else if property = ''resourceAllocatable'' then map_of (allocatable n) resource_name
      else None)"

text \<open>The three loops over the nodes, with their accumulator.\<close>

fun find_sum :: "string \<Rightarrow> string \<Rightarrow> 'q::comm_monoid_add \<Rightarrow> 'q node list \<Rightarrow> 'q" where
  "find_sum p r acc [] = acc"
| "find_sum p r acc (n # ns) =
     find_sum p r (case get_quantity n p r of None \<Rightarrow> acc | Some q \<Rightarrow> acc + q) ns"

fun find_min :: "string \<Rightarrow> string \<Rightarrow> 'q::{linorder,zero} option \<Rightarrow> 'q node list \<Rightarrow> 'q option" where
  "find_min p r acc [] = acc"
| "find_min p r acc (n # ns) =
     find_min p r (case get_quantity n p r of
        None \<Rightarrow> acc
      | Some q \<Rightarrow> (case acc of None \<Rightarrow> Some q | Some m \<Rightarrow> if q < m then Some q else acc)) ns"

fun find_max :: "string \<Rightarrow> string \<Rightarrow> 'q::{linorder,zero} option \<Rightarrow> 'q node list \<Rightarrow> 'q option" where
  "find_max p r acc [] = acc"
| "find_max p r acc (n # ns) =
     find_max p r (case get_quantity n p r of
        None \<Rightarrow> acc
      | Some q \<Rightarrow> (case acc of None \<Rightarrow> Some q | Some m \<Rightarrow> if q > m then Some q else acc)) ns"

text \<open>The two variables of interface type: an integer, a pointer to a quantity that may be nil, or nothing.\<close>

datatype 'q actual_value = ACount int | AQuantity "'q option" | AUnset

datatype desired_value = DInt int | DString string

definition parse_desired :: "string \<Rightarrow> desired_value" where
  "parse_desired s = (case atoi s of Ok n \<Rightarrow> DInt n | _ \<Rightarrow> DString s)"

definition desired_text :: "desired_value \<Rightarrow> string" where
  "desired_text d = (case d of DInt n \<Rightarrow> show_int n | DString s \<Rightarrow> s)"

definition known_operator :: "string \<Rightarrow> bool" where
  "known_operator op \<longleftrightarrow> op \<in> {''='', ''=='', ''==='', ''<'', ''>'', ''<='', ''>=''}"

definition operator_holds :: "string \<Rightarrow> 'a::linorder \<Rightarrow> 'a \<Rightarrow> bool" where
  "operator_holds op a b =
     (if op = ''<'' then a < b else if op = ''>'' then a > b
      else if op = ''<='' then a = b \<or> a < b else if op = ''>='' then a = b \<or> a > b
      else a = b)"

text \<open>
  The switch on the operator: integers are compared as integers, everything else as quantities. A nil quantity, a
  value that is no quantity and a text that does not parse panic.
\<close>

definition compare_values ::
  "(string \<Rightarrow> 'q::linorder res) \<Rightarrow> string \<Rightarrow> 'q actual_value \<Rightarrow> desired_value \<Rightarrow> bool res" where
  "compare_values parse op actual desired =
     (if \<not> known_operator op then Fail (Err ''unexpected conditional in nodeResources'')
      else case (actual, desired) of
             (ACount n, DInt d) \<Rightarrow> Ok (operator_holds op n d)
           | (AQuantity q, _) \<Rightarrow>
               (case parse (desired_text desired) of
                  Ok v \<Rightarrow> (case q of Some a \<Rightarrow> Ok (operator_holds op a v)
                             | None \<Rightarrow> Panic ''invalid memory address or nil pointer dereference'')
                | _ \<Rightarrow> Panic ''cannot parse quantity'')
           | _ \<Rightarrow> Panic ''interface conversion'')"

definition split_last :: "char \<Rightarrow> string \<Rightarrow> (string \<times> string) option" where
  "split_last c s =
     (if c \<in> set s
      then Some (rev (tl (dropWhile (\<lambda>d. d \<noteq> c) (rev s))), rev (takeWhile (\<lambda>d. d \<noteq> c) (rev s)))
      else None)"

text \<open>
  \<^verbatim>\<open>(?P<function>.*)\((?P<property>.*)\)\<close>: both stars are greedy, so the property lies between the last closing
  parenthesis and the last opening one before it.
\<close>

definition call_pattern :: "string \<Rightarrow> (string \<times> string) option" where
  "call_pattern s = (case split_last (CHR '')'') s of None \<Rightarrow> None | Some (a, _) \<Rightarrow> split_last (CHR ''('') a)"

text \<open>\<^verbatim>\<open>={1,3}\<close> is searched anywhere in the operator.\<close>

definition node_condition ::
  "string \<Rightarrow> string \<Rightarrow> desired_value \<Rightarrow> 'q node list \<Rightarrow> bool res" where
  "node_condition op property desired nodes =
     (if CHR ''='' \<notin> set op then Fail (Err ''nodeCondition function can only be compared using equals expression.'')
      else if property = [] then Fail (Err ''value function parameter missing.'')
      else Ok (list_ex (\<lambda>n. list_ex (\<lambda>(ty, status). ty = property \<and> DString status = desired) (node_conditions n)) nodes))"

definition actual_of ::
  "string \<Rightarrow> string \<Rightarrow> string \<Rightarrow> 'q::{linorder,comm_monoid_add} node list \<Rightarrow> 'q actual_value" where
  "actual_of func property resource_name nodes =
     (if func = ''count'' then ACount (int (length nodes))
      else if func = ''min'' then AQuantity (find_min property resource_name None nodes)
      else if func = ''max'' then AQuantity (find_max property resource_name None nodes)
      else if func = ''sum'' then AQuantity (Some (find_sum property resource_name 0 nodes))
      else AUnset)"

text \<open>The deferred function turns every panic into an error.\<close>

definition recovered :: "string \<Rightarrow> 'a res \<Rightarrow> 'a res" where
  "recovered conditional r =
     (case r of Panic m \<Rightarrow> Fail (Errf ''failed to evaluate %q: %v'' [conditional, m]) | _ \<Rightarrow> r)"

definition compare_node_resource_conditional_to_actual ::
  "(string \<Rightarrow> 'q::{linorder,comm_monoid_add} res) \<Rightarrow> string \<Rightarrow> 'q node list \<Rightarrow> string \<Rightarrow> bool res" where
  "compare_node_resource_conditional_to_actual parse conditional nodes resource_name =
     recovered conditional
       (if conditional = [] then Ok True
        else let words = split_fields (trim_space conditional);
                 parts = (if length words = 2 then ''count'' # words else words)
             in case parts of
                  [call, op, val] \<Rightarrow>
                    (case (case call_pattern call of
                             None \<Rightarrow> call_pattern (''count() == '' @ call)
                           | m \<Rightarrow> m) of
                       None \<Rightarrow> Fail (Err ''conditional does not match pattern of function(property?)'')
                     | Some (func, property) \<Rightarrow>
                         if func = ''nodeCondition'' then node_condition op property (parse_desired val) nodes
                         else compare_values parse op (actual_of func property resource_name nodes) (parse_desired val))
                | _ \<Rightarrow> Fail (Err ''unable to parse nodeResources conditional''))"

section \<open>The analyzer\<close>

definition filter_resource_name :: "'sel node_filters option \<Rightarrow> string" where
  "filter_resource_name fo = (case fo of None \<Rightarrow> [] | Some f \<Rightarrow> f_resource_name f)"

text \<open>\<open>render\<close> fills the message with the filters and the number of nodes. Conditions are compared even when they are empty.\<close>

definition node_step ::
  "(string \<Rightarrow> string res) \<Rightarrow> (string \<Rightarrow> bool res) \<Rightarrow> analyze_result \<Rightarrow> outcome \<Rightarrow> analyze_result option res" where
  "node_step render check result o' =
     (case select_outcome o' of
        None \<Rightarrow> Ok None
      | Some (sev, so) \<Rightarrow>
          bind_res (wrap_res ''failed to parse when'' (check (so_when so))) (\<lambda>m.
            if \<not> m then Ok None
            else map_res (\<lambda>msg. Some (conclude sev (so\<lparr>so_message := msg\<rparr>) result))
                   (wrap_res ''failed to render message template'' (render (so_message so)))))"

fun node_loop ::
  "(string \<Rightarrow> string res) \<Rightarrow> (string \<Rightarrow> bool res) \<Rightarrow> analyze_result \<Rightarrow> outcome list \<Rightarrow> analyze_result res" where
  "node_loop render check result [] = Ok result"
| "node_loop render check result (o' # os) =
     bind_res (node_step render check result o') (\<lambda>d.
       case d of None \<Rightarrow> node_loop render check result os | Some r \<Rightarrow> Ok r)"

definition analyze_node_resources ::
  "('q::{linorder,comm_monoid_add}, 'sel) node_libs \<Rightarrow> (string \<Rightarrow> 'q node list res) \<Rightarrow>
   ('sel node_filters option \<Rightarrow> nat \<Rightarrow> string \<Rightarrow> string res) \<Rightarrow> (string \<Rightarrow> string res) \<Rightarrow>
   string \<Rightarrow> 'sel node_filters option \<Rightarrow> outcome list \<Rightarrow> analyze_result res" where
  "analyze_node_resources L unmarshal render get check_name fo outcomes =
     bind_res (wrap_res ''failed to get contents of nodes.json'' (get ''cluster-resources/nodes.json'')) (\<lambda>collected.
     bind_res (wrap_res ''failed to unmarshal node list'' (unmarshal collected)) (\<lambda>nodes.
     bind_res (matching_nodes L fo nodes) (\<lambda>ms.
       node_loop (render fo (length ms))
         (\<lambda>w. compare_node_resource_conditional_to_actual (nl_parse L) w ms (filter_resource_name fo))
         (icon_result (if check_name = [] then ''Node Resources'' else check_name) ''kubernetes_node_resources''
           ''https://troubleshoot.sh/images/analyzer-icons/node-resources.svg?w=16&h=18'')
         outcomes)))"

definition node_resources_Analyze ::
  "('q::{linorder,comm_monoid_add}, 'sel) node_libs \<Rightarrow> (string \<Rightarrow> 'q node list res) \<Rightarrow>
   ('sel node_filters option \<Rightarrow> nat \<Rightarrow> string \<Rightarrow> string res) \<Rightarrow> (string \<Rightarrow> string res) \<Rightarrow>
   string \<Rightarrow> bool_or_string option \<Rightarrow> 'sel node_filters option \<Rightarrow> outcome list \<Rightarrow> analyze_result list res" where
  "node_resources_Analyze L unmarshal render get check_name strict_flag fo outcomes =
     map_res (\<lambda>r. [r\<lparr>strict := bool_or_default_false strict_flag\<rparr>])
       (analyze_node_resources L unmarshal render get check_name fo outcomes)"

section \<open>Lemmas\<close>

lemma run_checks_True: "run_checks cs = Ok True \<longleftrightarrow> (\<forall>c\<in>set cs. c = Ok False)"
  by (induction cs) (auto simp: res_simps)

lemma below_bound_False:
  "below_bound parse what bound actual = Ok False \<longleftrightarrow> bound = [] \<or> (\<exists>p. parse bound = Ok p \<and> p \<le> actual)"
  by (auto simp: below_bound_def res_simps)

interpretation node_outcomes: outcome_loop
  "node_loop render check result" "node_step render check result" "Ok result"
  for render check result
  by unfold_locales simp_all

definition quantities :: "string \<Rightarrow> string \<Rightarrow> 'q::zero node list \<Rightarrow> 'q list" where
  "quantities p r ns = List.map_filter (\<lambda>n. get_quantity n p r) ns"

lemma quantities_simps [simp]:
  "quantities p r [] = []"
  "quantities p r (n # ns) = (case get_quantity n p r of None \<Rightarrow> quantities p r ns | Some q \<Rightarrow> q # quantities p r ns)"
  by (simp_all add: quantities_def map_filter_simps split: option.splits)

lemma find_sum_quantities: "find_sum p r acc ns = acc + sum_list (quantities p r ns)"
  by (induction ns arbitrary: acc) (simp_all add: add.assoc split: option.splits)

lemma find_min_Some: "find_min p r (Some a) ns = Some (Min (insert a (set (quantities p r ns))))"
proof (induction ns arbitrary: a)
  case (Cons n ns)
  show ?case
  proof (cases "get_quantity n p r")
    case (Some q)
    have "Min (insert a (insert q (set (quantities p r ns)))) = Min (insert (min a q) (set (quantities p r ns)))"
      by (cases "quantities p r ns = []") (simp_all add: min.assoc)
    with Some Cons show ?thesis by (auto simp: min_def not_less)
  qed (simp add: Cons)
qed simp

lemma find_max_Some: "find_max p r (Some a) ns = Some (Max (insert a (set (quantities p r ns))))"
proof (induction ns arbitrary: a)
  case (Cons n ns)
  show ?case
  proof (cases "get_quantity n p r")
    case (Some q)
    have "Max (insert a (insert q (set (quantities p r ns)))) = Max (insert (max a q) (set (quantities p r ns)))"
      by (cases "quantities p r ns = []") (simp_all add: max.assoc)
    with Some Cons show ?thesis by (auto simp: max_def not_less)
  qed (simp add: Cons)
qed simp

lemma find_min_quantities:
  "find_min p r None ns = (if quantities p r ns = [] then None else Some (Min (set (quantities p r ns))))"
  by (induction ns) (simp_all add: find_min_Some split: option.splits)

lemma find_max_quantities:
  "find_max p r None ns = (if quantities p r ns = [] then None else Some (Max (set (quantities p r ns))))"
  by (induction ns) (simp_all add: find_max_Some split: option.splits)

text \<open>Reading a condition back from its words.\<close>
lemma split_fields_word: "is_word w \<Longrightarrow> split_fields (w @ CHR '' '' # s) = w # split_fields s"
  by (cases w) (auto simp: is_word_def is_space_def takeWhile_append dropWhile_append)

lemma split_fields_last: "is_word w \<Longrightarrow> split_fields w = [w]"
proof (cases w)
  case (Cons c cs)
  assume "is_word w"
  with Cons have d: "dropWhile (\<lambda>d. \<not> is_space d) cs = []" and t: "takeWhile (\<lambda>d. \<not> is_space d) cs = cs"
    by (simp_all add: is_word_def takeWhile_eq_all_conv)
  with \<open>is_word w\<close> Cons show ?thesis by (simp only: is_word_def split_fields.simps d t) simp
qed (simp add: is_word_def)

lemma split_three_fields: "is_word a \<Longrightarrow> is_word b \<Longrightarrow> is_word c \<Longrightarrow> split_fields (sentence [a, b, c]) = [a, b, c]"
  by (simp add: sentence_def split_fields_word split_fields_last)

lemma split_last_append: "c \<notin> set b \<Longrightarrow> split_last c (a @ c # b) = Some (a, b)"
  by (simp add: split_last_def takeWhile_append dropWhile_append)

lemma call_pattern_call: "CHR ''('' \<notin> set p \<Longrightarrow> call_pattern (f @ ''('' @ p @ '')'') = Some (f, p)"
  using split_last_append [of "CHR '')''" "[]" "f @ ''('' @ p"] split_last_append [of "CHR ''(''" p f]
  by (simp add: call_pattern_def)

lemma known_operator_word: "known_operator op \<Longrightarrow> is_word op"
  by (auto simp: known_operator_def is_word_def is_space_def)

lemma word_call: "is_word f \<Longrightarrow> is_word p \<or> p = [] \<Longrightarrow> is_word (f @ ''('' @ p @ '')'')"
proof -
  have "\<not> is_space (CHR ''('')" "\<not> is_space (CHR '')'')" by code_simp+
  then show "is_word f \<Longrightarrow> is_word p \<or> p = [] \<Longrightarrow> is_word (f @ ''('' @ p @ '')'')" by (auto simp: is_word_def)
qed

lemma function_words: "is_word ''count''" "is_word ''min''" "is_word ''max''" "is_word ''sum''"
  by code_simp+

lemma compare_call:
  assumes "is_word f" and "is_word p \<or> p = []" and "CHR ''('' \<notin> set p" and "known_operator op" and "is_word t" and "f \<noteq> ''nodeCondition''"
  shows "compare_node_resource_conditional_to_actual parse (sentence [f @ ''('' @ p @ '')'', op, t]) nodes r =
    recovered (sentence [f @ ''('' @ p @ '')'', op, t]) (compare_values parse op (actual_of f p r nodes) (parse_desired t))"
proof -
  have w: "is_word (f @ ''('' @ p @ '')'')" by (rule word_call [OF assms(1,2)])
  note call = split_three_fields [OF w known_operator_word [OF assms(4)] assms(5)] trim_sentence [OF w assms(5)]
  have "sentence [f @ ''('' @ p @ '')'', op, t] \<noteq> []" by (simp add: sentence_def)
  moreover have "length [f @ ''('' @ p @ '')'', op, t] \<noteq> 2" by simp
  ultimately show ?thesis
    unfolding compare_node_resource_conditional_to_actual_def call Let_def
    by (simp only: if_False list.case call_pattern_call [OF assms(3)] option.case prod.case assms(6))
qed

lemma compare_quantity:
  assumes "known_operator op" and "parse (desired_text d) = Ok v"
  shows "compare_values parse op (AQuantity (Some q)) d = Ok (operator_holds op q v)"
    and "compare_values parse op (AQuantity None) d = Panic ''invalid memory address or nil pointer dereference''"
  using assms by (simp_all add: compare_values_def)

lemma operators [simp]:
  "known_operator ''<''" "known_operator ''>''" "known_operator ''<=''" "known_operator ''>=''"
  "operator_holds ''<'' a b = (a < b)" "operator_holds ''>'' a b = (a > b)"
  "operator_holds ''<='' a b = (a \<le> b)" "operator_holds ''>='' a b = (a \<ge> b)"
  by (auto simp: known_operator_def operator_holds_def)

section \<open>Conditions on the number of nodes\<close>

definition render_count :: "string \<Rightarrow> int \<Rightarrow> string" where
  "render_count op v = sentence [''count()'', op, show_int v]"

lemma word_show_int: "is_word (show_int v)"
  using show_int_no_space by (auto simp: is_word_def)

lemma compare_count:
  assumes "known_operator op" and "in_int64 v"
  shows "compare_node_resource_conditional_to_actual parse (render_count op v) nodes r =
    Ok (operator_holds op (int (length nodes)) v)"
proof -
  have "compare_node_resource_conditional_to_actual parse (sentence [''count'' @ ''('' @ [] @ '')'', op, show_int v]) nodes r =
     recovered (sentence [''count'' @ ''('' @ [] @ '')'', op, show_int v])
       (compare_values parse op (actual_of ''count'' [] r nodes) (parse_desired (show_int v)))"
    by (rule compare_call [OF function_words(1) _ _ assms(1) word_show_int]) simp_all
  then show ?thesis
    using assms by (simp add: render_count_def compare_values_def actual_of_def parse_desired_def go_simps recovered_def)
qed

interpretation node_count: when_language
  "\<lambda>w nodes. compare_node_resource_conditional_to_actual parse w nodes r" render_count "\<lambda>nodes. int (length nodes)" in_int64
  for parse :: "string \<Rightarrow> 'q::{linorder,comm_monoid_add} res" and r
  by unfold_locales (auto simp: compare_count known_operator_def operator_holds_def)

section \<open>Properties\<close>

text \<open>
  What lets a node pass the filters: without a filter of taints a node passes exactly when it has the named
  resource and as much of it as asked for, its labels match, its architecture is the one asked for up to case, and
  its CPU, memory, pods and storage reach every bound that is given; every bound has to parse. A filter of taints
  replaces all conditions that stand after it in the code.
\<close>

theorem node_filters_meaning:
  "node_matches_filters L n (Some f) = Ok True \<longleftrightarrow>
     (let reaches = (\<lambda>bound actual. bound = [] \<or> (\<exists>p. nl_parse L bound = Ok p \<and> p \<le> actual)); r = f_resource_name f in
      (r \<noteq> [] \<longrightarrow> (map_of (capacity n) r \<noteq> None \<or> map_of (allocatable n) r \<noteq> None) \<and>
         reaches (f_resource_capacity f) (quantity_of r (capacity n)) \<and>
         reaches (f_resource_allocatable f) (quantity_of r (allocatable n))) \<and>
      (\<forall>sel. f_selector f = Some sel \<longrightarrow> (\<exists>matches. nl_selector L sel = Ok matches \<and> matches (node_labels n))) \<and>
      (case f_taint f of
         Some t \<Rightarrow> nl_taint_exists L (node_taints n) t
       | None \<Rightarrow>
           (f_cpu_architecture f = [] \<or> to_lower (architecture n) = to_lower (f_cpu_architecture f)) \<and>
           reaches (f_cpu_capacity f) (quantity_of ''cpu'' (capacity n)) \<and>
           reaches (f_cpu_allocatable f) (quantity_of ''cpu'' (allocatable n)) \<and>
           reaches (f_memory_capacity f) (quantity_of ''memory'' (capacity n)) \<and>
           reaches (f_memory_allocatable f) (quantity_of ''memory'' (allocatable n)) \<and>
           reaches (f_pod_capacity f) (quantity_of ''pods'' (capacity n)) \<and>
           reaches (f_pod_allocatable f) (quantity_of ''pods'' (allocatable n)) \<and>
           reaches (f_storage_capacity f) (quantity_of ''ephemeral-storage'' (capacity n)) \<and>
           reaches (f_storage_allocatable f) (quantity_of ''ephemeral-storage'' (allocatable n))))"
proof -
  have res: "(\<forall>c\<in>set (resource_checks L n f). c = Ok False) \<longleftrightarrow>
      (f_resource_name f \<noteq> [] \<longrightarrow> (map_of (capacity n) (f_resource_name f) \<noteq> None \<or> map_of (allocatable n) (f_resource_name f) \<noteq> None) \<and>
         below_bound (nl_parse L) ''resource capacity'' (f_resource_capacity f) (quantity_of (f_resource_name f) (capacity n)) = Ok False \<and>
         below_bound (nl_parse L) ''resource allocatable'' (f_resource_allocatable f)
           (quantity_of (f_resource_name f) (allocatable n)) = Ok False)"
    by (auto simp: resource_checks_def Let_def)
  have sel: "(\<forall>c\<in>set (selector_checks L n f). c = Ok False) \<longleftrightarrow>
      (\<forall>sel. f_selector f = Some sel \<longrightarrow> (\<exists>matches. nl_selector L sel = Ok matches \<and> matches (node_labels n)))"
    by (auto simp: selector_checks_def res_simps split: option.split)
  show ?thesis
    unfolding node_matches_filters_def option.case run_checks_True set_append ball_Un res sel below_bound_False Let_def
    by (cases "f_taint f") (simp_all add: machine_checks_def below_bound_False)
qed

theorem node_filters_meaning_witness:
  "\<exists>L. node_matches_filters L
      \<lparr>capacity = [(''memory'', 8::int)], allocatable = [], node_labels = [], node_taints = [], node_conditions = [], architecture = ''AMD64''\<rparr>
      (Some \<lparr>f_cpu_architecture = ''amd64'', f_cpu_capacity = [], f_cpu_allocatable = [], f_memory_capacity = ''4'', f_memory_allocatable = [],
        f_pod_capacity = [], f_pod_allocatable = [], f_storage_capacity = [], f_storage_allocatable = [], f_selector = None :: unit option,
        f_resource_name = [], f_resource_allocatable = [], f_resource_capacity = [], f_taint = None\<rparr>) = Ok True"
proof -
  let ?L = "\<lparr>nl_parse = (\<lambda>s. if s = ''4'' then Ok 4 else Fail (LibErr [])), nl_selector = (\<lambda>_. Ok (\<lambda>_. False)),
    nl_taint_exists = (\<lambda>_ _. False)\<rparr> :: (int, unit) node_libs"
  have a: "to_lower ''AMD64'' = to_lower ''amd64''" by code_simp
  show ?thesis
    by (intro exI [of _ ?L] iffD2 [OF node_filters_meaning]) (simp add: a Let_def quantity_of_def)
qed

text \<open>
  C36. What conditions on the nodes mean: with a value that parses, \<^verbatim>\<open>min(p) >=\<close> holds when all nodes that have the property
  reach the value, \<^verbatim>\<open>max(p) <=\<close> when none exceeds it, \<^verbatim>\<open>min(p) <\<close> and \<^verbatim>\<open>max(p) >\<close> when some node is below or above it, and
  \<^verbatim>\<open>sum(p)\<close> compares the sum over all nodes. When no node has the property, minimum and maximum are nil pointers, and
  the condition is an error; no condition panics.
\<close>

theorem node_conditions_meaning:
  assumes "is_word p" and "CHR ''('' \<notin> set p" and "is_word t" and "parse (desired_text (parse_desired t)) = Ok v"
    and "qs = quantities p r nodes"
  shows "(qs \<noteq> [] \<longrightarrow>
      compare_node_resource_conditional_to_actual parse (sentence [''min('' @ p @ '')'', ''>='', t]) nodes r = Ok (\<forall>q\<in>set qs. v \<le> q) \<and>
      compare_node_resource_conditional_to_actual parse (sentence [''min('' @ p @ '')'', ''<'', t]) nodes r = Ok (\<exists>q\<in>set qs. q < v) \<and>
      compare_node_resource_conditional_to_actual parse (sentence [''max('' @ p @ '')'', ''<='', t]) nodes r = Ok (\<forall>q\<in>set qs. q \<le> v) \<and>
      compare_node_resource_conditional_to_actual parse (sentence [''max('' @ p @ '')'', ''>'', t]) nodes r = Ok (\<exists>q\<in>set qs. v < q)) \<and>
    (\<forall>op. known_operator op \<longrightarrow>
      compare_node_resource_conditional_to_actual parse (sentence [''sum('' @ p @ '')'', op, t]) nodes r =
        Ok (operator_holds op (sum_list qs) v) \<and>
      (qs = [] \<longrightarrow> (\<forall>f\<in>{''min'', ''max''}. \<exists>e.
        compare_node_resource_conditional_to_actual parse (sentence [f @ ''('' @ p @ '')'', op, t]) nodes r = Fail e))) \<and>
    (\<forall>w. \<not> is_panic (compare_node_resource_conditional_to_actual parse w nodes r))"
proof (intro conjI impI allI ballI)
  have call: "compare_node_resource_conditional_to_actual parse (sentence [f @ ''('' @ p @ '')'', op, t]) nodes r =
      recovered (sentence [f @ ''('' @ p @ '')'', op, t]) (compare_values parse op (actual_of f p r nodes) (parse_desired t))"
    if "known_operator op" "f \<in> {''min'', ''max'', ''sum''}" for f op
    by (rule compare_call [OF _ disjI1 [OF assms(1)] assms(2) that(1) assms(3)]) (use that(2) function_words in auto)
  note quant = compare_quantity [where parse = parse, OF _ assms(4)]
  note mins = find_min_quantities [of p r nodes, folded assms(5)] and maxs = find_max_quantities [of p r nodes, folded assms(5)]
  note evaluate = recovered_def actual_of_def quant mins maxs
  {
    assume ne: "qs \<noteq> []"
    show "compare_node_resource_conditional_to_actual parse (sentence [''min('' @ p @ '')'', ''>='', t]) nodes r = Ok (\<forall>q\<in>set qs. v \<le> q)"
      using call [of "''>=''" "''min''"] ne by (simp add: evaluate)
    show "compare_node_resource_conditional_to_actual parse (sentence [''min('' @ p @ '')'', ''<'', t]) nodes r = Ok (\<exists>q\<in>set qs. q < v)"
      using call [of "''<''" "''min''"] ne by (simp add: evaluate Min_less_iff)
    show "compare_node_resource_conditional_to_actual parse (sentence [''max('' @ p @ '')'', ''<='', t]) nodes r = Ok (\<forall>q\<in>set qs. q \<le> v)"
      using call [of "''<=''" "''max''"] ne by (simp add: evaluate)
    show "compare_node_resource_conditional_to_actual parse (sentence [''max('' @ p @ '')'', ''>'', t]) nodes r = Ok (\<exists>q\<in>set qs. v < q)"
      using call [of "''>''" "''max''"] ne by (simp add: evaluate Max_gr_iff)
  }
  {
    fix op assume op: "known_operator op"
    show "compare_node_resource_conditional_to_actual parse (sentence [''sum('' @ p @ '')'', op, t]) nodes r =
        Ok (operator_holds op (sum_list qs) v)"
      using call [OF op, of "''sum''"] op assms(5) by (simp add: evaluate find_sum_quantities)
    fix f assume "qs = []" "f \<in> {''min'', ''max''}"
    then show "\<exists>e. compare_node_resource_conditional_to_actual parse (sentence [f @ ''('' @ p @ '')'', op, t]) nodes r = Fail e"
      using call [OF op, of f] op by (auto simp: evaluate)
  }
  show "\<not> is_panic (compare_node_resource_conditional_to_actual parse w nodes r)" for w
    by (simp add: compare_node_resource_conditional_to_actual_def recovered_def split: res.split)
qed

theorem node_conditions_meaning_witness:
  "\<exists>n1 n2. compare_node_resource_conditional_to_actual (\<lambda>s. if s = ''4'' then Ok (4::int) else Fail (LibErr []))
      ''min(cpuCapacity) >= 4'' [n1, n2] [] = Ok False \<and>
    compare_node_resource_conditional_to_actual (\<lambda>s. if s = ''4'' then Ok (4::int) else Fail (LibErr []))
      ''max(cpuCapacity) > 4'' [n1, n2] [] = Ok True"
proof -
  define n :: "int \<Rightarrow> int node" where "n q = \<lparr>capacity = [(''cpu'', q)], allocatable = [], node_labels = [], node_taints = [],
    node_conditions = [], architecture = []\<rparr>" for q
  let ?parse = "\<lambda>s. if s = ''4'' then Ok (4::int) else Fail (LibErr [])"
  have w: "is_word ''cpuCapacity''" "is_word ''4''" "CHR ''('' \<notin> set ''cpuCapacity''" by code_simp+
  have p: "?parse (desired_text (parse_desired ''4'')) = Ok 4" by code_simp
  have qs: "[2, 8] = quantities ''cpuCapacity'' [] [n 2, n 8]" by (simp add: get_quantity_def quantity_of_def n_def)
  have s: "sentence [''min('' @ ''cpuCapacity'' @ '')'', ''>='', ''4''] = ''min(cpuCapacity) >= 4''"
    "sentence [''max('' @ ''cpuCapacity'' @ '')'', ''>'', ''4''] = ''max(cpuCapacity) > 4''" by code_simp+
  from node_conditions_meaning [where parse = ?parse, OF w(1,3,2) p qs] s show ?thesis
    by (intro exI [of _ "n 2"] exI [of _ "n 8"]) simp
qed

end
