(* ===== verification/Cluster_Checks.thy ===== *)
theory Cluster_Checks
  imports Workloads
begin

text \<open>
  Analyzers that look one object up in what was collected: storage classes (\<^verbatim>\<open>storage_class.go\<close>), ingresses
  (\<^verbatim>\<open>ingress.go\<close>), custom resource definitions (\<^verbatim>\<open>crd.go\<close>), secrets (\<^verbatim>\<open>secret.go\<close>), config maps (\<^verbatim>\<open>configmap.go\<close>), image
  pull secrets (\<^verbatim>\<open>image_pull_secret.go\<close>); and those that judge a summary: images of a registry (\<^verbatim>\<open>registry.go\<close>), container
  runtimes (\<^verbatim>\<open>container_runtime.go\<close>) and the version of the cluster (\<^verbatim>\<open>cluster_version.go\<close>). Decoders, semantic versions
  and \<^verbatim>\<open>url.Parse\<close> are parameters.
\<close>

section \<open>Objects that exist or not\<close>

definition titled :: "string \<Rightarrow> string \<Rightarrow> string" where
  "titled check_name default_title = (if check_name = [] then default_title else check_name)"

definition describe :: "single_outcome option \<Rightarrow> analyze_result \<Rightarrow> analyze_result" where
  "describe so r = (case so of None \<Rightarrow> r | Some s \<Rightarrow> r\<lparr>message := so_message s, uri := so_uri s\<rparr>)"

text \<open>The loop over all outcomes that takes text from every branch of one kind, so that the last one stays.\<close>

fun describe_all :: "(outcome \<Rightarrow> single_outcome option) \<Rightarrow> outcome list \<Rightarrow> analyze_result \<Rightarrow> analyze_result" where
  "describe_all branch [] r = r"
| "describe_all branch (o' # os) r = describe_all branch os (describe (branch o') r)"

definition passed :: "outcome list \<Rightarrow> analyze_result \<Rightarrow> analyze_result" where
  "passed outcomes r = describe_all o_pass outcomes (r\<lparr>is_pass := True\<rparr>)"

definition failed :: "outcome list \<Rightarrow> analyze_result \<Rightarrow> analyze_result" where
  "failed outcomes r = describe_all o_fail outcomes (r\<lparr>is_fail := True\<rparr>)"

definition or_default :: "bool \<Rightarrow> string \<Rightarrow> analyze_result \<Rightarrow> analyze_result" where
  "or_default applies msg r = (if applies \<and> message r = [] then r\<lparr>message := msg\<rparr> else r)"

text \<open>A storage class with its name and its annotations.\<close>

definition is_default_class :: "string \<times> (string \<times> string) list \<Rightarrow> bool" where
  "is_default_class sc \<longleftrightarrow> map_of (snd sc) ''storageclass.kubernetes.io/is-default-class'' = Some ''true''"

definition storage_class_title :: "string \<Rightarrow> string \<Rightarrow> string" where
  "storage_class_title check_name class_name =
     titled check_name (if class_name \<noteq> [] then ''Storage class '' @ class_name else ''Default Storage Class'')"

definition analyze_storage_class ::
  "(string \<Rightarrow> (string \<times> (string \<times> string) list) list res) \<Rightarrow> (string \<Rightarrow> string res) \<Rightarrow> string \<Rightarrow> string \<Rightarrow>
   outcome list \<Rightarrow> analyze_result res" where
  "analyze_storage_class unmarshal get check_name class_name outcomes =
     bind_res (get ''cluster-resources/storage-classes.json'') (\<lambda>data.
     bind_res (unmarshal data) (\<lambda>classes.
       let r = icon_result (storage_class_title check_name class_name) ''kubernetes_storage_class''
                 ''https://troubleshoot.sh/images/analyzer-icons/storage-class.svg?w=12&h=12''
       in Ok (if list_ex (\<lambda>sc. fst sc = class_name \<or> class_name = [] \<and> is_default_class sc) classes
              then or_default (class_name = []) ''Default Storage Class found'' (passed outcomes r)
              else or_default (class_name = []) ''No Default Storage Class found'' (failed outcomes r))))"

definition analyze_ingress ::
  "(string \<Rightarrow> string list res) \<Rightarrow> (string \<Rightarrow> string res) \<Rightarrow> string \<Rightarrow> string \<Rightarrow> string \<Rightarrow> outcome list \<Rightarrow>
   analyze_result res" where
  "analyze_ingress unmarshal get check_name namespace ingress_name outcomes =
     bind_res (get (resource_file ''ingress'' namespace)) (\<lambda>data.
     bind_res (unmarshal data) (\<lambda>names.
       let r = icon_result (titled check_name (''Ingress '' @ ingress_name)) ''kubernetes_ingress''
                 ''https://troubleshoot.sh/images/analyzer-icons/ingress-controller.svg?w=20&h=13''
       in Ok (if ingress_name \<in> set names then passed outcomes r else failed outcomes r)))"

text \<open>Without the definition, every outcome with a fail or a warn branch leaves its flag and its text.\<close>

fun crd_missing :: "outcome list \<Rightarrow> analyze_result \<Rightarrow> analyze_result" where
  "crd_missing [] r = r"
| "crd_missing (o' # os) r =
     crd_missing os
       (case o_fail o' of
          Some f \<Rightarrow> conclude SFail f r
        | None \<Rightarrow> (case o_warn o' of Some w \<Rightarrow> conclude SWarn w r | None \<Rightarrow> r))"

definition analyze_crd ::
  "(string \<Rightarrow> string list res) \<Rightarrow> (string \<Rightarrow> string res) \<Rightarrow> string \<Rightarrow> string \<Rightarrow> outcome list \<Rightarrow> analyze_result res" where
  "analyze_crd unmarshal get check_name crd_name outcomes =
     bind_res (get ''cluster-resources/custom-resource-definitions.json'') (\<lambda>data.
     bind_res (unmarshal data) (\<lambda>names.
       let r = icon_result (titled check_name (''Custom resource definition '' @ crd_name))
                 ''kubernetes_custom_resource_definition''
                 ''https://troubleshoot.sh/images/analyzer-icons/custom-resource-definition.svg?w=13&h=16''
       in Ok (if crd_name \<in> set names then passed outcomes r else crd_missing outcomes r)))"

text \<open>Secrets and config maps are collected one by one, each with the key that was asked for.\<close>

record found_object =
  object_exists :: bool
  found_key :: string
  key_exists :: bool

definition object_file :: "string \<Rightarrow> string \<Rightarrow> string \<Rightarrow> string \<Rightarrow> string" where
  "object_file dir namespace name key =
     path_join ([dir, namespace, name] @ (if key \<noteq> [] then [key] else [])) @ ''.json''"

text \<open>The last outcome with a fail branch; using it when there is none is a nil pointer.\<close>

fun last_fail :: "single_outcome option \<Rightarrow> outcome list \<Rightarrow> single_outcome option" where
  "last_fail acc [] = acc"
| "last_fail acc (o' # os) = last_fail (case o_fail o' of Some f \<Rightarrow> Some f | None \<Rightarrow> acc) os"

definition object_result :: "string \<Rightarrow> outcome list \<Rightarrow> found_object \<Rightarrow> analyze_result \<Rightarrow> analyze_result res" where
  "object_result key outcomes found r =
     (if \<not> object_exists found \<or> key \<noteq> [] \<and> (found_key found \<noteq> key \<or> \<not> key_exists found)
      then (case last_fail None outcomes of
              None \<Rightarrow> Panic ''invalid memory address or nil pointer dereference''
            | Some f \<Rightarrow> Ok (conclude SFail f r))
      else Ok (passed outcomes r))"

definition analyze_object ::
  "string \<Rightarrow> string \<Rightarrow> (string \<Rightarrow> found_object res) \<Rightarrow> (string \<Rightarrow> string res) \<Rightarrow> string \<Rightarrow> string \<Rightarrow> string \<Rightarrow> string \<Rightarrow>
   outcome list \<Rightarrow> analyze_result res" where
  "analyze_object dir kind unmarshal get check_name namespace name key outcomes =
     bind_res (get (object_file dir namespace name key)) (\<lambda>data.
     bind_res (unmarshal data) (\<lambda>found.
       object_result key outcomes found
         (icon_result (titled check_name (kind @ '' '' @ name)) ''kubernetes_analyze_secret''
            ''https://troubleshoot.sh/images/analyzer-icons/secret.svg?w=13&h=16'')))"

definition analyze_secret ::
  "(string \<Rightarrow> found_object res) \<Rightarrow> (string \<Rightarrow> string res) \<Rightarrow> string \<Rightarrow> string \<Rightarrow> string \<Rightarrow> string \<Rightarrow> outcome list \<Rightarrow>
   analyze_result res" where
  "analyze_secret = analyze_object ''secrets'' ''Secret''"

definition analyze_config_map ::
  "(string \<Rightarrow> found_object res) \<Rightarrow> (string \<Rightarrow> string res) \<Rightarrow> string \<Rightarrow> string \<Rightarrow> string \<Rightarrow> string \<Rightarrow> outcome list \<Rightarrow>
   analyze_result res" where
  "analyze_config_map = analyze_object ''configmaps'' ''ConfigMap''"

text \<open>The two branches an image pull secret analyzer looks at: the last ones.\<close>

fun pull_outcomes :: "outcome list \<Rightarrow> single_outcome option \<times> single_outcome option \<Rightarrow>
   single_outcome option \<times> single_outcome option" where
  "pull_outcomes [] fp = fp"
| "pull_outcomes (o' # os) (f, p) =
     pull_outcomes os
       (case (o_fail o', o_pass o') of
          (Some f', _) \<Rightarrow> (Some f', p)
        | (None, Some p') \<Rightarrow> (f, Some p')
        | (None, None) \<Rightarrow> (f, p))"

definition analyze_image_pull_secret ::
  "(string \<Rightarrow> string list res) \<Rightarrow> find_files \<Rightarrow> string \<Rightarrow> string \<Rightarrow> outcome list \<Rightarrow> analyze_result res" where
  "analyze_image_pull_secret unmarshal find_f check_name registry_name outcomes =
     bind_res (wrap_res ''failed to get file contents for image pull secrets''
         (find_f ''cluster-resources/image-pull-secrets'' [])) (\<lambda>files.
     bind_res (map_m (\<lambda>(_, c). wrap_res ''failed to parse registry secret'' (unmarshal c)) files) (\<lambda>registries.
       let (f, p) = pull_outcomes outcomes (None, None);
           r = describe f ((icon_result (titled check_name ''Image Pull Secrets'') ''kubernetes_image_pull_secret''
                 ''https://troubleshoot.sh/images/analyzer-icons/image-pull-secret.svg?w=16&h=14'')\<lparr>is_fail := True\<rparr>)
       in Ok (if list_ex (\<lambda>rs. registry_name \<in> set rs) registries
              then or_default True (''Credentials to pull from: '' @ registry_name @ '' found'')
                     (describe p (r\<lparr>is_pass := True, is_fail := False\<rparr>))
              else or_default True (''Credentials to pull from: '' @ registry_name @ '' not found'') r)))"

section \<open>Images of a registry\<close>

record registry_image =
  image_error :: string
  image_exists :: bool

record image_counts =
  num_verified :: int
  num_missing :: int
  num_errors :: int

fun count_images :: "registry_image list \<Rightarrow> image_counts \<Rightarrow> image_counts" where
  "count_images [] c = c"
| "count_images (i # is) c =
     count_images is
       (if image_error i \<noteq> [] then c\<lparr>num_errors := num_errors c + 1\<rparr>
        else if \<not> image_exists i then c\<lparr>num_missing := num_missing c + 1\<rparr>
        else c\<lparr>num_verified := num_verified c + 1\<rparr>)"

definition do_compare_registry_image_count :: "string \<Rightarrow> string \<Rightarrow> int \<Rightarrow> bool res" where
  "do_compare_registry_image_count operator desired actual =
     bind_res (wrap_res ''failed to parse'' (atoi desired)) (\<lambda>d.
       case switch_op operator actual d of
         Some b \<Rightarrow> Ok b
       | None \<Rightarrow> Fail (Errf ''unknown operator: %s'' [operator]))"

definition compare_registry_conditional_to_actual :: "string \<Rightarrow> image_counts \<Rightarrow> bool res" where
  "compare_registry_conditional_to_actual conditional c =
     (case split_on (CHR '' '') (trim_space conditional) of
        [term, operator, desired] \<Rightarrow>
          if term = ''verified''
          then wrap_res ''failed to compare number of verified images''
                 (do_compare_registry_image_count operator desired (num_verified c))
          else if term = ''missing''
          then wrap_res ''failed to compare number of missing images''
                 (do_compare_registry_image_count operator desired (num_missing c))
          else if term = ''errors''
          then wrap_res ''failed to compare number of errors''
                 (do_compare_registry_image_count operator desired (num_errors c))
          else Fail (Errf ''unknown term %q in conditional'' [term])
      | _ \<Rightarrow> Fail (Errf ''unable to parse conditional: %s'' [conditional]))"

text \<open>The walk over the outcomes that several analyzers share: an empty condition matches.\<close>

fun walk_outcomes :: "string \<Rightarrow> (string \<Rightarrow> bool res) \<Rightarrow> analyze_result \<Rightarrow> outcome list \<Rightarrow> analyze_result res" where
  "walk_outcomes errmsg check r [] = Ok r"
| "walk_outcomes errmsg check r (o' # os) =
     bind_res (when_step check (\<lambda>_ _. errmsg) r o') (\<lambda>d.
       case d of None \<Rightarrow> walk_outcomes errmsg check r os | Some r' \<Rightarrow> Ok r')"

interpretation walked: outcome_loop
  "walk_outcomes errmsg check r" "when_step check (\<lambda>_ _. errmsg) r" "Ok r" for errmsg check r
  by unfold_locales simp_all

definition analyze_registry ::
  "(string \<Rightarrow> registry_image list res) \<Rightarrow> (string \<Rightarrow> string res) \<Rightarrow> string \<Rightarrow> string \<Rightarrow> outcome list \<Rightarrow>
   analyze_result res" where
  "analyze_registry unmarshal get check_name collector_name outcomes =
     (let collector = (if collector_name = [] then ''images'' else collector_name);
          full_path = path_join [''registry'', collector @ ''.json''] in
      bind_res (wrap_res (''failed to read collected file name: '' @ full_path) (get full_path)) (\<lambda>data.
      bind_res (wrap_res ''failed to unmarshal database connection result'' (unmarshal data)) (\<lambda>images.
        walk_outcomes ''failed to compare registry conditional''
          (\<lambda>w. compare_registry_conditional_to_actual w
                 (count_images images \<lparr>num_verified = 0, num_missing = 0, num_errors = 0\<rparr>))
          (icon_result (titled check_name collector) ''kubernetes_registry_analyze''
             ''https://troubleshoot.sh/images/analyzer-icons/registry-analyze.svg'') outcomes)))"

section \<open>Container runtimes\<close>

definition compare_runtime_conditional_to_actual :: "(string \<Rightarrow> string res) \<Rightarrow> string \<Rightarrow> string \<Rightarrow> bool res" where
  "compare_runtime_conditional_to_actual url_scheme conditional actual =
     (case split_on (CHR '' '') (trim_space conditional) of
        [operator, runtime] \<Rightarrow>
          bind_res (wrap_res ''failed to parse url'' (url_scheme actual)) (\<lambda>scheme.
            Ok (if operator = ''='' \<or> operator = ''=='' \<or> operator = ''==='' then runtime = scheme else False))
      | _ \<Rightarrow> Fail (Err ''unable to parse conditional''))"

fun some_runtime :: "(string \<Rightarrow> bool res) \<Rightarrow> string list \<Rightarrow> bool res" where
  "some_runtime check [] = Ok False"
| "some_runtime check (a # as) = bind_res (check a) (\<lambda>m. if m then Ok True else some_runtime check as)"

definition analyze_container_runtime ::
  "(string \<Rightarrow> string list res) \<Rightarrow> (string \<Rightarrow> string res) \<Rightarrow> (string \<Rightarrow> string res) \<Rightarrow> string \<Rightarrow> outcome list \<Rightarrow>
   analyze_result res" where
  "analyze_container_runtime unmarshal url_scheme get check_name outcomes =
     bind_res (wrap_res ''failed to get contents of nodes.json'' (get ''cluster-resources/nodes.json'')) (\<lambda>data.
     bind_res (wrap_res ''failed to unmarshal node list'' (unmarshal data)) (\<lambda>runtimes.
       walk_outcomes ''failed to compare runtime conditional''
         (\<lambda>w. some_runtime (compare_runtime_conditional_to_actual url_scheme w) runtimes)
         (icon_result (titled check_name ''Container Runtime'') ''kubernetes_container_runtime''
            ''https://troubleshoot.sh/images/analyzer-icons/container-runtime.svg?w=23&h=16'') outcomes))"

section \<open>Version of the cluster\<close>

definition parse_k8s_version_string :: "(string \<Rightarrow> 'v res) \<Rightarrow> string \<Rightarrow> 'v res" where
  "parse_k8s_version_string semver_make version =
     semver_make (dropWhile (\<lambda>c. c = CHR ''v'')
       (if contains_sub ''-eks-'' version then hd (split_on (CHR ''-'') version) else version))"

text \<open>Every outcome starts from a fresh result; an outcome without a branch is an error.\<close>

definition version_step ::
  "(string \<Rightarrow> ('v \<Rightarrow> bool) res) \<Rightarrow> 'v \<Rightarrow> string \<Rightarrow> outcome \<Rightarrow> analyze_result option res" where
  "version_step parse_range v check_name o' =
     (case select_outcome o' of
        None \<Rightarrow> Fail (Err ''empty outcome'')
      | Some (sev, so) \<Rightarrow>
          let r = conclude sev so (icon_result (titled check_name ''Required Kubernetes Version'')
                    ''kubernetes_cluster_version''
                    ''https://troubleshoot.sh/images/analyzer-icons/kubernetes.svg?w=16&h=16'')
          in if so_when so = [] then Ok (Some r)
             else bind_res (wrap_res ''failed to parse semver range'' (parse_range (so_when so))) (\<lambda>range.
               Ok (if range v then Some r else None)))"

fun analyze_cluster_version_result ::
  "(string \<Rightarrow> ('v \<Rightarrow> bool) res) \<Rightarrow> 'v \<Rightarrow> outcome list \<Rightarrow> string \<Rightarrow> analyze_result res" where
  "analyze_cluster_version_result parse_range v [] check_name = Ok (new_result [])"
| "analyze_cluster_version_result parse_range v (o' # os) check_name =
     bind_res (version_step parse_range v check_name o') (\<lambda>d.
       case d of None \<Rightarrow> analyze_cluster_version_result parse_range v os check_name | Some r \<Rightarrow> Ok r)"

interpretation version_outcomes: outcome_loop
  "\<lambda>os. analyze_cluster_version_result parse_range v os check_name" "version_step parse_range v check_name"
  "Ok (new_result [])" for parse_range v check_name
  by unfold_locales simp_all

definition analyze_cluster_version ::
  "(string \<Rightarrow> string res) \<Rightarrow> (string \<Rightarrow> 'v res) \<Rightarrow> (string \<Rightarrow> ('v \<Rightarrow> bool) res) \<Rightarrow> (string \<Rightarrow> string res) \<Rightarrow> string \<Rightarrow>
   outcome list \<Rightarrow> analyze_result res" where
  "analyze_cluster_version unmarshal semver_make parse_range get check_name outcomes =
     bind_res (wrap_res ''failed to get contents of cluster_version.json'' (get ''cluster-info/cluster_version.json'')) (\<lambda>data.
     bind_res (wrap_res ''failed to parse cluster_version.json'' (unmarshal data)) (\<lambda>version.
     bind_res (wrap_res ''failed to parse semver from cluster_version.json'' (parse_k8s_version_string semver_make version)) (\<lambda>v.
       analyze_cluster_version_result parse_range v outcomes check_name)))"

text \<open>The \<^verbatim>\<open>Analyze\<close> method of all these analyzers.\<close>

definition single_Analyze :: "bool_or_string option \<Rightarrow> analyze_result res \<Rightarrow> analyze_result list res" where
  "single_Analyze strict_flag r = map_res (\<lambda>r. [r\<lparr>strict := bool_or_default_false strict_flag\<rparr>]) r"

definition storage_class_Analyze ::
  "(string \<Rightarrow> (string \<times> (string \<times> string) list) list res) \<Rightarrow> (string \<Rightarrow> string res) \<Rightarrow> string \<Rightarrow> string \<Rightarrow>
   bool_or_string option \<Rightarrow> outcome list \<Rightarrow> analyze_result list res" where
  "storage_class_Analyze unmarshal get check_name class_name strict_flag outcomes =
     single_Analyze strict_flag (analyze_storage_class unmarshal get check_name class_name outcomes)"

definition ingress_Analyze ::
  "(string \<Rightarrow> string list res) \<Rightarrow> (string \<Rightarrow> string res) \<Rightarrow> string \<Rightarrow> string \<Rightarrow> string \<Rightarrow>
   bool_or_string option \<Rightarrow> outcome list \<Rightarrow> analyze_result list res" where
  "ingress_Analyze unmarshal get check_name namespace ingress_name strict_flag outcomes =
     single_Analyze strict_flag (analyze_ingress unmarshal get check_name namespace ingress_name outcomes)"

definition crd_Analyze ::
  "(string \<Rightarrow> string list res) \<Rightarrow> (string \<Rightarrow> string res) \<Rightarrow> string \<Rightarrow> string \<Rightarrow>
   bool_or_string option \<Rightarrow> outcome list \<Rightarrow> analyze_result list res" where
  "crd_Analyze unmarshal get check_name crd_name strict_flag outcomes =
     single_Analyze strict_flag (analyze_crd unmarshal get check_name crd_name outcomes)"

definition secret_Analyze ::
  "(string \<Rightarrow> found_object res) \<Rightarrow> (string \<Rightarrow> string res) \<Rightarrow> string \<Rightarrow> string \<Rightarrow> string \<Rightarrow> string \<Rightarrow>
   bool_or_string option \<Rightarrow> outcome list \<Rightarrow> analyze_result list res" where
  "secret_Analyze unmarshal get check_name namespace name key strict_flag outcomes =
     single_Analyze strict_flag (analyze_secret unmarshal get check_name namespace name key outcomes)"

definition config_map_Analyze ::
  "(string \<Rightarrow> found_object res) \<Rightarrow> (string \<Rightarrow> string res) \<Rightarrow> string \<Rightarrow> string \<Rightarrow> string \<Rightarrow> string \<Rightarrow>
   bool_or_string option \<Rightarrow> outcome list \<Rightarrow> analyze_result list res" where
  "config_map_Analyze unmarshal get check_name namespace name key strict_flag outcomes =
     single_Analyze strict_flag (analyze_config_map unmarshal get check_name namespace name key outcomes)"

definition image_pull_secret_Analyze ::
  "(string \<Rightarrow> string list res) \<Rightarrow> find_files \<Rightarrow> string \<Rightarrow> string \<Rightarrow>
   bool_or_string option \<Rightarrow> outcome list \<Rightarrow> analyze_result list res" where
  "image_pull_secret_Analyze unmarshal find_f check_name registry_name strict_flag outcomes =
     single_Analyze strict_flag (analyze_image_pull_secret unmarshal find_f check_name registry_name outcomes)"

definition registry_Analyze ::
  "(string \<Rightarrow> registry_image list res) \<Rightarrow> (string \<Rightarrow> string res) \<Rightarrow> string \<Rightarrow> string \<Rightarrow>
   bool_or_string option \<Rightarrow> outcome list \<Rightarrow> analyze_result list res" where
  "registry_Analyze unmarshal get check_name collector_name strict_flag outcomes =
     single_Analyze strict_flag (analyze_registry unmarshal get check_name collector_name outcomes)"

definition container_runtime_Analyze ::
  "(string \<Rightarrow> string list res) \<Rightarrow> (string \<Rightarrow> string res) \<Rightarrow> (string \<Rightarrow> string res) \<Rightarrow> string \<Rightarrow>
   bool_or_string option \<Rightarrow> outcome list \<Rightarrow> analyze_result list res" where
  "container_runtime_Analyze unmarshal url_scheme get check_name strict_flag outcomes =
     single_Analyze strict_flag (analyze_container_runtime unmarshal url_scheme get check_name outcomes)"

definition cluster_version_Analyze ::
  "(string \<Rightarrow> string res) \<Rightarrow> (string \<Rightarrow> 'v res) \<Rightarrow> (string \<Rightarrow> ('v \<Rightarrow> bool) res) \<Rightarrow> (string \<Rightarrow> string res) \<Rightarrow> string \<Rightarrow>
   bool_or_string option \<Rightarrow> outcome list \<Rightarrow> analyze_result list res" where
  "cluster_version_Analyze unmarshal semver_make parse_range get check_name strict_flag outcomes =
     single_Analyze strict_flag (analyze_cluster_version unmarshal semver_make parse_range get check_name outcomes)"

section \<open>Lemmas\<close>

lemma describe_flags [simp]:
  "is_pass (describe so r) = is_pass r" "is_fail (describe so r) = is_fail r" "is_warn (describe so r) = is_warn r"
  "title (describe so r) = title r"
  by (simp_all add: describe_def split: option.split)

lemma describe_all_flags [simp]:
  "is_pass (describe_all b os r) = is_pass r" "is_fail (describe_all b os r) = is_fail r"
  "is_warn (describe_all b os r) = is_warn r" "title (describe_all b os r) = title r"
  by (induction os arbitrary: r) simp_all

lemma or_default_flags [simp]:
  "is_pass (or_default b m r) = is_pass r" "is_fail (or_default b m r) = is_fail r" "is_warn (or_default b m r) = is_warn r"
  by (simp_all add: or_default_def)

lemma icon_result_flags [simp]:
  "is_pass (icon_result t k i) = False" "is_fail (icon_result t k i) = False" "is_warn (icon_result t k i) = False"
  by (simp_all add: icon_result_def new_result_def)

lemma passed_verdict: "undecided r \<Longrightarrow> is_verdict (passed os r)"
  by (simp add: passed_def is_verdict_def undecided_def)

lemma failed_verdict: "undecided r \<Longrightarrow> is_verdict (failed os r)"
  by (simp add: failed_def is_verdict_def undecided_def)

lemma or_default_verdict [simp]: "is_verdict (or_default b m r) = is_verdict r"
  by (simp add: is_verdict_def)

lemma last_fail_None: "last_fail acc os = None \<longleftrightarrow> acc = None \<and> (\<forall>o'\<in>set os. o_fail o' = None)"
  by (induction os arbitrary: acc) (auto split: option.splits)

lemma conclude_flags:
  "is_fail (conclude sev so r) = (is_fail r \<or> sev = SFail)" "is_warn (conclude sev so r) = (is_warn r \<or> sev = SWarn)"
  "is_pass (conclude sev so r) = (is_pass r \<or> sev = SPass)"
  by (cases sev; simp add: conclude_def set_severity_def)+

lemma crd_missing_flags:
  "is_pass (crd_missing os r) = is_pass r"
  "is_fail (crd_missing os r) = (is_fail r \<or> (\<exists>o'\<in>set os. o_fail o' \<noteq> None))"
  "is_warn (crd_missing os r) = (is_warn r \<or> (\<exists>o'\<in>set os. o_fail o' = None \<and> o_warn o' \<noteq> None))"
  by (induction os arbitrary: r) (auto simp: conclude_flags split: option.splits)

lemma object_result_panic:
  "is_panic (object_result key os found r) \<longleftrightarrow>
     (\<not> object_exists found \<or> key \<noteq> [] \<and> (found_key found \<noteq> key \<or> \<not> key_exists found)) \<and>
     (\<forall>o'\<in>set os. o_fail o' = None)"
  using last_fail_None [of None os] by (auto simp: object_result_def split: option.splits)

lemma count_images_lengths:
  "num_errors (count_images is c) = num_errors c + int (length (filter (\<lambda>i. image_error i \<noteq> []) is))"
  "num_missing (count_images is c) = num_missing c + int (length (filter (\<lambda>i. image_error i = [] \<and> \<not> image_exists i) is))"
  "num_verified (count_images is c) = num_verified c + int (length (filter (\<lambda>i. image_error i = [] \<and> image_exists i) is))"
  by (induction "is" arbitrary: c) auto

text \<open>The three terms of a registry condition speak the language of counts.\<close>

definition render_term :: "string \<Rightarrow> string \<Rightarrow> int \<Rightarrow> string" where
  "render_term term op v = sentence [term, op, show_int v]"

definition term_count :: "string \<Rightarrow> image_counts \<Rightarrow> int" where
  "term_count term c =
     (if term = ''verified'' then num_verified c else if term = ''missing'' then num_missing c else num_errors c)"

lemma compare_registry_rendered:
  assumes "term \<in> {''verified'', ''missing'', ''errors''}" and "op \<noteq> []" and "CHR '' '' \<notin> set op" and "in_int64 v"
    and "switch_op op (term_count term c) v = Some b"
  shows "compare_registry_conditional_to_actual (render_term term op v) c = Ok b"
proof -
  have t: "CHR '' '' \<notin> set term" "term \<noteq> []" "\<not> is_space (hd term)" using assms(1) by (auto simp: is_space_def)
  have "split_on (CHR '' '') (sentence [term, op, show_int v]) = [term, op, show_int v]"
    using t assms(3) by (intro split_sentence) auto
  moreover have "trim_space (sentence [term, op, show_int v]) = sentence [term, op, show_int v]"
    using t last_show_int_no_space by (intro trim_space_id) (simp add: sentence_def)
  ultimately show ?thesis
    using assms by (auto simp: compare_registry_conditional_to_actual_def render_term_def
        do_compare_registry_image_count_def go_simps term_count_def split: if_splits)
qed

interpretation verified_images: when_language
  compare_registry_conditional_to_actual "render_term ''verified''" num_verified in_int64
  by unfold_locales (auto intro!: compare_registry_rendered simp: switch_op_def term_count_def)

interpretation missing_images: when_language
  compare_registry_conditional_to_actual "render_term ''missing''" num_missing in_int64
  by unfold_locales (auto intro!: compare_registry_rendered simp: switch_op_def term_count_def)

interpretation failed_images: when_language
  compare_registry_conditional_to_actual "render_term ''errors''" num_errors in_int64
  by unfold_locales (auto intro!: compare_registry_rendered simp: switch_op_def term_count_def)

lemma version_step_Some_iff:
  "version_step parse_range v check_name o' = Ok (Some r) \<longleftrightarrow>
     (\<exists>sev so. select_outcome o' = Some (sev, so) \<and>
        r = conclude sev so (icon_result (titled check_name ''Required Kubernetes Version'') ''kubernetes_cluster_version''
              ''https://troubleshoot.sh/images/analyzer-icons/kubernetes.svg?w=16&h=16'') \<and>
        (so_when so = [] \<or> (\<exists>range. parse_range (so_when so) = Ok range \<and> range v)))"
  by (auto simp: version_step_def res_simps Let_def split: option.splits if_splits)

lemma version_step_None_iff:
  "version_step parse_range v check_name o' = Ok None \<longleftrightarrow>
     (\<exists>sev so. select_outcome o' = Some (sev, so) \<and> so_when so \<noteq> [] \<and>
        (\<exists>range. parse_range (so_when so) = Ok range \<and> \<not> range v))"
  by (auto simp: version_step_def res_simps Let_def split: option.splits if_splits)

section \<open>Properties\<close>

text \<open>
  C38. A secret or config map that is missing, or misses the key asked for, is reported with the text of the last
  outcome that has a fail branch; when no outcome has one the analyzer panics, and it panics in no other case.
\<close>

theorem missing_object_needs_fail_outcome:
  assumes "get (object_file dir namespace name key) = Ok data" and "unmarshal data = Ok found"
    and "missing \<longleftrightarrow> \<not> object_exists found \<or> key \<noteq> [] \<and> (found_key found \<noteq> key \<or> \<not> key_exists found)"
  shows "(is_panic (analyze_object dir kind unmarshal get check_name namespace name key outcomes) \<longleftrightarrow>
      missing \<and> (\<forall>o'\<in>set outcomes. o_fail o' = None)) \<and>
    (\<forall>r. analyze_object dir kind unmarshal get check_name namespace name key outcomes = Ok r \<longrightarrow>
      is_verdict r \<and> (is_fail r \<longleftrightarrow> missing))"
proof -
  have flags: "is_fail (passed os r) = is_fail r" for os r by (simp add: passed_def)
  show ?thesis
    using assms(1,2) object_result_panic [of key outcomes found]
    by (auto simp: analyze_object_def assms(3) object_result_def conclude_verdict passed_verdict flags
        conclude_flags split: option.splits)
qed

theorem missing_object_needs_fail_outcome_witness:
  "is_panic (analyze_secret (\<lambda>_. Ok \<lparr>object_exists = False, found_key = [], key_exists = False\<rparr>) Ok [] ''ns'' ''s'' []
     [\<lparr>o_fail = None, o_warn = None, o_pass = Some \<lparr>so_when = [], so_message = ''ok'', so_uri = []\<rparr>\<rparr>])"
  unfolding analyze_secret_def
  by (subst conjunct1 [OF missing_object_needs_fail_outcome [where missing = True, OF refl refl]]) simp_all

text \<open>
  Looking objects up gives a verdict, exactly one of pass, warn and fail: always for storage classes, ingresses,
  secrets, config maps and image pull secrets; for a custom resource definition when it was found, or when the
  outcomes have a fail branch or an outcome with only a warn branch, but not both kinds.
\<close>

theorem lookups_give_verdicts:
  "(\<forall>r. analyze_storage_class um1 get check_name name outcomes = Ok r \<longrightarrow> is_verdict r) \<and>
   (\<forall>r. analyze_ingress um2 get check_name namespace name outcomes = Ok r \<longrightarrow> is_verdict r) \<and>
   (\<forall>r. analyze_image_pull_secret um2 find_f check_name name outcomes = Ok r \<longrightarrow> is_verdict r) \<and>
   (\<forall>r. analyze_crd um2 get check_name name outcomes = Ok r \<longrightarrow>
      (is_verdict r \<longleftrightarrow> is_pass r \<or>
         (\<exists>o'\<in>set outcomes. o_fail o' \<noteq> None) \<noteq> (\<exists>o'\<in>set outcomes. o_fail o' = None \<and> o_warn o' \<noteq> None)))"
proof (intro conjI allI impI)
  show "is_verdict r" if "analyze_storage_class um1 get check_name name outcomes = Ok r" for r
    using that by (auto simp: analyze_storage_class_def res_simps Let_def passed_verdict failed_verdict)
  show "is_verdict r" if "analyze_ingress um2 get check_name namespace name outcomes = Ok r" for r
    using that by (auto simp: analyze_ingress_def res_simps Let_def passed_verdict failed_verdict)
  show "is_verdict r" if "analyze_image_pull_secret um2 find_f check_name name outcomes = Ok r" for r
  proof -
    obtain f p where "pull_outcomes outcomes (None, None) = (f, p)" by fastforce
    with that show ?thesis by (auto simp: analyze_image_pull_secret_def res_simps Let_def is_verdict_def split: if_splits)
  qed
  show "is_verdict r \<longleftrightarrow> is_pass r \<or>
      (\<exists>o'\<in>set outcomes. o_fail o' \<noteq> None) \<noteq> (\<exists>o'\<in>set outcomes. o_fail o' = None \<and> o_warn o' \<noteq> None)"
    if run: "analyze_crd um2 get check_name name outcomes = Ok r" for r
  proof -
    define r0 where "r0 = icon_result (titled check_name (''Custom resource definition '' @ name)) ''kubernetes_custom_resource_definition''
      ''https://troubleshoot.sh/images/analyzer-icons/custom-resource-definition.svg?w=13&h=16''"
    have r0: "is_pass r0 = False" "is_warn r0 = False" "is_fail r0 = False" by (simp_all add: r0_def)
    from run have "r = passed outcomes r0 \<or> r = crd_missing outcomes r0"
      by (auto simp: analyze_crd_def res_simps Let_def r0_def)
    then show ?thesis
    proof
      assume "r = passed outcomes r0"
      then show ?thesis by (simp add: passed_def is_verdict_def r0)
    next
      assume "r = crd_missing outcomes r0"
      then show ?thesis unfolding is_verdict_def by (simp only: crd_missing_flags r0) blast
    qed
  qed
qed

theorem lookups_give_verdicts_witness:
  "\<exists>r. analyze_crd (\<lambda>_. Ok [''a'']) Ok [] ''b''
      [\<lparr>o_fail = Some \<lparr>so_when = [], so_message = ''m'', so_uri = []\<rparr>, o_warn = None, o_pass = None\<rparr>,
       \<lparr>o_fail = None, o_warn = Some \<lparr>so_when = [], so_message = ''n'', so_uri = []\<rparr>, o_pass = None\<rparr>] = Ok r \<and> \<not> is_verdict r"
  (is "\<exists>r. analyze_crd ?um Ok [] _ ?os = Ok r \<and> _")
proof -
  obtain r where r: "analyze_crd ?um Ok [] ''b'' ?os = Ok r" by (auto simp: analyze_crd_def Let_def)
  then have "\<not> is_pass r" by (auto simp: analyze_crd_def Let_def crd_missing_flags simp del: crd_missing.simps)
  with r lookups_give_verdicts [of "\<lambda>_. Fail (LibErr [])" Ok "[]" "''b''" ?os ?um "[]" "\<lambda>_ _. Ok []"]
  show ?thesis by (intro exI [of _ r]) simp
qed

text \<open>
  The version analyzer decides by the first outcome whose range holds of the version, or whose condition is empty; an
  outcome without branches before it, or a range that does not parse, is an error. When all ranges are false the
  result has no verdict and no title.
\<close>

theorem cluster_version_first_range:
  "analyze_cluster_version_result parse_range v outcomes check_name = Ok r \<longleftrightarrow>
     (let skips = (\<lambda>o'. \<exists>sev so range. select_outcome o' = Some (sev, so) \<and> so_when so \<noteq> [] \<and>
                       parse_range (so_when so) = Ok range \<and> \<not> range v);
          hits = (\<lambda>o'. \<exists>sev so. select_outcome o' = Some (sev, so) \<and>
                       r = conclude sev so (icon_result (titled check_name ''Required Kubernetes Version'') ''kubernetes_cluster_version''
                             ''https://troubleshoot.sh/images/analyzer-icons/kubernetes.svg?w=16&h=16'') \<and>
                       (so_when so = [] \<or> (\<exists>range. parse_range (so_when so) = Ok range \<and> range v)))
      in first_such skips hits outcomes \<or> list_all skips outcomes \<and> r = new_result [])"
  by (auto simp: version_outcomes.loop_Ok_iff version_step_Some_iff version_step_None_iff list_all_iff Let_def first_such_def)

end
