(* ===== verification/Distribution.thy ===== *)
theory Distribution
  imports Cluster_Checks
begin

text \<open>
  The analyzer of the distribution of a cluster (\<^verbatim>\<open>distribution.go\<close>): the providers found in the labels, annotations
  and specs of the nodes and in the API resources, and the conditions on them. The struct of flags is the set of the
  providers whose flag is set; labels and annotations are lists in the order in which the range visits them. JSON
  decoding is a parameter.
\<close>

datatype provider =
    Unknown_Provider | Microk8s | Docker_Desktop | Eks | Gke | Digital_Ocean | Open_Shift | Tanzu | Kurl | Aks | Ibm
  | Minikube | Rke2 | K3s | Oke | Kind_Provider | K0s | Embedded_Cluster

record cluster_node =
  cn_labels :: "(string \<times> string) list"
  cn_annotations :: "(string \<times> string) list"
  cn_os_image :: string
  cn_provider_id :: string

record scan_state =
  found_providers :: "provider set"
  found_master :: bool
  string_provider :: string

definition provider_name :: "provider \<Rightarrow> string" where
  "provider_name p =
     (case p of
        Unknown_Provider \<Rightarrow> [] | Microk8s \<Rightarrow> ''microk8s'' | Docker_Desktop \<Rightarrow> ''dockerDesktop'' | Eks \<Rightarrow> ''eks''
      | Gke \<Rightarrow> ''gke'' | Digital_Ocean \<Rightarrow> ''digitalOcean'' | Open_Shift \<Rightarrow> ''openShift'' | Tanzu \<Rightarrow> ''tanzu'' | Kurl \<Rightarrow> ''kurl''
      | Aks \<Rightarrow> ''aks'' | Ibm \<Rightarrow> ''ibm'' | Minikube \<Rightarrow> ''minikube'' | Rke2 \<Rightarrow> ''rke2'' | K3s \<Rightarrow> ''k3s'' | Oke \<Rightarrow> ''oke''
      | Kind_Provider \<Rightarrow> ''kind'' | K0s \<Rightarrow> ''k0s'' | Embedded_Cluster \<Rightarrow> ''embedded-cluster'')"

definition found :: "provider \<Rightarrow> scan_state \<Rightarrow> scan_state" where
  "found p s = s\<lparr>found_providers := insert p (found_providers s), string_provider := provider_name p\<rparr>"

section \<open>The scan of the nodes\<close>

text \<open>The conditions on a label exclude each other.\<close>

definition label_provider :: "string \<Rightarrow> string \<Rightarrow> provider option" where
  "label_provider k v =
     (if k = ''kurl.sh/cluster'' \<and> v = ''true'' then Some Kurl
      else if k = ''microk8s.io/cluster'' \<and> v = ''true'' then Some Microk8s
      else if k = ''kubernetes.azure.com/role'' then Some Aks
      else if k = ''minikube.k8s.io/version'' then Some Minikube
      else if k = ''node.kubernetes.io/instance-type'' \<and> v = ''k3s'' then Some K3s
      else if k = ''beta.kubernetes.io/instance-type'' \<and> v = ''k3s'' then Some K3s
      else if k = ''oci.oraclecloud.com/fault-domain'' then Some Oke
      else if k = ''node.k0sproject.io/role'' then Some K0s
      else if k = ''kots.io/embedded-cluster-role'' then Some Embedded_Cluster
      else if k = ''run.tanzu.vmware.com/kubernetesDistributionVersion'' then Some Tanzu
      else None)"

definition is_master_label :: "string \<Rightarrow> bool" where
  "is_master_label k \<longleftrightarrow> k = ''node-role.kubernetes.io/master'' \<or> k = ''node-role.kubernetes.io/control-plane''"

definition scan_label :: "string \<times> string \<Rightarrow> scan_state \<Rightarrow> scan_state" where
  "scan_label kv s =
     (let s1 = (if is_master_label (fst kv) then s\<lparr>found_master := True\<rparr> else s)
      in case label_provider (fst kv) (snd kv) of None \<Rightarrow> s1 | Some p \<Rightarrow> found p s1)"

definition found_if :: "bool \<Rightarrow> provider \<Rightarrow> scan_state \<Rightarrow> scan_state" where
  "found_if b p s = (if b then found p s else s)"

definition scan_annotation :: "string \<times> string \<Rightarrow> scan_state \<Rightarrow> scan_state" where
  "scan_annotation kv = found_if (fst kv = ''rke2.io/node-args'') Rke2"

definition scan_node :: "cluster_node \<Rightarrow> scan_state \<Rightarrow> scan_state" where
  "scan_node n s =
     (let s1 = fold scan_annotation (cn_annotations n) (fold scan_label (cn_labels n) s);
          s2 = found_if (cn_os_image n = ''Docker Desktop'') Docker_Desktop s1;
          s3 = found_if (has_prefix ''digitalocean:'' (cn_provider_id n)) Digital_Ocean s2;
          s4 = found_if (has_prefix ''aws:'' (cn_provider_id n)) Eks s3;
          s5 = found_if (has_prefix ''gce:'' (cn_provider_id n)) Gke s4;
          s6 = found_if (has_prefix ''ibm:'' (cn_provider_id n)) Ibm s5
      in found_if (has_prefix ''kind:'' (cn_provider_id n)) Kind_Provider s6)"

definition parse_nodes_for_providers :: "cluster_node list \<Rightarrow> provider set \<times> string" where
  "parse_nodes_for_providers nodes =
     (let s = fold scan_node nodes \<lparr>found_providers = {}, found_master = False, string_provider = []\<rparr>;
          s1 = (if found_master s
                then s\<lparr>found_providers := found_providers s - {Eks},
                       string_provider := (if string_provider s = ''eks'' then [] else string_provider s)\<rparr>
                else s);
          s2 = (if K0s \<in> found_providers s1 \<and> Embedded_Cluster \<in> found_providers s1
                then s1\<lparr>string_provider := ''embedded-cluster''\<rparr> else s1)
      in (found_providers s2, string_provider s2))"

text \<open>The group versions of the API resources; the first one that tells ends the loop.\<close>

fun check_api_resources_for_providers :: "string list \<Rightarrow> provider set \<Rightarrow> string \<Rightarrow> provider set \<times> string" where
  "check_api_resources_for_providers [] ps provider = (ps, provider)"
| "check_api_resources_for_providers (gv # gvs) ps provider =
     (if has_prefix ''apps.openshift.io/'' gv then (insert Open_Shift ps, ''openShift'')
      else if has_prefix ''run.tanzu.vmware.com/'' gv then (insert Tanzu ps, ''tanzu'')
      else check_api_resources_for_providers gvs ps provider)"

section \<open>Conditions\<close>

definition must_normalize_distribution_name :: "string \<Rightarrow> provider" where
  "must_normalize_distribution_name raw =
     (let n = replace_all ''-'' [] (trim_space (to_lower raw)) in
      if n = ''microk8s'' then Microk8s
      else if n \<in> {''dockerdesktop'', ''docker desktop'', ''docker-desktop''} then Docker_Desktop
      else if n = ''eks'' then Eks
      else if n = ''gke'' then Gke
      else if n = ''digitalocean'' then Digital_Ocean
      else if n = ''openshift'' then Open_Shift
      else if n = ''tanzu'' then Tanzu
      else if n = ''kurl'' then Kurl
      else if n = ''aks'' then Aks
      else if n \<in> {''ibm'', ''ibmcloud'', ''ibm cloud''} then Ibm
      else if n = ''minikube'' then Minikube
      else if n = ''rke2'' then Rke2
      else if n = ''k3s'' then K3s
      else if n = ''oke'' then Oke
      else if n = ''kind'' then Kind_Provider
      else if n = ''k0s'' then K0s
      else if n = ''embeddedcluster'' then Embedded_Cluster
      else Unknown_Provider)"

text \<open>The switch has no case for Tanzu.\<close>

definition provider_matches :: "provider \<Rightarrow> provider set \<Rightarrow> bool" where
  "provider_matches p actual \<longleftrightarrow> p \<noteq> Tanzu \<and> p \<in> actual"

text \<open>The result of a condition, and what it adds to the list of unknown distributions.\<close>

definition compare_distribution_conditional_to_actual :: "string \<Rightarrow> provider set \<Rightarrow> string \<Rightarrow> bool res \<times> string" where
  "compare_distribution_conditional_to_actual conditional actual unknown =
     (case (case split_on (CHR '' '') (trim_space conditional) of [w] \<Rightarrow> [''='', w] | ws \<Rightarrow> ws) of
        [op, name] \<Rightarrow>
          let p = must_normalize_distribution_name name in
          if p = Unknown_Provider then (Ok False, unknown @ ''- Unknown distribution: '' @ name @ '' '')
          else if op = ''='' \<or> op = ''=='' \<or> op = ''==='' then (Ok (provider_matches p actual), unknown)
          else if op = ''!='' \<or> op = ''!=='' then (Ok (\<not> provider_matches p actual), unknown)
          else (Ok False, unknown)
      | _ \<Rightarrow> (Fail (Err ''unable to parse conditional''), unknown))"

fun distribution_outcomes :: "provider set \<Rightarrow> analyze_result \<Rightarrow> string \<Rightarrow> outcome list \<Rightarrow> analyze_result res" where
  "distribution_outcomes actual r unknown [] =
     Ok (r\<lparr>is_warn := True, message := if unknown \<noteq> [] then unknown else ''None of the conditionals were met''\<rparr>)"
| "distribution_outcomes actual r unknown (o' # os) =
     (case select_outcome o' of
        None \<Rightarrow> distribution_outcomes actual r unknown os
      | Some (sev, so) \<Rightarrow>
          if so_when so = [] then Ok (conclude sev so r)
          else case compare_distribution_conditional_to_actual (so_when so) actual unknown of (m, unknown') \<Rightarrow>
                 bind_res (wrap_res ''failed to compare distribution conditional'' m) (\<lambda>matches.
                   if matches then Ok (conclude sev so r) else distribution_outcomes actual r unknown' os))"

definition analyze_distribution ::
  "(string \<Rightarrow> cluster_node list res) \<Rightarrow> (string \<Rightarrow> string list res) \<Rightarrow> (string \<Rightarrow> string res) \<Rightarrow> string \<Rightarrow> outcome list \<Rightarrow>
   analyze_result res" where
  "analyze_distribution um_nodes um_resources get check_name outcomes =
     bind_res (wrap_res ''failed to get contents of nodes.json'' (get ''cluster-resources/nodes.json'')) (\<lambda>data.
     bind_res (wrap_res ''failed to unmarshal node list'' (um_nodes data)) (\<lambda>nodes.
     bind_res
       (case get ''cluster-resources/resources.json'' of
          Ok rdata \<Rightarrow>
            map_res (\<lambda>gvs. fst (check_api_resources_for_providers gvs (fst (parse_nodes_for_providers nodes)) []))
              (wrap_res ''failed to unmarshal api resource list'' (um_resources rdata))
        | Fail _ \<Rightarrow> Ok (fst (parse_nodes_for_providers nodes))
        | Panic m \<Rightarrow> Panic m)
       (\<lambda>actual.
          distribution_outcomes actual
            (icon_result (titled check_name ''Kubernetes Distribution'') ''kubernetes_distribution''
               ''https://troubleshoot.sh/images/analyzer-icons/distribution.svg?w=20&h=14'') [] outcomes)))"

definition distribution_Analyze ::
  "(string \<Rightarrow> cluster_node list res) \<Rightarrow> (string \<Rightarrow> string list res) \<Rightarrow> (string \<Rightarrow> string res) \<Rightarrow> string \<Rightarrow>
   bool_or_string option \<Rightarrow> outcome list \<Rightarrow> analyze_result list res" where
  "distribution_Analyze um_nodes um_resources get check_name strict_flag outcomes =
     single_Analyze strict_flag
       (wrap_res ''failed to analyze distribution'' (analyze_distribution um_nodes um_resources get check_name outcomes))"

section \<open>Lemmas\<close>

text \<open>What one node shows, whatever the order of its labels.\<close>

definition node_shows :: "cluster_node \<Rightarrow> provider \<Rightarrow> bool" where
  "node_shows n p \<longleftrightarrow>
     (\<exists>(k, v)\<in>set (cn_labels n). label_provider k v = Some p) \<or>
     (p = Rke2 \<and> ''rke2.io/node-args'' \<in> fst ` set (cn_annotations n)) \<or>
     (p = Docker_Desktop \<and> cn_os_image n = ''Docker Desktop'') \<or>
     (p = Digital_Ocean \<and> has_prefix ''digitalocean:'' (cn_provider_id n)) \<or>
     (p = Eks \<and> has_prefix ''aws:'' (cn_provider_id n)) \<or>
     (p = Gke \<and> has_prefix ''gce:'' (cn_provider_id n)) \<or>
     (p = Ibm \<and> has_prefix ''ibm:'' (cn_provider_id n)) \<or>
     (p = Kind_Provider \<and> has_prefix ''kind:'' (cn_provider_id n))"

definition is_master :: "cluster_node \<Rightarrow> bool" where
  "is_master n \<longleftrightarrow> (\<exists>(k, v)\<in>set (cn_labels n). is_master_label k)"

lemma found_if_fields [simp]:
  "found_providers (found_if b p s) = (if b then insert p (found_providers s) else found_providers s)"
  "found_master (found_if b p s) = found_master s"
  by (simp_all add: found_if_def found_def)

lemma scan_labels:
  "found_providers (fold scan_label kvs s) =
     found_providers s \<union> {p. \<exists>(k, v)\<in>set kvs. label_provider k v = Some p}"
  "found_master (fold scan_label kvs s) \<longleftrightarrow> found_master s \<or> (\<exists>(k, v)\<in>set kvs. is_master_label k)"
  by (induction kvs arbitrary: s) (auto simp: scan_label_def found_def Let_def split: option.splits)

lemma scan_annotations:
  "found_providers (fold scan_annotation kvs s) =
     found_providers s \<union> (if ''rke2.io/node-args'' \<in> fst ` set kvs then {Rke2} else {})"
  "found_master (fold scan_annotation kvs s) = found_master s"
  by (induction kvs arbitrary: s) (auto simp: scan_annotation_def)

lemma scan_node_fields:
  "found_providers (scan_node n s) = found_providers s \<union> {p. node_shows n p}"
  "found_master (scan_node n s) \<longleftrightarrow> found_master s \<or> is_master n"
  by (auto simp: scan_node_def Let_def scan_labels scan_annotations node_shows_def is_master_def)

lemma scan_nodes:
  "found_providers (fold scan_node ns s) = found_providers s \<union> {p. \<exists>n\<in>set ns. node_shows n p}"
  "found_master (fold scan_node ns s) \<longleftrightarrow> found_master s \<or> (\<exists>n\<in>set ns. is_master n)"
  by (induction ns arbitrary: s) (auto simp: scan_node_fields)

lemma parsed_providers:
  "fst (parse_nodes_for_providers ns) =
     {p. (\<exists>n\<in>set ns. node_shows n p) \<and> (p = Eks \<longrightarrow> (\<forall>n\<in>set ns. \<not> is_master n))}"
  by (auto simp: parse_nodes_for_providers_def Let_def scan_nodes)

lemma distribution_condition:
  assumes "op \<noteq> []" and "\<not> is_space (hd op)" and "CHR '' '' \<notin> set op" and "name \<noteq> []" and "\<forall>c\<in>set name. \<not> is_space c"
  shows "compare_distribution_conditional_to_actual (op @ '' '' @ name) actual unknown =
     (let p = must_normalize_distribution_name name in
      if p = Unknown_Provider then (Ok False, unknown @ ''- Unknown distribution: '' @ name @ '' '')
      else if op = ''='' \<or> op = ''=='' \<or> op = ''==='' then (Ok (provider_matches p actual), unknown)
      else if op = ''!='' \<or> op = ''!=='' then (Ok (\<not> provider_matches p actual), unknown)
      else (Ok False, unknown))"
proof -
  have b: "CHR '' '' \<notin> set name" using assms(5) by (auto simp: is_space_def)
  have t: "trim_space (op @ '' '' @ name) = op @ '' '' @ name"
    using assms by (intro trim_space_id) (auto simp: hd_append)
  have "split_on (CHR '' '') (op @ '' '' @ name) = [op, name]" using split_on_two [OF assms(3) b] by simp
  then show ?thesis unfolding compare_distribution_conditional_to_actual_def t by simp
qed

section \<open>Properties\<close>

text \<open>
  C37. Which distributions are found does not depend on the order of nodes, labels and annotations: a provider is found
  exactly when some node shows it, and EKS only when no node is a master. The name that is returned beside the set
  belongs to the last provider met and has no such guarantee.
\<close>

theorem providers_found:
  "p \<in> fst (parse_nodes_for_providers ns) \<longleftrightarrow>
     (\<exists>n\<in>set ns. node_shows n p) \<and> (p = Eks \<longrightarrow> (\<forall>n\<in>set ns. \<not> is_master n))"
  by (simp add: parsed_providers)

theorem providers_found_witness:
  "Eks \<in> fst (parse_nodes_for_providers
     [\<lparr>cn_labels = [], cn_annotations = [], cn_os_image = [], cn_provider_id = ''aws:///i-1''\<rparr>])"
  unfolding providers_found by (simp add: node_shows_def is_master_def)

text \<open>
  A condition on the distribution tests membership in what was found, and its negation the opposite, for every
  name the analyzer knows except Tanzu: a test for Tanzu is false and its negation true on every cluster. An unknown
  name is false whatever the operator and is remembered for the message.
\<close>

theorem distribution_conditions_meaning:
  assumes "name \<noteq> []" and "\<forall>c\<in>set name. \<not> is_space c" and "p = must_normalize_distribution_name name"
  shows "(p \<noteq> Unknown_Provider \<longrightarrow>
      (\<forall>op\<in>{''='', ''=='', ''===''}. compare_distribution_conditional_to_actual (op @ '' '' @ name) actual unknown =
         (Ok (p \<in> actual \<and> p \<noteq> Tanzu), unknown)) \<and>
      (\<forall>op\<in>{''!='', ''!==''}. compare_distribution_conditional_to_actual (op @ '' '' @ name) actual unknown =
         (Ok (p \<notin> actual \<or> p = Tanzu), unknown))) \<and>
    (p = Unknown_Provider \<longrightarrow>
      (\<forall>op\<in>{''='', ''=='', ''==='', ''!='', ''!==''}.
         compare_distribution_conditional_to_actual (op @ '' '' @ name) actual unknown =
           (Ok False, unknown @ ''- Unknown distribution: '' @ name @ '' '')))"
proof -
  have ops: "op \<noteq> [] \<and> \<not> is_space (hd op) \<and> CHR '' '' \<notin> set op"
    if "op \<in> {''='', ''=='', ''==='', ''!='', ''!==''}" for op
    using that by (auto simp: is_space_def)
  have cond: "compare_distribution_conditional_to_actual (op @ '' '' @ name) actual unknown =
     (if p = Unknown_Provider then (Ok False, unknown @ ''- Unknown distribution: '' @ name @ '' '')
      else if op = ''='' \<or> op = ''=='' \<or> op = ''==='' then (Ok (provider_matches p actual), unknown)
      else if op = ''!='' \<or> op = ''!=='' then (Ok (\<not> provider_matches p actual), unknown)
      else (Ok False, unknown))" if "op \<in> {''='', ''=='', ''==='', ''!='', ''!==''}" for op
    using distribution_condition [of op name actual unknown] ops [OF that] assms by (simp add: Let_def)
  show ?thesis
  proof (intro conjI impI ballI)
    show "compare_distribution_conditional_to_actual (op @ '' '' @ name) actual unknown = (Ok (p \<in> actual \<and> p \<noteq> Tanzu), unknown)"
      if "p \<noteq> Unknown_Provider" "op \<in> {''='', ''=='', ''===''}" for op
      using cond [of op] that by (auto simp: provider_matches_def)
    show "compare_distribution_conditional_to_actual (op @ '' '' @ name) actual unknown = (Ok (p \<notin> actual \<or> p = Tanzu), unknown)"
      if "p \<noteq> Unknown_Provider" "op \<in> {''!='', ''!==''}" for op
      using cond [of op] that by (auto simp: provider_matches_def)
    show "compare_distribution_conditional_to_actual (op @ '' '' @ name) actual unknown =
           (Ok False, unknown @ ''- Unknown distribution: '' @ name @ '' '')"
      if "p = Unknown_Provider" "op \<in> {''='', ''=='', ''==='', ''!='', ''!==''}" for op
      using cond [OF that(2)] that(1) by simp
  qed
qed

theorem distribution_conditions_meaning_witness:
  "fst (compare_distribution_conditional_to_actual ''== tanzu'' {Tanzu} []) = Ok False \<and>
   fst (compare_distribution_conditional_to_actual ''!= Docker-Desktop'' {Eks} []) = Ok True"
proof -
  have n: "must_normalize_distribution_name ''tanzu'' = Tanzu"
    "must_normalize_distribution_name ''Docker-Desktop'' = Docker_Desktop" by code_simp+
  have b: "\<forall>c\<in>set ''tanzu''. \<not> is_space c" "\<forall>c\<in>set ''Docker-Desktop''. \<not> is_space c" by code_simp+
  from distribution_conditions_meaning [OF _ b(1) n(1) [symmetric], of "{Tanzu}" "[]"]
    distribution_conditions_meaning [OF _ b(2) n(2) [symmetric], of "{Eks}" "[]"]
  show ?thesis by simp
qed

end
