(* ===== verification/Cluster_Pods.thy ===== *)
theory Cluster_Pods
  imports Cluster_Checks "HOL-Library.Sublist"
begin

text \<open>
  Analyzers of pods and events: the status of a pod (\<^verbatim>\<open>pkg/k8sutil/pod.go\<close>), pod statuses (\<^verbatim>\<open>cluster_pod_statuses.go\<close>),
  container statuses (\<^verbatim>\<open>cluster_container_statuses.go\<close>) and events (\<^verbatim>\<open>event.go\<close>). Decoders, regular expressions of a
  spec and the template engine are parameters; files come in the order of the range over them, and the order of a range
  over a map the code builds itself is a parameter too.
\<close>

section \<open>The status of a pod\<close>

record terminated_state =
  tm_exit_code :: int
  tm_signal :: int
  tm_reason :: string
  tm_message :: string

text \<open>The three states are pointers, of which a cluster sets at most one.\<close>

record container_status =
  cs_name :: string
  cs_ready :: bool
  cs_restart_count :: int
  cs_waiting :: "(string \<times> string) option"
  cs_running :: bool
  cs_terminated :: "terminated_state option"
  cs_last_terminated :: "terminated_state option"

record pod_condition =
  pc_type :: string
  pc_status :: string
  pc_message :: string

record pod =
  pod_uid :: string
  pod_name :: string
  pod_namespace :: string
  pod_deleted :: bool
  pod_init_containers :: nat
  pod_phase :: string
  pod_reason :: string
  pod_message :: string
  pod_conditions :: "pod_condition list"
  pod_init_statuses :: "container_status list"
  pod_container_statuses :: "container_status list"

text \<open>The loop over the init containers stops at the first one that did not end well.\<close>

definition init_reason :: "nat \<Rightarrow> nat \<Rightarrow> container_status \<Rightarrow> string" where
  "init_reason i n c =
     (case cs_terminated c of
        Some t \<Rightarrow>
          if tm_reason t = []
          then (if tm_signal t \<noteq> 0 then ''Init:Signal:'' @ show_int (tm_signal t)
                else ''Init:ExitCode:'' @ show_int (tm_exit_code t))
          else ''Init:'' @ tm_reason t
      | None \<Rightarrow>
          (case cs_waiting c of
             Some (r, _) \<Rightarrow>
               if r \<noteq> [] \<and> r \<noteq> ''PodInitializing'' then ''Init:'' @ r
               else ''Init:'' @ show_nat i @ ''/'' @ show_nat n
           | None \<Rightarrow> ''Init:'' @ show_nat i @ ''/'' @ show_nat n))"

definition init_done :: "container_status \<Rightarrow> bool" where
  "init_done c \<longleftrightarrow> (case cs_terminated c of Some t \<Rightarrow> tm_exit_code t = 0 | None \<Rightarrow> False)"

definition last_message :: "container_status \<Rightarrow> string" where
  "last_message c = (case cs_last_terminated c of Some t \<Rightarrow> tm_message t | None \<Rightarrow> [])"

fun init_loop :: "nat \<Rightarrow> nat \<Rightarrow> container_status list \<Rightarrow> (string \<times> string) option" where
  "init_loop i n [] = None"
| "init_loop i n (c # cs) = (if init_done c then init_loop (i + 1) n cs else Some (init_reason i n c, last_message c))"

text \<open>The loop over the containers, from the last one to the first.\<close>

definition exit_text :: "terminated_state \<Rightarrow> string" where
  "exit_text t = ''ExitCode:'' @ show_int (tm_exit_code t)"

definition waiting_reason :: "container_status \<Rightarrow> string" where
  "waiting_reason c = (case cs_waiting c of None \<Rightarrow> [] | Some (r, _) \<Rightarrow> r)"

definition container_step :: "container_status \<Rightarrow> string \<times> string \<times> bool \<Rightarrow> string \<times> string \<times> bool" where
  "container_step c st =
     (case st of (reason, msg, running) \<Rightarrow>
        if waiting_reason c \<noteq> []
        then (waiting_reason c,
              msg @ (case cs_last_terminated c of
                       None \<Rightarrow> []
                     | Some t \<Rightarrow> if tm_message t \<noteq> [] then tm_message t else exit_text t), running)
        else case cs_terminated c of
               Some t \<Rightarrow>
                 if tm_reason t \<noteq> [] then (tm_reason t, msg @ exit_text t, running)
                 else if tm_signal t \<noteq> 0 then (''Signal:'' @ show_int (tm_signal t), msg, running)
                 else (exit_text t, msg, running)
             | None \<Rightarrow> (reason, msg, running \<or> cs_ready c \<and> cs_running c))"

definition has_pod_ready_condition :: "pod_condition list \<Rightarrow> bool" where
  "has_pod_ready_condition cs \<longleftrightarrow> list_ex (\<lambda>c. pc_type c = ''Ready'' \<and> pc_status c = ''True'') cs"

definition unscheduled_message :: "pod_condition list \<Rightarrow> string" where
  "unscheduled_message cs =
     concat (map pc_message (filter (\<lambda>c. pc_type c = ''PodScheduled'' \<and> pc_status c = ''False'') cs))"

definition get_pod_status_reason :: "pod \<Rightarrow> string \<times> string" where
  "get_pod_status_reason p =
     (let start = (if pod_reason p \<noteq> [] then pod_reason p else pod_phase p);
          (reason, msg) =
            (case init_loop 0 (pod_init_containers p) (pod_init_statuses p) of
               Some rm \<Rightarrow> rm
             | None \<Rightarrow>
                 (case fold container_step (rev (pod_container_statuses p)) (start, [], False) of
                    (r, m, running) \<Rightarrow>
                      (if r = ''Completed'' \<and> running
                       then if has_pod_ready_condition (pod_conditions p) then ''Running'' else ''NotReady''
                       else r,
                       m @ unscheduled_message (pod_conditions p))))
      in (if pod_deleted p \<and> pod_reason p = ''NodeLost'' then ''Unknown''
          else if pod_deleted p then ''Terminating'' else reason, msg))"

definition is_pod_unhealthy :: "pod \<Rightarrow> bool" where
  "is_pod_unhealthy p =
     (if pod_phase p \<in> {''Failed'', ''Pending'', ''Unknown''} then True
      else let reason = fst (get_pod_status_reason p) in
           if reason = ''Completed'' then False
           else if reason \<noteq> ''Running'' then True
           else list_ex (\<lambda>c. \<not> cs_ready c) (pod_container_statuses p))"

section \<open>Pod statuses\<close>

record k8s_event =
  ev_kind :: string
  ev_name :: string
  ev_namespace :: string
  ev_type :: string
  ev_reason :: string
  ev_message :: string

record pod_libs =
  pl_pod_list :: "string \<Rightarrow> pod list res"
  pl_pod_array :: "string \<Rightarrow> pod list res"
  pl_event_list :: "string \<Rightarrow> k8s_event list res"
  pl_event_array :: "string \<Rightarrow> k8s_event list res"
  pl_render :: "string \<Rightarrow> pod \<Rightarrow> string res"

definition namespace_of_file :: "string \<Rightarrow> string" where
  "namespace_of_file f = trim_suffix ''.json'' (last (split_on (CHR ''/'') f))"

text \<open>A pod list in the new format or, when that does not decode, in the old one.\<close>

definition decode_pods ::
  "(string \<Rightarrow> 'p list res) \<Rightarrow> (string \<Rightarrow> 'p list res) \<Rightarrow> string \<Rightarrow> string \<Rightarrow> 'p list res" where
  "decode_pods as_list as_array ns content =
     (case as_list content of
        Ok ps \<Rightarrow> Ok ps
      | Panic m \<Rightarrow> Panic m
      | Fail _ \<Rightarrow> wrap_res (''failed to unmarshal pods list for namespace '' @ ns) (as_array content))"

definition selected_pods ::
  "(string \<Rightarrow> 'p list res) \<Rightarrow> (string \<Rightarrow> 'p list res) \<Rightarrow> string list \<Rightarrow> (string \<times> string) list \<Rightarrow> 'p list res" where
  "selected_pods as_list as_array namespaces files =
     map_res concat (map_m (\<lambda>(f, content). decode_pods as_list as_array (namespace_of_file f) content)
       (filter (\<lambda>(f, _). namespaces = [] \<or> namespace_of_file f \<in> set namespaces) files))"

definition decode_events :: "pod_libs \<Rightarrow> string \<Rightarrow> k8s_event list" where
  "decode_events L content =
     (case pl_event_array L content of
        Ok es \<Rightarrow> es
      | _ \<Rightarrow> (case pl_event_list L content of Ok es \<Rightarrow> es | _ \<Rightarrow> []))"

definition event_messages :: "pod_libs \<Rightarrow> find_files \<Rightarrow> pod \<Rightarrow> string list" where
  "event_messages L find_f p =
     (case find_f (path_join [CLUSTER_RESOURCES_DIR, ''events'', pod_namespace p @ ''.json'']) [] of
        Ok files \<Rightarrow>
          map ev_message (filter (\<lambda>e. ev_kind e = ''Pod'' \<and> ev_name e = pod_name p \<and> ev_namespace e = pod_namespace p \<and>
              ev_type e = ''Warning'' \<and> ev_message e \<noteq> []) (concat (map (\<lambda>(_, c). decode_events L c) files)))
      | _ \<Rightarrow> [])"

definition annotate_pod :: "pod_libs \<Rightarrow> find_files \<Rightarrow> pod \<Rightarrow> pod" where
  "annotate_pod L find_f p =
     (let p1 = (if pod_reason p = []
                then (case get_pod_status_reason p of (r, m) \<Rightarrow> p\<lparr>pod_reason := r, pod_message := m\<rparr>) else p)
      in if pod_message p1 = [] then p1\<lparr>pod_message := join_with ''. '' (event_messages L find_f p1)\<rparr> else p1)"

text \<open>A condition of fewer than two words is skipped like one that is false.\<close>

definition pod_matches :: "string \<Rightarrow> pod \<Rightarrow> bool" where
  "pod_matches w p =
     (case split_on (CHR '' '') (trim_space w) of
        op # reason # _ \<Rightarrow>
          if op = ''='' \<or> op = ''=='' \<or> op = ''===''
          then if reason = ''Healthy'' then \<not> is_pod_unhealthy p
               else reason = pod_phase p \<or> reason = pod_reason p
          else if op = ''!='' \<or> op = ''!==''
          then if reason = ''Healthy'' then is_pod_unhealthy p
               else reason \<noteq> pod_phase p \<and> reason \<noteq> pod_reason p
          else False
      | _ \<Rightarrow> False)"

definition pod_result ::
  "pod_libs \<Rightarrow> string \<Rightarrow> severity \<Rightarrow> single_outcome \<Rightarrow> pod \<Rightarrow> (analyze_result \<times> string \<times> string) res" where
  "pod_result L check_name sev so p =
     (let t = (if check_name = [] then ''Pod {{ .Namespace }}/{{ .Name }} status'' else check_name);
          m = (if so_message so = []
               then ''Pod {{ .Namespace }}/{{ .Name }} status is {{ .Status.Reason }}. Message is: {{ .Status.Message }}''
               else so_message so);
          p' = (if pod_message p = [] then p\<lparr>pod_message := ''None''\<rparr> else p) in
      bind_res (wrap_res ''failed to render template'' (pl_render L t p')) (\<lambda>t'.
      bind_res (wrap_res ''failed to create new title template'' (pl_render L m p')) (\<lambda>m'.
        Ok (conclude sev (so\<lparr>so_message := trim_space m'\<rparr>) (new_result t'), pod_namespace p, pod_name p))))"

definition pod_step ::
  "pod_libs \<Rightarrow> string \<Rightarrow> pod \<Rightarrow> outcome \<Rightarrow> (analyze_result \<times> string \<times> string) option res" where
  "pod_step L check_name p o' =
     (case select_outcome o' of
        None \<Rightarrow> Ok None
      | Some (sev, so) \<Rightarrow>
          if so_when so = [] \<or> pod_matches (so_when so) p
          then map_res Some (pod_result L check_name sev so p) else Ok None)"

fun pod_loop ::
  "pod_libs \<Rightarrow> string \<Rightarrow> pod \<Rightarrow> outcome list \<Rightarrow> (analyze_result \<times> string \<times> string) option res" where
  "pod_loop L check_name p [] = Ok None"
| "pod_loop L check_name p (o' # os) =
     bind_res (pod_step L check_name p o') (\<lambda>d. case d of None \<Rightarrow> pod_loop L check_name p os | Some r \<Rightarrow> Ok (Some r))"

definition cluster_pod_statuses ::
  "pod_libs \<Rightarrow> find_files \<Rightarrow> string \<Rightarrow> string list \<Rightarrow> outcome list \<Rightarrow> (analyze_result \<times> string \<times> string) list res" where
  "cluster_pod_statuses L find_f check_name namespaces outcomes =
     bind_res (wrap_res ''failed to read collected pods'' (find_f (resource_glob ''pods'') [])) (\<lambda>files.
     bind_res (selected_pods (pl_pod_list L) (pl_pod_array L) namespaces files) (\<lambda>pods.
       map_res (\<lambda>rs. concat (map option_results rs))
         (map_m (\<lambda>p. pod_loop L check_name (annotate_pod L find_f p) outcomes) pods)))"

definition pod_statuses_Analyze ::
  "pod_libs \<Rightarrow> find_files \<Rightarrow> string \<Rightarrow> bool_or_string option \<Rightarrow> string list \<Rightarrow> outcome list \<Rightarrow>
   (analyze_result \<times> string \<times> string) list res" where
  "pod_statuses_Analyze L find_f check_name strict_flag namespaces outcomes =
     map_res (map (\<lambda>(r, obj). (r\<lparr>strict := bool_or_default_false strict_flag\<rparr>, obj)))
       (cluster_pod_statuses L find_f check_name namespaces outcomes)"

section \<open>Container statuses\<close>

record pod_entry =
  pe_name :: string
  pe_namespace :: string
  pe_containers :: "container_status list"

text \<open>
  Entries are keyed by the UID of the pod. For a pod that has an entry the code appends to a copy of the struct, which
  is dropped.
\<close>

definition add_container :: "pod \<Rightarrow> container_status \<Rightarrow> (string \<times> pod_entry) list \<Rightarrow> (string \<times> pod_entry) list" where
  "add_container p c es =
     (case map_of es (pod_uid p) of
        None \<Rightarrow> es @ [(pod_uid p, \<lparr>pe_name = pod_name p, pe_namespace = pod_namespace p, pe_containers = [c]\<rparr>)]
      | Some _ \<Rightarrow> es)"

definition add_pod :: "int \<Rightarrow> pod \<Rightarrow> (string \<times> pod_entry) list \<Rightarrow> (string \<times> pod_entry) list" where
  "add_pod restarts p es =
     fold (\<lambda>c es. if cs_restart_count c < restarts then es else add_container p c es) (pod_container_statuses p) es"

definition get_pods_matching_filters ::
  "(string \<Rightarrow> pod list res) \<Rightarrow> (string \<Rightarrow> pod list res) \<Rightarrow> string list \<Rightarrow> int \<Rightarrow> (string \<times> string) list \<Rightarrow>
   (string \<times> pod_entry) list res" where
  "get_pods_matching_filters as_list as_array namespaces restarts files =
     map_res (\<lambda>pods. fold (add_pod restarts) pods []) (selected_pods as_list as_array namespaces files)"

record container_info =
  ci_namespace :: string
  ci_pod_name :: string
  ci_container :: string
  ci_ready :: bool
  ci_restarts :: int
  ci_message :: string

definition same_reason :: "string \<Rightarrow> string \<Rightarrow> bool" where
  "same_reason a b \<longleftrightarrow> to_lower a = to_lower b"

text \<open>The switch of the loop: which state gives the message, if one matches.\<close>

definition first_some :: "'a option \<Rightarrow> 'a option \<Rightarrow> 'a option" where
  "first_some a b = (case a of Some x \<Rightarrow> Some x | None \<Rightarrow> b)"

definition terminated_message :: "string \<Rightarrow> terminated_state option \<Rightarrow> string option" where
  "terminated_message reason t =
     (case t of Some t \<Rightarrow> if same_reason (tm_reason t) reason then Some (tm_message t) else None | None \<Rightarrow> None)"

definition reason_message :: "string \<Rightarrow> container_status \<Rightarrow> string option" where
  "reason_message reason c =
     first_some (terminated_message reason (cs_last_terminated c))
       (first_some (terminated_message reason (cs_terminated c))
          (case cs_waiting c of Some (r, m) \<Rightarrow> if same_reason r reason then Some m else None | None \<Rightarrow> None))"

definition match_step :: "string \<Rightarrow> container_status \<Rightarrow> bool \<times> container_info \<Rightarrow> bool \<times> container_info" where
  "match_step reason c st =
     (let info = (snd st)\<lparr>ci_container := cs_name c, ci_ready := cs_ready c, ci_restarts := cs_restart_count c\<rparr>
      in case reason_message reason c of
           None \<Rightarrow> (fst st, info)
         | Some m \<Rightarrow> (True, info\<lparr>ci_message := m\<rparr>))"

definition match_container_reason :: "string \<Rightarrow> pod_entry \<Rightarrow> bool \<times> container_info" where
  "match_container_reason reason e =
     fold (match_step reason) (pe_containers e)
       (False, \<lparr>ci_namespace = pe_namespace e, ci_pod_name = pe_name e, ci_container = [], ci_ready = False,
                ci_restarts = 0, ci_message = []\<rparr>)"

definition parse_when :: "string \<Rightarrow> (string \<times> bool) res" where
  "parse_when w =
     (case split_on (CHR '' '') (trim_space w) of
        [op, reason] \<Rightarrow>
          if op = ''='' \<or> op = ''=='' \<or> op = ''==='' then Ok (reason, True)
          else if op = ''!='' \<or> op = ''!=='' then Ok (reason, False)
          else Fail (Errf ''unexpected operator %q in containerStatuses reason'' [op])
      | _ \<Rightarrow> Fail (Errf ''expected 2 parts in when %q'' [w]))"

definition render_container_message :: "(string \<Rightarrow> container_info \<Rightarrow> string res) \<Rightarrow> string \<Rightarrow> container_info \<Rightarrow> string" where
  "render_container_message render msg info =
     (case render msg info of
        Ok m \<Rightarrow> trim_space m
      | _ \<Rightarrow> ''Container matched. Container: '' @ ci_container info @ '', Namespace: '' @ ci_namespace info @
              '', Pod: '' @ ci_pod_name info)"

text \<open>
  One outcome: every match renders the message of the one result of this outcome again and appends a pointer to it, so
  that in the end all of them read what the last match left.
\<close>

definition container_matches ::
  "(string \<Rightarrow> container_info \<Rightarrow> string res) \<Rightarrow> string \<Rightarrow> bool \<Rightarrow> pod_entry list \<Rightarrow> analyze_result \<Rightarrow> analyze_result list" where
  "container_matches render reason is_eq es r =
     (case fold (\<lambda>e (n, r). case match_container_reason reason e of (m, info) \<Rightarrow>
                    if m \<noteq> is_eq then (n, r)
                    else (n + 1, r\<lparr>message := render_container_message render (message r) info\<rparr>)) es (0::nat, r) of
        (n, r') \<Rightarrow> replicate n r')"

text \<open>\<open>order\<close> is the range over the map of entries for an outcome.\<close>

fun analyze_container_statuses ::
  "(string \<Rightarrow> container_info \<Rightarrow> string res) \<Rightarrow> (nat \<Rightarrow> pod_entry list \<Rightarrow> pod_entry list) \<Rightarrow> analyze_result \<Rightarrow>
   pod_entry list \<Rightarrow> nat \<Rightarrow> analyze_result list \<Rightarrow> outcome list \<Rightarrow> analyze_result list res" where
  "analyze_container_statuses render order r0 es i results [] = Ok results"
| "analyze_container_statuses render order r0 es i results (o' # os) =
     (case select_outcome o' of
        None \<Rightarrow> analyze_container_statuses render order r0 es (i + 1) results os
      | Some (sev, so) \<Rightarrow>
          if so_when so = [] then Ok (if results \<noteq> [] then results else [conclude sev so r0])
          else bind_res (wrap_res ''failed to parse when'' (parse_when (so_when so))) (\<lambda>(reason, is_eq).
                 analyze_container_statuses render order r0 es (i + 1)
                   (results @ container_matches render reason is_eq (order i es) (conclude sev so r0)) os))"

definition container_statuses_Analyze ::
  "(string \<Rightarrow> pod list res) \<Rightarrow> (string \<Rightarrow> pod list res) \<Rightarrow> (string \<Rightarrow> container_info \<Rightarrow> string res) \<Rightarrow>
   (nat \<Rightarrow> pod_entry list \<Rightarrow> pod_entry list) \<Rightarrow> find_files \<Rightarrow> string \<Rightarrow> string list \<Rightarrow> int \<Rightarrow> outcome list \<Rightarrow>
   analyze_result list res" where
  "container_statuses_Analyze as_list as_array render order find_f check_name namespaces restarts outcomes =
     bind_res (wrap_res ''failed to read collected pods'' (find_f (resource_glob ''pods'') [])) (\<lambda>files.
     bind_res (wrap_res ''failed to get pods matching filters''
         (get_pods_matching_filters as_list as_array namespaces restarts files)) (\<lambda>es.
       wrap_res ''failed to analyze container statuses''
         (analyze_container_statuses render order
            (icon_result (titled check_name ''Cluster Container Status'') ''kubernetes_container_statuses''
               ''https://troubleshoot.sh/images/analyzer-icons/kubernetes.svg?w=16&h=16'')
            (map snd es) 0 [] outcomes)))"

section \<open>Events\<close>

definition match_reason :: "string \<Rightarrow> string \<Rightarrow> bool" where
  "match_reason actual expected \<longleftrightarrow> expected \<noteq> [] \<and> same_reason actual expected"

definition match_kind :: "string \<Rightarrow> string \<Rightarrow> bool" where
  "match_kind actual expected \<longleftrightarrow> expected = [] \<or> same_reason actual expected"

definition get_event ::
  "(string \<Rightarrow> (string \<Rightarrow> bool) res) \<Rightarrow> k8s_event list \<Rightarrow> string \<Rightarrow> string \<Rightarrow> string \<Rightarrow> k8s_event option" where
  "get_event compile events kind reason regex =
     (case (if regex = [] then Ok (\<lambda>_. True) else compile regex) of
        Ok matches \<Rightarrow>
          List.find (\<lambda>e. match_reason (ev_reason e) reason \<and> match_kind (ev_kind e) kind \<and> matches (ev_message e)) events
      | _ \<Rightarrow> None)"

definition decorate_message :: "(string \<Rightarrow> k8s_event \<Rightarrow> string res) \<Rightarrow> string \<Rightarrow> k8s_event option \<Rightarrow> string" where
  "decorate_message render msg ev =
     (case ev of
        None \<Rightarrow> msg
      | Some e \<Rightarrow>
          (case render msg e of
             Ok m \<Rightarrow> trim_space m
           | _ \<Rightarrow> ''Event matched. Reason: '' @ ev_reason e @ '' Name: '' @ ev_name e @ '' Message: '' @ ev_message e))"

text \<open>All branches of an outcome are looked at, one after the other.\<close>

definition outcome_branches :: "outcome \<Rightarrow> (severity \<times> single_outcome) list" where
  "outcome_branches o' =
     map (Pair SFail) (option_results (o_fail o')) @ map (Pair SWarn) (option_results (o_warn o')) @
     map (Pair SPass) (option_results (o_pass o'))"

fun event_branches ::
  "(string \<Rightarrow> k8s_event \<Rightarrow> string res) \<Rightarrow> k8s_event option \<Rightarrow> analyze_result \<Rightarrow> (severity \<times> single_outcome) list \<Rightarrow>
   analyze_result res" where
  "event_branches render ev r [] = Ok r"
| "event_branches render ev r ((sev, so) # bs) =
     bind_res (wrap_res (''failed to parse when condition: '' @ so_when so) (parse_bool (so_when so))) (\<lambda>to_return.
       if to_return = (ev \<noteq> None)
       then Ok (conclude sev (so\<lparr>so_message := decorate_message render (so_message so) ev\<rparr>) r)
       else event_branches render ev r bs)"

definition analyze_event_result ::
  "(string \<Rightarrow> k8s_event \<Rightarrow> string res) \<Rightarrow> k8s_event option \<Rightarrow> outcome list \<Rightarrow> string \<Rightarrow> analyze_result list res" where
  "analyze_event_result render ev outcomes t =
     map_res (\<lambda>r. [r])
       (event_branches render ev
          (icon_result t ''kubernetes_event'' ''https://troubleshoot.sh/images/analyzer-icons/kubernetes.svg?w=16&h=16'')
          (concat (map outcome_branches outcomes)))"

definition event_title :: "string \<Rightarrow> string \<Rightarrow> string" where
  "event_title check_name collector_name =
     (if check_name \<noteq> [] then check_name else if collector_name \<noteq> [] then collector_name else ''Event'')"

definition event_Analyze ::
  "(string \<Rightarrow> k8s_event list res) \<Rightarrow> (string \<Rightarrow> (string \<Rightarrow> bool) res) \<Rightarrow> (string \<Rightarrow> k8s_event \<Rightarrow> string res) \<Rightarrow>
   (string \<Rightarrow> string res) \<Rightarrow> string \<Rightarrow> string \<Rightarrow> string \<Rightarrow> string \<Rightarrow> string \<Rightarrow> string \<Rightarrow> outcome list \<Rightarrow>
   analyze_result list res" where
  "event_Analyze unmarshal compile render get check_name collector_name namespace kind reason regex outcomes =
     (if reason = [] then Fail (Err ''reason is required'')
      else let ns = (if namespace = [] then ''default'' else namespace) in
           bind_res (wrap_res (''failed to read collected events for namespace: '' @ ns)
               (get (path_join [CLUSTER_RESOURCES_DIR, ''events'', ns] @ ''.json''))) (\<lambda>data.
           bind_res (wrap_res ''failed to read collected events''
               (wrap_res ''failed to convert []byte to corev1.EventList'' (unmarshal data))) (\<lambda>events.
             analyze_event_result render (get_event compile events kind reason regex) outcomes
               (event_title check_name collector_name))))"

section \<open>Lemmas\<close>

text \<open>The reason the loop over the containers ends with is one a container sets, or the one it started with.\<close>

definition container_reason :: "container_status \<Rightarrow> string option" where
  "container_reason c =
     (if waiting_reason c \<noteq> [] then Some (waiting_reason c)
      else case cs_terminated c of
             None \<Rightarrow> None
           | Some t \<Rightarrow> Some (if tm_reason t \<noteq> [] then tm_reason t
                            else if tm_signal t \<noteq> 0 then ''Signal:'' @ show_int (tm_signal t) else exit_text t))"

lemma container_step_parts:
  "fst (container_step c st) = (case container_reason c of None \<Rightarrow> fst st | Some r \<Rightarrow> r)"
  "snd (container_step c (r, x)) = snd (container_step c (r', x))"
proof -
  show "fst (container_step c st) = (case container_reason c of None \<Rightarrow> fst st | Some r \<Rightarrow> r)"
    by (cases st; cases "waiting_reason c = []"; cases "cs_terminated c")
      (simp_all add: container_step_def container_reason_def)
  show "snd (container_step c (r, x)) = snd (container_step c (r', x))"
    by (cases x; cases "waiting_reason c = []"; cases "cs_terminated c") (simp_all add: container_step_def)
qed

lemma container_fold_reason:
  "\<exists>ov. \<forall>r x. fst (fold container_step cs (r, x)) = (case ov of None \<Rightarrow> r | Some r' \<Rightarrow> r')"
proof (induction cs rule: rev_induct)
  case Nil
  show ?case by (rule exI [of _ None]) simp
next
  case (snoc c cs)
  then obtain ov where ov: "\<And>r x. fst (fold container_step cs (r, x)) = (case ov of None \<Rightarrow> r | Some r' \<Rightarrow> r')" by blast
  show ?case
    by (rule exI [of _ "case container_reason c of None \<Rightarrow> ov | Some r' \<Rightarrow> Some r'"])
      (auto simp: container_step_parts(1) ov split: option.splits)
qed

lemma container_fold_rest:
  "snd (fold container_step cs (r, x)) = snd (fold container_step cs (r', x))"
proof (induction cs arbitrary: r r' x)
  case (Cons c cs)
  obtain a y where a: "container_step c (r, x) = (a, y)" by (cases "container_step c (r, x)")
  obtain a' y' where a': "container_step c (r', x) = (a', y')" by (cases "container_step c (r', x)")
  have "y = y'" using container_step_parts(2) [of c r x r'] by (simp add: a a')
  with Cons [of a y a'] show ?case by (simp add: a a')
qed simp

lemma reason_fixpoint:
  assumes "pod_reason p = []" and "get_pod_status_reason p = (r, m)"
  shows "fst (get_pod_status_reason (p\<lparr>pod_reason := r, pod_message := m'\<rparr>)) = r"
proof (cases "pod_deleted p")
  case True
  with assms have "r = ''Terminating''" by (auto simp: get_pod_status_reason_def Let_def split: prod.splits)
  with True show ?thesis by (auto simp: get_pod_status_reason_def Let_def split: prod.splits)
next
  case False
  show ?thesis
  proof (cases "init_loop 0 (pod_init_containers p) (pod_init_statuses p)")
    case (Some rm)
    with False assms show ?thesis by (auto simp: get_pod_status_reason_def Let_def)
  next
    case None
    let ?cs = "rev (pod_container_statuses p)" and ?ready = "has_pod_ready_condition (pod_conditions p)"
    obtain ov where ov: "\<And>r x. fst (fold container_step ?cs (r, x)) = (case ov of None \<Rightarrow> r | Some r' \<Rightarrow> r')"
      using container_fold_reason by blast
    obtain msg running where rest: "\<And>r. snd (fold container_step ?cs (r, [], False)) = (msg, running)"
      using container_fold_rest [of ?cs _ "([], False)"] by (metis surj_pair)
    define adjust where "adjust x = (if x = ''Completed'' \<and> running then if ?ready then ''Running'' else ''NotReady'' else x)" for x
    have run: "fold container_step ?cs (x, [], False) = (case ov of None \<Rightarrow> x | Some r' \<Rightarrow> r', msg, running)" for x
      using ov [of x "([], False)"] rest [of x] by (metis prod.collapse)
    have reason: "fst (get_pod_status_reason q) =
        adjust (case ov of None \<Rightarrow> if pod_reason q \<noteq> [] then pod_reason q else pod_phase p | Some r' \<Rightarrow> r')"
      if "q = p\<lparr>pod_reason := pod_reason q, pod_message := pod_message q\<rparr>" for q
    proof -
      from that have q: "pod_phase q = pod_phase p" "pod_deleted q = pod_deleted p" "pod_container_statuses q = pod_container_statuses p"
        "init_loop 0 (pod_init_containers q) (pod_init_statuses q) = None" "pod_conditions q = pod_conditions p"
        by (metis None pod.select_convs pod.update_convs pod.surjective)+
      show ?thesis using False unfolding get_pod_status_reason_def q by (simp add: run adjust_def Let_def)
    qed
    have first: "r = adjust (case ov of None \<Rightarrow> pod_phase p | Some r' \<Rightarrow> r')"
      using reason [of p] assms by simp
    have idem: "adjust (adjust x) = adjust x" for x by (simp add: adjust_def)
    let ?q = "p\<lparr>pod_reason := r, pod_message := m'\<rparr>"
    have "fst (get_pod_status_reason ?q) = adjust (case ov of None \<Rightarrow> if r \<noteq> [] then r else pod_phase p | Some r' \<Rightarrow> r')"
      using reason [of ?q] by (cases ov) simp_all
    also have "\<dots> = r" using first idem by (cases ov; cases "r = []") simp_all
    finally show ?thesis .
  qed
qed

lemma add_container_idem:
  "map_of es (pod_uid p) \<noteq> None \<Longrightarrow>
   fold (\<lambda>c es. if cs_restart_count c < restarts then es else add_container p c es) cs es = es"
  by (induction cs) (auto simp: add_container_def)

lemma add_container_below:
  "\<forall>c\<in>set cs. cs_restart_count c < restarts \<Longrightarrow>
   fold (\<lambda>c es. if cs_restart_count c < restarts then es else add_container p c es) cs es = es"
  by (induction cs) auto

lemma add_container_known: "map_of (add_container p c es) (pod_uid p) \<noteq> None"
  by (auto simp: add_container_def map_add_def split: option.splits)

lemma add_pod_first:
  assumes "\<not> cs_restart_count c < restarts" and "\<forall>c'\<in>set pre. cs_restart_count c' < restarts"
    and "pod_container_statuses p = pre @ c # post"
  shows "add_pod restarts p es = add_container p c es"
  using assms(1) add_container_below [OF assms(2)] add_container_idem [OF add_container_known]
  by (simp add: add_pod_def assms(3))

lemma fold_count:
  "fold (\<lambda>e (n, r). case f e of (m, info) \<Rightarrow> if m \<noteq> is_eq then (n, r) else (n + 1, g r info)) es (k, r) = (n', r') \<Longrightarrow>
     n' = k + length (filter (\<lambda>e. fst (f e) = is_eq) es)"
proof (induction es arbitrary: k r)
  case (Cons e es)
  obtain m info where e: "f e = (m, info)" by fastforce
  show ?case
  proof (cases "m = is_eq")
    case True
    with Cons.prems e have "fold (\<lambda>e (n, r). case f e of (m, info) \<Rightarrow> if m \<noteq> is_eq then (n, r) else (n + 1, g r info)) es (k + 1, g r info) = (n', r')"
      by simp
    from Cons.IH [OF this] True e show ?thesis by simp
  next
    case False
    with Cons.prems e have "fold (\<lambda>e (n, r). case f e of (m, info) \<Rightarrow> if m \<noteq> is_eq then (n, r) else (n + 1, g r info)) es (k, r) = (n', r')"
      by simp
    from Cons.IH [OF this] False e show ?thesis by simp
  qed
qed simp

interpretation pod_outcomes: outcome_loop
  "\<lambda>os. pod_loop L check_name p os" "\<lambda>o'. map_res (map_option Some) (pod_step L check_name p o')" "Ok None"
  for L check_name p
proof
  show "pod_loop L check_name p [] = Ok None" by simp
next
  fix x xs
  show "pod_loop L check_name p (x # xs) =
      bind_res (map_res (map_option Some) (pod_step L check_name p x))
        (\<lambda>d. case d of None \<Rightarrow> pod_loop L check_name p xs | Some r \<Rightarrow> Ok r)"
    by (cases "pod_step L check_name p x") (auto split: option.splits)
qed

interpretation event_outcomes: outcome_loop
  "event_branches render ev r"
  "\<lambda>(sev, so). map_res (\<lambda>b. if b = (ev \<noteq> None)
      then Some (conclude sev (so\<lparr>so_message := decorate_message render (so_message so) ev\<rparr>) r) else None)
     (wrap_res (''failed to parse when condition: '' @ so_when so) (parse_bool (so_when so)))" "Ok r"
  for render ev r
proof
  fix x :: "severity \<times> single_outcome" and xs
  obtain sev so where x: "x = (sev, so)" by fastforce
  show "event_branches render ev r (x # xs) =
    bind_res ((\<lambda>(sev, so). map_res (\<lambda>b. if b = (ev \<noteq> None)
        then Some (conclude sev (so\<lparr>so_message := decorate_message render (so_message so) ev\<rparr>) r) else None)
       (wrap_res (''failed to parse when condition: '' @ so_when so) (parse_bool (so_when so)))) x)
      (\<lambda>d. case d of None \<Rightarrow> event_branches render ev r xs | Some r \<Rightarrow> Ok r)"
    unfolding x by (cases "parse_bool (so_when so)") auto
qed simp

lemma pod_step_verdict:
  "pod_step L check_name p o' = Ok (Some (r, ns, n)) \<Longrightarrow> is_verdict r \<and> ns = pod_namespace p \<and> n = pod_name p"
  by (auto simp: pod_step_def pod_result_def res_simps Let_def conclude_verdict split: option.splits if_splits)

lemma pod_loop_verdict:
  assumes "pod_loop L check_name p os = Ok (Some (r, ns, n))"
  shows "is_verdict r \<and> ns = pod_namespace p \<and> n = pod_name p"
  using assms by (auto simp: pod_outcomes.loop_Ok_iff first_such_def map_res_option_Some_iff dest: pod_step_verdict)

lemma annotate_pod_fields [simp]:
  "pod_name (annotate_pod L f p) = pod_name p" "pod_namespace (annotate_pod L f p) = pod_namespace p"
  by (auto simp: annotate_pod_def Let_def split: prod.splits)

section \<open>Properties\<close>

text \<open>
  C39. Storing the computed reason and message in a pod does not change its health: for a pod without a reason of its own, the
  test for health after the analyzer has filled in reason and message answers as on the collected pod.
\<close>

theorem stored_reason_keeps_health:
  assumes "pod_reason p = []"
  shows "is_pod_unhealthy (annotate_pod L find_f p) = is_pod_unhealthy p"
proof -
  obtain r m where rm: "get_pod_status_reason p = (r, m)" by fastforce
  obtain m' where a: "annotate_pod L find_f p = p\<lparr>pod_reason := r, pod_message := m'\<rparr>"
    by (cases "m = []") (use assms rm that in \<open>auto simp: annotate_pod_def Let_def\<close>)
  from reason_fixpoint [OF assms rm, of m'] rm show ?thesis by (simp add: a is_pod_unhealthy_def)
qed

theorem stored_reason_keeps_health_witness:
  "\<exists>p L find_f. pod_phase p = ''Running'' \<and> pod_container_statuses p \<noteq> [] \<and>
     \<not> is_pod_unhealthy (annotate_pod L find_f p)"
proof -
  let ?c = "\<lparr>cs_name = ''c'', cs_ready = True, cs_restart_count = 0, cs_waiting = None, cs_running = True,
    cs_terminated = None, cs_last_terminated = None\<rparr>"
  let ?p = "\<lparr>pod_uid = ''u'', pod_name = ''p'', pod_namespace = ''n'', pod_deleted = False, pod_init_containers = 0,
    pod_phase = ''Running'', pod_reason = [], pod_message = [], pod_conditions = [], pod_init_statuses = [],
    pod_container_statuses = [?c]\<rparr>"
  have "\<not> is_pod_unhealthy ?p" by code_simp
  with stored_reason_keeps_health [of ?p] show ?thesis by (intro exI [of _ ?p]) simp
qed

text \<open>
  The pod status analyzer gives at most one result per pod that was collected in a selected namespace, in the order of the pods,
  and each is a verdict that names its pod.
\<close>

theorem pod_status_results:
  assumes "selected_pods (pl_pod_list L) (pl_pod_array L) namespaces files = Ok pods"
    and "find_f (resource_glob ''pods'') [] = Ok files"
    and "cluster_pod_statuses L find_f check_name namespaces outcomes = Ok rs"
  shows "(\<forall>(r, ns, n)\<in>set rs. is_verdict r) \<and> subseq (map snd rs) (map (\<lambda>p. (pod_namespace p, pod_name p)) pods)"
proof -
  from assms obtain ys where ys: "map_m (\<lambda>p. pod_loop L check_name (annotate_pod L find_f p) outcomes) pods = Ok ys"
    and rs: "rs = concat (map option_results ys)" by (auto simp: cluster_pod_statuses_def res_simps)
  show ?thesis unfolding rs using ys
  proof (induction pods arbitrary: ys)
    case (Cons p pods)
    from Cons.prems obtain y ys' where y: "pod_loop L check_name (annotate_pod L find_f p) outcomes = Ok y"
      and ys': "map_m (\<lambda>p. pod_loop L check_name (annotate_pod L find_f p) outcomes) pods = Ok ys'" "ys = y # ys'"
      by (auto simp: res_simps)
    from Cons.IH [OF ys'(1)] show ?case
      using pod_loop_verdict [of L check_name "annotate_pod L find_f p" outcomes] y
      by (cases y) (auto simp: ys'(2) option_results_def)
  qed (simp add: option_results_def)
qed

text \<open>
  Only the first container of a pod with enough restarts is looked at: what the pod has after it has no influence on the
  entries, and so none on the results.
\<close>

theorem later_containers_ignored:
  assumes "\<not> cs_restart_count c < restarts" and "\<forall>c'\<in>set pre. cs_restart_count c' < restarts"
  shows "add_pod restarts (p\<lparr>pod_container_statuses := pre @ c # post\<rparr>) es =
    add_pod restarts (p\<lparr>pod_container_statuses := [c]\<rparr>) es"
proof -
  have "add_container (p\<lparr>pod_container_statuses := xs\<rparr>) c es = add_container p c es" for xs
    by (cases "map_of es (pod_uid p)") (simp_all add: add_container_def)
  then show ?thesis
    using add_pod_first [OF assms, of "p\<lparr>pod_container_statuses := pre @ c # post\<rparr>" post]
      add_pod_first [OF assms(1), of "[]" "p\<lparr>pod_container_statuses := [c]\<rparr>" "[]"] by simp
qed

theorem later_containers_ignored_witness:
  "\<exists>p c c'. c \<noteq> c' \<and> cs_last_terminated c' \<noteq> None \<and>
     add_pod 0 (p\<lparr>pod_container_statuses := [c, c']\<rparr>) [] = add_pod 0 (p\<lparr>pod_container_statuses := [c]\<rparr>) []"
proof -
  let ?t = "\<lparr>tm_exit_code = 137, tm_signal = 0, tm_reason = ''OOMKilled'', tm_message = []\<rparr>"
  let ?c = "\<lparr>cs_name = ''a'', cs_ready = True, cs_restart_count = 0, cs_waiting = None, cs_running = True,
    cs_terminated = None, cs_last_terminated = None\<rparr>"
  let ?d = "\<lparr>cs_name = ''b'', cs_ready = True, cs_restart_count = 7, cs_waiting = None, cs_running = True,
    cs_terminated = None, cs_last_terminated = Some ?t\<rparr>"
  show ?thesis
    using later_containers_ignored [where c = ?c and restarts = 0 and pre = "[]" and post = "[?d]"] by (intro exI [of _ undefined] exI [of _ ?c] exI [of _ ?d]) simp
qed

text \<open>
  The results of one outcome are one result: there is one per pod whose match agrees with the operator, in whatever order the pods
  are visited, and all of them have the same text, which the first match rendered.
\<close>

theorem container_results_shared:
  "\<exists>r'. container_matches render reason is_eq es r =
     replicate (length (filter (\<lambda>e. fst (match_container_reason reason e) = is_eq) es)) r'"
proof -
  obtain n r' where f: "fold (\<lambda>e (n, r). case match_container_reason reason e of (m, info) \<Rightarrow>
      if m \<noteq> is_eq then (n, r)
      else (n + 1, r\<lparr>message := render_container_message render (message r) info\<rparr>)) es (0::nat, r) = (n, r')"
    by fastforce
  from fold_count [OF f] f show ?thesis by (auto simp: container_matches_def)
qed

end
