(* ===== verification/Host_Checks.thy ===== *)
theory Host_Checks
  imports Host_Resources Lines
begin

text \<open>
  The host analyzers that compare what a collector found with a condition of the spec: the operating system
  (\<^verbatim>\<open>host_os_info.go\<close>), kernel configuration (\<^verbatim>\<open>host_kernel_configs.go\<close>), installed packages
  (\<^verbatim>\<open>host_system_packages.go\<close>), latencies of a file system (\<^verbatim>\<open>host_filesystem_performance.go\<close>), HTTP requests
  (\<^verbatim>\<open>host_http.go\<close>, \<^verbatim>\<open>http_analyze.go\<close>) and the collectors whose answer is one word (\<^verbatim>\<open>host_certificate.go\<close>,
  \<^verbatim>\<open>host_tcpportstatus.go\<close>, \<^verbatim>\<open>host_udpportstatus.go\<close>, \<^verbatim>\<open>host_tcploadbalancer.go\<close>, \<^verbatim>\<open>host_httploadbalancer.go\<close>,
  \<^verbatim>\<open>host_subnetcontainsip.go\<close>). Parameters are the JSON decoder, the semantic version library, the expression
  evaluator of HTTP conditions, templates, the parsing of durations and of networks, and the conversion of a mean
  latency from a float.
\<close>

section \<open>One word answers\<close>

definition status_check_condition :: "(string \<Rightarrow> string res) \<Rightarrow> string \<Rightarrow> string \<Rightarrow> bool res" where
  "status_check_condition unmarshal w data =
     bind_res (wrap_res ''failed to unmarshal data into NetworkStatusResult'' (unmarshal data)) (\<lambda>st. Ok (st = w))"

text \<open>An analyzer of the collector that was given a name, or has its default name.\<close>

definition named_Analyze ::
  "string \<Rightarrow> string \<Rightarrow> string \<Rightarrow> string \<Rightarrow> (string \<Rightarrow> string \<Rightarrow> bool res) \<Rightarrow> (string \<Rightarrow> string list res) \<Rightarrow> get_file \<Rightarrow>
   string \<Rightarrow> string \<Rightarrow> outcome list \<Rightarrow> analyze_result list res" where
  "named_Analyze dir default_name default_title errmsg check um_nodes get check_name collector_name outcomes =
     (let name = (if collector_name = [] then default_name else collector_name)
      in host_Analyze um_nodes get (dir @ ''/'' @ name @ ''.json'') dir (name @ ''.json'') outcomes check
           (host_analyzer_title_or_default check_name default_title) errmsg)"

definition host_tcp_port_status_Analyze where
  "host_tcp_port_status_Analyze unmarshal =
     named_Analyze ''host-collectors/tcpPortStatus'' ''tcpPortStatus'' ''TCP Port Status''
       ''failed to analyze tcp port status'' (status_check_condition unmarshal)"

definition host_udp_port_status_Analyze where
  "host_udp_port_status_Analyze unmarshal =
     named_Analyze ''host-collectors/udpPortStatus'' ''udpPortStatus'' ''UDP Port Status''
       ''failed to analyze udp port status'' (status_check_condition unmarshal)"

definition host_tcp_load_balancer_Analyze where
  "host_tcp_load_balancer_Analyze unmarshal =
     named_Analyze ''host-collectors/tcpLoadBalancer'' ''tcpLoadBalancer'' ''TCP Load Balancer''
       ''failed to analyze TCP Load Balancer'' (status_check_condition unmarshal)"

definition host_http_load_balancer_Analyze where
  "host_http_load_balancer_Analyze unmarshal =
     named_Analyze ''host-collectors/httpLoadBalancer'' ''httpLoadBalancer'' ''HTTP Load Balancer''
       ''failed to analyze HTTP Load Balancer'' (status_check_condition unmarshal)"

definition certificate_check_condition :: "string \<Rightarrow> string \<Rightarrow> bool res" where
  "certificate_check_condition w data = Ok (trim_space data = w)"

definition host_certificate_Analyze where
  "host_certificate_Analyze =
     named_Analyze ''host-collectors/certificate'' ''certificate'' ''Certificate Key Pair''
       ''failed to analyze certificate'' certificate_check_condition"

definition subnet_contains_check_condition :: "string \<Rightarrow> string \<Rightarrow> bool res" where
  "subnet_contains_check_condition w data =
     (if w = ''true'' then Ok (data = ''true'')
      else if w = ''false'' then Ok (data = ''false'')
      else Fail (Errf ''unknown condition: %q'' [w]))"

text \<open>Nothing is read here: the network and the address are those of the spec.\<close>

definition subnet_contains_ip_Analyze ::
  "(string \<Rightarrow> ('ip \<Rightarrow> bool) res) \<Rightarrow> (string \<Rightarrow> 'ip option) \<Rightarrow> string \<Rightarrow> string \<Rightarrow> string \<Rightarrow> outcome list \<Rightarrow>
   analyze_result list res" where
  "subnet_contains_ip_Analyze parse_cidr parse_ip cidr ip check_name outcomes =
     bind_res (wrap_res (''failed to parse CIDR '' @ cidr) (parse_cidr cidr)) (\<lambda>net.
       case parse_ip ip of
         None \<Rightarrow> Fail (Errf ''failed to parse IP address %s'' [ip])
       | Some a \<Rightarrow>
           wrap_res ''failed to analyze Subnet Contains IP''
             (analyze_host_collector_results
                [\<lparr>node_name = [], content_data = (if net a then ''true'' else ''false'')\<rparr>] outcomes
                subnet_contains_check_condition (host_analyzer_title_or_default check_name ''Subnet Contains IP'')))"

section \<open>HTTP requests\<close>

text \<open>
  The collected request: whether it has an error, and the status of its response. The evaluator compiles a text
  and evaluates it with a status code; a value that is no boolean is \<open>None\<close>.
\<close>

record http_result =
  http_error :: bool
  http_status :: "int option"

definition compare_host_http_conditional_to_actual ::
  "(string \<Rightarrow> (int \<Rightarrow> bool option res) res) \<Rightarrow> string \<Rightarrow> http_result \<Rightarrow> bool res" where
  "compare_host_http_conditional_to_actual compile conditional r =
     (if conditional = ''error'' then Ok (http_error r)
      else bind_res
        (wrap_res ''failed to create evaluable expression''
           (compile (replace_all '' === '' '' == '' (replace_all '' = '' '' == '' conditional))))
        (\<lambda>evaluate.
           case http_status r of
             None \<Rightarrow> Ok False
           | Some code \<Rightarrow>
               bind_res (wrap_res ''failed to evaluate expression'' (evaluate code)) (\<lambda>v.
                 case v of None \<Rightarrow> Fail (Err ''expression did not evaluate to a boolean value'') | Some b \<Rightarrow> Ok b)))"

definition http_check_condition where
  "http_check_condition compile unmarshal w data =
     bind_res (wrap_res ''failed to unmarshal data into httpResult'' (unmarshal data))
       (compare_host_http_conditional_to_actual compile w)"

definition host_http_Analyze where
  "host_http_Analyze compile unmarshal =
     named_Analyze ''host-collectors/http'' ''result'' ''HTTP Request'' ''failed to analyze http request''
       (http_check_condition compile unmarshal)"

text \<open>The analyzer of requests from the cluster has a walk of its own that always ends with a result.\<close>

fun http_outcomes ::
  "(string \<Rightarrow> bool res) \<Rightarrow> analyze_result \<Rightarrow> outcome list \<Rightarrow> analyze_result list res" where
  "http_outcomes check r [] = Ok [r]"
| "http_outcomes check r (o' # os) =
     bind_res (when_step check (\<lambda>_ so. ''failed to compare '' @ so_when so) r o')
       (\<lambda>d. case d of None \<Rightarrow> http_outcomes check r os | Some r' \<Rightarrow> Ok [r'])"

definition analyze_http_result where
  "analyze_http_result compile unmarshal get file_name outcomes t =
     bind_res (wrap_res ''failed to get collected file'' (get file_name)) (\<lambda>contents.
       bind_res (wrap_res ''failed to unmarshal http result'' (unmarshal contents)) (\<lambda>info.
         http_outcomes (\<lambda>w. compare_host_http_conditional_to_actual compile w info) (new_result t) outcomes))"

definition http_Analyze where
  "http_Analyze compile unmarshal get check_name collector_name outcomes =
     analyze_http_result compile unmarshal get
       (if collector_name \<noteq> [] then collector_name @ ''.json'' else ''result.json'') outcomes
       (if check_name = [] then collector_name else check_name)"

section \<open>Operating system\<close>

text \<open>Parts that are not a single zero lose one leading zero.\<close>

definition strip_zero :: "string \<Rightarrow> string" where
  "strip_zero w = (if w \<noteq> ''0'' then trim_prefix ''0'' w else w)"

text \<open>The expression \<^verbatim>\<open>^[0-9]+\.?[0-9]*\.?[0-9]*\<close>: every part of it is as long as it can be.\<close>

definition dot_digits :: "string \<Rightarrow> string" where
  "dot_digits s =
     (case s of
        [] \<Rightarrow> []
      | c # t \<Rightarrow> if c = CHR ''.'' then c # takeWhile is_digit t else takeWhile is_digit s)"

definition leading_version :: "string \<Rightarrow> string" where
  "leading_version s =
     (let d = takeWhile is_digit s;
          p = dot_digits (drop (length d) s);
          q = dot_digits (drop (length d + length p) s)
      in if d = [] then [] else d @ p @ q)"

definition fix_version :: "string \<Rightarrow> string" where
  "fix_version v =
     rev (dropWhile (\<lambda>c. c = CHR ''.'') (rev (leading_version (join_with ''.'' (map strip_zero (split_on (CHR ''.'') v))))))"

record 'v semver_libs =
  sv_tolerant :: "string \<Rightarrow> 'v res"
  sv_show :: "'v \<Rightarrow> string"
  sv_range :: "string \<Rightarrow> ('v \<Rightarrow> bool) res"

record host_os_info =
  os_platform :: string
  os_platform_family :: string
  os_platform_version :: string
  os_kernel_version :: string

definition expected_version :: "'v semver_libs \<Rightarrow> string \<Rightarrow> 'v res" where
  "expected_version L v = wrap_res (''failed to parse version: '' @ fix_version v) (sv_tolerant L (fix_version v))"

text \<open>The conditions after the first: a conjunction, an operator and a version each.\<close>

fun more_ranges :: "'v semver_libs \<Rightarrow> string list \<Rightarrow> string \<Rightarrow> string res" where
  "more_ranges L (c # op # v # rest) acc =
     bind_res (expected_version L v) (\<lambda>ver.
       if c = ''||'' then more_ranges L rest (acc @ '' '' @ c @ '' '' @ op @ '' '' @ sv_show L ver)
       else if c = ''&&'' then more_ranges L rest (acc @ '' '' @ op @ '' '' @ sv_show L ver)
       else Fail (Errf ''invalid conditional, expected either && or ||, got %q'' [c]))"
| "more_ranges L _ acc = Ok acc"

definition version_in :: "'v semver_libs \<Rightarrow> ('v \<Rightarrow> bool) \<Rightarrow> string \<Rightarrow> bool res" where
  "version_in L in_range v =
     map_res in_range (wrap_res (''failed to parse tolerant: '' @ fix_version v) (sv_tolerant L (fix_version v)))"

definition names_kernel :: "string \<Rightarrow> bool" where
  "names_kernel platform \<longleftrightarrow>
     (case split_on (CHR ''-'') platform of [_, _, w] \<Rightarrow> w = ''kernel'' | _ \<Rightarrow> False)"

definition platform_in :: "'v semver_libs \<Rightarrow> ('v \<Rightarrow> bool) \<Rightarrow> host_os_info \<Rightarrow> string \<Rightarrow> bool res" where
  "platform_in L in_range os platform =
     (if names_kernel platform
      then if platform = os_platform os @ ''-'' @ os_platform_version os @ ''-kernel''
           then version_in L in_range (os_kernel_version os) else Ok False
      else if platform = os_platform os \<or> platform = os_platform_family os
      then version_in L in_range (os_platform_version os) else Ok False)"

definition compare_host_os :: "'v semver_libs \<Rightarrow> string \<Rightarrow> host_os_info \<Rightarrow> bool res" where
  "compare_host_os L w os =
     (case split_on (CHR '' '') w of
        platform # op # v # rest \<Rightarrow>
          if length rest mod 3 \<noteq> 0
          then Fail (Err (''when condition must have a multiple of 3 parts, such as '' @ CHR 0x27 # ''ubuntu == 20.04'' @
                  CHR 0x27 # '' or '' @ CHR 0x27 # ''rhel >= 8 && < 9'' @ [CHR 0x27]))
          else bind_res (expected_version L v) (\<lambda>ver.
            bind_res (more_ranges L rest (op @ '' '' @ sv_show L ver)) (\<lambda>range_text.
            bind_res (wrap_res (''failed to parse version range: '' @ w) (sv_range L range_text)) (\<lambda>in_range.
            bind_res (if platform = ''kernelVersion'' then version_in L in_range (os_kernel_version os) else Ok False)
              (\<lambda>m. if m then Ok True else platform_in L in_range os platform))))
      | _ \<Rightarrow> Fail (Err ''when condition must have at least 3 parts''))"

definition os_check_condition where
  "os_check_condition L unmarshal w data =
     bind_res (wrap_res ''failed to unmarshal data into HostOSInfo'' (unmarshal data)) (compare_host_os L w)"

definition host_os_Analyze where
  "host_os_Analyze L unmarshal um_nodes get check_name outcomes =
     host_Analyze um_nodes get ''host-collectors/system/hostos_info.json'' NodeInfoBaseDir ''hostos_info.json'' outcomes
       (os_check_condition L unmarshal) (host_analyzer_title_or_default check_name ''Host OS Info'')
       ''failed to analyze OS version''"


section \<open>Kernel configuration\<close>

text \<open>
  The expression \<^verbatim>\<open>^(CONFIG_[A-Z0-9_]+)=([ymn]+)$\<close>: no character of the first group is an equals sign, so
  the first one in the text ends it.
\<close>

definition config_char :: "char \<Rightarrow> bool" where
  "config_char c \<longleftrightarrow> c \<in> set ''ABCDEFGHIJKLMNOPQRSTUVWXYZ0123456789_''"

definition parse_config :: "string \<Rightarrow> (string \<times> string) option" where
  "parse_config s =
     (let key = takeWhile (\<lambda>c. c \<noteq> CHR ''='') s; vals = drop (length key + 1) s
      in if has_prefix ''CONFIG_'' key \<and> length key > length ''CONFIG_'' \<and> list_all config_char key \<and>
            length key < length s \<and> vals \<noteq> [] \<and> list_all (\<lambda>c. c \<in> set ''ymn'') vals
         then Some (key, vals) else None)"

fun configs_not_found :: "(string \<times> string) list \<Rightarrow> string list \<Rightarrow> string list res" where
  "configs_not_found configs [] = Ok []"
| "configs_not_found configs (c # cs) =
     (case parse_config c of
        None \<Rightarrow> Fail (Errf ''invalid kernel config: %s'' [c])
      | Some (key, vals) \<Rightarrow>
          map_res (\<lambda>missing.
              case map_of configs key of
                None \<Rightarrow> c # missing
              | Some v \<Rightarrow> if contains_sub v vals then missing else c # missing)
            (configs_not_found configs cs))"

definition add_missing_kernel_configs :: "string \<Rightarrow> string list \<Rightarrow> string" where
  "add_missing_kernel_configs msg missing =
     (if msg = [] \<and> missing = [] then msg
      else replace_all ''{{ .ConfigsNotFound }}'' (join_with '', '' missing) msg)"

definition config_result :: "analyze_result \<Rightarrow> string list \<Rightarrow> outcome \<Rightarrow> analyze_result option" where
  "config_result r missing o' =
     (case (o_pass o', missing) of
        (Some p, []) \<Rightarrow> Some (r\<lparr>is_pass := True, message := so_message p\<rparr>)
      | _ \<Rightarrow>
          (case (o_fail o', missing) of
             (Some f, _ # _) \<Rightarrow>
               Some (r\<lparr>is_fail := True, message := add_missing_kernel_configs (so_message f) missing\<rparr>)
           | _ \<Rightarrow> None))"

fun config_results :: "analyze_result \<Rightarrow> string list \<Rightarrow> outcome list \<Rightarrow> analyze_result list" where
  "config_results r missing [] = []"
| "config_results r missing (o' # os) =
     (case config_result r missing o' of None \<Rightarrow> config_results r missing os | Some r' \<Rightarrow> [r'])"

definition analyze_kernel_configs ::
  "(string \<Rightarrow> (string \<times> string) list res) \<Rightarrow> string list \<Rightarrow> bool \<Rightarrow> outcome list \<Rightarrow> string \<Rightarrow> string \<Rightarrow>
   analyze_result list res" where
  "analyze_kernel_configs unmarshal selected is_strict outcomes data t =
     bind_res (wrap_res ''failed to read kernel configs'' (unmarshal data)) (\<lambda>configs.
       map_res (\<lambda>missing. config_results ((new_result t)\<lparr>strict := is_strict\<rparr>) missing outcomes)
         (configs_not_found configs selected))"

text \<open>The loop over the collected contents of all nodes, shared by the analyzers with a method per node.\<close>

fun each_node :: "(string \<Rightarrow> string \<Rightarrow> 'a list res) \<Rightarrow> string \<Rightarrow> string \<Rightarrow> collected_content list \<Rightarrow> 'a list res" where
  "each_node analyze_node errmsg t [] = Ok []"
| "each_node analyze_node errmsg t (c # cs) =
     bind_res (wrap_res (errmsg @ node_title t c) (analyze_node (content_data c) (node_title t c))) (\<lambda>rs.
       map_res (\<lambda>rest. rs @ rest) (each_node analyze_node errmsg t cs))"

definition kernel_configs_Analyze where
  "kernel_configs_Analyze unmarshal um_nodes get check_name selected is_strict outcomes =
     bind_res
       (retrieve_collected_contents um_nodes get ''host-collectors/system/kernel-configs.json'' NodeInfoBaseDir
          ''kernel-configs.json'')
       (each_node (analyze_kernel_configs unmarshal selected is_strict outcomes) ''failed to analyze kernel configs for ''
          (host_analyzer_title_or_default check_name ''Kernel Configs''))"

section \<open>System packages\<close>

record system_package =
  sp_name :: string
  sp_details :: string
  sp_error :: string
  sp_exit_code :: string

datatype template_value = TText string | TNumber int | TFlag bool

definition is_system_package_installed :: "system_package \<Rightarrow> bool" where
  "is_system_package_installed p \<longleftrightarrow>
     sp_error p = [] \<and> sp_exit_code p = ''0'' \<and> \<not> contains_sub ''not installed'' (sp_details p) \<and>
     \<not> contains_sub ''No matching Packages'' (sp_details p)"

definition is_upper :: "char \<Rightarrow> bool" where
  "is_upper c \<longleftrightarrow> 65 \<le> (of_char c :: nat) \<and> (of_char c :: nat) \<le> 90"

definition set_key :: "string \<Rightarrow> 'a \<Rightarrow> (string \<times> 'a) list \<Rightarrow> (string \<times> 'a) list" where
  "set_key k v m = (k, v) # filter (\<lambda>e. fst e \<noteq> k) m"

text \<open>One line of the details; the first character of an empty key is an index out of range.\<close>

definition detail_line :: "string \<Rightarrow> (string \<times> string) list \<Rightarrow> (string \<times> string) list res" where
  "detail_line line m =
     (let key = takeWhile (\<lambda>c. c \<noteq> CHR '':'') line;
          val = trim_space (drop (length key + 1) line);
          key' = replace_all ''-'' [] (replace_all '' '' [] key)
      in if CHR '':'' \<notin> set line then Ok m
         else if key = [] then Panic ''index out of range [0] with length 0''
         else if \<not> is_upper (hd key) \<or> is_space (hd key) then Ok m
         else if key' = [] \<or> val = [] then Ok m
         else Ok (set_key key' val m))"

fun detail_lines :: "string list \<Rightarrow> (string \<times> string) list \<Rightarrow> (string \<times> string) list res" where
  "detail_lines [] m = Ok m"
| "detail_lines (l # ls) m = bind_res (detail_line l m) (detail_lines ls)"

definition get_system_package_details_map :: "system_package \<Rightarrow> (string \<times> string) list res" where
  "get_system_package_details_map p = detail_lines (fst (scan_lines MaxScanTokenSize (sp_details p))) []"

text \<open>
  \<^verbatim>\<open>strconv.ParseInt\<close> whose error is dropped: no number gives zero, a number out of range the nearest in range.
\<close>

definition parsed_or_nearest :: "string \<Rightarrow> int" where
  "parsed_or_nearest s =
     (let (neg, ds) = split_sign s
      in if ds = [] then 0
         else case digits_val 0 ds of
                None \<Rightarrow> 0
              | Some n \<Rightarrow> if neg then max (- int n) (- (2 ^ 63)) else min (int n) (2 ^ 63 - 1))"

definition get_system_package_template_map ::
  "system_package \<Rightarrow> string \<Rightarrow> string \<Rightarrow> (string \<times> template_value) list res" where
  "get_system_package_template_map p os_name os_version =
     (let parts = split_on (CHR ''.'') os_version
      in map_res (\<lambda>details. fold (\<lambda>(k, v). set_key k (TText v)) details
           [(''OS'', TText os_name), (''OSVersion'', TText os_version),
            (''OSVersionMajor'', TNumber (parsed_or_nearest (hd parts))),
            (''OSVersionMinor'', TNumber (if length parts > 1 then parsed_or_nearest (parts ! 1) else 0)),
            (''Name'', TText (sp_name p)), (''Error'', TText (sp_error p)), (''ExitCode'', TText (sp_exit_code p)),
            (''IsInstalled'', TFlag (is_system_package_installed p))])
           (get_system_package_details_map p))"


definition compare_system_packages_conditional_to_actual ::
  "(string \<Rightarrow> (string \<times> template_value) list \<Rightarrow> string res) \<Rightarrow> (string \<times> template_value) list \<Rightarrow> string \<Rightarrow> bool res" where
  "compare_system_packages_conditional_to_actual render m conditional =
     (if conditional = [] then Ok True
      else bind_res (wrap_res ''failed to render when template'' (render conditional m)) (\<lambda>w.
        wrap_res ''failed to parse templated when expression as a boolean'' (parse_bool w)))"

definition package_step ::
  "(string \<Rightarrow> (string \<times> template_value) list \<Rightarrow> string res) \<Rightarrow> (string \<times> template_value) list \<Rightarrow> string \<Rightarrow> outcome \<Rightarrow>
   analyze_result option res" where
  "package_step render m t o' =
     (case select_outcome o' of
        None \<Rightarrow> Fail (Err ''invalid outcome'')
      | Some (sev, so) \<Rightarrow>
          bind_res (wrap_res (''failed to compare '' @ so_when so)
              (compare_system_packages_conditional_to_actual render m (so_when so))) (\<lambda>matched.
            if \<not> matched then Ok None
            else map_res (\<lambda>msg. Some ((conclude sev so (new_result t))\<lparr>message := msg\<rparr>))
              (wrap_res ''failed to create new message template'' (render (so_message so) m))))"

fun package_loop ::
  "(string \<Rightarrow> (string \<times> template_value) list \<Rightarrow> string res) \<Rightarrow> (string \<times> template_value) list \<Rightarrow> string \<Rightarrow> outcome list \<Rightarrow>
   analyze_result list res" where
  "package_loop render m t [] = Ok []"
| "package_loop render m t (o' # os) =
     bind_res (package_step render m t o') (\<lambda>d.
       case d of None \<Rightarrow> package_loop render m t os | Some r \<Rightarrow> Ok [r])"

record packages_info =
  pi_os :: string
  pi_os_version :: string
  pi_packages :: "system_package list"

fun package_results ::
  "(string \<Rightarrow> (string \<times> template_value) list \<Rightarrow> string res) \<Rightarrow> packages_info \<Rightarrow> string \<Rightarrow> outcome list \<Rightarrow>
   system_package list \<Rightarrow> analyze_result list res" where
  "package_results render info t outcomes [] = Ok []"
| "package_results render info t outcomes (p # ps) =
     bind_res (get_system_package_template_map p (pi_os info) (pi_os_version info)) (\<lambda>m.
     bind_res (package_loop render m t outcomes) (\<lambda>rs.
       map_res (\<lambda>rest. rs @ rest) (package_results render info t outcomes ps)))"

definition analyze_system_packages where
  "analyze_system_packages unmarshal render outcomes data t =
     bind_res (wrap_res (''failed to unmarshal system packages info from '' @ t) (unmarshal data)) (\<lambda>info.
       package_results render info t outcomes (pi_packages info))"

definition system_packages_Analyze where
  "system_packages_Analyze unmarshal render um_nodes get check_name collector_name outcomes =
     (let file_name = (if collector_name = [] then ''packages'' else collector_name) @ ''-packages.json''
      in bind_res
           (retrieve_collected_contents um_nodes get (NodeInfoBaseDir @ ''/'' @ file_name) NodeInfoBaseDir file_name)
           (each_node (analyze_system_packages unmarshal render outcomes) ''failed to analyze system packages for ''
              (host_analyzer_title_or_default check_name ''System Packages'')))"

section \<open>Latencies of a file system\<close>

text \<open>Durations are nanoseconds; the collected mean is a float.\<close>

record 'f fio_latency =
  lat_min :: int
  lat_max :: int
  lat_mean :: 'f
  lat_percentiles :: "(string \<times> int) list"

definition percentile :: "'f fio_latency \<Rightarrow> string \<Rightarrow> int" where
  "percentile l p = (case map_of (lat_percentiles l) p of Some d \<Rightarrow> d | None \<Rightarrow> 0)"

text \<open>The durations by the keyword of a condition.\<close>

type_synonym fs_perf_results = "(string \<times> int) list"

definition FSPerfResults :: "('f \<Rightarrow> int) \<Rightarrow> 'f fio_latency \<Rightarrow> fs_perf_results" where
  "FSPerfResults round_mean l =
     [(''min'', lat_min l), (''max'', lat_max l), (''average'', round_mean (lat_mean l)),
      (''p1'', percentile l ''1.000000''), (''p5'', percentile l ''5.000000''), (''p10'', percentile l ''10.000000''),
      (''p20'', percentile l ''20.000000''), (''p30'', percentile l ''30.000000''), (''p40'', percentile l ''40.000000''),
      (''p50'', percentile l ''50.000000''), (''p60'', percentile l ''60.000000''), (''p70'', percentile l ''70.000000''),
      (''p80'', percentile l ''80.000000''), (''p90'', percentile l ''90.000000''), (''p95'', percentile l ''95.000000''),
      (''p99'', percentile l ''99.000000''), (''p995'', percentile l ''99.500000''), (''p999'', percentile l ''99.900000''),
      (''p9995'', percentile l ''99.950000''), (''p9999'', percentile l ''99.990000'')]"

definition do_compare_host_filesystem_performance :: "string \<Rightarrow> int \<Rightarrow> int \<Rightarrow> bool res" where
  "do_compare_host_filesystem_performance operator actual desired =
     (if operator = ''<'' then Ok (actual < desired)
      else if operator = ''<='' then Ok (actual \<le> desired)
      else if operator = ''>'' then Ok (actual > desired)
      else if operator = ''>='' then Ok (actual \<ge> desired)
      else if operator \<in> {''='', ''=='', ''===''} then Ok (actual = desired)
      else Fail (Errf ''unknown filesystem performance operator %q'' [operator]))"

definition FILE_NOT_COLLECTED :: string where "FILE_NOT_COLLECTED = ''fileNotCollected''"

definition compare_host_filesystem_performance ::
  "(string \<Rightarrow> int res) \<Rightarrow> fs_perf_results \<Rightarrow> string \<Rightarrow> bool res" where
  "compare_host_filesystem_performance parse_duration perf conditional =
     (if conditional = FILE_NOT_COLLECTED then Ok False
      else case split_on (CHR '' '') conditional of
        [w, comparator, d] \<Rightarrow>
          bind_res (wrap_res (''failed to parse duration '' @ quoted d) (parse_duration d)) (\<lambda>desired.
            case map_of perf (to_lower w) of
              Some actual \<Rightarrow> do_compare_host_filesystem_performance comparator actual desired
            | None \<Rightarrow> Fail (Errf ''unknown filesystem performance keyword %q'' [to_lower w]))
      | parts \<Rightarrow> Fail (Errf ''conditional must have exactly 3 parts, got %d'' [show_int (int (length parts))]))"

definition render_fs_perf_outcome ::
  "(string \<Rightarrow> fs_perf_results \<Rightarrow> string res) \<Rightarrow> fs_perf_results \<Rightarrow> string \<Rightarrow> string" where
  "render_fs_perf_outcome render perf msg = (case render msg perf of Ok s \<Rightarrow> s | _ \<Rightarrow> msg)"

definition fs_perf_conclude ::
  "(string \<Rightarrow> fs_perf_results \<Rightarrow> string res) \<Rightarrow> fs_perf_results \<Rightarrow> string \<Rightarrow> severity \<Rightarrow> single_outcome \<Rightarrow> analyze_result" where
  "fs_perf_conclude render perf t sev so =
     (conclude sev so (new_result t))\<lparr>message := render_fs_perf_outcome render perf (so_message so)\<rparr>"

fun fs_perf_outcomes ::
  "(string \<Rightarrow> int res) \<Rightarrow> (string \<Rightarrow> fs_perf_results \<Rightarrow> string res) \<Rightarrow> fs_perf_results \<Rightarrow> string \<Rightarrow> outcome list \<Rightarrow>
   analyze_result list res" where
  "fs_perf_outcomes parse_duration render perf t [] = Ok [new_result t]"
| "fs_perf_outcomes parse_duration render perf t (o' # os) =
     (case select_outcome o' of
        None \<Rightarrow> Fail (Err ''unexpected outcome'')
      | Some (sev, so) \<Rightarrow>
          if so_when so = [] then Ok [fs_perf_conclude render perf t sev so]
          else bind_res (wrap_res (''failed to compare '' @ quoted (so_when so))
                 (compare_host_filesystem_performance parse_duration perf (so_when so))) (\<lambda>m.
              if m then Ok [fs_perf_conclude render perf t sev so]
              else fs_perf_outcomes parse_duration render perf t os))"

text \<open>
  The jobs of the collected file, and the durations a top level of the file sets over those of the job.
\<close>

record 'f fs_perf_libs =
  fp_jobs :: "string \<Rightarrow> (string \<times> 'f fio_latency) list res"
  fp_overlay :: "string \<Rightarrow> fs_perf_results \<Rightarrow> fs_perf_results res"
  fp_truncate :: "'f \<Rightarrow> int"
  fp_duration :: "string \<Rightarrow> int res"
  fp_render :: "string \<Rightarrow> fs_perf_results \<Rightarrow> string res"

definition analyze_fs_perf :: "'f fs_perf_libs \<Rightarrow> outcome list \<Rightarrow> string \<Rightarrow> string \<Rightarrow> analyze_result list res" where
  "analyze_fs_perf L outcomes data t =
     bind_res (wrap_res (''failed to unmarshal fio results from '' @ t) (fp_jobs L data)) (\<lambda>jobs.
       case map_of jobs ''fsperf'' of
         None \<Rightarrow> Fail (Errf (''no job named '' @ CHR 0x27 # ''fsperf'' @ CHR 0x27 # '' found in fio results from %s'') [t])
       | Some l \<Rightarrow>
           bind_res (wrap_res (''failed to unmarshal filesystem performance results from '' @ t)
               (fp_overlay L data (FSPerfResults (fp_truncate L) l))) (\<lambda>perf.
             fs_perf_outcomes (fp_duration L) (fp_render L) perf t outcomes))"

definition not_collected :: "single_outcome option \<Rightarrow> bool" where
  "not_collected so \<longleftrightarrow> (case so of Some s \<Rightarrow> so_when s = FILE_NOT_COLLECTED | None \<Rightarrow> False)"

text \<open>
  Without collected data the first outcome may say what to report; without any outcome the error is dropped and the
  loop has nothing to go over.
\<close>

definition fs_perf_missing ::
  "(string \<Rightarrow> fs_perf_results \<Rightarrow> string res) \<Rightarrow> fs_perf_results \<Rightarrow> string \<Rightarrow> string \<Rightarrow> go_error \<Rightarrow> outcome list \<Rightarrow>
   analyze_result list res" where
  "fs_perf_missing render zero t local_path e outcomes =
     (case outcomes of
        [] \<Rightarrow> Ok []
      | o' # _ \<Rightarrow>
          if not_collected (o_fail o') then Ok [fs_perf_conclude render zero t SFail (the (o_fail o'))]
          else if not_collected (o_warn o') then Ok [fs_perf_conclude render zero t SWarn (the (o_warn o'))]
          else if not_collected (o_pass o') then Ok [fs_perf_conclude render zero t SPass (the (o_pass o'))]
          else Fail (Wrap (''failed to get collected file '' @ local_path) e))"

definition zero_perf :: fs_perf_results where
  "zero_perf =
     FSPerfResults (\<lambda>_. 0) \<lparr>lat_min = 0, lat_max = 0, lat_mean = (), lat_percentiles = []\<rparr>"

definition fs_perf_Analyze ::
  "'f fs_perf_libs \<Rightarrow> (string \<Rightarrow> string list res) \<Rightarrow> get_file \<Rightarrow> string \<Rightarrow> string \<Rightarrow> outcome list \<Rightarrow>
   analyze_result list res" where
  "fs_perf_Analyze L um_nodes get check_name collector_name outcomes =
     (let name = (if collector_name = [] then ''filesystemPerformance'' else collector_name);
          t = host_analyzer_title_or_default check_name ''Filesystem Performance'';
          local_path = ''host-collectors/filesystemPerformance/'' @ name @ ''.json''
      in case retrieve_collected_contents um_nodes get local_path ''host-collectors/filesystemPerformance'' (name @ ''.json'') of
           Panic m \<Rightarrow> Panic m
         | Fail e \<Rightarrow> fs_perf_missing (fp_render L) zero_perf t local_path e outcomes
         | Ok contents \<Rightarrow>
             each_node (analyze_fs_perf L outcomes) ''failed to analyze filesystem performance for '' t contents)"


section \<open>Lemmas\<close>

lemma join_with_snoc: "ws \<noteq> [] \<Longrightarrow> join_with sep (ws @ [w]) = join_with sep ws @ sep @ w"
proof (induction ws)
  case (Cons v ws)
  then show ?case by (cases ws) auto
qed simp

lemma join_with_last:
  "join_with sep (ws @ [w @ x]) = join_with sep (ws @ [w]) @ x"
  by (cases "ws = []") (simp_all add: join_with_snoc)

subsection \<open>Ranges of versions\<close>

text \<open>
  What a condition on versions says: the alternatives that \<^verbatim>\<open>||\<close> separates, each a list of comparisons; and the
  text semantic version ranges have for it.
\<close>

type_synonym 'v comparison = "string \<times> 'v"

fun alternatives :: "'v comparison list \<Rightarrow> (bool \<times> string \<times> string \<times> 'v) list \<Rightarrow> 'v comparison list list" where
  "alternatives g [] = [g]"
| "alternatives g ((alt, op, v, ver) # xs) =
     (if alt then g # alternatives [(op, ver)] xs else alternatives (g @ [(op, ver)]) xs)"

definition group_text :: "('v \<Rightarrow> string) \<Rightarrow> 'v comparison list \<Rightarrow> string" where
  "group_text show_ver g = join_with '' '' (map (\<lambda>(op, ver). op @ '' '' @ show_ver ver) g)"

definition range_text :: "('v \<Rightarrow> string) \<Rightarrow> 'v comparison list list \<Rightarrow> string" where
  "range_text show_ver gs = join_with '' || '' (map (group_text show_ver) gs)"

definition more_words :: "(bool \<times> string \<times> string \<times> 'v) list \<Rightarrow> string list" where
  "more_words xs = concat (map (\<lambda>(alt, op, v, _). [if alt then ''||'' else ''&&'', op, v]) xs)"

definition os_when :: "string \<Rightarrow> string \<Rightarrow> string \<Rightarrow> (bool \<times> string \<times> string \<times> 'v) list \<Rightarrow> string" where
  "os_when platform op v xs = sentence (platform # op # v # more_words xs)"

lemma range_text_more:
  "g \<noteq> [] \<Longrightarrow> range_text s (gs @ [g @ [(op, ver)]]) = range_text s (gs @ [g]) @ '' '' @ op @ '' '' @ s ver"
  "range_text s (gs @ [g] @ [[(op, ver)]]) = range_text s (gs @ [g]) @ '' || '' @ op @ '' '' @ s ver"
  by (simp_all add: range_text_def group_text_def join_with_snoc join_with_last
      join_with_snoc [of "_ @ [_]", simplified])

lemma more_ranges_text:
  assumes "\<forall>(alt, op, v, ver)\<in>set xs. sv_tolerant L (fix_version v) = Ok ver" and "g \<noteq> []"
  shows "more_ranges L (more_words xs) (range_text (sv_show L) (gs @ [g])) =
    Ok (range_text (sv_show L) (gs @ alternatives g xs))"
  using assms
proof (induction xs arbitrary: g gs)
  case (Cons x xs)
  obtain alt op v ver where x: "x = (alt, op, v, ver)" by (cases x)
  from Cons.prems x have v: "expected_version L v = Ok ver" by (simp add: expected_version_def)
  show ?case
  proof (cases alt)
    case True
    from Cons.IH [of "[(op, ver)]" "gs @ [g]"] Cons.prems
    show ?thesis by (simp add: x v True more_words_def range_text_more [simplified])
  next
    case False
    from Cons.IH [of "g @ [(op, ver)]" gs] Cons.prems
    show ?thesis by (simp add: x v False more_words_def range_text_more)
  qed
qed (simp add: more_words_def)

lemma length_more_words: "length (more_words xs) = 3 * length xs"
  by (induction xs) (auto simp: more_words_def)

lemma set_more_words:
  "set (more_words xs) \<subseteq> {''||'', ''&&''} \<union> (\<Union>(alt, op, v, ver)\<in>set xs. {op, v})"
  by (induction xs) (auto simp: more_words_def)

lemma compare_host_os_rendered:
  assumes words: "\<forall>w\<in>{platform, op, v}. CHR '' '' \<notin> set w" "\<forall>(alt, op, v, ver)\<in>set xs. CHR '' '' \<notin> set op \<union> set v"
    and versions: "sv_tolerant L (fix_version v) = Ok ver"
      "\<forall>(alt, op, v, ver)\<in>set xs. sv_tolerant L (fix_version v) = Ok ver"
    and range: "sv_range L (range_text (sv_show L) (alternatives [(op, ver)] xs)) = Ok in_range"
  shows "compare_host_os L (os_when platform op v xs) os =
    bind_res (if platform = ''kernelVersion'' then version_in L in_range (os_kernel_version os) else Ok False)
      (\<lambda>m. if m then Ok True else platform_in L in_range os platform)"
proof -
  have blank: "\<forall>w\<in>set (platform # op # v # more_words xs). CHR '' '' \<notin> set w"
    using set_more_words [of xs] words by fastforce
  have "split_on (CHR '' '') (os_when platform op v xs) = platform # op # v # more_words xs"
    unfolding os_when_def by (rule split_sentence [OF _ blank]) simp
  moreover have "more_ranges L (more_words xs) (op @ '' '' @ sv_show L ver) =
      Ok (range_text (sv_show L) (alternatives [(op, ver)] xs))"
    using more_ranges_text [OF versions(2), of "[(op, ver)]" "[]"] by (simp add: range_text_def group_text_def)
  ultimately show ?thesis
    using range versions(1) by (simp add: compare_host_os_def length_more_words expected_version_def)
qed


subsection \<open>Kernel configuration\<close>

definition config_present :: "(string \<times> string) list \<Rightarrow> string \<Rightarrow> bool" where
  "config_present configs c \<longleftrightarrow>
     (\<exists>key vals v. parse_config c = Some (key, vals) \<and> map_of configs key = Some v \<and> contains_sub v vals)"

lemma configs_not_found_eq:
  "configs_not_found configs cs = Ok missing \<longleftrightarrow>
     (\<forall>c\<in>set cs. parse_config c \<noteq> None) \<and> missing = filter (\<lambda>c. \<not> config_present configs c) cs"
proof (induction cs arbitrary: missing)
  case (Cons c cs)
  show ?case
    using Cons.IH by (cases "map_of configs (fst (the (parse_config c)))")
      (auto simp: config_present_def res_simps split: option.split)
qed auto

lemma config_results_shape:
  assumes "r \<in> set (config_results r0 missing os)" and "undecided r0"
  shows "is_verdict r \<and> title r = title r0 \<and> (is_pass r \<longleftrightarrow> missing = [])"
  using assms
  by (induction os)
    (auto simp: config_result_def is_verdict_def undecided_def split: option.splits list.splits)

lemma config_results_length: "length (config_results r0 missing os) \<le> 1"
  by (induction os) (auto split: option.split)

lemma config_results_Nil:
  "config_results r0 missing os = [] \<longleftrightarrow> (\<forall>o'\<in>set os. (if missing = [] then o_pass o' else o_fail o') = None)"
  by (induction os) (auto simp: config_result_def split: option.splits list.splits)

subsection \<open>Details of packages\<close>

text \<open>The entry a line of the details stands for.\<close>

definition detail_entry :: "string \<Rightarrow> (string \<times> string) option" where
  "detail_entry line =
     (let key = takeWhile (\<lambda>c. c \<noteq> CHR '':'') line; val = trim_space (drop (length key + 1) line);
          key' = replace_all ''-'' [] (replace_all '' '' [] key)
      in if CHR '':'' \<in> set line \<and> key \<noteq> [] \<and> is_upper (hd key) \<and> key' \<noteq> [] \<and> val \<noteq> [] then Some (key', val) else None)"

lemma map_of_set_key [simp]: "map_of (set_key k v m) = (map_of m)(k \<mapsto> v)"
proof
  fix x
  show "map_of (set_key k v m) x = ((map_of m)(k \<mapsto> v)) x"
    by (simp add: set_key_def) (induction m; auto)
qed

lemma detail_line_panic: "is_panic (detail_line l m) \<longleftrightarrow> l \<noteq> [] \<and> hd l = CHR '':''"
  by (cases l) (auto simp: detail_line_def Let_def)

lemma upper_no_space: "is_upper c \<Longrightarrow> \<not> is_space c"
  by (auto simp: is_upper_def is_space_def)

lemma detail_line_Ok:
  assumes "\<not> is_panic (detail_line l m)"
  shows "detail_line l m = Ok (case detail_entry l of None \<Rightarrow> m | Some (k, v) \<Rightarrow> set_key k v m)"
  using assms upper_no_space by (auto simp: detail_line_def detail_entry_def Let_def)

lemma detail_lines_panic: "is_panic (detail_lines ls m) \<longleftrightarrow> (\<exists>l\<in>set ls. l \<noteq> [] \<and> hd l = CHR '':'')"
proof (induction ls arbitrary: m)
  case (Cons l ls)
  show ?case
  proof (cases "is_panic (detail_line l m)")
    case True
    then show ?thesis using detail_line_panic [of l m] by (cases "detail_line l m") auto
  next
    case False
    then show ?thesis using Cons.IH detail_line_panic [of l m] by (auto simp: detail_line_Ok)
  qed
qed simp

lemma detail_lines_Ok:
  assumes "\<forall>l\<in>set ls. \<not> (l \<noteq> [] \<and> hd l = CHR '':'')"
  shows "\<exists>m'. detail_lines ls m = Ok m' \<and> map_of m' = map_of m ++ map_of (rev (List.map_filter detail_entry ls))"
  using assms
proof (induction ls arbitrary: m)
  case (Cons l ls)
  then have "\<not> is_panic (detail_line l m)" by (simp add: detail_line_panic)
  from detail_line_Ok [OF this] Cons.IH [of "case detail_entry l of None \<Rightarrow> m | Some (k, v) \<Rightarrow> set_key k v m"] Cons.prems
  show ?case by (auto simp: List.map_filter_simps map_add_assoc split: option.split)
qed (simp add: List.map_filter_simps)

lemma fold_set_key: "map_of (fold (\<lambda>(k, v). set_key k (f v)) kvs m) = map_of m ++ map_of (rev (map (\<lambda>(k, v). (k, f v)) kvs))"
  by (induction kvs arbitrary: m) auto


subsection \<open>The walks over outcomes\<close>

interpretation http_walk: outcome_loop
  "http_outcomes check r" "\<lambda>o'. map_res (map_option (\<lambda>x. [x])) (when_step check (\<lambda>_ so. ''failed to compare '' @ so_when so) r o')"
  "Ok [r]" for check r
proof
  show "http_outcomes check r [] = Ok [r]" by simp
  show "http_outcomes check r (x # xs) =
      bind_res (map_res (map_option (\<lambda>x. [x])) (when_step check (\<lambda>_ so. ''failed to compare '' @ so_when so) r x))
        (\<lambda>d. case d of None \<Rightarrow> http_outcomes check r xs | Some r \<Rightarrow> Ok r)" for x xs
    by (cases "when_step check (\<lambda>_ so. ''failed to compare '' @ so_when so) r x") (auto split: option.split)
qed

interpretation package_walk: outcome_loop
  "package_loop render m t" "\<lambda>o'. map_res (map_option (\<lambda>x. [x])) (package_step render m t o')" "Ok []" for render m t
proof
  show "package_loop render m t [] = Ok []" by simp
  show "package_loop render m t (x # xs) =
      bind_res (map_res (map_option (\<lambda>x. [x])) (package_step render m t x))
        (\<lambda>d. case d of None \<Rightarrow> package_loop render m t xs | Some r \<Rightarrow> Ok r)" for x xs
    by (cases "package_step render m t x") (auto split: option.split)
qed

definition fs_perf_step where
  "fs_perf_step parse_duration render perf t o' =
     (case select_outcome o' of
        None \<Rightarrow> Fail (Err ''unexpected outcome'')
      | Some (sev, so) \<Rightarrow>
          if so_when so = [] then Ok (Some [fs_perf_conclude render perf t sev so])
          else map_res (\<lambda>m. if m then Some [fs_perf_conclude render perf t sev so] else None)
            (wrap_res (''failed to compare '' @ quoted (so_when so))
               (compare_host_filesystem_performance parse_duration perf (so_when so))))"

interpretation fs_perf_walk: outcome_loop
  "fs_perf_outcomes parse_duration render perf t" "fs_perf_step parse_duration render perf t" "Ok [new_result t]"
  for parse_duration render perf t
proof
  show "fs_perf_outcomes parse_duration render perf t [] = Ok [new_result t]" by simp
  show "fs_perf_outcomes parse_duration render perf t (x # xs) =
      bind_res (fs_perf_step parse_duration render perf t x)
        (\<lambda>d. case d of None \<Rightarrow> fs_perf_outcomes parse_duration render perf t xs | Some r \<Rightarrow> Ok r)" for x xs
    by (cases "select_outcome x"; simp add: fs_perf_step_def split_beta;
        cases "compare_host_filesystem_performance parse_duration perf (so_when (snd (the (select_outcome x))))"; simp)
qed

lemma package_step_verdict: "package_step render m t o' = Ok (Some r) \<Longrightarrow> is_verdict r \<and> title r = t"
  by (auto simp: package_step_def res_simps conclude_verdict split: option.splits if_splits)

lemma package_loop_verdicts:
  "package_loop render m t os = Ok rs \<Longrightarrow> length rs \<le> 1 \<and> (\<forall>r\<in>set rs. is_verdict r \<and> title r = t)"
  by (erule package_walk.loop_holds [rotated 2]) (auto simp: map_res_option_Some_iff dest: package_step_verdict)

lemma package_results_verdicts:
  "package_results render info t os ps = Ok rs \<Longrightarrow>
   length rs \<le> length ps \<and> (\<forall>r\<in>set rs. is_verdict r \<and> title r = t)"
  by (induction ps arbitrary: rs) (fastforce simp: res_simps dest: package_loop_verdicts)+

subsection \<open>Conditions on latencies\<close>

definition fs_perf_check ::
  "(string \<Rightarrow> int res) \<Rightarrow> ('f \<Rightarrow> int) \<Rightarrow> string \<Rightarrow> 'f fio_latency \<Rightarrow> bool res" where
  "fs_perf_check parse_duration round_mean w l = compare_host_filesystem_performance parse_duration (FSPerfResults round_mean l) w"

definition fs_perf_measured :: "('f \<Rightarrow> int) \<Rightarrow> string \<Rightarrow> 'f fio_latency \<Rightarrow> int" where
  "fs_perf_measured round_mean k l = the (map_of (FSPerfResults round_mean l) k)"

definition fs_perf_readable :: "(string \<Rightarrow> int res) \<Rightarrow> (int \<Rightarrow> string) \<Rightarrow> string \<Rightarrow> int \<Rightarrow> bool" where
  "fs_perf_readable parse_duration show_duration k v \<longleftrightarrow>
     parse_duration (show_duration v) = Ok v \<and> CHR '' '' \<notin> set (show_duration v) \<and>
     k \<in> fst ` set zero_perf"

lemma fs_perf_keywords:
  assumes "k \<in> fst ` set zero_perf"
  shows "CHR '' '' \<notin> set k" and "to_lower k = k" and "\<exists>d. map_of (FSPerfResults round_mean l) k = Some d"
proof -
  have "\<forall>k\<in>fst ` set zero_perf. CHR '' '' \<notin> set k \<and> to_lower k = k" by code_simp
  with assms show "CHR '' '' \<notin> set k" "to_lower k = k" by auto
  have "fst ` set (FSPerfResults round_mean l) = fst ` set zero_perf" by (simp add: FSPerfResults_def zero_perf_def)
  with assms show "\<exists>d. map_of (FSPerfResults round_mean l) k = Some d" by (metis map_of_eq_None_iff not_Some_eq)
qed

lemma fs_perf_rendered:
  assumes "fs_perf_readable parse_duration show_duration k v" and "CHR '' '' \<notin> set cmp"
  shows "fs_perf_check parse_duration round_mean (sentence [k, cmp, show_duration v]) l =
    do_compare_host_filesystem_performance cmp (fs_perf_measured round_mean k l) v"
proof -
  from assms(1) have k: "k \<in> fst ` set zero_perf" by (simp add: fs_perf_readable_def)
  obtain d where d: "map_of (FSPerfResults round_mean l) k = Some d" using fs_perf_keywords(3) [OF k] by blast
  have s: "split_on (CHR '' '') (sentence [k, cmp, show_duration v]) = [k, cmp, show_duration v]"
    by (rule split_sentence) (use assms fs_perf_keywords(1) [OF k] in \<open>auto simp: fs_perf_readable_def\<close>)
  then have "sentence [k, cmp, show_duration v] \<noteq> FILE_NOT_COLLECTED"
    using split_on_no_sep [of "CHR '' ''" FILE_NOT_COLLECTED] by (auto simp: FILE_NOT_COLLECTED_def)
  with s d assms(1) show ?thesis
    by (simp add: fs_perf_check_def compare_host_filesystem_performance_def fs_perf_readable_def
        fs_perf_keywords(2) [OF k] fs_perf_measured_def)
qed

interpretation fs_perf: when_language
  "fs_perf_check parse_duration round_mean" "\<lambda>cmp v. sentence [k, cmp, show_duration v]" "fs_perf_measured round_mean k"
  "fs_perf_readable parse_duration show_duration k"
  for parse_duration round_mean k show_duration
  by unfold_locales (auto simp: fs_perf_rendered do_compare_host_filesystem_performance_def)


section \<open>Properties\<close>

text \<open>
  What a condition on the operating system means. The words after the name are comparisons with versions, split into
  alternatives by \<^verbatim>\<open>||\<close> and joined by \<^verbatim>\<open>&&\<close>; with a library that reads the text of alternatives as documented, a
  condition that names the platform or its family holds when some alternative holds of the platform's version, one that
  names the kernel of this very platform and version, or just the kernel, when some alternative holds of the kernel's
  version, and one that names anything else is false and no error.
\<close>

theorem os_conditions_meaning:
  assumes words: "\<forall>w\<in>{platform, op, v}. CHR '' '' \<notin> set w" "\<forall>(alt, op, v, ver)\<in>set xs. CHR '' '' \<notin> set op \<union> set v"
    and versions: "sv_tolerant L (fix_version v) = Ok ver"
      "\<forall>(alt, op, v, ver)\<in>set xs. sv_tolerant L (fix_version v) = Ok ver"
    and range: "sv_range L (range_text (sv_show L) (alternatives [(op, ver)] xs)) =
      Ok (\<lambda>x. \<exists>g\<in>set (alternatives [(op, ver)] xs). \<forall>(op', w)\<in>set g. holds op' x w)"
    and host: "sv_tolerant L (fix_version (os_platform_version os)) = Ok pv"
      "sv_tolerant L (fix_version (os_kernel_version os)) = Ok kv"
    and names: "\<not> names_kernel (os_platform os)" "\<not> names_kernel (os_platform_family os)"
      "''kernelVersion'' \<notin> {os_platform os, os_platform_family os}"
  shows "compare_host_os L (os_when platform op v xs) os =
    Ok ((if platform \<in> {os_platform os, os_platform_family os}
         then \<exists>g\<in>set (alternatives [(op, ver)] xs). \<forall>(op', w)\<in>set g. holds op' pv w
         else (platform = ''kernelVersion'' \<or>
               names_kernel platform \<and> platform = os_platform os @ ''-'' @ os_platform_version os @ ''-kernel'') \<and>
              (\<exists>g\<in>set (alternatives [(op, ver)] xs). \<forall>(op', w)\<in>set g. holds op' kv w)))"
proof -
  have k: "\<not> names_kernel ''kernelVersion''" by code_simp
  show ?thesis
    unfolding compare_host_os_rendered [OF words versions range] using host names k
    by (auto simp: version_in_def platform_in_def)
qed

theorem os_conditions_meaning_witness:
  "\<exists>L :: nat semver_libs. compare_host_os L ''ubuntu == 20.04 || >= 22'' \<lparr>os_platform = ''ubuntu'', os_platform_family = ''debian'',
     os_platform_version = ''24.04'', os_kernel_version = ''6.8''\<rparr> = Ok True"
proof -
  let ?xs = "[(True, ''>='', ''22'', 2200)] :: (bool \<times> string \<times> string \<times> nat) list"
  let ?holds = "\<lambda>op (x::nat) w. if op = ''=='' then x = w else w \<le> x"
  let ?L = "\<lparr>sv_tolerant = (\<lambda>s. if s = ''20.4'' then Ok 2004 else if s = ''22'' then Ok 2200 else if s = ''24.4'' then Ok 2404
       else Ok 0), sv_show = (\<lambda>n. show_nat n),
     sv_range = (\<lambda>_. Ok (\<lambda>x. \<exists>g\<in>set (alternatives [(''=='', 2004)] ?xs). \<forall>(op', w)\<in>set g. ?holds op' x w))\<rparr>"
  let ?os = "\<lparr>os_platform = ''ubuntu'', os_platform_family = ''debian'', os_platform_version = ''24.04'',
     os_kernel_version = ''6.8''\<rparr>"
  have v: "fix_version ''20.04'' = ''20.4''" "fix_version ''22'' = ''22''" "fix_version ''24.04'' = ''24.4''"
    "fix_version ''6.8'' = ''6.8''" by code_simp+
  have n: "\<not> names_kernel ''ubuntu''" "\<not> names_kernel ''debian''" by code_simp+
  have w: "os_when ''ubuntu'' ''=='' ''20.04'' ?xs = ''ubuntu == 20.04 || >= 22''" by code_simp
  have "compare_host_os ?L (os_when ''ubuntu'' ''=='' ''20.04'' ?xs) ?os = Ok True"
    by (subst os_conditions_meaning [where holds = ?holds and ver = 2004 and pv = 2404 and kv = 0])
      (simp_all add: v n)
  then show ?thesis unfolding w by blast
qed

text \<open>
  The analyzer of kernel configurations is an error for a selected text that is no configuration; otherwise it gives
  at most one result, which is a pass exactly when all selected configurations were collected with a permitted value, and
  it gives none exactly when no outcome has the branch that is needed.
\<close>

theorem kernel_configs_meaning:
  assumes "unmarshal data = Ok configs"
  shows "case analyze_kernel_configs unmarshal selected is_strict outcomes data t of
      Ok rs \<Rightarrow>
        (\<forall>c\<in>set selected. parse_config c \<noteq> None) \<and> length rs \<le> 1 \<and>
        (\<forall>r\<in>set rs. is_verdict r \<and> title r = t \<and> (is_pass r \<longleftrightarrow> (\<forall>c\<in>set selected. config_present configs c))) \<and>
        (rs = [] \<longleftrightarrow> (\<forall>o'\<in>set outcomes.
           (if \<forall>c\<in>set selected. config_present configs c then o_pass o' else o_fail o') = None))
    | Fail _ \<Rightarrow> \<exists>c\<in>set selected. parse_config c = None
    | Panic _ \<Rightarrow> False"
proof (cases "\<forall>c\<in>set selected. parse_config c \<noteq> None")
  case True
  define missing where "missing = filter (\<lambda>c. \<not> config_present configs c) selected"
  have m: "configs_not_found configs selected = Ok missing"
    using True by (simp add: configs_not_found_eq missing_def)
  have Nil: "missing = [] \<longleftrightarrow> (\<forall>c\<in>set selected. config_present configs c)"
    by (simp add: missing_def filter_empty_conv)
  have u: "undecided ((new_result t)\<lparr>strict := is_strict\<rparr>)" by (simp add: undecided_def new_result_def)
  show ?thesis
    using assms True config_results_shape [OF _ u] config_results_length
    by (auto simp: analyze_kernel_configs_def m config_results_Nil simp flip: Nil)
next
  case False
  have no_panic: "\<not> is_panic (configs_not_found configs cs)" for cs
    by (induction cs) (auto split: option.split)
 from False obtain c where c: "c \<in> set selected" "parse_config c = None" by blast
  have "configs_not_found configs selected \<noteq> Ok missing" for missing
    using c by (simp only: configs_not_found_eq) blast
  then obtain e where "configs_not_found configs selected = Fail e"
    using no_panic [of selected] by (cases "configs_not_found configs selected") auto
  with assms c show ?thesis by (auto simp: analyze_kernel_configs_def)
qed

theorem kernel_configs_meaning_witness:
  "parse_config ''CONFIG_NET=ym'' = Some (''CONFIG_NET'', ''ym'') \<and>
   (case analyze_kernel_configs (\<lambda>_. Ok [(''CONFIG_NET'', ''n'')]) [''CONFIG_NET=ym''] True [] [] ''t'' of
      Ok rs \<Rightarrow> length rs \<le> 1 | _ \<Rightarrow> True)"
proof -
  have "parse_config ''CONFIG_NET=ym'' = Some (''CONFIG_NET'', ''ym'')" by code_simp
  with kernel_configs_meaning [where unmarshal = "\<lambda>_. Ok [(''CONFIG_NET'', ''n'')]" and data = "[]" and t = "''t''" and
    selected = "[''CONFIG_NET=ym'']" and is_strict = True and outcomes = "[]", OF refl]
  show ?thesis by (auto split: res.splits)
qed

text \<open>
  The details of a package panic exactly when one of their lines starts with a colon. Otherwise every key is bound to
  the value of the last line that has it: a line counts when it has a colon, a key that starts with a capital letter and
  is more than blanks and dashes, and a value that is not blank.
\<close>

theorem package_details_meaning:
  assumes "ls = fst (scan_lines MaxScanTokenSize (sp_details p))"
  shows "(is_panic (get_system_package_details_map p) \<longleftrightarrow> (\<exists>l\<in>set ls. l \<noteq> [] \<and> hd l = CHR '':'')) \<and>
    (is_panic (get_system_package_details_map p) \<or>
     (\<exists>m. get_system_package_details_map p = Ok m \<and> map_of m = map_of (rev (List.map_filter detail_entry ls))))"
  using detail_lines_panic [of ls "[]"] detail_lines_Ok [of ls "[]"]
  by (auto simp: get_system_package_details_map_def assms [symmetric])

theorem package_details_meaning_witness:
  "is_panic (get_system_package_details_map
     \<lparr>sp_name = ''a'', sp_details = '': x'', sp_error = [], sp_exit_code = ''0''\<rparr>)"
proof -
  have ls: "fst (scan_lines MaxScanTokenSize '': x'') = ['': x'']"
    by (simp add: scan_lines_def raw_segments_def Let_def MaxScanTokenSize_def drop_cr_def)
  show ?thesis
    unfolding conjunct1 [OF package_details_meaning [OF refl]] system_package.select_convs ls by simp
qed

end
