(* ===== verification/Cluster_Reports.thy ===== *)
theory Cluster_Reports
  imports Analysis Regex "HOL-Library.AList"
begin

text \<open>
  Analyzers of reports that a component of the cluster wrote about itself: pings between pods (\<^verbatim>\<open>goldpinger.go\<close>),
  the Weave network (\<^verbatim>\<open>weave.go\<close>), Ceph (\<^verbatim>\<open>ceph.go\<close>), Longhorn (\<^verbatim>\<open>longhorn.go\<close>, with \<^verbatim>\<open>ParseReplicaChecksum\<close> of its
  collector) and certificates (\<^verbatim>\<open>certificates.go\<close>). Decoders, the two computations in floats (\<open>low_usage\<close>: fewer than 85
  percent, \<open>show_usage\<close>: a percentage with one digit) and the clock are parameters; maps are listed in the order they
  are ranged over.
\<close>

section \<open>Pings between pods\<close>

record ping_result =
  ping_ok :: bool
  ping_error :: string

type_synonym ping_responses = "(string \<times> (string \<times> ping_result) list) list"

definition ping_verdict :: "bool \<Rightarrow> severity \<Rightarrow> string \<Rightarrow> string \<Rightarrow> analyze_result" where
  "ping_verdict is_strict sev t msg =
     (set_severity sev (new_result t))\<lparr>icon_key := ''kubernetes'', strict := is_strict, message := msg\<rparr>"

definition ping_issue :: "bool \<Rightarrow> string \<Rightarrow> string \<times> (string \<times> ping_result) list \<Rightarrow> analyze_result option" where
  "ping_issue is_strict target resp =
     (case map_of (snd resp) target of
        None \<Rightarrow> Some (ping_verdict is_strict SWarn (''Missing ping results for '' @ quoted target @ '' pod'')
            (''Ping result for '' @ quoted target @ '' pod from '' @ quoted (fst resp) @ '' pod is missing''))
      | Some p \<Rightarrow>
          if ping_ok p then None
          else Some (ping_verdict is_strict SFail
            (''Ping from '' @ quoted (fst resp) @ '' pod to '' @ quoted target @ '' pod failed'')
            (''Ping error: '' @ ping_error p)))"

fun ping_issues :: "bool \<Rightarrow> string \<Rightarrow> ping_responses \<Rightarrow> analyze_result list" where
  "ping_issues is_strict target [] = []"
| "ping_issues is_strict target (resp # rs) =
     (case ping_issue is_strict target resp of
        None \<Rightarrow> ping_issues is_strict target rs
      | Some r \<Rightarrow> r # ping_issues is_strict target rs)"

definition pings_passed :: "bool \<Rightarrow> string \<Rightarrow> analyze_result" where
  "pings_passed is_strict target =
     ping_verdict is_strict SPass (''Pings to '' @ quoted target @ '' pod succeeded'')
       (''Pings to '' @ quoted target @ '' pod from all other pods in the cluster succeeded'')"

definition host_pings :: "bool \<Rightarrow> ping_responses \<Rightarrow> string \<Rightarrow> analyze_result list" where
  "host_pings is_strict responses target =
     (let issues = ping_issues is_strict target responses
      in if issues = [] then [pings_passed is_strict target] else issues)"

definition pod_pings_analysis :: "bool \<Rightarrow> ping_responses \<Rightarrow> string list \<Rightarrow> analyze_result list" where
  "pod_pings_analysis is_strict responses hosts = concat (map (host_pings is_strict responses) hosts)"

definition goldpinger_Analyze ::
  "(string \<Rightarrow> (string list \<times> ping_responses) res) \<Rightarrow> get_file \<Rightarrow> string \<Rightarrow> bool_or_string option \<Rightarrow> analyze_result list res" where
  "goldpinger_Analyze unmarshal get file_path strict_flag =
     (let path = (if file_path \<noteq> [] then file_path else ''goldpinger/check_all.json'')
      in bind_res (wrap_res (''failed to read collected file path: '' @ quoted path) (get path)) (\<lambda>collected.
           map_res (\<lambda>(hosts, responses). pod_pings_analysis (bool_or_default_false strict_flag) responses hosts)
             (wrap_res ''failed to unmarshal collected goldpinger output'' (unmarshal collected))))"

section \<open>Weave\<close>

record weave_connection =
  wc_state :: string
  wc_info :: string
  wc_name :: string

record weave_report =
  wr_nick_name :: string
  wr_connections :: "weave_connection list"
  wr_range_ips :: int
  wr_active_ips :: int
  wr_pending :: "string list"

definition weave_warning :: "string \<Rightarrow> string \<Rightarrow> analyze_result" where
  "weave_warning t msg = (new_result t)\<lparr>is_warn := True, message := msg\<rparr>"

definition analyze_weave_ipam_pool :: "(int \<Rightarrow> int \<Rightarrow> bool) \<Rightarrow> weave_report \<Rightarrow> analyze_result option" where
  "analyze_weave_ipam_pool low_usage r =
     (if wr_range_ips r = 0 then None
      else if low_usage (wr_active_ips r) (wr_range_ips r) then None
      else Some (weave_warning ''Available Pod IPs''
        (show_int (wr_active_ips r) @ '' of '' @ show_int (wr_range_ips r) @ '' total available IPs have been assigned'')))"

text \<open>The loops that return the first result there is.\<close>

fun first_result :: "('a \<Rightarrow> analyze_result option) \<Rightarrow> 'a list \<Rightarrow> analyze_result option" where
  "first_result f [] = None"
| "first_result f (x # xs) = (case f x of Some r \<Rightarrow> Some r | None \<Rightarrow> first_result f xs)"

definition analyze_weave_ipam_pools where
  "analyze_weave_ipam_pools low_usage reports = first_result (\<lambda>(_, r). analyze_weave_ipam_pool low_usage r) reports"

definition analyze_weave_pending_allocation :: "(string \<times> weave_report) list \<Rightarrow> analyze_result option" where
  "analyze_weave_pending_allocation reports =
     first_result (\<lambda>(_, r). if wr_pending r \<noteq> []
       then Some (weave_warning ''Pending IP Allocation'' ''Waiting for IPs to become available'') else None) reports"

text \<open>\<^verbatim>\<open>\(([^)]+)\)$\<close>\<close>

definition weave_connection_info_peer_regex :: regexp where
  "weave_connection_info_peer_regex =
     \<lparr>rx_prog = rx_seq [lit ''('', Grp 1 (plus_of (not_in '')'')), lit '')'', EndText], subexp_names = [[], []]\<rparr>"

definition parse_weave_connection_info_hostname :: "string \<Rightarrow> string" where
  "parse_weave_connection_info_hostname info =
     (case find_submatch weave_connection_info_peer_regex info of Some [_, peer] \<Rightarrow> peer | _ \<Rightarrow> [])"

definition weave_connection_issue :: "string \<Rightarrow> weave_connection \<Rightarrow> analyze_result option" where
  "weave_connection_issue host c =
     (let peer = parse_weave_connection_info_hostname (wc_info c);
          peer = (if peer = [] then ''peer'' else peer)
      in if has_prefix ''cannot connect to ourself'' (wc_info c) then None
         else if wc_state c \<noteq> ''established''
         then Some (weave_warning ''Weave Inter-Node Connections''
                (''Connection from '' @ host @ '' to '' @ peer @ '' is '' @ wc_state c))
         else if wc_name c \<noteq> [] \<and> wc_name c \<noteq> ''fastdp''
         then Some (weave_warning ''Weave Inter-Node Connections''
                (''Connection from '' @ host @ '' to '' @ peer @ '' protocol is '' @ quoted (wc_name c) @ '', not fastdp''))
         else None)"

definition analyze_weave_connections :: "(string \<times> weave_report) list \<Rightarrow> analyze_result option" where
  "analyze_weave_connections reports =
     first_result (\<lambda>(host, r). first_result (weave_connection_issue host) (wr_connections r)) reports"

text \<open>Reports by the name of their host: a later report replaces one of the same host.\<close>

fun weave_reports :: "(string \<Rightarrow> weave_report res) \<Rightarrow> (string \<times> string) list \<Rightarrow> (string \<times> weave_report) list \<Rightarrow>
   (string \<times> weave_report) list res" where
  "weave_reports unmarshal [] reports = Ok reports"
| "weave_reports unmarshal ((name, file) # files) reports =
     bind_res (wrap_res (''failed to unmarshal weave report json from '' @ name) (unmarshal file)) (\<lambda>r.
       weave_reports unmarshal files (AList.update (wr_nick_name r) r reports))"

definition weave_results :: "(int \<Rightarrow> int \<Rightarrow> bool) \<Rightarrow> (string \<times> weave_report) list \<Rightarrow> analyze_result list" where
  "weave_results low_usage reports =
     (let rs = List.map_filter id [analyze_weave_ipam_pools low_usage reports,
                 analyze_weave_pending_allocation reports, analyze_weave_connections reports]
      in if rs = []
         then [(new_result ''Weave Report'')\<lparr>is_pass := True, message := ''No issues detected in weave report''\<rparr>]
         else rs)"

definition analyze_weave_report ::
  "(int \<Rightarrow> int \<Rightarrow> bool) \<Rightarrow> (string \<Rightarrow> weave_report res) \<Rightarrow> find_files \<Rightarrow> string \<Rightarrow> analyze_result list res" where
  "analyze_weave_report low_usage unmarshal find_f glob =
     bind_res (wrap_res (''failed to find weave report files in '' @ quoted glob) (find_f glob [])) (\<lambda>files.
       if files = [] then Ok []
       else map_res (weave_results low_usage) (weave_reports unmarshal files []))"

definition set_strict :: "bool_or_string option \<Rightarrow> analyze_result list res \<Rightarrow> analyze_result list res" where
  "set_strict strict_flag r = map_res (map (\<lambda>r. r\<lparr>strict := bool_or_default_false strict_flag\<rparr>)) r"

definition weave_report_Analyze where
  "weave_report_Analyze low_usage unmarshal find_f glob strict_flag =
     set_strict strict_flag (analyze_weave_report low_usage unmarshal find_f glob)"

section \<open>Ceph\<close>

abbreviation "CephHealthOK \<equiv> ''HEALTH_OK''"
abbreviation "CephHealthWarn \<equiv> ''HEALTH_WARN''"
abbreviation "CephHealthErr \<equiv> ''HEALTH_ERR''"

definition ceph_compare :: "string \<Rightarrow> string \<Rightarrow> int" where
  "ceph_compare a b =
     (if a = b then 0
      else if a = CephHealthOK then 1
      else if a = CephHealthWarn then (if b = CephHealthOK then -1 else 1)
      else if a = CephHealthErr then (if b = CephHealthOK \<or> b = CephHealthWarn then -1 else 1)
      else -1)"

definition compare_ceph_status :: "string \<Rightarrow> string \<Rightarrow> bool res" where
  "compare_ceph_status actual w =
     (case split_on (CHR '' '') (trim_space w) of
        [v] \<Rightarrow> Ok (trim_space v = actual)
      | [op, v] \<Rightarrow>
          (let c = ceph_compare actual (trim_space v); operator = trim_space op
           in if operator \<in> {''='', ''=='', ''===''} then Ok (c = 0)
              else if operator = ''<'' then Ok (c = -1)
              else if operator = ''>'' then Ok (c = 1)
              else if operator = ''<='' then Ok (c \<le> 0)
              else if operator = ''>='' then Ok (c \<ge> 0)
              else Fail (Err ''unknown operator''))
      | _ \<Rightarrow> Fail (Err ''unable to parse when range''))"

record ceph_status =
  health_status :: string
  health_checks :: "(string \<times> string) list"
  num_osd :: int
  num_up_osd :: int
  osd_full :: bool
  osd_near_full :: bool
  used_bytes :: u64
  total_bytes :: u64

definition detailed_ceph_message :: "(u64 \<Rightarrow> u64 \<Rightarrow> string) \<Rightarrow> string \<Rightarrow> ceph_status \<Rightarrow> string" where
  "detailed_ceph_message show_usage outcome_message s =
     join_with [newline]
       ((if outcome_message \<noteq> [] then [outcome_message] else []) @
        (if num_osd s > 0 then [show_int (num_up_osd s) @ ''/'' @ show_int (num_osd s) @ '' OSDs up''] else []) @
        (if osd_full s then [''OSD disk is full''] else if osd_near_full s then [''OSD disk is nearly full''] else []) @
        (if total_bytes s > 0 then [''PG storage usage is '' @ show_usage (used_bytes s) (total_bytes s)] else []) @
        map (\<lambda>(k, msg). k @ '': '' @ msg) (health_checks s))"

text \<open>Without a condition an outcome stands for the status of its kind.\<close>

definition ceph_default_when :: "severity \<Rightarrow> string" where
  "ceph_default_when sev = (case sev of SFail \<Rightarrow> CephHealthErr | SWarn \<Rightarrow> CephHealthWarn | SPass \<Rightarrow> CephHealthOK)"

definition ceph_step :: "(u64 \<Rightarrow> u64 \<Rightarrow> string) \<Rightarrow> ceph_status \<Rightarrow> analyze_result \<Rightarrow> outcome \<Rightarrow> analyze_result option res" where
  "ceph_step show_usage s r o' =
     (case select_outcome o' of
        None \<Rightarrow> Ok None
      | Some (sev, so) \<Rightarrow>
          map_res (\<lambda>m. if m
              then Some ((conclude sev so r)\<lparr>message :=
                     if sev = SPass then so_message so else detailed_ceph_message show_usage (so_message so) s\<rparr>)
              else None)
            (wrap_res ''failed to compare ceph status''
               (compare_ceph_status (health_status s) (if so_when so = [] then ceph_default_when sev else so_when so))))"

fun ceph_loop :: "(u64 \<Rightarrow> u64 \<Rightarrow> string) \<Rightarrow> ceph_status \<Rightarrow> analyze_result \<Rightarrow> outcome list \<Rightarrow> analyze_result res" where
  "ceph_loop show_usage s r [] = Ok r"
| "ceph_loop show_usage s r (o' # os) =
     bind_res (ceph_step show_usage s r o') (\<lambda>d. case d of None \<Rightarrow> ceph_loop show_usage s r os | Some r' \<Rightarrow> Ok r')"

definition ceph_uri :: string where
  "ceph_uri = ''https://rook.io/docs/rook/v1.4/ceph-common-issues.html''"

definition CephStatusDefaultOutcomes :: "outcome list" where
  "CephStatusDefaultOutcomes =
     [\<lparr>o_fail = None, o_warn = None, o_pass = Some \<lparr>so_when = [], so_message = ''Ceph is healthy'', so_uri = []\<rparr>\<rparr>,
      \<lparr>o_fail = None, o_warn = Some \<lparr>so_when = [], so_message = ''Ceph status is HEALTH_WARN'', so_uri = ceph_uri\<rparr>, o_pass = None\<rparr>,
      \<lparr>o_fail = Some \<lparr>so_when = [], so_message = ''Ceph status is HEALTH_ERR'', so_uri = ceph_uri\<rparr>, o_warn = None, o_pass = None\<rparr>]"

definition get_ceph_collector_filepath :: "string \<Rightarrow> string \<Rightarrow> string" where
  "get_ceph_collector_filepath name namespace =
     path_join ((if name \<noteq> [] then [name] else []) @
       (if namespace \<noteq> [] \<and> namespace \<noteq> ''rook-ceph'' then [namespace] else []) @ [''ceph''])"

text \<open>A status that was not collected is the nil result, which the method puts into its slice.\<close>

definition ceph_status_result ::
  "(u64 \<Rightarrow> u64 \<Rightarrow> string) \<Rightarrow> (string \<Rightarrow> ceph_status res) \<Rightarrow> get_file \<Rightarrow> string \<Rightarrow> string \<Rightarrow> string \<Rightarrow> outcome list \<Rightarrow>
   analyze_result option res" where
  "ceph_status_result show_usage unmarshal get check_name collector_name namespace outcomes =
     (case get (path_join [get_ceph_collector_filepath collector_name namespace, ''status.json'']) of
        Panic m \<Rightarrow> Panic m
      | Fail (NotFound _) \<Rightarrow> Ok None
      | Fail e \<Rightarrow> Fail (Wrap ''failed to read collected ceph status'' e)
      | Ok collected \<Rightarrow>
          bind_res (wrap_res ''failed to unmarshal status.json'' (unmarshal collected)) (\<lambda>s.
            map_res Some (ceph_loop show_usage s
              (icon_result (if check_name = [] then ''Ceph Status'' else check_name) ''rook''
                 ''https://troubleshoot.sh/images/analyzer-icons/rook.svg?w=11&h=16'')
              (if outcomes = [] then CephStatusDefaultOutcomes else outcomes))))"

definition ceph_status_Analyze where
  "ceph_status_Analyze show_usage unmarshal get check_name collector_name namespace strict_flag outcomes =
     map_res (\<lambda>r. [map_option (\<lambda>r. r\<lparr>strict := bool_or_default_false strict_flag\<rparr>) r])
       (ceph_status_result show_usage unmarshal get check_name collector_name namespace outcomes)"


section \<open>Longhorn\<close>

record longhorn_node =
  lh_node_name :: string
  lh_conditions :: "(string \<times> string) list"

text \<open>Replicas and engines have a desired and a current state; only replicas fail.\<close>

record longhorn_instance =
  lh_name :: string
  lh_failed_at :: string
  lh_desired :: string
  lh_current :: string

record longhorn_volume =
  lh_volume_name :: string
  lh_replicas :: int

definition flagged :: "severity \<Rightarrow> string \<Rightarrow> string \<Rightarrow> analyze_result" where
  "flagged sev t msg = (set_severity sev (new_result t))\<lparr>message := msg\<rparr>"

definition analyze_longhorn_node_schedulable :: "longhorn_node \<Rightarrow> analyze_result" where
  "analyze_longhorn_node_schedulable n =
     (let t = ''Longhorn Node Schedulable: '' @ lh_node_name n; st = map_of (lh_conditions n) ''Schedulable''
      in if st = Some ''False'' then flagged SWarn t ''Longhorn node is not schedulable''
         else if st = Some ''True'' then flagged SPass t ''Longhorn node is schedulable''
         else flagged SWarn t ''Node schedulable status not found'')"

definition analyze_longhorn_replica :: "longhorn_instance \<Rightarrow> analyze_result" where
  "analyze_longhorn_replica r =
     (let t = ''Longhorn Replica: '' @ lh_name r
      in if lh_failed_at r \<noteq> []
         then flagged SWarn t (''Longhorn replica '' @ lh_name r @ '' failed at '' @ lh_failed_at r)
         else if lh_desired r \<noteq> lh_current r
         then flagged SWarn t (''Longhorn replica '' @ lh_name r @ '' current status '' @ quoted (lh_current r) @
                '', should be '' @ quoted (lh_desired r))
         else flagged SPass t (''Replica is '' @ lh_current r))"

definition analyze_longhorn_engine :: "longhorn_instance \<Rightarrow> analyze_result" where
  "analyze_longhorn_engine e =
     (let t = ''Longhorn Engine: '' @ lh_name e
      in if lh_desired e \<noteq> lh_current e
         then flagged SWarn t (''Longhorn engine '' @ lh_name e @ '' current status '' @ quoted (lh_current e) @
                '', should be '' @ quoted (lh_desired e))
         else flagged SPass t (''Engine is '' @ lh_current e))"

text \<open>\<^verbatim>\<open>(\S+)\s+(\S+)\<close>\<close>

definition checksum_rx :: regexp where
  "checksum_rx =
     \<lparr>rx_prog = rx_seq [Grp 1 (plus_of (\<lambda>c. \<not> re_space c)), plus_of re_space, Grp 2 (plus_of (\<lambda>c. \<not> re_space c))],
      subexp_names = [[], [], []]\<rparr>"

definition checksum_line :: "(string \<times> string) list \<Rightarrow> string \<Rightarrow> (string \<times> string) list" where
  "checksum_line m line =
     (case find_submatch checksum_rx line of
        Some [_, checksum, name] \<Rightarrow> AList.update (path_base name) checksum m
      | _ \<Rightarrow> m)"

definition parse_replica_checksum :: "string \<Rightarrow> (string \<times> string) list res" where
  "parse_replica_checksum data =
     (case scan_lines MaxScanTokenSize data of
        (ls, too_long) \<Rightarrow>
          if too_long then Fail (LibErr ''bufio.Scanner: token too long'') else Ok (foldl checksum_line [] ls))"

text \<open>Maps of checksums have distinct keys and are equal when they hold the same pairs.\<close>

fun checksums_differ :: "(string \<times> string) list list \<Rightarrow> bool" where
  "checksums_differ (prior # checksum # cs) \<longleftrightarrow> set prior \<noteq> set checksum \<or> checksums_differ (checksum # cs)"
| "checksums_differ _ \<longleftrightarrow> False"

definition analyze_longhorn_replica_checksums :: "string \<Rightarrow> (string \<times> string) list list \<Rightarrow> analyze_result" where
  "analyze_longhorn_replica_checksums volume_name checksums =
     (let t = ''Longhorn Volume Replica Corruption: '' @ volume_name
      in if checksums_differ checksums then flagged SWarn t ''Replica corruption detected''
         else flagged SPass t ''No replica corruption detected'')"

definition volume_results :: "find_files \<Rightarrow> string \<Rightarrow> longhorn_volume \<Rightarrow> analyze_result list res" where
  "volume_results find_f volumes_dir v =
     (let glob = path_join [volumes_dir, lh_volume_name v, ''replicachecksums'', ''*'']
      in bind_res (wrap_res (''Failed to find longhorn replica checksums under '' @ glob) (find_f glob [])) (\<lambda>files.
         map_res (\<lambda>checksums.
             (if length checksums > 1 then [analyze_longhorn_replica_checksums (lh_volume_name v) checksums] else []) @
             (if lh_replicas v < 2
              then [flagged SWarn ''Longhorn volume with low replicas''
                      (''Longhorn volume '' @ lh_volume_name v @
                       '' has less than two replicas, this could lead to issues with volume availability'')]
              else []))
           (map_m (\<lambda>(key, txt). wrap_res (''Failed to parse '' @ key) (parse_replica_checksum txt)) files)))"

definition simplify_longhorn_results :: "analyze_result list \<Rightarrow> analyze_result list" where
  "simplify_longhorn_results rs =
     (let out = filter (\<lambda>r. \<not> is_pass r) rs
      in if list_ex is_pass rs \<and> out = []
         then [flagged SPass ''Longhorn Health Status'' ''Longhorn is healthy'']
         else out)"

record longhorn_libs =
  ll_node :: "string \<Rightarrow> longhorn_node res"
  ll_replica :: "string \<Rightarrow> longhorn_instance res"
  ll_engine :: "string \<Rightarrow> longhorn_instance res"
  ll_volume :: "string \<Rightarrow> longhorn_volume res"

definition longhorn_files :: "find_files \<Rightarrow> string \<Rightarrow> string \<Rightarrow> (string \<Rightarrow> 'a res) \<Rightarrow> string \<Rightarrow> string \<Rightarrow> 'a list res" where
  "longhorn_files find_f dir pattern decode missing broken =
     bind_res (wrap_res (missing @ dir) (find_f (path_join [dir, pattern]) []))
       (map_m (\<lambda>(key, y). wrap_res (broken @ key) (decode (strip_redacted_lines y))))"

definition longhorn :: "longhorn_libs \<Rightarrow> find_files \<Rightarrow> string \<Rightarrow> analyze_result list res" where
  "longhorn L find_f namespace =
     (let base = ''longhorn/'' @ (if namespace \<noteq> [] then namespace else ''longhorn-system'');
          volumes_dir = base @ ''/volumes''
      in bind_res (longhorn_files find_f (base @ ''/nodes'') ''*'' (ll_node L)
             ''failed to find longhorn nodes files under '' ''failed to unmarshal node yaml from '') (\<lambda>nodes.
         bind_res (longhorn_files find_f (base @ ''/replicas'') ''*'' (ll_replica L)
             ''failed to find longhorn replicas files under '' ''failed to unmarshal replica yaml from '') (\<lambda>replicas.
         bind_res (longhorn_files find_f (base @ ''/engines'') ''*'' (ll_engine L)
             ''failed to find longhorn engines files under '' ''failed to unmarshal engine yaml from '') (\<lambda>engines.
         bind_res (longhorn_files find_f volumes_dir ''*.yaml'' (ll_volume L)
             ''Failed to find longhorn volumes files under '' ''failed to unmarshal volume yaml from '') (\<lambda>volumes.
         map_res (\<lambda>vs. simplify_longhorn_results
               (map analyze_longhorn_node_schedulable nodes @ map analyze_longhorn_replica replicas @
                map analyze_longhorn_engine engines @ concat vs))
           (map_m (volume_results find_f volumes_dir) volumes))))))"

definition longhorn_Analyze where
  "longhorn_Analyze L find_f namespace strict_flag = set_strict strict_flag (longhorn L find_f namespace)"

section \<open>Certificates\<close>

record cert_source =
  cs_secret :: string
  cs_config_map :: string
  cs_namespace :: string

record 't parsed_certificate =
  cert_name :: string
  not_after :: 't
  cert_valid :: bool

record 't cert_collection =
  cc_source :: "cert_source option"
  cc_chain :: "'t parsed_certificate list"

definition source_text :: "cert_source \<Rightarrow> string" where
  "source_text s =
     (if cs_secret s \<noteq> []
      then ''obtained from '' @ cs_secret s @ '' secret within '' @ cs_namespace s @ '' namespace''
      else if cs_config_map s \<noteq> []
      then ''obtained from '' @ cs_config_map s @ '' configmap within '' @ cs_namespace s @ '' namespace''
      else [])"

text \<open>A warning before the end of a certificate, anywhere in the condition: \<^verbatim>\<open>notAfter < Today + 30 days\<close>.\<close>

definition warn_date :: regexp where
  "warn_date =
     \<lparr>rx_prog = rx_seq [lit ''notAfter < Today + '', Grp 1 (plus_of is_digit), lit '' days''], subexp_names = [[], []]\<rparr>"

type_synonym cert_state = "analyze_result list \<times> analyze_result list"

definition cert_outcome ::
  "(int \<Rightarrow> 't::linorder) \<Rightarrow> string \<Rightarrow> string \<Rightarrow> 't parsed_certificate \<Rightarrow> outcome \<Rightarrow> cert_state \<Rightarrow> cert_state res" where
  "cert_outcome target t source c o' st =
     (case (select_outcome o', st) of
        (None, _) \<Rightarrow> Fail (Err ''empty outcome'')
      | (Some (sev, so), (passes, out)) \<Rightarrow>
          let result = (\<lambda>extra. flagged sev t (cert_name c @ '' '' @ so_message so @ extra @ '', '' @ source))
          in case sev of
               SPass \<Rightarrow> Ok (if cert_valid c then (passes @ [result []], out) else (passes, out))
             | SFail \<Rightarrow> Ok (if cert_valid c then (passes, out) else (passes, out @ [result []]))
             | SWarn \<Rightarrow>
                 (case (cert_valid c, find_submatch warn_date (so_when so)) of
                    (True, Some [_, days]) \<Rightarrow>
                      map_res (\<lambda>d.
                          if not_after c < target d then ([], out @ [result ('' in '' @ show_int d @ '' days'')])
                          else (passes, out))
                        (wrap_res ''failed to convert string to integer'' (atoi days))
                  | _ \<Rightarrow> Ok (passes, out)))"

fun cert_outcomes ::
  "(int \<Rightarrow> 't::linorder) \<Rightarrow> string \<Rightarrow> string \<Rightarrow> 't parsed_certificate \<Rightarrow> outcome list \<Rightarrow> cert_state \<Rightarrow> cert_state res" where
  "cert_outcomes target t source c [] st = Ok st"
| "cert_outcomes target t source c (o' # os) st =
     bind_res (cert_outcome target t source c o' st) (cert_outcomes target t source c os)"

text \<open>
  The pass results belong to the collection: they are appended to the results after each certificate of its chain.
\<close>

fun cert_chain ::
  "(int \<Rightarrow> 't::linorder) \<Rightarrow> string \<Rightarrow> outcome list \<Rightarrow> cert_source option \<Rightarrow> 't parsed_certificate list \<Rightarrow> cert_state \<Rightarrow>
   cert_state res" where
  "cert_chain target t outcomes src [] st = Ok st"
| "cert_chain target t outcomes src (c # cs) st =
     (case src of
        None \<Rightarrow> Panic ''invalid memory address or nil pointer dereference''
      | Some s \<Rightarrow>
          bind_res (cert_outcomes target t (source_text s) c outcomes st) (\<lambda>(passes, out).
            cert_chain target t outcomes src cs (passes, out @ passes)))"

fun analyze_certificates_result ::
  "(int \<Rightarrow> 't::linorder) \<Rightarrow> string \<Rightarrow> outcome list \<Rightarrow> 't cert_collection list \<Rightarrow> analyze_result list \<Rightarrow>
   analyze_result list res" where
  "analyze_certificates_result target t outcomes [] out = Ok out"
| "analyze_certificates_result target t outcomes (cc # ccs) out =
     bind_res (cert_chain target t outcomes (cc_source cc) (cc_chain cc) ([], out)) (\<lambda>(_, out').
       analyze_certificates_result target t outcomes ccs out')"

definition certificates_Analyze ::
  "(int \<Rightarrow> 't::linorder) \<Rightarrow> (string \<Rightarrow> 't cert_collection list res) \<Rightarrow> get_file \<Rightarrow> string \<Rightarrow> outcome list \<Rightarrow>
   analyze_result list res" where
  "certificates_Analyze target unmarshal get check_name outcomes =
     bind_res (wrap_res ''failed to get contents of certificates.json'' (get ''certificates/certificates.json'')) (\<lambda>info.
       bind_res (wrap_res ''failed to parse certificates.json'' (unmarshal info)) (\<lambda>ccs.
         analyze_certificates_result target (if check_name = [] then ''Certificates Verification'' else check_name)
           outcomes ccs []))"


section \<open>Lemmas\<close>

lemma flagged_simps [simp]:
  "is_pass (flagged sev t msg) \<longleftrightarrow> sev = SPass" "is_warn (flagged sev t msg) \<longleftrightarrow> sev = SWarn"
  "is_fail (flagged sev t msg) \<longleftrightarrow> sev = SFail" "message (flagged sev t msg) = msg" "title (flagged sev t msg) = t"
  by (cases sev; simp add: flagged_def set_severity_def new_result_def)+

lemma flagged_verdict [simp]: "is_verdict (flagged sev t msg)"
  by (cases sev) (simp_all add: is_verdict_def)

lemma ping_verdict_simps [simp]:
  "is_pass (ping_verdict st sev t msg) \<longleftrightarrow> sev = SPass" "is_warn (ping_verdict st sev t msg) \<longleftrightarrow> sev = SWarn"
  "is_fail (ping_verdict st sev t msg) \<longleftrightarrow> sev = SFail" "strict (ping_verdict st sev t msg) = st"
  by (cases sev; simp add: ping_verdict_def set_severity_def new_result_def)+

lemma ping_verdict_verdict [simp]: "is_verdict (ping_verdict st sev t msg)"
  by (cases sev) (simp_all add: is_verdict_def)

subsection \<open>Pings\<close>

text \<open>What a source reported about a target: \<open>None\<close> when it has no result for it.\<close>

definition reported :: "string \<Rightarrow> string \<times> (string \<times> ping_result) list \<Rightarrow> bool option" where
  "reported target resp = map_option ping_ok (map_of (snd resp) target)"

lemma ping_issue_reported: "ping_issue st target resp = None \<longleftrightarrow> reported target resp = Some True"
  by (auto simp: ping_issue_def reported_def split: option.split)

lemma ping_issue_shape:
  "ping_issue st target resp = Some r \<Longrightarrow> is_verdict r \<and> strict r = st \<and> \<not> is_pass r \<and>
     (is_fail r \<longleftrightarrow> reported target resp = Some False)"
  by (auto simp: ping_issue_def reported_def split: option.splits if_splits)

lemma ping_issues_filter:
  "ping_issues st target rs = map (\<lambda>x. the (ping_issue st target x)) (filter (\<lambda>x. reported target x \<noteq> Some True) rs)"
proof (induction rs)
  case (Cons x rs)
  then show ?case using ping_issue_reported [of st target x] by (cases "ping_issue st target x") simp_all
qed simp

lemma ping_issues_shape:
  assumes "r \<in> set (ping_issues st target rs)"
  shows "is_verdict r \<and> strict r = st \<and> \<not> is_pass r"
    and "is_fail r \<longrightarrow> (\<exists>x\<in>set rs. reported target x = Some False)"
proof -
  from assms obtain x where x: "x \<in> set rs" "reported target x \<noteq> Some True" "r = the (ping_issue st target x)"
    by (auto simp: ping_issues_filter)
  then obtain r' where "ping_issue st target x = Some r'" using ping_issue_reported by blast
  with x ping_issue_shape show "is_verdict r \<and> strict r = st \<and> \<not> is_pass r"
    "is_fail r \<longrightarrow> (\<exists>x\<in>set rs. reported target x = Some False)" by fastforce+
qed

lemma host_pings_shape:
  "length (host_pings st rs target) = max 1 (length (filter (\<lambda>x. reported target x \<noteq> Some True) rs))"
  "list_all is_pass (host_pings st rs target) \<longleftrightarrow> (\<forall>x\<in>set rs. reported target x = Some True)"
  "list_all (\<lambda>r. is_verdict r \<and> strict r = st) (host_pings st rs target)"
proof -
  have Nil: "ping_issues st target rs = [] \<longleftrightarrow> (\<forall>x\<in>set rs. reported target x = Some True)"
    by (simp add: ping_issues_filter filter_empty_conv)
  show "length (host_pings st rs target) = max 1 (length (filter (\<lambda>x. reported target x \<noteq> Some True) rs))"
    by (cases "filter (\<lambda>x. reported target x \<noteq> Some True) rs") (simp_all add: host_pings_def ping_issues_filter)
  show "list_all is_pass (host_pings st rs target) \<longleftrightarrow> (\<forall>x\<in>set rs. reported target x = Some True)"
    using Nil ping_issues_shape(1) by (auto simp: host_pings_def Let_def pings_passed_def list_all_iff ex_in_conv [symmetric])
  show "list_all (\<lambda>r. is_verdict r \<and> strict r = st) (host_pings st rs target)"
    using ping_issues_shape(1) by (auto simp: host_pings_def Let_def pings_passed_def list_all_iff)
qed

subsection \<open>Ceph\<close>

definition ceph_rank :: "string \<Rightarrow> int" where
  "ceph_rank s = (if s = CephHealthOK then 2 else if s = CephHealthWarn then 1 else 0)"

abbreviation "ceph_states \<equiv> {CephHealthOK, CephHealthWarn, CephHealthErr}"

lemma ceph_compare_rank:
  "a \<in> ceph_states \<Longrightarrow> b \<in> ceph_states \<Longrightarrow> ceph_compare a b = sgn (ceph_rank a - ceph_rank b)"
  by (auto simp: ceph_compare_def ceph_rank_def)

lemma ceph_states_words: "s \<in> ceph_states \<Longrightarrow> s \<noteq> [] \<and> trim_space s = s \<and> CHR '' '' \<notin> set s \<and> \<not> is_space (last s)"
proof -
  have "\<forall>s\<in>set [CephHealthOK, CephHealthWarn, CephHealthErr].
      s \<noteq> [] \<and> trim_space s = s \<and> CHR '' '' \<notin> set s \<and> \<not> is_space (last s)" by code_simp
  then show "s \<in> ceph_states \<Longrightarrow> ?thesis" by auto
qed

lemma ceph_operator_words:
  "op \<in> {''='', ''=='', ''==='', ''<'', ''>'', ''<='', ''>=''} \<Longrightarrow>
   op \<noteq> [] \<and> trim_space op = op \<and> CHR '' '' \<notin> set op \<and> \<not> is_space (hd op)"
proof -
  have "\<forall>s\<in>set [''='', ''=='', ''==='', ''<'', ''>'', ''<='', ''>=''].
      s \<noteq> [] \<and> trim_space s = s \<and> CHR '' '' \<notin> set s \<and> \<not> is_space (hd s)" by code_simp
  then show "op \<in> {''='', ''=='', ''==='', ''<'', ''>'', ''<='', ''>=''} \<Longrightarrow> ?thesis" by auto
qed

lemma split_ceph_condition:
  assumes "v \<in> ceph_states" and "op \<in> {''='', ''=='', ''==='', ''<'', ''>'', ''<='', ''>=''}"
  shows "split_on (CHR '' '') (trim_space (sentence [op, v])) = [op, v]"
proof -
  have s: "sentence [op, v] = op @ CHR '' '' # v" by (simp add: sentence_def)
  from ceph_states_words [OF assms(1)] ceph_operator_words [OF assms(2)]
  have "trim_space (sentence [op, v]) = sentence [op, v]"
    unfolding s by (intro trim_space_id) simp
  then show ?thesis
    using ceph_states_words [OF assms(1)] ceph_operator_words [OF assms(2)] by (simp add: split_sentence)
qed

interpretation ceph_walk: outcome_loop "ceph_loop show_usage s r" "ceph_step show_usage s r" "Ok r" for show_usage s r
  by unfold_locales simp_all

subsection \<open>Longhorn\<close>

lemma checksums_differ_iff:
  "checksums_differ cs \<longleftrightarrow> (\<exists>a\<in>set cs. \<exists>b\<in>set cs. set a \<noteq> set b)"
proof (induction cs rule: checksums_differ.induct)
  case (1 prior checksum cs)
  then show ?case by auto
qed auto

lemma simplify_shape:
  assumes "\<forall>r\<in>set rs. is_verdict r"
  shows "(\<forall>r\<in>set (simplify_longhorn_results rs). is_verdict r) \<and>
    (list_ex is_pass (simplify_longhorn_results rs) \<longleftrightarrow> rs \<noteq> [] \<and> list_all is_pass rs)"
  using assms
  by (auto simp: simplify_longhorn_results_def Let_def list_ex_iff list_all_iff filter_empty_conv)


subsection \<open>Certificates\<close>

lemma cert_pass_only:
  "cert_valid c \<Longrightarrow> cert_outcomes target t src c [\<lparr>o_fail = None, o_warn = None, o_pass = Some p\<rparr>] (passes, out) =
     Ok (passes @ [flagged SPass t (cert_name c @ '' '' @ so_message p @ '', '' @ src)], out)"
  by (simp add: cert_outcome_def select_outcome_def)

lemma cert_chain_pass_only:
  assumes "\<forall>c\<in>set cs. cert_valid c"
  shows "\<exists>passes' out'. cert_chain target t [\<lparr>o_fail = None, o_warn = None, o_pass = Some p\<rparr>] (Some s) cs (passes, out) = Ok (passes', out') \<and>
    2 * length out' = 2 * length out + length cs * (2 * length passes + length cs + 1)"
  using assms
proof (induction cs arbitrary: passes out)
  case (Cons c cs)
  let ?passes = "passes @ [flagged SPass t (cert_name c @ '' '' @ so_message p @ '', '' @ source_text s)]"
  from Cons.IH [of ?passes "out @ ?passes"] Cons.prems
  show ?case by (auto simp: cert_pass_only simp del: cert_outcomes.simps)
qed simp

lemma cert_outcome_verdicts:
  assumes "cert_outcome target t src c o' (passes, out) = Ok (passes', out')"
    and "\<forall>r\<in>set (passes @ out). is_verdict r \<and> title r = t"
  shows "\<forall>r\<in>set (passes' @ out'). is_verdict r \<and> title r = t"
  using assms
  by (auto simp: cert_outcome_def res_simps split: option.splits severity.splits bool.splits list.splits if_splits prod.splits)

lemma cert_outcomes_verdicts:
  assumes "cert_outcomes target t src c os st = Ok st'" and "\<forall>r\<in>set (fst st @ snd st). is_verdict r \<and> title r = t"
  shows "\<forall>r\<in>set (fst st' @ snd st'). is_verdict r \<and> title r = t"
  using assms
proof (induction os arbitrary: st)
  case (Cons o' os)
  then obtain st1 where st1: "cert_outcome target t src c o' st = Ok st1" "cert_outcomes target t src c os st1 = Ok st'"
    by (auto simp: res_simps)
  have "\<forall>r\<in>set (fst st1 @ snd st1). is_verdict r \<and> title r = t"
    by (rule cert_outcome_verdicts [of target t src c o' "fst st" "snd st"]) (use st1(1) Cons.prems(2) in simp_all)
  from Cons.IH [OF st1(2) this] show ?case .
qed simp

lemma cert_chain_verdicts:
  assumes "cert_chain target t os s cs st = Ok st'" and "\<forall>r\<in>set (fst st @ snd st). is_verdict r \<and> title r = t"
  shows "\<forall>r\<in>set (fst st' @ snd st'). is_verdict r \<and> title r = t"
  using assms
proof (induction cs arbitrary: st)
  case (Cons c cs)
  obtain src where src: "s = Some src" using Cons.prems(1) by (cases s) simp_all
  obtain st1 where st1: "cert_outcomes target t (source_text src) c os st = Ok st1"
    "cert_chain target t os s cs (fst st1, snd st1 @ fst st1) = Ok st'"
    using Cons.prems(1) by (cases "cert_outcomes target t (source_text src) c os st") (simp_all add: src split_beta)
  from cert_outcomes_verdicts [OF st1(1) Cons.prems(2)]
  have "\<forall>r\<in>set (fst (fst st1, snd st1 @ fst st1) @ snd (fst st1, snd st1 @ fst st1)). is_verdict r \<and> title r = t"
    by (simp add: ball_Un)
  from Cons.IH [OF st1(2) this] show ?case .
qed simp

section \<open>Properties\<close>



text \<open>
  The conditions on the health of Ceph compare by how healthy a status is: for the three statuses Ceph has, every
  operator means the order in which OK is greater than a warning and a warning greater than an error; the default outcomes
  answer each of the three with its own verdict, and leave any other status without a verdict.
\<close>

theorem ceph_conditions_meaning:
  assumes "actual \<in> ceph_states" and "v \<in> ceph_states"
  shows "(\<forall>op\<in>{''='', ''=='', ''===''}. compare_ceph_status actual (sentence [op, v]) = Ok (ceph_rank actual = ceph_rank v)) \<and>
    compare_ceph_status actual (sentence [''<'', v]) = Ok (ceph_rank actual < ceph_rank v) \<and>
    compare_ceph_status actual (sentence [''>'', v]) = Ok (ceph_rank actual > ceph_rank v) \<and>
    compare_ceph_status actual (sentence [''<='', v]) = Ok (ceph_rank actual \<le> ceph_rank v) \<and>
    compare_ceph_status actual (sentence [''>='', v]) = Ok (ceph_rank actual \<ge> ceph_rank v)"
proof -
  have cmp: "compare_ceph_status actual (sentence [op, v]) =
      (let c = sgn (ceph_rank actual - ceph_rank v)
       in if op \<in> {''='', ''=='', ''===''} then Ok (c = 0)
          else if op = ''<'' then Ok (c = -1) else if op = ''>'' then Ok (c = 1)
          else if op = ''<='' then Ok (c \<le> 0) else if op = ''>='' then Ok (c \<ge> 0) else Fail (Err ''unknown operator''))"
    if op: "op \<in> {''='', ''=='', ''==='', ''<'', ''>'', ''<='', ''>=''}" for op
    using ceph_operator_words [OF op] ceph_states_words [OF assms(2)]
    by (simp add: compare_ceph_status_def split_ceph_condition [OF assms(2) op] ceph_compare_rank [OF assms])
  show ?thesis by (intro conjI ballI) (auto simp: cmp Let_def sgn_if split: if_splits)
qed

theorem ceph_conditions_meaning_witness:
  "compare_ceph_status ''HEALTH_WARN'' ''<= HEALTH_OK'' = Ok True"
proof -
  have s: "sentence [''<='', ''HEALTH_OK''] = ''<= HEALTH_OK''" by (simp add: sentence_def)
  from ceph_conditions_meaning [of "''HEALTH_WARN''" "''HEALTH_OK''"] show ?thesis by (simp add: s ceph_rank_def)
qed

text \<open>
  A chain of certificates that are all valid, with one outcome that passes, gives a triangular number of results: the
  results of every certificate are repeated for each certificate after it.
\<close>

theorem valid_chain_repeats:
  assumes "\<forall>c\<in>set cs. cert_valid c"
  shows "\<exists>rs. analyze_certificates_result target t [\<lparr>o_fail = None, o_warn = None, o_pass = Some p\<rparr>]
      [\<lparr>cc_source = Some s, cc_chain = cs\<rparr>] [] = Ok rs \<and> 2 * length rs = length cs * (length cs + 1)"
  using cert_chain_pass_only [OF assms, of target t p s "[]" "[]"] by auto

theorem valid_chain_repeats_witness:
  "\<exists>rs. analyze_certificates_result (\<lambda>_. 0 :: int) ''t''
      [\<lparr>o_fail = None, o_warn = None, o_pass = Some \<lparr>so_when = [], so_message = ''is valid'', so_uri = []\<rparr>\<rparr>]
      [\<lparr>cc_source = Some \<lparr>cs_secret = ''tls'', cs_config_map = [], cs_namespace = ''ns''\<rparr>,
        cc_chain = replicate 3 \<lparr>cert_name = ''a'', not_after = 7, cert_valid = True\<rparr>\<rparr>] [] = Ok rs \<and> length rs = 6"
proof -
  have all: "\<forall>c\<in>set (replicate 3 \<lparr>cert_name = ''a'', not_after = 7 :: int, cert_valid = True\<rparr>). cert_valid c" by simp
  show ?thesis using valid_chain_repeats [OF all] by fastforce
qed


text \<open>
  What Longhorn reports on its nodes, replicas and engines: a single pass when there is something to report and all is
  in order, and otherwise the warnings alone, for each unschedulable node, each replica that failed or is not in its state
  and each engine that is not in its state.
\<close>

theorem longhorn_healthy:
  "simplify_longhorn_results (map analyze_longhorn_node_schedulable ns @ map analyze_longhorn_replica rs @
       map analyze_longhorn_engine es) =
    (let bad_nodes = filter (\<lambda>n. map_of (lh_conditions n) ''Schedulable'' \<noteq> Some ''True'') ns;
         bad_replicas = filter (\<lambda>r. lh_failed_at r \<noteq> [] \<or> lh_desired r \<noteq> lh_current r) rs;
         bad_engines = filter (\<lambda>e. lh_desired e \<noteq> lh_current e) es
     in if bad_nodes = [] \<and> bad_replicas = [] \<and> bad_engines = [] \<and> (ns \<noteq> [] \<or> rs \<noteq> [] \<or> es \<noteq> [])
        then [flagged SPass ''Longhorn Health Status'' ''Longhorn is healthy'']
        else map analyze_longhorn_node_schedulable bad_nodes @ map analyze_longhorn_replica bad_replicas @
             map analyze_longhorn_engine bad_engines)"
proof -
  have n: "is_pass (analyze_longhorn_node_schedulable n) \<longleftrightarrow> map_of (lh_conditions n) ''Schedulable'' = Some ''True''" for n
    by (simp add: analyze_longhorn_node_schedulable_def Let_def)
  have r: "is_pass (analyze_longhorn_replica r) \<longleftrightarrow> lh_failed_at r = [] \<and> lh_desired r = lh_current r" for r
    by (simp add: analyze_longhorn_replica_def Let_def)
  have e: "is_pass (analyze_longhorn_engine e) \<longleftrightarrow> lh_desired e = lh_current e" for e
    by (simp add: analyze_longhorn_engine_def Let_def)
  let ?all = "map analyze_longhorn_node_schedulable ns @ map analyze_longhorn_replica rs @ map analyze_longhorn_engine es"
  have out: "filter (\<lambda>r. \<not> is_pass r) ?all =
      map analyze_longhorn_node_schedulable (filter (\<lambda>n. map_of (lh_conditions n) ''Schedulable'' \<noteq> Some ''True'') ns) @
      map analyze_longhorn_replica (filter (\<lambda>r. lh_failed_at r \<noteq> [] \<or> lh_desired r \<noteq> lh_current r) rs) @
      map analyze_longhorn_engine (filter (\<lambda>e. lh_desired e \<noteq> lh_current e) es)"
    by (simp add: filter_map comp_def n r e de_Morgan_conj)
  have some: "list_ex is_pass ?all \<longleftrightarrow> ?all \<noteq> []" if "filter (\<lambda>r. \<not> is_pass r) ?all = []"
    using that unfolding filter_empty_conv list_ex_iff by (metis ex_in_conv set_empty)
  have "simplify_longhorn_results ?all =
      (if filter (\<lambda>r. \<not> is_pass r) ?all = [] \<and> ?all \<noteq> []
       then [flagged SPass ''Longhorn Health Status'' ''Longhorn is healthy''] else filter (\<lambda>r. \<not> is_pass r) ?all)"
    using some unfolding simplify_longhorn_results_def Let_def by metis
  then show ?thesis unfolding out Let_def append_is_Nil_conv map_is_Nil_conv by argo
qed

text \<open>
  Every result of the analyzer of certificates is a verdict with its title.
\<close>

theorem certificates_give_verdicts:
  "analyze_certificates_result target t os ccs out = Ok rs \<Longrightarrow> \<forall>r\<in>set out. is_verdict r \<and> title r = t \<Longrightarrow>
   \<forall>r\<in>set rs. is_verdict r \<and> title r = t"
proof (induction ccs arbitrary: out)
  case (Cons cc ccs)
  obtain st where st: "cert_chain target t os (cc_source cc) (cc_chain cc) ([], out) = Ok st"
    "analyze_certificates_result target t os ccs (snd st) = Ok rs"
    using Cons.prems(1) by (cases "cert_chain target t os (cc_source cc) (cc_chain cc) ([], out)") (simp_all add: split_beta)
  have "\<forall>r\<in>set (fst ([], out) @ snd ([], out)). is_verdict r \<and> title r = t" using Cons.prems(2) by simp
  from cert_chain_verdicts [OF st(1) this] have "\<forall>r\<in>set (snd st). is_verdict r \<and> title r = t"
    unfolding set_append by blast
  from Cons.IH [OF st(2) this] show ?case .
qed simp

end
