(* ===== verification/Documents.thy ===== *)
theory Documents
  imports Cluster_Checks Host_Resources Regex "HOL-Library.List_Lexorder" "HOL-Library.Char_ord"
begin

text \<open>
  Analyzers that look into documents: text matched by expressions of the spec (\<^verbatim>\<open>text_analyze.go\<close>,
  \<^verbatim>\<open>host_text_analyze.go\<close>), values in YAML and JSON documents (\<^verbatim>\<open>yaml_compare.go\<close>, \<^verbatim>\<open>json_compare.go\<close>,
  \<^verbatim>\<open>host_json_compare.go\<close>) and fields of a resource of the cluster (\<^verbatim>\<open>kube_resource.go\<close>), with the lookup of paths they
  share (\<^verbatim>\<open>pkg/interfaceutils\<close>). A decoded document is a tree whose maps are lists of distinct keys; floats are compared as
  values, so a YAML document with not-a-number is left aside. Parameters are the
  decoders and encoders, the compilation of user expressions (to the expressions of \<open>Regex\<close>), templates, JSON paths,
  quantities, \<^verbatim>\<open>sort.Slice\<close> and the verb \<^verbatim>\<open>%v\<close>.
\<close>

section \<open>Values\<close>

datatype 'f doc =
    DNull
  | DBool bool
  | DInt int
  | DFloat 'f
  | DText string
  | DSeq "'f doc list"
  | DMap "('f doc \<times> 'f doc) list"

text \<open>\<^verbatim>\<open>reflect.DeepEqual\<close> on decoded values.\<close>

lemma size_map_value [termination_simp]: "(k, v) \<in> set ms \<Longrightarrow> size v < Suc (size_list (size_prod size size) ms)"
  by (induction ms) auto

lemma size_zip_left [termination_simp]: "(a, b) \<in> set (zip xs ys) \<Longrightarrow> size a < Suc (size_list size xs)"
  by (metis less_Suc_eq_le set_zip_leftD size_list_estimation' order_refl)

fun deep_equal :: "'f doc \<Rightarrow> 'f doc \<Rightarrow> bool" where
  "deep_equal (DSeq xs) d =
     (case d of DSeq ys \<Rightarrow> length xs = length ys \<and> list_all (\<lambda>(x, y). deep_equal x y) (zip xs ys) | _ \<Rightarrow> False)"
| "deep_equal (DMap ms) d =
     (case d of
        DMap ns \<Rightarrow> length ms = length ns \<and>
          list_all (\<lambda>(k, v). case map_of ns k of None \<Rightarrow> False | Some w \<Rightarrow> deep_equal v w) ms
      | _ \<Rightarrow> False)"
| "deep_equal a d \<longleftrightarrow> a = d"


section \<open>Paths\<close>

definition is_array_index :: "string \<Rightarrow> bool" where
  "is_array_index key \<longleftrightarrow> has_prefix ''['' key \<and> has_suffix '']'' key"

definition get_array_index_value :: "string \<Rightarrow> int res" where
  "get_array_index_value key =
     (let k = trim_suffix '']'' (trim_prefix ''['' key) in wrap_res (''failed to parse index '' @ k) (atoi k))"

definition doc_field :: "string \<Rightarrow> 'f doc \<Rightarrow> 'f doc res" where
  "doc_field key d =
     (if is_array_index key
      then bind_res (wrap_res (''failed to get index value of '' @ key) (get_array_index_value key)) (\<lambda>i.
        case d of
          DSeq xs \<Rightarrow>
            if 0 \<le> i \<and> i < int (length xs) then Ok (xs ! nat i) else Panic ''runtime error: index out of range''
        | _ \<Rightarrow> Fail (Err ''input is not an array''))
      else case d of
        DMap ms \<Rightarrow> Ok (case map_of ms (DText key) of None \<Rightarrow> DNull | Some v \<Rightarrow> v)
      | _ \<Rightarrow> Fail (Err ''input is not a map''))"

text \<open>The function splits off one part of the path after the other; here the parts are split at once.\<close>

fun get_parts :: "string list \<Rightarrow> 'f doc \<Rightarrow> 'f doc res" where
  "get_parts [] d = Ok d"
| "get_parts (key # rest) d = bind_res (doc_field key d) (get_parts rest)"

definition get_at_path :: "'f doc \<Rightarrow> string \<Rightarrow> 'f doc res" where
  "get_at_path d path = get_parts (split_on (CHR ''.'') path) d"

section \<open>Text\<close>

definition text_icon :: string where
  "text_icon = ''https://troubleshoot.sh/images/analyzer-icons/text-analyze.svg''"

definition text_result :: "string \<Rightarrow> analyze_result" where
  "text_result t = icon_result t ''kubernetes_text_analyze'' text_icon"

definition invalid_analyzer :: "string \<Rightarrow> analyze_result" where
  "invalid_analyzer t = (text_result t)\<lparr>is_fail := True, message := ''Invalid analyzer''\<rparr>"

definition contains_wildcards :: "string \<Rightarrow> bool" where
  "contains_wildcards p \<longleftrightarrow> CHR ''*'' \<in> set p \<or> CHR ''?'' \<in> set p \<or> CHR ''['' \<in> set p"

definition is_likely_exec_output :: "string \<Rightarrow> bool" where
  "is_likely_exec_output f \<longleftrightarrow>
     has_suffix ''-stdout.txt'' f \<or> has_suffix ''-stderr.txt'' f \<or> has_suffix ''-errors.json'' f"

text \<open>Where the files of a name are: output of exec collectors is two directories deeper.\<close>

definition text_path :: "string \<Rightarrow> string \<Rightarrow> string" where
  "text_path collector_name f =
     (let p = path_join [collector_name, f]
      in if is_likely_exec_output f \<and> \<not> contains_wildcards f \<and> \<not> contains_wildcards p
         then path_join [collector_name, ''*'', ''*'', f] else p)"

definition when_flag :: "bool \<Rightarrow> string \<Rightarrow> bool res" where
  "when_flag unset w = (if w = [] then Ok unset else wrap_res (''failed to process when statement: '' @ w) (parse_bool w))"

text \<open>The walk does not stop at a match: later outcomes set their flags too and replace the text.\<close>

definition pattern_flags :: "severity \<Rightarrow> analyze_result \<Rightarrow> analyze_result" where
  "pattern_flags sev r = (case sev of SFail \<Rightarrow> r\<lparr>is_fail := True, is_warn := False\<rparr> | _ \<Rightarrow> set_severity sev r)"

fun pattern_loop :: "bool \<Rightarrow> analyze_result \<Rightarrow> outcome list \<Rightarrow> analyze_result res" where
  "pattern_loop matched r [] = Ok r"
| "pattern_loop matched r (o' # os) =
     (case select_outcome o' of
        None \<Rightarrow> pattern_loop matched r os
      | Some (sev, so) \<Rightarrow>
          bind_res (when_flag (sev = SPass) (so_when so)) (\<lambda>w.
            pattern_loop matched
              (if matched = w then (pattern_flags sev r)\<lparr>message := so_message so, uri := so_uri so\<rparr> else r) os))"

text \<open>The walk writes the default of an empty condition into the outcome, where later walks find it.\<close>

definition fill_branch :: "string \<Rightarrow> single_outcome option \<Rightarrow> single_outcome option" where
  "fill_branch unset = map_option (\<lambda>so. if so_when so = [] then so\<lparr>so_when := unset\<rparr> else so)"

definition fill_when :: "outcome \<Rightarrow> outcome" where
  "fill_when o' =
     (if o_fail o' \<noteq> None then o'\<lparr>o_fail := fill_branch ''false'' (o_fail o')\<rparr>
      else if o_warn o' \<noteq> None then o'\<lparr>o_warn := fill_branch ''false'' (o_warn o')\<rparr>
      else o'\<lparr>o_pass := fill_branch ''true'' (o_pass o')\<rparr>)"

definition analyze_regex_pattern ::
  "(string \<Rightarrow> regexp res) \<Rightarrow> string \<Rightarrow> string \<Rightarrow> outcome list \<Rightarrow> string \<Rightarrow> analyze_result res" where
  "analyze_regex_pattern compile pattern collected outcomes check_name =
     bind_res (wrap_res (''failed to compile regex: '' @ pattern) (compile pattern)) (\<lambda>re.
       pattern_loop (re_match re collected) (text_result check_name) outcomes)"

definition number_switch :: "string \<Rightarrow> int \<Rightarrow> int \<Rightarrow> bool" where
  "number_switch operator found v = (case switch_op operator found v of Some b \<Rightarrow> b | None \<Rightarrow> False)"

definition quotes_only :: "string \<Rightarrow> bool" where
  "quotes_only s \<longleftrightarrow> s = [CHR 0x27, CHR 0x27] \<or> s = [CHR 0x22, CHR 0x22]"

definition compare_regex :: "(string \<times> string) list \<Rightarrow> string \<Rightarrow> bool res" where
  "compare_regex found conditional =
     (if conditional = [] then Ok True
      else case split_on (CHR '' '') (trim_space conditional) of
        [name, operator, v] \<Rightarrow>
          (let look_for = (if quotes_only v then [] else v)
           in case map_of found name of
                None \<Rightarrow> Ok False
              | Some value \<Rightarrow>
                  (case atoi look_for of
                     Ok n \<Rightarrow> (case atoi value of Ok m \<Rightarrow> Ok (number_switch operator m n) | _ \<Rightarrow> Ok False)
                   | _ \<Rightarrow>
                       if operator \<notin> {''='', ''=='', ''===''}
                       then Fail (Errf ''unexpected operator %q in regex comparator, cannot compare %q and %q''
                              [operator, value, look_for])
                       else Ok (value = look_for)))
      | _ \<Rightarrow> Fail (Err ''unable to parse regex conditional''))"

text \<open>The groups of the first match by their names.\<close>

definition found_matches :: "regexp \<Rightarrow> string \<Rightarrow> (string \<times> string) list" where
  "found_matches re collected =
     (case find_submatch re collected of
        None \<Rightarrow> []
      | Some ms \<Rightarrow>
          fold (\<lambda>(name, m) acc. if name = [] then acc else (name, m) # acc) (zip (tl (subexp_names re)) (tl ms)) [])"

definition block_name :: "severity \<Rightarrow> string" where
  "block_name sev = (case sev of SFail \<Rightarrow> ''outcome.Fail'' | SWarn \<Rightarrow> ''outcome.Warn'' | SPass \<Rightarrow> ''outcome.Pass'')"

definition groups_step ::
  "(string \<Rightarrow> (string \<times> string) list \<Rightarrow> string res) \<Rightarrow> (string \<times> string) list \<Rightarrow> analyze_result \<Rightarrow> outcome \<Rightarrow>
   analyze_result option res" where
  "groups_step render found r o' =
     (case select_outcome o' of
        None \<Rightarrow> Ok None
      | Some (sev, so) \<Rightarrow>
          bind_res (wrap_res (''failed to compare regex '' @ sev_name sev @ '' conditional'') (compare_regex found (so_when so)))
            (\<lambda>m. if \<not> m then Ok None
              else map_res (\<lambda>msg. Some ((conclude sev so r)\<lparr>message := msg\<rparr>))
                (wrap_res (''failed to template message in '' @ block_name sev @ '' block'') (render (so_message so) found))))"

fun groups_loop ::
  "(string \<Rightarrow> (string \<times> string) list \<Rightarrow> string res) \<Rightarrow> (string \<times> string) list \<Rightarrow> analyze_result \<Rightarrow> outcome list \<Rightarrow>
   analyze_result res" where
  "groups_loop render found r [] = Ok r"
| "groups_loop render found r (o' # os) =
     bind_res (groups_step render found r o') (\<lambda>d. case d of None \<Rightarrow> groups_loop render found r os | Some r' \<Rightarrow> Ok r')"

definition analyze_regex_groups ::
  "(string \<Rightarrow> regexp res) \<Rightarrow> (string \<Rightarrow> (string \<times> string) list \<Rightarrow> string res) \<Rightarrow> string \<Rightarrow> string \<Rightarrow> outcome list \<Rightarrow>
   string \<Rightarrow> analyze_result res" where
  "analyze_regex_groups compile render pattern collected outcomes check_name =
     bind_res (wrap_res (''failed to compile regex: '' @ pattern) (compile pattern)) (\<lambda>re.
       groups_loop render (found_matches re collected)
         (icon_result check_name ''kubernetes_text_analyze'' (text_icon @ ''?w=13&h=16'')) outcomes)"

record text_analyze =
  ta_collector_name :: string
  ta_file_name :: string
  ta_exclude_files :: "string list"
  ta_regex_pattern :: string
  ta_regex_groups :: string
  ta_ignore_if_no_files :: bool
  ta_strict :: "bool_or_string option"
  ta_outcomes :: "outcome list"

definition analyze_text_analyze ::
  "(string \<Rightarrow> regexp res) \<Rightarrow> (string \<Rightarrow> (string \<times> string) list \<Rightarrow> string res) \<Rightarrow> find_files \<Rightarrow> text_analyze \<Rightarrow> string \<Rightarrow>
   analyze_result list res" where
  "analyze_text_analyze compile render find_f a t =
     (let p = text_path (ta_collector_name a) (ta_file_name a) in
      bind_res (wrap_res (''failed to read collected file name: '' @ p)
          (find_f p (map (text_path (ta_collector_name a)) (ta_exclude_files a)))) (\<lambda>collected.
        if collected = [] then
          Ok (if ta_ignore_if_no_files a then []
              else [(text_result t)\<lparr>is_warn := True, message := ''No matching files''\<rparr>])
        else
          bind_res (if ta_regex_pattern a \<noteq> []
              then map_m (\<lambda>(_, c). analyze_regex_pattern compile (ta_regex_pattern a) c (ta_outcomes a) t) collected
              else Ok []) (\<lambda>rs1.
          bind_res (if ta_regex_groups a \<noteq> []
              then map_m (\<lambda>(_, c). analyze_regex_groups compile render (ta_regex_groups a) c
                  (if ta_regex_pattern a \<noteq> [] then map fill_when (ta_outcomes a) else ta_outcomes a) t) collected
              else Ok []) (\<lambda>rs2.
            Ok (if rs1 @ rs2 \<noteq> [] then map (\<lambda>r. r\<lparr>strict := bool_or_default_false (ta_strict a)\<rparr>) (rs1 @ rs2)
                else [invalid_analyzer t])))))"

definition text_Analyze where
  "text_Analyze compile render find_f a check_name =
     analyze_text_analyze compile render find_f a (if check_name = [] then ta_collector_name a else check_name)"

definition host_text_Analyze where
  "host_text_Analyze compile render find_f a check_name =
     analyze_text_analyze compile render find_f a (if check_name \<noteq> [] then check_name else ''Regular Expression'')"


section \<open>Values of documents\<close>

text \<open>
  The walk of both comparisons, and of the comparison with an expected value in a resource (which renders no text). The
  text of every outcome that is reached is rendered, also when its condition does not hold.
\<close>

definition value_step :: "(string \<Rightarrow> string res) \<Rightarrow> bool \<Rightarrow> analyze_result \<Rightarrow> outcome \<Rightarrow> analyze_result option res" where
  "value_step render equal r o' =
     (case select_outcome o' of
        None \<Rightarrow> Ok None
      | Some (sev, so) \<Rightarrow>
          bind_res (when_flag (sev = SPass) (so_when so)) (\<lambda>w.
          bind_res (wrap_res ''failed to render template on outcome message'' (render (so_message so))) (\<lambda>msg.
            Ok (if w = equal then Some ((conclude sev so r)\<lparr>message := msg\<rparr>) else None))))"

fun value_loop :: "(string \<Rightarrow> string res) \<Rightarrow> bool \<Rightarrow> analyze_result \<Rightarrow> string \<Rightarrow> outcome list \<Rightarrow> analyze_result res" where
  "value_loop render equal r t [] = Ok (invalid_analyzer t)"
| "value_loop render equal r t (o' # os) =
     bind_res (value_step render equal r o') (\<lambda>d. case d of None \<Rightarrow> value_loop render equal r t os | Some r' \<Rightarrow> Ok r')"

record compare_spec =
  cp_collector_name :: string
  cp_file_name :: string
  cp_path :: string
  cp_json_path :: string
  cp_value :: string
  cp_strict :: "bool_or_string option"
  cp_outcomes :: "outcome list"

definition analyze_yaml_compare ::
  "(string \<Rightarrow> 'f doc res) \<Rightarrow> (string \<Rightarrow> 'f doc \<Rightarrow> string res) \<Rightarrow> get_file \<Rightarrow> compare_spec \<Rightarrow> string \<Rightarrow> analyze_result res" where
  "analyze_yaml_compare decode render get a t =
     (let p = path_join [cp_collector_name a, cp_file_name a] in
      bind_res (wrap_res (''failed to read collected file name: '' @ p) (get p)) (\<lambda>collected.
      bind_res (wrap_res ''failed to parse collected data as yaml doc'' (decode collected)) (\<lambda>original.
      bind_res (if cp_path a \<noteq> [] then wrap_res (''failed to get object at path: '' @ cp_path a) (get_at_path original (cp_path a))
                else Ok original) (\<lambda>actual.
      bind_res (wrap_res ''failed to parse expected value as yaml doc'' (decode (cp_value a))) (\<lambda>expected.
        value_loop (\<lambda>msg. render msg original) (deep_equal actual expected) (text_result t) t (cp_outcomes a))))))"

definition yaml_compare_Analyze where
  "yaml_compare_Analyze decode render get a check_name =
     single_Analyze (cp_strict a)
       (analyze_yaml_compare decode render get a (if check_name = [] then cp_collector_name a else check_name))"

text \<open>Values of one type compare in their order, others as the text they print as.\<close>

definition order :: "('f::linorder doc \<Rightarrow> string) \<Rightarrow> 'f doc \<Rightarrow> 'f doc \<Rightarrow> bool" where
  "order show_doc a b =
     (case (a, b) of
        (DInt x, DInt y) \<Rightarrow> x < y
      | (DFloat x, DFloat y) \<Rightarrow> x < y
      | (DText x, DText y) \<Rightarrow> x < y
      | (DBool x, DBool y) \<Rightarrow> \<not> x \<and> y
      | _ \<Rightarrow> show_doc a < show_doc b)"

type_synonym 'f sorter = "('f doc \<Rightarrow> 'f doc \<Rightarrow> bool) \<Rightarrow> 'f doc list \<Rightarrow> 'f doc list"

definition compare_sorted_slices ::
  "'f::linorder sorter \<Rightarrow> ('f doc \<Rightarrow> string) \<Rightarrow> 'f doc list \<Rightarrow> 'f doc list \<Rightarrow> bool" where
  "compare_sorted_slices sort_slice show_doc actual expected \<longleftrightarrow>
     length actual = length expected \<and>
     deep_equal (DSeq (sort_slice (order show_doc) actual)) (DSeq (sort_slice (order show_doc) expected))"

definition deep_equal_with_slices_sorted ::
  "'f::linorder sorter \<Rightarrow> ('f doc \<Rightarrow> string) \<Rightarrow> 'f doc \<Rightarrow> 'f doc \<Rightarrow> bool" where
  "deep_equal_with_slices_sorted sort_slice show_doc actual expected =
     (case (actual, expected) of
        (DSeq xs, DSeq ys) \<Rightarrow> compare_sorted_slices sort_slice show_doc xs ys
      | _ \<Rightarrow> deep_equal actual expected)"

definition unwrap_single :: "'f doc \<Rightarrow> 'f doc" where
  "unwrap_single d = (case d of DSeq [x] \<Rightarrow> x | _ \<Rightarrow> d)"

text \<open>A JSON path is parsed and executed, and the first document of its output decoded.\<close>

record 'f json_libs =
  jl_decode :: "string \<Rightarrow> 'f doc res"
  jl_decode_first :: "string \<Rightarrow> 'f doc res"
  jl_parse_path :: "string \<Rightarrow> ('f doc \<Rightarrow> string res) res"
  jl_render :: "string \<Rightarrow> 'f doc \<Rightarrow> string res"
  jl_sort :: "'f sorter"
  jl_show :: "'f doc \<Rightarrow> string"

definition json_selected :: "'f json_libs \<Rightarrow> compare_spec \<Rightarrow> 'f doc \<Rightarrow> 'f doc res" where
  "json_selected L a original =
     (if cp_path a \<noteq> []
      then wrap_res (''failed to get object at path: '' @ cp_path a) (get_at_path original (cp_path a))
      else if cp_json_path a \<noteq> []
      then bind_res (wrap_res (''failed to parse jsonpath: '' @ cp_json_path a) (jl_parse_path L (cp_json_path a))) (\<lambda>execute.
           bind_res (wrap_res ''failed to execute jsonpath'' (execute original)) (\<lambda>out.
           map_res unwrap_single (wrap_res ''failed to decode jsonpath result'' (jl_decode_first L out))))
      else Ok original)"

text \<open>
  Lists are sorted where they are, so what the templates of the texts see is the document with the list at the path sorted;
  the output of a JSON path is a document of its own.
\<close>

fun update_parts :: "('f doc \<Rightarrow> 'f doc) \<Rightarrow> string list \<Rightarrow> 'f doc \<Rightarrow> 'f doc" where
  "update_parts f [] d = f d"
| "update_parts f (key # rest) d =
     (case d of
        DSeq xs \<Rightarrow>
          (case get_array_index_value key of
             Ok i \<Rightarrow> DSeq (xs[nat i := update_parts f rest (xs ! nat i)])
           | _ \<Rightarrow> d)
      | DMap ms \<Rightarrow> DMap (map (\<lambda>(k, v). (k, if k = DText key then update_parts f rest v else v)) ms)
      | _ \<Rightarrow> d)"

definition sorted_original :: "'f::linorder json_libs \<Rightarrow> compare_spec \<Rightarrow> 'f doc \<Rightarrow> 'f doc \<Rightarrow> 'f doc \<Rightarrow> 'f doc" where
  "sorted_original L a original actual expected =
     (case (actual, expected) of
        (DSeq xs, DSeq ys) \<Rightarrow>
          if length xs = length ys \<and> (cp_path a \<noteq> [] \<or> cp_json_path a = [])
          then update_parts (\<lambda>_. DSeq (jl_sort L (order (jl_show L)) xs))
                 (if cp_path a = [] then [] else split_on (CHR ''.'') (cp_path a)) original
          else original
      | _ \<Rightarrow> original)"

definition analyze_json_compare :: "'f::linorder json_libs \<Rightarrow> get_file \<Rightarrow> compare_spec \<Rightarrow> string \<Rightarrow> analyze_result res" where
  "analyze_json_compare L get a t =
     (let p = path_join [cp_collector_name a, cp_file_name a] in
      bind_res (wrap_res (''failed to read collected file name: '' @ p) (get p)) (\<lambda>collected.
      bind_res (wrap_res ''failed to parse collected data as json'' (jl_decode L collected)) (\<lambda>original.
      bind_res (json_selected L a original) (\<lambda>actual.
      bind_res (wrap_res ''failed to parse expected value as json'' (jl_decode L (cp_value a))) (\<lambda>expected.
        value_loop (\<lambda>msg. jl_render L msg (sorted_original L a original actual expected))
          (deep_equal_with_slices_sorted (jl_sort L) (jl_show L) actual expected) (text_result t) t (cp_outcomes a))))))"

definition json_compare_title :: "string \<Rightarrow> string \<Rightarrow> string" where
  "json_compare_title check_name collector_name =
     (if check_name \<noteq> [] then check_name else if collector_name \<noteq> [] then collector_name else ''Json Compare'')"

definition json_compare_Analyze where
  "json_compare_Analyze L get a check_name =
     single_Analyze (cp_strict a) (analyze_json_compare L get a (json_compare_title check_name (cp_collector_name a)))"

definition host_json_compare_Analyze where
  "host_json_compare_Analyze L get a check_name =
     single_Analyze (cp_strict a) (analyze_json_compare L get a (json_compare_title check_name (cp_collector_name a)))"

section \<open>Resources of the cluster\<close>

definition Filemap :: "(string \<times> string) list" where
  "Filemap =
     [(''deployment'', ''deployments''), (''daemonset'', ''daemonsets''), (''statefulset'', ''statefulsets''),
      (''networkpolicy'', ''network-policy''), (''pod'', ''pods''), (''ingress'', ''ingress''), (''service'', ''services''),
      (''resourcequota'', ''resource-quota''), (''job'', ''jobs''), (''persistentvolumeclaim'', ''pvcs''), (''pvc'', ''pvcs''),
      (''replicaset'', ''replicasets''), (''configmap'', ''configmaps''), (''namespace'', ''namespaces.json''),
      (''persistentvolume'', ''pvs.json''), (''pv'', ''pvs.json''), (''node'', ''nodes.json''),
      (''storageclass'', ''storage-classes.json'')]"

text \<open>Items that are no list are a failed type assertion, which panics; no item with the name is nil.\<close>

fun find_item :: "string \<Rightarrow> 'f doc list \<Rightarrow> 'f doc option res" where
  "find_item name [] = Ok None"
| "find_item name (d # ds) =
     bind_res (wrap_res (''Failed to find resource with name: '' @ name) (get_at_path d ''metadata.name'')) (\<lambda>n.
       if n = DText name then Ok (Some d) else find_item name ds)"

definition find_resource ::
  "(string \<Rightarrow> 'f doc res) \<Rightarrow> get_file \<Rightarrow> string \<Rightarrow> bool \<Rightarrow> string \<Rightarrow> string \<Rightarrow> 'f doc option res" where
  "find_resource decode get kind cluster_scoped namespace name =
     (case map_of Filemap (to_lower kind) of
        None \<Rightarrow> Fail (Err ''failed to find resource'')
      | Some location \<Rightarrow>
          let data_path =
            (if cluster_scoped then path_join [''cluster-resources'', location]
             else path_join [''cluster-resources'', location, (if namespace = [] then ''default'' else namespace) @ ''.json''])
          in bind_res (wrap_res ''failed to read collected resources'' (get data_path)) (\<lambda>file_data.
             bind_res (wrap_res ''failed to parse data as yaml doc'' (decode file_data)) (\<lambda>d.
             bind_res (wrap_res ''failed to get items from file'' (get_at_path d ''items'')) (\<lambda>items.
               case items of
                 DSeq ds \<Rightarrow> find_item name ds
               | _ \<Rightarrow> Panic ''interface conversion''))))"

text \<open>
  A quantity is parsed to its integer value. A condition of one word has no second part to parse: the index is out of
  range.
\<close>

definition compare_when_to_resource :: "(string \<Rightarrow> int res) \<Rightarrow> string \<Rightarrow> 'f doc \<Rightarrow> bool res" where
  "compare_when_to_resource parse_quantity w actual =
     (if \<not> list_ex (\<lambda>c. c \<in> set ''!=<>'') w then Fail (Err ''no operators found'')
      else case actual of
        DInt n \<Rightarrow> compare_actual_to_when w n
      | DText s \<Rightarrow>
          (case parse_quantity s of
             Ok q \<Rightarrow>
               (case split_on (CHR '' '') (trim_space w) of
                  op # v # _ \<Rightarrow>
                    (case parse_quantity v of
                       Ok n \<Rightarrow> compare_actual_to_when (op @ '' '' @ show_int n) q
                     | _ \<Rightarrow> Fail (Err ''Cannot compare size with not size''))
                | _ \<Rightarrow> Panic ''runtime error: index out of range'')
           | _ \<Rightarrow> Fail (Err ''could not match comparison method for result''))
      | _ \<Rightarrow> Fail (Err ''could not cast found value as string''))"

text \<open>
  One branch of an outcome, with the condition it evaluates: the branch of a warning takes the condition of the failure
  beside it, which is a nil pointer when there is none.
\<close>

definition when_branch ::
  "(string \<Rightarrow> int res) \<Rightarrow> 'f doc \<Rightarrow> analyze_result \<Rightarrow> severity \<Rightarrow> single_outcome option \<Rightarrow> single_outcome option \<Rightarrow>
   analyze_result option res" where
  "when_branch parse_quantity actual r sev so condition =
     (case so of
        None \<Rightarrow> Ok None
      | Some s \<Rightarrow>
          if so_when s = [] then Ok (Some (conclude sev s r))
          else case condition of
            None \<Rightarrow> Panic ''invalid memory address or nil pointer dereference''
          | Some c \<Rightarrow>
              map_res (\<lambda>m. if m then Some (conclude sev s r) else None)
                (wrap_res (''failed to process when statement: '' @ so_when s)
                   (compare_when_to_resource parse_quantity (so_when c) actual)))"

definition or_else :: "'a option res \<Rightarrow> 'a option res \<Rightarrow> 'a option res" where
  "or_else a b = bind_res a (\<lambda>d. case d of None \<Rightarrow> b | Some x \<Rightarrow> Ok (Some x))"

definition when_field_step ::
  "(string \<Rightarrow> int res) \<Rightarrow> 'f doc \<Rightarrow> analyze_result \<Rightarrow> outcome \<Rightarrow> analyze_result option res" where
  "when_field_step parse_quantity actual r o' =
     or_else (when_branch parse_quantity actual r SFail (o_fail o') (o_fail o'))
       (or_else (when_branch parse_quantity actual r SWarn (o_warn o') (o_fail o'))
          (when_branch parse_quantity actual r SPass (o_pass o') (o_pass o')))"

fun when_field_loop ::
  "(string \<Rightarrow> int res) \<Rightarrow> 'f doc \<Rightarrow> analyze_result \<Rightarrow> string \<Rightarrow> outcome list \<Rightarrow> analyze_result res" where
  "when_field_loop parse_quantity actual r t [] = Ok (invalid_analyzer t)"
| "when_field_loop parse_quantity actual r t (o' # os) =
     bind_res (when_field_step parse_quantity actual r o')
       (\<lambda>d. case d of None \<Rightarrow> when_field_loop parse_quantity actual r t os | Some r' \<Rightarrow> Ok r')"

definition wide_text_result :: "string \<Rightarrow> analyze_result" where
  "wide_text_result t = icon_result t ''kubernetes_text_analyze'' (text_icon @ ''?w=13&h=16'')"

record cluster_resource =
  cr_collector_name :: string
  cr_kind :: string
  cr_cluster_scoped :: bool
  cr_namespace :: string
  cr_name :: string
  cr_yaml_path :: string
  cr_expected_value :: string
  cr_regex_pattern :: string
  cr_regex_groups :: string
  cr_outcomes :: "outcome list"

record 'f resource_libs =
  rl_decode :: "string \<Rightarrow> 'f doc res"
  rl_encode :: "'f doc \<Rightarrow> string res"
  rl_quantity :: "string \<Rightarrow> int res"
  rl_compile :: "string \<Rightarrow> regexp res"
  rl_render :: "string \<Rightarrow> (string \<times> string) list \<Rightarrow> string res"

definition missing_resource :: "cluster_resource \<Rightarrow> string \<Rightarrow> analyze_result" where
  "missing_resource a t =
     (text_result t)\<lparr>is_fail := True,
       message := cr_kind a @ '' '' @ cr_name a @
         (if cr_cluster_scoped a then [] else '' in namespace '' @ cr_namespace a) @ '' does not exist''\<rparr>"

definition analyze_resource :: "'f resource_libs \<Rightarrow> get_file \<Rightarrow> cluster_resource \<Rightarrow> string \<Rightarrow> analyze_result res" where
  "analyze_resource L get a t =
     (case find_resource (rl_decode L) get (cr_kind a) (cr_cluster_scoped a) (cr_namespace a) (cr_name a) of
        Panic m \<Rightarrow> Panic m
      | Fail _ \<Rightarrow> Ok (missing_resource a t)
      | Ok None \<Rightarrow> Ok (missing_resource a t)
      | Ok (Some selected) \<Rightarrow>
          (case get_at_path selected (cr_yaml_path a) of
             Panic m \<Rightarrow> Panic m
           | Fail _ \<Rightarrow> Ok ((text_result t)\<lparr>is_fail := True, message := ''YAML path provided is invalid''\<rparr>)
           | Ok actual \<Rightarrow>
               bind_res (wrap_res ''failed to parse expected value as yaml doc'' (rl_decode L (cr_expected_value a))) (\<lambda>expected.
               bind_res (wrap_res ''failed to marshal actual value'' (rl_encode L actual)) (\<lambda>actual_yaml.
                 if cr_expected_value a \<noteq> []
                 then value_loop Ok (deep_equal actual expected) (wide_text_result t) t (cr_outcomes a)
                 else if cr_regex_pattern a \<noteq> []
                 then analyze_regex_pattern (rl_compile L) (cr_regex_pattern a) actual_yaml (cr_outcomes a) t
                 else if cr_regex_groups a \<noteq> []
                 then analyze_regex_groups (rl_compile L) (rl_render L) (cr_regex_groups a) actual_yaml (cr_outcomes a) t
                 else when_field_loop (rl_quantity L) actual (wide_text_result t) t (cr_outcomes a)))))"

definition cluster_resource_Analyze where
  "cluster_resource_Analyze L get a check_name =
     map_res (\<lambda>r. [r]) (analyze_resource L get a (if check_name = [] then cr_collector_name a else check_name))"


section \<open>Lemmas\<close>

subsection \<open>Sorted slices\<close>

text \<open>What \<^verbatim>\<open>sort.Slice\<close> promises: a permutation without a pair out of order.\<close>

definition sorts :: "'f sorter \<Rightarrow> ('f doc \<Rightarrow> 'f doc \<Rightarrow> bool) \<Rightarrow> 'f doc list \<Rightarrow> bool" where
  "sorts sort_slice before xs \<longleftrightarrow>
     mset (sort_slice before xs) = mset xs \<and> sorted_wrt (\<lambda>a b. \<not> before b a) (sort_slice before xs)"

lemma deep_equal_texts: "deep_equal (DSeq (map DText xs)) (DSeq (map DText ys)) \<longleftrightarrow> xs = ys"
proof -
  have "list_all (\<lambda>(x, y). deep_equal x y) (zip (map DText xs :: 'a doc list) (map DText ys)) \<longleftrightarrow> xs = ys" if "length xs = length ys"
    using that by (induction xs ys rule: list_induct2) auto
  then show ?thesis by auto
qed

lemma sorted_texts:
  assumes "sorts sort_slice (order show_doc) (map DText xs)"
  shows "sort_slice (order show_doc) (map DText xs) = map DText (sort xs)"
proof -
  let ?ds = "sort_slice (order show_doc) (map DText xs)"
  have m: "mset ?ds = mset (map DText xs)" using assms by (simp add: sorts_def)
  from mset_eq_setD [OF m] have "\<exists>ys. ?ds = map DText ys" unfolding ex_map_conv by auto
  then obtain ys where ys: "?ds = map DText ys" by blast
  have "mset ys = mset xs"
    using arg_cong [OF m, of "image_mset (\<lambda>d. case d of DText s \<Rightarrow> s | _ \<Rightarrow> [])"] unfolding ys
    by (simp add: image_mset.compositionality comp_def)
  moreover have "sorted ys"
    using assms unfolding sorts_def ys sorted_wrt_map by (simp add: order_def not_less)
  ultimately have "ys = sort xs" by (metis properties_for_sort)
  with ys show ?thesis by simp
qed

subsection \<open>Walks\<close>

interpretation value_walk: outcome_loop
  "value_loop render equal r t" "value_step render equal r" "Ok (invalid_analyzer t)" for render equal r t
  by unfold_locales simp_all

interpretation groups_walk: outcome_loop
  "groups_loop render found r" "groups_step render found r" "Ok r" for render found r
  by unfold_locales simp_all

interpretation when_field_walk: outcome_loop
  "when_field_loop parse_quantity actual r t" "when_field_step parse_quantity actual r" "Ok (invalid_analyzer t)"
  for parse_quantity actual r t
  by unfold_locales simp_all

lemma invalid_analyzer_verdict [simp]: "is_verdict (invalid_analyzer t)"
  by (simp add: is_verdict_def invalid_analyzer_def text_result_def icon_result_def new_result_def)

lemma undecided_text [simp]: "undecided (text_result t)" "undecided (wide_text_result t)"
  by (simp_all add: text_result_def wide_text_result_def)

lemma value_step_verdict: "value_step render equal r o' = Ok (Some r') \<Longrightarrow> undecided r \<Longrightarrow> is_verdict r'"
  by (auto simp: value_step_def res_simps conclude_verdict split: option.splits if_splits)

lemma value_loop_verdict: "value_loop render equal r t os = Ok r' \<Longrightarrow> undecided r \<Longrightarrow> is_verdict r'"
  by (erule value_walk.loop_holds [rotated 2]) (auto dest: value_step_verdict)

lemma groups_step_filled:
  assumes "select_outcome o' = Some (sev, so)" and "so_when so = []"
  shows "\<exists>e. groups_step render found r (fill_when o') = Fail e"
proof -
  have no: "compare_regex found w = Fail (Err ''unable to parse regex conditional'')" if "w \<in> {''true'', ''false''}" for w
    using that by (auto simp: compare_regex_def trim_space_id is_space_def)
  obtain w where "w \<in> {''true'', ''false''}" "select_outcome (fill_when o') = Some (sev, so\<lparr>so_when := w\<rparr>)"
    using assms by (auto simp: select_outcome_def fill_when_def fill_branch_def split: option.splits)
  with no [of w] show ?thesis by (auto simp: groups_step_def)
qed

lemma regex_groups_filled:
  assumes "select_outcome o' = Some (sev, so)" and "so_when so = []"
  shows "analyze_regex_groups compile render pattern c (map fill_when (o' # os)) t \<noteq> Ok r"
proof (cases "compile pattern")
  case (Ok re)
  obtain e where "groups_step render (found_matches re c)
      (icon_result t ''kubernetes_text_analyze'' (text_icon @ ''?w=13&h=16'')) (fill_when o') = Fail e"
    using groups_step_filled [OF assms] by blast
  with Ok show ?thesis by (simp add: analyze_regex_groups_def)
qed (simp_all add: analyze_regex_groups_def)

text \<open>Whether an outcome has the branch of a kind and a condition that fits.\<close>

definition pattern_hit :: "bool \<Rightarrow> severity \<Rightarrow> outcome \<Rightarrow> bool" where
  "pattern_hit matched sev o' \<longleftrightarrow>
     (\<exists>so. select_outcome o' = Some (sev, so) \<and> when_flag (sev = SPass) (so_when so) = Ok matched)"

lemma pattern_loop_flags:
  assumes "pattern_loop matched r os = Ok r'"
  shows "is_pass r' \<longleftrightarrow> is_pass r \<or> list_ex (pattern_hit matched SPass) os"
    and "is_fail r' \<longleftrightarrow> is_fail r \<or> list_ex (pattern_hit matched SFail) os"
proof -
  have "(is_pass r' \<longleftrightarrow> is_pass r \<or> list_ex (pattern_hit matched SPass) os) \<and>
    (is_fail r' \<longleftrightarrow> is_fail r \<or> list_ex (pattern_hit matched SFail) os)"
    using assms
  proof (induction os arbitrary: r)
    case (Cons o' os)
    show ?case
    proof (cases "select_outcome o'")
      case None
      with Cons.IH [of r] Cons.prems show ?thesis by (simp add: pattern_hit_def)
    next
      case (Some b)
      obtain sev so where b: "select_outcome o' = Some (sev, so)" using Some by (cases b) simp
      with Cons.prems obtain w where w: "when_flag (sev = SPass) (so_when so) = Ok w"
        by (auto simp: res_simps)
      with b Cons.prems Cons.IH
        [of "if matched = w then (pattern_flags sev r)\<lparr>message := so_message so, uri := so_uri so\<rparr> else r"]
      moreover have "pattern_hit matched sev' o' \<longleftrightarrow> sev' = sev \<and> matched = w" for sev'
        using b w by (auto simp: pattern_hit_def)
      ultimately show ?thesis
        using b w by (cases sev; cases "matched = w") (simp_all add: pattern_flags_def set_severity_def)
    qed
  qed simp
  then show "is_pass r' \<longleftrightarrow> is_pass r \<or> list_ex (pattern_hit matched SPass) os"
    "is_fail r' \<longleftrightarrow> is_fail r \<or> list_ex (pattern_hit matched SFail) os" by blast+
qed

subsection \<open>Conditions on groups\<close>

definition group_check :: "string \<Rightarrow> string \<Rightarrow> 64 word \<Rightarrow> bool res" where
  "group_check name w n = compare_regex [(name, show_int (sint n))] w"

lemma in_int64_sint [simp]: "in_int64 (sint (n :: 64 word))"
  using sint_range_size [of n] by (simp add: in_int64_def word_size)

lemma trim_condition:
  assumes "name \<noteq> []" and "\<not> is_space (hd name)"
  shows "trim_space (sentence [name, cmp, show_int v]) = sentence [name, cmp, show_int v]"
proof -
  have "sentence [name, cmp, show_int v] = name @ '' '' @ cmp @ '' '' @ show_int v" by (simp add: sentence_def)
  with assms show ?thesis
    by (intro trim_space_id) (simp add: last_show_int_no_space)
qed

lemma show_int_no_quotes: "\<not> quotes_only (show_int v)"
proof
  assume "quotes_only (show_int v)"
  then have "last (show_int v) = CHR 0x27 \<or> last (show_int v) = CHR 0x22" by (auto simp: quotes_only_def)
  moreover have "is_digit (last (show_int v))"
    using show_nat_digits [OF last_in_set [OF show_nat_not_Nil]] by (simp add: show_int_def)
  ultimately show False by (auto simp: is_digit_def)
qed

lemma group_check_rendered:
  assumes "in_int64 v" and "name \<noteq> []" and "\<not> is_space (hd name)" and "CHR '' '' \<notin> set name" and "CHR '' '' \<notin> set cmp"
  shows "group_check name (sentence [name, cmp, show_int v]) n = Ok (number_switch cmp (sint n) v)"
proof -
  have "sentence [name, cmp, show_int v] \<noteq> []" using assms(2) by (simp add: sentence_def)
  moreover have "split_on (CHR '' '') (sentence [name, cmp, show_int v]) = [name, cmp, show_int v]"
    by (rule split_sentence) (use assms(4,5) in auto)
  ultimately show ?thesis
    using assms(1) by (simp add: group_check_def compare_regex_def trim_condition [OF assms(2,3)] show_int_no_quotes atoi_show_int)
qed

interpretation group_conditions: when_language
  "group_check name" "\<lambda>cmp v. sentence [name, cmp, show_int v]" sint
  "\<lambda>v. in_int64 v \<and> name \<noteq> [] \<and> \<not> is_space (hd name) \<and> CHR '' '' \<notin> set name" for name
  by unfold_locales (auto simp: group_check_rendered number_switch_def switch_op_def)


subsection \<open>Paths\<close>

text \<open>The first part of a path that is no valid index of the list it is applied to.\<close>

definition out_of_range :: "string \<Rightarrow> 'f doc \<Rightarrow> bool" where
  "out_of_range key d \<longleftrightarrow>
     is_array_index key \<and> (\<exists>i xs. get_array_index_value key = Ok i \<and> d = DSeq xs \<and> (i < 0 \<or> int (length xs) \<le> i))"

lemma doc_field_panic: "is_panic (doc_field key d) \<longleftrightarrow> out_of_range key d"
proof (cases "is_array_index key")
  case True
  have "\<not> is_panic (get_array_index_value key)"
    by (simp add: get_array_index_value_def Let_def atoi_def parse_int64_def split: prod.split option.split)
  with True show ?thesis
    by (cases "get_array_index_value key"; cases d) (auto simp: doc_field_def out_of_range_def)
next
  case False
  then show ?thesis by (cases d) (simp_all add: doc_field_def out_of_range_def)
qed

section \<open>Properties\<close>

text \<open>
  Lookup of a path panics exactly when some part of it is an index in brackets, the lookup of the parts before it gives
  a list, and the index is negative or not less than its length; everything else that is wrong is an error.
\<close>

theorem path_lookup_panics:
  "is_panic (get_at_path d path) \<longleftrightarrow>
     (\<exists>ps key qs d'. split_on (CHR ''.'') path = ps @ key # qs \<and> get_parts ps d = Ok d' \<and> out_of_range key d')"
proof -
  have "is_panic (get_parts parts d) \<longleftrightarrow>
      (\<exists>ps key qs d'. parts = ps @ key # qs \<and> get_parts ps d = Ok d' \<and> out_of_range key d')" for parts
  proof (induction parts arbitrary: d)
    case (Cons p parts)
    show ?case
    proof (cases "doc_field p d")
      case (Ok d1)
      then have no: "\<not> out_of_range p d" using doc_field_panic [of p d] by simp
      have "(\<exists>ps key qs d'. p # parts = ps @ key # qs \<and> get_parts ps d = Ok d' \<and> out_of_range key d') \<longleftrightarrow>
          (\<exists>ps key qs d'. parts = ps @ key # qs \<and> get_parts ps d1 = Ok d' \<and> out_of_range key d')"
        (is "?l \<longleftrightarrow> ?r")
      proof
        assume ?l
        then obtain ps key qs d' where "p # parts = ps @ key # qs" "get_parts ps d = Ok d'" "out_of_range key d'" by blast
        with no Ok show ?r by (cases ps) auto
      next
        assume ?r
        then obtain ps key qs d' where "parts = ps @ key # qs" "get_parts ps d1 = Ok d'" "out_of_range key d'" by blast
        with Ok show ?l by (intro exI [of _ "p # ps"]) auto
      qed
      with Cons.IH [of d1] Ok show ?thesis by simp
    next
      case (Fail e)
      then have "\<not> out_of_range p d" using doc_field_panic [of p d] by simp
      with Fail show ?thesis by (auto simp: Cons_eq_append_conv)
    next
      case (Panic m)
      then have "out_of_range p d" using doc_field_panic [of p d] by simp
      with Panic show ?thesis by (auto intro: exI [of _ "[]"])
    qed
  qed simp
  then show ?thesis by (simp add: get_at_path_def)
qed

text \<open>
  A comparison of JSON lists of texts does not depend on their order: with a sort that permutes and leaves no pair out
  of order, two lists are equal for the analyzer exactly when they hold the same texts as often.
\<close>

theorem json_lists_compare_as_multisets:
  assumes "sorts sort_slice (order show_doc) (map DText xs)" and "sorts sort_slice (order show_doc) (map DText ys)"
  shows "deep_equal_with_slices_sorted sort_slice show_doc (DSeq (map DText xs)) (DSeq (map DText ys)) \<longleftrightarrow>
    mset xs = mset ys"
proof -
  have "sort xs = sort ys \<longleftrightarrow> mset xs = mset ys" by (metis mset_sort sorted_list_of_multiset_mset)
  moreover have "mset xs = mset ys \<Longrightarrow> length xs = length ys" by (metis size_mset)
  ultimately show ?thesis
    unfolding deep_equal_with_slices_sorted_def compare_sorted_slices_def prod.case doc.case
      sorted_texts [OF assms(1)] sorted_texts [OF assms(2)] deep_equal_texts by auto
qed

theorem json_lists_compare_as_multisets_witness:
  "\<exists>sort_slice :: int sorter. deep_equal_with_slices_sorted sort_slice (\<lambda>_. []) (DSeq [DText ''a'', DText ''b''])
     (DSeq [DText ''b'', DText ''a''])"
proof -
  let ?s = "\<lambda>_ _. [DText ''a'', DText ''b'']"
  have s: "sorts ?s (order (\<lambda>_. [])) (map DText [''a'', ''b''] :: int doc list)"
    "sorts ?s (order (\<lambda>_. [])) (map DText [''b'', ''a''] :: int doc list)"
    by (simp_all add: sorts_def order_def)
  have "deep_equal_with_slices_sorted ?s (\<lambda>_. []) (DSeq (map DText [''a'', ''b''])) (DSeq (map DText [''b'', ''a'']) :: int doc)"
    using json_lists_compare_as_multisets [OF s] by simp
  then show ?thesis by (intro exI [of _ ?s]) simp
qed

text \<open>
  A warning with a condition but no failure beside it makes the analyzer of resources panic when the walk comes to it.
\<close>

theorem warn_condition_panics:
  assumes "\<forall>o'\<in>set before. when_field_step parse_quantity actual r o' = Ok None"
    and "o_fail o' = None" and "o_warn o' = Some w" and "so_when w \<noteq> []"
  shows "is_panic (when_field_loop parse_quantity actual r t (before @ o' # after))"
  using assms
  by (simp add: when_field_walk.loop_skip when_field_step_def when_branch_def or_else_def)

theorem warn_condition_panics_witness:
  "is_panic (when_field_loop (\<lambda>_. Ok 0) (DInt 1 :: int doc) (new_result ''t'') ''t''
     [\<lparr>o_fail = None, o_warn = Some \<lparr>so_when = ''< 3'', so_message = ''few'', so_uri = []\<rparr>, o_pass = None\<rparr>])"
  using warn_condition_panics [of "[]" "\<lambda>_. Ok 0" "DInt 1 :: int doc" "new_result ''t''"
      "\<lparr>o_fail = None, o_warn = Some \<lparr>so_when = ''< 3'', so_message = ''few'', so_uri = []\<rparr>, o_pass = None\<rparr>"
      "\<lparr>so_when = ''< 3'', so_message = ''few'', so_uri = []\<rparr>" "''t''" "[]"] by simp

text \<open>
  Comparing values gives a verdict on every document, while matching a pattern sets a flag for every kind of outcome
  that fits: a pass and a failure that both fit are both set.
\<close>

theorem value_verdicts_pattern_flags:
  "(\<forall>r. analyze_yaml_compare decode render get a t = Ok r \<longrightarrow> is_verdict r) \<and>
   (\<forall>r. analyze_json_compare L get a t = Ok r \<longrightarrow> is_verdict r) \<and>
   (\<forall>r. analyze_regex_pattern (\<lambda>_. Ok re) pattern collected outcomes t = Ok r \<longrightarrow>
      (is_pass r \<longleftrightarrow> list_ex (pattern_hit (re_match re collected) SPass) outcomes) \<and>
      (is_fail r \<longleftrightarrow> list_ex (pattern_hit (re_match re collected) SFail) outcomes))"
proof (intro conjI allI impI)
  fix r assume "analyze_yaml_compare decode render get a t = Ok r"
  then show "is_verdict r" by (auto simp: analyze_yaml_compare_def Let_def res_simps intro: value_loop_verdict)
next
  fix r assume "analyze_json_compare L get a t = Ok r"
  then show "is_verdict r" by (auto simp: analyze_json_compare_def Let_def res_simps intro: value_loop_verdict)
next
  fix r assume "analyze_regex_pattern (\<lambda>_. Ok re) pattern collected outcomes t = Ok r"
  then have "pattern_loop (re_match re collected) (text_result t) outcomes = Ok r" by (simp add: analyze_regex_pattern_def)
  from pattern_loop_flags [OF this]
  show "is_pass r \<longleftrightarrow> list_ex (pattern_hit (re_match re collected) SPass) outcomes"
    "is_fail r \<longleftrightarrow> list_ex (pattern_hit (re_match re collected) SFail) outcomes"
    by (simp_all add: text_result_def icon_result_def new_result_def)
qed

theorem value_verdicts_pattern_flags_witness:
  "\<exists>r. analyze_regex_pattern (\<lambda>_. Ok \<lparr>rx_prog = Emp, subexp_names = [[]]\<rparr>) [] []
     [\<lparr>o_fail = None, o_warn = None, o_pass = Some \<lparr>so_when = ''true'', so_message = ''ok'', so_uri = []\<rparr>\<rparr>,
      \<lparr>o_fail = Some \<lparr>so_when = ''true'', so_message = ''bad'', so_uri = []\<rparr>, o_warn = None, o_pass = None\<rparr>] ''t'' = Ok r \<and>
     is_pass r \<and> is_fail r"
  (is "\<exists>r. ?run = Ok r \<and> _")
proof -
  have "is_ok ?run" by code_simp
  then obtain r where r: "?run = Ok r" by (cases ?run) simp_all
  have m: "re_match \<lparr>rx_prog = Emp, subexp_names = [[]]\<rparr> []" by code_simp
  from value_verdicts_pattern_flags [of "\<lambda>_. Ok DNull" "\<lambda>_ _. Ok []" "\<lambda>_. Ok []" undefined "''t''" undefined
      "\<lparr>rx_prog = Emp, subexp_names = [[]]\<rparr>" "[]" "[]"] r m
  show ?thesis by (fastforce simp: pattern_hit_def select_outcome_def when_flag_def parse_bool_def)
qed

text \<open>
  With both expressions in one spec an outcome without a condition can not be reached twice: matching the pattern leaves
  a flag as its condition, which the comparison of groups does not parse, so the analyzer ends without results.
\<close>

theorem both_expressions_fail:
  assumes "ta_regex_pattern a \<noteq> []" and "ta_regex_groups a \<noteq> []"
    and "find_f (text_path (ta_collector_name a) (ta_file_name a)) (map (text_path (ta_collector_name a)) (ta_exclude_files a)) =
      Ok (c # cs)"
    and "ta_outcomes a = o' # os" and "select_outcome o' = Some (sev, so)" and "so_when so = []"
  shows "\<not> is_ok (analyze_text_analyze compile render find_f a t)"
proof
  assume "is_ok (analyze_text_analyze compile render find_f a t)"
  then obtain rs where "analyze_text_analyze compile render find_f a t = Ok rs"
    by (cases "analyze_text_analyze compile render find_f a t") simp_all
  with assms(1-3) obtain r where
    "analyze_regex_groups compile render (ta_regex_groups a) (snd c) (map fill_when (ta_outcomes a)) t = Ok r"
    by (cases c) (auto simp: analyze_text_analyze_def Let_def res_simps)
  with regex_groups_filled [OF assms(5,6)] show False unfolding assms(4) by blast
qed

theorem both_expressions_fail_witness:
  "\<not> is_ok (analyze_text_analyze (\<lambda>_. Ok \<lparr>rx_prog = Emp, subexp_names = [[]]\<rparr>) (\<lambda>_ _. Ok [])
      (\<lambda>_ _. Ok [(''c/f'', ''text'')])
      \<lparr>ta_collector_name = ''c'', ta_file_name = ''f'', ta_exclude_files = [], ta_regex_pattern = ''x'', ta_regex_groups = ''y'',
       ta_ignore_if_no_files = False, ta_strict = None,
       ta_outcomes = [\<lparr>o_fail = None, o_warn = None, o_pass = Some \<lparr>so_when = [], so_message = ''ok'', so_uri = []\<rparr>\<rparr>]\<rparr> ''t'')"
  by (rule both_expressions_fail [where c = "(''c/f'', ''text'')" and cs = "[]" and sev = SPass and
      so = "\<lparr>so_when = [], so_message = ''ok'', so_uri = []\<rparr>" and os = "[]" and
      o' = "\<lparr>o_fail = None, o_warn = None, o_pass = Some \<lparr>so_when = [], so_message = ''ok'', so_uri = []\<rparr>\<rparr>"]) (simp_all add: select_outcome_def)

end
