(* ===== verification/Databases.thy ===== *)
theory Databases
  imports Host_Checks Cluster_Checks
begin

text \<open>
  The analyzers of database connections: MySQL (\<^verbatim>\<open>mysql.go\<close>), PostgreSQL (\<^verbatim>\<open>postgres.go\<close>), Redis
  (\<^verbatim>\<open>redis.go\<close>), MS SQL Server (\<^verbatim>\<open>mssql.go\<close>) and the condition three of them share
  (\<^verbatim>\<open>database_shared.go\<close>). The two libraries for versions are parameters: the semantic versions of the shared
  condition and the version constraints of the one for MS SQL Server, each a way to read a version, to print it and to read
  a range.
\<close>

section \<open>Connections\<close>

record database_connection =
  is_connected :: bool
  db_error :: string
  db_version :: string

record database_analyze =
  da_check_name :: string
  da_collector_name :: string
  da_strict :: "bool_or_string option"
  da_outcomes :: "outcome list"

definition collector_name_or :: "string \<Rightarrow> database_analyze \<Rightarrow> string" where
  "collector_name_or kind a = (if da_collector_name a = [] then kind else da_collector_name a)"

definition database_title :: "string \<Rightarrow> database_analyze \<Rightarrow> string" where
  "database_title kind a = (if da_check_name a = [] then collector_name_or kind a else da_check_name a)"

definition read_connection ::
  "string \<Rightarrow> string \<Rightarrow> (string \<Rightarrow> database_connection res) \<Rightarrow> get_file \<Rightarrow> database_analyze \<Rightarrow> database_connection res" where
  "read_connection kind problem unmarshal get a =
     (let p = path_join [kind, collector_name_or kind a @ ''.json''] in
      bind_res (wrap_res (''failed to read collected file name: '' @ p) (get p)) (\<lambda>c. wrap_res problem (unmarshal c)))"

section \<open>Conditions\<close>

definition connected_holds :: "string \<Rightarrow> string \<Rightarrow> database_connection \<Rightarrow> bool res" where
  "connected_holds op v c =
     bind_res (wrap_res ''failed to parse bool'' (parse_bool v)) (\<lambda>expected.
       if op \<in> {''='', ''=='', ''===''} then Ok (expected = is_connected c)
       else if op \<in> {''!='', ''!==''} then Ok (expected \<noteq> is_connected c)
       else Fail (Err ''unable to parse postgres connected analyzer''))"

definition zero_x :: "string \<Rightarrow> string" where
  "zero_x v = replace_all ''x'' ''0'' v"

definition compare_database_conditional_to_actual ::
  "'v semver_libs \<Rightarrow> string \<Rightarrow> database_connection \<Rightarrow> bool res" where
  "compare_database_conditional_to_actual L conditional c =
     (case split_on (CHR '' '') (trim_space conditional) of
        [name, op, v] \<Rightarrow>
          if name = ''connected'' then connected_holds op v c
          else if name = ''version'' then
            bind_res (wrap_res ''failed to parse expected version'' (sv_tolerant L (zero_x v))) (\<lambda>expected.
            bind_res (wrap_res ''failed to parse postgres db actual version'' (sv_tolerant L (zero_x (db_version c)))) (\<lambda>actual.
            bind_res (wrap_res ''failed to parse semver range'' (sv_range L (op @ '' '' @ sv_show L expected))) (\<lambda>in_range.
              Ok (in_range actual))))
          else Ok False
      | _ \<Rightarrow> Fail (Err ''unable to parse conditional''))"

definition mssql_operation :: "string \<Rightarrow> string" where
  "mssql_operation op =
     (if op \<in> {''='', ''=='', ''===''} then ''='' else if op \<in> {''!='', ''!==''} then ''!='' else op)"

definition compare_mssql_conditional_to_actual ::
  "'v semver_libs \<Rightarrow> string \<Rightarrow> database_connection \<Rightarrow> bool res" where
  "compare_mssql_conditional_to_actual L conditional c =
     (case split_on (CHR '' '') (trim_space conditional) of
        [name, op, v] \<Rightarrow>
          if name = ''connected'' then connected_holds op v c
          else if name = ''version'' then
            bind_res (wrap_res ''failed to parse expected version'' (sv_tolerant L (zero_x v))) (\<lambda>expected.
            bind_res (wrap_res ''failed to parse mssql db actual version'' (sv_tolerant L (zero_x (db_version c)))) (\<lambda>actual.
            bind_res (wrap_res ''failed to create constraint'' (sv_range L (mssql_operation op @ '' '' @ sv_show L expected)))
              (\<lambda>holds. Ok (holds actual))))
          else Ok False
      | _ \<Rightarrow> Fail (Err ''unable to parse conditional''))"

section \<open>Outcomes\<close>

definition database_problem :: "string \<Rightarrow> string" where
  "database_problem name = ''failed to compare '' @ name @ '' database conditional''"

definition branch_step :: "(string \<Rightarrow> bool res) \<Rightarrow> string \<Rightarrow> analyze_result \<Rightarrow> string \<Rightarrow> bool \<Rightarrow> analyze_result option res" where
  "branch_step check name concluded w unconditional =
     (if unconditional then Ok (Some concluded)
      else bind_res (wrap_res (database_problem name) (check w)) (\<lambda>m. Ok (if m then Some concluded else None)))"

text \<open>Redis.\<close>

definition plain_step :: "(string \<Rightarrow> bool res) \<Rightarrow> string \<Rightarrow> analyze_result \<Rightarrow> outcome \<Rightarrow> analyze_result option res" where
  "plain_step check name r o' =
     (case select_outcome o' of
        None \<Rightarrow> Ok None
      | Some (sev, so) \<Rightarrow> branch_step check name (conclude sev so r) (so_when so) (so_when so = []))"

text \<open>MySQL: whether a warning has a condition is read from the pass outcome beside it.\<close>

definition mysql_step :: "(string \<Rightarrow> bool res) \<Rightarrow> analyze_result \<Rightarrow> outcome \<Rightarrow> analyze_result option res" where
  "mysql_step check r o' =
     (case select_outcome o' of
        None \<Rightarrow> Ok None
      | Some (SWarn, so) \<Rightarrow>
          (case o_pass o' of
             None \<Rightarrow> Panic ''invalid memory address or nil pointer dereference''
           | Some p \<Rightarrow> branch_step check ''mysql'' (conclude SWarn so r) (so_when so) (so_when p = []))
      | Some (sev, so) \<Rightarrow> branch_step check ''mysql'' (conclude sev so r) (so_when so) (so_when so = []))"

text \<open>PostgreSQL and MS SQL Server: a failure whose condition holds tells the error of the connection.\<close>

definition failure_text :: "database_connection \<Rightarrow> severity \<Rightarrow> single_outcome \<Rightarrow> string" where
  "failure_text c sev so =
     (if sev = SFail \<and> so_when so \<noteq> [] \<and> db_error c \<noteq> [] then so_message so @ '' '' @ db_error c else so_message so)"

definition telling_step ::
  "(string \<Rightarrow> bool res) \<Rightarrow> string \<Rightarrow> database_connection \<Rightarrow> analyze_result \<Rightarrow> outcome \<Rightarrow> analyze_result option res" where
  "telling_step check name c r o' =
     (case select_outcome o' of
        None \<Rightarrow> Ok None
      | Some (sev, so) \<Rightarrow>
          branch_step check name ((conclude sev so r)\<lparr>message := failure_text c sev so\<rparr>) (so_when so) (so_when so = []))"

fun database_loop :: "(outcome \<Rightarrow> analyze_result option res) \<Rightarrow> analyze_result \<Rightarrow> outcome list \<Rightarrow> analyze_result res" where
  "database_loop step r [] = Ok r"
| "database_loop step r (o' # os) =
     bind_res (step o') (\<lambda>d. case d of None \<Rightarrow> database_loop step r os | Some r' \<Rightarrow> Ok r')"

section \<open>Analyzers\<close>

definition database_icon :: "string \<Rightarrow> database_analyze \<Rightarrow> analyze_result" where
  "database_icon kind a =
     icon_result (database_title kind a) (''kubernetes_'' @ kind @ ''_analyze'')
       (''https://troubleshoot.sh/images/analyzer-icons/'' @ kind @ ''-analyze.svg'')"

definition analyze_mysql where
  "analyze_mysql L unmarshal get a =
     bind_res (read_connection ''mysql'' ''failed to unmarshal databased connection result'' unmarshal get a) (\<lambda>c.
       let r = database_icon ''mysql'' a in
       database_loop (mysql_step (\<lambda>w. compare_database_conditional_to_actual L w c) r) r (da_outcomes a))"

definition analyze_postgres where
  "analyze_postgres L unmarshal get a =
     bind_res (read_connection ''postgres'' ''failed to unmarshal databased connection result'' unmarshal get a) (\<lambda>c.
       let r = database_icon ''postgres'' a in
       database_loop (telling_step (\<lambda>w. compare_database_conditional_to_actual L w c) ''postgres'' c r) r (da_outcomes a))"

definition analyze_redis where
  "analyze_redis L unmarshal get a =
     bind_res (read_connection ''redis'' ''failed to unmarshal database connection result'' unmarshal get a) (\<lambda>c.
       let r = database_icon ''redis'' a in
       database_loop (plain_step (\<lambda>w. compare_database_conditional_to_actual L w c) ''redis'' r) r (da_outcomes a))"

definition analyze_mssql where
  "analyze_mssql L unmarshal get a =
     bind_res (read_connection ''mssql'' ''failed to unmarshal databased connection result'' unmarshal get a) (\<lambda>c.
       let r = new_result (database_title ''mssql'' a) in
       database_loop (telling_step (\<lambda>w. compare_mssql_conditional_to_actual L w c) ''MS SQL Server'' c r) r (da_outcomes a))"

definition mysql_Analyze where
  "mysql_Analyze L unmarshal get a = single_Analyze (da_strict a) (analyze_mysql L unmarshal get a)"

definition postgres_Analyze where
  "postgres_Analyze L unmarshal get a = single_Analyze (da_strict a) (analyze_postgres L unmarshal get a)"

definition redis_Analyze where
  "redis_Analyze L unmarshal get a = single_Analyze (da_strict a) (analyze_redis L unmarshal get a)"

definition mssql_Analyze where
  "mssql_Analyze L unmarshal get a = single_Analyze (da_strict a) (analyze_mssql L unmarshal get a)"

section \<open>Lemmas\<close>

interpretation database_walk: outcome_loop "database_loop step r" step "Ok r" for step r
  by unfold_locales simp_all

lemma database_loop_cong:
  "\<forall>o'\<in>set os. step o' = step' o' \<Longrightarrow> database_loop step r os = database_loop step' r os"
  by (induction os) simp_all

lemma database_loop_image:
  assumes "\<And>o'. o' \<in> set os \<Longrightarrow> map_res (map_option f) (step o') = map_res (map_option f) (step' o')"
  shows "map_res f (database_loop step r os) = map_res f (database_loop step' r os)"
  using assms
proof (induction os)
  case (Cons o' os)
  have "map_res (map_option f) (step o') = map_res (map_option f) (step' o')" using Cons.prems by simp
  moreover have "map_res f (database_loop step r os) = map_res f (database_loop step' r os)"
    using Cons by simp
  ultimately show ?case
    by (cases "step o'"; cases "step' o'") (auto split: option.split)
qed simp

text \<open>An outcome that MySQL reads as the other databases do.\<close>

definition plain_warning :: "outcome \<Rightarrow> bool" where
  "plain_warning o' \<longleftrightarrow>
     (case select_outcome o' of
        Some (SWarn, w) \<Rightarrow> (case o_pass o' of None \<Rightarrow> False | Some p \<Rightarrow> (so_when p = []) = (so_when w = []))
      | _ \<Rightarrow> True)"

lemma mysql_step_plain: "plain_warning o' \<Longrightarrow> mysql_step check r o' = plain_step check ''mysql'' r o'"
  by (auto simp: plain_warning_def mysql_step_def plain_step_def split: option.splits prod.splits severity.splits)

definition lone_warning :: "outcome \<Rightarrow> bool" where
  "lone_warning o' \<longleftrightarrow> o_fail o' = None \<and> o_warn o' \<noteq> None \<and> o_pass o' = None"

lemma branch_step_no_panic: "\<not> is_panic (check w) \<Longrightarrow> \<not> is_panic (branch_step check name x w u)"
  by (simp add: branch_step_def is_panic_bind)

lemma mysql_step_panic: "(\<And>w. \<not> is_panic (check w)) \<Longrightarrow> is_panic (mysql_step check r o') \<longleftrightarrow> lone_warning o'"
  by (auto simp: mysql_step_def lone_warning_def select_outcome_def branch_step_no_panic
      split: option.splits prod.splits severity.splits)

lemma branch_step_map:
  "map_res (map_option f) (branch_step check name x w u) = branch_step check name (f x) w u"
  by (cases "check w") (simp_all add: branch_step_def)

lemma telling_step_plain:
  "map_res (map_option (\<lambda>r. r\<lparr>message := []\<rparr>)) (telling_step check name c r o') =
   map_res (map_option (\<lambda>r. r\<lparr>message := []\<rparr>)) (plain_step check name r o')"
  by (simp add: telling_step_def plain_step_def branch_step_map split: option.split prod.split)

lemma conclude_message: "(conclude sev so r)\<lparr>message := so_message so\<rparr> = conclude sev so r"
  by (cases sev) (simp_all add: conclude_def set_severity_def)

lemma telling_step_no_error: "db_error c = [] \<Longrightarrow> telling_step check name c r o' = plain_step check name r o'"
  by (simp add: telling_step_def plain_step_def failure_text_def conclude_message split: option.split prod.split)

section \<open>Properties\<close>



text \<open>
  What the conditions mean: a condition on the connection compares a flag with it, one on the version holds when the
  range of the library holds of the version with every \<open>x\<close> read as a zero, where MS SQL Server writes the operators
  for equality and inequality in one way; a condition that has not three words is an error.
\<close>

theorem database_conditions_meaning:
  assumes "is_word op" and "is_word v"
    and "sv_tolerant L (zero_x v) = Ok e" and "sv_tolerant L (zero_x (db_version c)) = Ok a"
    and "\<And>op e. sv_range L (op @ '' '' @ sv_show L e) = Ok (holds op e)"
  shows "compare_database_conditional_to_actual L (sentence [''version'', op, v]) c = Ok (holds op e a) \<and>
    compare_mssql_conditional_to_actual L (sentence [''version'', op, v]) c = Ok (holds (mssql_operation op) e a) \<and>
    (\<forall>flag. parse_bool v = Ok flag \<longrightarrow>
       (\<forall>check \<in> {compare_database_conditional_to_actual L, compare_mssql_conditional_to_actual L}.
          (op \<in> {''='', ''=='', ''===''} \<longrightarrow> check (sentence [''connected'', op, v]) c = Ok (flag = is_connected c)) \<and>
          (op \<in> {''!='', ''!==''} \<longrightarrow> check (sentence [''connected'', op, v]) c = Ok (flag \<noteq> is_connected c))))"
proof -
  have w: "is_word ''version''" "is_word ''connected''" by code_simp+
  have "trim_space (sentence [n, op, v]) = sentence [n, op, v] \<and> split_on (CHR '' '') (sentence [n, op, v]) = [n, op, v]"
    if "n \<in> {''version'', ''connected''}" for n
    using w that assms(1,2) by (auto intro: trim_sentence split_words)
  with assms show ?thesis
    by (auto simp: compare_database_conditional_to_actual_def compare_mssql_conditional_to_actual_def connected_holds_def)
qed

theorem database_conditions_meaning_witness:
  "\<exists>L :: nat semver_libs. compare_mssql_conditional_to_actual L (sentence [''version'', ''==='', ''8.x''])
     \<lparr>is_connected = True, db_error = [], db_version = ''8.x''\<rparr> = Ok True"
proof -
  let ?L = "\<lparr>sv_tolerant = (\<lambda>_. Ok 8), sv_show = (\<lambda>_. []), sv_range = (\<lambda>_. Ok (\<lambda>_. True))\<rparr> :: nat semver_libs"
  have w: "is_word ''===''" "is_word ''8.x''" by code_simp+
  have "compare_mssql_conditional_to_actual ?L (sentence [''version'', ''==='', ''8.x''])
      \<lparr>is_connected = True, db_error = [], db_version = ''8.x''\<rparr> = Ok True"
    using database_conditions_meaning [OF w, of ?L 8 "\<lparr>is_connected = True, db_error = [], db_version = ''8.x''\<rparr>" 8
        "\<lambda>_ _ _. True"] by simp
  then show ?thesis by blast
qed

end
