(* ===== verification/Cluster_Health.thy ===== *)
theory Cluster_Health
  imports Cluster_Reports Sysctl
begin

text \<open>
  Analyzers that sum up many objects: the state of Velero (\<^verbatim>\<open>velero.go\<close>), the use of persistent volumes reported by the
  nodes (\<^verbatim>\<open>k8s_node_metrics.go\<close>), the certificates of a host (\<^verbatim>\<open>host_certificates_collection.go\<close>) and the
  connectivity between network namespaces (\<^verbatim>\<open>host_network_namespace_connectivity.go\<close>). Parameters are the decoders, the
  phases and semantic versions of the Velero and Go libraries, floats, templates and the compilation of user expressions.
\<close>

section \<open>Velero\<close>

record velero_item =
  vi_name :: string
  vi_phase :: string

text \<open>The phases the Velero library declares.\<close>

record velero_phases =
  vp_repository_ready :: string
  vp_location_available :: string
  vp_backup_failed :: "string list"
  vp_request_in_progress :: string
  vp_volume_backup_failed :: string
  vp_volume_restore_failed :: string
  vp_restore_failed :: "string list"
  vp_schedule_failed :: string
  vp_snapshot_unavailable :: string

definition ResticRepositoryPhaseReady :: string where
  "ResticRepositoryPhaseReady = ''Ready''"

definition not_in_phase :: "string \<Rightarrow> string \<Rightarrow> velero_item \<Rightarrow> analyze_result option" where
  "not_in_phase kind phase i =
     (if vi_phase i \<noteq> phase
      then Some (flagged SWarn (kind @ '' '' @ vi_name i) (kind @ '' ['' @ vi_name i @ ''] is in phase '' @ vi_phase i))
      else None)"

definition at_least_one :: "string \<Rightarrow> string \<Rightarrow> string \<Rightarrow> string \<Rightarrow> string \<Rightarrow> velero_item list \<Rightarrow> analyze_result list" where
  "at_least_one kind plural phase state adjective xs =
     (let t = ''At least 1 '' @ kind @ '' configured''; ready = length (filter (\<lambda>i. vi_phase i = phase) xs) in
      if xs = [] then [flagged SFail t (''No '' @ plural @ '' configured'')]
      else List.map_filter (not_in_phase kind phase) xs @
        [if ready > 0
         then flagged SPass t (''Found '' @ show_nat (length xs) @ '' '' @ plural @ '' configured and '' @ show_nat ready @ '' '' @ state)
         else flagged SWarn t (''Found '' @ show_nat (length xs) @ '' configured '' @ plural @ '', but none are '' @ adjective)])"

definition analyze_backup_repositories :: "velero_phases \<Rightarrow> velero_item list \<Rightarrow> analyze_result list" where
  "analyze_backup_repositories P =
     at_least_one ''Backup Repository'' ''backup repositories'' (vp_repository_ready P) ''Ready'' ''ready''"

definition analyze_restic_repositories :: "velero_item list \<Rightarrow> analyze_result list" where
  "analyze_restic_repositories =
     at_least_one ''Restic Repository'' ''restic repositories'' ResticRepositoryPhaseReady ''Ready'' ''ready''"

definition analyze_backup_storage_locations :: "velero_phases \<Rightarrow> velero_item list \<Rightarrow> analyze_result list" where
  "analyze_backup_storage_locations P =
     at_least_one ''Backup Storage Location'' ''backup storage locations'' (vp_location_available P) ''Available'' ''available''"

definition in_failed_phase :: "string \<Rightarrow> string list \<Rightarrow> velero_item \<Rightarrow> analyze_result option" where
  "in_failed_phase kind phases i =
     (if vi_phase i \<in> set phases
      then Some (flagged SFail (kind @ '' '' @ vi_name i) (kind @ '' '' @ vi_name i @ '' phase is '' @ vi_phase i)) else None)"

definition analyze_backups :: "velero_phases \<Rightarrow> velero_item list \<Rightarrow> analyze_result list" where
  "analyze_backups P xs =
     List.map_filter (in_failed_phase ''Backup'' (vp_backup_failed P)) xs @
     (if xs = [] then [] else [flagged SPass ''Velero Backups'' (''Found '' @ show_nat (length xs) @ '' backups'')])"

definition analyze_delete_backup_requests :: "velero_phases \<Rightarrow> velero_item list \<Rightarrow> analyze_result list" where
  "analyze_delete_backup_requests P xs =
     (let n = length (filter (\<lambda>i. vi_phase i = vp_request_in_progress P) xs) in
      if n > 0 then [flagged SWarn ''Delete Backup Requests summary'' (''Found '' @ show_nat n @ '' delete backup requests in progress'')]
      else [])"

definition none_failed :: "string \<Rightarrow> string \<Rightarrow> string \<Rightarrow> string list \<Rightarrow> velero_item list \<Rightarrow> analyze_result list" where
  "none_failed kind summary plural phases xs =
     (let failures = List.map_filter (in_failed_phase kind phases) xs in
      if xs \<noteq> [] \<and> failures = [] then [flagged SPass summary (''Found '' @ show_nat (length xs) @ '' '' @ plural)] else failures)"

definition analyze_pod_volume_backups :: "velero_phases \<Rightarrow> velero_item list \<Rightarrow> analyze_result list" where
  "analyze_pod_volume_backups P =
     none_failed ''Pod Volume Backup'' ''Pod Volume Backups'' ''pod volume backups'' [vp_volume_backup_failed P]"

definition analyze_pod_volume_restores :: "velero_phases \<Rightarrow> velero_item list \<Rightarrow> analyze_result list" where
  "analyze_pod_volume_restores P =
     none_failed ''Pod Volume Restore'' ''Pod Volume Restores'' ''pod volume restores'' [vp_volume_restore_failed P]"

definition analyze_restores :: "velero_phases \<Rightarrow> velero_item list \<Rightarrow> analyze_result list" where
  "analyze_restores P = none_failed ''Restore'' ''Velero Restores'' ''restores'' (vp_restore_failed P)"

definition analyze_schedules :: "velero_phases \<Rightarrow> velero_item list \<Rightarrow> analyze_result list" where
  "analyze_schedules P = none_failed ''Schedule'' ''Velero Schedules'' ''schedules'' [vp_schedule_failed P]"

definition analyze_volume_snapshot_locations :: "velero_phases \<Rightarrow> velero_item list \<Rightarrow> analyze_result list" where
  "analyze_volume_snapshot_locations P =
     none_failed ''Volume Snapshot Location'' ''Velero Volume Snapshot Locations'' ''volume snapshot locations''
       [vp_snapshot_unavailable P]"

definition analyze_log :: "string \<Rightarrow> string \<times> string \<Rightarrow> analyze_result option" where
  "analyze_log kind = (\<lambda>(key, content).
     let t = ''Velero logs for pod ['' @ key @ '']'' in
     if contains_sub ''permission denied'' content
     then Some (flagged SWarn t (''Found '' @ CHR 0x27 # ''permission denied'' @ CHR 0x27 # '' in '' @ kind @ '' pod log file(s)''))
     else if contains_sub ''error'' content \<or> contains_sub ''panic'' content \<or> contains_sub ''fatal'' content
     then Some (flagged SWarn t (''Found error|panic|fatal in '' @ kind @ '' pod log file(s)''))
     else None)"

definition analyze_logs :: "(string \<times> string) list \<Rightarrow> string \<Rightarrow> analyze_result list" where
  "analyze_logs logs kind =
     (if logs = [] then []
      else List.map_filter (analyze_log kind) logs @
        [flagged SPass (''Velero Logs analysis for kind ['' @ kind @ '']'') (''Found '' @ show_nat (length logs) @ '' log files'')])"

definition aggregate_results :: "analyze_result list \<Rightarrow> analyze_result list" where
  "aggregate_results rs =
     (if rs = [] then []
      else rs @ [if list_ex is_fail rs then flagged SWarn ''Velero Status'' ''Velero setup is not entirely healthy''
                 else flagged SPass ''Velero Status'' ''Velero setup is healthy''])"

text \<open>
  What the analyzer reads: the version from the image of the first container named \<^verbatim>\<open>velero\<close>, then one directory after
  the other. An image without a tag has no second part.
\<close>

record velero_libs =
  vl_phases :: velero_phases
  vl_items :: "string \<Rightarrow> velero_item list res"
  vl_restic :: "velero_item list \<Rightarrow> string \<Rightarrow> velero_item list res"
  vl_deployments :: "string \<Rightarrow> (string \<times> string) list list option res"
  vl_is_valid :: "string \<Rightarrow> bool"
  vl_compare :: "string \<Rightarrow> string \<Rightarrow> int"

definition velero_deployment_dir :: string where
  "velero_deployment_dir = ''cluster-resources/deployments''"

definition get_velero_version :: "velero_libs \<Rightarrow> find_files \<Rightarrow> string res" where
  "get_velero_version L find_f =
     bind_res (wrap_res ''failed to find Velero deployment'' (find_f (path_join [velero_deployment_dir, ''velero.json'']) []))
       (\<lambda>files.
         case files of
           [] \<Rightarrow> Fail (Err (''could not find Velero deployment in '' @ velero_deployment_dir))
         | (key, c) # _ \<Rightarrow>
             bind_res (wrap_res (''failed to unmarshal Velero deployment json from '' @ key) (vl_deployments L c)) (\<lambda>ds.
               case ds of
                 None \<Rightarrow> Fail (Err ''could not find Velero deployment'')
               | Some deployments \<Rightarrow>
                   (case map_of (concat deployments) ''velero'' of
                      None \<Rightarrow> Fail (Err ''could not find Velero container in deployment'')
                    | Some img \<Rightarrow>
                        (case split_on (CHR '':'') img of
                           _ # version # _ \<Rightarrow> Ok version
                         | _ \<Rightarrow> Panic ''runtime error: index out of range''))))"

definition custom_resources :: "string \<Rightarrow> string" where
  "custom_resources kind = ''cluster-resources/custom-resources/'' @ kind @ ''.velero.io''"

text \<open>Files are read one after the other; the decoder gives no nil elements.\<close>

definition read_items :: "velero_libs \<Rightarrow> find_files \<Rightarrow> string \<Rightarrow> string \<Rightarrow> string \<Rightarrow> velero_item list res" where
  "read_items L find_f kind plural noun =
     (let d = custom_resources kind in
      bind_res (wrap_res (''failed to find velero '' @ plural @ '' files under '' @ d) (find_f (path_join [d, ''*.json'']) []))
        (\<lambda>files. map_res concat (map_m (\<lambda>(key, c).
           wrap_res (''failed to unmarshal '' @ noun @ '' json from '' @ key) (vl_items L c)) files)))"

text \<open>Every file of restic repositories is decoded into the list of those before it, and nothing is appended.\<close>

fun decode_restic :: "velero_libs \<Rightarrow> (string \<times> string) list \<Rightarrow> velero_item list \<Rightarrow> velero_item list res" where
  "decode_restic L [] acc = Ok acc"
| "decode_restic L ((key, c) # files) acc =
     bind_res (wrap_res (''failed to unmarshal restic repository json from '' @ key) (vl_restic L acc c)) (decode_restic L files)"

definition read_restic :: "velero_libs \<Rightarrow> find_files \<Rightarrow> velero_item list res" where
  "read_restic L find_f =
     (let d = custom_resources ''resticrepositories'' in
      bind_res (wrap_res (''failed to find velero restic repositories files under '' @ d) (find_f (path_join [d, ''*.json'']) []))
        (\<lambda>files. decode_restic L files []))"

definition read_backups :: "velero_libs \<Rightarrow> find_files \<Rightarrow> velero_item list res" where
  "read_backups L find_f =
     bind_res (wrap_res ''failed to find velero backup files'' (find_f (path_join [custom_resources ''backups'', ''*.json'']) []))
       (\<lambda>files. map_res concat (map_m (\<lambda>(_, c).
          wrap_res (''failed to unmarshal velero backup file '' @ c) (vl_items L c)) files))"

text \<open>Before version 1.10 the repositories are those of restic.\<close>

definition is_old_velero :: "velero_libs \<Rightarrow> string \<Rightarrow> bool" where
  "is_old_velero L version \<longleftrightarrow> vl_compare L version ''1.10.0'' < 0"

definition read_repositories :: "velero_libs \<Rightarrow> find_files \<Rightarrow> bool \<Rightarrow> velero_item list res" where
  "read_repositories L find_f old =
     (if old then read_restic L find_f
      else read_items L find_f ''backuprepositories'' ''backup repositories'' ''backup repository'')"

definition repositories_results :: "velero_phases \<Rightarrow> bool \<Rightarrow> velero_item list \<Rightarrow> analyze_result list" where
  "repositories_results P old xs = (if old then analyze_restic_repositories xs else analyze_backup_repositories P xs)"

text \<open>The error of the second search for logs is dropped.\<close>

definition velero_logs :: "find_files \<Rightarrow> (string \<times> string) list res" where
  "velero_logs find_f =
     (case find_f (path_join [''velero/logs'', ''velero*'', ''*.log'']) [] of Fail _ \<Rightarrow> Ok [] | r \<Rightarrow> r)"

record velero_data =
  vd_old :: bool
  vd_repositories :: "velero_item list"
  vd_backups :: "velero_item list"
  vd_locations :: "velero_item list"
  vd_delete_requests :: "velero_item list"
  vd_volume_backups :: "velero_item list"
  vd_volume_restores :: "velero_item list"
  vd_restores :: "velero_item list"
  vd_schedules :: "velero_item list"
  vd_snapshot_locations :: "velero_item list"
  vd_node_agent_logs :: "(string \<times> string) list"
  vd_velero_logs :: "(string \<times> string) list"

definition read_velero :: "velero_libs \<Rightarrow> find_files \<Rightarrow> velero_data res" where
  "read_velero L find_f =
     bind_res (wrap_res ''Unable to find velero deployment'' (get_velero_version L find_f)) (\<lambda>version.
     bind_res (if vl_is_valid L version then Ok () else Fail (Err (''Invalid velero semver: '' @ version))) (\<lambda>_.
     bind_res (read_repositories L find_f (is_old_velero L version)) (\<lambda>repositories.
     bind_res (read_backups L find_f) (\<lambda>backups.
     bind_res (read_items L find_f ''backupstoragelocations'' ''backup storage locations'' ''backup storage location'') (\<lambda>locations.
     bind_res (read_items L find_f ''deletebackuprequests'' ''delete backup requests'' ''delete backup request'') (\<lambda>requests.
     bind_res (read_items L find_f ''podvolumebackups'' ''pod volume backups'' ''pod volume backup'') (\<lambda>volume_backups.
     bind_res (read_items L find_f ''podvolumerestores'' ''pod volume restores'' ''pod volume restore'') (\<lambda>volume_restores.
     bind_res (read_items L find_f ''restores'' ''restores'' ''restore'') (\<lambda>restores.
     bind_res (read_items L find_f ''schedules'' ''schedules'' ''schedule'') (\<lambda>schedules.
     bind_res (read_items L find_f ''serverstatusrequests'' ''server status requests'' ''server status request'') (\<lambda>_.
     bind_res (read_items L find_f ''volumesnapshotlocations'' ''volume snapshot locations'' ''volume snapshot location'') (\<lambda>snapshots.
     bind_res (wrap_res ''failed to find velero logs files under velero/logs''
         (find_f (path_join [''velero/logs'', ''node-agent*'', ''*.log'']) [])) (\<lambda>agent_logs.
     bind_res (velero_logs find_f) (\<lambda>logs.
       Ok \<lparr>vd_old = is_old_velero L version, vd_repositories = repositories, vd_backups = backups, vd_locations = locations, vd_delete_requests = requests,
         vd_volume_backups = volume_backups, vd_volume_restores = volume_restores, vd_restores = restores,
         vd_schedules = schedules, vd_snapshot_locations = snapshots, vd_node_agent_logs = agent_logs,
         vd_velero_logs = logs\<rparr>))))))))))))))"

definition velero_results :: "velero_phases \<Rightarrow> velero_data \<Rightarrow> analyze_result list" where
  "velero_results P d =
     repositories_results P (vd_old d) (vd_repositories d) @ analyze_logs (vd_node_agent_logs d) ''node-agent*'' @ analyze_logs (vd_velero_logs d) ''velero*'' @
     analyze_backups P (vd_backups d) @ analyze_backup_storage_locations P (vd_locations d) @
     analyze_delete_backup_requests P (vd_delete_requests d) @ analyze_pod_volume_backups P (vd_volume_backups d) @
     analyze_pod_volume_restores P (vd_volume_restores d) @ analyze_restores P (vd_restores d) @
     analyze_schedules P (vd_schedules d) @ analyze_volume_snapshot_locations P (vd_snapshot_locations d)"

definition velero_status :: "velero_libs \<Rightarrow> find_files \<Rightarrow> analyze_result list res" where
  "velero_status L find_f = map_res (\<lambda>d. aggregate_results (velero_results (vl_phases L) d)) (read_velero L find_f)"

definition velero_Analyze :: "velero_libs \<Rightarrow> find_files \<Rightarrow> bool_or_string option \<Rightarrow> analyze_result list res" where
  "velero_Analyze L find_f strict_flag =
     map_res (map (\<lambda>r. r\<lparr>strict := bool_or_default_false strict_flag\<rparr>)) (velero_status L find_f)"

section \<open>Use of volumes\<close>

text \<open>Operations of \<^verbatim>\<open>float64\<close>: a percentage of two counts of bytes, parsing and comparison.\<close>

record 'f percentages =
  pf_percent :: "nat \<Rightarrow> nat \<Rightarrow> 'f"
  pf_parse :: "string \<Rightarrow> 'f res"
  pf_eq :: "'f \<Rightarrow> 'f \<Rightarrow> bool"
  pf_less :: "'f \<Rightarrow> 'f \<Rightarrow> bool"

record volume_stats =
  vs_pvc :: "(string \<times> string) option"
  vs_used :: "nat option"
  vs_capacity :: "nat option"

record pod_stats =
  ps_namespace :: string
  ps_volumes :: "volume_stats list"

type_synonym summary = "pod_stats list"

record pvc_filter =
  pf_name_regex :: string
  pf_namespace :: string

definition volume_usage :: "'f percentages \<Rightarrow> regexp option \<Rightarrow> volume_stats \<Rightarrow> (string \<times> 'f) list" where
  "volume_usage F name_regex v =
     (case vs_pvc v of
        None \<Rightarrow> []
      | Some (ns, name) \<Rightarrow>
          if (case name_regex of None \<Rightarrow> False | Some re \<Rightarrow> \<not> re_match re name) then []
          else (case (vs_used v, vs_capacity v) of
                  (Some used, Some cap) \<Rightarrow> [(ns @ ''/'' @ name, pf_percent F used cap)]
                | _ \<Rightarrow> []))"

definition pod_usage :: "'f percentages \<Rightarrow> regexp option \<Rightarrow> string \<Rightarrow> pod_stats \<Rightarrow> (string \<times> 'f) list" where
  "pod_usage F name_regex ns p =
     (if ns \<noteq> [] \<and> ns \<noteq> ps_namespace p then [] else concat (map (volume_usage F name_regex) (ps_volumes p)))"

definition find_pvc_usage_stats ::
  "'f percentages \<Rightarrow> (string \<Rightarrow> regexp res) \<Rightarrow> pvc_filter option \<Rightarrow> summary list \<Rightarrow> (string \<times> 'f) list res" where
  "find_pvc_usage_stats F compile pvc_filter summaries =
     bind_res
       (case pvc_filter of
          None \<Rightarrow> Ok None
        | Some f \<Rightarrow> if pf_name_regex f = [] then Ok None
            else map_res Some (wrap_res ''failed to compile PVC name regex'' (compile (pf_name_regex f)))) (\<lambda>re.
       Ok (concat (map (pod_usage F re (case pvc_filter of None \<Rightarrow> [] | Some f \<Rightarrow> pf_namespace f)) (concat summaries))))"

definition usage_matches :: "'f percentages \<Rightarrow> comparison_operator \<Rightarrow> 'f \<Rightarrow> 'f \<Rightarrow> bool" where
  "usage_matches F op x y =
     (case op of
        Unknown \<Rightarrow> False
      | Equal \<Rightarrow> pf_eq F x y
      | NotEqual \<Rightarrow> \<not> pf_eq F x y
      | LessThan \<Rightarrow> pf_less F x y
      | GreaterThan \<Rightarrow> pf_less F y x
      | LessThanOrEqual \<Rightarrow> pf_less F x y \<or> pf_eq F x y
      | GreaterThanOrEqual \<Rightarrow> pf_less F y x \<or> pf_eq F x y)"

text \<open>The names of the volumes a condition holds of.\<close>

definition compare_node_metrics ::
  "'f percentages \<Rightarrow> (string \<Rightarrow> regexp res) \<Rightarrow> pvc_filter option \<Rightarrow> string \<Rightarrow> summary list \<Rightarrow> string list res" where
  "compare_node_metrics F compile pvc_filter conditional summaries =
     (case split_on (CHR '' '') (trim_space conditional) of
        [name, op, v] \<Rightarrow>
          if name \<noteq> ''pvcUsedPercentage'' then Fail (Err ''unknown node metric conditional'')
          else bind_res (wrap_res ''failed to parse comparison operator'' (parse_comparison_operator op)) (\<lambda>operator.
            bind_res (wrap_res ''failed to parse bool'' (pf_parse F v)) (\<lambda>expected.
            bind_res (wrap_res ''failed to find PVC usage stats'' (find_pvc_usage_stats F compile pvc_filter summaries)) (\<lambda>stats.
              Ok (map fst (filter (\<lambda>(_, used). usage_matches F operator used expected) stats)))))
      | _ \<Rightarrow> Fail (Err ''unable to parse conditional''))"

text \<open>A text that can not be rendered is used as it is; without a condition it is not rendered.\<close>

definition render_or_raw :: "(string \<Rightarrow> string list \<Rightarrow> string res) \<Rightarrow> string \<Rightarrow> string list \<Rightarrow> string res" where
  "render_or_raw render msg names = (case render msg names of Fail _ \<Rightarrow> Ok msg | r \<Rightarrow> r)"

definition metrics_step ::
  "(string \<Rightarrow> string list res) \<Rightarrow> (string \<Rightarrow> string list \<Rightarrow> string res) \<Rightarrow> string \<Rightarrow> outcome \<Rightarrow> analyze_result option res" where
  "metrics_step check render t o' =
     (case select_outcome o' of
        None \<Rightarrow> Ok None
      | Some (sev, so) \<Rightarrow>
          if so_when so = [] then Ok (Some (conclude sev so (new_result t)))
          else bind_res (wrap_res ''failed to compare node metrics conditional with summary stats'' (check (so_when so))) (\<lambda>names.
            if names = [] then Ok None
            else map_res (\<lambda>msg. Some ((conclude sev so (new_result t))\<lparr>message := msg\<rparr>)) (render_or_raw render (so_message so) names)))"

fun metrics_loop ::
  "(string \<Rightarrow> string list res) \<Rightarrow> (string \<Rightarrow> string list \<Rightarrow> string res) \<Rightarrow> string \<Rightarrow> outcome list \<Rightarrow> analyze_result list res" where
  "metrics_loop check render t [] = Ok []"
| "metrics_loop check render t (o' # os) =
     bind_res (metrics_step check render t o') (\<lambda>d. case d of None \<Rightarrow> metrics_loop check render t os | Some r \<Rightarrow> Ok [r])"

record node_metrics_analyze =
  nm_check_name :: string
  nm_collector_name :: string
  nm_filter :: "pvc_filter option"
  nm_strict :: "bool_or_string option"
  nm_outcomes :: "outcome list"

definition node_metrics_title :: "node_metrics_analyze \<Rightarrow> string" where
  "node_metrics_title a =
     (if nm_check_name a \<noteq> [] then nm_check_name a else if nm_collector_name a \<noteq> [] then nm_collector_name a
      else ''Node Metrics'')"

definition node_metrics_Analyze where
  "node_metrics_Analyze F compile render unmarshal find_f a =
     bind_res (wrap_res ''failed to read collected pods'' (find_f (path_join [''node-metrics'', ''*.json'']) [])) (\<lambda>files.
     bind_res (map_m (\<lambda>(_, c). wrap_res ''failed to unmarshal node metrics'' (unmarshal c)) files) (\<lambda>summaries.
       map_res (map (\<lambda>r. r\<lparr>strict := bool_or_default_false (nm_strict a)\<rparr>))
         (wrap_res ''failed to compare node metrics with outcomes''
           (metrics_loop (\<lambda>w. compare_node_metrics F compile (nm_filter a) w summaries) render (node_metrics_title a)
             (nm_outcomes a)))))"

section \<open>Certificates of a host\<close>

record 't host_certificates =
  hc_path :: string
  hc_chain :: "'t parsed_certificate list"
  hc_message :: string

definition host_cert_outcome ::
  "(int \<Rightarrow> 't::linorder) \<Rightarrow> string \<Rightarrow> string \<Rightarrow> 't parsed_certificate \<Rightarrow> outcome \<Rightarrow> cert_state \<Rightarrow> cert_state res" where
  "host_cert_outcome target t source c o' st =
     (case (select_outcome o', st) of
        (None, _) \<Rightarrow> Fail (Err ''empty outcome'')
      | (Some (sev, so), (passes, out)) \<Rightarrow>
          let result = (\<lambda>extra. flagged sev t (so_message so @ extra @ '', '' @ source))
          in case sev of
               SPass \<Rightarrow> Ok (if cert_valid c then (passes @ [result []], out) else (passes, out))
             | SFail \<Rightarrow> Ok (if cert_valid c then (passes, out) else (passes, out @ [result []]))
             | SWarn \<Rightarrow>
                 (case (cert_valid c, find_submatch warn_date (so_when so)) of
                    (True, Some [_, days]) \<Rightarrow>
                      map_res (\<lambda>d.
                          if not_after c < target d then ([], out @ [result ('' in '' @ show_int d @ '' days'')])
                          else (passes, out))
                        (wrap_res ''failed to convert string to integer'' (atoi days))
                  | _ \<Rightarrow> Ok (passes, out)))"

fun host_cert_outcomes ::
  "(int \<Rightarrow> 't::linorder) \<Rightarrow> string \<Rightarrow> string \<Rightarrow> 't parsed_certificate \<Rightarrow> outcome list \<Rightarrow> cert_state \<Rightarrow> cert_state res" where
  "host_cert_outcomes target t source c [] st = Ok st"
| "host_cert_outcomes target t source c (o' # os) st =
     bind_res (host_cert_outcome target t source c o' st) (host_cert_outcomes target t source c os)"

fun host_cert_chain ::
  "(int \<Rightarrow> 't::linorder) \<Rightarrow> string \<Rightarrow> outcome list \<Rightarrow> string \<Rightarrow> 't parsed_certificate list \<Rightarrow> cert_state \<Rightarrow> cert_state res" where
  "host_cert_chain target t outcomes source [] st = Ok st"
| "host_cert_chain target t outcomes source (c # cs) st =
     bind_res (host_cert_outcomes target t source c outcomes st) (\<lambda>(passes, out).
       host_cert_chain target t outcomes source cs (passes, out @ passes))"

definition host_certificate_results ::
  "(int \<Rightarrow> 't::linorder) \<Rightarrow> string \<Rightarrow> outcome list \<Rightarrow> 't host_certificates \<Rightarrow> analyze_result list res" where
  "host_certificate_results target t outcomes h =
     (let source = (if hc_path h = [] then [] else ''obtained from '' @ hc_path h) in
      if hc_message h = ''cert-missing''
      then Ok [flagged SFail t (''Certificate is missing, cannot be '' @ source)]
      else map_res snd (host_cert_chain target t outcomes source (hc_chain h) ([], [])))"

definition host_certificates_Analyze ::
  "(int \<Rightarrow> 't::linorder) \<Rightarrow> (string \<Rightarrow> 't host_certificates list res) \<Rightarrow> get_file \<Rightarrow> string \<Rightarrow> string \<Rightarrow> outcome list \<Rightarrow>
   analyze_result list res" where
  "host_certificates_Analyze target unmarshal get check_name collector_name outcomes =
     (let name = path_join [''host-collectors/certificatesCollection'',
                   (if collector_name = [] then ''certificatesCollection'' else collector_name) @ ''.json''];
          t = host_analyzer_title_or_default check_name ''Host Certificates Collection'' in
      bind_res (wrap_res ''failed to get contents of certificatesCollection.json'' (get name)) (\<lambda>info.
      bind_res (wrap_res ''failed to parse certificatesCollection.json'' (unmarshal info)) (\<lambda>hs.
        map_res (\<lambda>rss. rc_get (concat rss) t) (map_m (host_certificate_results target t outcomes) hs))))"

section \<open>Connectivity of network namespaces\<close>

record namespace_errors =
  ne_from_cidr_creation :: string
  ne_to_cidr_creation :: string
  ne_udp_client :: string
  ne_udp_server :: string
  ne_tcp_client :: string
  ne_tcp_server :: string

definition told :: "string \<Rightarrow> string \<Rightarrow> string" where
  "told prefix problem = (if problem = [] then [] else prefix @ problem @ [CHR 0x0A])"

definition connectivity_errors :: "namespace_errors \<Rightarrow> string" where
  "connectivity_errors e =
     told (''Failed to create '' @ CHR 0x27 # ''from'' @ CHR 0x27 # '' namespace: '') (ne_from_cidr_creation e) @
     told (''Failed to create '' @ CHR 0x27 # ''to'' @ CHR 0x27 # '' namespace: '') (ne_to_cidr_creation e) @
     told ''UDP connection failed with: '' (ne_udp_client e) @
     told ''UDP server failed with: '' (ne_udp_server e) @
     told ''TCP connection failed with: '' (ne_tcp_client e) @
     told ''TCP server failed with: '' (ne_tcp_server e)"

definition connectivity_step ::
  "(string \<Rightarrow> string res) \<Rightarrow> bool \<Rightarrow> string \<Rightarrow> outcome \<Rightarrow> analyze_result list option res" where
  "connectivity_step render success t o' =
     (case (if success then (SPass, o_pass o') else (SFail, o_fail o')) of
        (_, None) \<Rightarrow> Ok None
      | (sev, Some so) \<Rightarrow>
          map_res (\<lambda>msg. Some [flagged sev t msg]) (wrap_res ''failed to render template on outcome message'' (render (so_message so))))"

fun connectivity_loop :: "(string \<Rightarrow> string res) \<Rightarrow> bool \<Rightarrow> string \<Rightarrow> outcome list \<Rightarrow> analyze_result list res" where
  "connectivity_loop render success t [] = Ok []"
| "connectivity_loop render success t (o' # os) =
     bind_res (connectivity_step render success t o') (\<lambda>d. case d of None \<Rightarrow> connectivity_loop render success t os | Some rs \<Rightarrow> Ok rs)"

text \<open>The decoder gives the success flag and the data the templates see.\<close>

definition connectivity_Analyze ::
  "(string \<Rightarrow> string list res) \<Rightarrow> (string \<Rightarrow> (bool \<times> 'd) res) \<Rightarrow> (string \<Rightarrow> 'd \<Rightarrow> string res) \<Rightarrow> (string \<Rightarrow> string res) \<Rightarrow>
   string \<Rightarrow> string \<Rightarrow> outcome list \<Rightarrow> analyze_result list res" where
  "connectivity_Analyze unmarshal_nodes unmarshal render get check_name collector_name outcomes =
     (let file_name = (if collector_name \<noteq> [] then collector_name else ''networkNamespaceConnectivity'') @ ''.json'';
          t = host_analyzer_title_or_default check_name ''Network Namespace Connectivity'' in
      bind_res (wrap_res ''failed to retrieve collected contents''
          (retrieve_collected_contents unmarshal_nodes get (path_join [''host-collectors/system'', file_name])
            ''host-collectors/system'' file_name)) (\<lambda>cs.
        map_res concat (map_m (\<lambda>c.
          bind_res (wrap_res ''failed to unmarshal disk usage info'' (unmarshal (content_data c))) (\<lambda>(success, info).
            connectivity_loop (\<lambda>msg. render msg info) success t outcomes)) cs)))"

section \<open>Lemmas\<close>

interpretation metrics_walk: outcome_loop
  "metrics_loop check render t" "\<lambda>o'. map_res (map_option (\<lambda>r. [r])) (metrics_step check render t o')" "Ok []" for check render t
proof
  show "metrics_loop check render t [] = Ok []" by simp
  show "metrics_loop check render t (x # xs) =
      bind_res (map_res (map_option (\<lambda>r. [r])) (metrics_step check render t x))
        (\<lambda>d. case d of None \<Rightarrow> metrics_loop check render t xs | Some r \<Rightarrow> Ok r)" for x xs
    by (cases "metrics_step check render t x") (auto split: option.split)
qed

interpretation connectivity_walk: outcome_loop
  "connectivity_loop render success t" "connectivity_step render success t" "Ok []" for render success t
  by unfold_locales simp_all

subsection \<open>Velero\<close>

lemma map_filter_set: "r \<in> set (List.map_filter f xs) \<longleftrightarrow> (\<exists>x\<in>set xs. f x = Some r)"
  by (induction xs) (auto simp: List.map_filter_simps split: option.splits)

definition verdicts :: "analyze_result list \<Rightarrow> bool" where
  "verdicts rs \<longleftrightarrow> (\<forall>r\<in>set rs. is_verdict r)"

definition no_fail :: "analyze_result list \<Rightarrow> bool" where
  "no_fail rs \<longleftrightarrow> (\<forall>r\<in>set rs. \<not> is_fail r)"

lemma verdicts_append [simp]: "verdicts (xs @ ys) \<longleftrightarrow> verdicts xs \<and> verdicts ys"
  and no_fail_append [simp]: "no_fail (xs @ ys) \<longleftrightarrow> no_fail xs \<and> no_fail ys"
  by (auto simp: verdicts_def no_fail_def)

lemma verdicts_simps [simp]: "verdicts []" "verdicts (flagged sev t m # rs) = verdicts rs"
  "no_fail []" "no_fail (flagged sev t m # rs) \<longleftrightarrow> sev \<noteq> SFail \<and> no_fail rs"
  by (auto simp: verdicts_def no_fail_def)

lemma at_least_one_shape [simp]:
  "verdicts (at_least_one kind plural phase state adjective xs)"
  "no_fail (at_least_one kind plural phase state adjective xs) \<longleftrightarrow> xs \<noteq> []"
  "at_least_one kind plural phase state adjective xs \<noteq> []"
proof -
  have "verdicts (List.map_filter (not_in_phase kind phase) xs)" "no_fail (List.map_filter (not_in_phase kind phase) xs)"
    by (auto simp: verdicts_def no_fail_def map_filter_set not_in_phase_def split: if_splits)
  then show "verdicts (at_least_one kind plural phase state adjective xs)"
    "no_fail (at_least_one kind plural phase state adjective xs) \<longleftrightarrow> xs \<noteq> []"
    "at_least_one kind plural phase state adjective xs \<noteq> []"
    by (simp_all add: at_least_one_def Let_def)
qed

lemma no_fail_map_filter: "no_fail (List.map_filter f xs) \<longleftrightarrow> (\<forall>x\<in>set xs. \<forall>r. f x = Some r \<longrightarrow> \<not> is_fail r)"
  by (auto simp: no_fail_def map_filter_set)

definition none_in :: "string list \<Rightarrow> velero_item list \<Rightarrow> bool" where
  "none_in phases xs \<longleftrightarrow> (\<forall>i\<in>set xs. vi_phase i \<notin> set phases)"

lemma failures_shape [simp]:
  "verdicts (List.map_filter (in_failed_phase kind phases) xs)"
  "no_fail (List.map_filter (in_failed_phase kind phases) xs) \<longleftrightarrow> none_in phases xs"
  by (auto simp: verdicts_def map_filter_set no_fail_map_filter in_failed_phase_def none_in_def split: if_splits)

lemma none_failed_shape [simp]:
  "verdicts (none_failed kind summary plural phases xs)"
  "no_fail (none_failed kind summary plural phases xs) \<longleftrightarrow> none_in phases xs"
  using failures_shape(2) [of kind phases xs] by (auto simp: none_failed_def Let_def simp del: failures_shape(2))

lemma analyze_logs_shape [simp]: "verdicts (analyze_logs logs kind)" "no_fail (analyze_logs logs kind)"
proof -
  have "verdicts (List.map_filter (analyze_log kind) logs)" "no_fail (List.map_filter (analyze_log kind) logs)"
    by (auto simp: verdicts_def no_fail_def map_filter_set analyze_log_def Let_def split: if_splits)
  then show "verdicts (analyze_logs logs kind)" "no_fail (analyze_logs logs kind)" by (simp_all add: analyze_logs_def)
qed

lemmas velero_parts = analyze_backup_repositories_def analyze_restic_repositories_def analyze_backup_storage_locations_def
  analyze_backups_def analyze_delete_backup_requests_def analyze_pod_volume_backups_def analyze_pod_volume_restores_def
  analyze_restores_def analyze_schedules_def analyze_volume_snapshot_locations_def

lemma velero_results_shape:
  "verdicts (velero_results P d)"
  "no_fail (velero_results P d) \<longleftrightarrow>
     vd_repositories d \<noteq> [] \<and> none_in (vp_backup_failed P) (vd_backups d) \<and> vd_locations d \<noteq> [] \<and>
     none_in [vp_volume_backup_failed P] (vd_volume_backups d) \<and> none_in [vp_volume_restore_failed P] (vd_volume_restores d) \<and>
     none_in (vp_restore_failed P) (vd_restores d) \<and> none_in [vp_schedule_failed P] (vd_schedules d) \<and>
     none_in [vp_snapshot_unavailable P] (vd_snapshot_locations d)"
  "velero_results P d \<noteq> []"
  by (simp_all add: velero_results_def repositories_results_def velero_parts Let_def)

subsection \<open>Results of host analyzers\<close>

lemma host_cert_outcomes_verdicts:
  assumes "host_cert_outcomes target t src c os st = Ok st'" and "verdicts (fst st @ snd st)"
  shows "verdicts (fst st' @ snd st')"
  using assms
proof (induction os arbitrary: st)
  case (Cons o' os)
  then obtain st1 where st1: "host_cert_outcome target t src c o' st = Ok st1" "host_cert_outcomes target t src c os st1 = Ok st'"
    by (auto simp: res_simps)
  have "verdicts (fst st1 @ snd st1)"
    using st1(1) Cons.prems(2)
    by (auto simp: host_cert_outcome_def res_simps split: option.splits severity.splits bool.splits list.splits if_splits prod.splits)
  from Cons.IH [OF st1(2) this] show ?case .
qed simp

lemma host_cert_chain_verdicts:
  assumes "host_cert_chain target t os src cs st = Ok st'" and "verdicts (fst st @ snd st)"
  shows "verdicts (fst st' @ snd st')"
  using assms
proof (induction cs arbitrary: st)
  case (Cons c cs)
  then obtain st1 where st1: "host_cert_outcomes target t src c os st = Ok st1"
    "host_cert_chain target t os src cs (fst st1, snd st1 @ fst st1) = Ok st'"
    by (cases "host_cert_outcomes target t src c os st") (simp_all add: split_beta)
  from host_cert_outcomes_verdicts [OF st1(1) Cons.prems(2)]
  have "verdicts (fst (fst st1, snd st1 @ fst st1) @ snd (fst st1, snd st1 @ fst st1))" by simp
  from Cons.IH [OF st1(2) this] show ?case .
qed simp

definition restic_glob :: string where
  "restic_glob = path_join [custom_resources ''resticrepositories'', ''*.json'']"

lemma other_globs:
  "path_join [velero_deployment_dir, ''velero.json''] \<noteq> restic_glob"
  "path_join [custom_resources ''backuprepositories'', ''*.json''] \<noteq> restic_glob"
  "path_join [custom_resources ''backups'', ''*.json''] \<noteq> restic_glob"
  "path_join [custom_resources ''backupstoragelocations'', ''*.json''] \<noteq> restic_glob"
  "path_join [custom_resources ''deletebackuprequests'', ''*.json''] \<noteq> restic_glob"
  "path_join [custom_resources ''podvolumebackups'', ''*.json''] \<noteq> restic_glob"
  "path_join [custom_resources ''podvolumerestores'', ''*.json''] \<noteq> restic_glob"
  "path_join [custom_resources ''restores'', ''*.json''] \<noteq> restic_glob"
  "path_join [custom_resources ''schedules'', ''*.json''] \<noteq> restic_glob"
  "path_join [custom_resources ''serverstatusrequests'', ''*.json''] \<noteq> restic_glob"
  "path_join [custom_resources ''volumesnapshotlocations'', ''*.json''] \<noteq> restic_glob"
  "path_join [''velero/logs'', ''node-agent*'', ''*.log''] \<noteq> restic_glob"
  "path_join [''velero/logs'', ''velero*'', ''*.log''] \<noteq> restic_glob"
  by code_simp+

section \<open>Properties\<close>

text \<open>
  The analysis of Velero ends with a summary that is never a failure, and it is a pass exactly when there are a repository
  and a storage location and nothing is in a failed phase, whatever the logs and the requests in progress say; every result
  is a verdict.
\<close>

theorem velero_health:
  "let rs = aggregate_results (velero_results P d) in
   list_all is_verdict rs \<and> title (last rs) = ''Velero Status'' \<and> \<not> is_fail (last rs) \<and>
   (is_pass (last rs) \<longleftrightarrow>
      vd_repositories d \<noteq> [] \<and> vd_locations d \<noteq> [] \<and> none_in (vp_backup_failed P) (vd_backups d) \<and>
      none_in [vp_volume_backup_failed P] (vd_volume_backups d) \<and> none_in [vp_volume_restore_failed P] (vd_volume_restores d) \<and>
      none_in (vp_restore_failed P) (vd_restores d) \<and> none_in [vp_schedule_failed P] (vd_schedules d) \<and>
      none_in [vp_snapshot_unavailable P] (vd_snapshot_locations d))"
proof -
  have "list_ex is_fail (velero_results P d) \<longleftrightarrow> \<not> no_fail (velero_results P d)" by (auto simp: no_fail_def list_ex_iff)
  moreover have "list_all is_verdict (velero_results P d)"
    using velero_results_shape(1) by (simp add: verdicts_def list_all_iff)
  ultimately show ?thesis
    using velero_results_shape(2,3) [of P d] by (auto simp: aggregate_results_def Let_def)
qed

text \<open>
  The repositories of restic are never read: the Go library takes a version without the letter \<^verbatim>\<open>v\<close> as invalid and an
  invalid one as less than every valid one, and the version the analyzer compares with is written without it. So what is
  found in their directory makes no difference.
\<close>

theorem restic_never_read:
  assumes "\<And>v w. vl_is_valid L v \<Longrightarrow> \<not> vl_is_valid L w \<Longrightarrow> vl_compare L v w > 0"
    and "\<not> vl_is_valid L ''1.10.0''"
  shows "velero_status L (\<lambda>g ex. if g = restic_glob then found else find_f g ex) = velero_status L find_f"
proof -
  let ?find = "\<lambda>g ex. if g = restic_glob then found else find_f g ex"
  have new: "\<not> is_old_velero L v" if "vl_is_valid L v" for v
    using assms(1) [OF that assms(2)] by (simp add: is_old_velero_def)
  have "read_velero L ?find = read_velero L find_f"
  proof (cases "get_velero_version L find_f")
    case (Ok v)
    then show ?thesis
      by (cases "vl_is_valid L v") (simp_all add: read_velero_def get_velero_version_def read_backups_def read_items_def velero_logs_def
          read_repositories_def other_globs new)
  qed (simp_all add: read_velero_def get_velero_version_def other_globs)
  then show ?thesis by (simp add: velero_status_def)
qed

theorem restic_never_read_witness:
  "\<exists>(L :: velero_libs) found find_f.
     velero_status L (\<lambda>g ex. if g = restic_glob then found else find_f g ex) = velero_status L find_f \<and>
     is_ok (velero_status L find_f) \<and> found \<noteq> find_f restic_glob []"
proof -
  let ?L = "\<lparr>vl_phases = \<lparr>vp_repository_ready = ''Ready'', vp_location_available = ''Available'', vp_backup_failed = [''Failed''],
       vp_request_in_progress = ''InProgress'', vp_volume_backup_failed = ''Failed'', vp_volume_restore_failed = ''Failed'',
       vp_restore_failed = [''Failed''], vp_schedule_failed = ''FailedValidation'', vp_snapshot_unavailable = ''Unavailable''\<rparr>,
     vl_items = (\<lambda>_. Ok []), vl_restic = (\<lambda>_ _. Ok []), vl_deployments = (\<lambda>_. Ok (Some [[(''velero'', ''velero:v1.9.0'')]])),
     vl_is_valid = (\<lambda>v. hd v = CHR ''v''),
     vl_compare = (\<lambda>v w. if hd v = CHR ''v'' \<and> hd w \<noteq> CHR ''v'' then 1 else 0)\<rparr>"
  let ?find = "\<lambda>g (ex :: string list). if g = path_join [velero_deployment_dir, ''velero.json''] then Ok [(g, [])] else Ok []"
  let ?found = "Ok [(''r'', ''bad'')] :: (string \<times> string) list res"
  have "velero_status ?L (\<lambda>g ex. if g = restic_glob then ?found else ?find g ex) = velero_status ?L ?find"
    by (rule restic_never_read) simp_all
  moreover have "is_ok (velero_status ?L ?find)" by code_simp
  moreover have "?found \<noteq> ?find restic_glob []" by simp
  ultimately show ?thesis by (intro exI [of _ ?L] exI [of _ ?found] exI [of _ ?find] conjI)
qed

text \<open>
  A condition on the use of volumes names exactly the volumes it holds of. With an order of floats that is total on what the
  nodes report, the volumes below, at and above a threshold are all volumes that pass the filters, each in one class; the
  condition with at most a threshold names those below and at it.
\<close>

theorem volume_conditions_meaning:
  assumes "is_word v" and "pf_parse F v = Ok x" and "find_pvc_usage_stats F compile flt summaries = Ok stats"
    and "\<And>y. y \<in> snd ` set stats \<Longrightarrow>
      (pf_less F y x \<or> pf_eq F y x \<or> pf_less F x y) \<and> \<not> (pf_less F y x \<and> pf_eq F y x) \<and>
      \<not> (pf_less F y x \<and> pf_less F x y) \<and> \<not> (pf_eq F y x \<and> pf_less F x y)"
  shows "\<exists>below at above.
     compare_node_metrics F compile flt (sentence [''pvcUsedPercentage'', ''<'', v]) summaries = Ok below \<and>
     compare_node_metrics F compile flt (sentence [''pvcUsedPercentage'', ''='', v]) summaries = Ok at \<and>
     compare_node_metrics F compile flt (sentence [''pvcUsedPercentage'', ''>'', v]) summaries = Ok above \<and>
     mset (map fst stats) = mset below + mset at + mset above \<and>
     (\<exists>most. compare_node_metrics F compile flt (sentence [''pvcUsedPercentage'', ''<='', v]) summaries = Ok most \<and>
        mset most = mset below + mset at)"
proof -
  let ?names = "\<lambda>op. map fst (filter (\<lambda>(_, used). usage_matches F op used x) stats)"
  have w: "is_word ''pvcUsedPercentage''" "is_word ''<''" "is_word ''=''" "is_word ''>''" "is_word ''<=''" by code_simp+
  have c: "compare_node_metrics F compile flt (sentence [''pvcUsedPercentage'', op, v]) summaries = Ok (?names operator)"
    if "is_word op" "parse_comparison_operator op = Ok operator" for op operator
    using assms(1-3) that w(1)
    by (simp add: compare_node_metrics_def trim_sentence split_words)
  have "mset (map fst stats) = mset (?names LessThan) + mset (?names Equal) + mset (?names GreaterThan) \<and>
      mset (?names LessThanOrEqual) = mset (?names LessThan) + mset (?names Equal)"
    using assms(4)
  proof (induction stats)
    case (Cons s stats)
    then have IH: "mset (map fst stats) = mset (map fst (filter (\<lambda>(_, used). usage_matches F LessThan used x) stats)) +
        mset (map fst (filter (\<lambda>(_, used). usage_matches F Equal used x) stats)) +
        mset (map fst (filter (\<lambda>(_, used). usage_matches F GreaterThan used x) stats)) \<and>
      mset (map fst (filter (\<lambda>(_, used). usage_matches F LessThanOrEqual used x) stats)) =
        mset (map fst (filter (\<lambda>(_, used). usage_matches F LessThan used x) stats)) +
        mset (map fst (filter (\<lambda>(_, used). usage_matches F Equal used x) stats))" by simp
    have "snd s \<in> snd ` set (s # stats)" by simp
    from Cons.prems [OF this] IH show ?case by (cases s) (auto simp: usage_matches_def)
  qed simp
  moreover have "parse_comparison_operator ''<'' = Ok LessThan" "parse_comparison_operator ''='' = Ok Equal"
    "parse_comparison_operator ''>'' = Ok GreaterThan" "parse_comparison_operator ''<='' = Ok LessThanOrEqual"
    by (simp_all add: parse_comparison_operator_def)
  ultimately show ?thesis using c w by blast
qed

theorem volume_conditions_meaning_witness:
  "\<exists>below. compare_node_metrics \<lparr>pf_percent = (\<lambda>a b. a), pf_parse = (\<lambda>_. Ok (50 :: nat)), pf_eq = (=), pf_less = (<)\<rparr>
     (\<lambda>_. Ok \<lparr>rx_prog = Emp, subexp_names = [[]]\<rparr>) None (sentence [''pvcUsedPercentage'', ''<'', ''50''])
     [[\<lparr>ps_namespace = ''n'', ps_volumes = [\<lparr>vs_pvc = Some (''n'', ''v''), vs_used = Some 10, vs_capacity = Some 20\<rparr>]\<rparr>]] = Ok below"
proof -
  let ?F = "\<lparr>pf_percent = (\<lambda>a b. a), pf_parse = (\<lambda>_. Ok (50 :: nat)), pf_eq = (=), pf_less = (<)\<rparr>"
  let ?sum = "[[\<lparr>ps_namespace = ''n'', ps_volumes = [\<lparr>vs_pvc = Some (''n'', ''v''), vs_used = Some 10, vs_capacity = Some 20\<rparr>]\<rparr>]]"
  have w: "is_word ''50''" by code_simp
  have s: "find_pvc_usage_stats ?F (\<lambda>_. Ok \<lparr>rx_prog = Emp, subexp_names = [[]]\<rparr>) None ?sum = Ok [(''n/v'', 10)]"
    by (simp add: find_pvc_usage_stats_def pod_usage_def volume_usage_def)
  from volume_conditions_meaning [OF w _ s, of 50] show ?thesis by auto
qed

text \<open>
  The certificates of a host always give at least one result, and every result is a verdict.
\<close>

theorem host_certificates_give_verdicts:
  assumes "host_certificates_Analyze target unmarshal get check_name collector_name outcomes = Ok rs"
  shows "rs \<noteq> [] \<and> list_all is_verdict rs"
proof -
  obtain info hs rss where rs: "rs = rc_get (concat rss) (host_analyzer_title_or_default check_name ''Host Certificates Collection'')"
    and m: "map_m (host_certificate_results target (host_analyzer_title_or_default check_name ''Host Certificates Collection'') outcomes) hs =
      Ok rss"
    using assms by (auto simp: host_certificates_Analyze_def Let_def res_simps)
  have "verdicts out" if "host_certificate_results target t outcomes h = Ok out" for t h out
    using that host_cert_chain_verdicts [where st = "([], [])"]
    by (fastforce simp: host_certificate_results_def Let_def res_simps split: if_splits)
  with m have "verdicts (concat rss)"
    by (induction hs arbitrary: rss) (auto simp: res_simps)
  then show ?thesis
    by (auto simp: rs rc_get_def verdicts_def list_all_iff is_verdict_def new_result_def)
qed

theorem host_certificates_give_verdicts_witness:
  "is_verdict ((new_result ''Host Certificates Collection'')\<lparr>is_warn := True, message := ''no results''\<rparr>)"
proof -
  have "host_certificates_Analyze (\<lambda>d. d) (\<lambda>_. Ok [] :: int host_certificates list res) (\<lambda>_. Ok []) [] [] [] =
    Ok [(new_result ''Host Certificates Collection'')\<lparr>is_warn := True, message := ''no results''\<rparr>]"
    by (simp add: host_certificates_Analyze_def rc_get_def host_analyzer_title_or_default_def)
  from host_certificates_give_verdicts [OF this] show ?thesis by simp
qed

end
