(* ===== verification/Spec_Loader.thy ===== *)
theory Spec_Loader
  imports Documents "HOL-Library.AList"
begin

text \<open>
  How specs are found in texts: splitting into documents, extraction from config maps and secrets, conversion of old and
  new versions and decoding (\<^verbatim>\<open>pkg/loader/loader.go\<close>, \<^verbatim>\<open>pkg/docrewrite\<close>), the resolution of references in
  specs of version \<^verbatim>\<open>v1beta3\<close> (\<^verbatim>\<open>v1beta3/resolver.go\<close>, \<^verbatim>\<open>v1beta3/converter.go\<close>), loading from the arguments of a
  command and from a cluster (\<^verbatim>\<open>internal/specs\<close>), and how the specs found are put together
  (\<^verbatim>\<open>preflight/concat.go\<close>, \<^verbatim>\<open>supportbundle.ConcatSpec\<close>). Exit codes of errors are left out. Parameters are the YAML codec, the decoder of
  Kubernetes objects, the cluster, files and downloads.
\<close>

section \<open>Documents\<close>

text \<open>\<^verbatim>\<open>strings.Split\<close> with a separator that is not empty.\<close>

fun split_at_sub :: "string \<Rightarrow> string \<Rightarrow> string \<Rightarrow> string list" where
  "split_at_sub sep acc [] = [rev acc]"
| "split_at_sub sep acc (c # s) =
     (if sep \<noteq> [] \<and> has_prefix sep (c # s) then rev acc # split_at_sub sep [] (drop (length sep - 1) s)
      else split_at_sub sep (c # acc) s)"

definition doc_separator :: string where
  "doc_separator = CHR 0x0A # ''---'' @ [CHR 0x0A]"

definition split_yaml :: "string \<Rightarrow> string list" where
  "split_yaml doc = split_at_sub doc_separator [] doc"

section \<open>References to secrets and config maps\<close>

record key_ref =
  kr_name :: string
  kr_key :: string
  kr_namespace :: string
  kr_optional :: "bool option"

record value_from_source =
  secret_key_ref :: "key_ref option"
  config_map_key_ref :: "key_ref option"

record string_or_value_from =
  sv_value :: "string option"
  sv_value_from :: "value_from_source option"

text \<open>The cluster: data of a secret or a config map in a namespace.\<close>

record cluster_client =
  get_secret :: "string \<Rightarrow> string \<Rightarrow> (string \<times> string) list res"
  get_config_map :: "string \<Rightarrow> string \<Rightarrow> (string \<times> string) list res"

definition is_optional :: "bool option \<Rightarrow> bool" where
  "is_optional b \<longleftrightarrow> b = Some True"

definition nil_pointer :: "'a res" where
  "nil_pointer = Panic ''invalid memory address or nil pointer dereference''"

definition resolve_key_ref ::
  "string \<Rightarrow> (cluster_client \<Rightarrow> string \<Rightarrow> string \<Rightarrow> (string \<times> string) list res) \<Rightarrow> key_ref \<Rightarrow> cluster_client option \<Rightarrow> string \<Rightarrow>
   string res" where
  "resolve_key_ref kind fetch ref client default_namespace =
     (let ns = (if kr_namespace ref = [] then default_namespace else kr_namespace ref); place = ns @ ''/'' @ kr_name ref in
      case client of
        None \<Rightarrow> nil_pointer
      | Some c \<Rightarrow>
          (case fetch c ns (kr_name ref) of
             Panic m \<Rightarrow> Panic m
           | Fail e \<Rightarrow> if is_optional (kr_optional ref) then Ok [] else Fail (Wrap (''failed to get '' @ kind @ '' '' @ place) e)
           | Ok d \<Rightarrow>
               (case map_of d (kr_key ref) of
                  Some v \<Rightarrow> Ok v
                | None \<Rightarrow> if is_optional (kr_optional ref) then Ok []
                    else Fail (Errf (''key %q not found in '' @ kind @ '' '' @ place) [kr_key ref]))))"

definition resolve_secret_key_ref where
  "resolve_secret_key_ref = resolve_key_ref ''secret'' get_secret"

definition resolve_config_map_key_ref where
  "resolve_config_map_key_ref = resolve_key_ref ''configmap'' get_config_map"

definition resolve_string_or_value_from :: "string_or_value_from \<Rightarrow> cluster_client option \<Rightarrow> string \<Rightarrow> string res" where
  "resolve_string_or_value_from s client default_namespace =
     (case sv_value s of
        Some v \<Rightarrow> Ok v
      | None \<Rightarrow>
          (case sv_value_from s of
             None \<Rightarrow> Ok []
           | Some src \<Rightarrow>
               (case secret_key_ref src of
                  Some ref \<Rightarrow> resolve_secret_key_ref ref client default_namespace
                | None \<Rightarrow>
                    (case config_map_key_ref src of
                       Some ref \<Rightarrow> resolve_config_map_key_ref ref client default_namespace
                     | None \<Rightarrow> Ok []))))"

section \<open>Conversion from v1beta3\<close>

text \<open>\<open>'p\<close> holds what is copied as it is: name, exclusion and parameters of a collector, the header of a spec.\<close>

record tls_params3 =
  t3_skip_verify :: bool
  t3_secret :: "(string \<times> string) option"
  t3_ca_cert :: string_or_value_from
  t3_client_cert :: string_or_value_from
  t3_client_key :: string_or_value_from

record 'p database3 =
  d3_meta :: 'p
  d3_uri :: string_or_value_from
  d3_tls :: "tls_params3 option"

record 'p collect3 =
  c3_postgres :: "'p database3 option"
  c3_mysql :: "'p database3 option"
  c3_mssql :: "'p database3 option"
  c3_redis :: "'p database3 option"

record tls_params =
  tp_skip_verify :: bool
  tp_secret :: "(string \<times> string) option"
  tp_ca_cert :: string
  tp_client_cert :: string
  tp_client_key :: string

record 'p database2 =
  d2_meta :: 'p
  d2_uri :: string
  d2_tls :: "tls_params option"

record 'p collect2 =
  c2_postgres :: "'p database2 option"
  c2_mysql :: "'p database2 option"
  c2_mssql :: "'p database2 option"
  c2_redis :: "'p database2 option"

definition convert_tls_params :: "tls_params3 \<Rightarrow> cluster_client option \<Rightarrow> string \<Rightarrow> tls_params res" where
  "convert_tls_params t client ns =
     bind_res (wrap_res ''failed to resolve CA cert'' (resolve_string_or_value_from (t3_ca_cert t) client ns)) (\<lambda>ca.
     bind_res (wrap_res ''failed to resolve client cert'' (resolve_string_or_value_from (t3_client_cert t) client ns)) (\<lambda>cert.
     bind_res (wrap_res ''failed to resolve client key'' (resolve_string_or_value_from (t3_client_key t) client ns)) (\<lambda>key.
       Ok \<lparr>tp_skip_verify = t3_skip_verify t, tp_secret = t3_secret t, tp_ca_cert = ca, tp_client_cert = cert, tp_client_key = key\<rparr>)))"

text \<open>A field that is set is converted, one that is nil stays nil.\<close>

definition map_set :: "('a \<Rightarrow> 'b res) \<Rightarrow> 'a option \<Rightarrow> 'b option res" where
  "map_set f x = (case x of None \<Rightarrow> Ok None | Some a \<Rightarrow> map_res Some (f a))"

definition convert_database :: "'p database3 \<Rightarrow> cluster_client option \<Rightarrow> string \<Rightarrow> 'p database2 res" where
  "convert_database d client ns =
     bind_res (wrap_res ''failed to resolve database URI'' (resolve_string_or_value_from (d3_uri d) client ns)) (\<lambda>u.
     bind_res (map_set (\<lambda>t. wrap_res ''failed to convert TLS params'' (convert_tls_params t client ns)) (d3_tls d)) (\<lambda>tls.
       Ok \<lparr>d2_meta = d3_meta d, d2_uri = u, d2_tls = tls\<rparr>))"

definition convert_collector :: "'p collect3 option \<Rightarrow> cluster_client option \<Rightarrow> string \<Rightarrow> 'p collect2 res" where
  "convert_collector c client ns =
     (case c of
        None \<Rightarrow> nil_pointer
      | Some c \<Rightarrow>
          (let db = (\<lambda>name. map_set (\<lambda>d. wrap_res (''failed to convert '' @ name @ '' collector'') (convert_database d client ns))) in
           bind_res (db ''postgres'' (c3_postgres c)) (\<lambda>postgres.
           bind_res (db ''mysql'' (c3_mysql c)) (\<lambda>mysql.
           bind_res (db ''mssql'' (c3_mssql c)) (\<lambda>mssql.
           bind_res (db ''redis'' (c3_redis c)) (\<lambda>redis.
             Ok \<lparr>c2_postgres = postgres, c2_mysql = mysql, c2_mssql = mssql, c2_redis = redis\<rparr>))))))"

text \<open>Only the collectors are converted, and of them only those of databases.\<close>

record ('p, 'h) bundle3 =
  b3_header :: 'h
  b3_uri :: string
  b3_in_pod :: bool
  b3_collectors :: "'p collect3 option list option"

record 'p bundle2 =
  b2_uri :: string
  b2_in_pod :: bool
  b2_collectors :: "'p collect2 list option"

definition convert_to_v1beta2_with_resolution :: "('p, 'h) bundle3 \<Rightarrow> cluster_client option \<Rightarrow> string \<Rightarrow> 'p bundle2 res" where
  "convert_to_v1beta2_with_resolution b client ns =
     map_res (\<lambda>cs. \<lparr>b2_uri = b3_uri b, b2_in_pod = b3_in_pod b, b2_collectors = cs\<rparr>)
       (map_set (map_m (\<lambda>c. wrap_res ''failed to convert collector'' (convert_collector c client ns))) (b3_collectors b))"

definition string_or_value_from_has_ref :: "string_or_value_from \<Rightarrow> bool" where
  "string_or_value_from_has_ref s \<longleftrightarrow>
     (case sv_value_from s of None \<Rightarrow> False | Some src \<Rightarrow> secret_key_ref src \<noteq> None \<or> config_map_key_ref src \<noteq> None)"

definition database_requires_client :: "'p database3 option \<Rightarrow> bool" where
  "database_requires_client d \<longleftrightarrow>
     (case d of
        None \<Rightarrow> False
      | Some d \<Rightarrow> string_or_value_from_has_ref (d3_uri d) \<or>
          (case d3_tls d of
             None \<Rightarrow> False
           | Some t \<Rightarrow> string_or_value_from_has_ref (t3_ca_cert t) \<or> string_or_value_from_has_ref (t3_client_cert t) \<or>
               string_or_value_from_has_ref (t3_client_key t)))"

definition v1beta3_spec_requires_client :: "('p, 'h) bundle3 \<Rightarrow> bool" where
  "v1beta3_spec_requires_client b \<longleftrightarrow>
     (case b3_collectors b of
        None \<Rightarrow> False
      | Some cs \<Rightarrow> list_ex (\<lambda>c. case c of
            None \<Rightarrow> False
          | Some c \<Rightarrow> database_requires_client (c3_postgres c) \<or> database_requires_client (c3_mysql c) \<or>
              database_requires_client (c3_mssql c) \<or> database_requires_client (c3_redis c)) cs)"

section \<open>Kinds of specs\<close>

record 'o troubleshoot_kinds =
  analyzers_v1beta2 :: "'o list"
  collectors_v1beta2 :: "'o list"
  host_collectors_v1beta2 :: "'o list"
  host_preflights_v1beta2 :: "'o list"
  preflights_v1beta2 :: "'o list"
  redactors_v1beta2 :: "'o list"
  remote_collectors_v1beta2 :: "'o list"
  support_bundles_v1beta2 :: "'o list"

datatype spec_kind =
  KindAnalyzer | KindCollector | KindHostCollector | KindHostPreflight | KindPreflight | KindRedactor | KindRemoteCollector |
  KindSupportBundle

definition new_troubleshoot_kinds :: "'o troubleshoot_kinds" where
  "new_troubleshoot_kinds =
     \<lparr>analyzers_v1beta2 = [], collectors_v1beta2 = [], host_collectors_v1beta2 = [], host_preflights_v1beta2 = [],
      preflights_v1beta2 = [], redactors_v1beta2 = [], remote_collectors_v1beta2 = [], support_bundles_v1beta2 = []\<rparr>"

definition kinds_add :: "'o troubleshoot_kinds \<Rightarrow> 'o troubleshoot_kinds \<Rightarrow> 'o troubleshoot_kinds" where
  "kinds_add k other =
     \<lparr>analyzers_v1beta2 = analyzers_v1beta2 k @ analyzers_v1beta2 other,
      collectors_v1beta2 = collectors_v1beta2 k @ collectors_v1beta2 other,
      host_collectors_v1beta2 = host_collectors_v1beta2 k @ host_collectors_v1beta2 other,
      host_preflights_v1beta2 = host_preflights_v1beta2 k @ host_preflights_v1beta2 other,
      preflights_v1beta2 = preflights_v1beta2 k @ preflights_v1beta2 other,
      redactors_v1beta2 = redactors_v1beta2 k @ redactors_v1beta2 other,
      remote_collectors_v1beta2 = remote_collectors_v1beta2 k @ remote_collectors_v1beta2 other,
      support_bundles_v1beta2 = support_bundles_v1beta2 k @ support_bundles_v1beta2 other\<rparr>"

text \<open>The fields in the order of the type, which is the order of the documents \<^verbatim>\<open>ToYaml\<close> writes.\<close>

definition kinds_fields :: "'o troubleshoot_kinds \<Rightarrow> (spec_kind \<times> 'o list) list" where
  "kinds_fields k =
     [(KindAnalyzer, analyzers_v1beta2 k), (KindCollector, collectors_v1beta2 k), (KindHostCollector, host_collectors_v1beta2 k),
      (KindHostPreflight, host_preflights_v1beta2 k), (KindPreflight, preflights_v1beta2 k), (KindRedactor, redactors_v1beta2 k),
      (KindRemoteCollector, remote_collectors_v1beta2 k), (KindSupportBundle, support_bundles_v1beta2 k)]"

definition kinds_len :: "'o troubleshoot_kinds \<Rightarrow> nat" where
  "kinds_len k = sum_list (map (\<lambda>(_, os). length os) (kinds_fields k))"

definition kinds_is_empty :: "'o troubleshoot_kinds \<Rightarrow> bool" where
  "kinds_is_empty k \<longleftrightarrow> kinds_len k = 0"

definition kinds_append :: "spec_kind \<Rightarrow> 'o \<Rightarrow> 'o troubleshoot_kinds \<Rightarrow> 'o troubleshoot_kinds" where
  "kinds_append kd x k =
     (case kd of
        KindAnalyzer \<Rightarrow> k\<lparr>analyzers_v1beta2 := analyzers_v1beta2 k @ [x]\<rparr>
      | KindCollector \<Rightarrow> k\<lparr>collectors_v1beta2 := collectors_v1beta2 k @ [x]\<rparr>
      | KindHostCollector \<Rightarrow> k\<lparr>host_collectors_v1beta2 := host_collectors_v1beta2 k @ [x]\<rparr>
      | KindHostPreflight \<Rightarrow> k\<lparr>host_preflights_v1beta2 := host_preflights_v1beta2 k @ [x]\<rparr>
      | KindPreflight \<Rightarrow> k\<lparr>preflights_v1beta2 := preflights_v1beta2 k @ [x]\<rparr>
      | KindRedactor \<Rightarrow> k\<lparr>redactors_v1beta2 := redactors_v1beta2 k @ [x]\<rparr>
      | KindRemoteCollector \<Rightarrow> k\<lparr>remote_collectors_v1beta2 := remote_collectors_v1beta2 k @ [x]\<rparr>
      | KindSupportBundle \<Rightarrow> k\<lparr>support_bundles_v1beta2 := support_bundles_v1beta2 k @ [x]\<rparr>)"

definition to_yaml :: "('o \<Rightarrow> string res) \<Rightarrow> 'o troubleshoot_kinds \<Rightarrow> string res" where
  "to_yaml marshal k = map_res (join_with (''---'' @ [CHR 0x0A])) (map_m marshal (concat (map snd (kinds_fields k))))"

section \<open>The loader\<close>

record parsed_doc =
  pd_kind :: string
  pd_api_version :: string

text \<open>What the decoder of Kubernetes objects gives.\<close>

datatype ('o, 'p, 'h) decoded =
    DecodedSpec spec_kind 'o
  | DecodedConfigMap "(string \<times> string) list"
  | DecodedSecret "(string \<times> string) list" "(string \<times> string) list"
  | DecodedBundle3 "('p, 'h) bundle3"
  | DecodedOther

record ('f, 'o, 'p, 'h) loader_libs =
  ld_parse :: "string \<Rightarrow> parsed_doc res"
  ld_map :: "string \<Rightarrow> (string \<times> 'f doc) list res"
  ld_marshal :: "(string \<times> 'f doc) list \<Rightarrow> string res"
  ld_decode :: "string \<Rightarrow> ('o, 'p, 'h) decoded res"
  ld_bundle :: "'h \<Rightarrow> 'p bundle2 \<Rightarrow> 'o"

definition Troubleshootv1beta3Kind :: string where
  "Troubleshootv1beta3Kind = ''troubleshoot.sh/v1beta3''"

definition Troubleshootv1beta2Kind :: string where
  "Troubleshootv1beta2Kind = ''troubleshoot.sh/v1beta2''"

definition Troubleshootv1beta1Kind :: string where
  "Troubleshootv1beta1Kind = ''troubleshoot.replicated.com/v1beta1''"

definition convert_to_v1beta2 :: "('f, 'o, 'p, 'h) loader_libs \<Rightarrow> string \<Rightarrow> string res" where
  "convert_to_v1beta2 L doc =
     bind_res (wrap_res ''failed to unmarshal yaml'' (ld_map L doc)) (\<lambda>parsed.
       case map_of parsed ''apiVersion'' of
         None \<Rightarrow> Fail (Err ''no apiVersion in document'')
       | Some v \<Rightarrow>
           if v = DText Troubleshootv1beta2Kind then Ok doc
           else if v = DText Troubleshootv1beta3Kind \<or> v = DText Troubleshootv1beta1Kind
           then wrap_res ''failed to marshal new spec''
             (ld_marshal L (AList.update ''apiVersion'' (DText Troubleshootv1beta2Kind) parsed))
           else Fail (Errf ''cannot convert %s'' [case v of DText t \<Rightarrow> t | _ \<Rightarrow> []]))"

definition is_secret :: "parsed_doc \<Rightarrow> bool" where
  "is_secret p \<longleftrightarrow> pd_kind p = ''Secret'' \<and> pd_api_version p = ''v1''"

definition is_config_map :: "parsed_doc \<Rightarrow> bool" where
  "is_config_map p \<longleftrightarrow> pd_kind p = ''ConfigMap'' \<and> pd_api_version p = ''v1''"

definition spec_keys :: "string list" where
  "spec_keys = [''support-bundle-spec'', ''redactor-spec'', ''preflight.yaml'', ''preflight-spec'']"

definition specs_of_data :: "(string \<times> string) list \<Rightarrow> string list" where
  "specs_of_data d = concat (map (\<lambda>k. case map_of d k of None \<Rightarrow> [] | Some s \<Rightarrow> split_yaml s) spec_keys)"

definition get_spec_from_config_map :: "(string \<times> string) list \<Rightarrow> string list" where
  "get_spec_from_config_map d = specs_of_data d"

definition get_spec_from_secret :: "(string \<times> string) list \<Rightarrow> (string \<times> string) list \<Rightarrow> string list" where
  "get_spec_from_secret d string_data = specs_of_data d @ specs_of_data string_data"

text \<open>Without the strict mode a document that can not be read is passed over.\<close>

definition pass_over :: "bool \<Rightarrow> string \<Rightarrow> 'b \<Rightarrow> 'a res \<Rightarrow> ('a \<Rightarrow> 'b res) \<Rightarrow> 'b res" where
  "pass_over is_strict problem skipped r continue =
     (case r of
        Ok x \<Rightarrow> continue x
      | Panic m \<Rightarrow> Panic m
      | Fail e \<Rightarrow> if is_strict then Fail (Wrap problem e) else Ok skipped)"

definition extract_docs :: "('f, 'o, 'p, 'h) loader_libs \<Rightarrow> bool \<Rightarrow> string \<Rightarrow> string list res" where
  "extract_docs L is_strict doc =
     (if doc = [] then Ok []
      else pass_over is_strict (''failed to parse yaml: '' @ CHR 0x27 # doc @ [CHR 0x27]) [] (ld_parse L doc) (\<lambda>parsed.
        if is_config_map parsed \<or> is_secret parsed
        then pass_over is_strict (''failed to decode raw spec: '' @ CHR 0x27 # doc @ [CHR 0x27]) [] (ld_decode L doc) (\<lambda>obj.
          case obj of
            DecodedConfigMap d \<Rightarrow> Ok (get_spec_from_config_map d)
          | DecodedSecret d sd \<Rightarrow> Ok (get_spec_from_secret d sd)
          | _ \<Rightarrow> Fail (Err ''type is not a Secret or ConfigMap''))
        else if pd_api_version parsed \<in> {Troubleshootv1beta3Kind, Troubleshootv1beta2Kind, Troubleshootv1beta1Kind}
        then Ok [doc] else Ok []))"

definition load_v1beta3_spec ::
  "('f, 'o, 'p, 'h) loader_libs \<Rightarrow> cluster_client option \<Rightarrow> string \<Rightarrow> string \<Rightarrow> 'o troubleshoot_kinds \<Rightarrow>
   'o troubleshoot_kinds res" where
  "load_v1beta3_spec L client ns doc k =
     bind_res (wrap_res (''failed to decode v1beta3 spec: '' @ CHR 0x27 # doc @ [CHR 0x27]) (ld_decode L doc)) (\<lambda>obj.
       case obj of
         DecodedBundle3 b \<Rightarrow>
           if v1beta3_spec_requires_client b \<and> client = None then Fail (Err ''kubernetes client required'')
           else (case convert_to_v1beta2_with_resolution b client ns of
                   Panic m \<Rightarrow> Panic m
                 | Fail e \<Rightarrow>
                     if v1beta3_spec_requires_client b
                     then Fail (Err ''this v1beta3 SupportBundle uses secret/configmap references and must be run in a cluster'')
                     else Fail (Wrap ''failed to resolve and convert v1beta3 support bundle spec'' e)
                 | Ok b2 \<Rightarrow> Ok (kinds_append KindSupportBundle (ld_bundle L (b3_header b) b2) k))
       | _ \<Rightarrow> Fail (Err ''unsupported v1beta3 kind''))"

definition is_bundle3 :: "('f, 'o, 'p, 'h) loader_libs \<Rightarrow> string \<Rightarrow> bool" where
  "is_bundle3 L doc \<longleftrightarrow>
     (case ld_parse L doc of
        Ok parsed \<Rightarrow> pd_api_version parsed = Troubleshootv1beta3Kind \<and> pd_kind parsed = ''SupportBundle''
      | _ \<Rightarrow> False)"

definition load_doc ::
  "('f, 'o, 'p, 'h) loader_libs \<Rightarrow> bool \<Rightarrow> cluster_client option \<Rightarrow> string \<Rightarrow> string \<Rightarrow> 'o troubleshoot_kinds \<Rightarrow>
   'o troubleshoot_kinds res" where
  "load_doc L is_strict client ns doc k =
     (if is_bundle3 L doc then load_v1beta3_spec L client ns doc k
      else pass_over is_strict (''failed to convert doc to troubleshoot.sh/v1beta2 kind: '' @ [CHR 0x27, CHR 0x0A] @ doc @ [CHR 0x27]) k
        (convert_to_v1beta2 L doc) (\<lambda>converted.
        pass_over is_strict (''failed to decode '' @ CHR 0x27 # converted @ [CHR 0x27]) k (ld_decode L converted) (\<lambda>obj.
          case obj of
            DecodedSpec kd x \<Rightarrow> Ok (kinds_append kd x k)
          | _ \<Rightarrow> Fail (Err ''unknown troubleshoot kind''))))"

fun load_from_split_docs ::
  "('f, 'o, 'p, 'h) loader_libs \<Rightarrow> bool \<Rightarrow> cluster_client option \<Rightarrow> string \<Rightarrow> string list \<Rightarrow> 'o troubleshoot_kinds \<Rightarrow>
   'o troubleshoot_kinds res" where
  "load_from_split_docs L is_strict client ns [] k = Ok k"
| "load_from_split_docs L is_strict client ns (doc # docs) k =
     bind_res (load_doc L is_strict client ns doc k) (load_from_split_docs L is_strict client ns docs)"

definition load_from_strings ::
  "('f, 'o, 'p, 'h) loader_libs \<Rightarrow> bool \<Rightarrow> cluster_client option \<Rightarrow> string \<Rightarrow> string list \<Rightarrow> 'o troubleshoot_kinds res" where
  "load_from_strings L is_strict client ns raw_specs =
     bind_res (map_m (extract_docs L is_strict) (concat (map split_yaml raw_specs))) (\<lambda>docs.
       load_from_split_docs L is_strict client ns (concat docs) new_troubleshoot_kinds)"

definition load_specs ::
  "('f, 'o, 'p, 'h) loader_libs \<Rightarrow> bool \<Rightarrow> cluster_client option \<Rightarrow> string \<Rightarrow> string list \<Rightarrow> string \<Rightarrow> 'o troubleshoot_kinds res" where
  "load_specs L is_strict client namespace raw_specs raw_spec =
     load_from_strings L is_strict client (if namespace = [] then ''default'' else namespace) (raw_specs @ [raw_spec])"

section \<open>Arguments of a command\<close>

text \<open>What the operating system and the network answer, and how the URI of a spec is removed.\<close>

record 'o cli_env =
  ce_exists :: "string \<Rightarrow> bool"
  ce_read_file :: "string \<Rightarrow> string res"
  ce_stdin :: "string res"
  ce_scheme :: "string \<Rightarrow> string res"
  ce_is_url :: "string \<Rightarrow> bool"
  ce_pull_oci :: "string \<Rightarrow> string list res"
  ce_download :: "string \<Rightarrow> string res"
  ce_clear_uri :: "'o \<Rightarrow> 'o"

text \<open>All data of the object, or the data under the key that is named; a key that is missing gives nothing.\<close>

definition object_specs ::
  "string \<Rightarrow> (string \<Rightarrow> string \<Rightarrow> (string \<times> string) list res) \<Rightarrow> string \<Rightarrow> string list res" where
  "object_specs kind fetch v =
     (case split_on (CHR ''/'') v of
        [_, ns, name] \<Rightarrow>
          map_res (map snd) (wrap_res (''failed to get spec from '' @ kind) (wrap_res (''failed to get '' @ kind) (fetch ns name)))
      | [_, ns, name, key] \<Rightarrow>
          map_res (\<lambda>d. case map_of d key of None \<Rightarrow> [] | Some s \<Rightarrow> [s])
            (wrap_res (''failed to get spec from '' @ kind) (wrap_res (''failed to get '' @ kind) (fetch ns name)))
      | ps \<Rightarrow> Fail (Err (kind @ '' path '' @ v @ '' must have at '' @ (if length ps > 4 then ''most 4'' else ''least 3'') @
              '' components'')))"

datatype 'o arg_specs = RawDocs "string list" | UrlKinds "'o troubleshoot_kinds"

definition clear_uris :: "'o cli_env \<Rightarrow> 'o troubleshoot_kinds \<Rightarrow> 'o troubleshoot_kinds" where
  "clear_uris E k = k\<lparr>support_bundles_v1beta2 := map (ce_clear_uri E) (support_bundles_v1beta2 k)\<rparr>"

text \<open>What can not be downloaded or loaded from a URL is passed over.\<close>

definition url_specs :: "'o cli_env \<Rightarrow> (string \<Rightarrow> 'o troubleshoot_kinds res) \<Rightarrow> string \<Rightarrow> 'o arg_specs res" where
  "url_specs E load v =
     (case bind_res (ce_download E v) load of
        Ok k \<Rightarrow> Ok (UrlKinds (clear_uris E k))
      | Fail _ \<Rightarrow> Ok (RawDocs [])
      | Panic m \<Rightarrow> Panic m)"

definition load_arg ::
  "'o cli_env \<Rightarrow> cluster_client \<Rightarrow> (string \<Rightarrow> 'o troubleshoot_kinds res) \<Rightarrow> string \<Rightarrow> 'o arg_specs res" where
  "load_arg E client load v =
     (if has_prefix ''secret/'' v then map_res RawDocs (object_specs ''secret'' (get_secret client) v)
      else if has_prefix ''configmap/'' v then map_res RawDocs (object_specs ''configmap'' (get_config_map client) v)
      else if ce_exists E v then map_res (\<lambda>d. RawDocs [d]) (ce_read_file E v)
      else if v = ''-'' then map_res (\<lambda>d. RawDocs [d]) (ce_stdin E)
      else bind_res (ce_scheme E v) (\<lambda>scheme.
        if scheme = ''oci'' then map_res RawDocs (ce_pull_oci E v)
        else if \<not> ce_is_url E v then Fail (Err (v @ '' is not a URL and was not found''))
        else url_specs E load v))"

definition raw_docs :: "'o arg_specs list \<Rightarrow> string list" where
  "raw_docs xs = concat (map (\<lambda>x. case x of RawDocs ds \<Rightarrow> ds | _ \<Rightarrow> []) xs)"

definition url_kinds :: "'o arg_specs list \<Rightarrow> 'o troubleshoot_kinds" where
  "url_kinds xs = foldl kinds_add new_troubleshoot_kinds (map (\<lambda>x. case x of UrlKinds k \<Rightarrow> k | _ \<Rightarrow> new_troubleshoot_kinds) xs)"

text \<open>Specs of the cluster are added; that they can not be loaded is an error only when there are no others.\<close>

definition load_from_cli_args ::
  "('f, 'o, 'p, 'h) loader_libs \<Rightarrow> 'o cli_env \<Rightarrow> cluster_client \<Rightarrow> string \<Rightarrow> 'o troubleshoot_kinds res option \<Rightarrow> string list \<Rightarrow>
   'o troubleshoot_kinds res" where
  "load_from_cli_args L E client namespace cluster_specs args =
     bind_res (map_m (load_arg E client (\<lambda>doc. load_specs L False (Some client) namespace [] doc)) args) (\<lambda>xs.
     bind_res (load_specs L False (Some client) namespace (raw_docs xs) []) (\<lambda>k.
       let kinds = kinds_add k (url_kinds xs) in
       case cluster_specs of
         None \<Rightarrow> Ok kinds
       | Some (Ok ck) \<Rightarrow> Ok (kinds_add kinds ck)
       | Some (Fail e) \<Rightarrow> if kinds_is_empty kinds then Fail e else Ok kinds
       | Some (Panic m) \<Rightarrow> Panic m))"

section \<open>Specs in a cluster\<close>

text \<open>
  Requirements of a label selector are a type of the library. Each requirement on the kind of a spec is searched for on its
  own, with the other requirements.
\<close>

definition split_troubleshoot_selector :: "('r list \<Rightarrow> string) \<Rightarrow> ('r \<Rightarrow> string) \<Rightarrow> 'r list \<Rightarrow> string list" where
  "split_troubleshoot_selector show_selector req_key reqs =
     (let ours = (\<lambda>r. req_key r \<in> {''troubleshoot.io/kind'', ''troubleshoot.sh/kind''}) in
      if filter ours reqs = [] \<and> show_selector reqs \<noteq> [] then [show_selector reqs]
      else map (\<lambda>t. show_selector (filter (\<lambda>r. \<not> ours r) reqs @ [t])) (filter ours reqs))"

record 'r cluster_env =
  cn_parse_selector :: "string \<Rightarrow> 'r list res"
  cn_show_selector :: "'r list \<Rightarrow> string"
  cn_req_key :: "'r \<Rightarrow> string"
  cn_can_read_all :: "bool res"
  cn_namespaces :: "string list res"
  cn_forbidden :: "go_error \<Rightarrow> bool"
  cn_kubeconfig_namespace :: "string res"
  cn_secrets :: "string \<Rightarrow> string \<Rightarrow> (string \<times> string) list list res"
  cn_config_maps :: "string \<Rightarrow> string \<Rightarrow> (string \<times> string) list list res"

definition default_selectors :: "string list \<Rightarrow> string list" where
  "default_selectors ss =
     (if ss = [''troubleshoot.sh/kind=support-bundle''] then ss @ [''troubleshoot.io/kind=support-bundle''] else ss)"

definition search_namespaces :: "'r cluster_env \<Rightarrow> string \<Rightarrow> string list res" where
  "search_namespaces C ns =
     (if ns \<noteq> [] then Ok [ns]
      else bind_res (wrap_res ''failed to check if I can read secrets and configmaps'' (cn_can_read_all C)) (\<lambda>ican.
        if ican then Ok [[]]
        else (case cn_namespaces C of
                Ok nss \<Rightarrow> Ok nss
              | Panic m \<Rightarrow> Panic m
              | Fail e \<Rightarrow>
                  if cn_forbidden C e
                  then map_res (\<lambda>n. [n]) (wrap_res ''failed to get namespace from kubeconfig'' (cn_kubeconfig_namespace C))
                  else Fail (Wrap ''failed to list namespaces'' e))))"

text \<open>The data under a key of all objects found; a search that fails gives none.\<close>

definition values_at :: "string \<Rightarrow> (string \<times> string) list list res \<Rightarrow> string list res" where
  "values_at key found =
     (case found of
        Ok ds \<Rightarrow> Ok (List.map_filter (\<lambda>d. map_of d key) ds)
      | Fail _ \<Rightarrow> Ok []
      | Panic m \<Rightarrow> Panic m)"

definition cluster_keys :: "string list" where
  "cluster_keys = [''support-bundle-spec'', ''preflight.yaml'', ''redactor-spec'']"

definition search_at :: "'r cluster_env \<Rightarrow> string \<Rightarrow> string \<Rightarrow> string \<Rightarrow> string list res" where
  "search_at C selector ns key =
     bind_res (values_at key (cn_secrets C selector ns)) (\<lambda>xs.
       map_res (\<lambda>ys. xs @ ys) (values_at key (cn_config_maps C selector ns)))"

definition cluster_raw_specs :: "'r cluster_env \<Rightarrow> string list \<Rightarrow> string \<Rightarrow> string list res" where
  "cluster_raw_specs C selectors ns =
     bind_res (wrap_res ''unable to parse selector'' (cn_parse_selector C (join_with '','' (default_selectors selectors)))) (\<lambda>reqs.
     bind_res (search_namespaces C ns) (\<lambda>nss.
       map_res concat (map_m (\<lambda>(selector, n, key). search_at C selector n key)
         (concat (map (\<lambda>selector. concat (map (\<lambda>n. map (\<lambda>key. (selector, n, key)) cluster_keys) nss))
            (split_troubleshoot_selector (cn_show_selector C) (cn_req_key C) reqs))))))"

definition load_from_cluster ::
  "('f, 'o, 'p, 'h) loader_libs \<Rightarrow> 'r cluster_env \<Rightarrow> cluster_client \<Rightarrow> string list \<Rightarrow> string \<Rightarrow> 'o troubleshoot_kinds res" where
  "load_from_cluster L C client selectors ns =
     bind_res (cluster_raw_specs C selectors ns) (\<lambda>docs. load_specs L False (Some client) ns docs [])"

section \<open>Specs put together\<close>

text \<open>A nil slice and an empty one differ.\<close>

type_synonym 'x slice = "'x list option"

definition util_append :: "'x slice \<Rightarrow> 'x slice \<Rightarrow> 'x slice" where
  "util_append target src =
     (case src of None \<Rightarrow> target | Some s \<Rightarrow> Some ((case target of None \<Rightarrow> [] | Some t \<Rightarrow> t) @ s))"

definition go_append :: "'x slice \<Rightarrow> 'x slice \<Rightarrow> 'x slice" where
  "go_append target src =
     (case (target, src) of
        (t, None) \<Rightarrow> t
      | (None, Some s) \<Rightarrow> if s = [] then None else Some s
      | (Some t, Some s) \<Rightarrow> Some (t @ s))"

record ('c, 'a, 'm) support_bundle_spec =
  sb_meta :: 'm
  sb_collectors :: "'c slice"
  sb_after_collection :: "'a slice"
  sb_host_collectors :: "'c slice"
  sb_host_analyzers :: "'a slice"
  sb_analyzers :: "'a slice"

definition concat_spec ::
  "('c, 'a, 'm) support_bundle_spec option \<Rightarrow> ('c, 'a, 'm) support_bundle_spec option \<Rightarrow> ('c, 'a, 'm) support_bundle_spec option" where
  "concat_spec target source =
     (case (target, source) of
        (t, None) \<Rightarrow> t
      | (None, Some s) \<Rightarrow> Some s
      | (Some t, Some s) \<Rightarrow>
          Some (t\<lparr>sb_collectors := util_append (sb_collectors t) (sb_collectors s),
                  sb_after_collection := util_append (sb_after_collection t) (sb_after_collection s),
                  sb_host_collectors := util_append (sb_host_collectors t) (sb_host_collectors s),
                  sb_host_analyzers := util_append (sb_host_analyzers t) (sb_host_analyzers s),
                  sb_analyzers := util_append (sb_analyzers t) (sb_analyzers s)\<rparr>))"

record ('c, 'a, 'm) preflight_spec =
  pp_meta :: 'm
  pp_upload_results_to :: string
  pp_collectors :: "'c slice"
  pp_remote_collectors :: "'c slice"
  pp_analyzers :: "'a slice"

definition concat_preflight_spec ::
  "('c, 'a, 'm) preflight_spec option \<Rightarrow> ('c, 'a, 'm) preflight_spec option \<Rightarrow> ('c, 'a, 'm) preflight_spec option" where
  "concat_preflight_spec target source =
     (case (target, source) of
        (t, None) \<Rightarrow> t
      | (None, Some s) \<Rightarrow> Some s
      | (Some t, Some s) \<Rightarrow>
          Some (t\<lparr>pp_collectors := go_append (pp_collectors t) (pp_collectors s),
                  pp_remote_collectors := go_append (pp_remote_collectors t) (pp_remote_collectors s),
                  pp_analyzers := go_append (pp_analyzers t) (pp_analyzers s)\<rparr>))"

definition concat_host_preflight_spec ::
  "('c, 'a, 'm) preflight_spec option \<Rightarrow> ('c, 'a, 'm) preflight_spec option \<Rightarrow> ('c, 'a, 'm) preflight_spec option" where
  "concat_host_preflight_spec = concat_preflight_spec"

text \<open>Preflights without a destination of their own become one; those with one stay apart and come first.\<close>

definition read_preflights :: "('c, 'a, 'm) preflight_spec list \<Rightarrow> ('c, 'a, 'm) preflight_spec list" where
  "read_preflights ps =
     filter (\<lambda>p. pp_upload_results_to p \<noteq> []) ps @
     (case foldl concat_preflight_spec None (map Some (filter (\<lambda>p. pp_upload_results_to p = []) ps)) of None \<Rightarrow> [] | Some p \<Rightarrow> [p])"

definition read_host_preflights :: "('c, 'a, 'm) preflight_spec list \<Rightarrow> ('c, 'a, 'm) preflight_spec list" where
  "read_host_preflights ps =
     (case foldl concat_host_preflight_spec None (map Some ps) of None \<Rightarrow> [] | Some p \<Rightarrow> [p])"

section \<open>Merging\<close>

text \<open>
  Kinds of specs, support bundles and preflights are all merged one by one, from the first on. What the merging promises is
  that nothing is a neutral element and that the grouping does not matter; then lists of specs can be merged in parts.
\<close>

locale merging =
  fixes merge :: "'a \<Rightarrow> 'a \<Rightarrow> 'a"
    and nothing :: 'a
  assumes left_nothing: "merge nothing x = x"
    and right_nothing: "merge x nothing = x"
    and merge_assoc: "merge (merge x y) z = merge x (merge y z)"
begin

lemma foldl_from: "foldl merge x xs = merge x (foldl merge nothing xs)"
proof (induction xs arbitrary: x)
  case (Cons y ys)
  show ?case using Cons [of "merge x y"] Cons [of y] by (simp add: left_nothing merge_assoc)
qed (simp add: right_nothing)

lemma foldl_parts: "foldl merge nothing (xs @ ys) = merge (foldl merge nothing xs) (foldl merge nothing ys)"
  using foldl_from [of "foldl merge nothing xs" ys] by simp

lemma foldl_groups: "foldl merge nothing (concat xss) = foldl merge nothing (map (foldl merge nothing) xss)"
proof (induction xss)
  case (Cons xs xss)
  have "foldl merge nothing (concat (xs # xss)) = merge (foldl merge nothing xs) (foldl merge nothing (concat xss))"
    by (simp only: concat.simps foldl_parts)
  also have "\<dots> = foldl merge nothing (map (foldl merge nothing) (xs # xss))"
    using foldl_from [of "foldl merge nothing xs" "map (foldl merge nothing) xss"] Cons by (simp add: left_nothing)
  finally show ?case .
qed simp

end

interpretation kinds: merging kinds_add new_troubleshoot_kinds
  by unfold_locales (simp_all add: kinds_add_def new_troubleshoot_kinds_def)

lemma util_append_assoc: "util_append (util_append a b) c = util_append a (util_append b c)"
  by (simp add: util_append_def split: option.split)

interpretation bundles: merging concat_spec None
  by unfold_locales (auto simp: concat_spec_def util_append_assoc split: option.splits)

lemma go_append_assoc: "go_append (go_append a b) c = go_append a (go_append b c)"
  by (cases a; cases b; cases c) (auto simp: go_append_def)

interpretation preflights: merging concat_preflight_spec None
  by unfold_locales (auto simp: concat_preflight_spec_def go_append_assoc split: option.splits)

section \<open>Lemmas\<close>

subsection \<open>Loading in parts\<close>

lemma kinds_append_add: "kinds_append kd x k = kinds_add k (kinds_append kd x new_troubleshoot_kinds)"
  by (cases kd) (simp_all add: kinds_append_def kinds_add_def new_troubleshoot_kinds_def)

lemma pass_over_map: "map_res f (pass_over st p s r c) = pass_over st p (f s) r (\<lambda>x. map_res f (c x))"
  by (simp add: pass_over_def split: res.split)

lemma load_doc_add: "load_doc L st client ns doc k = map_res (kinds_add k) (load_doc L st client ns doc new_troubleshoot_kinds)"
proof (cases "is_bundle3 L doc")
  case True
  have "load_v1beta3_spec L client ns doc k = map_res (kinds_add k) (load_v1beta3_spec L client ns doc new_troubleshoot_kinds)"
  proof (cases "ld_decode L doc")
    case (Ok obj)
    then show ?thesis
      by (cases obj) (auto simp: load_v1beta3_spec_def split: res.split intro: kinds_append_add)
  qed (simp_all add: load_v1beta3_spec_def)
  with True show ?thesis by (simp add: load_doc_def)
next
  case False
  have spec: "(\<lambda>obj. case obj of DecodedSpec kd x \<Rightarrow> Ok (kinds_append kd x k) | _ \<Rightarrow> Fail (Err ''unknown troubleshoot kind'')) =
      (\<lambda>obj. map_res (kinds_add k)
        (case obj of DecodedSpec kd x \<Rightarrow> Ok (kinds_append kd x new_troubleshoot_kinds) | _ \<Rightarrow> Fail (Err ''unknown troubleshoot kind'')))"
    by (rule ext) (auto intro: kinds_append_add split: decoded.split)
  from False show ?thesis by (simp only: load_doc_def if_False pass_over_map kinds.right_nothing spec)
qed

lemma split_docs_add:
  "load_from_split_docs L st client ns docs k = map_res (kinds_add k) (load_from_split_docs L st client ns docs new_troubleshoot_kinds)"
proof (induction docs arbitrary: k)
  case (Cons d ds)
  show ?case
  proof (cases "load_doc L st client ns d new_troubleshoot_kinds")
    case (Ok k')
    have "load_from_split_docs L st client ns ds (kinds_add k k') = map_res (kinds_add k) (load_from_split_docs L st client ns ds k')"
      using Cons.IH [of "kinds_add k k'"] Cons.IH [of k']
      by (cases "load_from_split_docs L st client ns ds new_troubleshoot_kinds") (simp_all add: kinds.merge_assoc)
    then show ?thesis using Ok load_doc_add [of L st client ns d k] by simp
  qed (use load_doc_add [of L st client ns d k] in simp_all)
qed (simp add: kinds.right_nothing)

lemma split_docs_append:
  "load_from_split_docs L st client ns (xs @ ys) k =
     bind_res (load_from_split_docs L st client ns xs k) (load_from_split_docs L st client ns ys)"
proof (induction xs arbitrary: k)
  case (Cons d ds)
  then show ?case by (cases "load_doc L st client ns d k") simp_all
qed simp

lemma load_strings_append:
  assumes "load_from_strings L st client ns xs = Ok a" and "load_from_strings L st client ns ys = Ok b"
  shows "load_from_strings L st client ns (xs @ ys) = Ok (kinds_add a b)"
proof -
  obtain ds es where d: "map_m (extract_docs L st) (concat (map split_yaml xs)) = Ok ds"
    "load_from_split_docs L st client ns (concat ds) new_troubleshoot_kinds = Ok a"
    and e: "map_m (extract_docs L st) (concat (map split_yaml ys)) = Ok es"
    "load_from_split_docs L st client ns (concat es) new_troubleshoot_kinds = Ok b"
    using assms by (auto simp: load_from_strings_def res_simps)
  have "load_from_split_docs L st client ns (concat (ds @ es)) new_troubleshoot_kinds = Ok (kinds_add a b)"
    using d(2) e(2) split_docs_add [of L st client ns "concat es" a] by (simp add: split_docs_append)
  then show ?thesis by (simp add: load_from_strings_def map_m_append d(1) e(1))
qed

subsection \<open>Strict and lenient loading\<close>

lemma pass_over_strict: "pass_over True p s r c = Ok y \<Longrightarrow> \<exists>x. r = Ok x \<and> c x = Ok y"
  by (simp add: pass_over_def split: res.splits)

lemma extract_docs_lenient: "extract_docs L True d = Ok x \<Longrightarrow> extract_docs L False d = Ok x"
  by (auto simp: extract_docs_def dest!: pass_over_strict split: if_splits) (auto simp: pass_over_def)

lemma load_doc_lenient: "load_doc L True client ns d k = Ok x \<Longrightarrow> load_doc L False client ns d k = Ok x"
  by (auto simp: load_doc_def dest!: pass_over_strict split: if_splits) (auto simp: pass_over_def)

lemma split_docs_lenient:
  "load_from_split_docs L True client ns ds k = Ok x \<Longrightarrow> load_from_split_docs L False client ns ds k = Ok x"
  by (induction ds arbitrary: k) (auto simp: res_simps dest: load_doc_lenient)

lemma load_strings_lenient: "load_from_strings L True client ns xs = Ok k \<Longrightarrow> load_from_strings L False client ns xs = Ok k"
proof -
  have "map_m (extract_docs L True) ds = Ok xs \<Longrightarrow> map_m (extract_docs L False) ds = Ok xs" for ds xs
    by (induction ds arbitrary: xs) (auto simp: res_simps dest: extract_docs_lenient)
  then show "load_from_strings L True client ns xs = Ok k \<Longrightarrow> load_from_strings L False client ns xs = Ok k"
    by (auto simp: load_from_strings_def res_simps dest: split_docs_lenient)
qed

subsection \<open>Reading back what was written\<close>

text \<open>A text that does not run into the separator that follows it.\<close>

definition self_contained :: "string \<Rightarrow> bool" where
  "self_contained b \<longleftrightarrow> b \<noteq> [] \<and> \<not> contains_sub doc_separator (b @ butlast doc_separator)"

lemma contains_sub_prefix: "has_prefix p s \<Longrightarrow> contains_sub p s"
  by (cases s) (auto simp: has_prefix_def)

lemma contains_sub_append: "contains_sub p s \<Longrightarrow> contains_sub p (s @ t)"
  unfolding contains_sub_iff by (metis append.assoc)

lemma split_at_clean:
  "sep \<noteq> [] \<Longrightarrow> \<not> contains_sub sep (b @ butlast sep) \<Longrightarrow>
   split_at_sub sep acc (b @ sep @ rest) = (rev acc @ b) # split_at_sub sep [] rest"
proof (induction b arbitrary: acc)
  case Nil
  obtain c s where sep: "sep = c # s" using Nil by (cases sep) simp_all
  have "has_prefix sep (sep @ rest)" by (simp add: has_prefix_def)
  then show ?case by (simp add: sep)
next
  case (Cons c b)
  have "take (length sep) (c # b @ butlast sep) = take (length sep) (c # b @ sep @ rest)"
  proof -
    have l: "length sep \<le> length (c # b @ butlast sep)" using Cons.prems(1) by simp
    have s: "sep = butlast sep @ [last sep]" using Cons.prems(1) by simp
    have "c # b @ sep @ rest = (c # b @ butlast sep) @ last sep # rest" by (subst s) (simp del: append_butlast_last_id)
    then show ?thesis using l by (simp only: take_append) simp
  qed
  then have "\<not> has_prefix sep (c # b @ sep @ rest)"
    using Cons.prems(2) contains_sub_prefix [of sep "c # b @ butlast sep"] by (auto simp: has_prefix_def)
  moreover have "\<not> contains_sub sep (b @ butlast sep)" using Cons.prems(2) by simp
  ultimately show ?case using Cons.IH [of "c # acc"] Cons.prems(1) by simp
qed

lemma split_at_last: "\<not> contains_sub sep b \<Longrightarrow> split_at_sub sep acc b = [rev acc @ b]"
  by (induction b arbitrary: acc) auto

lemma join_lines:
  "bs \<noteq> [] \<Longrightarrow> join_with (''---'' @ [CHR 0x0A]) (map (\<lambda>b. b @ [CHR 0x0A]) (bs @ [b])) =
     hd bs @ doc_separator @ join_with (''---'' @ [CHR 0x0A]) (map (\<lambda>b. b @ [CHR 0x0A]) (tl bs @ [b]))"
  by (cases bs; cases "tl bs") (simp_all add: doc_separator_def)

lemma split_joined:
  assumes "\<forall>b'\<in>set (bs @ [b]). self_contained b'"
  shows "split_yaml (join_with (''---'' @ [CHR 0x0A]) (map (\<lambda>b. b @ [CHR 0x0A]) (bs @ [b]))) = bs @ [b @ [CHR 0x0A]]"
  using assms
proof (induction bs)
  case Nil
  have "\<not> contains_sub doc_separator (b @ [CHR 0x0A])"
    using Nil contains_sub_append [of doc_separator "b @ [CHR 0x0A]" "''---''"] by (auto simp: self_contained_def doc_separator_def)
  then show ?case using split_at_last [of doc_separator "b @ [CHR 0x0A]" "[]"] by (simp add: split_yaml_def)
next
  case (Cons a bs)
  have "doc_separator \<noteq> []" by (simp add: doc_separator_def)
  with Cons join_lines [of "a # bs" b] split_at_clean [of doc_separator a "[]"]
  show ?case by (simp add: split_yaml_def self_contained_def)
qed

text \<open>
  What the codec promises of the text it writes for a spec: it ends its last line, runs into no separator, and it reads
  back, with its last line ended or not, as the spec of version \<^verbatim>\<open>v1beta2\<close> it was written from.
\<close>

definition writes :: "('f, 'o, 'p, 'h) loader_libs \<Rightarrow> ('o \<Rightarrow> string res) \<Rightarrow> spec_kind \<Rightarrow> 'o \<Rightarrow> bool" where
  "writes L marshal kd x \<longleftrightarrow>
     (\<exists>b. marshal x = Ok (b @ [CHR 0x0A]) \<and> self_contained b \<and>
        (\<forall>t\<in>{b, b @ [CHR 0x0A]}.
           (\<exists>p. ld_parse L t = Ok p \<and> pd_api_version p = Troubleshootv1beta2Kind) \<and>
           (\<exists>m. ld_map L t = Ok m \<and> map_of m ''apiVersion'' = Some (DText Troubleshootv1beta2Kind)) \<and>
           ld_decode L t = Ok (DecodedSpec kd x)))"

definition reads_as :: "('f, 'o, 'p, 'h) loader_libs \<Rightarrow> string \<Rightarrow> spec_kind \<times> 'o \<Rightarrow> bool" where
  "reads_as L t x \<longleftrightarrow>
     t \<noteq> [] \<and> (\<exists>p. ld_parse L t = Ok p \<and> pd_api_version p = Troubleshootv1beta2Kind) \<and>
     (\<exists>m. ld_map L t = Ok m \<and> map_of m ''apiVersion'' = Some (DText Troubleshootv1beta2Kind)) \<and>
     ld_decode L t = Ok (DecodedSpec (fst x) (snd x))"

lemma versions_differ: "Troubleshootv1beta2Kind \<noteq> ''v1''" "Troubleshootv1beta2Kind \<noteq> Troubleshootv1beta3Kind"
  by (simp_all add: Troubleshootv1beta2Kind_def Troubleshootv1beta3Kind_def)

lemma reads_as_docs: "reads_as L t x \<Longrightarrow> extract_docs L st t = Ok [t]"
  using versions_differ by (auto simp: reads_as_def extract_docs_def pass_over_def is_config_map_def is_secret_def)

lemma reads_as_loads: "reads_as L t x \<Longrightarrow> load_doc L st client ns t k = Ok (kinds_append (fst x) (snd x) k)"
  using versions_differ
  by (auto simp: reads_as_def load_doc_def is_bundle3_def convert_to_v1beta2_def pass_over_def)

lemma load_reads_as:
  assumes "list_all2 (reads_as L) ts xs"
  shows "load_from_split_docs L st client ns ts k = Ok (foldl (\<lambda>k (kd, x). kinds_append kd x k) k xs)"
  using assms
proof (induction ts xs arbitrary: k rule: list_all2_induct)
  case (Cons t ts x xs)
  then show ?case using reads_as_loads [OF Cons(1)] by (simp add: split_beta)
qed simp

definition kinds_specs :: "'o troubleshoot_kinds \<Rightarrow> (spec_kind \<times> 'o) list" where
  "kinds_specs k = concat (map (\<lambda>(kd, os). map (Pair kd) os) (kinds_fields k))"

lemma kinds_specs_objects: "map snd (kinds_specs k) = concat (map snd (kinds_fields k))"
  by (simp add: kinds_specs_def kinds_fields_def comp_def)

lemma append_fields:
  "foldl (\<lambda>k (kd, x). kinds_append kd x k) k (map (Pair KindAnalyzer) xs) = k\<lparr>analyzers_v1beta2 := analyzers_v1beta2 k @ xs\<rparr>"
  "foldl (\<lambda>k (kd, x). kinds_append kd x k) k (map (Pair KindCollector) xs) = k\<lparr>collectors_v1beta2 := collectors_v1beta2 k @ xs\<rparr>"
  "foldl (\<lambda>k (kd, x). kinds_append kd x k) k (map (Pair KindHostCollector) xs) =
     k\<lparr>host_collectors_v1beta2 := host_collectors_v1beta2 k @ xs\<rparr>"
  "foldl (\<lambda>k (kd, x). kinds_append kd x k) k (map (Pair KindHostPreflight) xs) =
     k\<lparr>host_preflights_v1beta2 := host_preflights_v1beta2 k @ xs\<rparr>"
  "foldl (\<lambda>k (kd, x). kinds_append kd x k) k (map (Pair KindPreflight) xs) = k\<lparr>preflights_v1beta2 := preflights_v1beta2 k @ xs\<rparr>"
  "foldl (\<lambda>k (kd, x). kinds_append kd x k) k (map (Pair KindRedactor) xs) = k\<lparr>redactors_v1beta2 := redactors_v1beta2 k @ xs\<rparr>"
  "foldl (\<lambda>k (kd, x). kinds_append kd x k) k (map (Pair KindRemoteCollector) xs) =
     k\<lparr>remote_collectors_v1beta2 := remote_collectors_v1beta2 k @ xs\<rparr>"
  "foldl (\<lambda>k (kd, x). kinds_append kd x k) k (map (Pair KindSupportBundle) xs) =
     k\<lparr>support_bundles_v1beta2 := support_bundles_v1beta2 k @ xs\<rparr>"
  by (induction xs arbitrary: k) (simp_all add: kinds_append_def)

lemma rebuild_kinds: "foldl (\<lambda>k (kd, x). kinds_append kd x k) new_troubleshoot_kinds (kinds_specs k) = k"
  by (simp add: kinds_specs_def kinds_fields_def append_fields new_troubleshoot_kinds_def)

lemma written_bodies:
  assumes "\<forall>(kd, x)\<in>set xs. writes L marshal kd x"
  shows "\<exists>bs. map_m marshal (map snd xs) = Ok (map (\<lambda>b. b @ [CHR 0x0A]) bs) \<and> (\<forall>b\<in>set bs. self_contained b) \<and>
     list_all2 (\<lambda>b x. reads_as L b x \<and> reads_as L (b @ [CHR 0x0A]) x) bs xs"
  using assms
proof (induction xs)
  case (Cons y xs)
  then obtain b where b: "marshal (snd y) = Ok (b @ [CHR 0x0A])" "self_contained b"
    "reads_as L b y" "reads_as L (b @ [CHR 0x0A]) y"
    by (cases y) (auto simp: writes_def reads_as_def self_contained_def)
  from Cons obtain bs where "map_m marshal (map snd xs) = Ok (map (\<lambda>b. b @ [CHR 0x0A]) bs)" "\<forall>b\<in>set bs. self_contained b"
    "list_all2 (\<lambda>b x. reads_as L b x \<and> reads_as L (b @ [CHR 0x0A]) x) bs xs" by auto
  with b show ?case by (intro exI [of _ "b # bs"]) simp
qed simp

lemma load_texts:
  assumes "list_all2 (reads_as L) ts (kinds_specs k)" and "split_yaml doc = ts"
  shows "load_from_strings L st client ns [doc] = Ok k"
proof -
  have "map_m (extract_docs L st) ts = Ok (map (\<lambda>t. [t]) ts)"
    using assms(1) by (intro map_m_Ok_cong) (auto simp: list_all2_conv_all_nth in_set_conv_nth intro: reads_as_docs)
  with load_reads_as [OF assms(1)] rebuild_kinds show ?thesis
    by (simp add: load_from_strings_def assms(2))
qed

subsection \<open>References\<close>

lemma resolve_without_refs: "\<not> string_or_value_from_has_ref s \<Longrightarrow> is_ok (resolve_string_or_value_from s client ns)"
  by (auto simp: resolve_string_or_value_from_def string_or_value_from_has_ref_def split: option.splits)

lemma resolve_key_ref_with_client:
  "\<not> is_panic (fetch c (if kr_namespace ref = [] then ns else kr_namespace ref) (kr_name ref)) \<Longrightarrow>
   \<not> is_panic (resolve_key_ref kind fetch ref (Some c) ns)"
  by (cases "fetch c (if kr_namespace ref = [] then ns else kr_namespace ref) (kr_name ref)")
    (simp_all add: resolve_key_ref_def Let_def split: option.split)

lemma resolve_with_client:
  assumes "\<And>n m. \<not> is_panic (get_secret c n m)" and "\<And>n m. \<not> is_panic (get_config_map c n m)"
  shows "\<not> is_panic (resolve_string_or_value_from s (Some c) ns)"
  by (simp add: resolve_string_or_value_from_def resolve_secret_key_ref_def resolve_config_map_key_ref_def
      resolve_key_ref_with_client assms split: option.split)

text \<open>All values of a bundle that may be references.\<close>

definition tls_strings :: "tls_params3 \<Rightarrow> string_or_value_from list" where
  "tls_strings t = [t3_ca_cert t, t3_client_cert t, t3_client_key t]"

definition database_strings :: "'p database3 option \<Rightarrow> string_or_value_from list" where
  "database_strings d =
     (case d of None \<Rightarrow> [] | Some d \<Rightarrow> d3_uri d # (case d3_tls d of None \<Rightarrow> [] | Some t \<Rightarrow> tls_strings t))"

definition collector_strings :: "'p collect3 option \<Rightarrow> string_or_value_from list" where
  "collector_strings c =
     (case c of
        None \<Rightarrow> []
      | Some c \<Rightarrow> database_strings (c3_postgres c) @ database_strings (c3_mysql c) @ database_strings (c3_mssql c) @
          database_strings (c3_redis c))"

definition bundle_strings :: "('p, 'h) bundle3 \<Rightarrow> string_or_value_from list" where
  "bundle_strings b = (case b3_collectors b of None \<Rightarrow> [] | Some cs \<Rightarrow> concat (map collector_strings cs))"

lemma database_requires_strings: "database_requires_client d \<longleftrightarrow> list_ex string_or_value_from_has_ref (database_strings d)"
  by (auto simp: database_requires_client_def database_strings_def tls_strings_def split: option.split)

lemma requires_client_strings: "v1beta3_spec_requires_client b \<longleftrightarrow> list_ex string_or_value_from_has_ref (bundle_strings b)"
proof (cases "b3_collectors b")
  case (Some cs)
  have c: "(case c of None \<Rightarrow> False | Some c \<Rightarrow> database_requires_client (c3_postgres c) \<or> database_requires_client (c3_mysql c) \<or>
      database_requires_client (c3_mssql c) \<or> database_requires_client (c3_redis c)) \<longleftrightarrow>
    list_ex string_or_value_from_has_ref (collector_strings c)" for c :: "'p collect3 option"
    by (cases c) (simp_all add: collector_strings_def database_requires_strings)
  show ?thesis unfolding v1beta3_spec_requires_client_def Some option.case c
    by (auto simp: bundle_strings_def Some list_ex_iff)
qed (simp add: v1beta3_spec_requires_client_def bundle_strings_def)

lemma is_ok_bind: "is_ok (bind_res m f) \<longleftrightarrow> (\<exists>x. m = Ok x \<and> is_ok (f x))"
  and is_ok_map: "is_ok (map_res g m) = is_ok m"
  by (cases m; simp)+

lemma is_ok_iff: "is_ok m \<longleftrightarrow> (\<exists>x. m = Ok x)"
  by (cases m) simp_all

lemma is_ok_no_panic: "is_ok m \<Longrightarrow> \<not> is_panic m"
  by (cases m) simp_all

lemma convert_tls_safe:
  "\<forall>s\<in>set (tls_strings t). is_ok (resolve_string_or_value_from s client ns) \<Longrightarrow> is_ok (convert_tls_params t client ns)"
  "\<forall>s\<in>set (tls_strings t). \<not> is_panic (resolve_string_or_value_from s client ns) \<Longrightarrow> \<not> is_panic (convert_tls_params t client ns)"
  by (auto simp: tls_strings_def convert_tls_params_def is_ok_bind is_ok_wrap is_ok_iff is_panic_bind)

lemma convert_database_safe:
  "\<forall>s\<in>set (database_strings (Some d)). is_ok (resolve_string_or_value_from s client ns) \<Longrightarrow> is_ok (convert_database d client ns)"
  "\<forall>s\<in>set (database_strings (Some d)). \<not> is_panic (resolve_string_or_value_from s client ns) \<Longrightarrow>
     \<not> is_panic (convert_database d client ns)"
  using convert_tls_safe [of "the (d3_tls d)" client ns]
  by (cases "d3_tls d";
      auto simp: database_strings_def convert_database_def map_set_def is_ok_bind is_ok_map is_ok_wrap is_ok_iff is_panic_bind)+

lemma map_set_safe:
  "\<forall>s\<in>set (database_strings d). is_ok (resolve_string_or_value_from s client ns) \<Longrightarrow>
     is_ok (map_set (\<lambda>d. wrap_res p (convert_database d client ns)) d)"
  "\<forall>s\<in>set (database_strings d). \<not> is_panic (resolve_string_or_value_from s client ns) \<Longrightarrow>
     \<not> is_panic (map_set (\<lambda>d. wrap_res p (convert_database d client ns)) d)"
  using convert_database_safe [of "the d" client ns]
  by (cases d; simp add: map_set_def is_ok_map is_ok_wrap)+

lemma convert_collector_safe:
  "\<forall>s\<in>set (collector_strings (Some c)). is_ok (resolve_string_or_value_from s client ns) \<Longrightarrow> is_ok (convert_collector (Some c) client ns)"
  "\<forall>s\<in>set (collector_strings (Some c)). \<not> is_panic (resolve_string_or_value_from s client ns) \<Longrightarrow>
     \<not> is_panic (convert_collector (Some c) client ns)"
proof -
  note parts = map_set_safe [of "c3_postgres c" client ns] map_set_safe [of "c3_mysql c" client ns]
    map_set_safe [of "c3_mssql c" client ns] map_set_safe [of "c3_redis c" client ns]
  assume "\<forall>s\<in>set (collector_strings (Some c)). is_ok (resolve_string_or_value_from s client ns)"
  then obtain a b d e where
    "map_set (\<lambda>d. wrap_res (''failed to convert '' @ ''postgres'' @ '' collector'') (convert_database d client ns)) (c3_postgres c) = Ok a"
    "map_set (\<lambda>d. wrap_res (''failed to convert '' @ ''mysql'' @ '' collector'') (convert_database d client ns)) (c3_mysql c) = Ok b"
    "map_set (\<lambda>d. wrap_res (''failed to convert '' @ ''mssql'' @ '' collector'') (convert_database d client ns)) (c3_mssql c) = Ok d"
    "map_set (\<lambda>d. wrap_res (''failed to convert '' @ ''redis'' @ '' collector'') (convert_database d client ns)) (c3_redis c) = Ok e"
    using parts(1,3,5,7) unfolding is_ok_iff by (simp add: collector_strings_def) blast
  then show "is_ok (convert_collector (Some c) client ns)" by (simp only: convert_collector_def option.case Let_def bind_res.simps is_ok.simps)
next
  note parts = map_set_safe [of "c3_postgres c" client ns] map_set_safe [of "c3_mysql c" client ns]
    map_set_safe [of "c3_mssql c" client ns] map_set_safe [of "c3_redis c" client ns]
  assume "\<forall>s\<in>set (collector_strings (Some c)). \<not> is_panic (resolve_string_or_value_from s client ns)"
  then show "\<not> is_panic (convert_collector (Some c) client ns)"
    using parts(2,4,6,8) by (simp add: collector_strings_def convert_collector_def is_panic_bind)
qed

lemma convert_bundle_safe:
  assumes "case b3_collectors b of None \<Rightarrow> True | Some cs \<Rightarrow> None \<notin> set cs"
  shows "\<forall>s\<in>set (bundle_strings b). is_ok (resolve_string_or_value_from s client ns) \<Longrightarrow>
      is_ok (convert_to_v1beta2_with_resolution b client ns)"
    and "\<forall>s\<in>set (bundle_strings b). \<not> is_panic (resolve_string_or_value_from s client ns) \<Longrightarrow>
      \<not> is_panic (convert_to_v1beta2_with_resolution b client ns)"
proof -
  have ok: "is_ok (map_m (\<lambda>c. wrap_res p (convert_collector c client ns)) cs)"
    if "None \<notin> set cs" "\<forall>s\<in>set (concat (map collector_strings cs)). is_ok (resolve_string_or_value_from s client ns)" for p cs
    using that
  proof (induction cs)
    case (Cons c cs)
    then obtain c' where c': "c = Some c'" by (cases c) simp_all
    with Cons have "is_ok (convert_collector c client ns)" by (simp add: convert_collector_safe(1))
    moreover have "is_ok (map_m (\<lambda>c. wrap_res p (convert_collector c client ns)) cs)" using Cons by simp
    ultimately show ?case by (auto simp: is_ok_iff)
  qed simp
  have np: "\<not> is_panic (map_m (\<lambda>c. wrap_res p (convert_collector c client ns)) cs)"
    if "None \<notin> set cs" "\<forall>s\<in>set (concat (map collector_strings cs)). \<not> is_panic (resolve_string_or_value_from s client ns)" for p cs
    using that
  proof (induction cs)
    case (Cons c cs)
    then obtain c' where c': "c = Some c'" by (cases c) simp_all
    with Cons have "\<not> is_panic (convert_collector c client ns)" by (simp add: convert_collector_safe(2))
    with Cons show ?case by (simp add: is_panic_bind)
  qed simp
  show "\<forall>s\<in>set (bundle_strings b). is_ok (resolve_string_or_value_from s client ns) \<Longrightarrow>
      is_ok (convert_to_v1beta2_with_resolution b client ns)"
    using assms ok by (cases "b3_collectors b") (simp_all add: convert_to_v1beta2_with_resolution_def map_set_def is_ok_map bundle_strings_def)
  show "\<forall>s\<in>set (bundle_strings b). \<not> is_panic (resolve_string_or_value_from s client ns) \<Longrightarrow>
      \<not> is_panic (convert_to_v1beta2_with_resolution b client ns)"
    using assms np by (cases "b3_collectors b") (simp_all add: convert_to_v1beta2_with_resolution_def map_set_def bundle_strings_def)
qed

section \<open>Properties\<close>

text \<open>
  C25. Specs written as YAML are read back as they were: with a codec that ends its documents with a line, puts no separator
  into them and reads what it wrote, loading the text of any collection of specs gives the collection, strict or not and
  with or without a cluster.
\<close>

theorem kinds_yaml_roundtrip:
  assumes "\<forall>(kd, x)\<in>set (kinds_specs k). writes L marshal kd x" and "to_yaml marshal k = Ok doc"
  shows "load_specs L is_strict client ns [] doc = Ok k"
proof -
  obtain bs where bs: "map_m marshal (map snd (kinds_specs k)) = Ok (map (\<lambda>b. b @ [CHR 0x0A]) bs)"
    "\<forall>b\<in>set bs. self_contained b" "list_all2 (\<lambda>b x. reads_as L b x \<and> reads_as L (b @ [CHR 0x0A]) x) bs (kinds_specs k)"
    using written_bodies [OF assms(1)] by blast
  from assms(2) bs(1) have doc: "doc = join_with (''---'' @ [CHR 0x0A]) (map (\<lambda>b. b @ [CHR 0x0A]) bs)"
    by (simp add: to_yaml_def kinds_specs_objects)
  show ?thesis
  proof (cases bs rule: rev_cases)
    case Nil
    with bs(3) have "kinds_specs k = []" by simp
    then have "k = new_troubleshoot_kinds" using rebuild_kinds [of k] by simp
    moreover have "load_from_strings L is_strict client n [[]] = Ok new_troubleshoot_kinds" for n
      by (simp add: load_from_strings_def split_yaml_def extract_docs_def)
    ultimately show ?thesis using doc Nil by (simp add: load_specs_def)
  next
    case (snoc cs b)
    obtain us u where us: "kinds_specs k = us @ [u]" "reads_as L (b @ [CHR 0x0A]) u"
      "list_all2 (\<lambda>b x. reads_as L b x \<and> reads_as L (b @ [CHR 0x0A]) x) cs us"
      using bs(3) unfolding snoc list_all2_append1 list_all2_Cons1 by auto
    have "list_all2 (reads_as L) cs us" by (rule list_all2_mono [OF us(3)]) simp
    with us(1,2) have "list_all2 (reads_as L) (cs @ [b @ [CHR 0x0A]]) (kinds_specs k)" by (simp add: list_all2_appendI)
    moreover have "split_yaml doc = cs @ [b @ [CHR 0x0A]]" unfolding doc snoc by (rule split_joined) (use bs(2) snoc in simp)
    ultimately show ?thesis by (simp add: load_specs_def load_texts)
  qed
qed

theorem kinds_yaml_roundtrip_witness:
  "\<exists>(L :: (nat, nat, nat, nat) loader_libs) marshal k doc. to_yaml marshal k = Ok doc \<and> kinds_len k = 2 \<and>
     load_specs L True None [] [] doc = Ok k"
proof -
  let ?decode = "\<lambda>t. if t = ''p'' \<or> t = ''p'' @ [CHR 0x0A] then Ok (DecodedSpec KindPreflight (1 :: nat)) else Ok (DecodedSpec KindRedactor 2)"
  let ?L = "\<lparr>ld_parse = (\<lambda>_. Ok \<lparr>pd_kind = ''K'', pd_api_version = Troubleshootv1beta2Kind\<rparr>),
     ld_map = (\<lambda>_. Ok [(''apiVersion'', DText Troubleshootv1beta2Kind)]), ld_marshal = (\<lambda>_. Ok []),
     ld_decode = ?decode, ld_bundle = (\<lambda>_ _. 0)\<rparr> :: (nat, nat, nat, nat) loader_libs"
  let ?marshal = "\<lambda>x :: nat. Ok ((if x = 1 then ''p'' else ''r'') @ [CHR 0x0A])"
  let ?k = "new_troubleshoot_kinds\<lparr>preflights_v1beta2 := [1], redactors_v1beta2 := [2]\<rparr> :: nat troubleshoot_kinds"
  let ?doc = "''p'' @ [CHR 0x0A] @ ''---'' @ [CHR 0x0A] @ ''r'' @ [CHR 0x0A]"
  have sc: "self_contained ''p''" "self_contained ''r''" by code_simp+
  have "writes ?L ?marshal KindPreflight 1" "writes ?L ?marshal KindRedactor 2"
    unfolding writes_def using sc by (intro exI [of _ "''p''"] exI [of _ "''r''"], simp)+
  then have w: "\<forall>(kd, x)\<in>set (kinds_specs ?k). writes ?L ?marshal kd x"
    by (simp add: kinds_specs_def kinds_fields_def new_troubleshoot_kinds_def)
  have y: "to_yaml ?marshal ?k = Ok ?doc" by (simp add: to_yaml_def kinds_fields_def new_troubleshoot_kinds_def)
  from kinds_yaml_roundtrip [OF w y] have "load_specs ?L True None [] [] ?doc = Ok ?k" .
  moreover have "kinds_len ?k = 2" by (simp add: kinds_len_def kinds_fields_def new_troubleshoot_kinds_def)
  ultimately show ?thesis using y by blast
qed

text \<open>
  C26. Specs can be loaded in parts: what two lists of texts give together is what they give one by one, merged. Strict
  loading gives nothing that loading without the strict mode does not give.
\<close>

theorem loading_in_parts:
  assumes "load_from_strings L True client ns xs = Ok a" and "load_from_strings L st client ns ys = Ok b"
  shows "load_from_strings L False client ns xs = Ok a \<and>
    (\<forall>zs c. load_from_strings L st client ns zs = Ok c \<longrightarrow>
       load_from_strings L st client ns (ys @ zs) = Ok (kinds_add b c) \<and>
       kinds_len (kinds_add b c) = kinds_len b + kinds_len c)"
  using load_strings_lenient [OF assms(1)] load_strings_append [OF assms(2)]
  by (auto simp: kinds_len_def kinds_fields_def kinds_add_def)

theorem loading_in_parts_witness:
  "\<exists>L :: (nat, nat, nat, nat) loader_libs. load_from_strings L False None [] [''d'', ''d''] =
     Ok (new_troubleshoot_kinds\<lparr>redactors_v1beta2 := [2, 2]\<rparr>)"
proof -
  let ?L = "\<lparr>ld_parse = (\<lambda>_. Ok \<lparr>pd_kind = ''Redactor'', pd_api_version = Troubleshootv1beta2Kind\<rparr>),
     ld_map = (\<lambda>_. Ok [(''apiVersion'', DText Troubleshootv1beta2Kind)]), ld_marshal = (\<lambda>_. Ok []),
     ld_decode = (\<lambda>_. Ok (DecodedSpec KindRedactor 2)), ld_bundle = (\<lambda>_ _. 0)\<rparr> :: (nat, nat, nat, nat) loader_libs"
  let ?k = "new_troubleshoot_kinds\<lparr>redactors_v1beta2 := [2]\<rparr> :: nat troubleshoot_kinds"
  have "split_yaml ''d'' = [''d'']" by code_simp
  then have d: "load_from_strings ?L st None [] [''d''] = Ok ?k" for st
    using versions_differ
    by (simp add: load_from_strings_def extract_docs_def pass_over_def is_config_map_def is_secret_def load_doc_def is_bundle3_def
        convert_to_v1beta2_def kinds_append_def new_troubleshoot_kinds_def)
  from loading_in_parts [OF d d [of False]] d [of False]
  have "load_from_strings ?L False None [] ([''d''] @ [''d'']) = Ok (kinds_add ?k ?k)" by blast
  then show ?thesis by (intro exI [of _ ?L]) (simp add: kinds_add_def new_troubleshoot_kinds_def)
qed

text \<open>
  A spec of version v1beta3 never touches a cluster that is not there: with a cluster whose answers are not panics, or
  without one, loading it does not panic when none of its collectors is nil, and one without references to secrets and
  config maps is loaded without a cluster.
\<close>

theorem bundle_without_cluster:
  assumes "ld_decode L doc = Ok (DecodedBundle3 b)" and "case b3_collectors b of None \<Rightarrow> True | Some cs \<Rightarrow> None \<notin> set cs"
    and "\<And>c n m. client = Some c \<Longrightarrow> \<not> is_panic (get_secret c n m) \<and> \<not> is_panic (get_config_map c n m)"
  shows "\<not> is_panic (load_v1beta3_spec L client ns doc k) \<and>
    (\<not> v1beta3_spec_requires_client b \<longrightarrow> is_ok (load_v1beta3_spec L None ns doc k))"
proof
  have no_refs: "\<forall>s\<in>set (bundle_strings b). is_ok (resolve_string_or_value_from s cl ns)"
    if "\<not> v1beta3_spec_requires_client b" for cl
    using that by (auto simp: requires_client_strings list_ex_iff intro: resolve_without_refs)
  show "\<not> is_panic (load_v1beta3_spec L client ns doc k)"
  proof (cases "v1beta3_spec_requires_client b \<and> client = None")
    case False
    have "\<forall>s\<in>set (bundle_strings b). \<not> is_panic (resolve_string_or_value_from s client ns)"
    proof (cases client)
      case None
      with False no_refs [of client] show ?thesis using is_ok_no_panic by blast
    next
      case (Some c)
      with assms(3) [OF Some] show ?thesis by (simp add: resolve_with_client)
    qed
    from convert_bundle_safe(2) [OF assms(2) this] False show ?thesis
      by (cases "convert_to_v1beta2_with_resolution b client ns") (auto simp: load_v1beta3_spec_def assms(1))
  qed (simp add: load_v1beta3_spec_def assms(1))
  show "\<not> v1beta3_spec_requires_client b \<longrightarrow> is_ok (load_v1beta3_spec L None ns doc k)"
  proof
    assume n: "\<not> v1beta3_spec_requires_client b"
    obtain b2 where "convert_to_v1beta2_with_resolution b None ns = Ok b2"
      using convert_bundle_safe(1) [OF assms(2) no_refs [OF n]] unfolding is_ok_iff by blast
    with n show "is_ok (load_v1beta3_spec L None ns doc k)" by (simp add: load_v1beta3_spec_def assms(1))
  qed
qed

theorem bundle_without_cluster_witness:
  "\<exists>(L :: (nat, nat, nat, nat) loader_libs). is_ok (load_v1beta3_spec L None ''default'' ''doc'' new_troubleshoot_kinds)"
proof -
  let ?v = "\<lparr>sv_value = Some ''postgres://host'', sv_value_from = None\<rparr>"
  let ?b = "\<lparr>b3_header = 0, b3_uri = [], b3_in_pod = False,
     b3_collectors = Some [Some \<lparr>c3_postgres = Some \<lparr>d3_meta = 0, d3_uri = ?v, d3_tls = None\<rparr>, c3_mysql = None, c3_mssql = None,
       c3_redis = None\<rparr>]\<rparr> :: (nat, nat) bundle3"
  let ?L = "\<lparr>ld_parse = (\<lambda>_. Ok \<lparr>pd_kind = ''SupportBundle'', pd_api_version = Troubleshootv1beta3Kind\<rparr>), ld_map = (\<lambda>_. Ok []),
     ld_marshal = (\<lambda>_. Ok []), ld_decode = (\<lambda>_. Ok (DecodedBundle3 ?b)), ld_bundle = (\<lambda>_ _. 0)\<rparr>
     :: (nat, nat, nat, nat) loader_libs"
  have "ld_decode ?L ''doc'' = Ok (DecodedBundle3 ?b)" by simp
  from bundle_without_cluster [OF this, of None "''default''" new_troubleshoot_kinds]
  have "is_ok (load_v1beta3_spec ?L None ''default'' ''doc'' new_troubleshoot_kinds)"
    by (simp add: v1beta3_spec_requires_client_def database_requires_client_def string_or_value_from_has_ref_def)
  then show ?thesis by blast
qed

text \<open>
  Preflights are put together without loss: those with a destination of their own stay as they are, the others become
  one whose collectors and analyzers are theirs in order, and splitting the list makes no difference to what they become.
\<close>

theorem preflights_put_together:
  "filter (\<lambda>p. pp_upload_results_to p \<noteq> []) (read_preflights ps) =
     filter (\<lambda>p. pp_upload_results_to p \<noteq> []) ps \<and>
   length (filter (\<lambda>p. pp_upload_results_to p = []) (read_preflights ps)) =
     (if list_ex (\<lambda>p. pp_upload_results_to p = []) ps then 1 else 0) \<and>
   foldl concat_preflight_spec None (map Some (ps @ qs)) =
     concat_preflight_spec (foldl concat_preflight_spec None (map Some ps)) (foldl concat_preflight_spec None (map Some qs))"
proof -
  have from_some: "\<exists>q. foldl concat_preflight_spec (Some p) (map Some xs) = Some q \<and> pp_upload_results_to q = pp_upload_results_to p"
    for p :: "('a, 'b, 'c) preflight_spec" and xs
  proof (induction xs arbitrary: p)
    case (Cons x xs)
    obtain p' where "concat_preflight_spec (Some p) (Some x) = Some p'" "pp_upload_results_to p' = pp_upload_results_to p"
      by (simp add: concat_preflight_spec_def)
    with Cons [of p'] show ?case by simp
  qed simp
  have "case foldl concat_preflight_spec None (map Some xs) of None \<Rightarrow> xs = [] | Some q \<Rightarrow> xs \<noteq> [] \<and> pp_upload_results_to q = []"
    if none: "\<forall>p\<in>set xs. pp_upload_results_to p = []" for xs :: "('a, 'b, 'c) preflight_spec list"
  proof (cases xs)
    case (Cons p xs')
    then obtain q where "foldl concat_preflight_spec (Some p) (map Some xs') = Some q" "pp_upload_results_to q = []"
      using from_some [of p xs'] none by auto
    then show ?thesis by (simp add: Cons concat_preflight_spec_def)
  qed simp
  from this [of "filter (\<lambda>p. pp_upload_results_to p = []) ps"] preflights.foldl_parts [of "map Some ps" "map Some qs"]
  show ?thesis
    by (auto simp: read_preflights_def list_ex_iff filter_empty_conv split: option.splits)
qed

end
