(* ===== verification/Image_References.thy ===== *)
theory Image_References
  imports Prelude
begin

text \<open>
  References to container images (\<^verbatim>\<open>pkg/collect/images\<close>): parsing and printing (\<^verbatim>\<open>collector.go\<close>, \<^verbatim>\<open>types.go\<close>), their
  extraction from the workloads of a namespace (\<^verbatim>\<open>integration.go\<close>), digests (\<^verbatim>\<open>digest_resolver.go\<close>), registries and their
  credentials (\<^verbatim>\<open>utils.go\<close>, \<^verbatim>\<open>registry_client.go\<close>) and sizes. A map of credentials is the list of its entries in the order
  a range visits them. Parameters: the host \<^verbatim>\<open>url.Parse\<close> finds, SHA-256 in hexadecimal, and the text of a quotient of
  floats.
\<close>

section \<open>References\<close>

record image_reference =
  ref_registry :: string
  ref_repository :: string
  ref_tag :: string
  ref_digest :: string

definition DefaultRegistry :: string where "DefaultRegistry = ''docker.io''"
definition DefaultTag :: string where "DefaultTag = ''latest''"

definition reference_string :: "image_reference \<Rightarrow> string" where
  "reference_string ir =
     (let registry = (if ref_registry ir = [] then ''docker.io'' else ref_registry ir);
          ref = registry @ ''/'' @ ref_repository ir
      in if ref_digest ir \<noteq> [] then ref @ ''@'' @ ref_digest ir
         else if ref_tag ir \<noteq> [] then ref @ '':'' @ ref_tag ir
         else ref @ '':latest'')"

text \<open>Both sides of the first and of the last occurrence of a byte.\<close>

definition cut_first :: "char \<Rightarrow> string \<Rightarrow> string \<times> string" where
  "cut_first c s = (takeWhile (\<lambda>d. d \<noteq> c) s, tl (dropWhile (\<lambda>d. d \<noteq> c) s))"

definition cut_last :: "char \<Rightarrow> string \<Rightarrow> string \<times> string" where
  "cut_last c s = (let (b, a) = cut_first c (rev s) in (rev a, rev b))"

definition repository_and_tag :: "string \<Rightarrow> string \<times> string" where
  "repository_and_tag ref =
     (case split_on (CHR '':'') ref of
        [_] \<Rightarrow> (ref, DefaultTag)
      | [a, b] \<Rightarrow> (a, b)
      | _ \<Rightarrow> cut_last (CHR '':'') ref)"

definition registry_and_path :: "string \<Rightarrow> string \<times> string" where
  "registry_and_path repository =
     (case split_on (CHR ''/'') repository of
        [] \<Rightarrow> (DefaultRegistry, repository)
      | first # rest \<Rightarrow>
          if contains_sub ''.'' first \<or> contains_sub '':'' first then (first, join_with ''/'' rest)
          else (DefaultRegistry, repository))"

definition library_shorthand :: "string \<Rightarrow> string \<Rightarrow> string" where
  "library_shorthand registry repository =
     (if registry = DefaultRegistry \<and> \<not> contains_sub ''/'' repository then ''library/'' @ repository else repository)"

definition parse_repository_reference :: "string \<Rightarrow> image_reference res" where
  "parse_repository_reference ref =
     (let (repository, tag) = repository_and_tag ref;
          (registry, path) = registry_and_path repository
      in Ok \<lparr>ref_registry = registry, ref_repository = library_shorthand registry path, ref_tag = tag, ref_digest = []\<rparr>)"

definition parse_image_reference :: "string \<Rightarrow> image_reference res" where
  "parse_image_reference s =
     (if contains_sub ''@'' s then
        (let (before, after) = cut_first (CHR ''@'') s
         in bind_res (parse_repository_reference before) (\<lambda>r. Ok (r\<lparr>ref_digest := after\<rparr>)))
      else parse_repository_reference s)"

definition normalize_image_reference :: "image_reference \<Rightarrow> image_reference" where
  "normalize_image_reference ir =
     (let n1 = (if ref_registry ir = [] then ir\<lparr>ref_registry := DefaultRegistry\<rparr> else ir);
          n2 = (if ref_tag n1 = [] \<and> ref_digest n1 = [] then n1\<lparr>ref_tag := DefaultTag\<rparr> else n1)
      in if ref_registry n2 = DefaultRegistry \<and> \<not> contains_sub ''/'' (ref_repository n2)
         then n2\<lparr>ref_repository := ''library/'' @ ref_repository n2\<rparr> else n2)"

lemma contains_char [simp]: "contains_sub [c] s \<longleftrightarrow> c \<in> set s"
  by (induction s) (auto simp: has_prefix_iff)

lemma cut_first_append: "c \<notin> set a \<Longrightarrow> cut_first c (a @ c # b) = (a, b)"
  by (simp add: cut_first_def takeWhile_append dropWhile_append)

lemma cut_last_append: "c \<notin> set b \<Longrightarrow> cut_last c (a @ c # b) = (a, b)"
  using cut_first_append [of c "rev b" "rev a"] by (simp add: cut_last_def)

lemma split_on_length: "length (split_on c s) = Suc (count_list s c)"
  by (induction s) (auto split: list.splits)

lemma repository_and_tag_colon:
  assumes "CHR '':'' \<notin> set t"
  shows "repository_and_tag (a @ CHR '':'' # t) = (a, t)"
proof (cases "CHR '':'' \<in> set a")
  case True
  then have "count_list a (CHR '':'') > 0" using count_list_0_iff [of a "CHR '':''"] by simp
  then have "length (split_on (CHR '':'') (a @ CHR '':'' # t)) \<ge> 3" by (simp add: split_on_length)
  then obtain x y z zs where "split_on (CHR '':'') (a @ CHR '':'' # t) = x # y # z # zs"
    by (metis (no_types, opaque_lifting) Suc_le_length_iff numeral_3_eq_3)
  with cut_last_append [OF assms] show ?thesis by (simp add: repository_and_tag_def)
next
  case False
  with assms show ?thesis by (simp add: repository_and_tag_def split_on_two)
qed

lemma repository_and_tag_none: "CHR '':'' \<notin> set s \<Longrightarrow> repository_and_tag s = (s, DefaultTag)"
  by (simp add: repository_and_tag_def split_on_no_sep)

lemma registry_and_path_append:
  assumes "CHR ''/'' \<notin> set g" and "CHR ''.'' \<in> set g \<or> CHR '':'' \<in> set g"
  shows "registry_and_path (g @ CHR ''/'' # p) = (g, p)"
  using assms by (simp add: registry_and_path_def split_on_append join_split_on)

lemma registry_and_path_plain:
  assumes "CHR ''/'' \<notin> set g" and "CHR ''.'' \<notin> set g" and "CHR '':'' \<notin> set g"
  shows "registry_and_path g = (DefaultRegistry, g)"
  using assms by (simp add: registry_and_path_def split_on_no_sep)

text \<open>What the parts of a reference look like; the registry is told from a path by a dot or a colon.\<close>

definition is_registry :: "string \<Rightarrow> bool" where
  "is_registry g \<longleftrightarrow> (CHR ''.'' \<in> set g \<or> CHR '':'' \<in> set g) \<and> CHR ''/'' \<notin> set g \<and> CHR ''@'' \<notin> set g"

definition well_formed_reference :: "image_reference \<Rightarrow> bool" where
  "well_formed_reference r \<longleftrightarrow>
     is_registry (ref_registry r) \<and> set (ref_repository r) \<inter> {CHR '':'', CHR ''@''} = {} \<and>
     set (ref_tag r) \<inter> {CHR '':'', CHR ''@''} = {} \<and>
     (ref_registry r = DefaultRegistry \<longrightarrow> CHR ''/'' \<in> set (ref_repository r))"

lemma parse_tagged:
  assumes "well_formed_reference r"
  shows "parse_repository_reference (ref_registry r @ ''/'' @ ref_repository r @ '':'' @ ref_tag r) = Ok (r\<lparr>ref_digest := []\<rparr>)"
proof -
  from assms have "repository_and_tag ((ref_registry r @ ''/'' @ ref_repository r) @ CHR '':'' # ref_tag r)
      = (ref_registry r @ ''/'' @ ref_repository r, ref_tag r)"
    by (intro repository_and_tag_colon) (auto simp: well_formed_reference_def)
  moreover have "registry_and_path (ref_registry r @ CHR ''/'' # ref_repository r) = (ref_registry r, ref_repository r)"
    using assms by (intro registry_and_path_append) (auto simp: well_formed_reference_def is_registry_def)
  ultimately show ?thesis using assms
    by (auto simp: parse_repository_reference_def library_shorthand_def well_formed_reference_def)
qed

lemma parse_untagged:
  assumes "well_formed_reference r" and "CHR '':'' \<notin> set (ref_registry r)"
  shows "parse_repository_reference (ref_registry r @ ''/'' @ ref_repository r) = Ok (r\<lparr>ref_tag := DefaultTag, ref_digest := []\<rparr>)"
proof -
  from assms have "repository_and_tag (ref_registry r @ ''/'' @ ref_repository r) = (ref_registry r @ ''/'' @ ref_repository r, DefaultTag)"
    by (intro repository_and_tag_none) (auto simp: well_formed_reference_def)
  moreover have "registry_and_path (ref_registry r @ CHR ''/'' # ref_repository r) = (ref_registry r, ref_repository r)"
    using assms by (intro registry_and_path_append) (auto simp: well_formed_reference_def is_registry_def)
  ultimately show ?thesis using assms
    by (auto simp: parse_repository_reference_def library_shorthand_def well_formed_reference_def)
qed

lemma well_formed_registry: "well_formed_reference r \<Longrightarrow> ref_registry r \<noteq> []"
  by (auto simp: well_formed_reference_def is_registry_def)

text \<open>
  C31. Printing a reference and parsing the text gives the reference back: with a tag, whatever the registry; with a
  digest, when the registry has no port, with the tag \<^verbatim>\<open>latest\<close> in place of the one it had.
\<close>

theorem reference_roundtrip:
  assumes "well_formed_reference r"
  shows "(ref_digest r = [] \<and> ref_tag r \<noteq> [] \<longrightarrow> parse_image_reference (reference_string r) = Ok r) \<and>
    (ref_digest r \<noteq> [] \<and> CHR '':'' \<notin> set (ref_registry r) \<longrightarrow>
      parse_image_reference (reference_string r) = Ok (r\<lparr>ref_tag := DefaultTag\<rparr>))"
proof (intro conjI impI)
  have g: "ref_registry r \<noteq> []" using assms by (rule well_formed_registry)
  have no_at: "CHR ''@'' \<notin> set (ref_registry r @ ''/'' @ ref_repository r)" "CHR ''@'' \<notin> set (ref_tag r)"
    using assms by (auto simp: well_formed_reference_def is_registry_def)
  show "parse_image_reference (reference_string r) = Ok r" if "ref_digest r = [] \<and> ref_tag r \<noteq> []"
    using that g no_at parse_tagged [OF assms] by (simp add: reference_string_def parse_image_reference_def)
  show "parse_image_reference (reference_string r) = Ok (r\<lparr>ref_tag := DefaultTag\<rparr>)"
    if that: "ref_digest r \<noteq> [] \<and> CHR '':'' \<notin> set (ref_registry r)"
  proof -
    have "reference_string r = (ref_registry r @ ''/'' @ ref_repository r) @ CHR ''@'' # ref_digest r"
      using that g by (simp add: reference_string_def)
    with cut_first_append [OF no_at(1)] parse_untagged [OF assms conjunct2 [OF that]] show ?thesis
      by (simp add: parse_image_reference_def)
  qed
qed

theorem reference_roundtrip_witness:
  "parse_image_reference (reference_string \<lparr>ref_registry = ''localhost:5000'', ref_repository = ''a/b'', ref_tag = ''1.2'', ref_digest = []\<rparr>)
     = Ok \<lparr>ref_registry = ''localhost:5000'', ref_repository = ''a/b'', ref_tag = ''1.2'', ref_digest = []\<rparr>
   \<and> parse_image_reference (reference_string \<lparr>ref_registry = ''quay.io'', ref_repository = ''a/b'', ref_tag = ''1.2'', ref_digest = ''sha256:0''\<rparr>)
     = Ok \<lparr>ref_registry = ''quay.io'', ref_repository = ''a/b'', ref_tag = ''latest'', ref_digest = ''sha256:0''\<rparr>"
  using reference_roundtrip [of "\<lparr>ref_registry = ''localhost:5000'', ref_repository = ''a/b'', ref_tag = ''1.2'', ref_digest = []\<rparr>"]
    reference_roundtrip [of "\<lparr>ref_registry = ''quay.io'', ref_repository = ''a/b'', ref_tag = ''1.2'', ref_digest = ''sha256:0''\<rparr>"]
  by (simp add: well_formed_reference_def is_registry_def DefaultRegistry_def DefaultTag_def)

text \<open>
  A reference without a tag to an image of a registry with a port is taken apart at the port: the
  host is the registry, the repository is empty (and the facts of such a reference are dropped), and the port and the path are
  the tag.
\<close>

theorem port_taken_for_tag:
  assumes "CHR ''.'' \<in> set host" and "set host \<inter> {CHR ''/'', CHR '':'', CHR ''@''} = {}" and "host \<noteq> DefaultRegistry"
    and "set (port @ path) \<inter> {CHR '':'', CHR ''@''} = {}"
  shows "parse_image_reference (host @ '':'' @ port @ ''/'' @ path)
     = Ok \<lparr>ref_registry = host, ref_repository = [], ref_tag = port @ ''/'' @ path, ref_digest = []\<rparr> \<and>
    parse_image_reference (host @ '':'' @ port @ ''/'' @ path @ ''@'' @ digest)
     = Ok \<lparr>ref_registry = host, ref_repository = [], ref_tag = port @ ''/'' @ path, ref_digest = digest\<rparr>"
proof -
  have "repository_and_tag (host @ CHR '':'' # (port @ ''/'' @ path)) = (host, port @ ''/'' @ path)"
    using assms(4) by (intro repository_and_tag_colon) auto
  moreover have "registry_and_path host = (host, [])"
    using assms(1,2) by (simp add: registry_and_path_def split_on_no_sep)
  ultimately have parsed: "parse_repository_reference (host @ '':'' @ port @ ''/'' @ path)
     = Ok \<lparr>ref_registry = host, ref_repository = [], ref_tag = port @ ''/'' @ path, ref_digest = []\<rparr>"
    using assms(3) by (simp add: parse_repository_reference_def library_shorthand_def)
  have no_at: "CHR ''@'' \<notin> set (host @ '':'' @ port @ ''/'' @ path)" using assms(2,4) by auto
  with parsed cut_first_append [OF no_at, of digest] show ?thesis by (simp add: parse_image_reference_def)
qed

theorem port_taken_for_tag_witness:
  "parse_image_reference ''registry.local:5000/app'' =
     Ok \<lparr>ref_registry = ''registry.local'', ref_repository = [], ref_tag = ''5000/app'', ref_digest = []\<rparr>"
  using port_taken_for_tag [of "''registry.local''" "''5000''" "''app''"] by (simp add: DefaultRegistry_def)

text \<open>Normalizing is idempotent, and what is parsed from a text with a tag or a digest is normal.\<close>

lemma normalize_idempotent: "normalize_image_reference (normalize_image_reference ir) = normalize_image_reference ir"
  by (simp add: normalize_image_reference_def Let_def DefaultTag_def DefaultRegistry_def)

lemma parsed_registry: "registry_and_path p = (g, q) \<Longrightarrow> g \<noteq> []"
  by (auto simp: registry_and_path_def DefaultRegistry_def split: list.splits if_splits)

lemma parse_never_fails: "\<exists>r. parse_image_reference s = Ok r"
  by (auto simp: parse_image_reference_def parse_repository_reference_def split: prod.split)

lemma parsed_is_normal:
  assumes "parse_image_reference s = Ok r" and "ref_tag r \<noteq> [] \<or> ref_digest r \<noteq> []"
  shows "normalize_image_reference r = r"
proof -
  have "\<exists>t d p g q. registry_and_path p = (g, q) \<and>
      r = \<lparr>ref_registry = g, ref_repository = library_shorthand g q, ref_tag = t, ref_digest = d\<rparr>"
    using assms(1) by (fastforce simp: parse_image_reference_def parse_repository_reference_def split: prod.splits if_splits)
  then obtain t d p g q where "registry_and_path p = (g, q)"
    "r = \<lparr>ref_registry = g, ref_repository = library_shorthand g q, ref_tag = t, ref_digest = d\<rparr>" by blast
  with assms(2) parsed_registry [of p g q] show ?thesis
    by (auto simp: normalize_image_reference_def library_shorthand_def Let_def)
qed

section \<open>References of a namespace\<close>

record pod_spec_images =
  init_containers :: "string list"
  spec_containers :: "string list"
  ephemeral_containers :: "string list"

text \<open>A text that does not parse would be passed over; parsing never fails.\<close>

fun parse_containers :: "string list \<Rightarrow> image_reference list" where
  "parse_containers [] = []"
| "parse_containers (c # cs) =
     (case parse_image_reference c of Ok r \<Rightarrow> r # parse_containers cs | _ \<Rightarrow> parse_containers cs)"

definition extract_images_from_pod_spec :: "pod_spec_images \<Rightarrow> image_reference list" where
  "extract_images_from_pod_spec s =
     parse_containers (init_containers s) @ parse_containers (spec_containers s) @ parse_containers (ephemeral_containers s)"

text \<open>The four kinds of workloads in the order of their calls; a listing is what the API returned for one.\<close>

datatype workload_kind = Pods | Deployments | DaemonSets | StatefulSets

definition workload_kinds :: "workload_kind list" where
  "workload_kinds = [Pods, Deployments, DaemonSets, StatefulSets]"

fun list_problem :: "workload_kind \<Rightarrow> string" where
  "list_problem Pods = ''failed to list pods''"
| "list_problem Deployments = ''failed to list deployments''"
| "list_problem DaemonSets = ''failed to list daemonsets''"
| "list_problem StatefulSets = ''failed to list statefulsets''"

definition extract_images_of :: "workload_kind \<Rightarrow> pod_spec_images list res \<Rightarrow> image_reference list res" where
  "extract_images_of k listing =
     map_res (\<lambda>specs. concat (map extract_images_from_pod_spec specs)) (wrap_res (list_problem k) listing)"

definition keep_ok :: "'a list res \<Rightarrow> 'a list" where
  "keep_ok r = (case r of Ok xs \<Rightarrow> xs | _ \<Rightarrow> [])"

definition deduplicate_image_references :: "image_reference list \<Rightarrow> image_reference list" where
  "deduplicate_image_references refs = dedup_from (\<lambda>r. Ok (reference_string r)) [] refs"

definition namespace_references :: "(workload_kind \<Rightarrow> pod_spec_images list res) \<Rightarrow> image_reference list" where
  "namespace_references listing = concat (map (\<lambda>k. keep_ok (extract_images_of k (listing k))) workload_kinds)"

definition extract_images_from_namespace :: "(workload_kind \<Rightarrow> pod_spec_images list res) \<Rightarrow> image_reference list res" where
  "extract_images_from_namespace listing = Ok (deduplicate_image_references (namespace_references listing))"

definition pod_spec_texts :: "pod_spec_images \<Rightarrow> string set" where
  "pod_spec_texts s = set (init_containers s) \<union> set (spec_containers s) \<union> set (ephemeral_containers s)"

lemma set_parse_containers: "set (parse_containers cs) = {r. \<exists>c\<in>set cs. parse_image_reference c = Ok r}"
proof (induction cs)
  case (Cons c cs)
  then show ?case using parse_never_fails [of c] by auto
qed simp

lemma set_extract_pod_spec:
  "set (extract_images_from_pod_spec s) = {r. \<exists>c\<in>pod_spec_texts s. parse_image_reference c = Ok r}"
  by (auto simp: extract_images_from_pod_spec_def set_parse_containers pod_spec_texts_def)

lemma deduplicate_references:
  "distinct (map reference_string (deduplicate_image_references refs)) \<and>
   reference_string ` set (deduplicate_image_references refs) = reference_string ` set refs \<and>
   set (deduplicate_image_references refs) \<subseteq> set refs"
  using dedup_from_distinct [of refs "\<lambda>r. Ok (reference_string r)" reference_string "[]"]
    dedup_from_subset [of "\<lambda>r. Ok (reference_string r)" "[]" refs]
  by (simp add: deduplicate_image_references_def)

text \<open>
  The references of a namespace print differently, and are those of all containers of the workloads that could be
  listed: a listing that fails costs only its own images.
\<close>

theorem namespace_images:
  "\<exists>refs. extract_images_from_namespace listing = Ok refs \<and> distinct (map reference_string refs) \<and>
     reference_string ` set refs =
       {reference_string r | k specs s c r.
          listing k = Ok specs \<and> s \<in> set specs \<and> c \<in> pod_spec_texts s \<and> parse_image_reference c = Ok r}"
proof -
  have kept: "set (keep_ok (extract_images_of k (listing k))) =
      {r. \<exists>specs s c. listing k = Ok specs \<and> s \<in> set specs \<and> c \<in> pod_spec_texts s \<and> parse_image_reference c = Ok r}" for k
    by (cases "listing k") (auto simp: keep_ok_def extract_images_of_def set_extract_pod_spec)
  have "k \<in> set workload_kinds" for k by (cases k) (simp_all add: workload_kinds_def)
  then have "set (namespace_references listing) =
      {r. \<exists>k specs s c. listing k = Ok specs \<and> s \<in> set specs \<and> c \<in> pod_spec_texts s \<and> parse_image_reference c = Ok r}"
    by (auto simp: namespace_references_def kept)
  then have "reference_string ` set (deduplicate_image_references (namespace_references listing)) =
      {reference_string r | k specs s c r.
          listing k = Ok specs \<and> s \<in> set specs \<and> c \<in> pod_spec_texts s \<and> parse_image_reference c = Ok r}"
    by (simp only: conjunct1 [OF conjunct2 [OF deduplicate_references]]) blast
  with conjunct1 [OF deduplicate_references [of "namespace_references listing"]] show ?thesis
    by (intro exI [of _ "deduplicate_image_references (namespace_references listing)"] conjI)
      (simp_all only: extract_images_from_namespace_def)
qed

section \<open>Digests\<close>

definition valid_algorithms :: "(string \<times> nat) list" where
  "valid_algorithms = [(''sha256'', 64), (''sha512'', 128), (''sha1'', 40)]"

definition is_hex :: "char \<Rightarrow> bool" where
  "is_hex c = (let n = (of_char c :: nat) in 48 \<le> n \<and> n \<le> 57 \<or> 97 \<le> n \<and> n \<le> 102 \<or> 65 \<le> n \<and> n \<le> 70)"

definition validate_digest :: "string \<Rightarrow> unit res" where
  "validate_digest digest =
     (if digest = [] then Fail (Err ''digest cannot be empty'')
      else if CHR '':'' \<notin> set digest then Fail (Errf ''invalid digest format: %s'' [digest])
      else (let (algorithm, hex) = cut_first (CHR '':'') digest in
        case map_of valid_algorithms algorithm of
          None \<Rightarrow> Fail (Errf ''unsupported digest algorithm: %s'' [algorithm])
        | Some expected \<Rightarrow>
            if length hex \<noteq> expected
            then Fail (Errf ''invalid digest hex length for %s: expected %d, got %d''
                   [algorithm, show_nat expected, show_nat (length hex)])
            else (case List.find (\<lambda>c. \<not> is_hex c) hex of
                    Some c \<Rightarrow> Fail (Errf ''invalid hex character in digest: %c'' [[c]])
                  | None \<Rightarrow> Ok ())))"

definition compute_digest :: "(string \<Rightarrow> string) \<Rightarrow> string \<Rightarrow> string res" where
  "compute_digest sha256_hex data = Ok (''sha256:'' @ sha256_hex data)"

lemma find_None: "List.find P xs = None \<longleftrightarrow> (\<forall>x\<in>set xs. \<not> P x)"
  by (auto simp: find_None_iff)

text \<open>
  A digest is valid exactly when it is a known algorithm, a colon and as many hexadecimal digits as the algorithm
  has; so the digests the collector computes itself are valid.
\<close>

theorem valid_digests:
  "(validate_digest d = Ok () \<longleftrightarrow>
      (\<exists>a n h. (a, n) \<in> set valid_algorithms \<and> d = a @ '':'' @ h \<and> length h = n \<and> set h \<subseteq> Collect is_hex)) \<and>
   (length (sha data) = 64 \<and> set (sha data) \<subseteq> Collect is_hex \<longrightarrow>
      (\<exists>digest. compute_digest sha data = Ok digest \<and> validate_digest digest = Ok ()))"
proof -
  have iff: "validate_digest d = Ok () \<longleftrightarrow>
      (\<exists>a n h. (a, n) \<in> set valid_algorithms \<and> d = a @ '':'' @ h \<and> length h = n \<and> set h \<subseteq> Collect is_hex)" for d
  proof
    assume ok: "validate_digest d = Ok ()"
    obtain a h where ah: "cut_first (CHR '':'') d = (a, h)" by fastforce
    from ok have "CHR '':'' \<in> set d" by (auto simp: validate_digest_def split: if_splits)
    then obtain x y where d: "d = x @ CHR '':'' # y" "CHR '':'' \<notin> set x" by (metis split_list_first)
    with ah have xy: "x = a" "y = h" by (simp_all add: cut_first_append)
    from ok ah obtain n where n: "map_of valid_algorithms a = Some n" "length h = n" "List.find (\<lambda>c. \<not> is_hex c) h = None"
      by (auto simp: validate_digest_def split: if_splits option.splits)
    with d xy show "\<exists>a n h. (a, n) \<in> set valid_algorithms \<and> d = a @ '':'' @ h \<and> length h = n \<and> set h \<subseteq> Collect is_hex"
      using map_of_SomeD [OF n(1)] by (intro exI [of _ a] exI [of _ n] exI [of _ h]) (auto simp: find_None)
  next
    assume "\<exists>a n h. (a, n) \<in> set valid_algorithms \<and> d = a @ '':'' @ h \<and> length h = n \<and> set h \<subseteq> Collect is_hex"
    then obtain a n h where a: "(a, n) \<in> set valid_algorithms" "d = a @ CHR '':'' # h" "length h = n" "\<forall>c\<in>set h. is_hex c"
      by auto
    from a(1) have "CHR '':'' \<notin> set a \<and> map_of valid_algorithms a = Some n" by (auto simp: valid_algorithms_def)
    with a cut_first_append [of "CHR '':''" a h] find_None [of "\<lambda>c. \<not> is_hex c" h]
    show "validate_digest d = Ok ()" by (simp add: validate_digest_def)
  qed
  have "(''sha256'', 64) \<in> set valid_algorithms" by (simp add: valid_algorithms_def)
  then have "validate_digest (''sha256:'' @ h) = Ok ()" if "length h = 64" "set h \<subseteq> Collect is_hex" for h
    using that by (intro iffD2 [OF iff] exI [of _ "''sha256''"] exI [of _ 64] exI [of _ h]) simp
  with iff show ?thesis by (simp add: compute_digest_def)
qed

theorem valid_digests_witness:
  "\<exists>digest. compute_digest (\<lambda>_. replicate 64 (CHR ''a'')) ''data'' = Ok digest \<and> validate_digest digest = Ok ()"
  using valid_digests [of "[]" "\<lambda>_. replicate 64 (CHR ''a'')" "''data''"] by (auto simp: is_hex_def)

section \<open>Registries\<close>

definition is_valid_image_name :: "string \<Rightarrow> bool" where
  "is_valid_image_name n =
     (if n = [] then False
      else if list_ex (\<lambda>c. contains_sub c n) ['' '', [CHR 0x09], [CHR 0x0A], [CHR 0x0D]] then False
      else if has_prefix ''/'' n \<or> has_suffix ''/'' n then False
      else \<not> contains_sub ''//'' n)"

definition normalize_registry_url :: "string \<Rightarrow> string" where
  "normalize_registry_url url =
     (let trimmed = rev (dropWhile (\<lambda>c. c = CHR ''/'') (rev url));
          full = (if \<not> has_prefix ''http://'' trimmed \<and> \<not> has_prefix ''https://'' trimmed then ''https://'' @ trimmed else trimmed)
      in if full = ''https://docker.io'' then ''https://registry-1.docker.io'' else full)"

definition extract_repository_host :: "string \<Rightarrow> string" where
  "extract_repository_host repository =
     (case split_on (CHR ''/'') repository of p # _ \<Rightarrow> p | [] \<Rightarrow> repository)"

definition is_official_image :: "string \<Rightarrow> string \<Rightarrow> bool" where
  "is_official_image registry repository \<longleftrightarrow>
     (registry = DefaultRegistry \<or> registry = ''docker.io'') \<and> has_prefix ''library/'' repository"

definition with_tag :: "string \<Rightarrow> string \<Rightarrow> string" where
  "with_tag name tag = (if tag \<noteq> [] \<and> tag \<noteq> DefaultTag then name @ '':'' @ tag else name)"

definition get_image_short_name :: "string \<Rightarrow> string \<Rightarrow> string \<Rightarrow> string" where
  "get_image_short_name registry repository tag =
     (if is_official_image registry repository then with_tag (trim_prefix ''library/'' repository) tag
      else with_tag (if registry \<noteq> DefaultRegistry then registry @ ''/'' @ repository else repository) tag)"

definition get_registry_type :: "string \<Rightarrow> string" where
  "get_registry_type url =
     (if contains_sub ''docker.io'' url \<or> contains_sub ''registry-1.docker.io'' url then ''dockerhub''
      else if contains_sub ''gcr.io'' url then ''gcr''
      else if contains_sub ''amazonaws.com'' url then ''ecr''
      else if contains_sub ''quay.io'' url then ''quay''
      else if contains_sub ''registry.redhat.io'' url then ''redhat''
      else if contains_sub ''harbor'' url then ''harbor''
      else ''generic'')"

record registry_credentials =
  cr_username :: string
  cr_password :: string
  cr_token :: string
  cr_identity_token :: string
  cr_registry_token :: string
  cr_insecure :: bool
  cr_ca_cert :: string

definition no_credentials :: registry_credentials where
  "no_credentials = \<lparr>cr_username = [], cr_password = [], cr_token = [], cr_identity_token = [], cr_registry_token = [],
     cr_insecure = False, cr_ca_cert = []\<rparr>"

definition validate_credentials :: "registry_credentials \<Rightarrow> unit res" where
  "validate_credentials c =
     (if cr_username c \<noteq> [] \<and> cr_password c = [] then Fail (Err ''password is required when username is provided'')
      else if cr_password c \<noteq> [] \<and> cr_username c = [] then Fail (Err ''username is required when password is provided'')
      else Ok ())"

text \<open>Two lookups of the credentials for a registry, of the collector and of the digest resolver; the map may be nil.\<close>

definition entry_matching :: "(string \<Rightarrow> bool) \<Rightarrow> (string \<times> registry_credentials) list \<Rightarrow> registry_credentials" where
  "entry_matching p creds = (case List.find (\<lambda>(k, _). p k) creds of Some (_, c) \<Rightarrow> c | None \<Rightarrow> no_credentials)"

definition get_credentials_for_registry ::
  "(string \<Rightarrow> string res) \<Rightarrow> (string \<times> registry_credentials) list option \<Rightarrow> string \<Rightarrow> registry_credentials" where
  "get_credentials_for_registry url_host credentials registry =
     (case credentials of
        None \<Rightarrow> no_credentials
      | Some creds \<Rightarrow>
          (case map_of creds registry of
             Some c \<Rightarrow> c
           | None \<Rightarrow>
               (let host = (case url_host registry of Ok h \<Rightarrow> h | _ \<Rightarrow> registry) in
                case map_of creds host of
                  Some c \<Rightarrow> c
                | None \<Rightarrow> entry_matching (\<lambda>k. has_suffix k registry \<or> has_suffix k host) creds)))"

definition resolver_credentials :: "(string \<times> registry_credentials) list option \<Rightarrow> string \<Rightarrow> registry_credentials" where
  "resolver_credentials credentials registry =
     (case credentials of
        None \<Rightarrow> no_credentials
      | Some creds \<Rightarrow>
          (case map_of creds registry of
             Some c \<Rightarrow> c
           | None \<Rightarrow> entry_matching (\<lambda>k. contains_sub k registry) creds))"

lemma entry_matching_cases:
  "entry_matching p creds = no_credentials \<or> (\<exists>k. (k, entry_matching p creds) \<in> set creds \<and> p k)"
proof (cases "List.find (\<lambda>(k, _). p k) creds")
  case (Some e)
  then have "e \<in> set creds \<and> p (fst e)" by (auto simp: find_Some_iff in_set_conv_nth)
  with Some show ?thesis by (cases e) (auto simp: entry_matching_def)
qed (simp add: entry_matching_def)

text \<open>
  C32. The collector sends a registry only credentials whose key ends the name of the registry or of its
  host; the digest resolver sends those of a key that occurs anywhere in the name, and so gives away the secret of a
  registry to every registry whose name starts with it.
\<close>

theorem credentials_of_a_registry:
  "(get_credentials_for_registry url_host (Some creds) registry = no_credentials \<or>
      (\<exists>k. (k, get_credentials_for_registry url_host (Some creds) registry) \<in> set creds \<and>
        (has_suffix k registry \<or> (\<exists>h. url_host registry = Ok h \<and> has_suffix k h)))) \<and>
   (resolver_credentials (Some creds) registry = no_credentials \<or>
      (\<exists>k. (k, resolver_credentials (Some creds) registry) \<in> set creds \<and> contains_sub k registry)) \<and>
   resolver_credentials (Some [(key, c)]) (key @ ending) = c"
proof (intro conjI)
  let ?host = "case url_host registry of Ok h \<Rightarrow> h | _ \<Rightarrow> registry"
  have host: "has_suffix k ?host \<Longrightarrow> has_suffix k registry \<or> (\<exists>h. url_host registry = Ok h \<and> has_suffix k h)" for k
    by (cases "url_host registry") auto
  have self: "has_suffix k k" "contains_sub k k" for k :: string
    using has_suffix_iff [of k k] contains_sub_iff [of k k] by (auto intro: exI [of _ "[]"])
  have hit: "map_of creds k = Some d \<Longrightarrow> (k, d) \<in> set creds" for k d by (rule map_of_SomeD)
  show "get_credentials_for_registry url_host (Some creds) registry = no_credentials \<or>
      (\<exists>k. (k, get_credentials_for_registry url_host (Some creds) registry) \<in> set creds \<and>
        (has_suffix k registry \<or> (\<exists>h. url_host registry = Ok h \<and> has_suffix k h)))"
    using entry_matching_cases [of "\<lambda>k. has_suffix k registry \<or> has_suffix k ?host" creds] host self(1) hit
    by (cases "map_of creds registry"; cases "map_of creds ?host")
      (simp add: get_credentials_for_registry_def Let_def; blast)+
  show "resolver_credentials (Some creds) registry = no_credentials \<or>
      (\<exists>k. (k, resolver_credentials (Some creds) registry) \<in> set creds \<and> contains_sub k registry)"
    using entry_matching_cases [of "\<lambda>k. contains_sub k registry" creds] self(2) hit
    by (cases "map_of creds registry") (simp add: resolver_credentials_def; blast)+
  have "contains_sub key (key @ ending)" by (auto simp: contains_sub_iff intro: exI [of _ "[]"])
  then show "resolver_credentials (Some [(key, c)]) (key @ ending) = c"
    by (simp add: resolver_credentials_def entry_matching_def)
qed

section \<open>Clients\<close>

text \<open>The address and the TLS flag of the client for a registry.\<close>

definition client_settings :: "bool \<Rightarrow> string \<Rightarrow> string \<times> bool" where
  "client_settings skip_tls registry =
     (if contains_sub ''amazonaws.com'' registry then (registry, False)
      else if contains_sub ''gcr.io'' registry then (registry, False)
      else if contains_sub ''docker.io'' registry then (''https://registry-1.docker.io'', skip_tls)
      else (registry, skip_tls))"

definition client_registry :: "string \<Rightarrow> string" where
  "client_registry registry =
     (let r = (if registry = [] then DefaultRegistry else registry)
      in if \<not> has_prefix ''http://'' r \<and> \<not> has_prefix ''https://'' r then ''https://'' @ r else r)"

definition get_reference :: "image_reference \<Rightarrow> string" where
  "get_reference ir =
     (if ref_digest ir \<noteq> [] then ref_digest ir else if ref_tag ir \<noteq> [] then ref_tag ir else DefaultTag)"

definition manifest_url :: "string \<Rightarrow> image_reference \<Rightarrow> string" where
  "manifest_url registry ir = registry @ ''/v2/'' @ ref_repository ir @ ''/manifests/'' @ get_reference ir"

definition blob_url :: "string \<Rightarrow> image_reference \<Rightarrow> string \<Rightarrow> string" where
  "blob_url registry ir digest = registry @ ''/v2/'' @ ref_repository ir @ ''/blobs/'' @ digest"

definition ping_url :: "string \<Rightarrow> string" where
  "ping_url registry = registry @ ''/v2/''"

definition is_docker_hub :: "string \<Rightarrow> bool" where
  "is_docker_hub registry \<longleftrightarrow> contains_sub ''docker.io'' registry \<or> contains_sub ''registry-1.docker.io'' registry"

text \<open>The header of a request; \<open>hub_token\<close> is what the token service of Docker Hub answers.\<close>

definition auth_header :: "(string \<Rightarrow> string) \<Rightarrow> (string \<Rightarrow> string res) \<Rightarrow> registry_credentials \<Rightarrow> string \<Rightarrow> string \<Rightarrow> string option" where
  "auth_header base64 hub_token c registry repository =
     (if cr_token c \<noteq> [] then Some (''Bearer '' @ cr_token c)
      else if cr_username c \<noteq> [] \<and> cr_password c \<noteq> []
      then Some (''Basic '' @ base64 (cr_username c @ '':'' @ cr_password c))
      else if is_docker_hub registry \<and> cr_username c = []
      then (case hub_token repository of Ok t \<Rightarrow> Some (''Bearer '' @ t) | _ \<Rightarrow> None)
      else None)"

text \<open>TLS is never switched off for the two cloud registries, and the client always speaks to an address with a scheme.\<close>

lemma cloud_registries_verify:
  "contains_sub ''amazonaws.com'' g \<or> contains_sub ''gcr.io'' g \<Longrightarrow> client_settings skip g = (g, False)"
  by (auto simp: client_settings_def)

lemma client_registry_scheme: "has_prefix ''http://'' (client_registry g) \<or> has_prefix ''https://'' (client_registry g)"
proof -
  have "has_prefix ''https://'' (''https://'' @ r)" for r by (rule has_prefix_append)
  then show ?thesis unfolding client_registry_def Let_def by presburger
qed

section \<open>Sizes\<close>

function size_loop :: "int \<Rightarrow> int \<Rightarrow> nat \<Rightarrow> int \<times> nat" where
  "size_loop n d e = (if n \<ge> 1024 then size_loop (n div 1024) (d * 1024) (Suc e) else (d, e))"
  by pat_completeness auto
termination by (relation "measure (\<lambda>(n, d, e). nat n)") auto

declare size_loop.simps [simp del]

definition size_units :: string where "size_units = ''KMGTPE''"

definition format_size :: "(int \<Rightarrow> int \<Rightarrow> string) \<Rightarrow> int \<Rightarrow> string res" where
  "format_size show_ratio bytes =
     (if bytes < 1024 then Ok (show_int bytes @ '' B'')
      else (let (d, e) = size_loop (bytes div 1024) 1024 0 in
        if e < length size_units then Ok (show_ratio bytes d @ '' '' @ [size_units ! e] @ ''iB'')
        else Panic ''index out of range''))"

lemma scaled_bounds:
  fixes a n :: int
  shows "a \<le> n div 1024 \<Longrightarrow> 1024 * a \<le> n" and "n div 1024 < a \<Longrightarrow> n < 1024 * a" and "1024 \<le> n \<Longrightarrow> 1 \<le> n div 1024"
proof -
  have "n = 1024 * (n div 1024) + n mod 1024" "0 \<le> n mod 1024" "n mod 1024 < 1024" by simp_all
  then show "a \<le> n div 1024 \<Longrightarrow> 1024 * a \<le> n" "n div 1024 < a \<Longrightarrow> n < 1024 * a" "1024 \<le> n \<Longrightarrow> 1 \<le> n div 1024"
    by linarith+
qed

lemma size_loop_spec:
  "n \<ge> 1 \<Longrightarrow> \<exists>k. size_loop n d e = (d * 1024 ^ k, e + k) \<and> 1024 ^ k \<le> n \<and> n < 1024 ^ Suc k"
proof (induction n d e rule: size_loop.induct)
  case (1 n d e)
  show ?case
  proof (cases "n \<ge> 1024")
    case True
    from 1(1) [OF True scaled_bounds(3) [OF True]] obtain k where k: "size_loop (n div 1024) (d * 1024) (Suc e) = (d * 1024 * 1024 ^ k, Suc e + k)"
      "1024 ^ k \<le> n div 1024" "n div 1024 < 1024 ^ Suc k" by blast
    from scaled_bounds(1) [OF k(2)] have "1024 ^ Suc k \<le> n" by (simp only: power_Suc)
    moreover from scaled_bounds(2) [OF k(3)] have "n < 1024 ^ Suc (Suc k)" by (simp only: power_Suc)
    ultimately show ?thesis using k(1) True by (intro exI [of _ "Suc k"]) (simp add: size_loop.simps [of n])
  next
    case False
    with 1 show ?thesis by (intro exI [of _ 0]) (simp add: size_loop.simps [of n])
  qed
qed

text \<open>
  The text of a size never runs out of units for a 64-bit number of bytes, its divisor does not overflow, and the
  quotient that is printed lies between 1 and 1024.
\<close>

theorem size_units_suffice:
  assumes "in_int64 bytes"
  shows "bytes < 1024 \<and> format_size show_ratio bytes = Ok (show_int bytes @ '' B'') \<or>
    (\<exists>e d. e < length size_units \<and> d = 1024 ^ Suc e \<and> in_int64 d \<and> d \<le> bytes \<and> bytes < 1024 * d \<and>
       format_size show_ratio bytes = Ok (show_ratio bytes d @ '' '' @ [size_units ! e] @ ''iB''))"
proof (cases "bytes < 1024")
  case False
  then have "1 \<le> bytes div 1024" by (intro scaled_bounds(3)) simp
  then obtain k where k: "size_loop (bytes div 1024) 1024 0 = (1024 * 1024 ^ k, k)" "1024 ^ k \<le> bytes div 1024"
    "bytes div 1024 < 1024 ^ Suc k" using size_loop_spec [of "bytes div 1024" 1024 0] by auto
  from scaled_bounds(1) [OF k(2)] have low: "1024 ^ Suc k \<le> bytes" by (simp only: power_Suc)
  note high = scaled_bounds(2) [OF k(3)]
  have "(1024::int) ^ Suc k < 1024 ^ 7" using low assms by (simp add: in_int64_def)
  then have "k < 6" using power_less_imp_less_exp [of "1024::int" "Suc k" 7] by linarith
  then have units: "k < length size_units" by (simp add: size_units_def)
  have "0 < (1024::int) ^ Suc k" by (rule zero_less_power) simp
  with low assms have "in_int64 (1024 ^ Suc k)" unfolding in_int64_def by linarith
  moreover have "format_size show_ratio bytes = Ok (show_ratio bytes (1024 ^ Suc k) @ '' '' @ [size_units ! k] @ ''iB'')"
    using False units by (simp only: format_size_def k(1)) simp
  ultimately show ?thesis using units low high by (intro disjI2 exI [of _ k] exI [of _ "1024 ^ Suc k"] conjI) simp_all
qed (simp add: format_size_def)

theorem size_units_suffice_witness:
  "\<exists>e d. e < length size_units \<and> d = 1024 ^ Suc e \<and> in_int64 d \<and> d \<le> 9223372036854775807 \<and> 9223372036854775807 < 1024 * d \<and>
     format_size (\<lambda>a b. show_int (a div b)) 9223372036854775807 = Ok (show_int (9223372036854775807 div d) @ '' '' @ [size_units ! e] @ ''iB'')"
  using size_units_suffice [of 9223372036854775807 "\<lambda>a b. show_int (a div b)"] by (simp add: in_int64_def)

text \<open>Parsing a size: the units are a map, which a range visits in any order.\<close>

definition size_multipliers :: "(string \<times> int) list" where
  "size_multipliers =
     [(''B'', 1), (''KB'', 1024), (''MB'', 1024 * 1024), (''GB'', 1024 * 1024 * 1024), (''TB'', 1024 * 1024 * 1024 * 1024),
      (''KIB'', 1024), (''MIB'', 1024 * 1024), (''GIB'', 1024 * 1024 * 1024), (''TIB'', 1024 * 1024 * 1024 * 1024)]"

definition parse_human_size :: "(string \<times> int) list \<Rightarrow> string \<Rightarrow> int res" where
  "parse_human_size multipliers size_str =
     (let s = trim_space (to_upper size_str) in
      case List.find (\<lambda>(suffix, _). has_suffix suffix s) multipliers of
        Some (_, multiplier) \<Rightarrow> Ok multiplier
      | None \<Rightarrow> Fail (Errf ''unable to parse size: %s'' [s]))"

text \<open>
  A size with a unit is parsed as the unit alone, its number is not read; and as every unit ends with the letter B,
  a range over the map may give one byte instead.
\<close>

theorem size_number_ignored:
  "parse_human_size size_multipliers (number @ ''MB'') = Ok 1 \<and> parse_human_size (rev size_multipliers) (number @ ''MB'') = Ok 1048576"
proof -
  have upper: "to_upper ''MB'' = ''MB''" by code_simp
  have "dropWhile is_space (to_upper number @ ''MB'') = dropWhile is_space (to_upper number) @ ''MB''"
    by (cases "\<exists>c\<in>set (to_upper number). \<not> is_space c") (auto simp: dropWhile_append1 dropWhile_append2 is_space_def)
  moreover have "rev (dropWhile is_space (rev (x @ ''MB''))) = x @ ''MB''" for x
    by (simp add: is_space_def)
  ultimately have "trim_space (to_upper number @ ''MB'') = dropWhile is_space (to_upper number) @ ''MB''"
    by (simp only: trim_space_def)
  then have "trim_space (to_upper (number @ ''MB'')) = dropWhile is_space (to_upper number) @ ''MB''"
    using upper by (simp add: to_upper_def)
  then show ?thesis by (simp add: parse_human_size_def size_multipliers_def has_suffix_def)
qed

end
