(* ===== verification/Exchange_Sort.thy ===== *)
theory Exchange_Sort
  imports Prelude
begin

text \<open>
  The two nested index loops with which several packages sort, over a key that is to ascend: one run of the inner loop with the
  element at its position, which is exchanged with every later one of a smaller key, and the outer loop.
\<close>

fun exchange_pass :: "('a \<Rightarrow> int) \<Rightarrow> 'a \<Rightarrow> 'a list \<Rightarrow> 'a \<times> 'a list" where
  "exchange_pass key x [] = (x, [])"
| "exchange_pass key x (y # ys) =
     (if key x > key y then (let (m, zs) = exchange_pass key y ys in (m, x # zs))
      else (let (m, zs) = exchange_pass key x ys in (m, y # zs)))"

lemma exchange_pass_length [termination_simp]:
  "(m, zs) = exchange_pass key x ys \<Longrightarrow> length zs = length ys"
  by (induction key x ys arbitrary: m zs rule: exchange_pass.induct) (auto split: if_splits prod.splits)

fun exchange_sort :: "('a \<Rightarrow> int) \<Rightarrow> 'a list \<Rightarrow> 'a list" where
  "exchange_sort key [] = []"
| "exchange_sort key (x # xs) = (let (m, zs) = exchange_pass key x xs in m # exchange_sort key zs)"

lemma exchange_pass_spec:
  "exchange_pass key x ys = (m, zs) \<Longrightarrow> add_mset m (mset zs) = add_mset x (mset ys) \<and> (\<forall>z\<in>set zs. key m \<le> key z)"
proof (induction key x ys arbitrary: m zs rule: exchange_pass.induct)
  case (2 key x y ys)
  have least: "key n \<le> key w" if "add_mset n (mset vs) = add_mset w (mset ys)" "\<forall>v\<in>set vs. key n \<le> key v"
    for n w :: 'a and vs ys
  proof -
    have "w \<in># add_mset n (mset vs)" using that(1) by simp
    with that(2) show ?thesis by auto
  qed
  show ?case
  proof (cases "key x > key y")
    case True
    then obtain vs where vs: "exchange_pass key y ys = (m, vs)" "zs = x # vs" using 2(3) by (auto split: prod.splits)
    with 2(1) [OF True] have "add_mset m (mset vs) = add_mset y (mset ys)" "\<forall>v\<in>set vs. key m \<le> key v" by blast+
    with vs True least [of m vs y ys] show ?thesis by (auto simp: add_mset_commute)
  next
    case False
    then obtain vs where vs: "exchange_pass key x ys = (m, vs)" "zs = y # vs" using 2(3) by (auto split: prod.splits)
    with 2(2) [OF False] have "add_mset m (mset vs) = add_mset x (mset ys)" "\<forall>v\<in>set vs. key m \<le> key v" by blast+
    with vs False least [of m vs x ys] show ?thesis by (auto simp: add_mset_commute)
  qed
qed simp

lemma mset_exchange_sort [simp]: "mset (exchange_sort key xs) = mset xs"
proof (induction key xs rule: exchange_sort.induct)
  case (2 key x xs)
  then show ?case using exchange_pass_spec [of key x xs] by (auto split: prod.split)
qed simp

lemma set_exchange_sort [simp]: "set (exchange_sort key xs) = set xs"
  by (metis mset_exchange_sort set_mset_mset)

lemma exchange_sort_sorted: "sorted (map key (exchange_sort key xs))"
proof (induction key xs rule: exchange_sort.induct)
  case (2 key x xs)
  then show ?case using exchange_pass_spec [of key x xs] by (auto split: prod.split)
qed simp

end
