(* ===== verification/Image_Cache.thy ===== *)
theory Image_Cache
  imports Exchange_Sort "HOL-Library.AList"
begin

text \<open>
  The cache of image facts (\<^verbatim>\<open>imageCache\<close> in \<^verbatim>\<open>pkg/collect/images/utils.go\<close>): entries with the time they were made,
  the times they were last used, and the cleanup that drops expired entries and then the ones not used for longest.
  Maps are association lists; \<open>visit\<close> is the order in which a range goes over the times of use. Each operation is one step
  under the mutex and is given the time of the clock, in nanoseconds. The locale \<open>lossy_map\<close> is what users of the cache
  rely on: it may forget, and never answers with anything but the last value put.
\<close>

section \<open>The cache\<close>

record 'f image_cache =
  cache_entries :: "(string \<times> 'f \<times> int) list"
  cache_ttl :: int
  max_size :: nat
  accessed :: "(string \<times> int) list"

definition DefaultCacheDuration :: int where "DefaultCacheDuration = 3600 * 1000000000"

definition new_image_cache :: "int \<Rightarrow> 'f image_cache" where
  "new_image_cache d =
     \<lparr>cache_entries = [], cache_ttl = (if d \<le> 0 then DefaultCacheDuration else d), max_size = 1000, accessed = []\<rparr>"

definition cache_get :: "string \<Rightarrow> int \<Rightarrow> 'f image_cache \<Rightarrow> 'f option \<times> 'f image_cache" where
  "cache_get k now c =
     (case map_of (cache_entries c) k of
        None \<Rightarrow> (None, c)
      | Some (f, t) \<Rightarrow>
          if now - t > cache_ttl c then (None, c)
          else (Some f, c\<lparr>accessed := AList.update k now (accessed c)\<rparr>))"

definition drop_keys :: "string set \<Rightarrow> 'f image_cache \<Rightarrow> 'f image_cache" where
  "drop_keys ks c =
     c\<lparr>cache_entries := filter (\<lambda>(k, _). k \<notin> ks) (cache_entries c), accessed := filter (\<lambda>(k, _). k \<notin> ks) (accessed c)\<rparr>"

definition expired_keys :: "int \<Rightarrow> 'f image_cache \<Rightarrow> string set" where
  "expired_keys now c = fst ` set (filter (\<lambda>(_, _, t). now - t > cache_ttl c) (cache_entries c))"

definition oldest_keys :: "((string \<times> int) list \<Rightarrow> (string \<times> int) list) \<Rightarrow> 'f image_cache \<Rightarrow> string set" where
  "oldest_keys visit c =
     fst ` set (take (length (cache_entries c) - max_size c div 2) (exchange_sort snd (visit (accessed c))))"

definition cleanup_locked ::
  "((string \<times> int) list \<Rightarrow> (string \<times> int) list) \<Rightarrow> int \<Rightarrow> 'f image_cache \<Rightarrow> 'f image_cache" where
  "cleanup_locked visit now c =
     (let c1 = drop_keys (expired_keys now c) c
      in if length (cache_entries c1) \<ge> max_size c1 then drop_keys (oldest_keys visit c1) c1 else c1)"

definition cache_set ::
  "((string \<times> int) list \<Rightarrow> (string \<times> int) list) \<Rightarrow> string \<Rightarrow> 'f \<Rightarrow> int \<Rightarrow> 'f image_cache \<Rightarrow> 'f image_cache" where
  "cache_set visit k f now c =
     (let c1 = (if length (cache_entries c) \<ge> max_size c then cleanup_locked visit now c else c)
      in c1\<lparr>cache_entries := AList.update k (f, now) (cache_entries c1), accessed := AList.update k now (accessed c1)\<rparr>)"

definition cache_clear :: "'f image_cache \<Rightarrow> 'f image_cache" where
  "cache_clear c = c\<lparr>cache_entries := [], accessed := []\<rparr>"

definition cache_size :: "'f image_cache \<Rightarrow> nat" where
  "cache_size c = length (cache_entries c)"

section \<open>The invariant\<close>

definition cache_keys :: "'f image_cache \<Rightarrow> string set" where
  "cache_keys c = fst ` set (cache_entries c)"

definition cache_inv :: "'f image_cache \<Rightarrow> bool" where
  "cache_inv c \<longleftrightarrow>
     distinct (map fst (cache_entries c)) \<and> distinct (map fst (accessed c)) \<and> cache_keys c = fst ` set (accessed c) \<and>
     0 < max_size c \<and> length (cache_entries c) \<le> max_size c"

definition visits_all :: "((string \<times> int) list \<Rightarrow> (string \<times> int) list) \<Rightarrow> bool" where
  "visits_all visit \<longleftrightarrow> (\<forall>m. mset (visit m) = mset m)"

lemma visits_all_set: "visits_all visit \<Longrightarrow> set (visit m) = set m"
  by (metis set_mset_mset visits_all_def)

lemma distinct_fst_filter: "distinct (map fst xs) \<Longrightarrow> distinct (map fst (filter P xs))"
  by (rule distinct_map_filter)

lemma fst_filter_keys: "fst ` set (filter (\<lambda>(k, _). k \<notin> ks) xs) = fst ` set xs - ks"
  by force

lemma drop_keys_inv: "cache_inv c \<Longrightarrow> cache_inv (drop_keys ks c)"
  unfolding cache_inv_def cache_keys_def
  by (simp add: drop_keys_def distinct_fst_filter fst_filter_keys del: set_filter) (meson le_trans length_filter_le)

lemma card_keys: "distinct (map fst xs) \<Longrightarrow> length xs = card (fst ` set xs)"
  by (metis distinct_card length_map list.set_map)

lemma drop_keys_keys: "cache_keys (drop_keys ks c) = cache_keys c - ks"
  by (simp add: drop_keys_def cache_keys_def fst_filter_keys del: set_filter)

lemma cache_length: "cache_inv c \<Longrightarrow> length (cache_entries c) = card (cache_keys c)"
  by (simp add: cache_inv_def cache_keys_def card_keys)

text \<open>A cleanup of a full cache makes room.\<close>

lemma cleanup_makes_room:
  assumes "cache_inv c" and "visits_all visit"
  shows "length (cache_entries (cleanup_locked visit now c)) < max_size c"
proof -
  define d where "d = drop_keys (expired_keys now c) c"
  have d: "cache_inv d" "max_size d = max_size c" unfolding d_def by (simp_all add: drop_keys_inv assms(1)) (simp add: drop_keys_def)
  show ?thesis
  proof (cases "length (cache_entries d) \<ge> max_size d")
    case True
    let ?n = "length (cache_entries d) - max_size d div 2"
    let ?xs = "exchange_sort snd (visit (accessed d))"
    have len: "length ?xs = length (accessed d)"
      using assms(2) by (metis mset_exchange_sort size_mset visits_all_def)
    have keys: "fst ` set ?xs = cache_keys d" using d(1) visits_all_set [OF assms(2)] by (simp add: cache_inv_def)
    have same: "length (accessed d) = length (cache_entries d)"
      using d(1) by (metis cache_inv_def cache_keys_def card_keys)
    have dist: "distinct (map fst ?xs)"
    proof (rule card_distinct)
      have "card (set (map fst ?xs)) = card (cache_keys d)" using keys by simp
      also have "\<dots> = length (cache_entries d)" using d(1) by (simp add: cache_inv_def cache_keys_def card_keys)
      finally show "card (set (map fst ?xs)) = length (map fst ?xs)" using len same by simp
    qed
    have "card (oldest_keys visit d) = ?n"
    proof -
      have "distinct (map fst (take ?n ?xs))" using dist by (simp add: take_map [symmetric])
      from card_keys [OF this] have "card (oldest_keys visit d) = length (take ?n ?xs)" by (simp only: oldest_keys_def)
      also have "\<dots> = ?n" using len same by simp
      finally show ?thesis .
    qed
    moreover have "oldest_keys visit d \<subseteq> cache_keys d" unfolding oldest_keys_def keys [symmetric] by (intro image_mono set_take_subset)
    moreover have "length (cache_entries (drop_keys (oldest_keys visit d) d)) = card (cache_keys d - oldest_keys visit d)"
      using cache_length [OF drop_keys_inv [OF d(1)]] by (simp add: drop_keys_keys)
    moreover have "card (cache_keys d) = length (cache_entries d)" using d(1) by (simp add: cache_inv_def cache_keys_def card_keys)
    ultimately have "length (cache_entries (drop_keys (oldest_keys visit d) d)) = length (cache_entries d) - ?n"
      by (simp add: card_Diff_subset finite_subset cache_keys_def)
    also have "\<dots> < max_size d" using True d(1) by (simp add: cache_inv_def)
    finally show ?thesis using True d by (simp add: cleanup_locked_def d_def [symmetric])
  qed (use d in \<open>simp add: cleanup_locked_def d_def [symmetric]\<close>)
qed

lemma length_alist_update: "length (AList.update k v al) \<le> Suc (length al)"
  by (induction al) auto

lemma cleanup_inv: "cache_inv c \<Longrightarrow> cache_inv (cleanup_locked visit now c)"
  by (simp add: cleanup_locked_def drop_keys_inv Let_def)

lemma cache_set_inv:
  assumes "cache_inv c" and "visits_all visit"
  shows "cache_inv (cache_set visit k f now c)"
proof -
  define d where "d = (if length (cache_entries c) \<ge> max_size c then cleanup_locked visit now c else c)"
  have "max_size (cleanup_locked visit now c) = max_size c" by (simp add: cleanup_locked_def drop_keys_def Let_def)
  with cleanup_makes_room [OF assms] cleanup_inv [OF assms(1)] assms(1)
  have d: "cache_inv d" "length (cache_entries d) < max_size d" by (auto simp: d_def)
  moreover have "length (AList.update k (f, now) (cache_entries d)) \<le> Suc (length (cache_entries d))"
    by (rule length_alist_update)
  ultimately show ?thesis
    unfolding cache_set_def d_def [symmetric] Let_def cache_inv_def cache_keys_def
    by (simp add: AList.distinct_update AList.dom_update)
qed

lemma cache_get_inv: "cache_inv c \<Longrightarrow> cache_inv (snd (cache_get k now c))"
  unfolding cache_get_def cache_inv_def cache_keys_def
  by (auto simp: AList.distinct_update AList.dom_update split: option.split dest: map_of_SomeD)
    (metis fst_conv image_eqI map_of_SomeD)+

section \<open>A cache that may forget\<close>

locale lossy_map =
  fixes get :: "string \<Rightarrow> int \<Rightarrow> 'c \<Rightarrow> 'v option \<times> 'c"
    and put :: "string \<Rightarrow> 'v \<Rightarrow> int \<Rightarrow> 'c \<Rightarrow> 'c"
    and holds :: "'c \<Rightarrow> string \<Rightarrow> ('v \<times> int) option"
    and lifetime :: "'c \<Rightarrow> int"
  assumes get_held: "fst (get k now c) = Some v \<Longrightarrow> \<exists>t. holds c k = Some (v, t) \<and> now - t \<le> lifetime c"
    and get_fresh: "holds c k = Some (v, t) \<Longrightarrow> now - t \<le> lifetime c \<Longrightarrow> fst (get k now c) = Some v"
    and get_keeps: "holds (snd (get k now c)) = holds c"
    and get_lifetime: "lifetime (snd (get k now c)) = lifetime c"
    and put_held: "holds (put k v now c) k = Some (v, now)"
    and put_others: "j \<noteq> k \<Longrightarrow> holds (put k v now c) j = None \<or> holds (put k v now c) j = holds c j"
    and put_lifetime: "lifetime (put k v now c) = lifetime c"
begin

text \<open>What the cache holds satisfies whatever every value put satisfies.\<close>

definition holds_only :: "(string \<Rightarrow> 'v \<Rightarrow> bool) \<Rightarrow> 'c \<Rightarrow> bool" where
  "holds_only P c \<longleftrightarrow> (\<forall>k v t. holds c k = Some (v, t) \<longrightarrow> P k v)"

lemma get_only: "holds_only P c \<Longrightarrow> fst (get k now c) = Some v \<Longrightarrow> P k v"
  using get_held by (fastforce simp: holds_only_def)

lemma holds_only_get: "holds_only P c \<Longrightarrow> holds_only P (snd (get k now c))"
  by (simp add: holds_only_def get_keeps)

lemma holds_only_put: "holds_only P c \<Longrightarrow> P k v \<Longrightarrow> holds_only P (put k v now c)"
  unfolding holds_only_def by (metis fst_conv option.distinct(1) option.inject put_held put_others)

text \<open>Within its lifetime a value that was put is found.\<close>

lemma get_after_put: "later - now \<le> lifetime c \<Longrightarrow> fst (get k later (put k v now c)) = Some v"
  by (rule get_fresh) (simp_all add: put_held put_lifetime)

end

lemma map_of_drop: "map_of (filter (\<lambda>(k, _). k \<notin> ks) xs) k = (if k \<in> ks then None else map_of xs k)"
  by (induction xs) auto

definition cache_holds :: "'f image_cache \<Rightarrow> string \<Rightarrow> ('f \<times> int) option" where
  "cache_holds c = map_of (cache_entries c)"

lemma drop_holds: "cache_holds (drop_keys ks c) k = (if k \<in> ks then None else cache_holds c k)"
  by (simp add: cache_holds_def drop_keys_def map_of_drop)

lemma cleanup_holds: "cache_holds (cleanup_locked visit now c) k = None \<or> cache_holds (cleanup_locked visit now c) k = cache_holds c k"
  by (simp add: cleanup_locked_def Let_def drop_holds)

lemma cleanup_settings [simp]:
  "cache_ttl (cleanup_locked visit now c) = cache_ttl c" "max_size (cleanup_locked visit now c) = max_size c"
  by (simp_all add: cleanup_locked_def drop_keys_def Let_def)

interpretation facts_cache: lossy_map cache_get "cache_set visit" cache_holds cache_ttl for visit
proof
  fix k j :: string and now t :: int and c :: "'a image_cache" and v :: 'a
  show "fst (cache_get k now c) = Some v \<Longrightarrow> \<exists>t. cache_holds c k = Some (v, t) \<and> now - t \<le> cache_ttl c"
    by (auto simp: cache_get_def cache_holds_def split: option.splits if_splits)
  show "cache_holds c k = Some (v, t) \<Longrightarrow> now - t \<le> cache_ttl c \<Longrightarrow> fst (cache_get k now c) = Some v"
    by (simp add: cache_get_def cache_holds_def)
  show "cache_holds (snd (cache_get k now c)) = cache_holds c" "cache_ttl (snd (cache_get k now c)) = cache_ttl c"
    by (auto simp: cache_get_def cache_holds_def split: option.split)
  show "cache_holds (cache_set visit k v now c) k = Some (v, now)" "cache_ttl (cache_set visit k v now c) = cache_ttl c"
    by (simp_all add: cache_set_def cache_holds_def update_conv' Let_def)
  show "j \<noteq> k \<Longrightarrow> cache_holds (cache_set visit k v now c) j = None \<or> cache_holds (cache_set visit k v now c) j = cache_holds c j"
    using cleanup_holds [of visit now c j] by (simp add: cache_set_def cache_holds_def update_conv' Let_def)
qed

section \<open>Runs\<close>

datatype 'f cache_op = Get string | Put string 'f | Clear

fun cache_step :: "((string \<times> int) list \<Rightarrow> (string \<times> int) list) \<Rightarrow> 'f cache_op \<times> int \<Rightarrow> 'f image_cache \<Rightarrow> 'f image_cache" where
  "cache_step visit (Get k, now) c = snd (cache_get k now c)"
| "cache_step visit (Put k f, now) c = cache_set visit k f now c"
| "cache_step visit (Clear, now) c = cache_clear c"

definition cache_run :: "((string \<times> int) list \<Rightarrow> (string \<times> int) list) \<Rightarrow> int \<Rightarrow> ('f cache_op \<times> int) list \<Rightarrow> 'f image_cache" where
  "cache_run visit d ops = fold (cache_step visit) ops (new_image_cache d)"

text \<open>The last value put under a key since the last clear, with its time.\<close>

fun put_by :: "'f cache_op \<times> int \<Rightarrow> (string \<Rightarrow> ('f \<times> int) option) \<Rightarrow> string \<Rightarrow> ('f \<times> int) option" where
  "put_by (Get k, now) m = m"
| "put_by (Put k f, now) m = m(k \<mapsto> (f, now))"
| "put_by (Clear, now) m = (\<lambda>_. None)"

definition last_put :: "('f cache_op \<times> int) list \<Rightarrow> string \<Rightarrow> ('f \<times> int) option" where
  "last_put ops = fold put_by ops (\<lambda>_. None)"

lemma cache_clear_inv: "cache_inv c \<Longrightarrow> cache_inv (cache_clear c)"
  by (simp add: cache_inv_def cache_clear_def cache_keys_def)

lemma cache_step_inv: "cache_inv c \<Longrightarrow> visits_all visit \<Longrightarrow> cache_inv (cache_step visit op c)"
  by (cases "(visit, op, c)" rule: cache_step.cases) (auto intro: cache_set_inv cache_get_inv cache_clear_inv)

lemma cache_step_settings [simp]:
  "cache_ttl (cache_step visit op c) = cache_ttl c" "max_size (cache_step visit op c) = max_size c"
  by (cases "(visit, op, c)" rule: cache_step.cases;
      auto simp: cache_get_def cache_set_def cache_clear_def Let_def split: option.split)+

lemma cache_run_inv:
  assumes "visits_all visit"
  shows "cache_inv (cache_run visit d ops) \<and> max_size (cache_run visit d ops) = 1000"
proof (induction ops rule: rev_induct)
  case (snoc op ops)
  then show ?case using cache_step_inv [OF conjunct1 [OF snoc] assms, of op] by (simp add: cache_run_def)
qed (simp add: cache_run_def new_image_cache_def cache_inv_def cache_keys_def)

text \<open>
  Whatever is put, read and cleared, and in whatever order a cleanup visits the entries, the cache never holds
  more than a thousand entries, and knows a time of use for exactly its entries.
\<close>

theorem cache_bounded:
  assumes "visits_all visit"
  shows "cache_size (cache_run visit d ops) \<le> 1000 \<and>
    fst ` set (accessed (cache_run visit d ops)) = cache_keys (cache_run visit d ops)"
  using cache_run_inv [OF assms, of d ops] by (simp add: cache_inv_def cache_size_def)

theorem cache_bounded_witness:
  "cache_size (cache_run rev 0 [(Put ''a'' (), 1), (Put ''b'' (), 2), (Get ''a'', 3), (Clear, 4), (Put ''c'' (), 5)]) \<le> 1000"
  using cache_bounded [of rev 0 "[(Put ''a'' (), 1), (Put ''b'' (), 2), (Get ''a'', 3), (Clear, 4), (Put ''c'' (), 5)]"]
  by (simp add: visits_all_def)

text \<open>
  C16. The cache is a map that forgets: an answer is the value last put under the key and not older than the lifetime, and a
  value that was put last of all is found until its lifetime is over.
\<close>

theorem cache_answers:
  "(fst (cache_get k now (cache_run visit d ops)) = Some f \<longrightarrow>
      (\<exists>t. last_put ops k = Some (f, t) \<and> now - t \<le> cache_ttl (new_image_cache d :: 'f image_cache))) \<and>
   (now - t \<le> cache_ttl (new_image_cache d :: 'f image_cache) \<longrightarrow>
      fst (cache_get k now (cache_run visit d (ops @ [(Put k f, t)]))) = Some (f :: 'f))"
proof (intro conjI impI)
  have ttl: "cache_ttl (cache_run visit d ops) = cache_ttl (new_image_cache d :: 'f image_cache)" for ops :: "('f cache_op \<times> int) list"
    by (induction ops rule: rev_induct) (simp_all add: cache_run_def)
  have sub: "cache_holds (cache_run visit d ops) k = None \<or> cache_holds (cache_run visit d ops) k = last_put ops k"
    for k and ops :: "('f cache_op \<times> int) list"
  proof (induction ops arbitrary: k rule: rev_induct)
    case (snoc op ops)
    obtain o' t where op: "op = (o', t)" by fastforce
    show ?case
    proof (cases o')
      case (Get j)
      with snoc op show ?thesis by (simp add: cache_run_def last_put_def facts_cache.get_keeps)
    next
      case (Put j g)
      with snoc [of k] op facts_cache.put_others [of k j visit g t "cache_run visit d ops"] facts_cache.put_held [of visit j g t "cache_run visit d ops"]
      show ?thesis by (cases "k = j") (auto simp: cache_run_def last_put_def)
    next
      case Clear
      with op show ?thesis by (simp add: cache_run_def last_put_def cache_holds_def cache_clear_def)
    qed
  qed (simp add: cache_run_def new_image_cache_def cache_holds_def)
  show "\<exists>t. last_put ops k = Some (f, t) \<and> now - t \<le> cache_ttl (new_image_cache d :: 'f image_cache)"
    if "fst (cache_get k now (cache_run visit d ops)) = Some f"
    using facts_cache.get_held [OF that] sub [of ops k] ttl [of ops] by auto
  show "fst (cache_get k now (cache_run visit d (ops @ [(Put k f, t)]))) = Some f"
    if "now - t \<le> cache_ttl (new_image_cache d :: 'f image_cache)"
    using that facts_cache.get_after_put [of now t "cache_run visit d ops" k visit f] ttl [of ops] by (simp add: cache_run_def)
qed

theorem cache_answers_witness:
  "last_put [(Put ''a'' True, 1), (Put ''b'' False, 2)] ''a'' = Some (True, 1) \<and>
   fst (cache_get ''b'' 3 (cache_run id 10 ([(Put ''a'' True, 1)] @ [(Put ''b'' False, 2)]))) = Some False"
  using cache_answers [of "''a''" 3 id 10 "[(Put ''a'' True, 1), (Put ''b'' False, 2)]" True 0]
    cache_answers [of "''b''" 3 id 10 "[(Put ''a'' True, 1)]" False 2]
  by (simp add: last_put_def new_image_cache_def)

text \<open>
  What a cleanup of a full cache drops beyond the expired entries was used no later than anything that stays.
\<close>

theorem cleanup_drops_least_recent:
  assumes "cache_inv c" and "visits_all visit"
    and "(k, t) \<in> set (accessed c)" and "k \<notin> expired_keys now c" and "k \<notin> cache_keys (cleanup_locked visit now c)"
    and "(j, u) \<in> set (accessed (cleanup_locked visit now c))"
  shows "t \<le> u"
proof -
  define d where "d = drop_keys (expired_keys now c) c"
  let ?n = "length (cache_entries d) - max_size d div 2"
  let ?xs = "exchange_sort snd (visit (accessed d))"
  have d: "cache_inv d" unfolding d_def by (rule drop_keys_inv [OF assms(1)])
  have kd: "(k, t) \<in> set (accessed d)" using assms(3,4) by (simp add: d_def drop_keys_def)
  have "k \<in> fst ` set (accessed d)" using kd by force
  then have "k \<in> cache_keys d" using d by (simp add: cache_inv_def)
  with assms(5) have full: "length (cache_entries d) \<ge> max_size d" and gone: "k \<in> oldest_keys visit d"
    by (auto simp: cleanup_locked_def d_def [symmetric] drop_keys_keys Let_def split: if_splits)
  have "accessed (cleanup_locked visit now c) = filter (\<lambda>(k, _). k \<notin> oldest_keys visit d) (accessed d)"
    using full by (simp add: cleanup_locked_def d_def [symmetric] Let_def) (simp add: drop_keys_def)
  with assms(6) have ju: "(j, u) \<in> set (accessed d)" "j \<notin> oldest_keys visit d" by auto
  have set_xs: "set ?xs = set (accessed d)" by (simp add: visits_all_set [OF assms(2)])
  from gone obtain t' where t': "(k, t') \<in> set (take ?n ?xs)" by (auto simp: oldest_keys_def)
  then have "(k, t') \<in> set (accessed d)" using set_xs in_set_takeD by fast
  with kd d have "t' = t" by (metis cache_inv_def eq_key_imp_eq_value)
  have "(j, u) \<notin> set (take ?n ?xs)" using ju(2) by (force simp: oldest_keys_def)
  with ju(1) set_xs have "(j, u) \<in> set (drop ?n ?xs)" by (metis Un_iff append_take_drop_id set_append)
  moreover have "sorted (map snd (take ?n ?xs) @ map snd (drop ?n ?xs))"
    using exchange_sort_sorted [of snd "visit (accessed d)"] by (simp flip: map_append)
  ultimately show ?thesis using t' \<open>t' = t\<close> by (fastforce simp: sorted_append)
qed

theorem cleanup_drops_least_recent_witness:
  "accessed (cleanup_locked rev 5 \<lparr>cache_entries = [(''a'', (), 1), (''b'', (), 2)], cache_ttl = 10, max_size = 2, accessed = [(''a'', 4), (''b'', 3)]\<rparr>)
     = [(''a'', 4)] \<and> (3::int) \<le> 4"
proof -
  let ?c = "\<lparr>cache_entries = [(''a'', (), 1), (''b'', (), 2)], cache_ttl = 10, max_size = 2, accessed = [(''a'', 4), (''b'', 3)]\<rparr>"
  have after: "cleanup_locked rev 5 ?c = \<lparr>cache_entries = [(''a'', (), 1)], cache_ttl = 10, max_size = 2, accessed = [(''a'', 4)]\<rparr>"
    by (simp add: cleanup_locked_def drop_keys_def expired_keys_def oldest_keys_def)
  have "(3::int) \<le> 4"
    by (rule cleanup_drops_least_recent [of ?c rev "''b''" 3 5 "''a''" 4])
      (simp_all add: after, simp_all add: cache_inv_def cache_keys_def visits_all_def expired_keys_def)
  with after show ?thesis by simp
qed

end
