(* ===== verification/Image_Facts.thy ===== *)
theory Image_Facts
  imports Image_References Image_Cache "HOL-Library.Char_ord" "HOL-Library.List_Lexorder"
begin

text \<open>
  Facts about images (\<^verbatim>\<open>pkg/collect/images\<close>): manifests (\<^verbatim>\<open>manifest_parser.go\<close>, \<^verbatim>\<open>parseManifest\<close>), the collector with its
  cache and its goroutines (\<^verbatim>\<open>collector.go\<close>), the resolution of tags (\<^verbatim>\<open>digest_resolver.go\<close>) and what is made of the facts
  (\<^verbatim>\<open>facts_builder.go\<close>). A goroutine takes a step when it looks into the cache, when it has its facts from the
  registry, and when it hands over its result. Sizes are 64-bit words that wrap; a zero time is \<open>None\<close>. The clients
  of registries, JSON, the text of an error, SHA-256 and the sorting of slices are parameters. Records leave out the
  fields this code does not read: addresses and annotations of a descriptor, name and history of an old manifest, root
  file system and history of a configuration, the layers, timeout and TLS options.
\<close>

section \<open>Manifests\<close>

record platform =
  architecture :: string
  os_name :: string
  variant :: string
  os_version :: string
  os_features :: "string list"

definition no_platform :: platform where
  "no_platform = \<lparr>architecture = [], os_name = [], variant = [], os_version = [], os_features = []\<rparr>"

record descriptor =
  d_media_type :: string
  d_size :: "64 word"
  d_digest :: string

definition no_descriptor :: descriptor where
  "no_descriptor = \<lparr>d_media_type = [], d_size = 0, d_digest = []\<rparr>"

record v2_manifest =
  v2_schema_version :: int
  v2_media_type :: string
  v2_config :: descriptor
  v2_layers :: "descriptor list"

record manifest_list =
  ml_schema_version :: int
  ml_media_type :: string
  ml_manifests :: "(descriptor \<times> platform option) list"

record v1_manifest =
  v1_schema_version :: int
  v1_architecture :: string
  v1_fs_layers :: "string list"

datatype manifest = V2 v2_manifest | MList manifest_list | V1 v1_manifest

definition DockerManifestSchema1 :: string where "DockerManifestSchema1 = ''application/vnd.docker.distribution.manifest.v1+json''"
definition DockerManifestSchema2 :: string where "DockerManifestSchema2 = ''application/vnd.docker.distribution.manifest.v2+json''"
definition DockerManifestListSchema2 :: string where
  "DockerManifestListSchema2 = ''application/vnd.docker.distribution.manifest.list.v2+json''"
definition OCIManifestSchema1 :: string where "OCIManifestSchema1 = ''application/vnd.oci.image.manifest.v1+json''"
definition OCIImageIndex :: string where "OCIImageIndex = ''application/vnd.oci.image.index.v1+json''"
definition DockerImageLayer :: string where "DockerImageLayer = ''application/vnd.docker.image.rootfs.diff.tar''"

fun get_media_type :: "manifest \<Rightarrow> string" where
  "get_media_type (V2 m) = v2_media_type m"
| "get_media_type (MList m) = ml_media_type m"
| "get_media_type (V1 m) = DockerManifestSchema1"

fun get_schema_version :: "manifest \<Rightarrow> int" where
  "get_schema_version (V2 m) = v2_schema_version m"
| "get_schema_version (MList m) = ml_schema_version m"
| "get_schema_version (V1 m) = v1_schema_version m"

fun get_config :: "manifest \<Rightarrow> descriptor" where
  "get_config (V2 m) = v2_config m"
| "get_config (MList m) = no_descriptor"
| "get_config (V1 m) = no_descriptor"

definition v1_layer :: "string \<Rightarrow> descriptor" where
  "v1_layer blob_sum = \<lparr>d_media_type = DockerImageLayer, d_size = 0, d_digest = blob_sum\<rparr>"

fun get_layers :: "manifest \<Rightarrow> descriptor list" where
  "get_layers (V2 m) = v2_layers m"
| "get_layers (MList m) = []"
| "get_layers (V1 m) = map v1_layer (v1_fs_layers m)"

fun get_platform :: "manifest \<Rightarrow> platform option" where
  "get_platform (V2 m) = None"
| "get_platform (MList m) = None"
| "get_platform (V1 m) = Some (no_platform\<lparr>architecture := v1_architecture m, os_name := ''linux''\<rparr>)"

definition exact_platform :: "platform \<Rightarrow> descriptor \<times> platform option \<Rightarrow> bool" where
  "exact_platform target m \<longleftrightarrow>
     (case snd m of
        None \<Rightarrow> False
      | Some p \<Rightarrow> architecture p = architecture target \<and> os_name p = os_name target \<and>
          (variant target = [] \<or> variant p = variant target))"

definition linux_amd64 :: "descriptor \<times> platform option \<Rightarrow> bool" where
  "linux_amd64 m \<longleftrightarrow> (case snd m of None \<Rightarrow> False | Some p \<Rightarrow> os_name p = ''linux'' \<and> architecture p = ''amd64'')"

definition get_manifest_for_platform :: "platform \<Rightarrow> manifest_list \<Rightarrow> (descriptor \<times> platform option) res" where
  "get_manifest_for_platform target l =
     (case ml_manifests l of
        [] \<Rightarrow> Fail (Err ''manifest list is empty'')
      | m0 # _ \<Rightarrow>
          (case List.find (exact_platform target) (ml_manifests l) of
             Some m \<Rightarrow> Ok m
           | None \<Rightarrow>
               (case List.find linux_amd64 (ml_manifests l) of
                  Some m \<Rightarrow> Ok m
                | None \<Rightarrow> Ok m0)))"

definition get_default_platform :: platform where
  "get_default_platform = no_platform\<lparr>architecture := ''amd64'', os_name := ''linux''\<rparr>"

definition normalize_platform :: "platform \<Rightarrow> platform" where
  "normalize_platform p =
     (let p1 = (if architecture p = [] then p\<lparr>architecture := ''amd64''\<rparr> else p);
          p2 = (if os_name p1 = [] then p1\<lparr>os_name := ''linux''\<rparr> else p1)
      in if architecture p2 = ''x86_64'' then p2\<lparr>architecture := ''amd64''\<rparr>
         else if architecture p2 = ''aarch64'' then p2\<lparr>architecture := ''arm64''\<rparr>
         else p2)"

text \<open>What JSON decoding gives; of a document without a known type, its version when it is a whole number, and whether it has manifests.\<close>

record manifest_codec =
  decode_v2 :: "string \<Rightarrow> v2_manifest res"
  decode_list :: "string \<Rightarrow> manifest_list res"
  decode_v1 :: "string \<Rightarrow> v1_manifest res"
  decode_raw :: "string \<Rightarrow> (int option \<times> bool) res"

definition parse_v2_manifest :: "manifest_codec \<Rightarrow> string \<Rightarrow> manifest res" where
  "parse_v2_manifest C data =
     bind_res (wrap_res ''failed to unmarshal v2 manifest'' (decode_v2 C data)) (\<lambda>m.
       if v2_schema_version m \<noteq> 2 then Fail (Errf ''unsupported schema version: %d'' [show_int (v2_schema_version m)])
       else if d_digest (v2_config m) = [] then Fail (Err ''manifest missing config digest'')
       else Ok (V2 m))"

definition parse_manifest_list :: "manifest_codec \<Rightarrow> string \<Rightarrow> manifest res" where
  "parse_manifest_list C data =
     bind_res (wrap_res ''failed to unmarshal manifest list'' (decode_list C data)) (\<lambda>m.
       if ml_schema_version m \<noteq> 2 then Fail (Errf ''unsupported schema version: %d'' [show_int (ml_schema_version m)])
       else if ml_manifests m = [] then Fail (Err ''manifest list is empty'')
       else Ok (MList m))"

definition parse_v1_manifest :: "manifest_codec \<Rightarrow> string \<Rightarrow> manifest res" where
  "parse_v1_manifest C data =
     bind_res (wrap_res ''failed to unmarshal v1 manifest'' (decode_v1 C data)) (\<lambda>m.
       if v1_schema_version m \<noteq> 1 then Fail (Errf ''unsupported schema version: %d'' [show_int (v1_schema_version m)])
       else Ok (V1 m))"

definition parse_manifest :: "manifest_codec \<Rightarrow> string \<Rightarrow> string \<Rightarrow> manifest res" where
  "parse_manifest C data media_type =
     (if media_type \<in> {DockerManifestSchema2, OCIManifestSchema1} then parse_v2_manifest C data
      else if media_type \<in> {DockerManifestListSchema2, OCIImageIndex} then parse_manifest_list C data
      else if media_type = DockerManifestSchema1 then parse_v1_manifest C data
      else bind_res (wrap_res ''failed to parse manifest JSON'' (decode_raw C data)) (\<lambda>(version, has_manifests).
        if version = Some 2 then (if has_manifests then parse_manifest_list C data else parse_v2_manifest C data)
        else if version = Some 1 then parse_v1_manifest C data
        else Fail (Errf ''unsupported manifest media type: %s'' [media_type])))"

text \<open>A manifest that was parsed is usable: lists have an entry, and version 2 has a configuration.\<close>

definition usable_manifest :: "manifest \<Rightarrow> bool" where
  "usable_manifest m \<longleftrightarrow>
     (case m of
        V2 v \<Rightarrow> v2_schema_version v = 2 \<and> d_digest (v2_config v) \<noteq> []
      | MList l \<Rightarrow> ml_schema_version l = 2 \<and> ml_manifests l \<noteq> []
      | V1 v \<Rightarrow> v1_schema_version v = 1)"

lemma parsed_manifest_usable: "parse_manifest C data t = Ok m \<Longrightarrow> usable_manifest m"
  by (auto simp: parse_manifest_def parse_v2_manifest_def parse_manifest_list_def parse_v1_manifest_def usable_manifest_def
      res_simps split: if_splits)

lemma find_split:
  "List.find P xs = Some x \<Longrightarrow> x \<in> set xs \<and> P x" "List.find P xs = None \<Longrightarrow> \<forall>x\<in>set xs. \<not> P x"
  by (auto simp: find_Some_iff in_set_conv_nth) (auto simp: find_None_iff)

text \<open>
  The manifest chosen from a parsed list is one of the list: for the wanted platform when there is one,
  else for Linux on amd64 when there is one, else the first.
\<close>

theorem manifest_choice:
  assumes "parse_manifest C data t = Ok (MList l)"
  shows "\<exists>m. get_manifest_for_platform target l = Ok m \<and> m \<in> set (ml_manifests l) \<and>
    ((\<exists>n\<in>set (ml_manifests l). exact_platform target n) \<longrightarrow> exact_platform target m) \<and>
    ((\<forall>n\<in>set (ml_manifests l). \<not> exact_platform target n) \<longrightarrow>
       (\<exists>n\<in>set (ml_manifests l). linux_amd64 n) \<longrightarrow> linux_amd64 m) \<and>
    ((\<forall>n\<in>set (ml_manifests l). \<not> exact_platform target n \<and> \<not> linux_amd64 n) \<longrightarrow> m = hd (ml_manifests l))"
proof -
  from parsed_manifest_usable [OF assms] obtain m0 ms where ms: "ml_manifests l = m0 # ms"
    by (cases "ml_manifests l") (auto simp: usable_manifest_def)
  show ?thesis
  proof (cases "List.find (exact_platform target) (ml_manifests l)")
    case (Some m)
    from find_split(1) [OF Some] Some show ?thesis by (auto simp: get_manifest_for_platform_def ms)
  next
    case none: None
    show ?thesis
    proof (cases "List.find linux_amd64 (ml_manifests l)")
      case (Some m)
      from find_split(1) [OF Some] find_split(2) [OF none] Some none show ?thesis by (auto simp: get_manifest_for_platform_def ms)
    next
      case None
      from find_split(2) [OF None] find_split(2) [OF none] None none show ?thesis
        by (auto simp: get_manifest_for_platform_def ms)
    qed
  qed
qed

theorem manifest_choice_witness:
  "\<exists>m. get_manifest_for_platform get_default_platform \<lparr>ml_schema_version = 2, ml_media_type = [], ml_manifests = [(no_descriptor, None)]\<rparr> = Ok m"
proof -
  let ?l = "\<lparr>ml_schema_version = 2, ml_media_type = [], ml_manifests = [(no_descriptor, None)]\<rparr>"
  let ?C = "\<lparr>decode_v2 = \<lambda>_. Fail (LibErr []), decode_list = \<lambda>_. Ok ?l, decode_v1 = \<lambda>_. Fail (LibErr []), decode_raw = \<lambda>_. Fail (LibErr [])\<rparr>"
  have "parse_manifest ?C [] OCIImageIndex = Ok (MList ?l)"
    by (simp add: parse_manifest_def parse_manifest_list_def OCIImageIndex_def DockerManifestSchema2_def OCIManifestSchema1_def
        DockerManifestListSchema2_def)
  from manifest_choice [OF this] show ?thesis by blast
qed

section \<open>Facts\<close>

record layer_info =
  layer_digest :: string
  layer_size :: "64 word"
  layer_media_type :: string

record image_config =
  config_user :: string
  exposed_ports :: "string list"
  config_env :: "string list"
  entrypoint :: "string list"
  config_cmd :: "string list"
  config_volumes :: "string list"
  working_dir :: string

definition no_config :: image_config where
  "no_config = \<lparr>config_user = [], exposed_ports = [], config_env = [], entrypoint = [], config_cmd = [], config_volumes = [],
     working_dir = []\<rparr>"

record image_facts =
  f_repository :: string
  f_tag :: string
  f_digest :: string
  f_registry :: string
  f_size :: "64 word"
  f_created :: "int option"
  f_labels :: "(string \<times> string) list"
  f_platform :: platform
  f_media_type :: string
  f_schema_version :: int
  f_layers :: "layer_info list"
  f_config :: image_config
  f_collected_at :: "int option"
  f_source :: string
  f_error :: string

definition no_facts :: image_facts where
  "no_facts = \<lparr>f_repository = [], f_tag = [], f_digest = [], f_registry = [], f_size = 0, f_created = None, f_labels = [],
     f_platform = no_platform, f_media_type = [], f_schema_version = 0, f_layers = [], f_config = no_config,
     f_collected_at = None, f_source = [], f_error = []\<rparr>"

record image_config_blob =
  blob_platform :: platform
  blob_config :: image_config
  blob_labels :: "(string \<times> string) list"
  blob_created :: "int option"

definition convert_to_layer_info :: "descriptor list \<Rightarrow> layer_info list" where
  "convert_to_layer_info layers =
     map (\<lambda>d. \<lparr>layer_digest = d_digest d, layer_size = d_size d, layer_media_type = d_media_type d\<rparr>) layers"

section \<open>Collecting the facts of one image\<close>

record registry_client =
  client_manifest :: "image_reference \<Rightarrow> manifest res"
  client_blob :: "image_reference \<Rightarrow> string \<Rightarrow> string res res"
  client_ping :: "unit res"

record collection_options =
  opt_credentials :: "(string \<times> registry_credentials) list option"
  opt_include_config :: bool
  opt_max_concurrency :: int
  opt_continue_on_error :: bool
  opt_enable_cache :: bool
  opt_cache_duration :: int

record image_env =
  ie_options :: collection_options
  ie_url_host :: "string \<Rightarrow> string res"
  ie_client :: "string \<Rightarrow> registry_credentials \<Rightarrow> registry_client res"
  ie_parse_config :: "string \<Rightarrow> image_config_blob res"
  ie_marshal :: "manifest \<Rightarrow> string res"
  ie_sha256 :: "string \<Rightarrow> string"
  ie_render :: "go_error \<Rightarrow> string"
  ie_visit :: "(string \<times> int) list \<Rightarrow> (string \<times> int) list"

definition get_default_collection_options :: collection_options where
  "get_default_collection_options =
     \<lparr>opt_credentials = Some [], opt_include_config = True, opt_max_concurrency = 5, opt_continue_on_error = True,
      opt_enable_cache = True, opt_cache_duration = DefaultCacheDuration\<rparr>"

definition new_image_collector_cache :: "collection_options \<Rightarrow> image_facts image_cache option" where
  "new_image_collector_cache opts = (if opt_enable_cache opts then Some (new_image_cache (opt_cache_duration opts)) else None)"

definition populate_config_facts ::
  "image_env \<Rightarrow> registry_client \<Rightarrow> image_reference \<Rightarrow> descriptor \<Rightarrow> image_facts \<Rightarrow> image_facts res" where
  "populate_config_facts E cl ir config_desc facts =
     bind_res (wrap_res ''failed to get config blob'' (client_blob cl ir (d_digest config_desc))) (\<lambda>reader.
     bind_res (wrap_res ''failed to read config blob'' reader) (\<lambda>data.
     bind_res (wrap_res ''failed to parse config blob'' (wrap_res ''failed to unmarshal image config'' (ie_parse_config E data))) (\<lambda>b.
       Ok (facts\<lparr>f_platform := blob_platform b, f_created := blob_created b, f_config := blob_config b, f_labels := blob_labels b\<rparr>))))"

text \<open>An error about the configuration is only logged.\<close>

definition populate_facts_from_manifest ::
  "image_env \<Rightarrow> registry_client \<Rightarrow> image_reference \<Rightarrow> manifest \<Rightarrow> image_facts \<Rightarrow> image_facts res" where
  "populate_facts_from_manifest E cl ir m facts =
     (let f1 = facts\<lparr>f_layers := convert_to_layer_info (get_layers m)\<rparr>;
          f2 = f1\<lparr>f_size := fold (\<lambda>l n. n + layer_size l) (f_layers f1) (f_size f1)\<rparr>;
          config_desc = get_config m
      in if d_digest config_desc \<noteq> [] \<and> opt_include_config (ie_options E)
         then (case populate_config_facts E cl ir config_desc f2 of
                 Fail _ \<Rightarrow> Ok f2
               | r \<Rightarrow> r)
         else Ok f2)"

definition handle_manifest_list ::
  "image_env \<Rightarrow> registry_client \<Rightarrow> image_reference \<Rightarrow> manifest_list \<Rightarrow> image_facts \<Rightarrow> image_facts res" where
  "handle_manifest_list E cl ir l facts =
     bind_res (wrap_res ''failed to find suitable manifest in list'' (get_manifest_for_platform get_default_platform l)) (\<lambda>(desc, p).
       let f1 = (case p of None \<Rightarrow> facts | Some p \<Rightarrow> facts\<lparr>f_platform := p\<rparr>);
           specific = \<lparr>ref_registry = ref_registry ir, ref_repository = ref_repository ir, ref_tag = [], ref_digest = d_digest desc\<rparr>
       in bind_res (wrap_res ''failed to get specific manifest from list'' (client_manifest cl specific)) (\<lambda>m.
            wrap_res ''failed to populate facts from specific manifest'' (populate_facts_from_manifest E cl specific m f1)))"

definition collect_image_facts_from_registry ::
  "image_env \<Rightarrow> registry_client \<Rightarrow> int \<Rightarrow> image_reference \<Rightarrow> image_facts res" where
  "collect_image_facts_from_registry E cl now ir =
     bind_res (wrap_res ''failed to get manifest'' (client_manifest cl ir)) (\<lambda>m.
       let facts = no_facts\<lparr>f_repository := ref_repository ir, f_tag := ref_tag ir, f_digest := ref_digest ir,
             f_registry := ref_registry ir, f_media_type := get_media_type m, f_schema_version := get_schema_version m,
             f_collected_at := Some now\<rparr>
       in case m of
            MList l \<Rightarrow> handle_manifest_list E cl ir l facts
          | _ \<Rightarrow> wrap_res ''failed to populate facts from manifest'' (populate_facts_from_manifest E cl ir m facts))"

definition or_default_registry :: "string \<Rightarrow> string" where
  "or_default_registry registry = (if registry = [] then DefaultRegistry else registry)"

definition partial_facts :: "image_env \<Rightarrow> int \<Rightarrow> image_reference \<Rightarrow> go_error \<Rightarrow> image_facts" where
  "partial_facts E now ir e =
     no_facts\<lparr>f_repository := ref_repository ir, f_tag := ref_tag ir, f_digest := ref_digest ir,
       f_registry := or_default_registry (ref_registry ir), f_collected_at := Some now, f_source := ''error-recovery'',
       f_error := ie_render E e\<rparr>"

text \<open>The facts a registry gives, with whether they go into the cache; \<open>now\<close> is the time they are made.\<close>

definition fetch_image_facts :: "image_env \<Rightarrow> int \<Rightarrow> image_reference \<Rightarrow> (bool \<times> image_facts) res" where
  "fetch_image_facts E now ir =
     (let registry = or_default_registry (ref_registry ir);
          opts = ie_options E;
          creds = get_credentials_for_registry (ie_url_host E) (opt_credentials opts) registry
      in bind_res (wrap_res ''failed to create registry client'' (ie_client E registry creds)) (\<lambda>cl.
         bind_res (case client_ping cl of
                     Fail e \<Rightarrow> if opt_continue_on_error opts then Ok () else Fail (Wrap ''registry connectivity test failed'' e)
                   | r \<Rightarrow> r) (\<lambda>_.
         case collect_image_facts_from_registry E cl now ir of
           Ok f \<Rightarrow> Ok (True, f)
         | Fail e \<Rightarrow> if opt_continue_on_error opts then Ok (False, partial_facts E now ir e) else Fail e
         | Panic p \<Rightarrow> Panic p)))"

definition look_up_facts :: "int \<Rightarrow> image_reference \<Rightarrow> image_facts image_cache option \<Rightarrow> image_facts option \<times> image_facts image_cache option" where
  "look_up_facts now ir c =
     (case c of
        None \<Rightarrow> (None, None)
      | Some c \<Rightarrow> (let (f, c') = cache_get (reference_string ir) now c in (f, Some c')))"

definition remember_facts ::
  "image_env \<Rightarrow> int \<Rightarrow> image_reference \<Rightarrow> (bool \<times> image_facts) res \<Rightarrow> image_facts image_cache option \<Rightarrow> image_facts image_cache option" where
  "remember_facts E now ir r c =
     (case (r, c) of
        (Ok (True, f), Some c) \<Rightarrow> Some (cache_set (ie_visit E) (reference_string ir) f now c)
      | _ \<Rightarrow> c)"

definition collect_image_facts ::
  "image_env \<Rightarrow> int \<Rightarrow> int \<Rightarrow> image_reference \<Rightarrow> image_facts image_cache option \<Rightarrow> image_facts res \<times> image_facts image_cache option" where
  "collect_image_facts E now later ir c =
     (case look_up_facts now ir c of
        (Some f, c1) \<Rightarrow> (Ok f, c1)
      | (None, c1) \<Rightarrow>
          (let r = fetch_image_facts E now ir
           in (map_res snd r, remember_facts E later ir r c1)))"

text \<open>The name parts of facts are those of the reference they were collected for.\<close>

lemma populate_facts_names:
  assumes "populate_facts_from_manifest E cl ir m f = Ok g"
  shows "f_repository g = f_repository f \<and> f_tag g = f_tag f \<and> f_digest g = f_digest f \<and> f_registry g = f_registry f \<and>
    f_error g = f_error f \<and> f_collected_at g = f_collected_at f \<and>
    f_size g = f_size f + sum_list (map d_size (get_layers m))"
proof -
  have sum: "fold (\<lambda>l n. n + layer_size l) (convert_to_layer_info ds) n = n + sum_list (map d_size ds)" for ds n
    by (induction ds arbitrary: n) (simp_all add: convert_to_layer_info_def)
  have config: "populate_config_facts E cl ir d h = Ok g \<Longrightarrow>
     f_repository g = f_repository h \<and> f_tag g = f_tag h \<and> f_digest g = f_digest h \<and> f_registry g = f_registry h \<and>
     f_error g = f_error h \<and> f_collected_at g = f_collected_at h \<and> f_size g = f_size h" for d h
    by (auto simp: populate_config_facts_def res_simps)
  show ?thesis
    using assms config [of "get_config m"]
    by (auto simp: populate_facts_from_manifest_def Let_def sum split: if_splits res.splits)
qed

lemma registry_facts_names:
  assumes "collect_image_facts_from_registry E cl now ir = Ok g"
  shows "f_repository g = ref_repository ir \<and> f_tag g = ref_tag ir \<and> f_digest g = ref_digest ir \<and>
    f_registry g = ref_registry ir \<and> f_error g = [] \<and> f_collected_at g = Some now"
proof -
  from assms obtain m where m: "client_manifest cl ir = Ok m"
    by (auto simp: collect_image_facts_from_registry_def res_simps)
  show ?thesis
  proof (cases m)
    case (MList l)
    with assms m show ?thesis
      by (auto simp: collect_image_facts_from_registry_def handle_manifest_list_def res_simps Let_def no_facts_def
          dest!: populate_facts_names split: option.splits)
  qed (use assms m in \<open>auto simp: collect_image_facts_from_registry_def res_simps Let_def no_facts_def dest!: populate_facts_names\<close>)
qed

lemma fetched_facts_names:
  assumes "fetch_image_facts E now ir = Ok (b, g)"
  shows "f_repository g = ref_repository ir \<and> f_tag g = ref_tag ir \<and> f_digest g = ref_digest ir \<and>
    f_collected_at g = Some now \<and> (b \<longrightarrow> f_error g = []) \<and> (\<not> b \<longrightarrow> (\<exists>e. f_error g = ie_render E e))"
proof -
  obtain registry creds where "registry = or_default_registry (ref_registry ir)"
    "creds = get_credentials_for_registry (ie_url_host E) (opt_credentials (ie_options E)) registry" by blast
  with assms obtain cl where "(case collect_image_facts_from_registry E cl now ir of
           Ok f \<Rightarrow> Ok (True, f)
         | Fail e \<Rightarrow> if opt_continue_on_error (ie_options E) then Ok (False, partial_facts E now ir e) else Fail e
         | Panic p \<Rightarrow> Panic p) = Ok (b, g)"
    by (auto simp: fetch_image_facts_def res_simps Let_def)
  then show ?thesis
    using registry_facts_names [of E cl now ir]
    by (cases "collect_image_facts_from_registry E cl now ir") (auto simp: partial_facts_def no_facts_def split: if_splits)
qed

text \<open>A reference that was just collected without an error is answered from the cache.\<close>

lemma collected_again:
  assumes "collect_image_facts E now later ir (Some c) = (Ok f, c')" and "f_error f = []" and "\<And>e. ie_render E e \<noteq> []"
    and "again - later \<le> cache_ttl c" and "fst (look_up_facts now ir (Some c)) = None"
  shows "fst (look_up_facts again ir c') = Some f"
proof -
  obtain c1 where c1: "look_up_facts now ir (Some c) = (None, Some c1)" "cache_ttl c1 = cache_ttl c"
    using assms(5) facts_cache.get_lifetime [of "reference_string ir" now c] by (auto simp: look_up_facts_def split: prod.splits)
  with assms(1) obtain b where f: "fetch_image_facts E now ir = Ok (b, f)" "c' = remember_facts E later ir (Ok (b, f)) (Some c1)"
    by (auto simp: collect_image_facts_def Let_def res_simps)
  have "b" using fetched_facts_names [OF f(1)] assms(2,3) by metis
  with f(2) facts_cache.get_after_put [of again later c1 "reference_string ir" "ie_visit E" f] assms(4) c1(2)
  show ?thesis by (auto simp: look_up_facts_def remember_facts_def split: prod.split)
qed

section \<open>Collecting many images\<close>

datatype task = Queued | Missed | Collected "image_facts res" | Delivered

record collect_state =
  cs_cache :: "image_facts image_cache option"
  cs_tasks :: "task list"
  cs_results :: "image_facts list"
  cs_errors :: "go_error list"

definition DefaultMaxConcurrency :: nat where "DefaultMaxConcurrency = 5"

definition max_concurrency :: "collection_options \<Rightarrow> nat" where
  "max_concurrency opts = (if opt_max_concurrency opts \<le> 0 then DefaultMaxConcurrency else nat (opt_max_concurrency opts))"

fun holds_semaphore :: "task \<Rightarrow> bool" where
  "holds_semaphore Missed = True"
| "holds_semaphore (Collected r) = True"
| "holds_semaphore t = False"

definition running_tasks :: "collect_state \<Rightarrow> nat" where
  "running_tasks s = length (filter holds_semaphore (cs_tasks s))"

definition begin_task :: "int \<Rightarrow> image_reference \<Rightarrow> nat \<Rightarrow> collect_state \<Rightarrow> collect_state" where
  "begin_task now ir i s =
     (let (f, c) = look_up_facts now ir (cs_cache s)
      in s\<lparr>cs_cache := c, cs_tasks := (cs_tasks s)[i := (case f of None \<Rightarrow> Missed | Some f \<Rightarrow> Collected (Ok f))]\<rparr>)"

definition fetch_task :: "image_env \<Rightarrow> int \<Rightarrow> int \<Rightarrow> image_reference \<Rightarrow> nat \<Rightarrow> collect_state \<Rightarrow> collect_state" where
  "fetch_task E now later ir i s =
     (let r = fetch_image_facts E now ir
      in s\<lparr>cs_cache := remember_facts E later ir r (cs_cache s), cs_tasks := (cs_tasks s)[i := Collected (map_res snd r)]\<rparr>)"

definition deliver_task :: "image_reference \<Rightarrow> nat \<Rightarrow> image_facts res \<Rightarrow> collect_state \<Rightarrow> collect_state" where
  "deliver_task ir i r s =
     (let s1 = s\<lparr>cs_tasks := (cs_tasks s)[i := Delivered]\<rparr>
      in case r of
           Ok f \<Rightarrow> s1\<lparr>cs_results := (cs_results s)[i := f]\<rparr>
         | Fail e \<Rightarrow> s1\<lparr>cs_errors := cs_errors s @ [Wrap (''image '' @ reference_string ir) e]\<rparr>
         | Panic p \<Rightarrow> s1)"

inductive image_step :: "image_env \<Rightarrow> image_reference list \<Rightarrow> collect_state \<Rightarrow> collect_state \<Rightarrow> bool" for E refs where
  look: "i < length refs \<Longrightarrow> cs_tasks s ! i = Queued \<Longrightarrow> running_tasks s < max_concurrency (ie_options E) \<Longrightarrow>
    image_step E refs s (begin_task now (refs ! i) i s)"
| fetch: "i < length refs \<Longrightarrow> cs_tasks s ! i = Missed \<Longrightarrow> \<not> is_panic (fetch_image_facts E now (refs ! i)) \<Longrightarrow>
    image_step E refs s (fetch_task E now later (refs ! i) i s)"
| deliver: "i < length refs \<Longrightarrow> cs_tasks s ! i = Collected r \<Longrightarrow>
    image_step E refs s (deliver_task (refs ! i) i r s)"

definition start_collection :: "image_facts image_cache option \<Rightarrow> image_reference list \<Rightarrow> collect_state" where
  "start_collection c refs =
     \<lparr>cs_cache = c, cs_tasks = replicate (length refs) Queued, cs_results = replicate (length refs) no_facts, cs_errors = []\<rparr>"

definition collection_over :: "collect_state \<Rightarrow> bool" where
  "collection_over s \<longleftrightarrow> (\<forall>t\<in>set (cs_tasks s). t = Delivered)"

definition collected_facts :: "image_env \<Rightarrow> collect_state \<Rightarrow> image_facts list \<times> go_error option" where
  "collected_facts E s =
     (let final = filter (\<lambda>f. f_repository f \<noteq> []) (cs_results s)
      in if cs_errors s \<noteq> [] \<and> \<not> opt_continue_on_error (ie_options E)
         then (final, Some (Errf ''collection errors: %v'' (map (ie_render E) (cs_errors s))))
         else (final, None))"

text \<open>What a reference may get: facts a registry gave for a reference that prints alike; an error is one of its own.\<close>

definition facts_of :: "image_env \<Rightarrow> image_reference \<Rightarrow> image_facts \<Rightarrow> bool" where
  "facts_of E r f \<longleftrightarrow> (\<exists>r' now b. reference_string r' = reference_string r \<and> fetch_image_facts E now r' = Ok (b, f))"

definition collection_fails :: "image_env \<Rightarrow> image_reference \<Rightarrow> go_error \<Rightarrow> bool" where
  "collection_fails E r e \<longleftrightarrow> (\<exists>now. fetch_image_facts E now r = Fail e)"

definition cached_ok :: "image_env \<Rightarrow> image_facts image_cache option \<Rightarrow> bool" where
  "cached_ok E c \<longleftrightarrow>
     (case c of
        None \<Rightarrow> True
      | Some c \<Rightarrow> facts_cache.holds_only (\<lambda>k f. \<exists>r now. reference_string r = k \<and> fetch_image_facts E now r = Ok (True, f)) c)"

fun task_ok :: "image_env \<Rightarrow> go_error list \<Rightarrow> image_reference \<Rightarrow> task \<Rightarrow> image_facts \<Rightarrow> bool" where
  "task_ok E errs r Queued f \<longleftrightarrow> f = no_facts"
| "task_ok E errs r Missed f \<longleftrightarrow> f = no_facts"
| "task_ok E errs r (Collected (Ok g)) f \<longleftrightarrow> f = no_facts \<and> facts_of E r g"
| "task_ok E errs r (Collected (Fail e)) f \<longleftrightarrow> f = no_facts \<and> collection_fails E r e"
| "task_ok E errs r (Collected (Panic p)) f \<longleftrightarrow> False"
| "task_ok E errs r Delivered f \<longleftrightarrow>
     facts_of E r f \<or> f = no_facts \<and> (\<exists>e. collection_fails E r e \<and> Wrap (''image '' @ reference_string r) e \<in> set errs)"

definition collect_inv :: "image_env \<Rightarrow> image_reference list \<Rightarrow> collect_state \<Rightarrow> bool" where
  "collect_inv E refs s \<longleftrightarrow>
     length (cs_tasks s) = length refs \<and> length (cs_results s) = length refs \<and> cached_ok E (cs_cache s) \<and>
     running_tasks s \<le> max_concurrency (ie_options E) \<and>
     (\<forall>i<length refs. task_ok E (cs_errors s) (refs ! i) (cs_tasks s ! i) (cs_results s ! i))"

lemma look_up_ok:
  assumes "cached_ok E c" and "look_up_facts now r c = (f, c')"
  shows "cached_ok E c' \<and> (\<forall>g. f = Some g \<longrightarrow> facts_of E r g)"
proof (cases c)
  case (Some d)
  let ?P = "\<lambda>k f. \<exists>r now. reference_string r = k \<and> fetch_image_facts E now r = Ok (True, f)"
  from assms(1) Some have only: "facts_cache.holds_only ?P d" by (simp add: cached_ok_def)
  from assms(2) Some have f: "f = fst (cache_get (reference_string r) now d)" "c' = Some (snd (cache_get (reference_string r) now d))"
    by (auto simp: look_up_facts_def split: prod.splits)
  have "facts_of E r g" if "f = Some g" for g
    using facts_cache.get_only [OF only] that f(1) unfolding facts_of_def by metis
  with facts_cache.holds_only_get [OF only] f(2) show ?thesis by (simp add: cached_ok_def)
qed (use assms in \<open>simp add: look_up_facts_def cached_ok_def\<close>)

lemma remember_ok:
  assumes "cached_ok E c" and "r = fetch_image_facts E now ir"
  shows "cached_ok E (remember_facts E later ir r c)"
proof (cases "\<exists>f d. r = Ok (True, f) \<and> c = Some d")
  case True
  then obtain f d where fd: "r = Ok (True, f)" "c = Some d" by blast
  have "\<exists>r now. reference_string r = reference_string ir \<and> fetch_image_facts E now r = Ok (True, f)"
    using assms(2) fd(1) by metis
  with facts_cache.holds_only_put [where P = "\<lambda>k f. \<exists>r now. reference_string r = k \<and> fetch_image_facts E now r = Ok (True, f)"
      and c = d and k = "reference_string ir" and v = f and now = later and visit = "ie_visit E"] assms(1) fd
  show ?thesis by (simp add: cached_ok_def remember_facts_def)
next
  case False
  then have "remember_facts E later ir r c = c"
    by (auto simp: remember_facts_def split: res.split prod.split option.split bool.split)
  with assms(1) show ?thesis by simp
qed

lemma count_update:
  assumes "i < length ts"
  shows "length (filter P (ts[i := t])) + (if P (ts ! i) then 1 else 0) = length (filter P ts) + (if P t then 1 else 0)"
proof -
  obtain xs x ys where "ts = xs @ x # ys" "length xs = i" using assms by (metis id_take_nth_drop length_take min.absorb4)
  then show ?thesis by (auto simp: list_update_append)
qed

lemma tasks_ok_update:
  assumes "\<forall>i<length refs. task_ok E errs (refs ! i) (ts ! i) (rs ! i)" and "set errs \<subseteq> set errs'"
    and "length ts = length refs" and "length rs = length refs" and "j < length refs" and "task_ok E errs' (refs ! j) t f"
  shows "\<forall>i<length refs. task_ok E errs' (refs ! i) (ts[j := t] ! i) (rs[j := f] ! i)"
proof (intro allI impI)
  have weaken: "task_ok E errs r u g \<Longrightarrow> task_ok E errs' r u g" for r u g
    using assms(2) by (cases "(E, errs, r, u, g)" rule: task_ok.cases) auto
  fix i assume "i < length refs"
  with assms weaken show "task_ok E errs' (refs ! i) (ts[j := t] ! i) (rs[j := f] ! i)" by (cases "i = j") auto
qed

lemma image_step_inv:
  assumes "image_step E refs s s'" and "collect_inv E refs s"
  shows "collect_inv E refs s'"
  using assms
proof (induction rule: image_step.induct)
  case (look i s now)
  obtain f c where fc: "look_up_facts now (refs ! i) (cs_cache s) = (f, c)" by fastforce
  let ?t = "case f of None \<Rightarrow> Missed | Some f \<Rightarrow> Collected (Ok f)"
  from look.prems have inv: "length (cs_tasks s) = length refs" "length (cs_results s) = length refs" "cached_ok E (cs_cache s)"
    "\<forall>i<length refs. task_ok E (cs_errors s) (refs ! i) (cs_tasks s ! i) (cs_results s ! i)" by (simp_all add: collect_inv_def)
  have none: "cs_results s ! i = no_facts" using inv(4) look.hyps by (metis task_ok.simps(1))
  with look_up_ok [OF inv(3) fc] have "task_ok E (cs_errors s) (refs ! i) ?t (cs_results s ! i)" by (cases f) auto
  from tasks_ok_update [OF inv(4) order_refl inv(1,2) look.hyps(1) this]
  have "\<forall>j<length refs. task_ok E (cs_errors s) (refs ! j) ((cs_tasks s)[i := ?t] ! j) (cs_results s ! j)" by simp
  moreover have "length (filter holds_semaphore ((cs_tasks s)[i := ?t])) \<le> max_concurrency (ie_options E)"
    using count_update [of i "cs_tasks s" holds_semaphore ?t] look.hyps inv(1)
    by (cases f) (simp_all add: running_tasks_def)
  ultimately show ?case using inv look_up_ok [OF inv(3) fc] fc by (simp add: collect_inv_def begin_task_def running_tasks_def)
next
  case (fetch i s now later)
  from fetch.prems have inv: "length (cs_tasks s) = length refs" "length (cs_results s) = length refs" "cached_ok E (cs_cache s)"
    "\<forall>i<length refs. task_ok E (cs_errors s) (refs ! i) (cs_tasks s ! i) (cs_results s ! i)" by (simp_all add: collect_inv_def)
  let ?r = "fetch_image_facts E now (refs ! i)"
  have none: "cs_results s ! i = no_facts" using inv(4) fetch.hyps by (metis task_ok.simps(2))
  have "task_ok E (cs_errors s) (refs ! i) (Collected (map_res snd ?r)) (cs_results s ! i)"
  proof (cases ?r)
    case (Ok bf)
    obtain b f where "bf = (b, f)" by fastforce
    with Ok none show ?thesis unfolding facts_of_def by (auto simp: facts_of_def)
  next
    case (Fail e)
    with none show ?thesis by (auto simp: collection_fails_def)
  qed (use fetch.hyps in simp)
  from tasks_ok_update [OF inv(4) order_refl inv(1,2) fetch.hyps(1) this]
  have "\<forall>j<length refs. task_ok E (cs_errors s) (refs ! j) ((cs_tasks s)[i := Collected (map_res snd ?r)] ! j) (cs_results s ! j)" by simp
  moreover have "length (filter holds_semaphore ((cs_tasks s)[i := Collected (map_res snd ?r)])) \<le> max_concurrency (ie_options E)"
    using count_update [of i "cs_tasks s" holds_semaphore "Collected (map_res snd ?r)"] fetch inv(1)
    by (simp add: running_tasks_def collect_inv_def)
  ultimately show ?case using inv remember_ok [OF inv(3) refl, of later "refs ! i" now]
    by (simp add: collect_inv_def fetch_task_def running_tasks_def Let_def)
next
  case (deliver i s r)
  from deliver.prems have inv: "length (cs_tasks s) = length refs" "length (cs_results s) = length refs" "cached_ok E (cs_cache s)"
    "\<forall>i<length refs. task_ok E (cs_errors s) (refs ! i) (cs_tasks s ! i) (cs_results s ! i)" by (simp_all add: collect_inv_def)
  have count: "length (filter holds_semaphore ((cs_tasks s)[i := Delivered])) \<le> max_concurrency (ie_options E)"
    using count_update [of i "cs_tasks s" holds_semaphore Delivered] deliver inv(1) by (simp add: running_tasks_def collect_inv_def)
  have ok: "task_ok E (cs_errors s) (refs ! i) (Collected r) (cs_results s ! i)" using inv(4) deliver.hyps by metis
  show ?case
  proof (cases r)
    case (Ok f)
    with ok have "task_ok E (cs_errors s) (refs ! i) Delivered f" by simp
    from tasks_ok_update [OF inv(4) order_refl inv(1,2) deliver.hyps(1) this] Ok inv count show ?thesis
      by (simp add: collect_inv_def deliver_task_def running_tasks_def Let_def)
  next
    case (Fail e)
    let ?errs = "cs_errors s @ [Wrap (''image '' @ reference_string (refs ! i)) e]"
    from Fail ok have "task_ok E ?errs (refs ! i) Delivered (cs_results s ! i)" by auto
    with tasks_ok_update [OF inv(4) _ inv(1,2) deliver.hyps(1) this] Fail inv count show ?thesis
      by (simp add: collect_inv_def deliver_task_def running_tasks_def Let_def subset_eq)
  next
    case (Panic p)
    with ok show ?thesis by simp
  qed
qed

lemma start_inv: "cached_ok E c \<Longrightarrow> collect_inv E refs (start_collection c refs)"
  by (simp add: collect_inv_def start_collection_def running_tasks_def filter_replicate)

lemma image_steps_inv:
  "(image_step E refs)\<^sup>*\<^sup>* s s' \<Longrightarrow> collect_inv E refs s \<Longrightarrow> collect_inv E refs s'"
  by (induction rule: rtranclp_induct) (auto intro: image_step_inv)

lemma new_cache_ok: "cached_ok E (new_image_collector_cache opts)"
  by (simp add: cached_ok_def new_image_collector_cache_def facts_cache.holds_only_def cache_holds_def new_image_cache_def)

text \<open>
  C15. However the goroutines interleave, the collection returns for every reference, in the order of the references,
  facts a registry gave for a reference that prints alike, or nothing when its collection failed; facts without a
  repository are left out. When errors are not continued on and none is returned, every reference has its facts.
\<close>

theorem images_collected:
  assumes "(image_step E refs)\<^sup>*\<^sup>* (start_collection c refs) s" and "collection_over s" and "cached_ok E c"
  shows "\<exists>fs. list_all2 (\<lambda>r f. facts_of E r f \<or> f = no_facts \<and> (\<exists>e. collection_fails E r e)) refs fs \<and>
    fst (collected_facts E s) = filter (\<lambda>f. f_repository f \<noteq> []) fs \<and>
    (snd (collected_facts E s) = None \<longrightarrow> opt_continue_on_error (ie_options E) \<or> list_all2 (facts_of E) refs fs)"
proof (intro exI [of _ "cs_results s"] conjI impI)
  from image_steps_inv [OF assms(1) start_inv [OF assms(3)]] have inv: "length (cs_tasks s) = length refs" "length (cs_results s) = length refs"
    "\<forall>i<length refs. task_ok E (cs_errors s) (refs ! i) (cs_tasks s ! i) (cs_results s ! i)" by (simp_all add: collect_inv_def)
  have done_all: "task_ok E (cs_errors s) (refs ! i) Delivered (cs_results s ! i)" if "i < length refs" for i
    using inv assms(2) that unfolding collection_over_def by (metis nth_mem)
  show "list_all2 (\<lambda>r f. facts_of E r f \<or> f = no_facts \<and> (\<exists>e. collection_fails E r e)) refs (cs_results s)"
    using done_all inv(2) by (auto simp: list_all2_conv_all_nth)
  show "fst (collected_facts E s) = filter (\<lambda>f. f_repository f \<noteq> []) (cs_results s)" by (simp add: collected_facts_def Let_def)
  show "opt_continue_on_error (ie_options E) \<or> list_all2 (facts_of E) refs (cs_results s)" if "snd (collected_facts E s) = None"
  proof (cases "opt_continue_on_error (ie_options E)")
    case False
    with that have "cs_errors s = []" by (simp add: collected_facts_def Let_def split: if_splits)
    with done_all inv(2) show ?thesis by (auto simp: list_all2_conv_all_nth)
  qed simp
qed

definition example_image_env :: image_env where
  "example_image_env =
     \<lparr>ie_options = get_default_collection_options, ie_url_host = (\<lambda>_. Ok []),
      ie_client = (\<lambda>_ _. Ok \<lparr>client_manifest = (\<lambda>_. Ok (V1 \<lparr>v1_schema_version = 1, v1_architecture = ''amd64'', v1_fs_layers = []\<rparr>)),
         client_blob = (\<lambda>_ _. Fail (LibErr [])), client_ping = Ok ()\<rparr>),
      ie_parse_config = (\<lambda>_. Fail (LibErr [])), ie_marshal = (\<lambda>_. Fail (LibErr [])), ie_sha256 = (\<lambda>_. []),
      ie_render = (\<lambda>_. ''error''), ie_visit = rev\<rparr>"

definition example_reference :: image_reference where
  "example_reference = \<lparr>ref_registry = ''quay.io'', ref_repository = ''a/b'', ref_tag = ''1'', ref_digest = []\<rparr>"

lemma example_fetch:
  "fetch_image_facts example_image_env now example_reference =
     Ok (True, no_facts\<lparr>f_repository := ''a/b'', f_tag := ''1'', f_registry := ''quay.io'', f_media_type := DockerManifestSchema1,
       f_schema_version := 1, f_collected_at := Some now\<rparr>)"
  by (simp add: fetch_image_facts_def example_image_env_def example_reference_def collect_image_facts_from_registry_def
      populate_facts_from_manifest_def or_default_registry_def convert_to_layer_info_def no_descriptor_def no_facts_def Let_def)

theorem images_collected_witness:
  "\<exists>s fs. (image_step example_image_env [example_reference])\<^sup>*\<^sup>* (start_collection None [example_reference]) s \<and> collection_over s \<and>
     list_all2 (\<lambda>r f. facts_of example_image_env r f \<or> f = no_facts \<and> (\<exists>e. collection_fails example_image_env r e)) [example_reference] fs"
proof -
  let ?E = example_image_env and ?refs = "[example_reference]"
  let ?s0 = "start_collection None ?refs"
  let ?s1 = "begin_task 0 example_reference 0 ?s0"
  let ?s2 = "fetch_task ?E 1 2 example_reference 0 ?s1"
  obtain f where f: "cs_tasks ?s2 = [Collected (Ok f)]"
    by (simp add: fetch_task_def begin_task_def start_collection_def look_up_facts_def example_fetch)
  let ?s3 = "deliver_task example_reference 0 (Ok f) ?s2"
  have s1: "image_step ?E ?refs ?s0 ?s1"
    using image_step.look [of 0 ?refs ?s0 ?E 0]
    by (simp add: start_collection_def running_tasks_def max_concurrency_def example_image_env_def get_default_collection_options_def)
  have s2: "image_step ?E ?refs ?s1 ?s2"
    using image_step.fetch [of 0 ?refs ?s1 ?E 1 2]
    by (simp add: begin_task_def start_collection_def look_up_facts_def example_fetch)
  have s3: "image_step ?E ?refs ?s2 ?s3"
    using image_step.deliver [of 0 ?refs ?s2 "Ok f" ?E] by (simp add: f)
  have run: "(image_step ?E ?refs)\<^sup>*\<^sup>* ?s0 ?s3"
    using s1 s2 s3 by (meson converse_rtranclp_into_rtranclp rtranclp.rtrancl_refl)
  have over: "collection_over ?s3" by (simp add: collection_over_def deliver_task_def f)
  from images_collected [OF run over] run over show ?thesis by (force simp: cached_ok_def)
qed

section \<open>The end of a collection\<close>

fun steps_left :: "task \<Rightarrow> nat" where
  "steps_left Queued = 3"
| "steps_left Missed = 2"
| "steps_left (Collected r) = 1"
| "steps_left Delivered = 0"

definition work_left :: "collect_state \<Rightarrow> nat" where
  "work_left s = sum_list (map steps_left (cs_tasks s))"

lemma sum_list_update_less:
  "i < length ts \<Longrightarrow> m t < (m (ts ! i) :: nat) \<Longrightarrow> sum_list (map m (ts[i := t])) < sum_list (map m ts)"
  by (induction ts arbitrary: i) (auto split: nat.split simp: nth_Cons)

lemma image_step_less:
  assumes "image_step E refs s s'" and "length (cs_tasks s) = length refs"
  shows "work_left s' < work_left s"
  using assms
proof (induction rule: image_step.induct)
  case (look i s now)
  have "steps_left (case f of None \<Rightarrow> Missed | Some f \<Rightarrow> Collected (Ok f)) < steps_left (cs_tasks s ! i)" for f
    using look by (cases f) auto
  with look show ?case by (auto simp: work_left_def begin_task_def intro!: sum_list_update_less split: prod.split)
next
  case (fetch i s now later)
  then show ?case by (auto simp: work_left_def fetch_task_def Let_def intro!: sum_list_update_less)
next
  case (deliver i s r)
  then show ?case by (cases r) (auto simp: work_left_def deliver_task_def Let_def intro!: sum_list_update_less)
qed

lemma image_step_possible:
  assumes "length (cs_tasks s) = length refs" and "\<not> collection_over s" and "\<And>now r. r \<in> set refs \<Longrightarrow> \<not> is_panic (fetch_image_facts E now r)"
  shows "\<exists>s'. image_step E refs s s'"
proof (cases "running_tasks s < max_concurrency (ie_options E)")
  case True
  from assms(1,2) obtain i where i: "i < length refs" "cs_tasks s ! i \<noteq> Delivered"
    by (metis collection_over_def in_set_conv_nth)
  show ?thesis
  proof (cases "cs_tasks s ! i")
    case Queued
    with i True show ?thesis by (blast intro: image_step.look)
  next
    case Missed
    with i assms(3) show ?thesis by (meson image_step.fetch nth_mem)
  next
    case (Collected r)
    with i show ?thesis by (blast intro: image_step.deliver)
  qed (use i in simp)
next
  case False
  have "0 < max_concurrency (ie_options E)" by (simp add: max_concurrency_def DefaultMaxConcurrency_def)
  with False have "filter holds_semaphore (cs_tasks s) \<noteq> []" by (auto simp: running_tasks_def)
  then obtain t where "t \<in> set (cs_tasks s)" "holds_semaphore t" by (auto simp: filter_empty_conv)
  with assms(1) obtain i where i: "i < length refs" "cs_tasks s ! i = t" "holds_semaphore t" by (metis in_set_conv_nth)
  show ?thesis
  proof (cases t)
    case Missed
    with i assms(3) show ?thesis by (meson image_step.fetch nth_mem)
  next
    case (Collected r)
    with i show ?thesis by (blast intro: image_step.deliver)
  qed (use i in auto)
qed

text \<open>
  The collection takes at most three steps per reference and never has more goroutines at work than allowed; as
  long as no client panics it can go on until every result is delivered.
\<close>

theorem image_collection_ends:
  assumes "(image_step E refs ^^ n) (start_collection c refs) s" and "cached_ok E c"
    and "\<And>now r. r \<in> set refs \<Longrightarrow> \<not> is_panic (fetch_image_facts E now r)"
  shows "n \<le> 3 * length refs \<and> running_tasks s \<le> max_concurrency (ie_options E) \<and>
    (collection_over s \<or> (\<exists>s'. image_step E refs s s'))"
proof -
  have inv: "collect_inv E refs s" using assms(1,2) by (meson image_steps_inv relpowp_imp_rtranclp start_inv)
  have "n + work_left s \<le> work_left (start_collection c refs)"
    using assms(1)
  proof (induction n arbitrary: s)
    case (Suc n)
    then obtain t where t: "(image_step E refs ^^ n) (start_collection c refs) t" "image_step E refs t s" by auto
    then have "collect_inv E refs t" using assms(2) by (meson image_steps_inv relpowp_imp_rtranclp start_inv)
    with image_step_less [OF t(2)] Suc.IH [OF t(1)] show ?case by (simp add: collect_inv_def)
  qed simp
  moreover have "work_left (start_collection c refs) = 3 * length refs"
    by (simp add: work_left_def start_collection_def sum_list_replicate)
  ultimately show ?thesis using inv image_step_possible [of s refs E] assms(3) by (auto simp: collect_inv_def)
qed

theorem image_collection_ends_witness:
  "\<exists>s'. image_step example_image_env [example_reference] (start_collection None [example_reference]) s'"
proof -
  have "\<not> collection_over (start_collection None [example_reference])" by (simp add: collection_over_def start_collection_def)
  with image_collection_ends [of 0 example_image_env "[example_reference]" None "start_collection None [example_reference]"]
  show ?thesis by (simp add: cached_ok_def example_fetch)
qed

section \<open>Resolving tags\<close>

definition resolve_tag_to_digest :: "image_env \<Rightarrow> image_reference \<Rightarrow> string res" where
  "resolve_tag_to_digest E ir0 =
     (if ref_digest ir0 \<noteq> [] then Ok (ref_digest ir0)
      else
        let ir = (if ref_tag ir0 = [] then ir0\<lparr>ref_tag := DefaultTag\<rparr> else ir0);
            registry = or_default_registry (ref_registry ir);
            creds = resolver_credentials (opt_credentials (ie_options E)) registry
        in bind_res (wrap_res ''failed to create registry client'' (ie_client E registry creds)) (\<lambda>cl.
           bind_res (wrap_res ''failed to get manifest for digest resolution'' (client_manifest cl ir)) (\<lambda>m.
           case m of
             MList l \<Rightarrow>
               map_res (\<lambda>(d, _). d_digest d)
                 (wrap_res ''failed to find suitable manifest in list'' (get_manifest_for_platform get_default_platform l))
           | _ \<Rightarrow>
               bind_res (wrap_res ''failed to marshal manifest'' (ie_marshal E m)) (\<lambda>data.
                 wrap_res ''failed to compute manifest digest'' (compute_digest (ie_sha256 E) data)))))"

fun resolve_bulk_tags_to_digests :: "image_env \<Rightarrow> image_reference list \<Rightarrow> image_reference list res" where
  "resolve_bulk_tags_to_digests E [] = Ok []"
| "resolve_bulk_tags_to_digests E (r # rs) =
     (if ref_digest r \<noteq> [] then map_res (\<lambda>xs. r # xs) (resolve_bulk_tags_to_digests E rs)
      else case resolve_tag_to_digest E r of
             Ok d \<Rightarrow> map_res (\<lambda>xs. r\<lparr>ref_digest := d\<rparr> # xs) (resolve_bulk_tags_to_digests E rs)
           | Fail e \<Rightarrow>
               if opt_continue_on_error (ie_options E) then map_res (\<lambda>xs. r # xs) (resolve_bulk_tags_to_digests E rs)
               else Fail (Wrap (''failed to resolve digest for '' @ reference_string r) e)
           | Panic p \<Rightarrow> Panic p)"

definition prepared_references :: "image_env \<Rightarrow> image_reference list \<Rightarrow> image_reference list res" where
  "prepared_references E refs =
     (let normalized = map normalize_image_reference refs in
      case resolve_bulk_tags_to_digests E normalized of
        Fail e \<Rightarrow>
          if \<not> opt_continue_on_error (ie_options E) then Fail (Wrap ''failed to resolve image digests'' e) else Ok normalized
      | r \<Rightarrow> r)"

definition finish_facts :: "image_env \<Rightarrow> string \<Rightarrow> image_facts list \<times> go_error option \<Rightarrow> image_facts list res" where
  "finish_facts E source r =
     (case snd r of
        Some e \<Rightarrow>
          if \<not> opt_continue_on_error (ie_options E) then Fail (Wrap ''failed to collect image facts'' e)
          else Ok (map (\<lambda>f. f\<lparr>f_source := source\<rparr>) (fst r))
      | None \<Rightarrow> Ok (map (\<lambda>f. f\<lparr>f_source := source\<rparr>) (fst r)))"

inductive builds_facts ::
  "image_env \<Rightarrow> image_facts image_cache option \<Rightarrow> image_reference list \<Rightarrow> string \<Rightarrow> image_facts list res \<Rightarrow> bool" for E c where
  nothing: "builds_facts E c [] source (Ok [])"
| refused: "refs \<noteq> [] \<Longrightarrow> prepared_references E refs = Fail e \<Longrightarrow> builds_facts E c refs source (Fail e)"
| built: "refs \<noteq> [] \<Longrightarrow> prepared_references E refs = Ok rs \<Longrightarrow> (image_step E rs)\<^sup>*\<^sup>* (start_collection c rs) s \<Longrightarrow>
    collection_over s \<Longrightarrow> builds_facts E c refs source (finish_facts E source (collected_facts E s))"

fun parse_image_strings :: "image_env \<Rightarrow> string list \<Rightarrow> image_reference list res" where
  "parse_image_strings E [] = Ok []"
| "parse_image_strings E (t # ts) =
     (case parse_image_reference t of
        Ok r \<Rightarrow> map_res (\<lambda>rs. r # rs) (parse_image_strings E ts)
      | Fail e \<Rightarrow>
          if opt_continue_on_error (ie_options E) then parse_image_strings E ts
          else Fail (Errf ''failed to parse image references: %v'' [ie_render E (Wrap (''image '' @ t) e)])
      | Panic p \<Rightarrow> Panic p)"

text \<open>Resolving keeps the references, in their order, and adds digests.\<close>

lemma resolved_names:
  "resolve_bulk_tags_to_digests E rs = Ok xs \<Longrightarrow>
     list_all2 (\<lambda>r x. ref_registry x = ref_registry r \<and> ref_repository x = ref_repository r \<and> ref_tag x = ref_tag r \<and>
       (ref_digest r \<noteq> [] \<longrightarrow> x = r)) rs xs"
proof (induction rs arbitrary: xs)
  case (Cons r rs)
  then show ?case by (auto simp: res_simps split: if_splits res.splits)
qed simp

lemma resolve_continues:
  assumes "opt_continue_on_error (ie_options E)" and "\<And>r. r \<in> set rs \<Longrightarrow> \<not> is_panic (resolve_tag_to_digest E r)"
  shows "is_ok (resolve_bulk_tags_to_digests E rs)"
  using assms(2)
proof (induction rs)
  case (Cons r rs)
  then obtain xs where "resolve_bulk_tags_to_digests E rs = Ok xs" by (cases "resolve_bulk_tags_to_digests E rs") auto
  with Cons.prems [of r] assms(1) show ?case by (cases "resolve_tag_to_digest E r") auto
qed simp

lemma parse_image_strings_ok: "\<exists>rs. parse_image_strings E ts = Ok rs \<and> list_all2 (\<lambda>t r. parse_image_reference t = Ok r) ts rs"
proof (induction ts)
  case (Cons t ts)
  with parse_never_fails [of t] show ?case by auto
qed simp

section \<open>What is made of the facts\<close>

definition facts_key :: "image_facts \<Rightarrow> string" where
  "facts_key f = (if f_digest f \<noteq> [] then f_digest f else f_registry f @ ''/'' @ f_repository f @ '':'' @ f_tag f)"

definition deduplicate_image_facts :: "image_facts list \<Rightarrow> image_facts list" where
  "deduplicate_image_facts fs = (if length fs \<le> 1 then fs else dedup_from (\<lambda>f. Ok (facts_key f)) [] fs)"

type_synonym slice_sort = "(image_facts \<Rightarrow> image_facts \<Rightarrow> bool) \<Rightarrow> image_facts list \<Rightarrow> image_facts list"

definition sort_image_facts_by_size :: "slice_sort \<Rightarrow> image_facts list \<Rightarrow> image_facts list" where
  "sort_image_facts_by_size sort_slice fs = sort_slice (\<lambda>a b. sint (f_size a) > sint (f_size b)) fs"

definition sort_image_facts_by_name :: "slice_sort \<Rightarrow> image_facts list \<Rightarrow> image_facts list" where
  "sort_image_facts_by_name sort_slice fs = sort_slice (\<lambda>a b. f_repository a < f_repository b) fs"

definition filter_image_facts_by_registry :: "image_facts list \<Rightarrow> string list \<Rightarrow> image_facts list" where
  "filter_image_facts_by_registry fs allowed = (if allowed = [] then fs else filter (\<lambda>f. f_registry f \<in> set allowed) fs)"

definition facts_problems :: "(go_error \<Rightarrow> string) \<Rightarrow> image_facts \<Rightarrow> string list" where
  "facts_problems render f =
     (if f_repository f = [] then [''repository is required''] else []) @
     (if f_registry f = [] then [''registry is required''] else []) @
     (if f_tag f = [] \<and> f_digest f = [] then [''either tag or digest is required''] else []) @
     (if f_digest f \<noteq> [] then (case validate_digest (f_digest f) of Fail e \<Rightarrow> [''invalid digest: '' @ render e] | _ \<Rightarrow> []) else []) @
     (if architecture (f_platform f) = [] then [''platform architecture is required''] else []) @
     (if os_name (f_platform f) = [] then [''platform OS is required''] else []) @
     (if f_size f <s 0 then [''size cannot be negative''] else []) @
     (if f_collected_at f = None then [''collectedAt timestamp is required''] else [])"

definition validate_image_facts :: "(go_error \<Rightarrow> string) \<Rightarrow> image_facts \<Rightarrow> unit res" where
  "validate_image_facts render f =
     (let ps = facts_problems render f
      in if ps \<noteq> [] then Fail (Errf ''image facts validation failed: %s'' [join_with ''; '' ps]) else Ok ())"

record facts_summary =
  total_images :: nat
  unique_registries :: nat
  unique_repositories :: nat
  total_size :: "64 word"
  collection_errors :: nat

fun summary_loop :: "image_facts list \<Rightarrow> string set \<times> string set \<times> 64 word \<times> nat \<Rightarrow> string set \<times> string set \<times> 64 word \<times> nat" where
  "summary_loop [] acc = acc"
| "summary_loop (f # fs) (registries, repositories, sz, errs) =
     summary_loop fs
       (if f_registry f \<noteq> [] then insert (f_registry f) registries else registries,
        if f_repository f \<noteq> [] then insert (f_repository f) repositories else repositories,
        sz + f_size f,
        if f_error f \<noteq> [] then Suc errs else errs)"

definition get_image_facts_summary :: "image_facts list \<Rightarrow> facts_summary" where
  "get_image_facts_summary fs =
     (let (registries, repositories, sz, errs) = summary_loop fs ({}, {}, 0, 0)
      in \<lparr>total_images = length fs, unique_registries = card registries, unique_repositories = card repositories,
          total_size = sz, collection_errors = errs\<rparr>)"

record facts_bundle =
  bundle_version :: string
  bundle_namespace :: string
  bundle_facts :: "image_facts list"
  bundle_summary :: facts_summary

definition create_facts_bundle :: "string \<Rightarrow> image_facts list \<Rightarrow> facts_bundle" where
  "create_facts_bundle ns fs =
     \<lparr>bundle_version = ''v1'', bundle_namespace = ns, bundle_facts = fs, bundle_summary = get_image_facts_summary fs\<rparr>"

definition extract_unique_images :: "image_facts list \<Rightarrow> string list" where
  "extract_unique_images fs =
     sort (remdups (map (\<lambda>f. if f_digest f \<noteq> [] then f_registry f @ ''/'' @ f_repository f @ ''@'' @ f_digest f
                             else f_registry f @ ''/'' @ f_repository f @ '':'' @ f_tag f) fs))"

definition get_largest_images :: "slice_sort \<Rightarrow> image_facts list \<Rightarrow> int \<Rightarrow> image_facts list" where
  "get_largest_images sort_slice fs wanted =
     (if wanted \<le> 0 \<or> fs = [] then []
      else (let sorted = sort_image_facts_by_size sort_slice fs;
                n = (if wanted > int (length sorted) then length sorted else nat wanted)
            in take n sorted))"

fun get_images_by_registry :: "image_facts list \<Rightarrow> (string \<times> image_facts list) list \<Rightarrow> (string \<times> image_facts list) list" where
  "get_images_by_registry [] m = m"
| "get_images_by_registry (f # fs) m =
     (let registry = (if f_registry f = [] then ''unknown'' else f_registry f);
          old = (case map_of m registry of None \<Rightarrow> [] | Some xs \<Rightarrow> xs)
      in get_images_by_registry fs (AList.update registry (old @ [f]) m))"

definition get_failed_collections :: "image_facts list \<Rightarrow> image_facts list" where
  "get_failed_collections fs = filter (\<lambda>f. f_error f \<noteq> []) fs"

definition get_successful_collections :: "image_facts list \<Rightarrow> image_facts list" where
  "get_successful_collections fs = filter (\<lambda>f. f_error f = []) fs"

definition namespace_bundle :: "slice_sort \<Rightarrow> string \<Rightarrow> image_facts list \<Rightarrow> facts_bundle" where
  "namespace_bundle sort_slice ns fs =
     create_facts_bundle ns (sort_image_facts_by_size sort_slice (deduplicate_image_facts fs))"

inductive collects_namespace ::
  "image_env \<Rightarrow> slice_sort \<Rightarrow> (workload_kind \<Rightarrow> pod_spec_images list res) \<Rightarrow> string \<Rightarrow> facts_bundle res \<Rightarrow> bool"
  for E sort_slice listing ns where
  no_images: "extract_images_from_namespace listing = Ok [] \<Longrightarrow>
    collects_namespace E sort_slice listing ns (Ok (create_facts_bundle ns []))"
| images: "extract_images_from_namespace listing = Ok refs \<Longrightarrow> refs \<noteq> [] \<Longrightarrow>
    builds_facts E (new_image_collector_cache (ie_options E)) refs (''namespace/'' @ ns) r \<Longrightarrow>
    collects_namespace E sort_slice listing ns
      (map_res (namespace_bundle sort_slice ns) (wrap_res ''failed to build image facts'' r))"

text \<open>What the library promises of sorting a slice by a strict weak order.\<close>

definition sorts_slices :: "slice_sort \<Rightarrow> bool" where
  "sorts_slices sort_slice \<longleftrightarrow>
     (\<forall>(key :: image_facts \<Rightarrow> int) fs. mset (sort_slice (\<lambda>a b. key a > key b) fs) = mset fs \<and>
        sorted_wrt (\<lambda>a b. key a \<ge> key b) (sort_slice (\<lambda>a b. key a > key b) fs))"

lemma summary_loop_spec:
  "summary_loop fs (A, B, n, k) =
     (A \<union> (f_registry ` set fs - {[]}), B \<union> (f_repository ` set fs - {[]}), n + sum_list (map f_size fs),
      k + length (get_failed_collections fs))"
  by (induction fs arbitrary: A B n k) (auto simp: get_failed_collections_def)

text \<open>
  The summary of a bundle counts its facts: their number, the different registries and repositories that are named, the
  sum of the sizes modulo two to the 64th, and the failed collections, which with the successful ones make up all.
\<close>

theorem summary_counts:
  "get_image_facts_summary fs =
     \<lparr>total_images = length fs, unique_registries = card (f_registry ` set fs - {[]}),
      unique_repositories = card (f_repository ` set fs - {[]}), total_size = sum_list (map f_size fs),
      collection_errors = length (get_failed_collections fs)\<rparr> \<and>
   length (get_failed_collections fs) + length (get_successful_collections fs) = length fs"
  using sum_length_filter_compl [of "\<lambda>f. f_error f \<noteq> []" fs]
  by (simp add: get_image_facts_summary_def summary_loop_spec get_failed_collections_def get_successful_collections_def)

text \<open>
  The largest images are as many as asked for, or all; they are among the facts, and no image that is left
  out is larger.
\<close>

theorem largest_images:
  assumes "sorts_slices sort_slice" and "0 < wanted"
  shows "length (get_largest_images sort_slice fs wanted) = min (nat wanted) (length fs) \<and>
    mset (get_largest_images sort_slice fs wanted) \<subseteq># mset fs \<and>
    (\<forall>a\<in>set (get_largest_images sort_slice fs wanted).
       \<forall>b\<in>#mset fs - mset (get_largest_images sort_slice fs wanted). sint (f_size b) \<le> sint (f_size a))"
proof -
  define xs where "xs = sort_image_facts_by_size sort_slice fs"
  have xs: "mset xs = mset fs" "sorted_wrt (\<lambda>a b. sint (f_size a) \<ge> sint (f_size b)) xs"
    using assms(1) by (simp_all add: xs_def sort_image_facts_by_size_def sorts_slices_def)
  have len: "length xs = length fs" using xs(1) by (metis size_mset)
  define n where "n = min (nat wanted) (length fs)"
  have "get_largest_images sort_slice fs wanted = take n xs"
    using assms(2) len by (auto simp: get_largest_images_def xs_def [symmetric] n_def Let_def min_def)
  moreover have "mset fs - mset (take n xs) = mset (drop n xs)"
    unfolding xs(1) [symmetric] by (metis add_diff_cancel_left' append_take_drop_id mset_append)
  moreover have "mset (take n xs) \<subseteq># mset fs"
    unfolding xs(1) [symmetric] by (metis append_take_drop_id mset_append mset_subset_eq_add_left)
  moreover have "\<forall>a\<in>set (take n xs). \<forall>b\<in>set (drop n xs). sint (f_size b) \<le> sint (f_size a)"
    using xs(2) by (metis append_take_drop_id sorted_wrt_append)
  ultimately show ?thesis using len by (simp add: n_def)
qed

definition insertion_sort_slice :: slice_sort where
  "insertion_sort_slice before fs =
     foldr (\<lambda>x xs. takeWhile (\<lambda>y. before y x) xs @ x # dropWhile (\<lambda>y. before y x) xs) fs []"

lemma insertion_sorts: "sorts_slices insertion_sort_slice"
proof -
  have "mset (insertion_sort_slice (\<lambda>a b. key a > key b) fs) = mset fs \<and>
      sorted_wrt (\<lambda>a b. key a \<ge> key b) (insertion_sort_slice (\<lambda>a b. key a > key b) fs)" for key :: "image_facts \<Rightarrow> int" and fs
  proof (induction fs)
    case (Cons x fs)
    define ys where "ys = insertion_sort_slice (\<lambda>a b. key a > key b) fs"
    let ?P = "\<lambda>y. key y > key x"
    have IH: "mset ys = mset fs" "sorted_wrt (\<lambda>a b. key a \<ge> key b) ys" using Cons by (simp_all add: ys_def)
    have split: "takeWhile ?P ys @ dropWhile ?P ys = ys" by simp
    from IH(2) have parts: "sorted_wrt (\<lambda>a b. key a \<ge> key b) (takeWhile ?P ys @ dropWhile ?P ys)" by simp
    have low: "\<forall>z\<in>set (dropWhile ?P ys). key z \<le> key x"
    proof (cases "dropWhile ?P ys")
      case (Cons w ws)
      then have "\<not> ?P w" by (simp add: dropWhile_eq_Cons_conv)
      with parts Cons show ?thesis by (fastforce simp: sorted_wrt_append)
    next
      case Nil
      show ?thesis unfolding Nil by simp
    qed
    have high: "\<forall>z\<in>set (takeWhile ?P ys). key x \<le> key z" by (metis less_imp_le set_takeWhileD)
    have step: "insertion_sort_slice (\<lambda>a b. key a > key b) (x # fs) = takeWhile ?P ys @ x # dropWhile ?P ys"
      by (simp add: insertion_sort_slice_def ys_def)
    have "mset (takeWhile ?P ys) + mset (dropWhile ?P ys) = mset fs" using IH(1) split by (metis mset_append)
    moreover have "sorted_wrt (\<lambda>a b. key a \<ge> key b) (takeWhile ?P ys)" "sorted_wrt (\<lambda>a b. key a \<ge> key b) (dropWhile ?P ys)"
      using parts unfolding sorted_wrt_append by blast+
    ultimately show ?case unfolding step using low high by (auto simp: sorted_wrt_append intro: order_trans)
  qed (simp add: insertion_sort_slice_def)
  then show ?thesis by (simp add: sorts_slices_def)
qed

theorem largest_images_witness:
  "length (get_largest_images insertion_sort_slice [no_facts, no_facts\<lparr>f_size := 5\<rparr>] 1) = 1"
  using largest_images [OF insertion_sorts, of 1 "[no_facts, no_facts\<lparr>f_size := 5\<rparr>]"] by simp

text \<open>
  Facts are valid exactly when they name a registry, a repository and a tag or a digest, the digest is
  well-formed, the platform is known, the size is not negative and they have a time; so the facts that stand in for an image
  whose collection failed are never valid.
\<close>

theorem facts_validity:
  "(validate_image_facts render f = Ok () \<longleftrightarrow>
      f_repository f \<noteq> [] \<and> f_registry f \<noteq> [] \<and> (f_tag f \<noteq> [] \<or> f_digest f \<noteq> []) \<and>
      (f_digest f = [] \<or> validate_digest (f_digest f) = Ok ()) \<and> architecture (f_platform f) \<noteq> [] \<and>
      os_name (f_platform f) \<noteq> [] \<and> 0 \<le> sint (f_size f) \<and> f_collected_at f \<noteq> None) \<and>
   validate_image_facts render (partial_facts E now ir e) \<noteq> Ok ()"
proof -
  have digest: "\<not> is_panic (validate_digest d)" for d
    by (auto simp: validate_digest_def split: prod.split option.split)
  have sign: "f_size f <s 0 \<longleftrightarrow> \<not> 0 \<le> sint (f_size f)" by (simp add: word_sless_alt not_le)
  show ?thesis
    using digest [of "f_digest f"]
    by (cases "validate_digest (f_digest f)")
      (auto simp: validate_image_facts_def facts_problems_def Let_def sign partial_facts_def no_facts_def no_platform_def)
qed

text \<open>
  Grouping by registry keeps every fact: the images under a registry are those of the facts that name it, in their
  order, and those without a registry are under \<^verbatim>\<open>unknown\<close>.
\<close>

theorem images_by_registry:
  "(case map_of (get_images_by_registry fs []) g of None \<Rightarrow> [] | Some xs \<Rightarrow> xs) =
     filter (\<lambda>f. (if f_registry f = [] then ''unknown'' else f_registry f) = g) fs"
proof -
  have "(case map_of (get_images_by_registry fs m) g of None \<Rightarrow> [] | Some xs \<Rightarrow> xs) =
      (case map_of m g of None \<Rightarrow> [] | Some xs \<Rightarrow> xs) @ filter (\<lambda>f. (if f_registry f = [] then ''unknown'' else f_registry f) = g) fs" for m
    by (induction fs arbitrary: m) (auto simp: Let_def update_conv' split: option.splits)
  from this [of "[]"] show ?thesis by simp
qed

end
