(* ===== verification/Engine.thy ===== *)
theory Engine
  imports Analysis
begin

text \<open>
  The analysis engine (\<^verbatim>\<open>pkg/analyze/engine.go\<close>): the registry of agents, the conversion of custom analyzers, the run of
  all agents over a bundle with its summary, the analyzers generated from requirements, and the health of the
  agents. An agent is what its methods answer; a nil pointer is \<open>None\<close>; the map of agents is the list of its entries in the
  order a range visits them. Floats, the encoding of a bundle and the text of an error are parameters. Spans,
  timestamps and durations are left out; results agents return are not shared between them.
\<close>

section \<open>Results\<close>

record 'f float_ops =
  fl_zero :: 'f
  fl_one :: 'f
  fl_positive :: "'f \<Rightarrow> bool"
  fl_add :: "'f \<Rightarrow> 'f \<Rightarrow> 'f"
  fl_over :: "'f \<Rightarrow> nat \<Rightarrow> 'f"

record remediation_step =
  rs_description :: string
  rs_action :: string
  rs_command :: string
  rs_priority :: int
  rs_category :: string
  rs_automatable :: bool

record 'f engine_result =
  er_pass :: bool
  er_fail :: bool
  er_warn :: bool
  er_strict :: bool
  er_title :: string
  er_message :: string
  er_agent_name :: string
  er_confidence :: 'f
  er_category :: string
  er_remediation :: "remediation_step option"

record 'f agent_result =
  ar_results :: "'f engine_result option list"
  ar_errors :: "string list"

record analysis_error =
  ae_agent :: string
  ae_error :: string
  ae_category :: string
  ae_recoverable :: bool

record agent_metadata =
  am_name :: string
  am_capabilities :: "string list"
  am_result_count :: nat
  am_error_count :: nat

record 'f analysis_summary =
  total_analyzers :: nat
  pass_count :: nat
  warn_count :: nat
  fail_count :: nat
  error_count :: nat
  summary_confidence :: 'f
  agents_used :: "string list"

record 'f analysis_result =
  ar_all :: "'f engine_result list"
  ar_remediation :: "remediation_step list"
  ar_summary :: "'f analysis_summary"
  ar_agents :: "agent_metadata list"
  ar_problems :: "analysis_error list"

section \<open>Specs of analyzers\<close>

text \<open>The configuration of an analyzer; only the namespace of a deployment status is read here.\<close>

record analyzer_config =
  cfg_namespace :: string
  cfg_rest :: string

type_synonym custom_analyzer = "(akind \<times> analyzer_config) list option"

record resource_requirement =
  res_min :: string
  res_max :: string

record port_requirement =
  port_number :: int
  port_protocol :: string
  port_required :: bool

datatype config_value =
    CAnalyzer akind analyzer_config
  | CText string
  | CTexts "string list"
  | CResource resource_requirement
  | CPorts "port_requirement list"
  | CContext string

record analyzer_spec =
  as_name :: string
  as_type :: string
  as_config :: "(string \<times> config_value) list"
  as_priority :: int
  as_category :: string

text \<open>The cases of the switch, in its order, with the name and type each gives.\<close>

definition conversion_table :: "(akind \<times> string \<times> string) list" where
  "conversion_table =
     [(AClusterVersion, ''cluster-version'', ''cluster''), (AContainerRuntime, ''container-runtime'', ''cluster''),
      (ADistribution, ''distribution'', ''cluster''), (ANodeResources, ''node-resources'', ''cluster''),
      (ANodeMetrics, ''node-metrics'', ''cluster''), (ADeploymentStatus, ''deployment-status'', ''workload''),
      (AStatefulsetStatus, ''statefulset-status'', ''workload''), (AJobStatus, ''job-status'', ''workload''),
      (AReplicaSetStatus, ''replicaset-status'', ''workload''), (AClusterPodStatuses, ''cluster-pod-statuses'', ''workload''),
      (AClusterContainerStatuses, ''cluster-container-statuses'', ''workload''), (ASecret, ''secret'', ''configuration''),
      (AConfigMap, ''configmap'', ''configuration''), (AImagePullSecret, ''image-pull-secret'', ''configuration''),
      (AStorageClass, ''storage-class'', ''configuration''), (ACustomResourceDefinition, ''crd'', ''configuration''),
      (AClusterResource, ''cluster-resource'', ''configuration''), (AIngress, ''ingress'', ''network''),
      (AHTTP, ''http'', ''network''), (ATextAnalyze, ''text-analyze'', ''data''), (AYamlCompare, ''yaml-compare'', ''data''),
      (AJsonCompare, ''json-compare'', ''data''), (APostgres, ''postgres'', ''database''), (AMysql, ''mysql'', ''database''),
      (AMssql, ''mssql'', ''database''), (ARedis, ''redis'', ''database''), (ACephStatus, ''ceph-status'', ''storage''),
      (ALonghorn, ''longhorn'', ''storage''), (AVelero, ''velero'', ''storage''),
      (ARegistryImages, ''registry-images'', ''infrastructure''), (AWeaveReport, ''weave-report'', ''infrastructure''),
      (AGoldpinger, ''goldpinger'', ''infrastructure''), (ASysctl, ''sysctl'', ''infrastructure''),
      (ACertificates, ''certificates'', ''infrastructure''), (AEvent, ''event'', ''infrastructure'')]"

definition file_path_config :: "akind \<Rightarrow> analyzer_config \<Rightarrow> (string \<times> config_value) list" where
  "file_path_config k c =
     (if k = ANodeResources then [(''filePath'', CText ''cluster-resources/nodes.json'')]
      else if k = ADeploymentStatus then
        [(''filePath'', CText (if cfg_namespace c \<noteq> [] then ''cluster-resources/deployments/'' @ cfg_namespace c @ ''.json''
                               else ''cluster-resources/deployments.json''))]
      else [])"

definition convert_analyzer_to_spec :: "custom_analyzer \<Rightarrow> analyzer_spec res" where
  "convert_analyzer_to_spec a =
     (case a of
        None \<Rightarrow> Fail (Err ''analyzer cannot be nil'')
      | Some s \<Rightarrow>
          (case List.find (\<lambda>(k, _). map_of s k \<noteq> None) conversion_table of
             None \<Rightarrow> Fail (Err ''unknown analyzer type - this should not happen ags all known types are now supported'')
           | Some (k, name, type) \<Rightarrow>
               (case map_of s k of
                  None \<Rightarrow> Panic nil_pointer
                | Some c \<Rightarrow>
                    Ok \<lparr>as_name = name, as_type = type, as_config = (''analyzer'', CAnalyzer k c) # file_path_config k c,
                        as_priority = 0, as_category = []\<rparr>)))"

text \<open>The kind of analyzer a switch with its cases in this order picks.\<close>

definition first_kind :: "akind list \<Rightarrow> (akind \<times> 'c) list \<Rightarrow> akind option" where
  "first_kind order s = List.find (\<lambda>k. map_of s k \<noteq> None) order"

definition spec_kind_of :: "analyzer_spec \<Rightarrow> akind option" where
  "spec_kind_of sp = (case map_of (as_config sp) ''analyzer'' of Some (CAnalyzer k c) \<Rightarrow> Some k | _ \<Rightarrow> None)"

section \<open>Agents\<close>

record 'f agent =
  ag_name :: string
  ag_analyze :: "string \<Rightarrow> analyzer_spec list \<Rightarrow> 'f agent_result option res"
  ag_health :: "unit res"
  ag_capabilities :: "string list"
  ag_available :: bool

record 'f engine =
  eng_agents :: "(string \<times> 'f agent) list"
  eng_default_agents :: "string list"

definition new_analysis_engine :: "'f engine" where
  "new_analysis_engine = \<lparr>eng_agents = [], eng_default_agents = [''local'']\<rparr>"

definition register_agent :: "string \<Rightarrow> 'f agent option \<Rightarrow> 'f engine \<Rightarrow> 'f engine res" where
  "register_agent name ag e =
     (if name = [] then Fail (Err ''agent name cannot be empty'')
      else case ag of
             None \<Rightarrow> Fail (Err ''agent cannot be nil'')
           | Some a \<Rightarrow>
               if map_of (eng_agents e) name \<noteq> None then Fail (Errf ''agent %s already registered'' [name])
               else Ok (e\<lparr>eng_agents := (name, a) # eng_agents e\<rparr>))"

definition get_agent :: "string \<Rightarrow> 'f engine \<Rightarrow> 'f agent option" where
  "get_agent name e = map_of (eng_agents e) name"

definition list_agents :: "'f engine \<Rightarrow> string list" where
  "list_agents e = map fst (eng_agents e)"

fun available_agents :: "'f engine \<Rightarrow> string list \<Rightarrow> 'f agent list res" where
  "available_agents e [] = Ok []"
| "available_agents e (n # ns) =
     (case get_agent n e of
        None \<Rightarrow> Fail (Errf ''agent %s not registered'' [n])
      | Some a \<Rightarrow> if \<not> ag_available a then available_agents e ns else map_res (\<lambda>ags. a # ags) (available_agents e ns))"

definition run_agent_analysis :: "string \<Rightarrow> analyzer_spec list \<Rightarrow> 'f agent \<Rightarrow> ('f engine_result list \<times> string list) res" where
  "run_agent_analysis data specs a =
     (case ag_analyze a data specs of
        Fail e \<Rightarrow> Fail (Wrap (''agent '' @ ag_name a @ '' analysis failed'') e)
      | Panic p \<Rightarrow> Panic p
      | Ok None \<Rightarrow> Panic nil_pointer
      | Ok (Some r) \<Rightarrow>
          map_res (\<lambda>rs. (rs, ar_errors r))
            (map_m (\<lambda>x. case x of None \<Rightarrow> Panic nil_pointer | Some x \<Rightarrow> Ok (x\<lparr>er_agent_name := ag_name a\<rparr>)) (ar_results r)))"

text \<open>Custom analyzers that do not convert become failed results.\<close>

definition conversion_failure :: "'f float_ops \<Rightarrow> (go_error \<Rightarrow> string) \<Rightarrow> nat \<Rightarrow> go_error \<Rightarrow> 'f engine_result" where
  "conversion_failure F render i e =
     \<lparr>er_pass = False, er_fail = True, er_warn = False, er_strict = False,
      er_title = ''Custom Analyzer '' @ show_nat i @ '' - Conversion Failed'',
      er_message = ''Failed to convert analyzer to supported format: '' @ render e, er_agent_name = ''analyzer-converter'',
      er_confidence = fl_one F, er_category = ''configuration'', er_remediation = None\<rparr>"

fun convert_custom ::
  "'f float_ops \<Rightarrow> (go_error \<Rightarrow> string) \<Rightarrow> nat \<Rightarrow> custom_analyzer list \<Rightarrow> (analyzer_spec list \<times> 'f engine_result list) res" where
  "convert_custom F render i [] = Ok ([], [])"
| "convert_custom F render i (a # ags) =
     (case convert_analyzer_to_spec a of
        Ok sp \<Rightarrow> map_res (\<lambda>(sps, fs). (sp # sps, fs)) (convert_custom F render (Suc i) ags)
      | Fail e \<Rightarrow> map_res (\<lambda>(sps, fs). (sps, conversion_failure F render i e # fs)) (convert_custom F render (Suc i) ags)
      | Panic p \<Rightarrow> Panic p)"

record 'f run_state =
  run_results :: "'f engine_result list"
  run_errors :: "analysis_error list"
  run_agents :: "agent_metadata list"
  run_used :: "string list"

definition agent_error :: "'f agent \<Rightarrow> string \<Rightarrow> string \<Rightarrow> analysis_error" where
  "agent_error a category e = \<lparr>ae_agent = ag_name a, ae_error = e, ae_category = category, ae_recoverable = True\<rparr>"

definition add_run ::
  "'f agent \<Rightarrow> 'f engine_result list \<Rightarrow> analysis_error list \<Rightarrow> nat \<Rightarrow> nat \<Rightarrow> 'f run_state \<Rightarrow> 'f run_state" where
  "add_run a rs es n m s =
     s\<lparr>run_results := run_results s @ rs, run_errors := run_errors s @ es,
       run_agents := run_agents s @ [\<lparr>am_name = ag_name a, am_capabilities = ag_capabilities a, am_result_count = n,
         am_error_count = m\<rparr>],
       run_used := run_used s @ [ag_name a]\<rparr>"

fun run_agents_loop ::
  "(go_error \<Rightarrow> string) \<Rightarrow> string \<Rightarrow> analyzer_spec list \<Rightarrow> 'f agent list \<Rightarrow> 'f run_state \<Rightarrow> 'f run_state res" where
  "run_agents_loop render data specs [] s = Ok s"
| "run_agents_loop render data specs (a # ags) s =
     (case run_agent_analysis data specs a of
        Fail e \<Rightarrow> run_agents_loop render data specs ags (add_run a [] [agent_error a ''agent_execution'' (render e)] 0 1 s)
      | Ok (rs, errs) \<Rightarrow>
          run_agents_loop render data specs ags
            (add_run a rs (map (agent_error a ''analyzer_execution'') errs) (length rs) (length errs) s)
      | Panic p \<Rightarrow> Panic p)"

fun summary_step :: "'f float_ops \<Rightarrow> 'f engine_result \<Rightarrow> 'f analysis_summary \<times> 'f \<times> nat \<Rightarrow> 'f analysis_summary \<times> 'f \<times> nat" where
  "summary_step F r (s, csum, n) =
     (let s1 = (if er_pass r then s\<lparr>pass_count := Suc (pass_count s)\<rparr>
                else if er_warn r then s\<lparr>warn_count := Suc (warn_count s)\<rparr>
                else if er_fail r then s\<lparr>fail_count := Suc (fail_count s)\<rparr> else s)
      in if fl_positive F (er_confidence r) then (s1, fl_add F csum (er_confidence r), Suc n) else (s1, csum, n))"

definition calculate_summary :: "'f float_ops \<Rightarrow> 'f run_state \<Rightarrow> 'f analysis_summary" where
  "calculate_summary F s =
     (let s0 = \<lparr>total_analyzers = length (run_results s), pass_count = 0, warn_count = 0, fail_count = 0, error_count = 0,
                summary_confidence = fl_zero F, agents_used = run_used s\<rparr>;
          (s1, csum, n) = fold (summary_step F) (run_results s) (s0, fl_zero F, 0);
          s2 = s1\<lparr>error_count := length (run_errors s)\<rparr>
      in if n > 0 then s2\<lparr>summary_confidence := fl_over F csum n\<rparr> else s2)"

fun generate_remediation :: "'f engine_result list \<Rightarrow> remediation_step list" where
  "generate_remediation [] = []"
| "generate_remediation (r # rs) =
     (case (er_fail r, er_remediation r) of
        (True, Some st) \<Rightarrow> st # generate_remediation rs
      | _ \<Rightarrow> generate_remediation rs)"

record analysis_options =
  opt_agents :: "string list"
  opt_include_remediation :: bool
  opt_custom_analyzers :: "custom_analyzer list"

definition engine_analyze ::
  "'f float_ops \<Rightarrow> (go_error \<Rightarrow> string) \<Rightarrow> 'f engine \<Rightarrow> string res option \<Rightarrow> analysis_options \<Rightarrow> 'f analysis_result res" where
  "engine_analyze F render e bundle_json opts =
     (case bundle_json of
        None \<Rightarrow> Fail (Err ''bundle cannot be nil'')
      | Some marshalled \<Rightarrow>
          bind_res (available_agents e (if opt_agents opts = [] then eng_default_agents e else opt_agents opts)) (\<lambda>agents.
          if agents = [] then Fail (Err ''no available agents found'')
          else
            bind_res (wrap_res ''failed to marshal bundle data'' marshalled) (\<lambda>data.
            bind_res (convert_custom F render 0 (opt_custom_analyzers opts)) (\<lambda>(specs, failures).
            bind_res (run_agents_loop render data specs agents
                \<lparr>run_results = [], run_errors = [], run_agents = [], run_used = []\<rparr>) (\<lambda>s.
              let s1 = s\<lparr>run_results := run_results s @ failures\<rparr>
              in Ok \<lparr>ar_all = run_results s1,
                     ar_remediation = (if opt_include_remediation opts then generate_remediation (run_results s1) else []),
                     ar_summary = calculate_summary F s1, ar_agents = run_agents s1, ar_problems = run_errors s1\<rparr>)))))"

section \<open>Requirements\<close>

record kubernetes_requirements =
  min_version :: string
  max_version :: string
  required_features :: "string list"
  forbidden_features :: "string list"

record resource_requirements =
  rr_cpu :: resource_requirement
  rr_memory :: resource_requirement
  rr_disk :: resource_requirement

record storage_requirements =
  storage_classes :: "string list"
  min_capacity :: string
  access_modes :: "string list"

record network_requirements =
  network_ports :: "port_requirement list"
  connectivity :: "string list"

record custom_requirement =
  custom_name :: string
  custom_type :: string
  custom_condition :: string
  custom_context :: string

record requirement_spec =
  req_kubernetes :: kubernetes_requirements
  req_resources :: resource_requirements
  req_storage :: storage_requirements
  req_network :: network_requirements
  req_custom :: "custom_requirement list"

definition kubernetes_spec :: "kubernetes_requirements \<Rightarrow> analyzer_spec" where
  "kubernetes_spec k =
     \<lparr>as_name = ''kubernetes-version-check'', as_type = ''cluster'',
      as_config = [(''minVersion'', CText (min_version k)), (''maxVersion'', CText (max_version k))],
      as_priority = 10, as_category = ''kubernetes''\<rparr>"

definition resources_spec :: "resource_requirements \<Rightarrow> analyzer_spec" where
  "resources_spec r =
     \<lparr>as_name = ''resource-requirements-check'', as_type = ''resources'',
      as_config = [(''cpu'', CResource (rr_cpu r)), (''memory'', CResource (rr_memory r)), (''disk'', CResource (rr_disk r))],
      as_priority = 8, as_category = ''capacity''\<rparr>"

definition storage_spec :: "storage_requirements \<Rightarrow> analyzer_spec" where
  "storage_spec r =
     \<lparr>as_name = ''storage-class-check'', as_type = ''storage'',
      as_config = [(''classes'', CTexts (storage_classes r)), (''minCapacity'', CText (min_capacity r)),
        (''accessModes'', CTexts (access_modes r))],
      as_priority = 6, as_category = ''storage''\<rparr>"

definition network_spec :: "network_requirements \<Rightarrow> analyzer_spec" where
  "network_spec r =
     \<lparr>as_name = ''network-connectivity-check'', as_type = ''network'',
      as_config = [(''ports'', CPorts (network_ports r)), (''connectivity'', CTexts (connectivity r))],
      as_priority = 7, as_category = ''networking''\<rparr>"

definition custom_spec :: "custom_requirement \<Rightarrow> analyzer_spec" where
  "custom_spec c =
     \<lparr>as_name = custom_name c, as_type = custom_type c,
      as_config = [(''condition'', CText (custom_condition c)), (''context'', CContext (custom_context c))],
      as_priority = 5, as_category = ''custom''\<rparr>"

definition generate_analyzers :: "requirement_spec option \<Rightarrow> analyzer_spec list res" where
  "generate_analyzers requirements =
     (case requirements of
        None \<Rightarrow> Fail (Err ''requirements cannot be nil'')
      | Some q \<Rightarrow>
          let k = req_kubernetes q; r = req_resources q; st = req_storage q; n = req_network q in
          Ok ((if min_version k \<noteq> [] \<or> max_version k \<noteq> [] then [kubernetes_spec k] else []) @
              (if res_min (rr_cpu r) \<noteq> [] \<or> res_min (rr_memory r) \<noteq> [] then [resources_spec r] else []) @
              (if storage_classes st \<noteq> [] then [storage_spec st] else []) @
              (if network_ports n \<noteq> [] then [network_spec n] else []) @
              map custom_spec (req_custom q)))"

section \<open>Health\<close>

record agent_health =
  ah_name :: string
  ah_status :: string
  ah_error :: string
  ah_available :: bool

record engine_health =
  eh_status :: string
  eh_agents :: "agent_health list"

fun health_loop :: "(go_error \<Rightarrow> string) \<Rightarrow> (string \<times> 'f agent) list \<Rightarrow> agent_health list \<times> bool \<Rightarrow> (agent_health list \<times> bool) res" where
  "health_loop render [] acc = Ok acc"
| "health_loop render ((name, a) # ags) (hs, unhealthy) =
     (case ag_health a of
        Fail e \<Rightarrow>
          health_loop render ags (hs @ [\<lparr>ah_name = name, ah_status = ''unhealthy'', ah_error = render e, ah_available = ag_available a\<rparr>], True)
      | Ok _ \<Rightarrow>
          health_loop render ags (hs @ [\<lparr>ah_name = name, ah_status = ''healthy'', ah_error = [], ah_available = ag_available a\<rparr>], unhealthy)
      | Panic p \<Rightarrow> Panic p)"

definition health_check :: "(go_error \<Rightarrow> string) \<Rightarrow> 'f engine \<Rightarrow> engine_health res" where
  "health_check render e =
     map_res (\<lambda>(hs, unhealthy). \<lparr>eh_status = (if unhealthy then ''degraded'' else ''healthy''), eh_agents = hs\<rparr>)
       (health_loop render (eng_agents e) ([], False))"

section \<open>The registry\<close>

locale registry =
  fixes register :: "string \<Rightarrow> 'a option \<Rightarrow> 'e \<Rightarrow> 'e res"
    and lookup :: "string \<Rightarrow> 'e \<Rightarrow> 'a option"
  assumes registered: "register n b e = Ok e' \<Longrightarrow> b \<noteq> None \<and> lookup n e = None \<and> lookup n e' = b"
    and others_kept: "register n b e = Ok e' \<Longrightarrow> m \<noteq> n \<Longrightarrow> lookup m e' = lookup m e"
    and free_name: "n \<noteq> [] \<Longrightarrow> lookup n e = None \<Longrightarrow> is_ok (register n (Some a) e)"
begin

fun register_all :: "(string \<times> 'a option) list \<Rightarrow> 'e \<Rightarrow> 'e" where
  "register_all [] e = e"
| "register_all ((n, a) # rs) e = register_all rs (case register n a e of Ok e' \<Rightarrow> e' | _ \<Rightarrow> e)"

lemma stays: "lookup n e = Some a \<Longrightarrow> lookup n (register_all rs e) = Some a"
proof (induction rs arbitrary: e)
  case (Cons r rs)
  obtain m b where r: "r = (m, b)" by fastforce
  have "lookup n (case register m b e of Ok e' \<Rightarrow> e' | _ \<Rightarrow> e) = Some a"
  proof (cases "register m b e")
    case (Ok e')
    with registered [OF Ok] others_kept [OF Ok, of n] Cons.prems show ?thesis by (cases "n = m") auto
  qed (use Cons.prems in simp_all)
  from Cons.IH [OF this] r show ?case by simp
qed simp

lemma first_wins:
  assumes "n \<noteq> []" and "lookup n e = None"
  shows "lookup n (register_all ((n, Some a) # rs) e) = Some a"
proof -
  from free_name [OF assms, of a] obtain e' where "register n (Some a) e = Ok e'" by (cases "register n (Some a) e") auto
  with registered [OF this] stays show ?thesis by simp
qed

end

interpretation agents: registry register_agent get_agent
  by unfold_locales (auto simp: register_agent_def get_agent_def split: if_splits option.splits)

section \<open>Conversion\<close>

lemma conversion_kinds: "set (map fst conversion_table) = set analyzer_order"
  by (simp add: conversion_table_def analyzer_order_def) blast

lemma all_kinds: "k \<in> set analyzer_order"
  by (cases k) (simp_all add: analyzer_order_def)

lemma find_map_fst:
  "List.find P (map fst xs) = map_option fst (List.find (\<lambda>(k, _). P k) xs)"
  by (induction xs) auto

lemma first_kind_None: "set order = set analyzer_order \<Longrightarrow> first_kind order s = None \<longleftrightarrow> s = []"
  using all_kinds by (cases s) (auto simp: first_kind_def find_None_iff map_of_eq_None_iff)

lemma first_kind_single: "set order = set analyzer_order \<Longrightarrow> first_kind order [(k, c)] = Some k"
  using first_kind_None [of order "[(k, c)]"] by (auto simp: first_kind_def find_Some_iff split: if_splits)

lemma convert_some:
  "(first_kind (map fst conversion_table) s = None \<longrightarrow> (\<exists>e. convert_analyzer_to_spec (Some s) = Fail e)) \<and>
   (first_kind (map fst conversion_table) s = Some k \<longrightarrow>
      (\<exists>sp. convert_analyzer_to_spec (Some s) = Ok sp \<and> spec_kind_of sp = Some k))"
proof (cases "List.find (\<lambda>(k, _). map_of s k \<noteq> None) conversion_table")
  case None
  then show ?thesis by (simp add: first_kind_def find_map_fst convert_analyzer_to_spec_def)
next
  case (Some e)
  obtain j n t where e: "e = (j, n, t)" by (cases e) auto
  with Some have "map_of s j \<noteq> None" by (auto simp: find_Some_iff)
  then obtain c where "map_of s j = Some c" by auto
  with Some e show ?thesis
    by (auto simp: first_kind_def find_map_fst convert_analyzer_to_spec_def spec_kind_of_def)
qed

text \<open>
  Every kind of analyzer converts: conversion fails exactly for a nil entry and for one without an analyzer. It
  picks the first kind in the order of its own switch; for an entry of one analyzer that is the one the direct analysis
  runs, and for an entry of two it need not be.
\<close>

theorem conversion_meaning:
  "(is_ok (convert_analyzer_to_spec a) \<longleftrightarrow> (\<exists>s. a = Some s \<and> s \<noteq> [])) \<and>
   \<not> is_panic (convert_analyzer_to_spec a) \<and>
   map_res spec_kind_of (convert_analyzer_to_spec (Some [(k, c)])) = Ok (first_kind analyzer_order [(k, c)]) \<and>
   map_res spec_kind_of (convert_analyzer_to_spec (Some [(AStorageClass, c), (AContainerRuntime, c)])) = Ok (Some AContainerRuntime) \<and>
   first_kind analyzer_order [(AStorageClass, c), (AContainerRuntime, c)] = Some AStorageClass"
proof (intro conjI)
  note none = first_kind_None [OF conversion_kinds]
  have some: "\<exists>sp. convert_analyzer_to_spec (Some s) = Ok sp \<and> spec_kind_of sp = first_kind (map fst conversion_table) s"
    if "s \<noteq> []" for s :: "(akind \<times> analyzer_config) list"
    using that none [of s] convert_some [of s] by (cases "first_kind (map fst conversion_table) s") auto
  have nil: "is_ok (convert_analyzer_to_spec (Some [])) = False" "\<not> is_panic (convert_analyzer_to_spec (Some []))"
    using mp [OF conjunct1 [OF convert_some [of "[]"]] iffD2 [OF none [of "[]"] refl]] by auto
  have nil_entry: "is_ok (convert_analyzer_to_spec None) = False" "\<not> is_panic (convert_analyzer_to_spec None)"
    by (simp_all add: convert_analyzer_to_spec_def)
  show "is_ok (convert_analyzer_to_spec a) \<longleftrightarrow> (\<exists>s. a = Some s \<and> s \<noteq> [])"
  proof (cases a)
    case (Some s)
    with some [of s] nil show ?thesis by (cases "s = []") auto
  qed (simp add: nil_entry)
  show "\<not> is_panic (convert_analyzer_to_spec a)"
  proof (cases a)
    case (Some s)
    with some [of s] nil show ?thesis by (cases "s = []") auto
  qed (simp add: nil_entry)
  show "map_res spec_kind_of (convert_analyzer_to_spec (Some [(k, c)])) = Ok (first_kind analyzer_order [(k, c)])"
    using some [of "[(k, c)]"] first_kind_single [OF conversion_kinds, of k c] first_kind_single [OF refl, of k c] by auto
  show "map_res spec_kind_of (convert_analyzer_to_spec (Some [(AStorageClass, c), (AContainerRuntime, c)])) = Ok (Some AContainerRuntime)"
    by (simp add: convert_analyzer_to_spec_def conversion_table_def spec_kind_of_def file_path_config_def)
  show "first_kind analyzer_order [(AStorageClass, c), (AContainerRuntime, c)] = Some AStorageClass"
    by (simp add: first_kind_def analyzer_order_def)
qed

section \<open>Runs\<close>

lemma convert_custom_ok:
  "\<exists>specs failures. convert_custom F render i ags = Ok (specs, failures) \<and>
     length specs = length (filter (\<lambda>a. is_ok (convert_analyzer_to_spec a)) ags) \<and>
     length failures = length (filter (\<lambda>a. \<not> is_ok (convert_analyzer_to_spec a)) ags) \<and>
     (\<forall>f\<in>set failures. er_fail f \<and> \<not> er_pass f \<and> \<not> er_warn f \<and> er_agent_name f = ''analyzer-converter'')"
proof (induction ags arbitrary: i)
  case (Cons a ags)
  from Cons [of "Suc i"] obtain specs failures where IH: "convert_custom F render (Suc i) ags = Ok (specs, failures)"
    "length specs = length (filter (\<lambda>a. is_ok (convert_analyzer_to_spec a)) ags)"
    "length failures = length (filter (\<lambda>a. \<not> is_ok (convert_analyzer_to_spec a)) ags)"
    "\<forall>f\<in>set failures. er_fail f \<and> \<not> er_pass f \<and> \<not> er_warn f \<and> er_agent_name f = ''analyzer-converter''" by auto
  have no_panic: "\<not> is_panic (convert_analyzer_to_spec a)"
    by (cases a) (auto simp: convert_analyzer_to_spec_def find_Some_iff split: option.split)
  show ?case
  proof (cases "convert_analyzer_to_spec a")
    case (Fail e)
    with IH show ?thesis by (simp add: conversion_failure_def)
  qed (use IH no_panic in simp_all)
qed simp

text \<open>What an agent contributes.\<close>

definition agent_results :: "string \<Rightarrow> analyzer_spec list \<Rightarrow> 'f agent \<Rightarrow> 'f engine_result list" where
  "agent_results data specs a = (case run_agent_analysis data specs a of Ok (rs, _) \<Rightarrow> rs | _ \<Rightarrow> [])"

definition agent_errors :: "(go_error \<Rightarrow> string) \<Rightarrow> string \<Rightarrow> analyzer_spec list \<Rightarrow> 'f agent \<Rightarrow> analysis_error list" where
  "agent_errors render data specs a =
     (case run_agent_analysis data specs a of
        Ok (_, es) \<Rightarrow> map (agent_error a ''analyzer_execution'') es
      | Fail e \<Rightarrow> [agent_error a ''agent_execution'' (render e)]
      | Panic _ \<Rightarrow> [])"

lemma run_agents_loop_spec:
  "(\<forall>a\<in>set ags. \<not> is_panic (run_agent_analysis data specs a)) \<Longrightarrow>
   \<exists>s'. run_agents_loop render data specs ags s = Ok s' \<and>
     run_results s' = run_results s @ concat (map (agent_results data specs) ags) \<and>
     run_errors s' = run_errors s @ concat (map (agent_errors render data specs) ags) \<and>
     run_used s' = run_used s @ map ag_name ags \<and> map am_name (run_agents s') = map am_name (run_agents s) @ map ag_name ags"
proof (induction ags arbitrary: s)
  case (Cons a ags)
  show ?case
  proof (cases "run_agent_analysis data specs a")
    case (Ok r)
    obtain rs es where r: "r = (rs, es)" by fastforce
    from Cons.IH [of "add_run a rs (map (agent_error a ''analyzer_execution'') es) (length rs) (length es) s"] Cons.prems Ok r
    show ?thesis by (auto simp: agent_results_def agent_errors_def add_run_def)
  next
    case (Fail e)
    from Cons.IH [of "add_run a [] [agent_error a ''agent_execution'' (render e)] 0 1 s"] Cons.prems Fail
    show ?thesis by (auto simp: agent_results_def agent_errors_def add_run_def)
  qed (use Cons.prems in simp)
qed simp

lemma run_agents_loop_panic:
  "a \<in> set ags \<Longrightarrow> is_panic (run_agent_analysis data specs a) \<Longrightarrow> is_panic (run_agents_loop render data specs ags s)"
proof (induction ags arbitrary: s)
  case (Cons b ags)
  show ?case
  proof (cases "run_agent_analysis data specs b")
    case (Ok r)
    obtain rs es where "r = (rs, es)" by fastforce
    with Ok Cons show ?thesis by auto
  next
    case (Fail e)
    with Cons show ?thesis by auto
  qed simp
qed simp

lemma available_agents_ok:
  "available_agents e ns = Ok ags \<Longrightarrow> ags = filter ag_available (map (\<lambda>n. the (get_agent n e)) ns) \<and> (\<forall>n\<in>set ns. get_agent n e \<noteq> None)"
  by (induction ns arbitrary: ags) (auto simp: res_simps split: option.splits if_splits)

lemma run_agent_result:
  assumes "run_agent_analysis data specs a = Ok (rs, es)"
  shows "\<forall>r\<in>set rs. er_agent_name r = ag_name a"
proof -
  have "map_m (\<lambda>x. case x of None \<Rightarrow> Panic nil_pointer | Some x \<Rightarrow> Ok (x\<lparr>er_agent_name := n\<rparr>)) xs = Ok rs \<Longrightarrow>
      \<forall>r\<in>set rs. er_agent_name r = n" for n xs and rs :: "'a engine_result list"
    by (induction xs arbitrary: rs) (auto simp: res_simps split: option.splits)
  with assms show ?thesis by (auto simp: run_agent_analysis_def res_simps split: res.splits option.splits)
qed

lemma fold_summary:
  "fold (summary_step F) rs (s, c, n) = (s', c', n') \<Longrightarrow>
     agents_used s' = agents_used s \<and> total_analyzers s' = total_analyzers s \<and>
     pass_count s' = pass_count s + length (filter er_pass rs) \<and>
     warn_count s' = warn_count s + length (filter (\<lambda>r. \<not> er_pass r \<and> er_warn r) rs) \<and>
     fail_count s' = fail_count s + length (filter (\<lambda>r. \<not> er_pass r \<and> \<not> er_warn r \<and> er_fail r) rs)"
proof (induction rs arbitrary: s c n)
  case (Cons r rs)
  obtain s1 c1 n1 where one: "summary_step F r (s, c, n) = (s1, c1, n1)" by (metis prod_cases3)
  from Cons.prems one have "fold (summary_step F) rs (s1, c1, n1) = (s', c', n')" by simp
  from Cons.IH [OF this] one show ?case by (auto simp: Let_def split: if_splits)
qed simp

lemma summary_spec:
  "agents_used (calculate_summary F s) = run_used s \<and> total_analyzers (calculate_summary F s) = length (run_results s) \<and>
   error_count (calculate_summary F s) = length (run_errors s) \<and>
   pass_count (calculate_summary F s) = length (filter er_pass (run_results s)) \<and>
   warn_count (calculate_summary F s) = length (filter (\<lambda>r. \<not> er_pass r \<and> er_warn r) (run_results s)) \<and>
   fail_count (calculate_summary F s) = length (filter (\<lambda>r. \<not> er_pass r \<and> \<not> er_warn r \<and> er_fail r) (run_results s))"
proof -
  let ?s0 = "\<lparr>total_analyzers = length (run_results s), pass_count = 0, warn_count = 0, fail_count = 0, error_count = 0,
                summary_confidence = fl_zero F, agents_used = run_used s\<rparr>"
  obtain s1 c n where f: "fold (summary_step F) (run_results s) (?s0, fl_zero F, 0) = (s1, c, n)" by (metis prod_cases3)
  from fold_summary [OF f] f show ?thesis by (auto simp: calculate_summary_def Let_def)
qed

lemma engine_analyze_cases:
  assumes "engine_analyze F render e sb opts = Ok r"
  obtains data ags specs failures s where "sb = Some (Ok data)"
    "available_agents e (if opt_agents opts = [] then eng_default_agents e else opt_agents opts) = Ok ags" "ags \<noteq> []"
    "convert_custom F render 0 (opt_custom_analyzers opts) = Ok (specs, failures)"
    "run_agents_loop render data specs ags \<lparr>run_results = [], run_errors = [], run_agents = [], run_used = []\<rparr> = Ok s"
    "ar_all r = run_results s @ failures" "ar_problems r = run_errors s" "ar_agents r = run_agents s"
    "ar_remediation r = (if opt_include_remediation opts then generate_remediation (ar_all r) else [])"
    "ar_summary r = calculate_summary F (s\<lparr>run_results := run_results s @ failures\<rparr>)"
proof -
  from assms obtain m where m: "sb = Some m" by (cases sb) (auto simp: engine_analyze_def)
  define ns where "ns = (if opt_agents opts = [] then eng_default_agents e else opt_agents opts)"
  from assms m obtain ags where ags: "available_agents e ns = Ok ags" "ags \<noteq> []"
    unfolding engine_analyze_def ns_def [symmetric] by (cases "available_agents e ns") (auto split: if_splits)
  from assms m ags obtain data where data: "m = Ok data"
    unfolding engine_analyze_def ns_def [symmetric] by (cases m) auto
  obtain specs failures where conv: "convert_custom F render 0 (opt_custom_analyzers opts) = Ok (specs, failures)"
    using convert_custom_ok by blast
  let ?s0 = "\<lparr>run_results = [], run_errors = [], run_agents = [], run_used = []\<rparr>"
  from assms m ags data conv obtain s where s: "run_agents_loop render data specs ags ?s0 = Ok s"
    unfolding engine_analyze_def ns_def [symmetric] by (cases "run_agents_loop render data specs ags ?s0") auto
  from assms m ags data conv s that [OF _ _ _ conv s] show thesis
    unfolding engine_analyze_def ns_def [symmetric] by (auto simp: Let_def)
qed

text \<open>
  C27. An analysis runs every named agent that is available, in the order of the names. Its results are those of the agents
  that succeed, each under the name of its agent, followed by one failed result for every custom analyzer that does not
  convert; its errors are those of the agents, so that a failing agent does not stop the others.
\<close>

theorem analysis_runs_all_agents:
  assumes "engine_analyze F render e sb opts = Ok r"
  shows "\<exists>data specs failures ags. sb = Some (Ok data) \<and>
    ags = filter ag_available (map (\<lambda>n. the (get_agent n e)) (if opt_agents opts = [] then eng_default_agents e else opt_agents opts)) \<and>
    ags \<noteq> [] \<and> convert_custom F render 0 (opt_custom_analyzers opts) = Ok (specs, failures) \<and>
    ar_all r = concat (map (agent_results data specs) ags) @ failures \<and>
    (\<forall>a\<in>set ags. \<forall>x\<in>set (agent_results data specs a). er_agent_name x = ag_name a) \<and>
    length failures = length (filter (\<lambda>a. \<not> is_ok (convert_analyzer_to_spec a)) (opt_custom_analyzers opts)) \<and>
    ar_problems r = concat (map (agent_errors render data specs) ags) \<and> map am_name (ar_agents r) = map ag_name ags \<and>
    agents_used (ar_summary r) = map ag_name ags"
proof -
  from assms obtain data ags specs failures s where c: "sb = Some (Ok data)"
    "available_agents e (if opt_agents opts = [] then eng_default_agents e else opt_agents opts) = Ok ags" "ags \<noteq> []"
    "convert_custom F render 0 (opt_custom_analyzers opts) = Ok (specs, failures)"
    "run_agents_loop render data specs ags \<lparr>run_results = [], run_errors = [], run_agents = [], run_used = []\<rparr> = Ok s"
    "ar_all r = run_results s @ failures" "ar_problems r = run_errors s" "ar_agents r = run_agents s"
    "ar_summary r = calculate_summary F (s\<lparr>run_results := run_results s @ failures\<rparr>)"
    by (rule engine_analyze_cases)
  have "\<forall>a\<in>set ags. \<not> is_panic (run_agent_analysis data specs a)"
    using c(5) run_agents_loop_panic by (metis is_panic.simps(2))
  from run_agents_loop_spec [OF this, of render "\<lparr>run_results = [], run_errors = [], run_agents = [], run_used = []\<rparr>"] c(5)
  have run: "run_results s = concat (map (agent_results data specs) ags)" "run_errors s = concat (map (agent_errors render data specs) ags)"
    "run_used s = map ag_name ags" "map am_name (run_agents s) = map ag_name ags" by auto
  have named: "\<forall>x\<in>set (agent_results data specs a). er_agent_name x = ag_name a" for a
    using run_agent_result [of data specs a] by (cases "run_agent_analysis data specs a") (auto simp: agent_results_def)
  from convert_custom_ok [of F render 0 "opt_custom_analyzers opts"] c(4)
  have fails: "length failures = length (filter (\<lambda>a. \<not> is_ok (convert_analyzer_to_spec a)) (opt_custom_analyzers opts))" by auto
  note avail = conjunct1 [OF available_agents_ok [OF c(2)]]
  show ?thesis
  proof (intro exI conjI)
    show "sb = Some (Ok data)" "ags \<noteq> []" "convert_custom F render 0 (opt_custom_analyzers opts) = Ok (specs, failures)"
      by (fact c)+
    show "ags = filter ag_available (map (\<lambda>n. the (get_agent n e)) (if opt_agents opts = [] then eng_default_agents e else opt_agents opts))"
      by (fact avail)
    show "ar_all r = concat (map (agent_results data specs) ags) @ failures" by (simp only: c run)
    show "\<forall>a\<in>set ags. \<forall>x\<in>set (agent_results data specs a). er_agent_name x = ag_name a" using named by blast
    show "length failures = length (filter (\<lambda>a. \<not> is_ok (convert_analyzer_to_spec a)) (opt_custom_analyzers opts))" by (fact fails)
    show "ar_problems r = concat (map (agent_errors render data specs) ags)" by (simp only: c run)
    show "map am_name (ar_agents r) = map ag_name ags" by (simp only: c run)
    show "agents_used (ar_summary r) = map ag_name ags"
      using summary_spec [of F "s\<lparr>run_results := run_results s @ failures\<rparr>"] by (simp add: c run)
  qed
qed

definition example_agent :: "nat agent" where
  "example_agent =
     \<lparr>ag_name = ''local'', ag_analyze = (\<lambda>_ specs. Ok (Some \<lparr>ar_results = [], ar_errors = [''one'']\<rparr>)), ag_health = Ok (),
      ag_capabilities = [], ag_available = True\<rparr>"

definition example_floats :: "nat float_ops" where
  "example_floats = \<lparr>fl_zero = 0, fl_one = 1, fl_positive = (\<lambda>n. 0 < n), fl_add = (+), fl_over = (div)\<rparr>"

definition example_engine :: "nat engine" where
  "example_engine = new_analysis_engine\<lparr>eng_agents := [(''local'', example_agent)]\<rparr>"

lemma example_engine_run:
  "\<exists>r. engine_analyze example_floats (\<lambda>_. []) example_engine (Some (Ok []))
     \<lparr>opt_agents = [], opt_include_remediation = True, opt_custom_analyzers = [None]\<rparr> = Ok r"
  by (simp add: engine_analyze_def example_engine_def new_analysis_engine_def get_agent_def example_agent_def
      convert_analyzer_to_spec_def run_agent_analysis_def add_run_def Let_def)

theorem analysis_runs_all_agents_witness:
  "\<exists>r specs failures. engine_analyze example_floats (\<lambda>_. []) example_engine (Some (Ok []))
     \<lparr>opt_agents = [], opt_include_remediation = True, opt_custom_analyzers = [None]\<rparr> = Ok r \<and>
     ar_all r = concat (map (agent_results [] specs) [example_agent]) @ failures"
proof -
  from example_engine_run obtain r where r: "engine_analyze example_floats (\<lambda>_. []) example_engine (Some (Ok []))
     \<lparr>opt_agents = [], opt_include_remediation = True, opt_custom_analyzers = [None]\<rparr> = Ok r" by blast
  have "filter ag_available (map (\<lambda>n. the (get_agent n example_engine)) (eng_default_agents example_engine)) = [example_agent]"
    by (simp add: example_engine_def new_analysis_engine_def get_agent_def example_agent_def)
  with analysis_runs_all_agents [OF r] r show ?thesis by auto
qed

text \<open>
  The summary of an analysis counts every result once, under the first of pass, warn and fail that holds; the
  three counts make up all results exactly when every result has a verdict. The remediation asked for is that of the
  failed results that have one, in the order of the results.
\<close>

theorem summary_counts_results:
  assumes "engine_analyze F render e sb opts = Ok r"
  shows "total_analyzers (ar_summary r) = length (ar_all r) \<and> error_count (ar_summary r) = length (ar_problems r) \<and>
    pass_count (ar_summary r) = length (filter er_pass (ar_all r)) \<and>
    pass_count (ar_summary r) + warn_count (ar_summary r) + fail_count (ar_summary r) =
      length (filter (\<lambda>x. er_pass x \<or> er_warn x \<or> er_fail x) (ar_all r)) \<and>
    (pass_count (ar_summary r) + warn_count (ar_summary r) + fail_count (ar_summary r) = total_analyzers (ar_summary r) \<longleftrightarrow>
      (\<forall>x\<in>set (ar_all r). er_pass x \<or> er_warn x \<or> er_fail x)) \<and>
    ar_remediation r = (if opt_include_remediation opts
      then map (the \<circ> er_remediation) (filter (\<lambda>x. er_fail x \<and> er_remediation x \<noteq> None) (ar_all r)) else [])"
proof -
  from assms obtain failures s where c: "ar_all r = run_results s @ failures" "ar_problems r = run_errors s"
    "ar_remediation r = (if opt_include_remediation opts then generate_remediation (ar_all r) else [])"
    "ar_summary r = calculate_summary F (s\<lparr>run_results := run_results s @ failures\<rparr>)"
    by (rule engine_analyze_cases)
  have verdicts: "length (filter er_pass xs) + length (filter (\<lambda>r. \<not> er_pass r \<and> er_warn r) xs) +
      length (filter (\<lambda>r. \<not> er_pass r \<and> \<not> er_warn r \<and> er_fail r) xs)
      = length (filter (\<lambda>x. er_pass x \<or> er_warn x \<or> er_fail x) xs)" for xs :: "'a engine_result list"
    by (induction xs) auto
  have all: "length (filter P xs) = length xs \<longleftrightarrow> (\<forall>x\<in>set xs. P x)" for P and xs :: "'a engine_result list"
    by (metis filter_id_conv filter_True length_filter_less less_irrefl)
  have remediation: "generate_remediation xs = map (the \<circ> er_remediation) (filter (\<lambda>x. er_fail x \<and> er_remediation x \<noteq> None) xs)"
    for xs :: "'a engine_result list"
    by (induction xs) (auto split: bool.split option.split)
  from summary_spec [of F "s\<lparr>run_results := run_results s @ failures\<rparr>"] c
  have counts: "total_analyzers (ar_summary r) = length (ar_all r)" "error_count (ar_summary r) = length (ar_problems r)"
    "pass_count (ar_summary r) = length (filter er_pass (ar_all r))"
    "warn_count (ar_summary r) = length (filter (\<lambda>r. \<not> er_pass r \<and> er_warn r) (ar_all r))"
    "fail_count (ar_summary r) = length (filter (\<lambda>r. \<not> er_pass r \<and> \<not> er_warn r \<and> er_fail r) (ar_all r))" by simp_all
  show ?thesis
    unfolding counts verdicts all c(3) remediation by simp
qed

theorem summary_counts_results_witness:
  "\<exists>r. engine_analyze example_floats (\<lambda>_. []) example_engine (Some (Ok []))
     \<lparr>opt_agents = [], opt_include_remediation = True, opt_custom_analyzers = [None]\<rparr> = Ok r \<and>
     total_analyzers (ar_summary r) = length (ar_all r)"
  using example_engine_run summary_counts_results by blast

text \<open>
  An agent that answers with neither a result nor an error, or with a nil entry among its results, ends
  the analysis with a panic, although the loop over the agents has a test for such an answer.
\<close>

theorem nil_answers_panic:
  assumes "available_agents e (if opt_agents opts = [] then eng_default_agents e else opt_agents opts) = Ok ags" and "a \<in> set ags"
    and "\<And>specs. ag_analyze a data specs = Ok None \<or> (\<exists>r. ag_analyze a data specs = Ok (Some r) \<and> None \<in> set (ar_results r))"
  shows "is_panic (engine_analyze F render e (Some (Ok data)) opts)"
proof -
  have nil: "None \<in> set xs \<Longrightarrow> is_panic (map_m (\<lambda>x. case x of None \<Rightarrow> Panic nil_pointer | Some x \<Rightarrow> Ok (x\<lparr>er_agent_name := n\<rparr>)) xs)"
    for xs :: "'a engine_result option list" and n
    by (induction xs) (auto simp: is_panic_bind split: option.split)
  have panics: "is_panic (run_agent_analysis data specs a)" for specs
    using assms(3) [of specs] nil by (auto simp: run_agent_analysis_def)
  obtain specs failures where conv: "convert_custom F render 0 (opt_custom_analyzers opts) = Ok (specs, failures)"
    using convert_custom_ok by blast
  from assms(2) have "ags \<noteq> []" by auto
  with conv assms(1) run_agents_loop_panic [OF assms(2) panics] show ?thesis
    by (auto simp: engine_analyze_def is_panic_bind)
qed

theorem nil_answers_panic_witness:
  "is_panic (engine_analyze example_floats (\<lambda>_. [])
     (example_engine\<lparr>eng_agents := [(''local'', example_agent\<lparr>ag_analyze := \<lambda>_ _. Ok None\<rparr>)]\<rparr>) (Some (Ok []))
     \<lparr>opt_agents = [], opt_include_remediation = True, opt_custom_analyzers = []\<rparr>)"
  by (rule nil_answers_panic [where ags = "[example_agent\<lparr>ag_analyze := \<lambda>_ _. Ok None\<rparr>]" and a = "example_agent\<lparr>ag_analyze := \<lambda>_ _. Ok None\<rparr>"])
    (simp_all add: example_engine_def new_analysis_engine_def get_agent_def example_agent_def)

text \<open>
  The agent registered first under a name stays, whatever is registered later.
\<close>

theorem first_registration_wins:
  assumes "n \<noteq> []" and "get_agent n e = None"
  shows "get_agent n (agents.register_all ((n, Some a) # rs) e) = Some a"
  by (rule agents.first_wins [OF assms])

theorem first_registration_wins_witness:
  "get_agent ''x'' (agents.register_all [(''x'', Some example_agent), (''x'', Some (example_agent\<lparr>ag_available := False\<rparr>))] new_analysis_engine)
     = Some example_agent"
  by (rule first_registration_wins) (simp_all add: get_agent_def new_analysis_engine_def)

text \<open>
  The engine is degraded exactly when the check of some agent fails, and reports on every agent once; an
  agent that is not available counts as healthy.
\<close>

theorem engine_health_meaning:
  assumes "\<forall>(n, a)\<in>set (eng_agents e). \<not> is_panic (ag_health a)"
  shows "\<exists>h. health_check render e = Ok h \<and> map ah_name (eh_agents h) = list_agents e \<and>
    map ah_available (eh_agents h) = map (ag_available \<circ> snd) (eng_agents e) \<and>
    eh_status h = (if \<exists>(n, a)\<in>set (eng_agents e). \<not> is_ok (ag_health a) then ''degraded'' else ''healthy'')"
proof -
  have "\<exists>hs. health_loop render ags (gs, u) = Ok (gs @ hs, u \<or> (\<exists>(n, a)\<in>set ags. \<not> is_ok (ag_health a))) \<and>
      map ah_name hs = map fst ags \<and> map ah_available hs = map (ag_available \<circ> snd) ags"
    if "\<forall>(n, a)\<in>set ags. \<not> is_panic (ag_health a)" for ags :: "(string \<times> 'a agent) list" and gs u
    using that
  proof (induction ags arbitrary: gs u)
    case (Cons x ags)
    obtain n a where x: "x = (n, a)" by fastforce
    let ?h = "\<lambda>st er. \<lparr>ah_name = n, ah_status = st, ah_error = er, ah_available = ag_available a\<rparr>"
    show ?case
    proof (cases "ag_health a")
      case (Ok y)
      from Cons.IH [of "gs @ [?h ''healthy'' []]" u] Cons.prems x Ok show ?thesis by force
    next
      case (Fail er)
      from Cons.IH [of "gs @ [?h ''unhealthy'' (render er)]" True] Cons.prems x Fail show ?thesis by force
    qed (use Cons.prems x in simp)
  qed simp
  from this [OF assms, of "[]" False] obtain hs where
    "health_loop render (eng_agents e) ([], False) = Ok (hs, \<exists>(n, a)\<in>set (eng_agents e). \<not> is_ok (ag_health a))"
    "map ah_name hs = map fst (eng_agents e)" "map ah_available hs = map (ag_available \<circ> snd) (eng_agents e)" by auto
  then show ?thesis unfolding health_check_def list_agents_def by simp
qed

theorem engine_health_meaning_witness:
  "\<exists>h. health_check (\<lambda>_. []) example_engine = Ok h \<and> eh_status h = ''healthy''"
  using engine_health_meaning [of example_engine "\<lambda>_. []"] by (auto simp: example_engine_def example_agent_def)

text \<open>
  Requirements become at most four analyzers and one for each custom requirement; a maximum of CPU or
  memory, any disk size, a capacity, access modes, hosts to reach, and required or forbidden features alone give none.
\<close>

theorem requirements_ignored:
  "generate_analyzers (Some q) = Ok specs \<longrightarrow>
     length specs \<le> 4 + length (req_custom q) \<and>
     (min_version (req_kubernetes q) = [] \<and> max_version (req_kubernetes q) = [] \<and>
      res_min (rr_cpu (req_resources q)) = [] \<and> res_min (rr_memory (req_resources q)) = [] \<and>
      storage_classes (req_storage q) = [] \<and> network_ports (req_network q) = [] \<and> req_custom q = [] \<longleftrightarrow> specs = [])"
  by (auto simp: generate_analyzers_def Let_def)

theorem requirements_ignored_witness:
  "length [kubernetes_spec \<lparr>min_version = ''1'', max_version = [], required_features = [], forbidden_features = []\<rparr>] \<le> 4"
  using requirements_ignored [of "\<lparr>req_kubernetes = \<lparr>min_version = ''1'', max_version = [], required_features = [], forbidden_features = []\<rparr>,
      req_resources = \<lparr>rr_cpu = \<lparr>res_min = [], res_max = ''4''\<rparr>, rr_memory = \<lparr>res_min = [], res_max = []\<rparr>, rr_disk = \<lparr>res_min = ''1'', res_max = []\<rparr>\<rparr>,
      req_storage = \<lparr>storage_classes = [], min_capacity = ''1'', access_modes = []\<rparr>,
      req_network = \<lparr>network_ports = [], connectivity = [''a'']\<rparr>, req_custom = []\<rparr>"
      "[kubernetes_spec \<lparr>min_version = ''1'', max_version = [], required_features = [], forbidden_features = []\<rparr>]"]
  by (simp add: generate_analyzers_def)

end
