(* ===== verification/Kots_Detection.thy ===== *)
theory Kots_Detection
  imports Image_References
begin

text \<open>
  Specs of discovered collectors (\<^verbatim>\<open>pkg/collect/autodiscovery/interfaces.go\<close>) and the detection of KOTS applications with
  the collectors made for them (\<^verbatim>\<open>kots_detector.go\<close>). Labels and annotations are maps, reading a missing key gives the
  empty text; names of images are ASCII. What the API lists is a parameter.
\<close>

section \<open>Specs\<close>

record logs_body =
  lb_collector_name :: string
  lb_namespace :: string
  lb_selector :: "string list"
  lb_max_lines :: "int option"

record secret_body =
  sb_collector_name :: string
  sb_name :: string
  sb_namespace :: string
  sb_selector :: "string list"
  sb_include_value :: bool
  sb_include_all_data :: bool

record config_map_body =
  cb_collector_name :: string
  cb_name :: string
  cb_namespace :: string
  cb_selector :: "string list"
  cb_include_all_data :: bool

record data_body =
  db_collector_name :: string
  db_name :: string
  db_data :: string

record cluster_resources_body =
  rb_collector_name :: string
  rb_namespaces :: "string list"

text \<open>
  A collector of a bundle, by the fields discovery knows about; \<open>cl_other\<close> stands for every other kind, by its name. The bodies
  show the fields discovery sets.
\<close>

record collect_fields =
  cl_cluster_info :: "string option"
  cl_cluster_resources :: "cluster_resources_body option"
  cl_logs :: "logs_body option"
  cl_secret :: "secret_body option"
  cl_config_map :: "config_map_body option"
  cl_data :: "data_body option"
  cl_other :: "string option"

definition empty_collect :: collect_fields where
  "empty_collect =
     \<lparr>cl_cluster_info = None, cl_cluster_resources = None, cl_logs = None, cl_secret = None, cl_config_map = None, cl_data = None,
      cl_other = None\<rparr>"

datatype spec_body =
    BClusterInfo string
  | BClusterResources cluster_resources_body
  | BLogs logs_body
  | BSecret secret_body
  | BConfigMap config_map_body
  | BData data_body
  | BCollect collect_fields

definition CollectorTypeConfigMaps :: string where "CollectorTypeConfigMaps = ''configmaps''"
definition CollectorTypeSecrets :: string where "CollectorTypeSecrets = ''secrets''"
definition CollectorTypeEvents :: string where "CollectorTypeEvents = ''events''"
definition CollectorTypeLogs :: string where "CollectorTypeLogs = ''logs''"
definition CollectorTypeClusterInfo :: string where "CollectorTypeClusterInfo = ''clusterInfo''"
definition CollectorTypeClusterResources :: string where "CollectorTypeClusterResources = ''clusterResources''"
definition CollectorTypeImageFacts :: string where "CollectorTypeImageFacts = ''imageFacts''"
definition CollectorTypeData :: string where "CollectorTypeData = ''data''"

lemmas collector_types =
  CollectorTypeConfigMaps_def CollectorTypeSecrets_def CollectorTypeEvents_def CollectorTypeLogs_def
  CollectorTypeClusterInfo_def CollectorTypeClusterResources_def CollectorTypeImageFacts_def CollectorTypeData_def

datatype collector_source = SourceFoundational | SourceYAML | SourceKOTS

record auto_spec =
  ds_type :: string
  ds_name :: string
  ds_namespace :: string
  ds_body :: spec_body
  ds_priority :: int
  ds_source :: collector_source

definition get_unique_key :: "auto_spec \<Rightarrow> string" where
  "get_unique_key c =
     (if ds_namespace c \<noteq> [] then ds_type c @ ''/'' @ ds_namespace c @ ''/'' @ ds_name c else ds_type c @ ''/'' @ ds_name c)"

text \<open>The collector of a spec: the field of its type, and no field when the type and the body do not go together.\<close>

definition to_troubleshoot_collect :: "auto_spec \<Rightarrow> collect_fields" where
  "to_troubleshoot_collect c =
     (if ds_type c = CollectorTypeLogs then (case ds_body c of BLogs b \<Rightarrow> empty_collect\<lparr>cl_logs := Some b\<rparr> | _ \<Rightarrow> empty_collect)
      else if ds_type c = CollectorTypeClusterInfo then
        (case ds_body c of BClusterInfo n \<Rightarrow> empty_collect\<lparr>cl_cluster_info := Some n\<rparr> | _ \<Rightarrow> empty_collect)
      else if ds_type c = CollectorTypeClusterResources then
        (case ds_body c of BClusterResources b \<Rightarrow> empty_collect\<lparr>cl_cluster_resources := Some b\<rparr> | _ \<Rightarrow> empty_collect)
      else if ds_type c = CollectorTypeSecrets then
        (case ds_body c of BSecret b \<Rightarrow> empty_collect\<lparr>cl_secret := Some b\<rparr> | _ \<Rightarrow> empty_collect)
      else if ds_type c = CollectorTypeConfigMaps then
        (case ds_body c of BConfigMap b \<Rightarrow> empty_collect\<lparr>cl_config_map := Some b\<rparr> | _ \<Rightarrow> empty_collect)
      else if ds_type c = CollectorTypeImageFacts \<or> ds_type c = CollectorTypeData then
        (case ds_body c of BData b \<Rightarrow> empty_collect\<lparr>cl_data := Some b\<rparr> | _ \<Rightarrow> empty_collect)
      else empty_collect)"

section \<open>Objects of KOTS\<close>

record k8s_object =
  ko_name :: string
  ko_namespace :: string
  ko_labels :: "(string \<times> string) list"
  ko_annotations :: "(string \<times> string) list"
  ko_images :: "string list"

definition value_of :: "(string \<times> string) list \<Rightarrow> string \<Rightarrow> string" where
  "value_of m k = (case map_of m k of None \<Rightarrow> [] | Some v \<Rightarrow> v)"

definition has_kotsadm_label :: "k8s_object \<Rightarrow> bool" where
  "has_kotsadm_label ob \<longleftrightarrow>
     value_of (ko_labels ob) ''app'' = ''kotsadm'' \<or> value_of (ko_labels ob) ''app.kubernetes.io/name'' = ''kotsadm'' \<or>
     value_of (ko_labels ob) ''kots.io/kotsadm'' = ''true''"

text \<open>A path taken apart at its slashes, without empty parts.\<close>

fun split_image_loop :: "string \<Rightarrow> string \<Rightarrow> string list" where
  "split_image_loop current [] = []"
| "split_image_loop current (c # s) =
     (let (parts, cur) = (if c = CHR ''/'' then (if current \<noteq> [] then [current] else [], []) else ([], current @ [c]))
      in parts @ (if s = [] \<and> cur \<noteq> [] then [cur] else []) @ split_image_loop cur s)"

definition split_image_path :: "string \<Rightarrow> string list" where
  "split_image_path s = split_image_loop [] s"

definition before_last :: "char \<Rightarrow> string \<Rightarrow> string" where
  "before_last c s = (if c \<in> set s then fst (cut_last c s) else s)"

definition remove_tag_and_digest :: "string \<Rightarrow> string" where
  "remove_tag_and_digest component = before_last (CHR ''@'') (before_last (CHR '':'') component)"

definition matches_at :: "string list \<Rightarrow> string list \<Rightarrow> nat \<Rightarrow> bool" where
  "matches_at component_parts image_parts i =
     list_all (\<lambda>j. remove_tag_and_digest (image_parts ! (i + j)) = component_parts ! j) [0..<length component_parts]"

definition contains_image_component :: "string \<Rightarrow> string \<Rightarrow> bool" where
  "contains_image_component img component =
     (let image_parts = split_image_path img; component_parts = split_image_path component in
      if length component_parts = 1 then list_ex (\<lambda>p. remove_tag_and_digest p = component) image_parts
      else length component_parts \<le> length image_parts \<and>
        list_ex (matches_at component_parts image_parts) [0..<Suc (length image_parts - length component_parts)])"

definition kotsadm_images :: "string list" where
  "kotsadm_images = [''kotsadm/kotsadm'', ''replicated/kotsadm'', ''kotsadm-api'', ''kotsadm-web'']"

definition is_kotsadm_image :: "string \<Rightarrow> bool" where
  "is_kotsadm_image img = list_ex (\<lambda>k. img = k \<or> contains_image_component img k) kotsadm_images"

definition is_kotsadm_name :: "string \<Rightarrow> bool" where
  "is_kotsadm_name n \<longleftrightarrow> n = ''kotsadm'' \<or> n = ''kotsadm-api'' \<or> n = ''kotsadm-web''"

definition is_kotsadm_deployment :: "k8s_object \<Rightarrow> bool" where
  "is_kotsadm_deployment d \<longleftrightarrow> is_kotsadm_name (ko_name d) \<or> has_kotsadm_label d \<or> list_ex is_kotsadm_image (ko_images d)"

definition is_kotsadm_service :: "k8s_object \<Rightarrow> bool" where
  "is_kotsadm_service s \<longleftrightarrow> is_kotsadm_name (ko_name s) \<or> has_kotsadm_label s"

definition replicated_secret_names :: "string list" where
  "replicated_secret_names =
     [''kotsadm-replicated-registry'', ''replicated-registry'', ''kotsadm-password'', ''kotsadm-cluster-token'',
      ''kotsadm-session'', ''kotsadm-postgres'', ''kotsadm-rqlite'']"

definition is_replicated_secret :: "k8s_object \<Rightarrow> bool" where
  "is_replicated_secret s \<longleftrightarrow>
     ko_name s \<in> set replicated_secret_names \<or> has_kotsadm_label s \<or> value_of (ko_annotations s) ''kots.io/secret-type'' \<noteq> []"

definition kots_config_map_names :: "string list" where
  "kots_config_map_names = [''kotsadm-config'', ''kotsadm-application-metadata'', ''kotsadm-postgres'']"

definition is_kots_config_map :: "k8s_object \<Rightarrow> bool" where
  "is_kots_config_map m \<longleftrightarrow> ko_name m \<in> set kots_config_map_names \<or> has_kotsadm_label m"

definition extract_app_name :: "k8s_object \<Rightarrow> string" where
  "extract_app_name d =
     (let app = value_of (ko_labels d) ''kots.io/app''; name = value_of (ko_labels d) ''app.kubernetes.io/name'';
          title = value_of (ko_annotations d) ''kots.io/app-title'' in
      if app \<noteq> [] then app
      else if name \<noteq> [] \<and> name \<noteq> ''kotsadm'' then name
      else if title \<noteq> [] then title
      else if ko_namespace d \<noteq> [] \<and> ko_namespace d \<noteq> ''default'' then ko_namespace d
      else ''kots-application'')"

section \<open>Detection\<close>

record kots_application =
  ka_namespace :: string
  ka_app_name :: string
  ka_deployment :: "k8s_object option"
  ka_services :: "k8s_object list"
  ka_secrets :: "k8s_object list"
  ka_config_maps :: "k8s_object list"

record namespace_objects =
  no_deployments :: "k8s_object list res"
  no_services :: "k8s_object list res"
  no_secrets :: "k8s_object list res"
  no_config_maps :: "k8s_object list res"

fun last_deployment :: "k8s_object list \<Rightarrow> k8s_object option \<Rightarrow> k8s_object option" where
  "last_deployment [] acc = acc"
| "last_deployment (d # ds) acc = last_deployment ds (if is_kotsadm_deployment d then Some d else acc)"

definition detect_kots_in_namespace :: "namespace_objects \<Rightarrow> string \<Rightarrow> kots_application \<times> bool" where
  "detect_kots_in_namespace obs ns =
     (let d = last_deployment (keep_ok (no_deployments obs)) None;
          ss = filter is_kotsadm_service (keep_ok (no_services obs));
          rs = filter is_replicated_secret (keep_ok (no_secrets obs));
          ms = filter is_kots_config_map (keep_ok (no_config_maps obs))
      in (\<lparr>ka_namespace = ns, ka_app_name = (case d of None \<Rightarrow> [] | Some d \<Rightarrow> extract_app_name d), ka_deployment = d,
           ka_services = ss, ka_secrets = rs, ka_config_maps = ms\<rparr>,
          d \<noteq> None \<or> ss \<noteq> [] \<or> rs \<noteq> [] \<or> ms \<noteq> []))"

definition detect_kots_applications :: "string list res \<Rightarrow> (string \<Rightarrow> namespace_objects) \<Rightarrow> kots_application list res" where
  "detect_kots_applications namespaces obs =
     (let names = (case namespaces of Ok ns \<Rightarrow> ns | _ \<Rightarrow> [''default'', ''kots'', ''kotsadm''])
      in Ok (map fst (filter snd (map (\<lambda>ns. detect_kots_in_namespace (obs ns) ns) names))))"

section \<open>Collectors of KOTS\<close>

definition generate_kotsadm_deployment_collector :: "kots_application \<Rightarrow> auto_spec" where
  "generate_kotsadm_deployment_collector a =
     \<lparr>ds_type = CollectorTypeClusterResources, ds_name = ''kots-deployment-'' @ ka_app_name a, ds_namespace = ka_namespace a,
      ds_body = BClusterResources \<lparr>rb_collector_name = ''kots/'' @ ka_app_name a @ ''/deployment'', rb_namespaces = [ka_namespace a]\<rparr>,
      ds_priority = 100, ds_source = SourceKOTS\<rparr>"

definition generate_kotsadm_logs_collector :: "kots_application \<Rightarrow> auto_spec" where
  "generate_kotsadm_logs_collector a =
     \<lparr>ds_type = CollectorTypeLogs, ds_name = ''kots-logs-'' @ ka_app_name a, ds_namespace = ka_namespace a,
      ds_body = BLogs \<lparr>lb_collector_name = ''kots/'' @ ka_app_name a @ ''/logs'', lb_namespace = ka_namespace a,
        lb_selector = [''app=kotsadm'', ''kots.io/kotsadm=true''], lb_max_lines = None\<rparr>,
      ds_priority = 100, ds_source = SourceKOTS\<rparr>"

definition generate_replicated_secret_collector :: "kots_application \<Rightarrow> k8s_object \<Rightarrow> auto_spec" where
  "generate_replicated_secret_collector a s =
     \<lparr>ds_type = CollectorTypeSecrets, ds_name = ''kots-secret-'' @ ka_app_name a @ ''-'' @ ko_name s, ds_namespace = ka_namespace a,
      ds_body = BSecret \<lparr>sb_collector_name = ''kots/'' @ ka_app_name a @ ''/secrets/'' @ ko_name s, sb_name = ko_name s,
        sb_namespace = ka_namespace a, sb_selector = [], sb_include_value = False, sb_include_all_data = False\<rparr>,
      ds_priority = 100, ds_source = SourceKOTS\<rparr>"

definition generate_kots_config_map_collector :: "kots_application \<Rightarrow> k8s_object \<Rightarrow> auto_spec" where
  "generate_kots_config_map_collector a m =
     \<lparr>ds_type = CollectorTypeConfigMaps, ds_name = ''kots-configmap-'' @ ka_app_name a @ ''-'' @ ko_name m,
      ds_namespace = ka_namespace a,
      ds_body = BConfigMap \<lparr>cb_collector_name = ''kots/'' @ ka_app_name a @ ''/configmaps/'' @ ko_name m, cb_name = ko_name m,
        cb_namespace = ka_namespace a, cb_selector = [], cb_include_all_data = True\<rparr>,
      ds_priority = 100, ds_source = SourceKOTS\<rparr>"

text \<open>The JSON texts of data collectors: a field on a line, behind four tabs.\<close>

definition json_quote :: "string \<Rightarrow> string" where
  "json_quote s = [CHR 0x22] @ s @ [CHR 0x22]"

definition json_lines :: "string list \<Rightarrow> string" where
  "json_lines ls =
     ''{'' @ [CHR 0x0A] @ concat (map (\<lambda>f. replicate 4 (CHR 0x09) @ f @ [CHR 0x0A]) ls) @ replicate 3 (CHR 0x09) @ ''}''"

definition json_field :: "string \<Rightarrow> string \<Rightarrow> string" where
  "json_field k v = json_quote k @ '': '' @ v"

definition generate_kots_directory_collector :: "kots_application \<Rightarrow> auto_spec" where
  "generate_kots_directory_collector a =
     \<lparr>ds_type = CollectorTypeData, ds_name = ''kots-directory-'' @ ka_app_name a, ds_namespace = ka_namespace a,
      ds_body = BData \<lparr>db_collector_name = ''kots/'' @ ka_app_name a @ ''/directory-info'',
        db_name = ''kots/'' @ ka_app_name a @ ''/info.json'',
        db_data = json_lines
          [json_field ''kotsApp'' (json_quote (ka_app_name a)) @ '','', json_field ''namespace'' (json_quote (ka_namespace a)) @ '','',
           json_field ''detectedAt'' (json_quote ''auto-detected'') @ '','',
           json_field ''hasDeployment'' (if ka_deployment a \<noteq> None then ''true'' else ''false'') @ '','',
           json_field ''secretCount'' (show_nat (length (ka_secrets a))) @ '','',
           json_field ''configMapCount'' (show_nat (length (ka_config_maps a))) @ '','',
           json_field ''serviceCount'' (show_nat (length (ka_services a)))]\<rparr>,
      ds_priority = 90, ds_source = SourceKOTS\<rparr>"

fun generate_kots_collectors :: "kots_application list \<Rightarrow> auto_spec list" where
  "generate_kots_collectors [] = []"
| "generate_kots_collectors (a # rest) =
     (if ka_deployment a \<noteq> None then [generate_kotsadm_deployment_collector a] else []) @
     [generate_kotsadm_logs_collector a] @ map (generate_replicated_secret_collector a) (ka_secrets a) @
     map (generate_kots_config_map_collector a) (ka_config_maps a) @ [generate_kots_directory_collector a] @
     generate_kots_collectors rest"

definition kurl_config_map_collector :: "string \<Rightarrow> auto_spec" where
  "kurl_config_map_collector n =
     \<lparr>ds_type = CollectorTypeConfigMaps, ds_name = ''kurl-configmap-'' @ n, ds_namespace = ''kurl'',
      ds_body = BConfigMap \<lparr>cb_collector_name = ''configmaps/kurl/'' @ n, cb_name = n, cb_namespace = ''kurl'', cb_selector = [],
        cb_include_all_data = True\<rparr>,
      ds_priority = 100, ds_source = SourceKOTS\<rparr>"

definition generate_kurl_config_map_collectors :: "auto_spec list" where
  "generate_kurl_config_map_collectors = map kurl_config_map_collector [''kurl-current-config'', ''kurl-last-config'']"

definition generate_standard_replicated_secret_collector :: auto_spec where
  "generate_standard_replicated_secret_collector =
     \<lparr>ds_type = CollectorTypeSecrets, ds_name = ''standard-replicated-registry-secret'', ds_namespace = [],
      ds_body = BSecret \<lparr>sb_collector_name = ''secrets/kotsadm-replicated-registry'', sb_name = ''kotsadm-replicated-registry'',
        sb_namespace = [], sb_selector = [], sb_include_value = False, sb_include_all_data = False\<rparr>,
      ds_priority = 100, ds_source = SourceKOTS\<rparr>"

fun cluster_id_of_nodes :: "k8s_object list \<Rightarrow> string" where
  "cluster_id_of_nodes [] = ''unknown''"
| "cluster_id_of_nodes (n # ns) =
     (if value_of (ko_labels n) ''kurl.sh/cluster'' \<noteq> [] then value_of (ko_labels n) ''kurl.sh/cluster''
      else if 8 \<le> length (ko_name n) \<and> ko_name n \<noteq> ''localhost'' then take 8 (ko_name n)
      else cluster_id_of_nodes ns)"

definition detect_cluster_id :: "k8s_object list res \<Rightarrow> string" where
  "detect_cluster_id nodes = (case nodes of Ok ns \<Rightarrow> cluster_id_of_nodes ns | _ \<Rightarrow> ''unknown'')"

definition generate_kots_host_preflight_collector :: "k8s_object list res \<Rightarrow> auto_spec" where
  "generate_kots_host_preflight_collector nodes =
     (let i = detect_cluster_id nodes in
      \<lparr>ds_type = CollectorTypeData, ds_name = ''kots-host-preflights'', ds_namespace = [],
       ds_body = BData \<lparr>db_collector_name = ''kots/kurl/host-preflights/'' @ i,
         db_name = ''kots/kurl/host-preflights/'' @ i @ ''/results.json'',
         db_data = json_lines
           [json_field ''clusterID'' (json_quote i) @ '', '', json_field ''type'' (json_quote ''host-preflights'') @ '','',
            json_field ''status'' (json_quote ''checking'') @ '','',
            json_field ''message'' (json_quote ''Attempting to collect KOTS host preflight results'')]\<rparr>,
       ds_priority = 90, ds_source = SourceKOTS\<rparr>)"

definition generate_standard_kots_collectors :: "k8s_object list res \<Rightarrow> auto_spec list" where
  "generate_standard_kots_collectors nodes =
     generate_kurl_config_map_collectors @ [generate_standard_replicated_secret_collector, generate_kots_host_preflight_collector nodes]"

section \<open>Images\<close>

lemma split_image_loop_app:
  "CHR ''/'' \<notin> set w \<Longrightarrow> w \<noteq> [] \<Longrightarrow> split_image_loop cur (w @ CHR ''/'' # s) = (cur @ w) # split_image_loop [] s"
proof (induction w arbitrary: cur)
  case (Cons c w)
  then show ?case by (cases w) (auto simp: Let_def)
qed simp

lemma split_image_loop_last: "CHR ''/'' \<notin> set w \<Longrightarrow> w \<noteq> [] \<Longrightarrow> split_image_loop cur w = [cur @ w]"
proof (induction w arbitrary: cur)
  case (Cons c w)
  then show ?case by (cases w) (auto simp: Let_def)
qed simp

definition image_part :: "string \<Rightarrow> bool" where
  "image_part w \<longleftrightarrow> w \<noteq> [] \<and> CHR ''/'' \<notin> set w"

lemma split_image_path_parts:
  "\<forall>w\<in>set ws. image_part w \<Longrightarrow> image_part v \<Longrightarrow> split_image_path (concat (map (\<lambda>w. w @ ''/'') ws) @ v) = ws @ [v]"
  by (induction ws) (auto simp: split_image_path_def image_part_def split_image_loop_app split_image_loop_last)

lemma before_last_append: "c \<notin> set b \<Longrightarrow> before_last c (a @ c # b) = a"
  by (simp add: before_last_def cut_last_append)

lemma before_last_none: "c \<notin> set a \<Longrightarrow> before_last c a = a"
  by (simp add: before_last_def)

definition plain_part :: "string \<Rightarrow> bool" where
  "plain_part w \<longleftrightarrow> set w \<inter> {CHR ''/'', CHR '':'', CHR ''@''} = {}"

lemma remove_tag_and_digest_simps:
  assumes "plain_part n" and "plain_part t" and "plain_part a" and "plain_part h"
  shows "remove_tag_and_digest n = n" and "remove_tag_and_digest (n @ '':'' @ t) = n"
    and "remove_tag_and_digest (n @ ''@'' @ a @ '':'' @ h) = n"
    and "remove_tag_and_digest (n @ '':'' @ t @ ''@'' @ a @ '':'' @ h) = n @ '':'' @ t"
proof -
  note no = assms [unfolded plain_part_def]
  show "remove_tag_and_digest n = n" using no by (simp add: remove_tag_and_digest_def before_last_none)
  show "remove_tag_and_digest (n @ '':'' @ t) = n"
    using no before_last_append [of "CHR '':''" t n] by (simp add: remove_tag_and_digest_def before_last_none)
  show "remove_tag_and_digest (n @ ''@'' @ a @ '':'' @ h) = n"
    using no before_last_append [of "CHR '':''" h "n @ ''@'' @ a"] before_last_append [of "CHR ''@''" a n]
    by (simp add: remove_tag_and_digest_def)
  show "remove_tag_and_digest (n @ '':'' @ t @ ''@'' @ a @ '':'' @ h) = n @ '':'' @ t"
    using no before_last_append [of "CHR '':''" h "n @ '':'' @ t @ ''@'' @ a"] before_last_append [of "CHR ''@''" a "n @ '':'' @ t"]
    by (simp add: remove_tag_and_digest_def)
qed

lemma matches_at_pair:
  "matches_at [x, y] ps i \<longleftrightarrow> remove_tag_and_digest (ps ! i) = x \<and> remove_tag_and_digest (ps ! Suc i) = y"
  by (simp add: matches_at_def upt_conv_Cons)

lemma pair_component_iff:
  assumes "split_image_path img = ps" and "split_image_path k = [x, y]"
  shows "contains_image_component img k \<longleftrightarrow>
    (\<exists>i. Suc i < length ps \<and> remove_tag_and_digest (ps ! i) = x \<and> remove_tag_and_digest (ps ! Suc i) = y)"
proof -
  have range: "2 \<le> length ps \<and> (\<exists>i\<in>set [0..<Suc (length ps - 2)]. P i) \<longleftrightarrow> (\<exists>i. Suc i < length ps \<and> P i)" for P
  proof -
    have "i \<in> set [0..<Suc (length ps - 2)] \<longleftrightarrow> Suc i < length ps" if "2 \<le> length ps" for i using that by (simp only: atLeast_upt atLeastLessThan_iff set_upt) arith
    then show ?thesis by (metis Suc_leI le_antisym not_less_eq_eq numeral_2_eq_2 zero_less_Suc less_Suc_eq_le not_less0 nat_neq_iff)
  qed
  have "contains_image_component img k \<longleftrightarrow> 2 \<le> length ps \<and> (\<exists>i\<in>set [0..<Suc (length ps - 2)]. matches_at [x, y] ps i)"
    unfolding contains_image_component_def Let_def assms by (simp only: list_ex_iff) (simp add: numeral_2_eq_2)
  then show ?thesis unfolding range matches_at_pair .
qed

lemma single_component_iff:
  assumes "split_image_path img = ps" and "split_image_path k = [x]"
  shows "contains_image_component img k \<longleftrightarrow> (\<exists>p\<in>set ps. remove_tag_and_digest p = k)"
  by (auto simp: contains_image_component_def Let_def assms list_ex_iff)

lemma is_kotsadm_image_intro: "k \<in> set kotsadm_images \<Longrightarrow> contains_image_component img k \<Longrightarrow> is_kotsadm_image img"
  by (auto simp: is_kotsadm_image_def list_ex_iff)

lemma kotsadm_parts:
  "split_image_path ''kotsadm/kotsadm'' = [''kotsadm'', ''kotsadm'']"
  "split_image_path ''replicated/kotsadm'' = [''replicated'', ''kotsadm'']"
  "split_image_path ''kotsadm-api'' = [''kotsadm-api'']" "split_image_path ''kotsadm-web'' = [''kotsadm-web'']"
  by code_simp+

lemma remove_tag_and_digest_kotsadm: "remove_tag_and_digest ''kotsadm'' = ''kotsadm''"
  by code_simp

lemma component_found:
  assumes "\<forall>w\<in>set ws. image_part w" and "image_part v" and "remove_tag_and_digest v = ''kotsadm''"
  shows "is_kotsadm_image (concat (map (\<lambda>w. w @ ''/'') ws) @ ''kotsadm/'' @ v)"
proof -
  have "image_part ''kotsadm''" by (simp add: image_part_def)
  then have parts: "split_image_path (concat (map (\<lambda>w. w @ ''/'') ws) @ ''kotsadm/'' @ v) = ws @ [''kotsadm'', v]"
    using split_image_path_parts [of "ws @ [''kotsadm'']" v] assms(1,2) by auto
  have nths: "(ws @ [''kotsadm'', v]) ! length ws = ''kotsadm''" "(ws @ [''kotsadm'', v]) ! Suc (length ws) = v"
    by (simp_all only: nth_append_length nth_append_length_plus [of ws _ 1, simplified] nth_Cons_Suc nth_Cons_0 plus_1_eq_Suc)
  have "contains_image_component (concat (map (\<lambda>w. w @ ''/'') ws) @ ''kotsadm/'' @ v) ''kotsadm/kotsadm''"
    unfolding pair_component_iff [OF parts kotsadm_parts(1)]
    by (rule exI [of _ "length ws"]) (simp only: nths assms(3) remove_tag_and_digest_kotsadm length_append, simp)
  moreover have "''kotsadm/kotsadm'' \<in> set kotsadm_images" by (simp add: kotsadm_images_def)
  ultimately show ?thesis by (rule is_kotsadm_image_intro [rotated])
qed

text \<open>
  The image of kotsadm is recognized under any registry and path, bare, with a tag or with a digest; with both
  a tag and a digest it is not.
\<close>

theorem kotsadm_image_recognized:
  assumes "\<forall>w\<in>set ws. image_part w" and "plain_part t" and "plain_part a" and "plain_part h"
  shows "is_kotsadm_image (concat (map (\<lambda>w. w @ ''/'') ws) @ ''kotsadm/kotsadm'') \<and>
    is_kotsadm_image (concat (map (\<lambda>w. w @ ''/'') ws) @ ''kotsadm/kotsadm:'' @ t) \<and>
    is_kotsadm_image (concat (map (\<lambda>w. w @ ''/'') ws) @ ''kotsadm/kotsadm@'' @ a @ '':'' @ h) \<and>
    \<not> is_kotsadm_image (''kotsadm/kotsadm:'' @ t @ ''@'' @ a @ '':'' @ h)"
proof (intro conjI)
  have n: "plain_part ''kotsadm''" by (simp add: plain_part_def)
  have part: "image_part (''kotsadm'' @ s)" if "CHR ''/'' \<notin> set s" for s using that by (simp add: image_part_def)
  note cut = remove_tag_and_digest_simps [OF n assms(2-4)]
  have clean: "CHR ''/'' \<notin> set t" "CHR ''/'' \<notin> set a" "CHR ''/'' \<notin> set h" using assms(2-4) by (auto simp: plain_part_def)
  show "is_kotsadm_image (concat (map (\<lambda>w. w @ ''/'') ws) @ ''kotsadm/kotsadm'')"
    using component_found [OF assms(1) part [of "[]"]] cut(1) by simp
  show "is_kotsadm_image (concat (map (\<lambda>w. w @ ''/'') ws) @ ''kotsadm/kotsadm:'' @ t)"
    using component_found [OF assms(1) part [of "'':'' @ t"]] cut(2) clean by simp
  show "is_kotsadm_image (concat (map (\<lambda>w. w @ ''/'') ws) @ ''kotsadm/kotsadm@'' @ a @ '':'' @ h)"
    using component_found [OF assms(1) part [of "''@'' @ a @ '':'' @ h"]] cut(3) clean by simp
  let ?v = "''kotsadm:'' @ t @ ''@'' @ a @ '':'' @ h"
  have parts: "split_image_path (''kotsadm/'' @ ?v) = [''kotsadm'', ?v]"
    using split_image_path_parts [of "[''kotsadm'']" ?v] clean by (simp add: image_part_def)
  have cutv: "remove_tag_and_digest ?v = ''kotsadm:'' @ t" using cut(4) by simp
  have ends: "''kotsadm:'' @ t \<noteq> k" if "k \<in> {''kotsadm'', ''kotsadm-api'', ''kotsadm-web''}" for k using that by auto
  have "\<not> contains_image_component (''kotsadm/'' @ ?v) ''kotsadm/kotsadm''"
    "\<not> contains_image_component (''kotsadm/'' @ ?v) ''replicated/kotsadm''"
    unfolding pair_component_iff [OF parts kotsadm_parts(1)] pair_component_iff [OF parts kotsadm_parts(2)]
    using cutv by (auto simp: less_Suc_eq)
  moreover have "\<not> contains_image_component (''kotsadm/'' @ ?v) ''kotsadm-api''"
    "\<not> contains_image_component (''kotsadm/'' @ ?v) ''kotsadm-web''"
    unfolding single_component_iff [OF parts kotsadm_parts(3)] single_component_iff [OF parts kotsadm_parts(4)]
    using cutv remove_tag_and_digest_kotsadm by auto
  moreover have "''kotsadm/'' @ ?v \<notin> set kotsadm_images" by (simp add: kotsadm_images_def)
  ultimately show "\<not> is_kotsadm_image (''kotsadm/kotsadm:'' @ t @ ''@'' @ a @ '':'' @ h)"
    by (simp add: is_kotsadm_image_def list_ex_iff kotsadm_images_def)
qed

theorem kotsadm_image_recognized_witness:
  "is_kotsadm_image ''registry.local:5000/kotsadm/kotsadm:v1'' \<and> \<not> is_kotsadm_image ''kotsadm/kotsadm:v1@sha256:0''"
  using kotsadm_image_recognized [of "[''registry.local:5000'']" "''v1''" "''sha256''" "''0''"]
  by (simp add: image_part_def plain_part_def)

end
