(* ===== verification/Discovery_Permissions.thy ===== *)
theory Discovery_Permissions
  imports Kots_Detection Image_Cache
begin

text \<open>
  Permissions of discovered resources (\<^verbatim>\<open>pkg/collect/autodiscovery/rbac_checker.go\<close>) and the report of what was left out
  (\<^verbatim>\<open>rbac_reporter.go\<close>). The review of the API server is a parameter. \<open>FilterByPermissions\<close> starts one goroutine for
  each resource, at most ten at work at a time, and is a step relation; the cache of answers keeps a contract of its own
  (locale \<open>lossy_map\<close>). What the reporter prints is modelled as far as it is computed: the resources of the commands and
  the numbers of the summary.
\<close>

section \<open>Resources\<close>

record api_resource =
  rs_api_version :: string
  rs_kind :: string
  rs_namespace :: string
  rs_name :: string

definition get_cache_key :: "api_resource \<Rightarrow> string" where
  "get_cache_key r = rs_api_version r @ ''/'' @ rs_kind r @ ''/'' @ rs_namespace r @ ''/'' @ rs_name r"

definition get_verb_for_resource :: "api_resource \<Rightarrow> string" where
  "get_verb_for_resource r =
     (if rs_kind r = ''Pod'' then ''list''
      else if rs_kind r = ''ConfigMap'' \<or> rs_kind r = ''Secret'' then ''get''
      else if rs_kind r = ''Event'' then ''list''
      else if rs_kind r = ''Node'' then ''list''
      else ''get'')"

definition get_api_group :: "string \<Rightarrow> string" where
  "get_api_group v =
     (if v = ''v1'' then []
      else if CHR ''/'' \<in> set v \<and> fst (cut_first (CHR ''/'') v) \<noteq> [] then fst (cut_first (CHR ''/'') v) else v)"

definition get_api_version :: "string \<Rightarrow> string" where
  "get_api_version v =
     (if v = ''v1'' then ''v1'' else (case split_on (CHR ''/'') v of [_, w] \<Rightarrow> w | _ \<Rightarrow> v))"

definition resource_names :: "(string \<times> string) list" where
  "resource_names =
     [(''Pod'', ''pods''), (''ConfigMap'', ''configmaps''), (''Secret'', ''secrets''), (''Event'', ''events''), (''Node'', ''nodes''),
      (''Deployment'', ''deployments''), (''Service'', ''services''), (''ReplicaSet'', ''replicasets'')]"

definition get_resource_name :: "string \<Rightarrow> string" where
  "get_resource_name k = (case map_of resource_names k of Some n \<Rightarrow> n | None \<Rightarrow> k @ ''s'')"

record resource_attributes =
  at_namespace :: string
  at_verb :: string
  at_group :: string
  at_version :: string
  at_resource :: string
  at_name :: string

definition review_for :: "api_resource \<Rightarrow> resource_attributes" where
  "review_for r =
     \<lparr>at_namespace = rs_namespace r, at_verb = get_verb_for_resource r, at_group = get_api_group (rs_api_version r),
      at_version = get_api_version (rs_api_version r), at_resource = get_resource_name (rs_kind r), at_name = rs_name r\<rparr>"

section \<open>The cache of permissions\<close>

text \<open>The lifetime is a natural number of nanoseconds: it is five minutes for every cache made.\<close>

record permission_cache =
  pc_entries :: "(string \<times> bool \<times> int) list"
  pc_ttl :: nat

definition new_permission_cache :: permission_cache where
  "new_permission_cache = \<lparr>pc_entries = [], pc_ttl = 5 * 60 * 1000000000\<rparr>"

definition pc_get :: "string \<Rightarrow> int \<Rightarrow> permission_cache \<Rightarrow> bool option" where
  "pc_get k now c =
     (case map_of (pc_entries c) k of
        None \<Rightarrow> None
      | Some (allowed, t) \<Rightarrow> if now - t > int (pc_ttl c) then None else Some allowed)"

definition pc_expired :: "int \<Rightarrow> permission_cache \<Rightarrow> string \<Rightarrow> bool" where
  "pc_expired now c k = (case map_of (pc_entries c) k of Some (_, t) \<Rightarrow> now - t > int (pc_ttl c) | None \<Rightarrow> False)"

definition pc_cleanup :: "int \<Rightarrow> permission_cache \<Rightarrow> permission_cache" where
  "pc_cleanup now c = c\<lparr>pc_entries := filter (\<lambda>(k, _). \<not> pc_expired now c k) (pc_entries c)\<rparr>"

definition pc_set :: "string \<Rightarrow> bool \<Rightarrow> int \<Rightarrow> permission_cache \<Rightarrow> permission_cache" where
  "pc_set k allowed now c =
     (let c1 = c\<lparr>pc_entries := AList.update k (allowed, now) (pc_entries c)\<rparr>
      in if length (pc_entries c1) > 1000 then pc_cleanup now c1 else c1)"

section \<open>Checks\<close>

definition check_permission ::
  "(resource_attributes \<Rightarrow> bool res) \<Rightarrow> int \<Rightarrow> api_resource \<Rightarrow> permission_cache \<Rightarrow> bool res \<times> permission_cache" where
  "check_permission review now r c =
     (case pc_get (get_cache_key r) now c of
        Some allowed \<Rightarrow> (Ok allowed, c)
      | None \<Rightarrow>
          (case review (review_for r) of
             Ok allowed \<Rightarrow> (Ok allowed, pc_set (get_cache_key r) allowed now c)
           | failed \<Rightarrow> (wrap_res ''failed to check RBAC permissions'' failed, c)))"

text \<open>A check that fails lets the resource through.\<close>

definition permissive :: "bool res \<Rightarrow> bool" where
  "permissive answer = (case answer of Ok allowed \<Rightarrow> allowed | _ \<Rightarrow> True)"

fun check_bulk_permissions ::
  "(resource_attributes \<Rightarrow> bool res) \<Rightarrow> int \<Rightarrow> api_resource list \<Rightarrow> permission_cache \<Rightarrow> (string \<rightharpoonup> bool) \<Rightarrow>
     (string \<rightharpoonup> bool) \<times> permission_cache" where
  "check_bulk_permissions review now [] c results = (results, c)"
| "check_bulk_permissions review now (r # rs) c results =
     (let (answer, c1) = check_permission review now r c
      in check_bulk_permissions review now rs c1 (results(get_cache_key r \<mapsto> permissive answer)))"

text \<open>
  \<open>FilterByPermissions\<close>: a goroutine waits for a place, looks into the cache and, when the answer is not there, asks the
  server; it then stores the answer and adds its resource. The time of the clock is one of the run.
\<close>

record filter_state =
  fi_waiting :: "api_resource list"
  fi_asking :: "api_resource list"
  fi_cache :: permission_cache
  fi_allowed :: "api_resource list"

definition filter_start :: "api_resource list \<Rightarrow> permission_cache \<Rightarrow> filter_state" where
  "filter_start rs c = \<lparr>fi_waiting = rs, fi_asking = [], fi_cache = c, fi_allowed = []\<rparr>"

definition add_allowed :: "bool \<Rightarrow> api_resource \<Rightarrow> filter_state \<Rightarrow> filter_state" where
  "add_allowed b r s = (if b then s\<lparr>fi_allowed := fi_allowed s @ [r]\<rparr> else s)"

definition store_answer :: "bool res \<Rightarrow> int \<Rightarrow> api_resource \<Rightarrow> filter_state \<Rightarrow> filter_state" where
  "store_answer answer now r s =
     (case answer of Ok b \<Rightarrow> s\<lparr>fi_cache := pc_set (get_cache_key r) b now (fi_cache s)\<rparr> | _ \<Rightarrow> s)"

inductive filter_step :: "(resource_attributes \<Rightarrow> bool res) \<Rightarrow> int \<Rightarrow> filter_state \<Rightarrow> filter_state \<Rightarrow> bool"
  for review :: "resource_attributes \<Rightarrow> bool res" and now :: int where
  hit: "filter_step review now s (add_allowed b r (s\<lparr>fi_waiting := xs @ ys\<rparr>))"
    if "fi_waiting s = xs @ r # ys" and "length (fi_asking s) < 10" and "pc_get (get_cache_key r) now (fi_cache s) = Some b"
| miss: "filter_step review now s (s\<lparr>fi_waiting := xs @ ys, fi_asking := fi_asking s @ [r]\<rparr>)"
    if "fi_waiting s = xs @ r # ys" and "length (fi_asking s) < 10" and "pc_get (get_cache_key r) now (fi_cache s) = None"
| answer: "filter_step review now s
      (add_allowed (permissive (review (review_for r))) r (store_answer (review (review_for r)) now r (s\<lparr>fi_asking := xs @ ys\<rparr>)))"
    if "fi_asking s = xs @ r # ys"

definition filter_done :: "filter_state \<Rightarrow> bool" where
  "filter_done s \<longleftrightarrow> fi_waiting s = [] \<and> fi_asking s = []"

text \<open>One schedule of it: one resource after the other.\<close>

fun filter_by_permissions ::
  "(resource_attributes \<Rightarrow> bool res) \<Rightarrow> int \<Rightarrow> api_resource list \<Rightarrow> permission_cache \<Rightarrow> api_resource list \<times> permission_cache" where
  "filter_by_permissions review now [] c = ([], c)"
| "filter_by_permissions review now (r # rs) c =
     (let (answer, c1) = check_permission review now r c; (allowed, c2) = filter_by_permissions review now rs c1
      in (if permissive answer then r # allowed else allowed, c2))"

section \<open>The reporter\<close>

record permission_issue =
  pi_resource :: string
  pi_namespace :: string
  pi_verb :: string
  pi_collector :: string
  pi_reason :: string

record rbac_reporter =
  rr_warnings :: "string list"
  rr_filtered :: "auto_spec list"
  rr_issues :: "permission_issue list"

definition new_rbac_reporter :: rbac_reporter where
  "new_rbac_reporter = \<lparr>rr_warnings = [], rr_filtered = [], rr_issues = []\<rparr>"

definition rbac_reset :: "rbac_reporter \<Rightarrow> rbac_reporter" where
  "rbac_reset rr = rr\<lparr>rr_warnings := [], rr_filtered := [], rr_issues := []\<rparr>"

definition issue_resource :: "string \<Rightarrow> string" where
  "issue_resource t =
     (if t = CollectorTypeConfigMaps then ''configmaps'' else if t = CollectorTypeSecrets then ''secrets''
      else if t = CollectorTypeLogs then ''pods'' else if t = CollectorTypeClusterResources then ''nodes,namespaces''
      else if t = CollectorTypeClusterInfo then ''nodes'' else t)"

definition track_permission_issue :: "auto_spec \<Rightarrow> string \<Rightarrow> rbac_reporter \<Rightarrow> rbac_reporter" where
  "track_permission_issue c reason rr =
     rr\<lparr>rr_issues := rr_issues rr @
       [\<lparr>pi_resource = issue_resource (ds_type c), pi_namespace = ds_namespace c, pi_verb = ''get,list'', pi_collector = ds_name c,
         pi_reason = reason\<rparr>]\<rparr>"

text \<open>The sign before a warning, in UTF-8.\<close>

definition warning_sign :: string where
  "warning_sign = [CHR 0xE2, CHR 0x9A, CHR 0xA0, CHR 0xEF, CHR 0xB8, CHR 0x8F] @ ''  ''"

definition report_filtered_collector :: "auto_spec \<Rightarrow> string \<Rightarrow> rbac_reporter \<Rightarrow> rbac_reporter" where
  "report_filtered_collector c reason rr =
     track_permission_issue c reason
       (rr\<lparr>rr_warnings := rr_warnings rr @ [warning_sign @ ''Skipping '' @ ds_name c @ '': '' @ reason],
           rr_filtered := rr_filtered rr @ [c]\<rparr>)"

definition report_missing_permission :: "string \<Rightarrow> string \<Rightarrow> string \<Rightarrow> string \<Rightarrow> rbac_reporter \<Rightarrow> rbac_reporter" where
  "report_missing_permission res ns verb collector rr =
     (let location = (if ns \<noteq> [] then res @ '' in namespace '' @ ns else ''cluster-wide '' @ res);
          warning = warning_sign @ ''Missing '' @ verb @ '' permission for '' @ location @ '' (needed by '' @ collector @ '' collector)''
      in rr\<lparr>rr_warnings := rr_warnings rr @ [warning],
            rr_issues := rr_issues rr @
              [\<lparr>pi_resource = res, pi_namespace = ns, pi_verb = verb, pi_collector = collector,
                pi_reason = ''Missing '' @ verb @ '' permission''\<rparr>]\<rparr>)"

definition has_warnings :: "rbac_reporter \<Rightarrow> bool" where
  "has_warnings rr \<longleftrightarrow> 0 < length (rr_warnings rr)"

definition get_warning_count :: "rbac_reporter \<Rightarrow> nat" where
  "get_warning_count rr = length (rr_warnings rr)"

definition get_filtered_collector_count :: "rbac_reporter \<Rightarrow> nat" where
  "get_filtered_collector_count rr = length (rr_filtered rr)"

fun remove_duplicates_from :: "string set \<Rightarrow> string list \<Rightarrow> string list" where
  "remove_duplicates_from keys [] = []"
| "remove_duplicates_from keys (x # xs) =
     (if x \<in> keys then remove_duplicates_from keys xs else x # remove_duplicates_from (insert x keys) xs)"

definition remove_duplicates :: "string list \<Rightarrow> string list" where
  "remove_duplicates xs = remove_duplicates_from {} xs"

text \<open>The resources named by the commands for the cluster and for the namespaces.\<close>

definition remediation_resources :: "rbac_reporter \<Rightarrow> string list \<times> string list" where
  "remediation_resources rr =
     (remove_duplicates (map pi_resource (filter (\<lambda>i. pi_namespace i = []) (rr_issues rr))),
      remove_duplicates (map pi_resource (filter (\<lambda>i. pi_namespace i \<noteq> []) (rr_issues rr))))"

text \<open>The numbers of the summary: collected and skipped, printed when something was skipped.\<close>

definition summarize_collection_results :: "int \<Rightarrow> rbac_reporter \<Rightarrow> (int \<times> int) option" where
  "summarize_collection_results n rr =
     (if 0 < length (rr_filtered rr) then Some (n - int (length (rr_filtered rr)), int (length (rr_filtered rr))) else None)"

section \<open>The cache keeps the contract\<close>

definition pc_holds :: "permission_cache \<Rightarrow> string \<Rightarrow> (bool \<times> int) option" where
  "pc_holds c = map_of (pc_entries c)"

lemma map_of_filter_keys: "map_of (filter (\<lambda>(k, _). P k) xs) k = (if P k then map_of xs k else None)"
  by (induction xs) auto

lemma pc_cleanup_holds: "pc_holds (pc_cleanup now c) k = (if pc_expired now c k then None else pc_holds c k)"
  by (simp add: pc_holds_def pc_cleanup_def map_of_filter_keys)

lemma pc_set_holds:
  "pc_holds (pc_set k b now c) j = (if j = k then Some (b, now) else pc_holds c j) \<or>
   j \<noteq> k \<and> pc_holds (pc_set k b now c) j = None"
  unfolding pc_set_def Let_def
  by (auto simp: pc_cleanup_holds pc_expired_def split: option.splits) (auto simp: pc_holds_def update_conv')

lemma pc_ttl_simps [simp]: "pc_ttl (pc_cleanup now c) = pc_ttl c" "pc_ttl (pc_set k b now c) = pc_ttl c"
  by (simp_all add: pc_cleanup_def pc_set_def Let_def)

interpretation permissions: lossy_map "\<lambda>k now c. (pc_get k now c, c)" pc_set pc_holds "\<lambda>c. int (pc_ttl c)"
proof
  fix k j :: string and now t :: int and c :: permission_cache and v :: bool
  show "fst (pc_get k now c, c) = Some v \<Longrightarrow> \<exists>t. pc_holds c k = Some (v, t) \<and> now - t \<le> int (pc_ttl c)"
    by (auto simp: pc_get_def pc_holds_def split: option.splits if_splits)
  show "pc_holds c k = Some (v, t) \<Longrightarrow> now - t \<le> int (pc_ttl c) \<Longrightarrow> fst (pc_get k now c, c) = Some v"
    by (simp add: pc_get_def pc_holds_def)
  show "pc_holds (pc_set k v now c) k = Some (v, now)" using pc_set_holds [of k v now c k] by simp
  show "j \<noteq> k \<Longrightarrow> pc_holds (pc_set k v now c) j = None \<or> pc_holds (pc_set k v now c) j = pc_holds c j"
    using pc_set_holds [of k v now c j] by auto
qed simp_all

text \<open>
  The lifetime bounds what a permission answers for, and nothing else is bounded: a cleanup keeps every entry still valid, so
  a cache of more than a thousand valid answers keeps growing.
\<close>

theorem permission_cache_grows:
  assumes "\<forall>k v t. pc_holds c k = Some (v, t) \<longrightarrow> now - t \<le> int (pc_ttl c)"
  shows "pc_holds (pc_set k b now c) = (pc_holds c)(k \<mapsto> (b, now))"
proof -
  have "\<not> pc_expired now (c\<lparr>pc_entries := AList.update k (b, now) (pc_entries c)\<rparr>) j" for j
    using assms by (auto simp: pc_expired_def pc_holds_def update_conv' split: option.splits) fastforce
  then show ?thesis
    by (simp add: pc_set_def Let_def pc_cleanup_def pc_holds_def update_conv')
qed

theorem permission_cache_grows_witness:
  "pc_holds (pc_set ''k'' True 3 \<lparr>pc_entries = [(''a'', False, 2)], pc_ttl = 5\<rparr>) =
     (pc_holds \<lparr>pc_entries = [(''a'', False, 2)], pc_ttl = 5\<rparr>)(''k'' \<mapsto> (True, 3))"
  by (rule permission_cache_grows) (simp add: pc_holds_def)

section \<open>Every schedule of the checks\<close>

text \<open>The names of Kubernetes objects and kinds have no slashes, so the keys of the cache tell resources apart.\<close>

definition slash_free :: "api_resource \<Rightarrow> bool" where
  "slash_free r \<longleftrightarrow> CHR ''/'' \<notin> set (rs_kind r) \<union> set (rs_namespace r) \<union> set (rs_name r)"

lemma cache_key_injective: "\<forall>r\<in>R. slash_free r \<Longrightarrow> inj_on get_cache_key R"
proof (rule inj_onI)
  fix r q :: api_resource
  assume R: "\<forall>r\<in>R. slash_free r" and "r \<in> R" and "q \<in> R" and eq: "get_cache_key r = get_cache_key q"
  have cut: "a = b \<and> x = y" if "a @ CHR ''/'' # x = b @ CHR ''/'' # y" "CHR ''/'' \<notin> set x" "CHR ''/'' \<notin> set y" for a b x y :: string
    using that cut_last_append [of "CHR ''/''" x a] cut_last_append [of "CHR ''/''" y b] by (metis prod.inject)
  have free: "slash_free r" "slash_free q" using R \<open>r \<in> R\<close> \<open>q \<in> R\<close> by auto
  have "(rs_api_version r @ ''/'' @ rs_kind r @ ''/'' @ rs_namespace r) @ CHR ''/'' # rs_name r =
      (rs_api_version q @ ''/'' @ rs_kind q @ ''/'' @ rs_namespace q) @ CHR ''/'' # rs_name q"
    using eq by (simp add: get_cache_key_def)
  from cut [OF this] free have 1: "rs_name r = rs_name q"
    and "(rs_api_version r @ ''/'' @ rs_kind r) @ CHR ''/'' # rs_namespace r = (rs_api_version q @ ''/'' @ rs_kind q) @ CHR ''/'' # rs_namespace q"
    by (auto simp: slash_free_def)
  from cut [OF this(2)] free have 2: "rs_namespace r = rs_namespace q"
    and "rs_api_version r @ CHR ''/'' # rs_kind r = rs_api_version q @ CHR ''/'' # rs_kind q"
    by (auto simp: slash_free_def)
  from cut [OF this(2)] free have "rs_api_version r = rs_api_version q" "rs_kind r = rs_kind q" by (auto simp: slash_free_def)
  with 1 2 show "r = q" by simp
qed

definition answers_of :: "(resource_attributes \<Rightarrow> bool res) \<Rightarrow> api_resource set \<Rightarrow> string \<Rightarrow> bool \<Rightarrow> bool" where
  "answers_of review R k b \<longleftrightarrow> (\<forall>r\<in>R. get_cache_key r = k \<longrightarrow> review (review_for r) = Ok b)"

definition cache_truthful :: "(resource_attributes \<Rightarrow> bool res) \<Rightarrow> api_resource set \<Rightarrow> permission_cache \<Rightarrow> bool" where
  "cache_truthful review R c \<longleftrightarrow> (\<forall>k b t. pc_holds c k = Some (b, t) \<longrightarrow> answers_of review R k b)"

lemma cache_truthful_holds: "cache_truthful review R c \<Longrightarrow> permissions.holds_only (answers_of review R) c"
  by (simp add: cache_truthful_def permissions.holds_only_def)

lemma new_cache_truthful: "cache_truthful review R new_permission_cache"
  by (simp add: cache_truthful_def pc_holds_def new_permission_cache_def)

definition permitted :: "(resource_attributes \<Rightarrow> bool res) \<Rightarrow> api_resource \<Rightarrow> bool" where
  "permitted review r = permissive (review (review_for r))"

definition filter_measure :: "filter_state \<Rightarrow> nat" where
  "filter_measure s = 2 * length (fi_waiting s) + length (fi_asking s)"

definition filter_inv :: "(resource_attributes \<Rightarrow> bool res) \<Rightarrow> api_resource list \<Rightarrow> filter_state \<Rightarrow> bool" where
  "filter_inv review rs s \<longleftrightarrow>
     permissions.holds_only (answers_of review (set rs)) (fi_cache s) \<and>
     set (fi_waiting s) \<union> set (fi_asking s) \<subseteq> set rs \<and> length (fi_asking s) \<le> 10 \<and>
     mset (fi_allowed s) + filter_mset (permitted review) (mset (fi_waiting s) + mset (fi_asking s)) = filter_mset (permitted review) (mset rs)"

lemma answers_of_own: "r \<in> R \<Longrightarrow> answers_of review R (get_cache_key r) b \<Longrightarrow> permitted review r = b"
  by (simp add: answers_of_def permitted_def permissive_def)

lemma answers_of_store:
  "inj_on get_cache_key R \<Longrightarrow> r \<in> R \<Longrightarrow> review (review_for r) = Ok b \<Longrightarrow> answers_of review R (get_cache_key r) b"
  by (auto simp: answers_of_def dest: inj_onD)

lemma filter_state_simps [simp]:
  "fi_waiting (add_allowed b r s) = fi_waiting s" "fi_asking (add_allowed b r s) = fi_asking s" "fi_cache (add_allowed b r s) = fi_cache s"
  "fi_waiting (store_answer ans now r s) = fi_waiting s" "fi_asking (store_answer ans now r s) = fi_asking s"
  "fi_allowed (store_answer ans now r s) = fi_allowed s"
  "mset (fi_allowed (add_allowed b r s)) = mset (fi_allowed s) + (if b then {#r#} else {#})"
  by (simp_all add: add_allowed_def store_answer_def split: res.split)

lemma store_answer_only:
  assumes "inj_on get_cache_key R" and "r \<in> R" and "permissions.holds_only (answers_of review R) (fi_cache s)"
  shows "permissions.holds_only (answers_of review R) (fi_cache (store_answer (review (review_for r)) now r s))"
  using assms answers_of_store [OF assms(1,2), of review]
  by (cases "review (review_for r)") (auto simp: store_answer_def intro: permissions.holds_only_put)

lemma filter_step_inv:
  assumes "inj_on get_cache_key (set rs)" and "filter_step review now s t" and "filter_inv review rs s"
  shows "filter_inv review rs t \<and> filter_measure t < filter_measure s"
  using assms(2)
proof cases
  case (hit xs r ys b)
  have r: "r \<in> set rs" using hit(2) assms(3) by (auto simp: filter_inv_def)
  have "answers_of review (set rs) (get_cache_key r) b"
    using permissions.get_only [of "answers_of review (set rs)" "fi_cache s" "get_cache_key r" now b] hit(4) assms(3)
    by (simp add: filter_inv_def)
  then have "permitted review r = b" by (rule answers_of_own [OF r])
  with hit assms(3) show ?thesis by (auto simp: filter_inv_def filter_measure_def ac_simps)
next
  case (miss xs r ys)
  with assms(3) show ?thesis by (auto simp: filter_inv_def filter_measure_def)
next
  case (answer xs r ys)
  have r: "r \<in> set rs" using answer(2) assms(3) by (auto simp: filter_inv_def)
  have "permissions.holds_only (answers_of review (set rs)) (fi_cache t)"
    using store_answer_only [OF assms(1) r, of review "s\<lparr>fi_asking := xs @ ys\<rparr>" now] assms(3) answer(1) by (simp add: filter_inv_def)
  with answer assms(3) show ?thesis
    by (auto simp: filter_inv_def filter_measure_def permitted_def [symmetric] ac_simps)
qed

lemma filter_start_inv:
  "permissions.holds_only (answers_of review (set rs)) c \<Longrightarrow> filter_inv review rs (filter_start rs c)"
  by (simp add: filter_inv_def filter_start_def)

lemma filter_steps_inv:
  assumes "(filter_step review now)\<^sup>*\<^sup>* s t" and "inj_on get_cache_key (set rs)" and "filter_inv review rs s"
  shows "filter_inv review rs t"
  using assms(1) by induction (use assms(2,3) filter_step_inv in blast)+

lemma filter_run_result:
  assumes "\<forall>r\<in>set rs. slash_free r" and "cache_truthful review (set rs) c"
    and "(filter_step review now)\<^sup>*\<^sup>* (filter_start rs c) s"
  shows "length (fi_asking s) \<le> 10" and "filter_done s \<Longrightarrow> mset (fi_allowed s) = mset (filter (permitted review) rs)"
proof -
  have "filter_inv review rs s"
    by (rule filter_steps_inv [OF assms(3) cache_key_injective [OF assms(1)] filter_start_inv [OF cache_truthful_holds [OF assms(2)]]])
  then show "length (fi_asking s) \<le> 10" and "filter_done s \<Longrightarrow> mset (fi_allowed s) = mset (filter (permitted review) rs)"
    by (auto simp: filter_inv_def filter_done_def mset_filter)
qed

text \<open>
  C13. However the goroutines are scheduled, \<open>FilterByPermissions\<close> never has more than ten reviews under way, and when all
  are done the resources let through are exactly those the server allows or cannot answer for, provided the cache started with
  true answers.
\<close>

theorem permissions_filtered:
  assumes "\<forall>r\<in>set rs. slash_free r" and "cache_truthful review (set rs) c"
    and "(filter_step review now)\<^sup>*\<^sup>* (filter_start rs c) s"
  shows "length (fi_asking s) \<le> 10 \<and>
    (filter_done s \<longrightarrow> mset (fi_allowed s) = mset (filter (permitted review) rs))"
  using filter_run_result [OF assms] by blast

text \<open>
  The checks end: a schedule that is not done can go on, and no schedule takes more than two steps for a resource.
\<close>

theorem permission_checks_end:
  assumes "\<forall>r\<in>set rs. slash_free r" and "cache_truthful review (set rs) c"
    and "(filter_step review now ^^ n) (filter_start rs c) s"
  shows "n \<le> 2 * length rs \<and> (filter_done s \<or> (\<exists>t. filter_step review now s t))"
proof
  note inj = cache_key_injective [OF assms(1)]
  have "filter_inv review rs s \<and> n + filter_measure s \<le> 2 * length rs"
    using assms(3)
  proof (induction n arbitrary: s)
    case 0
    then have "s = filter_start rs c" by simp
    then show ?case using filter_start_inv [OF cache_truthful_holds [OF assms(2)]] by (simp add: filter_measure_def) (simp add: filter_start_def)
  next
    case (Suc n)
    then obtain u where "(filter_step review now ^^ n) (filter_start rs c) u" "filter_step review now u s" by auto
    with Suc.IH filter_step_inv [OF inj] show ?case by fastforce
  qed
  then show "n \<le> 2 * length rs" by simp
  show "filter_done s \<or> (\<exists>t. filter_step review now s t)"
  proof (cases "fi_asking s")
    case Nil
    then show ?thesis
    proof (cases "fi_waiting s")
      case (Cons r ys)
      show ?thesis
      proof (cases "pc_get (get_cache_key r) now (fi_cache s)")
        case None
        then show ?thesis using filter_step.miss [of s "[]" r ys now review] Cons \<open>fi_asking s = []\<close> by auto
      next
        case (Some b)
        then show ?thesis using filter_step.hit [of s "[]" r ys now b review] Cons \<open>fi_asking s = []\<close> by auto
      qed
    qed (simp add: filter_done_def)
  next
    case (Cons r ys)
    then show ?thesis using filter_step.answer [of s "[]" r ys review now] by auto
  qed
qed

text \<open>The schedule one after the other is one of them.\<close>

lemma filter_sequence:
  "filter_by_permissions review now rs c = (allowed, c') \<Longrightarrow>
   (filter_step review now)\<^sup>*\<^sup>* \<lparr>fi_waiting = rs, fi_asking = [], fi_cache = c, fi_allowed = before\<rparr>
     \<lparr>fi_waiting = [], fi_asking = [], fi_cache = c', fi_allowed = before @ allowed\<rparr>"
proof (induction rs arbitrary: c allowed before)
  case (Cons r rs)
  let ?s = "\<lparr>fi_waiting = r # rs, fi_asking = [], fi_cache = c, fi_allowed = before\<rparr>"
  obtain ans c1 rest c2 where eqs: "check_permission review now r c = (ans, c1)" "filter_by_permissions review now rs c1 = (rest, c2)"
    by fastforce
  have all: "allowed = (if permissive ans then r # rest else rest)" "c2 = c'" using Cons.prems eqs by (auto split: if_splits)
  let ?b = "if permissive ans then before @ [r] else before"
  let ?t = "\<lparr>fi_waiting = rs, fi_asking = [], fi_cache = c1, fi_allowed = ?b\<rparr>"
  have "(filter_step review now)\<^sup>*\<^sup>* ?s ?t"
  proof (cases "pc_get (get_cache_key r) now c")
    case (Some b)
    with eqs have "ans = Ok b" "c1 = c" by (simp_all add: check_permission_def)
    with Some show ?thesis using filter_step.hit [of ?s "[]" r rs now b review]
      by (intro r_into_rtranclp) (auto simp: add_allowed_def permissive_def)
  next
    case None
    let ?u = "\<lparr>fi_waiting = rs, fi_asking = [r], fi_cache = c, fi_allowed = before\<rparr>"
    have "filter_step review now ?s ?u" using filter_step.miss [of ?s "[]" r rs now review] None by simp
    moreover have "filter_step review now ?u ?t"
    proof -
      have eq: "(ans, c1) = (case review (review_for r) of
          Ok b \<Rightarrow> (Ok b, pc_set (get_cache_key r) b now c)
        | failed \<Rightarrow> (wrap_res ''failed to check RBAC permissions'' failed, c))"
        using eqs(1) None by (simp add: check_permission_def)
      have ans: "permissive ans = permissive (review (review_for r))"
        using eq by (cases "review (review_for r)") (simp_all add: permissive_def)
      have c1: "c1 = (case review (review_for r) of Ok b \<Rightarrow> pc_set (get_cache_key r) b now c | _ \<Rightarrow> c)"
        using eq by (cases "review (review_for r)") simp_all
      have "add_allowed (permissive ans) r (store_answer (review (review_for r)) now r (?u\<lparr>fi_asking := []\<rparr>)) = ?t"
        by (simp add: c1 add_allowed_def store_answer_def split: res.split)
      then show ?thesis using filter_step.answer [of ?u "[]" r "[]" review now] ans by simp
    qed
    ultimately show ?thesis by (meson r_into_rtranclp rtranclp_trans)
  qed
  moreover have "(filter_step review now)\<^sup>*\<^sup>* ?t \<lparr>fi_waiting = [], fi_asking = [], fi_cache = c', fi_allowed = ?b @ rest\<rparr>"
    using Cons.IH [of c1 rest ?b] eqs(2) all(2) by simp
  ultimately show ?case using all by (auto dest: rtranclp_trans)
qed simp

lemma filter_by_permissions_run:
  "filter_by_permissions review now rs c = (allowed, c') \<Longrightarrow>
   (filter_step review now)\<^sup>*\<^sup>* (filter_start rs c) \<lparr>fi_waiting = [], fi_asking = [], fi_cache = c', fi_allowed = allowed\<rparr>"
  using filter_sequence [of review now rs c allowed c' "[]"] by (simp add: filter_start_def)

definition pod_in :: "string \<Rightarrow> api_resource" where
  "pod_in ns = \<lparr>rs_api_version = ''v1'', rs_kind = ''Pod'', rs_namespace = ns, rs_name = ''*''\<rparr>"

definition only_in :: "string \<Rightarrow> resource_attributes \<Rightarrow> bool res" where
  "only_in ns a = (if at_namespace a = ns then Ok True else if at_namespace a = [] then Fail (Err ''unavailable'') else Ok False)"

theorem permissions_filtered_witness:
  "\<exists>s. filter_done s \<and> (filter_step (only_in ''a'') 0)\<^sup>*\<^sup>* (filter_start [pod_in ''a'', pod_in ''b'', pod_in []] new_permission_cache) s \<and>
     mset (fi_allowed s) = mset [pod_in ''a'', pod_in []]"
proof -
  let ?rs = "[pod_in ''a'', pod_in ''b'', pod_in []]"
  obtain allowed c where "filter_by_permissions (only_in ''a'') 0 ?rs new_permission_cache = (allowed, c)" by fastforce
  note run = filter_by_permissions_run [OF this]
  let ?s = "\<lparr>fi_waiting = [], fi_asking = [], fi_cache = c, fi_allowed = allowed\<rparr>"
  have s: "filter_done ?s" by (simp add: filter_done_def)
  have free: "\<forall>r\<in>set ?rs. slash_free r" by (simp add: slash_free_def pod_in_def)
  have "filter (permitted (only_in ''a'')) ?rs = [pod_in ''a'', pod_in []]"
    by (simp add: permitted_def permissive_def only_in_def review_for_def pod_in_def)
  with permissions_filtered [OF free new_cache_truthful run] s have "mset (fi_allowed ?s) = mset [pod_in ''a'', pod_in []]" by simp
  with s run show ?thesis by blast
qed

theorem permission_checks_end_witness:
  "\<exists>s. (filter_step (only_in ''a'') 0 ^^ 1) (filter_start [pod_in ''a''] new_permission_cache) s \<and> (1::nat) \<le> 2 * length [pod_in ''a''] \<and>
     (filter_done s \<or> (\<exists>t. filter_step (only_in ''a'') 0 s t))"
proof -
  let ?s = "filter_start [pod_in ''a''] new_permission_cache"
  have free: "\<forall>r\<in>set [pod_in ''a'']. slash_free r" by (simp add: slash_free_def pod_in_def)
  have "\<exists>s. filter_step (only_in ''a'') 0 ?s s"
    using filter_step.miss [of ?s "[]" "pod_in ''a''" "[]" 0 "only_in ''a''"]
    by (auto simp: filter_start_def pc_get_def new_permission_cache_def)
  then obtain s where "(filter_step (only_in ''a'') 0 ^^ 1) ?s s" by auto
  with permission_checks_end [OF free new_cache_truthful this] show ?thesis by blast
qed

end
