(* ===== verification/Namespace_Scanner.thy ===== *)
theory Namespace_Scanner
  imports Exchange_Sort Image_References
begin

text \<open>
  The scanner of namespaces (\<^verbatim>\<open>pkg/collect/autodiscovery/namespace_scanner.go\<close>) and the discovery configuration of the
  command line with its patterns (\<^verbatim>\<open>cmd/troubleshoot/cli/discovery_config.go\<close>). What the API lists, the label selectors and the
  decoder of JSON are parameters.
\<close>

section \<open>Patterns\<close>

definition matches_pattern :: "string \<Rightarrow> string \<Rightarrow> bool" where
  "matches_pattern name pattern =
     (if pattern = ''*'' then True
      else if \<not> contains_sub ''*'' pattern then name = pattern
      else if has_prefix ''*'' pattern \<and> has_suffix ''*'' pattern then contains_sub (butlast (tl pattern)) name
      else if has_prefix ''*'' pattern then has_suffix (tl pattern) name
      else if has_suffix ''*'' pattern then has_prefix (butlast pattern) name
      else name = pattern)"

definition match_pattern :: "string \<Rightarrow> string \<Rightarrow> bool res" where
  "match_pattern item pattern =
     (if pattern = ''*'' then Ok True
      else if pattern = item then Ok True
      else if has_prefix ''*'' pattern \<and> has_suffix ''*'' pattern then Ok (contains_sub (butlast (tl pattern)) item)
      else if has_prefix ''*'' pattern then Ok (has_suffix (tl pattern) item)
      else if has_suffix ''*'' pattern then Ok (has_prefix (butlast pattern) item)
      else Ok False)"

section \<open>The scanner\<close>

record scan_options =
  include_patterns :: "string list"
  exclude_patterns :: "string list"
  label_selector :: string
  include_system_namespaces :: bool

definition system_namespaces :: "string list" where
  "system_namespaces =
     [''kube-system'', ''kube-public'', ''kube-node-lease'', ''kubernetes-dashboard'', ''cattle-system'', ''rancher-system'',
      ''longhorn-system'', ''monitoring'', ''logging'', ''istio-system'', ''linkerd'']"

definition is_system_namespace :: "string \<Rightarrow> bool" where
  "is_system_namespace name \<longleftrightarrow>
     name \<in> set system_namespaces \<or>
     list_ex (\<lambda>p. has_prefix p name) [''kube-'', ''cattle-'', ''rancher-'', ''istio-'', ''linkerd-'']"

definition should_include_namespace :: "string \<Rightarrow> scan_options \<Rightarrow> bool" where
  "should_include_namespace name opts =
     (if \<not> include_system_namespaces opts \<and> is_system_namespace name then False
      else if list_ex (matches_pattern name) (exclude_patterns opts) then False
      else if length (include_patterns opts) > 0 \<and> \<not> list_ex (matches_pattern name) (include_patterns opts) then False
      else True)"

record resource_count =
  rc_pods :: nat
  rc_deployments :: nat
  rc_services :: nat
  rc_config_maps :: nat
  rc_secrets :: nat

record namespace_info =
  ni_name :: string
  ni_labels :: "(string \<times> string) list"
  ni_is_system :: bool
  ni_resource_count :: resource_count

text \<open>What the API says of a namespace: its object, and the lists of its objects by length.\<close>

record namespace_api =
  na_labels :: "(string \<times> string) list res"
  na_pods :: "nat res"
  na_deployments :: "nat res"
  na_services :: "nat res"
  na_config_maps :: "nat res"
  na_secrets :: "nat res"

definition count_of :: "nat res \<Rightarrow> nat" where
  "count_of listed = (case listed of Ok n \<Rightarrow> n | _ \<Rightarrow> 0)"

definition get_resource_count :: "namespace_api \<Rightarrow> resource_count" where
  "get_resource_count a =
     \<lparr>rc_pods = count_of (na_pods a), rc_deployments = count_of (na_deployments a), rc_services = count_of (na_services a),
      rc_config_maps = count_of (na_config_maps a), rc_secrets = count_of (na_secrets a)\<rparr>"

fun scan_loop :: "(string \<Rightarrow> namespace_api) \<Rightarrow> scan_options \<Rightarrow> (string \<times> (string \<times> string) list) list \<Rightarrow> namespace_info list" where
  "scan_loop api opts [] = []"
| "scan_loop api opts ((n, labels) # rest) =
     (if \<not> should_include_namespace n opts then scan_loop api opts rest
      else \<lparr>ni_name = n, ni_labels = labels, ni_is_system = is_system_namespace n, ni_resource_count = get_resource_count (api n)\<rparr> #
        scan_loop api opts rest)"

text \<open>\<open>listing\<close> gives the namespaces of a label selector.\<close>

definition scan_namespaces ::
  "(string \<Rightarrow> (string \<times> (string \<times> string) list) list res) \<Rightarrow> (string \<Rightarrow> namespace_api) \<Rightarrow> scan_options \<Rightarrow> namespace_info list res" where
  "scan_namespaces listing api opts =
     map_res (scan_loop api opts) (wrap_res ''failed to list namespaces'' (listing (label_selector opts)))"

definition validate_namespaces :: "(string \<Rightarrow> namespace_api) \<Rightarrow> string list \<Rightarrow> string list res" where
  "validate_namespaces api requested =
     (let valid = filter (\<lambda>n. is_ok (na_labels (api n))) requested
      in if length valid = 0 then Fail (Errf ''none of the requested namespaces are accessible: %v'' requested) else Ok valid)"

definition scanner_target_namespaces ::
  "(string \<Rightarrow> (string \<times> (string \<times> string) list) list res) \<Rightarrow> (string \<Rightarrow> namespace_api) \<Rightarrow> string list \<Rightarrow> scan_options \<Rightarrow>
     string list res" where
  "scanner_target_namespaces listing api requested opts =
     (if length requested > 0 then wrap_res ''failed to validate requested namespaces'' (validate_namespaces api requested)
      else map_res (map ni_name) (wrap_res ''failed to scan namespaces'' (scan_namespaces listing api opts)))"

fun filter_by_label_loop :: "(string \<Rightarrow> namespace_api) \<Rightarrow> ((string \<times> string) list \<Rightarrow> bool) \<Rightarrow> string list \<Rightarrow> string list" where
  "filter_by_label_loop api matches [] = []"
| "filter_by_label_loop api matches (n # ns) =
     (case na_labels (api n) of
        Ok ls \<Rightarrow> if matches ls then n # filter_by_label_loop api matches ns else filter_by_label_loop api matches ns
      | _ \<Rightarrow> filter_by_label_loop api matches ns)"

definition filter_namespaces_by_label ::
  "(string \<Rightarrow> ((string \<times> string) list \<Rightarrow> bool) res) \<Rightarrow> (string \<Rightarrow> namespace_api) \<Rightarrow> string list \<Rightarrow> string \<Rightarrow> string list res" where
  "filter_namespaces_by_label parse api ns selector =
     (if selector = [] then Ok ns
      else map_res (\<lambda>m. filter_by_label_loop api m ns) (wrap_res ''invalid label selector'' (parse selector)))"

definition get_total_resource_count :: "resource_count \<Rightarrow> nat" where
  "get_total_resource_count rc = rc_pods rc + rc_deployments rc + rc_services rc + rc_config_maps rc + rc_secrets rc"

definition get_namespaces_by_resource_activity ::
  "(string \<Rightarrow> (string \<times> (string \<times> string) list) list res) \<Rightarrow> (string \<Rightarrow> namespace_api) \<Rightarrow> scan_options \<Rightarrow> namespace_info list res" where
  "get_namespaces_by_resource_activity listing api opts =
     map_res (exchange_sort (\<lambda>i. - int (get_total_resource_count (ni_resource_count i)))) (scan_namespaces listing api opts)"

section \<open>The discovery configuration\<close>

record discovery_profile =
  dp_name :: string
  dp_description :: string
  dp_include_images :: bool
  dp_rbac_check :: bool
  dp_max_depth :: int
  dp_timeout :: int

definition seconds :: int where "seconds = 1000000000"

definition get_discovery_profiles :: "(string \<times> discovery_profile) list" where
  "get_discovery_profiles =
     [(''minimal'', \<lparr>dp_name = ''minimal'', dp_description = ''Minimal collection: cluster info, basic logs'',
         dp_include_images = False, dp_rbac_check = True, dp_max_depth = 1, dp_timeout = 15 * seconds\<rparr>),
      (''standard'', \<lparr>dp_name = ''standard'', dp_description = ''Standard collection: logs, configs, secrets, events'',
         dp_include_images = False, dp_rbac_check = True, dp_max_depth = 2, dp_timeout = 30 * seconds\<rparr>),
      (''comprehensive'', \<lparr>dp_name = ''comprehensive'', dp_description = ''Comprehensive collection: everything + image metadata'',
         dp_include_images = True, dp_rbac_check = True, dp_max_depth = 3, dp_timeout = 60 * seconds\<rparr>),
      (''paranoid'', \<lparr>dp_name = ''paranoid'', dp_description = ''Paranoid collection: maximum data with extended timeouts'',
         dp_include_images = True, dp_rbac_check = True, dp_max_depth = 5, dp_timeout = 120 * seconds\<rparr>)]"

record pattern_config =
  pn_include :: "string list"
  pn_exclude :: "string list"

record discovery_patterns =
  namespace_patterns :: pattern_config
  resource_type_patterns :: pattern_config
  registry_patterns :: pattern_config

record discovery_config =
  dc_version :: string
  dc_profiles :: "(string \<times> discovery_profile) list option"
  dc_patterns :: discovery_patterns

definition get_default_discovery_config :: discovery_config where
  "get_default_discovery_config =
     \<lparr>dc_version = ''v1'', dc_profiles = Some get_discovery_profiles,
      dc_patterns =
        \<lparr>namespace_patterns =
           \<lparr>pn_include = [''*''],
            pn_exclude = [''kube-system'', ''kube-public'', ''kube-node-lease'', ''kubernetes-dashboard'', ''cattle-*'', ''rancher-*'']\<rparr>,
         resource_type_patterns =
           \<lparr>pn_include = [''pods'', ''deployments'', ''services'', ''configmaps'', ''secrets'', ''events''],
            pn_exclude = [''*.tmp'', ''*.log'']\<rparr>,
         registry_patterns = \<lparr>pn_include = [''*''], pn_exclude = []\<rparr>\<rparr>\<rparr>"

definition validate_discovery_config :: "discovery_config \<Rightarrow> discovery_config res" where
  "validate_discovery_config c =
     (let c1 = (if dc_version c = [] then c\<lparr>dc_version := ''v1''\<rparr> else c) in
      case dc_profiles c1 of
        None \<Rightarrow> Fail (Err ''profiles section is required'')
      | Some ps \<Rightarrow>
          (case filter (\<lambda>n. map_of ps n = None) [''minimal'', ''standard'', ''comprehensive''] of
             [] \<Rightarrow> Ok c1
           | n # _ \<Rightarrow> Fail (Errf ''required profile missing: %s'' [n])))"

text \<open>The file: that it is missing, or what reading gives.\<close>

definition load_discovery_config ::
  "(string \<Rightarrow> discovery_config res) \<Rightarrow> (string \<Rightarrow> string res option) \<Rightarrow> string \<Rightarrow> discovery_config res" where
  "load_discovery_config unmarshal disk path =
     (if path = [] then Ok get_default_discovery_config
      else case disk path of
        None \<Rightarrow> Ok get_default_discovery_config
      | Some contents \<Rightarrow>
          bind_res (wrap_res ''failed to read discovery config file'' contents) (\<lambda>data.
          bind_res (wrap_res ''failed to parse discovery config'' (unmarshal data)) (\<lambda>c.
            wrap_res ''invalid discovery config'' (validate_discovery_config c))))"

fun any_matches :: "string \<Rightarrow> string \<Rightarrow> string list \<Rightarrow> bool res" where
  "any_matches what item [] = Ok False"
| "any_matches what item (p # ps) =
     (case match_pattern item p of
        Ok m \<Rightarrow> if m then Ok True else any_matches what item ps
      | Fail e \<Rightarrow> Fail (Wrap (what @ p) e)
      | Panic m \<Rightarrow> Panic m)"

definition item_included :: "pattern_config \<Rightarrow> string \<Rightarrow> bool res" where
  "item_included ps item =
     bind_res (any_matches ''invalid exclude pattern: '' item (pn_exclude ps)) (\<lambda>excluded.
       if \<not> excluded \<and> length (pn_include ps) > 0 then any_matches ''invalid include pattern: '' item (pn_include ps)
       else Ok (\<not> excluded))"

fun apply_patterns_loop :: "pattern_config \<Rightarrow> string list \<Rightarrow> string list res" where
  "apply_patterns_loop ps [] = Ok []"
| "apply_patterns_loop ps (item # items) =
     bind_res (item_included ps item) (\<lambda>b.
     bind_res (apply_patterns_loop ps items) (\<lambda>rest. Ok (if b then item # rest else rest)))"

definition apply_discovery_patterns :: "string list \<Rightarrow> pattern_config \<Rightarrow> string list res" where
  "apply_discovery_patterns items ps =
     (if length (pn_include ps) = 0 \<and> length (pn_exclude ps) = 0 then Ok items else apply_patterns_loop ps items)"

section \<open>Properties\<close>

lemma has_suffix_iff_rev: "has_suffix [c] s \<longleftrightarrow> s \<noteq> [] \<and> last s = c"
  by (metis append_butlast_last_id append_is_Nil_conv has_suffix_iff last_snoc not_Cons_self2)

lemma prefix_of_self: "has_prefix (butlast p) p"
  by (metis append_butlast_last_id butlast.simps(1) has_prefix_append has_prefix_Nil)

lemma match_pattern_scanner: "match_pattern item p = Ok (matches_pattern item p)"
proof (cases "p = item \<and> p \<noteq> ''*''")
  case True
  have "contains_sub (butlast (tl p)) p"
    unfolding contains_sub_iff
    by (cases p) (auto, metis append_Nil append_butlast_last_id append_Cons butlast.simps(1) append.right_neutral)
  moreover have "has_suffix (tl p) p" by (cases p) (auto simp: has_suffix_iff)
  ultimately show ?thesis using True prefix_of_self by (auto simp: match_pattern_def matches_pattern_def)
next
  case False
  have "\<not> has_prefix ''*'' p \<and> \<not> has_suffix ''*'' p" if "CHR ''*'' \<notin> set p"
    using that by (auto simp: has_prefix_iff has_suffix_iff)
  with False show ?thesis by (auto simp: match_pattern_def matches_pattern_def)
qed

lemma any_matches_scanner: "any_matches what item ps = Ok (list_ex (matches_pattern item) ps)"
  by (induction ps) (simp_all add: match_pattern_scanner)

definition all_namespaces :: "pattern_config \<Rightarrow> scan_options" where
  "all_namespaces ps =
     \<lparr>include_patterns = pn_include ps, exclude_patterns = pn_exclude ps, label_selector = [], include_system_namespaces = True\<rparr>"

lemma item_included_scanner: "item_included ps item = Ok (should_include_namespace item (all_namespaces ps))"
  by (auto simp: item_included_def any_matches_scanner should_include_namespace_def all_namespaces_def)

text \<open>
  C30. The two implementations of patterns agree: the patterns of the discovery configuration never fail, and they select the
  names the scanner of namespaces selects with the same patterns when system namespaces count.
\<close>

theorem patterns_agree:
  "match_pattern item p = Ok (matches_pattern item p) \<and>
   apply_discovery_patterns items ps = Ok (filter (\<lambda>n. should_include_namespace n (all_namespaces ps)) items)"
proof
  have loop: "apply_patterns_loop ps items = Ok (filter (\<lambda>n. should_include_namespace n (all_namespaces ps)) items)"
    by (induction items) (simp_all add: item_included_scanner)
  have "filter (\<lambda>n. should_include_namespace n (all_namespaces ps)) items = items"
    if "pn_include ps = []" "pn_exclude ps = []"
    using that by (simp add: should_include_namespace_def all_namespaces_def)
  with loop show "apply_discovery_patterns items ps = Ok (filter (\<lambda>n. should_include_namespace n (all_namespaces ps)) items)"
    by (auto simp: apply_discovery_patterns_def)
qed (rule match_pattern_scanner)

text \<open>
  What a pattern means: a star at one end or at both stands for any text, and a star in the middle stands for itself.
\<close>

theorem pattern_meaning:
  assumes "CHR ''*'' \<notin> set w" and "w \<noteq> []" and "CHR ''*'' \<notin> set v" and "v \<noteq> []"
  shows "(matches_pattern n w \<longleftrightarrow> n = w) \<and> (matches_pattern n (''*'' @ w) \<longleftrightarrow> (\<exists>a. n = a @ w)) \<and>
    (matches_pattern n (w @ ''*'') \<longleftrightarrow> (\<exists>b. n = w @ b)) \<and> (matches_pattern n (''*'' @ w @ ''*'') \<longleftrightarrow> (\<exists>a b. n = a @ w @ b)) \<and>
    (matches_pattern n (w @ ''*'' @ v) \<longleftrightarrow> n = w @ ''*'' @ v)"
proof (intro conjI)
  have ends: "last w \<noteq> CHR ''*''" "last v \<noteq> CHR ''*''" by (metis assms last_in_set)+
  have nostar: "\<not> has_prefix ''*'' (w @ s)" "\<not> has_suffix ''*'' (s @ w)" "\<not> has_suffix ''*'' (s @ v)" for s
    using assms ends by (auto simp: has_prefix_iff has_suffix_iff_rev Cons_eq_append_conv append_eq_Cons_conv)
  have star: "has_prefix ''*'' (''*'' @ s)" "has_suffix ''*'' (s @ ''*'')" "has_suffix ''*'' (CHR ''*'' # s @ ''*'')" for s
    by (auto simp: has_suffix_iff intro: exI [of _ "CHR ''*'' # s"])
  have inside: "contains_sub ''*'' (s @ ''*'' @ t)" "contains_sub ''*'' (s @ ''*'')" "contains_sub ''*'' (''*'' @ s)" "\<not> contains_sub ''*'' w" for s t
    using assms by simp_all
  have distinct: "w \<noteq> ''*''" "''*'' @ w \<noteq> ''*''" "w @ ''*'' \<noteq> ''*''" "''*'' @ w @ ''*'' \<noteq> ''*''" "w @ ''*'' @ v \<noteq> ''*''"
    using assms by (auto simp: append_eq_Cons_conv)
  show "matches_pattern n w \<longleftrightarrow> n = w" using distinct(1) inside(4) by (simp add: matches_pattern_def del: contains_char)
  show "matches_pattern n (''*'' @ w) \<longleftrightarrow> (\<exists>a. n = a @ w)"
    unfolding matches_pattern_def using distinct(2) inside(3) [of w] star(1) [of w] nostar(2) [of "''*''"]
    by (simp only: if_True if_False simp_thms) (simp add: has_suffix_iff)
  show "matches_pattern n (w @ ''*'') \<longleftrightarrow> (\<exists>b. n = w @ b)"
    unfolding matches_pattern_def using distinct(3) inside(2) [of w] star(2) [of w] nostar(1) [of "''*''"]
    by (simp only: if_True if_False simp_thms) (simp add: has_prefix_iff butlast_append)
  show "matches_pattern n (''*'' @ w @ ''*'') \<longleftrightarrow> (\<exists>a b. n = a @ w @ b)"
    unfolding matches_pattern_def using distinct(4) inside(3) [of "w @ ''*''"] star(1) [of "w @ ''*''"] star(3) [of w]
    by (simp only: if_True if_False simp_thms append_Cons append_Nil) (simp add: contains_sub_iff butlast_append)
  show "matches_pattern n (w @ ''*'' @ v) \<longleftrightarrow> n = w @ ''*'' @ v"
    unfolding matches_pattern_def using distinct(5) inside(1) [of w v] nostar(1) [of "''*'' @ v"] nostar(3) [of "w @ ''*''"]
    by (simp only: if_True if_False simp_thms append_assoc)
qed

theorem pattern_meaning_witness: "matches_pattern ''kube-a'' (''kube-'' @ ''*'') \<and> \<not> matches_pattern ''kube-a'' (''kube'' @ ''*'' @ ''a'')"
  using pattern_meaning [of "''kube-''" "''a''" "''kube-a''"] pattern_meaning [of "''kube''" "''a''" "''kube-a''"] by auto

text \<open>
  The scan by activity gives each namespace the filters let through once, the busiest first; requested
  namespaces are only checked for access and never filtered.
\<close>

theorem namespaces_by_activity:
  assumes "listing (label_selector opts) = Ok listed" and "get_namespaces_by_resource_activity listing api opts = Ok infos"
  shows "mset (map ni_name infos) = mset (filter (\<lambda>n. should_include_namespace n opts) (map fst listed)) \<and>
    sorted (rev (map (\<lambda>i. get_total_resource_count (ni_resource_count i)) infos)) \<and>
    (requested \<noteq> [] \<longrightarrow> (\<exists>v. scanner_target_namespaces listing api requested opts = Ok v) \<longrightarrow>
       scanner_target_namespaces listing api requested opts = Ok (filter (\<lambda>n. is_ok (na_labels (api n))) requested))"
proof -
  let ?key = "\<lambda>i. - int (get_total_resource_count (ni_resource_count i))"
  have infos: "infos = exchange_sort ?key (scan_loop api opts listed)"
    using assms by (simp add: get_namespaces_by_resource_activity_def scan_namespaces_def)
  have names: "map ni_name (scan_loop api opts ls) = filter (\<lambda>n. should_include_namespace n opts) (map fst ls)" for ls
    by (induction api opts ls rule: scan_loop.induct) auto
  have mset_names: "mset (map ni_name infos) = mset (filter (\<lambda>n. should_include_namespace n opts) (map fst listed))"
    unfolding infos mset_map mset_exchange_sort by (simp only: mset_map [symmetric] names)
  have "sorted_wrt (\<lambda>x y. ?key x \<le> ?key y) infos"
    using exchange_sort_sorted [of ?key "scan_loop api opts listed"] by (simp add: infos sorted_map)
  then have "sorted_wrt (\<lambda>x y. get_total_resource_count (ni_resource_count y) \<le> get_total_resource_count (ni_resource_count x)) infos" by simp
  then have "sorted (rev (map (\<lambda>i. get_total_resource_count (ni_resource_count i)) infos))"
    by (simp add: sorted_wrt_rev sorted_wrt_map)
  moreover have "scanner_target_namespaces listing api requested opts = Ok (filter (\<lambda>n. is_ok (na_labels (api n))) requested)"
    if "requested \<noteq> []" "\<exists>v. scanner_target_namespaces listing api requested opts = Ok v"
    using that by (auto simp: scanner_target_namespaces_def validate_namespaces_def Let_def split: if_splits)
  ultimately show ?thesis using mset_names by blast
qed

definition example_api :: "string \<Rightarrow> namespace_api" where
  "example_api n =
     \<lparr>na_labels = Ok [], na_pods = Ok (length n), na_deployments = Fail (Err ''forbidden''), na_services = Ok 0, na_config_maps = Ok 1,
      na_secrets = Ok 0\<rparr>"

definition example_scan :: scan_options where
  "example_scan = \<lparr>include_patterns = [''*''], exclude_patterns = [''b*''], label_selector = [], include_system_namespaces = False\<rparr>"

theorem namespaces_by_activity_witness:
  "\<exists>infos. get_namespaces_by_resource_activity (\<lambda>_. Ok [(''app'', []), (''kube-system'', []), (''bar'', []), (''store'', [])]) example_api example_scan
       = Ok infos \<and> mset (map ni_name infos) = {#''app'', ''store''#}"
proof -
  let ?ls = "[(''app'', []), (''kube-system'', []), (''bar'', []), (''store'', [])]"
  obtain infos where i: "get_namespaces_by_resource_activity (\<lambda>_. Ok ?ls) example_api example_scan = Ok infos"
    by (simp add: get_namespaces_by_resource_activity_def scan_namespaces_def)
  have "filter (\<lambda>n. should_include_namespace n example_scan) (map fst ?ls) = [''app'', ''store'']" by code_simp
  with namespaces_by_activity [OF refl i, of "[]"] have "mset (map ni_name infos) = {#''app'', ''store''#}" by simp
  with i show ?thesis by blast
qed

text \<open>
  A configuration that loads has a version and the three required profiles, and the configuration used when there is no file
  would itself be accepted.
\<close>

theorem loaded_config_valid:
  assumes "load_discovery_config unmarshal disk path = Ok c"
  shows "dc_version c \<noteq> [] \<and> validate_discovery_config c = Ok c \<and>
    (\<exists>ps. dc_profiles c = Some ps \<and> {''minimal'', ''standard'', ''comprehensive''} \<subseteq> fst ` set ps)"
proof -
  have accepted: "dc_version c \<noteq> [] \<and> (\<exists>ps. dc_profiles c = Some ps \<and> {''minimal'', ''standard'', ''comprehensive''} \<subseteq> fst ` set ps)"
    if "validate_discovery_config d = Ok c" for d
    using that
    by (auto simp: validate_discovery_config_def Let_def map_of_eq_None_iff split: option.splits if_splits list.splits)
  have stable: "validate_discovery_config c = Ok c" if "validate_discovery_config d = Ok c" for d
    using that by (auto simp: validate_discovery_config_def Let_def split: option.splits if_splits list.splits)
  have default_ok: "validate_discovery_config get_default_discovery_config = Ok get_default_discovery_config"
    by (simp add: validate_discovery_config_def get_default_discovery_config_def get_discovery_profiles_def)
  have "\<exists>d. validate_discovery_config d = Ok c"
    using assms default_ok by (auto simp: load_discovery_config_def res_simps split: if_splits option.splits)
  with accepted stable show ?thesis by blast
qed

theorem loaded_config_valid_witness: "validate_discovery_config get_default_discovery_config = Ok get_default_discovery_config"
  using loaded_config_valid [of undefined undefined "[]"] by (simp add: load_discovery_config_def)

end
