(* ===== verification/Resource_Expander.thy ===== *)
theory Resource_Expander
  imports Kots_Detection
begin

text \<open>
  The expander of namespaces into specs (\<^verbatim>\<open>pkg/collect/autodiscovery/resource_expander.go\<close>): the registered rules, the
  expansion with its order, and the filters over specs. \<open>sort.Slice\<close> leaves open how specs of one priority are arranged, so
  it is a parameter \<open>arrange\<close> that sorts.
\<close>

section \<open>Rules\<close>

record discovery_options =
  op_namespaces :: "string list"
  op_include_images :: bool
  op_rbac_check :: bool
  op_max_depth :: int
  op_foundational_only :: bool
  op_augment_mode :: bool
  op_timeout :: int
  op_test_mode :: bool

record resource_permission =
  rp_api_version :: string
  rp_kind :: string
  rp_verbs :: "string list"

record expansion_rule =
  ex_collector_type :: string
  ex_priority :: int
  ex_permissions :: "resource_permission list"
  ex_expand :: "string \<Rightarrow> auto_spec list res"
  ex_dependencies :: "string list"

definition cluster_info_spec :: auto_spec where
  "cluster_info_spec =
     \<lparr>ds_type = CollectorTypeClusterInfo, ds_name = ''cluster-info'', ds_namespace = [], ds_body = BClusterInfo [], ds_priority = 100,
      ds_source = SourceFoundational\<rparr>"

definition cluster_resources_spec :: "int \<Rightarrow> auto_spec" where
  "cluster_resources_spec priority =
     \<lparr>ds_type = CollectorTypeClusterResources, ds_name = ''cluster-resources'', ds_namespace = [],
      ds_body = BClusterResources \<lparr>rb_collector_name = [], rb_namespaces = []\<rparr>, ds_priority = priority, ds_source = SourceFoundational\<rparr>"

definition namespace_logs_spec :: "int option \<Rightarrow> string \<Rightarrow> auto_spec" where
  "namespace_logs_spec max_lines ns =
     \<lparr>ds_type = CollectorTypeLogs, ds_name = ''logs-'' @ ns, ds_namespace = ns,
      ds_body = BLogs \<lparr>lb_collector_name = ''logs/'' @ ns, lb_namespace = ns, lb_selector = [], lb_max_lines = max_lines\<rparr>,
      ds_priority = 90, ds_source = SourceFoundational\<rparr>"

definition namespace_config_maps_spec :: "string \<Rightarrow> auto_spec" where
  "namespace_config_maps_spec ns =
     \<lparr>ds_type = CollectorTypeConfigMaps, ds_name = ''configmaps-'' @ ns, ds_namespace = ns,
      ds_body = BConfigMap \<lparr>cb_collector_name = ''configmaps/'' @ ns, cb_name = [], cb_namespace = ns, cb_selector = [''*''],
        cb_include_all_data = True\<rparr>,
      ds_priority = 80, ds_source = SourceFoundational\<rparr>"

definition namespace_secrets_spec :: "int \<Rightarrow> string \<Rightarrow> auto_spec" where
  "namespace_secrets_spec priority ns =
     \<lparr>ds_type = CollectorTypeSecrets, ds_name = ''secrets-'' @ ns, ds_namespace = ns,
      ds_body = BSecret \<lparr>sb_collector_name = ''secrets/'' @ ns, sb_name = [], sb_namespace = ns, sb_selector = [''*''],
        sb_include_value = False, sb_include_all_data = False\<rparr>,
      ds_priority = priority, ds_source = SourceFoundational\<rparr>"

definition namespace_image_facts_spec :: "string \<Rightarrow> string \<Rightarrow> auto_spec" where
  "namespace_image_facts_spec contents ns =
     \<lparr>ds_type = CollectorTypeImageFacts, ds_name = ''image-facts-'' @ ns, ds_namespace = ns,
      ds_body = BData \<lparr>db_collector_name = ''image-facts/'' @ ns, db_name = ''image-facts-'' @ ns, db_data = contents\<rparr>,
      ds_priority = 60, ds_source = SourceFoundational\<rparr>"

definition namespace_events_spec :: "string \<Rightarrow> auto_spec" where
  "namespace_events_spec ns =
     \<lparr>ds_type = CollectorTypeEvents, ds_name = ''events-'' @ ns, ds_namespace = ns,
      ds_body = BData \<lparr>db_collector_name = ''events/'' @ ns, db_name = ''events-'' @ ns, db_data = ''Events in namespace '' @ ns\<rparr>,
      ds_priority = 70, ds_source = SourceFoundational\<rparr>"

definition expand_cluster_info :: "string \<Rightarrow> auto_spec list res" where
  "expand_cluster_info ns = Ok [cluster_info_spec]"

definition expand_cluster_resources :: "string \<Rightarrow> auto_spec list res" where
  "expand_cluster_resources ns = Ok [cluster_resources_spec 95]"

definition expand_pod_logs :: "string \<Rightarrow> auto_spec list res" where
  "expand_pod_logs ns =
     (if ns = [] then Fail (Err ''namespace required for pod logs collector'') else Ok [namespace_logs_spec (Some 10000) ns])"

definition expand_config_maps :: "string \<Rightarrow> auto_spec list res" where
  "expand_config_maps ns =
     (if ns = [] then Fail (Err ''namespace required for configmaps collector'') else Ok [namespace_config_maps_spec ns])"

definition expand_secrets :: "string \<Rightarrow> auto_spec list res" where
  "expand_secrets ns =
     (if ns = [] then Fail (Err ''namespace required for secrets collector'') else Ok [namespace_secrets_spec 75 ns])"

definition expand_events :: "string \<Rightarrow> auto_spec list res" where
  "expand_events ns =
     (if ns = [] then Fail (Err ''namespace required for events collector'') else Ok [namespace_events_spec ns])"

definition image_facts_placeholder :: "string \<Rightarrow> string" where
  "image_facts_placeholder ns =
     ''{'' @ json_field ''namespace'' (json_quote ns) @ '', '' @
     json_field ''description'' (json_quote ''Container image facts and metadata'') @ '', '' @
     json_field ''type'' (json_quote ''image-facts'') @ ''}''"

definition expand_image_facts :: "string \<Rightarrow> auto_spec list res" where
  "expand_image_facts ns =
     (if ns = [] then Fail (Err ''namespace required for image facts collector'')
      else Ok [namespace_image_facts_spec (image_facts_placeholder ns) ns])"

type_synonym expander = "string \<rightharpoonup> expansion_rule"

definition register_rule :: "string \<Rightarrow> expansion_rule \<Rightarrow> expander \<Rightarrow> expander" where
  "register_rule t rule ex = ex(t \<mapsto> rule)"

definition needs :: "string \<Rightarrow> string list \<Rightarrow> resource_permission" where
  "needs kind verbs = \<lparr>rp_api_version = ''v1'', rp_kind = kind, rp_verbs = verbs\<rparr>"

definition default_rules :: "expansion_rule list" where
  "default_rules =
     [\<lparr>ex_collector_type = CollectorTypeClusterInfo, ex_priority = 100, ex_permissions = [needs ''Node'' [''list'']],
       ex_expand = expand_cluster_info, ex_dependencies = []\<rparr>,
      \<lparr>ex_collector_type = CollectorTypeClusterResources, ex_priority = 95,
       ex_permissions = [needs ''Node'' [''list''], needs ''Namespace'' [''list'']], ex_expand = expand_cluster_resources, ex_dependencies = []\<rparr>,
      \<lparr>ex_collector_type = CollectorTypeLogs, ex_priority = 90, ex_permissions = [needs ''Pod'' [''list'', ''get'']],
       ex_expand = expand_pod_logs, ex_dependencies = []\<rparr>,
      \<lparr>ex_collector_type = CollectorTypeConfigMaps, ex_priority = 80, ex_permissions = [needs ''ConfigMap'' [''list'', ''get'']],
       ex_expand = expand_config_maps, ex_dependencies = []\<rparr>,
      \<lparr>ex_collector_type = CollectorTypeSecrets, ex_priority = 75, ex_permissions = [needs ''Secret'' [''list'', ''get'']],
       ex_expand = expand_secrets, ex_dependencies = []\<rparr>,
      \<lparr>ex_collector_type = CollectorTypeEvents, ex_priority = 70, ex_permissions = [needs ''Event'' [''list'']],
       ex_expand = expand_events, ex_dependencies = []\<rparr>,
      \<lparr>ex_collector_type = CollectorTypeImageFacts, ex_priority = 60, ex_permissions = [needs ''Pod'' [''list'', ''get'']],
       ex_expand = expand_image_facts, ex_dependencies = []\<rparr>]"

definition new_resource_expander :: expander where
  "new_resource_expander = fold (\<lambda>rule. register_rule (ex_collector_type rule) rule) default_rules Map.empty"

section \<open>Expansion\<close>

text \<open>A rule that fails is only logged.\<close>

definition expand_type :: "expander \<Rightarrow> string \<Rightarrow> string \<Rightarrow> auto_spec list" where
  "expand_type ex ns t = (case ex t of None \<Rightarrow> [] | Some rule \<Rightarrow> keep_ok (ex_expand rule ns))"

definition generate_cluster_level_collectors :: "expander \<Rightarrow> auto_spec list" where
  "generate_cluster_level_collectors ex = concat (map (expand_type ex []) [CollectorTypeClusterInfo, CollectorTypeClusterResources])"

definition get_collector_types_for_namespace :: "discovery_options \<Rightarrow> string list" where
  "get_collector_types_for_namespace opts =
     [CollectorTypeLogs, CollectorTypeConfigMaps, CollectorTypeSecrets, CollectorTypeEvents] @
     (if op_include_images opts then [CollectorTypeImageFacts] else [])"

definition generate_namespace_collectors :: "expander \<Rightarrow> discovery_options \<Rightarrow> string \<Rightarrow> auto_spec list" where
  "generate_namespace_collectors ex opts ns =
     concat (map (expand_type ex ns)
       ([CollectorTypeLogs, CollectorTypeConfigMaps, CollectorTypeSecrets, CollectorTypeEvents] @
        (if op_include_images opts then [CollectorTypeImageFacts] else [])))"

definition sorts_by_priority :: "(auto_spec list \<Rightarrow> auto_spec list) \<Rightarrow> bool" where
  "sorts_by_priority arrange \<longleftrightarrow>
     (\<forall>xs. mset (arrange xs) = mset xs \<and> sorted_wrt (\<lambda>x y. ds_priority y \<le> ds_priority x) (arrange xs))"

definition expand_to_collectors ::
  "(auto_spec list \<Rightarrow> auto_spec list) \<Rightarrow> expander \<Rightarrow> discovery_options \<Rightarrow> string list \<Rightarrow> auto_spec list" where
  "expand_to_collectors arrange ex opts namespaces =
     arrange (generate_cluster_level_collectors ex @ concat (map (generate_namespace_collectors ex opts) namespaces))"

definition get_required_permissions :: "expander \<Rightarrow> string \<Rightarrow> resource_permission list" where
  "get_required_permissions ex t = (case ex t of Some rule \<Rightarrow> ex_permissions rule | None \<Rightarrow> [])"

definition get_collector_priority :: "expander \<Rightarrow> string \<Rightarrow> int" where
  "get_collector_priority ex t = (case ex t of Some rule \<Rightarrow> ex_priority rule | None \<Rightarrow> 0)"

fun missing_dependency :: "string set \<Rightarrow> string list \<Rightarrow> string option" where
  "missing_dependency present [] = None"
| "missing_dependency present (d # ds) = (if d \<notin> present then Some d else missing_dependency present ds)"

fun dependencies_loop :: "expander \<Rightarrow> string set \<Rightarrow> auto_spec list \<Rightarrow> unit res" where
  "dependencies_loop ex present [] = Ok ()"
| "dependencies_loop ex present (c # cs) =
     (case ex (ds_type c) of
        None \<Rightarrow> dependencies_loop ex present cs
      | Some rule \<Rightarrow>
          (case missing_dependency present (ex_dependencies rule) of
             None \<Rightarrow> dependencies_loop ex present cs
           | Some d \<Rightarrow> Fail (Errf ''collector %s requires dependency %s which is not present'' [ds_type c, d])))"

definition validate_collector_dependencies :: "expander \<Rightarrow> auto_spec list \<Rightarrow> unit res" where
  "validate_collector_dependencies ex cs = dependencies_loop ex (ds_type ` set cs) cs"

fun dedup_specs :: "string set \<Rightarrow> auto_spec list \<Rightarrow> auto_spec list" where
  "dedup_specs seen [] = []"
| "dedup_specs seen (c # cs) =
     (if get_unique_key c \<in> seen then dedup_specs seen cs else c # dedup_specs (insert (get_unique_key c) seen) cs)"

definition deduplicate_auto_collectors :: "auto_spec list \<Rightarrow> auto_spec list" where
  "deduplicate_auto_collectors cs = dedup_specs {} cs"

definition filter_collectors_by_namespace :: "auto_spec list \<Rightarrow> string list \<Rightarrow> auto_spec list" where
  "filter_collectors_by_namespace cs targets =
     (if length targets = 0 then cs else filter (\<lambda>c. ds_namespace c = [] \<or> ds_namespace c \<in> set targets) cs)"

section \<open>Properties\<close>

lemma registered_rules:
  "new_resource_expander CollectorTypeClusterInfo = Some (default_rules ! 0)"
  "new_resource_expander CollectorTypeClusterResources = Some (default_rules ! 1)"
  "new_resource_expander CollectorTypeLogs = Some (default_rules ! 2)"
  "new_resource_expander CollectorTypeConfigMaps = Some (default_rules ! 3)"
  "new_resource_expander CollectorTypeSecrets = Some (default_rules ! 4)"
  "new_resource_expander CollectorTypeEvents = Some (default_rules ! 5)"
  "new_resource_expander CollectorTypeImageFacts = Some (default_rules ! 6)"
  by (simp_all add: new_resource_expander_def default_rules_def register_rule_def collector_types)

lemmas expand_defs =
  expand_cluster_info_def expand_cluster_resources_def expand_pod_logs_def expand_config_maps_def expand_secrets_def expand_events_def
  expand_image_facts_def

lemma rule_expansions:
  "ex_expand (default_rules ! 0) = expand_cluster_info" "ex_expand (default_rules ! 1) = expand_cluster_resources"
  "ex_expand (default_rules ! 2) = expand_pod_logs" "ex_expand (default_rules ! 3) = expand_config_maps"
  "ex_expand (default_rules ! 4) = expand_secrets" "ex_expand (default_rules ! 5) = expand_events"
  "ex_expand (default_rules ! 6) = expand_image_facts"
  by (simp_all add: default_rules_def)

lemma cluster_level_specs:
  "generate_cluster_level_collectors new_resource_expander = [cluster_info_spec, cluster_resources_spec 95]"
  by (simp add: generate_cluster_level_collectors_def expand_type_def registered_rules rule_expansions keep_ok_def expand_defs
      del: One_nat_def)

lemma namespace_specs:
  "generate_namespace_collectors new_resource_expander opts ns =
     (if ns = [] then []
      else [namespace_logs_spec (Some 10000) ns, namespace_config_maps_spec ns, namespace_secrets_spec 75 ns, namespace_events_spec ns] @
        (if op_include_images opts then [namespace_image_facts_spec (image_facts_placeholder ns) ns] else []))"
  by (simp add: generate_namespace_collectors_def expand_type_def registered_rules rule_expansions keep_ok_def expand_defs)

text \<open>
  The expansion with the registered rules: the two collectors of the cluster and, for each namespace with a name, its logs,
  config maps, secrets, events and on request image facts, the highest priority first; a collector of events converts to a collector
  with no field, so what it promises is never collected.
\<close>

theorem expansion_meaning:
  assumes "sorts_by_priority arrange" and "out = expand_to_collectors arrange new_resource_expander opts nss"
  shows "sorted_wrt (\<lambda>x y. ds_priority y \<le> ds_priority x) out \<and>
    mset out = {#cluster_info_spec, cluster_resources_spec 95#} +
      mset (concat (map (\<lambda>ns. [namespace_logs_spec (Some 10000) ns, namespace_config_maps_spec ns, namespace_secrets_spec 75 ns,
          namespace_events_spec ns] @ (if op_include_images opts then [namespace_image_facts_spec (image_facts_placeholder ns) ns] else []))
        (filter (\<lambda>ns. ns \<noteq> []) nss))) \<and>
    (\<forall>c\<in>set out. to_troubleshoot_collect c = empty_collect \<longleftrightarrow> ds_type c = CollectorTypeEvents)"
proof -
  have 1: "concat (map (generate_namespace_collectors new_resource_expander opts) nss) =
      concat (map (\<lambda>ns. [namespace_logs_spec (Some 10000) ns, namespace_config_maps_spec ns, namespace_secrets_spec 75 ns,
          namespace_events_spec ns] @ (if op_include_images opts then [namespace_image_facts_spec (image_facts_placeholder ns) ns] else []))
        (filter (\<lambda>ns. ns \<noteq> []) nss))" (is "_ = ?nss")
    by (induction nss) (simp_all add: namespace_specs)
  have 2: "mset out = mset ([cluster_info_spec, cluster_resources_spec 95] @ ?nss)"
    and 3: "sorted_wrt (\<lambda>x y. ds_priority y \<le> ds_priority x) out"
    using assms by (simp_all add: expand_to_collectors_def sorts_by_priority_def cluster_level_specs 1)
  have kinds: "to_troubleshoot_collect c = empty_collect \<longleftrightarrow> ds_type c = CollectorTypeEvents"
    if "c \<in> {cluster_info_spec, cluster_resources_spec 95, namespace_logs_spec (Some 10000) ns, namespace_config_maps_spec ns,
      namespace_secrets_spec 75 ns, namespace_events_spec ns, namespace_image_facts_spec (image_facts_placeholder ns) ns}" for c ns
    using that
    by (auto simp: to_troubleshoot_collect_def empty_collect_def collector_types cluster_info_spec_def cluster_resources_spec_def
        namespace_logs_spec_def namespace_config_maps_spec_def namespace_secrets_spec_def namespace_events_spec_def
        namespace_image_facts_spec_def)
  have "set out = set ([cluster_info_spec, cluster_resources_spec 95] @ ?nss)" by (rule mset_eq_setD [OF 2])
  then have "\<exists>ns. c \<in> {cluster_info_spec, cluster_resources_spec 95, namespace_logs_spec (Some 10000) ns, namespace_config_maps_spec ns,
      namespace_secrets_spec 75 ns, namespace_events_spec ns, namespace_image_facts_spec (image_facts_placeholder ns) ns}"
    if "c \<in> set out" for c
    using that by (auto split: if_splits)
  then have "\<forall>c\<in>set out. to_troubleshoot_collect c = empty_collect \<longleftrightarrow> ds_type c = CollectorTypeEvents" using kinds by blast
  with 2 3 show ?thesis by simp
qed

definition plain_options :: discovery_options where
  "plain_options =
     \<lparr>op_namespaces = [], op_include_images = False, op_rbac_check = False, op_max_depth = 1, op_foundational_only = True,
      op_augment_mode = False, op_timeout = 0, op_test_mode = True\<rparr>"

definition stable_sort :: "auto_spec list \<Rightarrow> auto_spec list" where
  "stable_sort = sort_key (\<lambda>c. - ds_priority c)"

lemma stable_sort_sorts: "sorts_by_priority stable_sort"
  using sorted_sort_key [of "\<lambda>c. - ds_priority c"] by (auto simp: sorts_by_priority_def stable_sort_def sorted_map)

theorem expansion_meaning_witness:
  "mset (expand_to_collectors stable_sort new_resource_expander plain_options [''a'', []]) =
     {#cluster_info_spec, cluster_resources_spec 95, namespace_logs_spec (Some 10000) ''a'', namespace_config_maps_spec ''a'',
       namespace_secrets_spec 75 ''a'', namespace_events_spec ''a''#}"
  using expansion_meaning [OF stable_sort_sorts refl, of plain_options "[''a'', []]"] by (simp add: plain_options_def)

lemma dedup_specs_spec:
  "distinct (map get_unique_key (dedup_specs seen cs)) \<and>
   get_unique_key ` set (dedup_specs seen cs) = get_unique_key ` set cs - seen"
  by (induction seen cs rule: dedup_specs.induct) auto

lemma dedup_specs_first:
  "get_unique_key c \<notin> seen \<Longrightarrow> find (\<lambda>d. get_unique_key d = get_unique_key c) (dedup_specs seen cs) =
     find (\<lambda>d. get_unique_key d = get_unique_key c) cs"
  by (induction seen cs rule: dedup_specs.induct) auto

text \<open>
  Deduplication keeps for every key exactly the first spec that has it.
\<close>

theorem deduplication_keeps_first:
  "distinct (map get_unique_key (deduplicate_auto_collectors cs)) \<and>
   get_unique_key ` set (deduplicate_auto_collectors cs) = get_unique_key ` set cs \<and>
   find (\<lambda>d. get_unique_key d = get_unique_key c) (deduplicate_auto_collectors cs) = find (\<lambda>d. get_unique_key d = get_unique_key c) cs"
  using dedup_specs_spec [of "{}" cs] dedup_specs_first [of c "{}" cs] by (simp add: deduplicate_auto_collectors_def)

end
