(* ===== verification/Autodiscovery.thy ===== *)
theory Autodiscovery
  imports Discovery_Permissions Namespace_Scanner Resource_Expander
begin

text \<open>
  Discovery of collectors (\<^verbatim>\<open>pkg/collect/autodiscovery/discoverer.go\<close>) and its use by the command line
  (\<^verbatim>\<open>cmd/troubleshoot/cli/auto_discovery.go\<close>): foundational collectors, the filter by permissions, merging with the
  collectors of a YAML spec, and the conversion between both forms. The API is a parameter; the goroutines of the filter are taken one
  after the other here (any other schedule gives the same, by \<open>permissions_filtered\<close>); \<open>visit\<close> is the order in which a
  range goes over a map. The contexts with their deadlines are left out.
\<close>

section \<open>The discoverer\<close>

record discovery_env =
  de_namespaces :: "string list res"
  de_objects :: "string \<Rightarrow> namespace_objects"
  de_nodes :: "k8s_object list res"
  de_review :: "resource_attributes \<Rightarrow> bool res"
  de_now :: int

record discoverer =
  di_cache :: permission_cache
  di_reporter :: rbac_reporter

definition new_discoverer :: "bool \<Rightarrow> bool \<Rightarrow> discoverer res" where
  "new_discoverer has_config has_client =
     (if \<not> has_config then Fail (Err ''client config is required'')
      else if \<not> has_client then Fail (Err ''kubernetes client is required'')
      else Ok \<lparr>di_cache = new_permission_cache, di_reporter = new_rbac_reporter\<rparr>)"

definition get_target_namespaces :: "string list res \<Rightarrow> string list \<Rightarrow> string list" where
  "get_target_namespaces listing requested =
     (if length requested > 0 then requested else (case listing of Ok ns \<Rightarrow> ns | _ \<Rightarrow> [''default'']))"

definition generate_cluster_info_collectors :: "auto_spec list" where
  "generate_cluster_info_collectors = [cluster_info_spec, cluster_resources_spec 100]"

definition generate_namespaced_collectors :: "string \<Rightarrow> discovery_options \<Rightarrow> auto_spec list" where
  "generate_namespaced_collectors ns opts =
     [namespace_logs_spec None ns, namespace_config_maps_spec ns, namespace_secrets_spec 70 ns] @
     (if op_include_images opts then [namespace_image_facts_spec [] ns] else [])"

definition generate_foundational_collectors :: "discovery_env \<Rightarrow> string list \<Rightarrow> discovery_options \<Rightarrow> auto_spec list" where
  "generate_foundational_collectors E nss opts =
     generate_cluster_info_collectors @
     (case detect_kots_applications (de_namespaces E) (de_objects E) of
        Ok apps \<Rightarrow> if length apps > 0 then generate_kots_collectors apps else []
      | _ \<Rightarrow> []) @
     (if \<not> op_test_mode opts then generate_standard_kots_collectors (de_nodes E) else []) @
     concat (map (\<lambda>ns. generate_namespaced_collectors ns opts) nss)"

definition collector_to_resource :: "auto_spec \<Rightarrow> api_resource option" where
  "collector_to_resource c =
     (if ds_type c = CollectorTypeLogs then
        Some \<lparr>rs_api_version = ''v1'', rs_kind = ''Pod'', rs_namespace = ds_namespace c, rs_name = ''*''\<rparr>
      else if ds_type c = CollectorTypeConfigMaps then
        Some \<lparr>rs_api_version = ''v1'', rs_kind = ''ConfigMap'', rs_namespace = ds_namespace c, rs_name = ''*''\<rparr>
      else if ds_type c = CollectorTypeSecrets then
        Some \<lparr>rs_api_version = ''v1'', rs_kind = ''Secret'', rs_namespace = ds_namespace c, rs_name = ''*''\<rparr>
      else if ds_type c = CollectorTypeClusterInfo \<or> ds_type c = CollectorTypeClusterResources then
        Some \<lparr>rs_api_version = ''v1'', rs_kind = ''Node'', rs_namespace = [], rs_name = ''*''\<rparr>
      else None)"

fun keep_allowed :: "string set \<Rightarrow> auto_spec list \<Rightarrow> rbac_reporter \<Rightarrow> auto_spec list \<times> rbac_reporter" where
  "keep_allowed allowed [] rr = ([], rr)"
| "keep_allowed allowed (c # cs) rr =
     (case collector_to_resource c of
        None \<Rightarrow> (let (kept, rr1) = keep_allowed allowed cs rr in (c # kept, rr1))
      | Some r \<Rightarrow>
          if get_cache_key r \<in> allowed then (let (kept, rr1) = keep_allowed allowed cs rr in (c # kept, rr1))
          else keep_allowed allowed cs
            (report_missing_permission (rs_kind r) (rs_namespace r) ''get,list'' (ds_name c)
              (report_filtered_collector c ''insufficient RBAC permissions'' rr)))"

definition apply_rbac_filtering :: "discovery_env \<Rightarrow> auto_spec list \<Rightarrow> discoverer \<Rightarrow> auto_spec list \<times> discoverer" where
  "apply_rbac_filtering E cs d =
     (let (allowed, c1) = filter_by_permissions (de_review E) (de_now E) (List.map_filter collector_to_resource cs) (di_cache d);
          (kept, rr1) = keep_allowed (get_cache_key ` set allowed) cs (di_reporter d)
      in (kept, \<lparr>di_cache = c1, di_reporter = rr1\<rparr>))"

text \<open>With it, the summary printed when the reporter has warnings.\<close>

definition discover_foundational ::
  "discovery_env \<Rightarrow> discovery_options \<Rightarrow> discoverer \<Rightarrow> auto_spec list \<times> (int \<times> int) option \<times> discoverer" where
  "discover_foundational E opts d =
     (let cs = generate_foundational_collectors E (get_target_namespaces (de_namespaces E) (op_namespaces opts)) opts;
          (kept, d1) = (if op_rbac_check opts then apply_rbac_filtering E cs d else (cs, d));
          summary = (if has_warnings (di_reporter d1) then
            summarize_collection_results (int (length kept) + int (get_filtered_collector_count (di_reporter d1))) (di_reporter d1)
            else None)
      in (kept, summary, d1))"

definition merge_and_deduplicate_collectors ::
  "((string \<times> auto_spec) list \<Rightarrow> (string \<times> auto_spec) list) \<Rightarrow> auto_spec list \<Rightarrow> auto_spec list \<Rightarrow> auto_spec list" where
  "merge_and_deduplicate_collectors visit yaml foundational =
     map snd (visit (fold (\<lambda>c m. AList.update (get_unique_key c) c m) (foundational @ yaml) []))"

definition augment_with_foundational ::
  "((string \<times> auto_spec) list \<Rightarrow> (string \<times> auto_spec) list) \<Rightarrow> discovery_env \<Rightarrow> auto_spec list \<Rightarrow> discovery_options \<Rightarrow> discoverer \<Rightarrow>
     auto_spec list \<times> discoverer" where
  "augment_with_foundational visit E yaml opts d =
     (let (found, summary, d1) = discover_foundational E opts d
      in (merge_and_deduplicate_collectors visit (map (\<lambda>c. c\<lparr>ds_source := SourceYAML\<rparr>) yaml) found, d1))"

definition validate_permissions :: "discovery_env \<Rightarrow> api_resource list \<Rightarrow> discoverer \<Rightarrow> api_resource list \<times> discoverer" where
  "validate_permissions E rs d =
     (let (allowed, c1) = filter_by_permissions (de_review E) (de_now E) rs (di_cache d) in (allowed, d\<lparr>di_cache := c1\<rparr>))"

section \<open>The command line\<close>

record auto_discovery_config =
  ac_enabled :: bool
  ac_include_images :: bool
  ac_rbac_check :: bool
  ac_profile :: string
  ac_exclude_namespaces :: "string list"
  ac_include_namespaces :: "string list"
  ac_include_system_namespaces :: bool
  ac_timeout :: int

text \<open>The flags, as the configuration library reads them.\<close>

record flag_values =
  fv_bool :: "string \<Rightarrow> bool"
  fv_string :: "string \<Rightarrow> string"
  fv_strings :: "string \<Rightarrow> string list"

definition get_auto_discovery_config :: "flag_values \<Rightarrow> auto_discovery_config" where
  "get_auto_discovery_config v =
     \<lparr>ac_enabled = fv_bool v ''auto'', ac_include_images = fv_bool v ''include-images'', ac_rbac_check = fv_bool v ''rbac-check'',
      ac_profile = fv_string v ''discovery-profile'', ac_exclude_namespaces = fv_strings v ''exclude-namespaces'',
      ac_include_namespaces = fv_strings v ''include-namespaces'', ac_include_system_namespaces = fv_bool v ''include-system-namespaces'',
      ac_timeout = 30 * seconds\<rparr>"

definition validate_auto_discovery_flags :: "flag_values \<Rightarrow> unit res" where
  "validate_auto_discovery_flags v =
     (if fv_bool v ''include-images'' \<and> \<not> fv_bool v ''auto'' then
        Fail (Err ''--include-images flag requires --auto flag to be enabled'')
      else if map_of get_discovery_profiles (fv_string v ''discovery-profile'') = None then
        Fail (Errf ''unknown discovery profile: %s. Available profiles: minimal, standard, comprehensive, paranoid''
          [fv_string v ''discovery-profile''])
      else Ok ())"

definition get_auto_discovery_mode :: "string list \<Rightarrow> bool \<Rightarrow> string" where
  "get_auto_discovery_mode args enabled =
     (if \<not> enabled then ''disabled'' else if length args = 0 then ''foundational-only'' else ''yaml-augmented'')"

definition yaml_spec :: "nat \<Rightarrow> string \<Rightarrow> string \<Rightarrow> string \<Rightarrow> spec_body \<Rightarrow> auto_spec" where
  "yaml_spec i t what ns body =
     \<lparr>ds_type = t, ds_name = ''yaml-'' @ what @ ''-'' @ show_nat i, ds_namespace = ns, ds_body = body, ds_priority = 100,
      ds_source = SourceYAML\<rparr>"

definition convert_to_collector_spec :: "nat \<Rightarrow> collect_fields \<Rightarrow> auto_spec" where
  "convert_to_collector_spec i c =
     (case cl_logs c of Some b \<Rightarrow> yaml_spec i CollectorTypeLogs ''logs'' (lb_namespace b) (BLogs b)
      | None \<Rightarrow> (case cl_config_map c of Some b \<Rightarrow> yaml_spec i CollectorTypeConfigMaps ''configmap'' (cb_namespace b) (BConfigMap b)
      | None \<Rightarrow> (case cl_secret c of Some b \<Rightarrow> yaml_spec i CollectorTypeSecrets ''secret'' (sb_namespace b) (BSecret b)
      | None \<Rightarrow> (case cl_cluster_info c of Some n \<Rightarrow> yaml_spec i CollectorTypeClusterInfo ''clusterinfo'' [] (BClusterInfo n)
      | None \<Rightarrow> (case cl_cluster_resources c of
                  Some b \<Rightarrow> yaml_spec i CollectorTypeClusterResources ''clusterresources'' [] (BClusterResources b)
                | None \<Rightarrow> yaml_spec i ''other'' ''other'' [] (BCollect c))))))"

definition convert_to_collector_specs :: "collect_fields list \<Rightarrow> auto_spec list" where
  "convert_to_collector_specs cs = map (\<lambda>(i, c). convert_to_collector_spec i c) (List.enumerate 0 cs)"

definition convert_to_troubleshoot_collectors :: "auto_spec list \<Rightarrow> collect_fields list" where
  "convert_to_troubleshoot_collectors cs = map to_troubleshoot_collect cs"

definition profile_for :: "auto_discovery_config \<Rightarrow> discovery_profile" where
  "profile_for cfg =
     (let p = (case map_of get_discovery_profiles (ac_profile cfg) of
            Some p \<Rightarrow> p | None \<Rightarrow> the (map_of get_discovery_profiles ''standard''));
          p1 = (if ac_include_images cfg then p\<lparr>dp_include_images := True\<rparr> else p)
      in if ac_timeout cfg > 0 then p1\<lparr>dp_timeout := ac_timeout cfg\<rparr> else p1)"

definition namespaces_for ::
  "(string \<Rightarrow> (string \<times> (string \<times> string) list) list res) \<Rightarrow> (string \<Rightarrow> namespace_api) \<Rightarrow> auto_discovery_config \<Rightarrow> string \<Rightarrow> string list" where
  "namespaces_for listing api cfg ns =
     (if ns \<noteq> [] then [ns]
      else if length (ac_include_namespaces cfg) > 0 \<or> length (ac_exclude_namespaces cfg) > 0 then
        (case scanner_target_namespaces listing api []
            \<lparr>include_patterns = ac_include_namespaces cfg, exclude_patterns = ac_exclude_namespaces cfg, label_selector = [],
             include_system_namespaces = ac_include_system_namespaces cfg\<rparr> of
           Ok targets \<Rightarrow> targets | _ \<Rightarrow> [])
      else [])"

record cluster_env =
  ce_discovery :: discovery_env
  ce_listing :: "string \<Rightarrow> (string \<times> (string \<times> string) list) list res"
  ce_api :: "string \<Rightarrow> namespace_api"
  ce_visit :: "(string \<times> auto_spec) list \<Rightarrow> (string \<times> auto_spec) list"
  ce_has_config :: bool
  ce_has_client :: bool

definition apply_options :: "cluster_env \<Rightarrow> auto_discovery_config \<Rightarrow> string \<Rightarrow> bool \<Rightarrow> discovery_options" where
  "apply_options E cfg ns has_yaml =
     (let p = profile_for cfg in
      \<lparr>op_namespaces = namespaces_for (ce_listing E) (ce_api E) cfg ns, op_include_images = dp_include_images p,
       op_rbac_check = ac_rbac_check cfg, op_max_depth = dp_max_depth p, op_foundational_only = \<not> has_yaml,
       op_augment_mode = has_yaml, op_timeout = dp_timeout p, op_test_mode = False\<rparr>)"

text \<open>The new collectors of the main bundle.\<close>

definition apply_auto_discovery ::
  "cluster_env \<Rightarrow> auto_discovery_config \<Rightarrow> string \<Rightarrow> collect_fields list \<Rightarrow> collect_fields list res" where
  "apply_auto_discovery E cfg ns collectors =
     (if \<not> ac_enabled cfg then Ok collectors
      else
        (let has_yaml = length collectors > 0; opts = apply_options E cfg ns has_yaml in
         bind_res (wrap_res ''failed to create auto-discoverer'' (new_discoverer (ce_has_config E) (ce_has_client E))) (\<lambda>d.
           Ok (convert_to_troubleshoot_collectors
             (if has_yaml
              then fst (augment_with_foundational (ce_visit E) (ce_discovery E) (convert_to_collector_specs collectors) opts d)
              else fst (discover_foundational (ce_discovery E) opts d))))))"

section \<open>Values of secrets\<close>

definition reads_values :: "secret_body \<Rightarrow> bool" where
  "reads_values b \<longleftrightarrow> sb_include_value b \<or> sb_include_all_data b"

definition safe_spec :: "auto_spec \<Rightarrow> bool" where
  "safe_spec c \<longleftrightarrow> (\<forall>b. ds_body c = BSecret b \<longrightarrow> \<not> reads_values b)"

lemma kots_specs_safe: "c \<in> set (generate_kots_collectors apps) \<Longrightarrow> safe_spec c"
proof (induction apps)
  case (Cons a apps)
  have "safe_spec x" if "x \<in> {generate_kotsadm_deployment_collector a, generate_kotsadm_logs_collector a,
      generate_kots_directory_collector a} \<union> range (generate_replicated_secret_collector a) \<union> range (generate_kots_config_map_collector a)" for x
    using that
    by (auto simp: safe_spec_def reads_values_def generate_kotsadm_deployment_collector_def generate_kotsadm_logs_collector_def
        generate_kots_directory_collector_def generate_replicated_secret_collector_def generate_kots_config_map_collector_def)
  with Cons show ?case by (auto split: if_splits)
qed simp

lemma standard_specs_safe: "c \<in> set (generate_standard_kots_collectors nodes) \<Longrightarrow> safe_spec c"
  by (auto simp: generate_standard_kots_collectors_def generate_kurl_config_map_collectors_def safe_spec_def reads_values_def
      kurl_config_map_collector_def generate_standard_replicated_secret_collector_def generate_kots_host_preflight_collector_def Let_def)

lemma namespaced_specs_safe: "c \<in> set (generate_namespaced_collectors ns opts) \<Longrightarrow> safe_spec c"
  by (auto simp: generate_namespaced_collectors_def safe_spec_def reads_values_def namespace_logs_spec_def namespace_config_maps_spec_def
      namespace_secrets_spec_def namespace_image_facts_spec_def split: if_splits)

lemma cluster_specs_safe: "c \<in> set generate_cluster_info_collectors \<Longrightarrow> safe_spec c"
  by (auto simp: generate_cluster_info_collectors_def safe_spec_def cluster_info_spec_def cluster_resources_spec_def)

lemma foundational_specs_safe: "c \<in> set (generate_foundational_collectors E nss opts) \<Longrightarrow> safe_spec c"
  unfolding generate_foundational_collectors_def
  by (auto split: res.splits if_splits dest: kots_specs_safe standard_specs_safe namespaced_specs_safe cluster_specs_safe)

lemma keep_allowed_set: "set (fst (keep_allowed allowed cs rr)) \<subseteq> set cs"
  by (induction allowed cs rr rule: keep_allowed.induct) (auto split: option.splits prod.splits if_splits)

lemma apply_rbac_filtering_set: "set (fst (apply_rbac_filtering E cs d)) \<subseteq> set cs"
proof -
  obtain allowed c1 where a: "filter_by_permissions (de_review E) (de_now E) (List.map_filter collector_to_resource cs) (di_cache d) = (allowed, c1)"
    by fastforce
  obtain kept rr1 where k: "keep_allowed (get_cache_key ` set allowed) cs (di_reporter d) = (kept, rr1)" by fastforce
  show ?thesis using keep_allowed_set [of "get_cache_key ` set allowed" cs "di_reporter d"] by (simp add: apply_rbac_filtering_def a k)
qed

lemma discover_foundational_set:
  "set (fst (discover_foundational E opts d)) \<subseteq>
     set (generate_foundational_collectors E (get_target_namespaces (de_namespaces E) (op_namespaces opts)) opts)"
  using apply_rbac_filtering_set [of E "generate_foundational_collectors E (get_target_namespaces (de_namespaces E) (op_namespaces opts)) opts" d]
  by (auto simp: discover_foundational_def Let_def split: prod.splits if_splits)

lemma merged_from:
  assumes "\<forall>m. set (visit m) = set m"
  shows "set (merge_and_deduplicate_collectors visit yaml found) \<subseteq> set found \<union> set yaml"
proof -
  have "snd ` set (fold (\<lambda>c m. AList.update (get_unique_key c) c m) cs m) \<subseteq> set cs \<union> snd ` set m" for cs and m :: "(string \<times> auto_spec) list"
  proof (induction cs arbitrary: m)
    case (Cons c cs)
    have "snd ` set (AList.update (get_unique_key c) c m) \<subseteq> insert c (snd ` set m)"
      by (induction m) auto
    with Cons [of "AList.update (get_unique_key c) c m"] show ?case by auto
  qed simp
  from this [of "found @ yaml" "[]"] show ?thesis using assms by (simp add: merge_and_deduplicate_collectors_def)
qed

lemma enumerate_elem: "(i, c) \<in> set (List.enumerate n cs) \<Longrightarrow> c \<in> set cs"
  by (auto simp: in_set_enumerate_eq)

lemma to_collect_secret: "cl_secret (to_troubleshoot_collect c) = Some b \<Longrightarrow> ds_body c = BSecret b"
  by (auto simp: to_troubleshoot_collect_def empty_collect_def split: if_splits spec_body.splits)

lemma converted_secret: "ds_body (convert_to_collector_spec i c) = BSecret b \<Longrightarrow> cl_secret c = Some b"
  by (auto simp: convert_to_collector_spec_def yaml_spec_def split: option.splits)

text \<open>
  C12. Discovery by itself never reads the contents of a secret: a collector of the resulting bundle that does is one the YAML spec
  asked for.
\<close>

theorem secret_values_only_from_yaml:
  assumes "apply_auto_discovery E cfg ns collectors = Ok out" and "\<forall>m. set (ce_visit E m) = set m"
    and "c \<in> set out" and "cl_secret c = Some b" and "reads_values b"
  shows "\<exists>y\<in>set collectors. cl_secret y = Some b"
proof (cases "ac_enabled cfg")
  case False
  with assms show ?thesis by (auto simp: apply_auto_discovery_def)
next
  case True
  define opts where "opts = apply_options E cfg ns (length collectors > 0)"
  obtain d where d: "new_discoverer (ce_has_config E) (ce_has_client E) = Ok d"
    using assms(1) True by (cases "new_discoverer (ce_has_config E) (ce_has_client E)") (auto simp: apply_auto_discovery_def Let_def)
  obtain found summary d1 where f: "discover_foundational (ce_discovery E) opts d = (found, summary, d1)" by (metis prod_cases3)
  let ?yaml = "map (\<lambda>c. c\<lparr>ds_source := SourceYAML\<rparr>) (convert_to_collector_specs collectors)"
  have safe: "safe_spec x" if "x \<in> set found" for x
    using that discover_foundational_set [of "ce_discovery E" opts d] foundational_specs_safe f by fastforce
  have out: "out = map to_troubleshoot_collect
      (if length collectors > 0 then merge_and_deduplicate_collectors (ce_visit E) ?yaml found else found)"
  proof -
    have "Ok out = Ok (convert_to_troubleshoot_collectors
        (if length collectors > 0 then fst (augment_with_foundational (ce_visit E) (ce_discovery E) (convert_to_collector_specs collectors) opts d)
         else fst (discover_foundational (ce_discovery E) opts d)))"
      using assms(1) True d unfolding apply_auto_discovery_def Let_def opts_def [symmetric]
      by (simp only: not_True_eq_False if_False wrap_res.simps bind_res.simps)
    then show ?thesis
      by (simp only: res.inject convert_to_troubleshoot_collectors_def augment_with_foundational_def f case_prod_conv Let_def fst_conv)
  qed
  with assms(3) obtain x where x: "c = to_troubleshoot_collect x" "x \<in> set found \<union> set ?yaml"
    using merged_from [OF assms(2), of ?yaml found] by (auto split: if_splits)
  have body: "ds_body x = BSecret b" using to_collect_secret assms(4) x(1) by simp
  with safe assms(5) have "x \<notin> set found" by (auto simp: safe_spec_def)
  with x(2) obtain y i where "y \<in> set collectors" "x = (convert_to_collector_spec i y)\<lparr>ds_source := SourceYAML\<rparr>"
    by (auto simp: convert_to_collector_specs_def dest: enumerate_elem)
  with body converted_secret [of i y b] show ?thesis by auto
qed

definition no_objects :: namespace_objects where
  "no_objects = \<lparr>no_deployments = Ok [], no_services = Ok [], no_secrets = Ok [], no_config_maps = Ok []\<rparr>"

definition example_cluster :: cluster_env where
  "example_cluster =
     \<lparr>ce_discovery = \<lparr>de_namespaces = Ok [''a''], de_objects = (\<lambda>_. no_objects), de_nodes = Ok [], de_review = (\<lambda>_. Ok True), de_now = 0\<rparr>,
      ce_listing = (\<lambda>_. Ok [(''a'', []), (''kube-system'', [])]), ce_api = example_api, ce_visit = id, ce_has_config = True,
      ce_has_client = True\<rparr>"

definition example_auto :: auto_discovery_config where
  "example_auto =
     \<lparr>ac_enabled = True, ac_include_images = False, ac_rbac_check = True, ac_profile = ''minimal'', ac_exclude_namespaces = [''*''],
      ac_include_namespaces = [], ac_include_system_namespaces = False, ac_timeout = 30 * seconds\<rparr>"

definition asked_secret :: secret_body where
  "asked_secret =
     \<lparr>sb_collector_name = [], sb_name = ''s'', sb_namespace = ''a'', sb_selector = [], sb_include_value = True, sb_include_all_data = False\<rparr>"

definition exec_collect :: collect_fields where
  "exec_collect = empty_collect\<lparr>cl_other := Some ''exec''\<rparr>"

lemma example_runs:
  "new_discoverer (ce_has_config example_cluster) (ce_has_client example_cluster) = Ok \<lparr>di_cache = new_permission_cache, di_reporter = new_rbac_reporter\<rparr>"
  "ac_enabled example_auto" "ce_visit example_cluster = id"
  by (simp_all add: new_discoverer_def example_cluster_def example_auto_def)

section \<open>Merging\<close>

lemma find_append_case: "find P (xs @ ys) = (case find P xs of Some x \<Rightarrow> Some x | None \<Rightarrow> find P ys)"
  by (induction xs) auto

lemma find_last_of_two:
  "find P (rev (xs @ ys)) = Some c \<longleftrightarrow> (case find P (rev ys) of Some d \<Rightarrow> c = d | None \<Rightarrow> find P (rev xs) = Some c)"
  by (cases "find P (rev ys)") (auto simp: find_append_case)

lemma find_member: "find P xs = Some x \<Longrightarrow> x \<in> set xs"
  by (metis find_Some_iff nth_mem)

lemma merged_distinct: "distinct (map fst m) \<Longrightarrow> distinct (map fst (fold (\<lambda>c m. AList.update (get_unique_key c) c m) cs m))"
  by (induction cs arbitrary: m) (simp_all add: AList.distinct_update)

lemma merged_lookup:
  "map_of (fold (\<lambda>c m. AList.update (get_unique_key c) c m) cs m) k =
     (case find (\<lambda>c. get_unique_key c = k) (rev cs) of Some c \<Rightarrow> Some c | None \<Rightarrow> map_of m k)"
  by (induction cs arbitrary: m) (auto simp: update_conv' find_append_case split: option.splits)

lemma merged_keys: "fst ` set (fold (\<lambda>c m. AList.update (get_unique_key c) c m) cs m) = get_unique_key ` set cs \<union> fst ` set m"
  by (induction cs arbitrary: m) (auto simp: AList.dom_update)

definition merge_map :: "auto_spec list \<Rightarrow> (string \<times> auto_spec) list" where
  "merge_map cs = fold (\<lambda>c m. AList.update (get_unique_key c) c m) cs []"

lemma merge_map_distinct: "distinct (map fst (merge_map cs))"
  unfolding merge_map_def by (rule merged_distinct) simp

lemma merge_map_lookup: "map_of (merge_map cs) k = find (\<lambda>c. get_unique_key c = k) (rev cs)"
  using merged_lookup [of cs "[]" k] unfolding merge_map_def by (cases "find (\<lambda>c. get_unique_key c = k) (rev cs)") simp_all

lemma merge_map_entries: "(k, c) \<in> set (merge_map cs) \<longleftrightarrow> find (\<lambda>c. get_unique_key c = k) (rev cs) = Some c"
  by (simp only: map_of_eq_Some_iff [OF merge_map_distinct, symmetric] merge_map_lookup)

lemma merge_map_key: "(k, c) \<in> set (merge_map cs) \<Longrightarrow> get_unique_key c = k"
  unfolding merge_map_entries by (auto simp: find_Some_iff)

lemma merged_members: "snd ` set (merge_map cs) = {c. find (\<lambda>d. get_unique_key d = get_unique_key c) (rev cs) = Some c}"
proof (intro set_eqI iffI)
  fix c assume "c \<in> snd ` set (merge_map cs)"
  then obtain k where k: "(k, c) \<in> set (merge_map cs)" by auto
  then have "find (\<lambda>c. get_unique_key c = k) (rev cs) = Some c" by (simp only: merge_map_entries)
  with merge_map_key [OF k] show "c \<in> {c. find (\<lambda>d. get_unique_key d = get_unique_key c) (rev cs) = Some c}" by simp
next
  fix c assume "c \<in> {c. find (\<lambda>d. get_unique_key d = get_unique_key c) (rev cs) = Some c}"
  then have "(get_unique_key c, c) \<in> set (merge_map cs)" unfolding merge_map_entries by simp
  then show "c \<in> snd ` set (merge_map cs)" by force
qed

lemma merge_by_map: "merge_and_deduplicate_collectors visit yaml found = map snd (visit (merge_map (found @ yaml)))"
  by (simp only: merge_and_deduplicate_collectors_def merge_map_def)

text \<open>
  C28. Merging keeps one collector for each key: the last of the YAML spec that has it, and the last foundational one otherwise.
  Priorities are not looked at.
\<close>

theorem merge_meaning:
  assumes "\<forall>m. mset (visit m) = mset m"
  shows "distinct (map get_unique_key (merge_and_deduplicate_collectors visit yaml found)) \<and>
    set (merge_and_deduplicate_collectors visit yaml found) =
      {c. case find (\<lambda>d. get_unique_key d = get_unique_key c) (rev yaml) of
            Some d \<Rightarrow> c = d
          | None \<Rightarrow> find (\<lambda>d. get_unique_key d = get_unique_key c) (rev found) = Some c}"
proof
  let ?m = "merge_map (found @ yaml)"
  have perm: "mset (visit ?m) = mset ?m" by (rule assms [rule_format])
  have sets: "set (visit ?m) = set ?m" by (rule mset_eq_setD [OF perm])
  show "set (merge_and_deduplicate_collectors visit yaml found) =
      {c. case find (\<lambda>d. get_unique_key d = get_unique_key c) (rev yaml) of
            Some d \<Rightarrow> c = d
          | None \<Rightarrow> find (\<lambda>d. get_unique_key d = get_unique_key c) (rev found) = Some c}"
    unfolding merge_by_map set_map sets merged_members by (rule Collect_cong) (rule find_last_of_two)
  have "map (\<lambda>e. get_unique_key (snd e)) (visit ?m) = map fst (visit ?m)"
    by (rule map_cong [OF refl]) (metis merge_map_key sets prod.collapse)
  moreover have "mset (map fst (visit ?m)) = mset (map fst ?m)" by (simp only: mset_map perm)
  then have "distinct (map fst (visit ?m))" using merge_map_distinct mset_eq_imp_distinct_iff by blast
  ultimately show "distinct (map get_unique_key (merge_and_deduplicate_collectors visit yaml found))"
    by (simp only: merge_by_map map_map comp_def)
qed

theorem merge_meaning_witness:
  "distinct (map get_unique_key (merge_and_deduplicate_collectors rev [namespace_logs_spec None ''a''] [namespace_logs_spec (Some 1) ''a'', cluster_info_spec]))"
  using merge_meaning [of rev "[namespace_logs_spec None ''a'']" "[namespace_logs_spec (Some 1) ''a'', cluster_info_spec]"] by simp

section \<open>Collectors of the YAML spec\<close>

lemma converted_other: "cl_other (to_troubleshoot_collect c) = None"
  by (auto simp: to_troubleshoot_collect_def empty_collect_def split: spec_body.split)

text \<open>A collector of exactly one of the five kinds discovery knows.\<close>

definition known_collect :: "collect_fields \<Rightarrow> bool" where
  "known_collect c \<longleftrightarrow>
     cl_data c = None \<and> cl_other c = None \<and>
     length (filter id [cl_logs c \<noteq> None, cl_config_map c \<noteq> None, cl_secret c \<noteq> None, cl_cluster_info c \<noteq> None,
       cl_cluster_resources c \<noteq> None]) = 1"

lemma known_collect_back: "known_collect c \<Longrightarrow> to_troubleshoot_collect ((convert_to_collector_spec i c)\<lparr>ds_source := src\<rparr>) = c"
  by (cases c; cases "cl_logs c"; cases "cl_config_map c"; cases "cl_secret c"; cases "cl_cluster_info c"; cases "cl_cluster_resources c")
    (simp_all add: known_collect_def convert_to_collector_spec_def yaml_spec_def to_troubleshoot_collect_def empty_collect_def collector_types)

definition key_name :: "string \<Rightarrow> string" where
  "key_name k = snd (cut_last (CHR ''/'') k)"

lemma key_name_unique_key: "CHR ''/'' \<notin> set (ds_name c) \<Longrightarrow> key_name (get_unique_key c) = ds_name c"
  using cut_last_append [of "CHR ''/''" "ds_name c" "ds_type c"]
    cut_last_append [of "CHR ''/''" "ds_name c" "ds_type c @ ''/'' @ ds_namespace c"]
  by (simp add: key_name_def get_unique_key_def)

lemma yaml_name:
  obtains w where "ds_name (convert_to_collector_spec i c) = ''yaml-'' @ w @ ''-'' @ show_nat i" and "CHR ''/'' \<notin> set w"
proof -
  have "\<exists>w\<in>{''logs'', ''configmap'', ''secret'', ''clusterinfo'', ''clusterresources'', ''other''}.
      ds_name (convert_to_collector_spec i c) = ''yaml-'' @ w @ ''-'' @ show_nat i"
    by (auto simp: convert_to_collector_spec_def yaml_spec_def split: option.split)
  with that show thesis by auto
qed

lemma show_nat_plain: "CHR ''/'' \<notin> set (show_nat i)" "CHR ''-'' \<notin> set (show_nat i)"
  using show_nat_digits [of "CHR ''/''" i] show_nat_digits [of "CHR ''-''" i] by (auto simp: is_digit_def)

lemma yaml_name_no_slash: "CHR ''/'' \<notin> set (ds_name (convert_to_collector_spec i c))"
  by (rule yaml_name [of i c]) (use show_nat_plain(1) [of i] in auto)

lemma yaml_key_index:
  assumes "get_unique_key (convert_to_collector_spec i c) = get_unique_key (convert_to_collector_spec j d)"
  shows "i = j"
proof -
  have names: "ds_name (convert_to_collector_spec i c) = ds_name (convert_to_collector_spec j d)"
    using assms key_name_unique_key [OF yaml_name_no_slash] by metis
  obtain w where w: "ds_name (convert_to_collector_spec i c) = ''yaml-'' @ w @ ''-'' @ show_nat i" by (rule yaml_name)
  obtain v where v: "ds_name (convert_to_collector_spec j d) = ''yaml-'' @ v @ ''-'' @ show_nat j" by (rule yaml_name)
  have "snd (cut_last (CHR ''-'') (''yaml-'' @ w @ ''-'' @ show_nat i)) = show_nat i"
    "snd (cut_last (CHR ''-'') (''yaml-'' @ v @ ''-'' @ show_nat j)) = show_nat j"
    using cut_last_append [of "CHR ''-''" "show_nat i" "''yaml-'' @ w"] cut_last_append [of "CHR ''-''" "show_nat j" "''yaml-'' @ v"]
    by (simp_all add: show_nat_plain)
  with names w v have "show_nat i = show_nat j" by simp
  then show "i = j" by simp
qed

definition from_yaml :: "collect_fields list \<Rightarrow> auto_spec list" where
  "from_yaml cs = map (\<lambda>c. c\<lparr>ds_source := SourceYAML\<rparr>) (convert_to_collector_specs cs)"

lemma unique_key_source [simp]: "get_unique_key (c\<lparr>ds_source := src\<rparr>) = get_unique_key c"
  by (simp add: get_unique_key_def)

lemma from_yaml_nth: "i < length cs \<Longrightarrow> from_yaml cs ! i = (convert_to_collector_spec i (cs ! i))\<lparr>ds_source := SourceYAML\<rparr>"
  by (simp add: from_yaml_def convert_to_collector_specs_def nth_enumerate_eq)

lemma from_yaml_length [simp]: "length (from_yaml cs) = length cs"
  by (simp add: from_yaml_def convert_to_collector_specs_def)

lemma from_yaml_distinct: "distinct (map get_unique_key (from_yaml cs))"
  unfolding distinct_conv_nth using yaml_key_index by (auto simp: from_yaml_nth)

lemma find_distinct: "distinct (map f xs) \<Longrightarrow> x \<in> set xs \<Longrightarrow> find (\<lambda>y. f y = f x) xs = Some x"
proof (induction xs)
  case (Cons a xs)
  show ?case
  proof (cases "x = a")
    case False
    with Cons.prems have "x \<in> set xs" and "f a \<noteq> f x" by auto
    with Cons show ?thesis by simp
  qed simp
qed simp

lemma yaml_specs_survive:
  assumes "x \<in> set (from_yaml cs)" and "\<forall>m. set (visit m) = set m"
  shows "x \<in> set (merge_and_deduplicate_collectors visit (from_yaml cs) found)"
proof -
  have "find (\<lambda>d. get_unique_key d = get_unique_key x) (rev (from_yaml cs)) = Some x"
    by (rule find_distinct) (use assms(1) from_yaml_distinct in \<open>simp_all add: rev_map [symmetric]\<close>)
  then show ?thesis unfolding merge_by_map set_map assms(2) [rule_format] merged_members
    by (simp add: find_append_case)
qed

lemma apply_auto_discovery_yaml:
  assumes "apply_auto_discovery E cfg ns collectors = Ok out" and "ac_enabled cfg" and "collectors \<noteq> []"
  obtains found where "out = map to_troubleshoot_collect (merge_and_deduplicate_collectors (ce_visit E) (from_yaml collectors) found)"
proof -
  have "\<exists>d. Ok out = Ok (convert_to_troubleshoot_collectors
      (fst (augment_with_foundational (ce_visit E) (ce_discovery E) (convert_to_collector_specs collectors) (apply_options E cfg ns True) d)))"
    using assms by (cases "new_discoverer (ce_has_config E) (ce_has_client E)") (auto simp: apply_auto_discovery_def Let_def)
  then obtain d where d: "out = convert_to_troubleshoot_collectors
      (fst (augment_with_foundational (ce_visit E) (ce_discovery E) (convert_to_collector_specs collectors) (apply_options E cfg ns True) d))"
    by blast
  obtain found summary d1 where "discover_foundational (ce_discovery E) (apply_options E cfg ns True) d = (found, summary, d1)"
    by (metis prod_cases3)
  with d have "out = map to_troubleshoot_collect (merge_and_deduplicate_collectors (ce_visit E) (from_yaml collectors) found)"
    by (simp add: convert_to_troubleshoot_collectors_def augment_with_foundational_def from_yaml_def)
  then show thesis by (rule that)
qed

lemma apply_auto_discovery_keeps:
  assumes "apply_auto_discovery E cfg ns collectors = Ok out" and "\<forall>m. set (ce_visit E m) = set m"
    and "y \<in> set collectors" and "known_collect y"
  shows "y \<in> set out"
proof (cases "ac_enabled cfg")
  case True
  have "collectors \<noteq> []" using assms(3) by auto
  then obtain found where out: "out = map to_troubleshoot_collect (merge_and_deduplicate_collectors (ce_visit E) (from_yaml collectors) found)"
    using apply_auto_discovery_yaml [OF assms(1) True] by blast
  obtain i where i: "i < length collectors" "collectors ! i = y" using assms(3) by (auto simp: in_set_conv_nth)
  have "from_yaml collectors ! i \<in> set (from_yaml collectors)" using i(1) by simp
  then have "to_troubleshoot_collect (from_yaml collectors ! i) \<in> set out"
    unfolding out set_map by (intro imageI yaml_specs_survive [OF _ assms(2)])
  then show ?thesis using i known_collect_back [OF assms(4)] by (simp add: from_yaml_nth)
next
  case False
  with assms show ?thesis by (auto simp: apply_auto_discovery_def)
qed

text \<open>
  A collector of the YAML spec that has exactly one of the kinds discovery knows is kept as it is, in whatever order the
  maps are visited and whatever is discovered.
\<close>

theorem yaml_collectors_kept:
  assumes "apply_auto_discovery E cfg ns collectors = Ok out" and "\<forall>m. set (ce_visit E m) = set m"
    and "y \<in> set collectors" and "known_collect y"
  shows "y \<in> set out"
  by (rule apply_auto_discovery_keeps [OF assms])

definition secret_collect :: collect_fields where
  "secret_collect = empty_collect\<lparr>cl_secret := Some asked_secret\<rparr>"

lemma secret_collect_known: "known_collect secret_collect" "cl_secret secret_collect = Some asked_secret"
  by (simp_all add: known_collect_def secret_collect_def empty_collect_def)

lemma example_apply: "\<exists>out. apply_auto_discovery example_cluster example_auto [] collectors = Ok out"
  using example_runs by (simp add: apply_auto_discovery_def Let_def)

theorem yaml_collectors_kept_witness:
  "\<exists>out. apply_auto_discovery example_cluster example_auto [] [exec_collect, secret_collect] = Ok out \<and> secret_collect \<in> set out"
proof -
  obtain out where out: "apply_auto_discovery example_cluster example_auto [] [exec_collect, secret_collect] = Ok out"
    using example_apply by blast
  have "secret_collect \<in> set out"
    by (rule yaml_collectors_kept [OF out]) (simp_all add: example_runs secret_collect_known)
  with out show ?thesis by blast
qed

theorem secret_values_only_from_yaml_witness:
  "\<exists>out. apply_auto_discovery example_cluster example_auto [] [exec_collect, secret_collect] = Ok out \<and> secret_collect \<in> set out \<and>
     (\<exists>y\<in>{exec_collect, secret_collect}. cl_secret y = Some asked_secret)"
proof -
  obtain out where out: "apply_auto_discovery example_cluster example_auto [] [exec_collect, secret_collect] = Ok out"
    using example_apply by blast
  have kept: "secret_collect \<in> set out"
    by (rule apply_auto_discovery_keeps [OF out]) (simp_all add: example_runs secret_collect_known)
  have "\<exists>y\<in>set [exec_collect, secret_collect]. cl_secret y = Some asked_secret"
    by (rule secret_values_only_from_yaml [OF out _ kept secret_collect_known(2)])
      (simp_all add: example_runs reads_values_def asked_secret_def)
  with out kept show ?thesis by auto
qed

definition plain_name :: "auto_spec \<Rightarrow> bool" where
  "plain_name f \<longleftrightarrow> CHR ''/'' \<notin> set (ds_name f) \<and> \<not> has_prefix ''yaml-'' (ds_name f)"

lemma plain_name_key: "plain_name f \<Longrightarrow> x \<in> set (from_yaml cs) \<Longrightarrow> get_unique_key x \<noteq> get_unique_key f"
proof
  assume f: "plain_name f" and "x \<in> set (from_yaml cs)" and eq: "get_unique_key x = get_unique_key f"
  then obtain i c where x: "x = (convert_to_collector_spec i c)\<lparr>ds_source := SourceYAML\<rparr>"
    by (auto simp: in_set_conv_nth from_yaml_nth)
  then have "ds_name (convert_to_collector_spec i c) = ds_name f"
    using eq key_name_unique_key [of f] key_name_unique_key [OF yaml_name_no_slash, of i c] f by (simp add: plain_name_def)
  with f show False by (metis has_prefix_append plain_name_def yaml_name)
qed

text \<open>
  The override the merge is made for never happens: converted YAML collectors have keys of their own, so
  merging only adds them to what was discovered and the same data is collected twice.
\<close>

theorem yaml_overrides_nothing:
  assumes "\<forall>f\<in>set found. plain_name f" and "\<forall>m. set (visit m) = set m"
  shows "set (merge_and_deduplicate_collectors visit (from_yaml cs) found) =
    set (from_yaml cs) \<union> set (merge_and_deduplicate_collectors visit [] found)"
proof (intro equalityI subsetI)
  fix c assume "c \<in> set (merge_and_deduplicate_collectors visit (from_yaml cs) found)"
  then have "find (\<lambda>d. get_unique_key d = get_unique_key c) (rev (found @ from_yaml cs)) = Some c"
    unfolding merge_by_map set_map assms(2) [rule_format] merged_members by simp
  then show "c \<in> set (from_yaml cs) \<union> set (merge_and_deduplicate_collectors visit [] found)"
    unfolding find_last_of_two merge_by_map set_map assms(2) [rule_format] merged_members
    by (cases "find (\<lambda>d. get_unique_key d = get_unique_key c) (rev (from_yaml cs))")
      (auto dest: find_member)
next
  fix c assume "c \<in> set (from_yaml cs) \<union> set (merge_and_deduplicate_collectors visit [] found)"
  then show "c \<in> set (merge_and_deduplicate_collectors visit (from_yaml cs) found)"
  proof
    assume "c \<in> set (merge_and_deduplicate_collectors visit [] found)"
    then have c: "find (\<lambda>d. get_unique_key d = get_unique_key c) (rev found) = Some c"
      unfolding merge_by_map set_map assms(2) [rule_format] merged_members by simp
    then have "c \<in> set found" by (auto dest: find_member)
    with assms(1) have "find (\<lambda>d. get_unique_key d = get_unique_key c) (rev (from_yaml cs)) = None"
      using plain_name_key [of c _ cs] by (simp add: find_None_iff)
    with c show ?thesis unfolding merge_by_map set_map assms(2) [rule_format] merged_members
      by (simp add: find_append_case)
  qed (rule yaml_specs_survive [OF _ assms(2)])
qed

theorem yaml_overrides_nothing_witness:
  "set (merge_and_deduplicate_collectors id (from_yaml [secret_collect]) [namespace_secrets_spec 70 ''a'']) =
     set (from_yaml [secret_collect]) \<union> set (merge_and_deduplicate_collectors id [] [namespace_secrets_spec 70 ''a''])"
  by (rule yaml_overrides_nothing) (simp_all add: plain_name_def namespace_secrets_spec_def)



section \<open>Permissions\<close>

definition collector_permitted :: "(resource_attributes \<Rightarrow> bool res) \<Rightarrow> auto_spec \<Rightarrow> bool" where
  "collector_permitted review c = (case collector_to_resource c of None \<Rightarrow> True | Some r \<Rightarrow> permitted review r)"

definition in_keys :: "string set \<Rightarrow> auto_spec \<Rightarrow> bool" where
  "in_keys allowed c = (case collector_to_resource c of None \<Rightarrow> True | Some r \<Rightarrow> get_cache_key r \<in> allowed)"

lemma reported [simp]:
  "rr_filtered (report_missing_permission a b c d rr) = rr_filtered rr"
  "rr_filtered (report_filtered_collector x reason rr) = rr_filtered rr @ [x]"
  "length (rr_warnings (report_missing_permission a b c d rr)) = Suc (length (rr_warnings rr))"
  "length (rr_warnings (report_filtered_collector x reason rr)) = Suc (length (rr_warnings rr))"
  by (simp_all add: report_missing_permission_def report_filtered_collector_def track_permission_issue_def Let_def)

lemma keep_allowed_result:
  "fst (keep_allowed allowed cs rr) = filter (in_keys allowed) cs \<and>
   rr_filtered (snd (keep_allowed allowed cs rr)) = rr_filtered rr @ filter (\<lambda>c. \<not> in_keys allowed c) cs \<and>
   length (rr_warnings (snd (keep_allowed allowed cs rr))) =
     length (rr_warnings rr) + 2 * length (filter (\<lambda>c. \<not> in_keys allowed c) cs)"
proof (induction allowed cs rr rule: keep_allowed.induct)
  case (2 allowed c cs rr)
  show ?case
  proof (cases "collector_to_resource c")
    case None
    then have "in_keys allowed c" by (simp add: in_keys_def)
    with None "2.IH"(1) show ?thesis by (cases "keep_allowed allowed cs rr") simp
  next
    case (Some r)
    show ?thesis
    proof (cases "get_cache_key r \<in> allowed")
      case True
      with Some have "in_keys allowed c" by (simp add: in_keys_def)
      with True Some "2.IH"(2) [OF Some True] show ?thesis by (cases "keep_allowed allowed cs rr") simp
    next
      case False
      with Some have "\<not> in_keys allowed c" by (simp add: in_keys_def)
      with False Some "2.IH"(3) [OF Some False] show ?thesis by simp
    qed
  qed
qed simp

lemma resource_slash_free: "collector_to_resource c = Some r \<Longrightarrow> CHR ''/'' \<notin> set (ds_namespace c) \<Longrightarrow> slash_free r"
  by (auto simp: collector_to_resource_def slash_free_def split: if_splits)

lemma set_resources: "set (List.map_filter collector_to_resource cs) = {r. \<exists>c\<in>set cs. collector_to_resource c = Some r}"
  by (induction cs) (auto simp: List.map_filter_simps split: option.split)

lemma in_allowed_keys:
  assumes "\<forall>c\<in>set cs. CHR ''/'' \<notin> set (ds_namespace c)"
    and "mset allowed = mset (filter (permitted review) (List.map_filter collector_to_resource cs))" and "c \<in> set cs"
  shows "in_keys (get_cache_key ` set allowed) c = collector_permitted review c"
proof (cases "collector_to_resource c")
  case (Some r)
  let ?R = "set (List.map_filter collector_to_resource cs)"
  have r: "r \<in> ?R" using Some assms(3) by (auto simp: set_resources)
  have "\<forall>r\<in>?R. slash_free r" using assms(1) resource_slash_free by (auto simp: set_resources)
  then have inj: "inj_on get_cache_key ?R" by (rule cache_key_injective)
  have set_allowed: "set allowed = {q \<in> ?R. permitted review q}" using mset_eq_setD [OF assms(2)] by auto
  then have "get_cache_key r \<in> get_cache_key ` set allowed \<longleftrightarrow> r \<in> set allowed"
    by (intro inj_on_image_mem_iff [OF inj r]) auto
  with Some set_allowed r show ?thesis by (simp add: in_keys_def collector_permitted_def)
qed (simp add: in_keys_def collector_permitted_def)

text \<open>
  C14. Filtering collectors by permissions, whatever the schedule of the checks: the collectors kept are those that need no
  permission, those the server allows and those it cannot answer for, in their order; every other one is reported, with two warnings
  each, and none is dropped in silence.
\<close>

theorem filtered_collectors_reported:
  assumes "\<forall>c\<in>set cs. CHR ''/'' \<notin> set (ds_namespace c)" and "rs = List.map_filter collector_to_resource cs"
    and "cache_truthful review (set rs) cached"
    and "(filter_step review now)\<^sup>*\<^sup>* (filter_start rs cached) s" and "filter_done s"
    and "(kept, rr') = keep_allowed (get_cache_key ` set (fi_allowed s)) cs rr"
  shows "kept = filter (collector_permitted review) cs \<and>
    rr_filtered rr' = rr_filtered rr @ filter (\<lambda>c. \<not> collector_permitted review c) cs \<and>
    length (rr_warnings rr') = length (rr_warnings rr) + 2 * length (filter (\<lambda>c. \<not> collector_permitted review c) cs)"
proof -
  have "\<forall>r\<in>set rs. slash_free r" using assms(1) resource_slash_free by (auto simp: assms(2) set_resources)
  from filter_run_result(2) [OF this assms(3,4,5)]
  have allowed: "mset (fi_allowed s) = mset (filter (permitted review) (List.map_filter collector_to_resource cs))"
    by (simp only: assms(2))
  have same: "in_keys (get_cache_key ` set (fi_allowed s)) c = collector_permitted review c" if "c \<in> set cs" for c
    by (rule in_allowed_keys [OF assms(1) allowed that])
  have "filter (in_keys (get_cache_key ` set (fi_allowed s))) cs = filter (collector_permitted review) cs"
    "filter (\<lambda>c. \<not> in_keys (get_cache_key ` set (fi_allowed s)) c) cs = filter (\<lambda>c. \<not> collector_permitted review c) cs"
    by (rule filter_cong [OF refl], simp add: same)+
  with keep_allowed_result [of "get_cache_key ` set (fi_allowed s)" cs rr] assms(6) show ?thesis by (metis fst_conv snd_conv)
qed

theorem filtered_collectors_reported_witness:
  "\<exists>s. filter_done s \<and>
     fst (keep_allowed (get_cache_key ` set (fi_allowed s)) [namespace_logs_spec None ''a'', namespace_logs_spec None ''b''] new_rbac_reporter)
       = [namespace_logs_spec None ''a'']"
proof -
  let ?cs = "[namespace_logs_spec None ''a'', namespace_logs_spec None ''b'']"
  let ?rs = "List.map_filter collector_to_resource ?cs"
  obtain allowed c where run: "filter_by_permissions (only_in ''a'') 0 ?rs new_permission_cache = (allowed, c)" by fastforce
  let ?s = "\<lparr>fi_waiting = [], fi_asking = [], fi_cache = c, fi_allowed = allowed\<rparr>"
  have d: "filter_done ?s" by (simp add: filter_done_def)
  obtain kept rr' where k: "(kept, rr') = keep_allowed (get_cache_key ` set (fi_allowed ?s)) ?cs new_rbac_reporter"
    by (metis surj_pair)
  have ns: "\<forall>c\<in>set ?cs. CHR ''/'' \<notin> set (ds_namespace c)" by (simp add: namespace_logs_spec_def)
  have "filter (collector_permitted (only_in ''a'')) ?cs = [namespace_logs_spec None ''a'']"
    by (simp add: collector_permitted_def collector_to_resource_def namespace_logs_spec_def permitted_def permissive_def review_for_def only_in_def)
  with filtered_collectors_reported [OF ns refl new_cache_truthful filter_by_permissions_run [OF run] d k]
  have "kept = [namespace_logs_spec None ''a'']" by simp
  with d k show ?thesis by (metis fst_conv)
qed

section \<open>Flags\<close>

text \<open>
  Patterns that leave no namespace discover in every namespace: the empty list the scan gives is taken for no choice at
  all, so excluding everything includes everything.
\<close>

theorem excluding_all_includes_all:
  assumes "ac_include_namespaces cfg \<noteq> [] \<or> ac_exclude_namespaces cfg \<noteq> []" and "ce_listing E [] = Ok listed"
    and "de_namespaces (ce_discovery E) = Ok ns"
    and "\<forall>n\<in>fst ` set listed. \<not> should_include_namespace n
      \<lparr>include_patterns = ac_include_namespaces cfg, exclude_patterns = ac_exclude_namespaces cfg, label_selector = [],
       include_system_namespaces = ac_include_system_namespaces cfg\<rparr>"
  shows "get_target_namespaces (de_namespaces (ce_discovery E)) (op_namespaces (apply_options E cfg [] has_yaml)) = ns"
proof -
  let ?o = "\<lparr>include_patterns = ac_include_namespaces cfg, exclude_patterns = ac_exclude_namespaces cfg, label_selector = [],
    include_system_namespaces = ac_include_system_namespaces cfg\<rparr>"
  have "scan_loop api ?o ls = []" if "\<forall>n\<in>fst ` set ls. \<not> should_include_namespace n ?o" for api ls
    using that by (induction ls) auto
  from this [OF assms(4)] have "namespaces_for (ce_listing E) (ce_api E) cfg [] = []"
    using assms(2) by (simp add: namespaces_for_def scanner_target_namespaces_def scan_namespaces_def)
  with assms(3) show ?thesis by (simp add: apply_options_def Let_def get_target_namespaces_def)
qed

theorem excluding_all_includes_all_witness:
  "get_target_namespaces (de_namespaces (ce_discovery example_cluster)) (op_namespaces (apply_options example_cluster example_auto [] False)) = [''a'']"
  by (rule excluding_all_includes_all [of example_auto example_cluster "[(''a'', []), (''kube-system'', [])]"])
    (simp_all add: example_auto_def example_cluster_def should_include_namespace_def matches_pattern_def)

text \<open>
  The configuration made from the flags always has a timeout, so the timeouts of the profiles are never used, and neither
  is their choice to check permissions; flags that validate name a profile.
\<close>

theorem profile_settings_unused:
  "dp_timeout (profile_for (get_auto_discovery_config v)) = 30 * seconds \<and>
   op_rbac_check (apply_options E (get_auto_discovery_config v) ns has_yaml) = fv_bool v ''rbac-check'' \<and>
   (validate_auto_discovery_flags v = Ok () \<longrightarrow>
      map_of get_discovery_profiles (fv_string v ''discovery-profile'') \<noteq> None \<and>
      (fv_bool v ''include-images'' \<longrightarrow> fv_bool v ''auto'') \<and>
      op_include_images (apply_options E (get_auto_discovery_config v) ns has_yaml) =
        (fv_bool v ''include-images'' \<or> fv_string v ''discovery-profile'' \<in> {''comprehensive'', ''paranoid''}))"
proof (intro conjI impI)
  show "dp_timeout (profile_for (get_auto_discovery_config v)) = 30 * seconds"
    by (simp add: profile_for_def get_auto_discovery_config_def Let_def seconds_def)
  show "op_rbac_check (apply_options E (get_auto_discovery_config v) ns has_yaml) = fv_bool v ''rbac-check''"
    by (simp add: apply_options_def get_auto_discovery_config_def Let_def)
next
  assume ok: "validate_auto_discovery_flags v = Ok ()"
  then show named: "map_of get_discovery_profiles (fv_string v ''discovery-profile'') \<noteq> None"
    by (auto simp: validate_auto_discovery_flags_def split: if_splits)
  show "fv_bool v ''auto''" if "fv_bool v ''include-images''"
    using ok that by (auto simp: validate_auto_discovery_flags_def split: if_splits)
  have "fv_string v ''discovery-profile'' \<in> fst ` set get_discovery_profiles"
    using named by (metis map_of_eq_None_iff)
  then show "op_include_images (apply_options E (get_auto_discovery_config v) ns has_yaml) =
      (fv_bool v ''include-images'' \<or> fv_string v ''discovery-profile'' \<in> {''comprehensive'', ''paranoid''})"
    by (auto simp: get_discovery_profiles_def apply_options_def profile_for_def get_auto_discovery_config_def Let_def)
qed

definition example_flags :: flag_values where
  "example_flags = \<lparr>fv_bool = (\<lambda>f. f = ''auto''), fv_string = (\<lambda>_. ''paranoid''), fv_strings = (\<lambda>_. [])\<rparr>"

theorem profile_settings_unused_witness:
  "validate_auto_discovery_flags example_flags = Ok () \<and> op_include_images (apply_options example_cluster (get_auto_discovery_config example_flags) [] True)"
proof
  show ok: "validate_auto_discovery_flags example_flags = Ok ()"
    by (simp add: validate_auto_discovery_flags_def example_flags_def get_discovery_profiles_def)
  have "op_include_images (apply_options example_cluster (get_auto_discovery_config example_flags) [] True) =
      (fv_bool example_flags ''include-images'' \<or> fv_string example_flags ''discovery-profile'' \<in> {''comprehensive'', ''paranoid''})"
    using profile_settings_unused [of example_flags example_cluster "[]" True] ok by blast
  then show "op_include_images (apply_options example_cluster (get_auto_discovery_config example_flags) [] True)"
    by (simp add: example_flags_def)
qed

end
