(* ===== verification/Spec2Isabelle.thy ===== *)
theory Spec2Isabelle
  imports Multitype Outcomes Comparisons Workloads Sets_And_Jobs Host_Resources Sysctl Host_Devices Redaction_Ledger Scheduler Collection Analysis
    Archives Redact_Results Node_Resources Distribution Cluster_Pods Host_Checks Cluster_Reports Documents Databases Cluster_Health Spec_Loader Image_References Image_Cache Image_Facts Engine
    Autodiscovery
begin

text \<open>
  Troubleshoot collects data from Kubernetes clusters and hosts, redacts it, archives it as a support bundle and
  analyzes it; a preflight collects and analyzes without a bundle. This library models the parts of the Go program
  that decide something: which collectors run and with which permissions, how their results are kept, how secrets
  are found and replaced, how conditions of a spec are read and evaluated, which verdicts come out, and when
  scheduled jobs run. Clusters, hosts, networks and the operating system are parameters.

  \<^bold>\<open>How the code is modelled.\<close> A Go call gives a value of \<open>res\<close> (\<open>Prelude\<close>): \<open>Ok\<close> a value, \<open>Fail\<close> an error, \<open>Panic\<close> a
  panic that reaches the caller; the constructors of \<open>go_error\<close> are the ways the code makes errors (\<^verbatim>\<open>errors.New\<close>,
  \<^verbatim>\<open>Errorf\<close>, \<^verbatim>\<open>Wrap\<close>, errors of a library). Structs are records, switches over pointers are datatypes with the cases
  in the order of the code, maps are association lists or lists in the order a range happens to visit them, so that a
  theorem over all such lists holds for every order. Integers of the code that can wrap are words or are
  converted where the code converts them; quantities, JSON, YAML, label selectors, HMAC, AES and user expressions are
  functions passed to the definitions. State that is threaded through calls is passed explicitly, goroutines are
  step relations. All recursive definitions are total; the one bound is \<open>max_links = 41\<close>, the number of symbolic links
  the kernel follows before it gives up, which is behaviour of the system and not fuel.

  \<^bold>\<open>Foundations.\<close> \<open>Prelude\<close> has the results of calls, decimal and float text, \<^verbatim>\<open>strings\<close> and \<^verbatim>\<open>strconv\<close>. \<open>Lines\<close> reads streams
  by lines, \<open>Regex\<close> matches the built-in expressions leftmost-first, \<open>Paths\<close> is \<^verbatim>\<open>path/filepath\<close> with the
  algebra of plain paths. \<open>Multitype\<close> (\<^verbatim>\<open>pkg/multitype\<close>) has flags that are booleans or strings.

  \<^bold>\<open>Redaction\<close> (\<^verbatim>\<open>pkg/redact\<close>). \<open>Tokenizer\<close> (\<^verbatim>\<open>tokenizer.go\<close>) gives secrets tokens; its lemmas say that over any run equal
  secrets have equal and different secrets different tokens, and that the encrypted map decrypts.
  \<open>Line_Redactors\<close> (\<^verbatim>\<open>literal.go\<close>, \<^verbatim>\<open>single_line.go\<close>, \<^verbatim>\<open>multi_line.go\<close>) and \<open>Yaml_Redactor\<close> (\<^verbatim>\<open>yaml.go\<close>) say exactly what is replaced.
  \<open>Redaction\<close> (\<^verbatim>\<open>redact.go\<close>) has the built-in redactors, the spec redactors with the cache of expressions and the
  pipeline; \<open>Redaction_Ledger\<close> the concurrent list of redactions. \<open>Redact_Results\<close> (\<^verbatim>\<open>pkg/collect/redact.go\<close>) runs the engine
  over all results of a bundle with up to ten goroutines: every file is redacted, and the run ends.

  \<^bold>\<open>Collection\<close> (\<^verbatim>\<open>pkg/collect\<close>, \<^verbatim>\<open>pkg/supportbundle\<close>, \<^verbatim>\<open>pkg/preflight\<close>). \<open>Collectors\<close> (\<^verbatim>\<open>collector.go\<close>, \<^verbatim>\<open>rbac.go\<close>,
  \<^verbatim>\<open>cluster_resources.go\<close>) selects, deduplicates, orders and merges collectors; \<open>Access_Reviews\<close> (\<^verbatim>\<open>collector_shared.go\<close>) has the
  permissions they ask for. \<open>Collection\<close> (the two \<^verbatim>\<open>collect.go\<close>) has both drivers and shows what is run, refused and
  collected whatever the order of the maps. \<open>Collector_Results\<close> (\<^verbatim>\<open>result.go\<close>) keeps results in memory or on disk; its
  locale \<open>result_store\<close> is the contract of both, and one refines the other. \<open>Archives\<close> (\<^verbatim>\<open>result.go\<close>, \<^verbatim>\<open>download.go\<close>) packs and
  extracts bundles.

  \<^bold>\<open>Analysis\<close> (\<^verbatim>\<open>pkg/analyze\<close>, \<^verbatim>\<open>pkg/preflight\<close>). \<open>Outcomes\<close> has specs of outcomes, results and the loop that picks the
  first outcome that holds; the locale \<open>outcome_loop\<close> is that contract for all analyzers that have such a loop.
  \<open>Comparisons\<close> has the conditions on counts, with the locale \<open>when_language\<close> interpreted by every such condition.
  \<open>Workloads\<close>, \<open>Sets_And_Jobs\<close>, \<open>Sysctl\<close>, \<open>Host_Resources\<close> and \<open>Host_Devices\<close> are the analyzers of the files they name.
  \<open>Node_Resources\<close> (\<^verbatim>\<open>node_resources.go\<close>) says which nodes pass the filters and what conditions on them mean;
  \<open>Cluster_Checks\<close> has the analyzers that look for an object or compare one number (storage class, ingress, CRD, secret,
  config map, image pull secret, registry, container runtime, cluster version); \<open>Distribution\<close> (\<^verbatim>\<open>distribution.go\<close>) finds the
  providers of a cluster; \<open>Cluster_Pods\<close> (\<^verbatim>\<open>k8sutil/pod.go\<close>, pods, containers and events) derives pod reasons and shows which
  containers are looked at.
  \<open>Analysis\<close> (\<^verbatim>\<open>analyzer.go\<close>, \<^verbatim>\<open>host_analyzer.go\<close>, \<^verbatim>\<open>preflight/analyze.go\<close>, \<^verbatim>\<open>util.go\<close>, \<^verbatim>\<open>download.go\<close>) dispatches them and
  runs them for preflights and local bundles.

  \<open>Host_Checks\<close> has the operating system, kernel configuration, packages, file systems, HTTP, ports and load balancers of
  hosts, \<open>Cluster_Reports\<close> the reports of pings, Weave, Ceph, Longhorn and certificates, \<open>Documents\<close> the analyzers that
  look into collected texts, YAML, JSON and objects, \<open>Databases\<close> the four database analyzers, and \<open>Cluster_Health\<close>
  Velero, volumes of nodes, host certificates and network namespaces. Their lemmas say what conditions mean, that every branch gives a
  verdict, and where a document or a spec makes the code panic.
  \<open>Engine\<close> (\<^verbatim>\<open>engine.go\<close>) converts analyzers for agents, runs the agents and sums up; the locale \<open>registry\<close> is the
  contract of the map of agents.

  \<^bold>\<open>Specs\<close> (\<^verbatim>\<open>pkg/loader\<close>, \<^verbatim>\<open>pkg/docrewrite\<close>, \<^verbatim>\<open>internal/specs\<close>, the v1beta3 converter). \<open>Spec_Loader\<close> reads specs from texts,
  arguments and clusters, converts their versions, resolves references, merges them and writes them back; loading what was
  written gives it back, and loading in parts is loading together.

  \<^bold>\<open>Images\<close> (\<^verbatim>\<open>pkg/collect/images\<close>). \<open>Image_References\<close> parses references and digests and picks credentials; \<open>Image_Cache\<close> is the
  cache of facts, bounded and never wrong, with the locale \<open>lossy_map\<close> as its contract; \<open>Image_Facts\<close> resolves manifests, collects
  facts with several goroutines (a step relation) and builds reports. \<open>Exchange_Sort\<close> is the sort by two index loops that
  the cache and the namespace scanner share.

  \<^bold>\<open>Autodiscovery\<close> (\<^verbatim>\<open>pkg/collect/autodiscovery\<close>, \<^verbatim>\<open>cmd/troubleshoot/cli\<close>). \<open>Kots_Detection\<close> (\<^verbatim>\<open>interfaces.go\<close>,
  \<^verbatim>\<open>kots_detector.go\<close>) has the specs and the applications found in namespaces; \<open>Discovery_Permissions\<close> (\<^verbatim>\<open>rbac_checker.go\<close>,
  \<^verbatim>\<open>rbac_reporter.go\<close>) asks for permissions with up to ten goroutines, a step relation whose every run lets the same resources
  through and ends, and has the second interpretation of \<open>lossy_map\<close>; \<open>Namespace_Scanner\<close> (\<^verbatim>\<open>namespace_scanner.go\<close>,
  \<^verbatim>\<open>discovery_config.go\<close>) selects namespaces by patterns; \<open>Resource_Expander\<close> (\<^verbatim>\<open>resource_expander.go\<close>) expands namespaces by rules;
  \<open>Autodiscovery\<close> (\<^verbatim>\<open>discoverer.go\<close>, \<^verbatim>\<open>auto_discovery.go\<close>) composes them into the collectors of a bundle: contents of
  secrets are read only when the YAML spec asks, what is left out is reported, and which collectors of the YAML spec survive.

  \<^bold>\<open>Scheduler\<close> (\<^verbatim>\<open>pkg/schedule\<close>). \<open>Cron\<close> validates and matches schedules, \<open>Scheduler\<close> keeps the job files and runs the daemon
  as a step relation over ticks and ends of executions.

  \<^bold>\<open>Not modelled.\<close> What collectors fetch, host and remote collection, downloading, terminal output, command lines and
  generated code are input and output without decisions of their own, or code the repository only calls. The agents of the
  analysis engine and the generators and artifacts around them put texts together or call models over the network. Of container
  images, HTTP, TLS and the decoding of JSON are parameters. Deadlines of contexts, spans and logs are left out throughout.
\<close>

end
